(* ===== verification/Prelude.thy ===== *)
theory Prelude
  imports Main "HOL-Library.AList" "HOL-Library.Multiset"
begin

text \<open>Shared vocabulary of the development: the collections of rewrite rules the components add
  to, the units of time (Go's \<open>time.Duration\<close> and instants, in nanoseconds), list lemmas that
  several components use, and the exact insertion sort that Go's \<open>sort.Slice\<close> runs on short
  slices, with the interface (a strict weak order) under which its result is specified.\<close>

named_theorems lru_defs \<open>definitions of the LRU operations\<close>
named_theorems time_defs \<open>units of time and the constants built from them\<close>
named_theorems key_lists \<open>facts on association lists with distinct keys\<close>

section \<open>Time\<close>

type_synonym instant = int  \<comment> \<open>nanoseconds since an epoch\<close>
type_synonym duration = int \<comment> \<open>nanoseconds\<close>

definition millisecond :: duration where "millisecond = 1000000"
definition second :: duration where "second = 1000000000"
definition minute :: duration where "minute = 60 * second"
definition hour :: duration where "hour = 60 * minute"

lemmas time_unit_defs [time_defs] = millisecond_def second_def minute_def hour_def

lemma time_units_pos [simp]: "0 < millisecond" "0 < second" "0 < minute" "0 < hour"
  by (simp_all add: time_defs)

text \<open>Go's integer division and remainder truncate toward zero.\<close>

definition go_div :: "int \<Rightarrow> int \<Rightarrow> int" where
  "go_div a b = (if (a < 0) = (b < 0) then \<bar>a\<bar> div \<bar>b\<bar> else - (\<bar>a\<bar> div \<bar>b\<bar>))"

lemma go_div_nonneg [simp]: "0 \<le> a \<Longrightarrow> 0 < b \<Longrightarrow> go_div a b = a div b"
  by (simp add: go_div_def)

section \<open>Key lists\<close>

text \<open>Association lists with distinct keys: removing a key, moving a key to the front.\<close>

definition keys_of :: "('k \<times> 'v) list \<Rightarrow> 'k list" where
  "keys_of xs = map fst xs"

definition drop_key :: "'k \<Rightarrow> ('k \<times> 'v) list \<Rightarrow> ('k \<times> 'v) list" where
  "drop_key k xs = filter (\<lambda>p. fst p \<noteq> k) xs"

lemma keys_of_simps [simp]: "keys_of [] = []" "keys_of (p # xs) = fst p # keys_of xs"
  "keys_of (xs @ ys) = keys_of xs @ keys_of ys" "length (keys_of xs) = length xs"
  by (simp_all add: keys_of_def)

lemma set_keys_of: "set (keys_of xs) = fst ` set xs"
  by (simp add: keys_of_def)

lemma drop_key_simps [simp]: "drop_key k [] = []"
  "drop_key k (p # xs) = (if fst p = k then drop_key k xs else p # drop_key k xs)"
  "drop_key k (xs @ ys) = drop_key k xs @ drop_key k ys"
  by (simp_all add: drop_key_def)

lemma map_of_drop_key [simp, key_lists]: "map_of (drop_key k xs) = (map_of xs)(k := None)"
  by (induction xs) auto

lemma set_keys_drop_key [simp, key_lists]: "set (keys_of (drop_key k xs)) = set (keys_of xs) - {k}"
  by (induction xs) auto

lemma distinct_keys_drop_key [simp, key_lists]:
  "distinct (keys_of xs) \<Longrightarrow> distinct (keys_of (drop_key k xs))"
  by (induction xs) auto

lemma drop_key_absent [simp, key_lists]: "k \<notin> set (keys_of xs) \<Longrightarrow> drop_key k xs = xs"
  by (induction xs) auto

lemma length_drop_key_le: "length (drop_key k xs) \<le> length xs"
  by (simp add: drop_key_def)

lemma length_drop_key_present [key_lists]:
  "distinct (keys_of xs) \<Longrightarrow> k \<in> set (keys_of xs) \<Longrightarrow> Suc (length (drop_key k xs)) = length xs"
  by (induction xs) auto

lemma map_of_eq_None_keys: "map_of xs k = None \<longleftrightarrow> k \<notin> set (keys_of xs)"
  by (induction xs) auto

lemma map_of_Some_keys: "map_of xs k = Some v \<Longrightarrow> k \<in> set (keys_of xs)"
  by (induction xs) (auto split: if_splits)

lemma distinct_keys_filter [key_lists]:
  "distinct (keys_of xs) \<Longrightarrow> distinct (keys_of (filter P xs))"
  by (induction xs) (auto simp: keys_of_def)

lemma distinct_keys_butlast [key_lists]:
  "distinct (keys_of xs) \<Longrightarrow> distinct (keys_of (butlast xs))"
  by (simp add: keys_of_def map_butlast distinct_butlast)

lemma distinct_keys_map_of [key_lists]:
  "distinct (keys_of xs) \<Longrightarrow> (k, v) \<in> set xs \<longleftrightarrow> map_of xs k = Some v"
  by (simp add: keys_of_def)

section \<open>sort.Slice\<close>

text \<open>The insertion sort of Go's \<open>sort\<close> package (the whole of \<open>sort.Slice\<close> on slices of at most
  twelve elements): each element moves left while it is less than its left neighbour. The
  accumulator is the sorted prefix, reversed.\<close>

fun go_insert :: "('a \<Rightarrow> 'a \<Rightarrow> bool) \<Rightarrow> 'a \<Rightarrow> 'a list \<Rightarrow> 'a list" where
  "go_insert lt x [] = [x]"
| "go_insert lt x (y # ys) = (if lt x y then y # go_insert lt x ys else x # y # ys)"

definition go_sort_slice :: "('a \<Rightarrow> 'a \<Rightarrow> bool) \<Rightarrow> 'a list \<Rightarrow> 'a list" where
  "go_sort_slice lt xs = rev (foldl (\<lambda>acc x. go_insert lt x acc) [] xs)"

lemma mset_go_insert [simp]: "mset (go_insert lt x xs) = add_mset x (mset xs)"
  by (induction xs) auto

lemma mset_foldl_go_insert:
  "mset (foldl (\<lambda>acc x. go_insert lt x acc) acc xs) = mset acc + mset xs"
  by (induction xs arbitrary: acc) auto

lemma mset_go_sort_slice [simp]: "mset (go_sort_slice lt xs) = mset xs"
  by (simp add: go_sort_slice_def mset_foldl_go_insert)

lemma set_go_sort_slice [simp]: "set (go_sort_slice lt xs) = set xs"
  using mset_go_sort_slice[of lt xs] by (rule mset_eq_setD)

lemma length_go_sort_slice [simp]: "length (go_sort_slice lt xs) = length xs"
  using mset_go_sort_slice[of lt xs] by (rule mset_eq_length)

lemma distinct_go_sort_slice [simp]: "distinct (go_sort_slice lt xs) = distinct xs"
  using mset_go_sort_slice[of lt xs] mset_eq_imp_distinct_iff by blast

locale weak_order =
  fixes lt :: "'a \<Rightarrow> 'a \<Rightarrow> bool"
  assumes less_asym: "lt a b \<Longrightarrow> \<not> lt b a"
    and less_ntrans: "\<not> lt a b \<Longrightarrow> \<not> lt b c \<Longrightarrow> \<not> lt a c"
begin

lemma go_insert_sorted:
  "sorted_wrt (\<lambda>a b. \<not> lt a b) xs \<Longrightarrow> sorted_wrt (\<lambda>a b. \<not> lt a b) (go_insert lt x xs)"
proof (induction xs)
  case (Cons y ys)
  have "set (go_insert lt x ys) = insert x (set ys)"
    by (metis mset_go_insert set_mset_add_mset_insert set_mset_mset)
  moreover have "lt x y \<Longrightarrow> \<not> lt y x"
    by (rule less_asym)
  moreover have "\<not> lt x y \<Longrightarrow> z \<in> set ys \<Longrightarrow> \<not> lt x z" for z
    using Cons.prems less_ntrans[of x y z] by simp
  ultimately show ?case using Cons by simp
qed simp

lemma foldl_go_insert_sorted:
  "sorted_wrt (\<lambda>a b. \<not> lt a b) acc \<Longrightarrow>
   sorted_wrt (\<lambda>a b. \<not> lt a b) (foldl (\<lambda>acc x. go_insert lt x acc) acc xs)"
  by (induction xs arbitrary: acc) (auto intro: go_insert_sorted)

lemma go_sort_slice_sorted: "sorted_wrt (\<lambda>a b. \<not> lt b a) (go_sort_slice lt xs)"
  using foldl_go_insert_sorted[of "[]" xs] by (simp add: go_sort_slice_def sorted_wrt_rev)

end

lemma weak_order_by_key: "weak_order (\<lambda>a b. (f a :: 'k :: linorder) < f b)"
  by unfold_locales auto

lemma weak_order_by_key_desc: "weak_order (\<lambda>a b. (f a :: 'k :: linorder) > f b)"
  by unfold_locales auto

section \<open>First occurrences\<close>

text \<open>The common Go loop with a \<open>seen\<close> map: keep an element the first time its key is met.\<close>

fun keep_first :: "('a \<Rightarrow> 'k) \<Rightarrow> 'k set \<Rightarrow> 'a list \<Rightarrow> 'a list" where
  "keep_first f seen [] = []"
| "keep_first f seen (x # xs) =
    (if f x \<in> seen then keep_first f seen xs else x # keep_first f (insert (f x) seen) xs)"

lemma keep_first_keys_not_seen: "x \<in> set (keep_first f seen xs) \<Longrightarrow> f x \<notin> seen"
  by (induction f seen xs rule: keep_first.induct) (auto split: if_splits)

lemma keep_first_subset: "set (keep_first f seen xs) \<subseteq> set xs"
  by (induction f seen xs rule: keep_first.induct) auto

lemma keep_first_distinct: "distinct (map f (keep_first f seen xs))"
proof (induction xs arbitrary: seen)
  case (Cons x xs)
  have "f x \<notin> f ` set (keep_first f (insert (f x) seen) xs)"
    by (metis imageE insertI1 keep_first_keys_not_seen)
  then show ?case using Cons.IH by simp
qed simp

lemma keep_first_keys: "f ` set (keep_first f seen xs) = f ` set xs - seen"
  by (induction f seen xs rule: keep_first.induct) auto

end
