(* ===== verification/Lru_Spec.thy ===== *)
theory Lru_Spec
  imports Prelude
begin

text \<open>What an LRU store of the cache package promises, as operations on the list of its key-value
  pairs, most recently used first, and the interface \<open>lru_store\<close> that the program's three
  implementations provide: \<open>LRUCache\<close> and \<open>ShardedLRUShard\<close> (over \<open>container/list\<close>) and
  \<open>CacheShard\<close> (over the hand-written doubly linked \<open>CacheList\<close>).  The lemmas of the interface are
  proved once here, and reach the implementations by interpretation.\<close>

section \<open>The abstract LRU list\<close>

definition spec_touch :: "string \<Rightarrow> (string \<times> 'v) list \<Rightarrow> (string \<times> 'v) list" where
  "spec_touch k xs = (case map_of xs k of None \<Rightarrow> xs | Some v \<Rightarrow> (k, v) # drop_key k xs)"

definition spec_trim :: "int \<Rightarrow> (string \<times> 'v) list \<Rightarrow> (string \<times> 'v) list" where
  "spec_trim cap xs = (if 0 < cap \<and> cap < int (length xs) then butlast xs else xs)"

definition spec_set :: "int \<Rightarrow> string \<Rightarrow> 'v \<Rightarrow> (string \<times> 'v) list \<Rightarrow> (string \<times> 'v) list" where
  "spec_set cap k v xs =
     (if map_of xs k = None then spec_trim cap ((k, v) # xs) else (k, v) # drop_key k xs)"

definition spec_evicted :: "int \<Rightarrow> string \<Rightarrow> 'v \<Rightarrow> (string \<times> 'v) list \<Rightarrow> (string \<times> 'v) list" where
  "spec_evicted cap k v xs =
     (if map_of xs k = None \<and> 0 < cap \<and> cap < int (length xs) + 1 then [last ((k, v) # xs)] else [])"

definition spec_ok :: "int \<Rightarrow> (string \<times> 'v) list \<Rightarrow> bool" where
  "spec_ok cap xs \<longleftrightarrow> distinct (keys_of xs) \<and> (0 < cap \<longrightarrow> int (length xs) \<le> cap)"

lemma spec_ok_Nil [simp]: "spec_ok cap []"
  by (simp add: spec_ok_def)

lemma spec_ok_drop_key [simp]: "spec_ok cap xs \<Longrightarrow> spec_ok cap (drop_key k xs)"
  using length_drop_key_le[of k xs] by (auto simp: spec_ok_def)

lemma spec_ok_filter: "spec_ok cap xs \<Longrightarrow> spec_ok cap (filter P xs)"
  by (auto simp: spec_ok_def distinct_keys_filter
      intro: order_trans[OF of_nat_mono[OF length_filter_le]])

lemma spec_ok_touch [simp]: "spec_ok cap xs \<Longrightarrow> spec_ok cap (spec_touch k xs)"
  by (auto simp: spec_ok_def spec_touch_def length_drop_key_present dest!: map_of_Some_keys
      split: option.splits) (metis length_drop_key_present of_nat_Suc order.trans order_refl)+

lemma spec_ok_set [simp]:
  assumes "spec_ok cap xs" shows "spec_ok cap (spec_set cap k v xs)"
proof (cases "map_of xs k = None")
  case True
  then show ?thesis using assms
    by (auto simp: spec_ok_def spec_set_def spec_trim_def map_of_eq_None_keys
        intro: distinct_keys_butlast in_set_butlastD)
       (auto simp: keys_of_def map_butlast distinct_butlast dest: in_set_butlastD)
next
  case False
  then have "Suc (length (drop_key k xs)) = length xs"
    using assms by (simp add: length_drop_key_present map_of_eq_None_keys spec_ok_def)
  then show ?thesis using assms False by (auto simp: spec_ok_def spec_set_def)
qed

lemma map_of_touch [simp]: "map_of (spec_touch k xs) = map_of xs"
  by (auto simp: spec_touch_def split: option.splits)

lemma map_of_butlast:
  assumes "distinct (keys_of xs)" "xs \<noteq> []"
  shows "map_of (butlast xs) = (map_of xs)(fst (last xs) := None)"
proof -
  obtain ys y where xs: "xs = ys @ [y]" using assms(2) by (metis append_butlast_last_id)
  have "map_of ys (fst y) = None"
    using assms(1) by (simp add: xs map_of_eq_None_keys)
  then show ?thesis
    by (auto simp: xs fun_eq_iff map_add_def split: option.splits)
qed

text \<open>A lookup after a set: the new value at the key; every other key keeps its value, except
  the least recently used one when it had to make room.\<close>

lemma map_of_spec_set_same:
  assumes "spec_ok cap xs" shows "map_of (spec_set cap k v xs) k = Some v"
proof (cases "map_of xs k = None \<and> 0 < cap \<and> cap < int (length ((k, v) # xs))")
  case True
  then have "xs \<noteq> []" by auto
  then have "fst (last xs) \<noteq> k"
    using True by (metis last_in_set map_of_eq_None_iff imageI)
  then show ?thesis using True \<open>xs \<noteq> []\<close>
    by (auto simp: spec_set_def spec_trim_def)
qed (auto simp: spec_set_def spec_trim_def)

lemma map_of_spec_set_other:
  assumes "spec_ok cap xs" "j \<noteq> k"
  shows "map_of (spec_set cap k v xs) j =
    (if spec_evicted cap k v xs \<noteq> [] \<and> j = fst (last xs) then None else map_of xs j)"
proof (cases "map_of xs k = None \<and> 0 < cap \<and> cap < int (length ((k, v) # xs))")
  case True
  then have "distinct (keys_of ((k, v) # xs))" "xs \<noteq> []"
    using assms(1) by (auto simp: spec_ok_def map_of_eq_None_keys)
  then show ?thesis
    using True assms(2) map_of_butlast[of "(k, v) # xs"]
    by (auto simp: spec_set_def spec_trim_def spec_evicted_def)
next
  case False
  then show ?thesis using assms(2)
    by (auto simp: spec_set_def spec_trim_def spec_evicted_def)
qed

lemma hd_spec_set: "spec_ok cap xs \<Longrightarrow> spec_set cap k v xs \<noteq> [] \<and> hd (spec_set cap k v xs) = (k, v)"
  by (auto simp: spec_set_def spec_trim_def)

lemma keys_spec_trim: "set (keys_of (spec_trim c xs)) \<subseteq> set (keys_of xs)"
  by (auto simp: spec_trim_def set_keys_of dest: in_set_butlastD)

lemma keys_spec_set: "set (keys_of (spec_set c k v xs)) \<subseteq> insert k (set (keys_of xs))"
  using keys_spec_trim[of c "(k, v) # xs"] by (auto simp: spec_set_def)

text \<open>Recency: a pair that is not the last of a full list survives a set, one place further back.\<close>

lemma spec_set_recent:
  assumes "i < length xs" "fst (xs ! i) \<noteq> k" "0 < cap \<Longrightarrow> int i + 1 < cap"
    "distinct (keys_of xs)"
  shows "xs ! i \<in> set (spec_set cap k v xs)"
proof (cases "map_of xs k = None \<and> 0 < cap \<and> cap < int (length ((k, v) # xs))")
  case True
  then have i: "i < length (butlast xs)" using assms(3) by auto
  then have "xs ! i = butlast xs ! i" by (simp add: nth_butlast)
  then have "xs ! i \<in> set (butlast xs)" using i by simp
  then show ?thesis using True by (auto simp: spec_set_def spec_trim_def)
next
  case False
  then show ?thesis using assms
    by (auto simp: spec_set_def spec_trim_def drop_key_def)
qed

section \<open>The interface\<close>

locale lru_store =
  fixes inv :: "'s \<Rightarrow> bool"
    and content :: "'s \<Rightarrow> (string \<times> 'v) list"
    and cap :: "'s \<Rightarrow> int"
    and set_op :: "string \<Rightarrow> 'v \<Rightarrow> 's \<Rightarrow> 's"
    and lookup :: "string \<Rightarrow> 's \<Rightarrow> 'v option"
    and touch :: "string \<Rightarrow> 's \<Rightarrow> 's"
    and delete :: "string \<Rightarrow> 's \<Rightarrow> 's"
  assumes content_ok: "inv s \<Longrightarrow> spec_ok (cap s) (content s)"
    and lookup_content: "inv s \<Longrightarrow> lookup k s = map_of (content s) k"
    and set_refines: "inv s \<Longrightarrow> content (set_op k v s) = spec_set (cap s) k v (content s)"
    and set_keeps: "inv s \<Longrightarrow> inv (set_op k v s)" "inv s \<Longrightarrow> cap (set_op k v s) = cap s"
    and touch_refines: "inv s \<Longrightarrow> content (touch k s) = spec_touch k (content s)"
    and touch_keeps: "inv s \<Longrightarrow> inv (touch k s)" "inv s \<Longrightarrow> cap (touch k s) = cap s"
    and delete_refines: "inv s \<Longrightarrow> content (delete k s) = drop_key k (content s)"
    and delete_keeps: "inv s \<Longrightarrow> inv (delete k s)" "inv s \<Longrightarrow> cap (delete k s) = cap s"
begin

lemma bounded: "inv s \<Longrightarrow> 0 < cap s \<Longrightarrow> int (length (content s)) \<le> cap s"
  using content_ok[of s] by (simp add: spec_ok_def)

lemma keys_distinct: "inv s \<Longrightarrow> distinct (keys_of (content s))"
  using content_ok[of s] by (simp add: spec_ok_def)

lemma lookup_set_same: "inv s \<Longrightarrow> lookup k (set_op k v s) = Some v"
  by (simp add: lookup_content set_keeps set_refines content_ok map_of_spec_set_same)

lemma lookup_set_other:
  "inv s \<Longrightarrow> j \<noteq> k \<Longrightarrow> lookup j (set_op k v s) =
     (if spec_evicted (cap s) k v (content s) \<noteq> [] \<and> j = fst (last (content s)) then None else lookup j s)"
  using map_of_spec_set_other[OF content_ok, of s j k v]
  by (simp add: lookup_content set_keeps set_refines)

lemma lookup_touch: "inv s \<Longrightarrow> lookup j (touch k s) = lookup j s"
  by (simp add: lookup_content touch_keeps touch_refines)

lemma lookup_delete: "inv s \<Longrightarrow> lookup j (delete k s) = (if j = k then None else lookup j s)"
  by (simp add: lookup_content delete_keeps delete_refines)

lemma set_survives:
  assumes "inv s" "i < length (content s)" "content s ! i = (j, w)" "j \<noteq> k"
    "0 < cap s \<Longrightarrow> int i + 1 < cap s"
  shows "lookup j (set_op k v s) = Some w"
proof -
  have "(j, w) \<in> set (spec_set (cap s) k v (content s))"
    using spec_set_recent[of i "content s" k "cap s" v] assms keys_distinct by simp
  moreover have "spec_ok (cap s) (spec_set (cap s) k v (content s))"
    by (simp add: assms(1) content_ok)
  ultimately show ?thesis
    by (simp add: assms(1) lookup_content set_keeps set_refines spec_ok_def distinct_keys_map_of)
qed

text \<open>A whole sequence of operations: what is looked up comes from the last set of the key.\<close>

lemma fold_set_inv:
  "inv s \<Longrightarrow> inv (fold (\<lambda>(k, v). set_op k v) kvs s) \<and> cap (fold (\<lambda>(k, v). set_op k v) kvs s) = cap s"
  by (induction kvs arbitrary: s) (auto simp: set_keeps)

lemma lookup_in_content: "inv s \<Longrightarrow> lookup k s = Some v \<longleftrightarrow> (k, v) \<in> set (content s)"
  by (simp add: lookup_content distinct_keys_map_of keys_distinct)

end

end
