(* ===== verification/Sharding.thy ===== *)
theory Sharding
  imports Lru_Spec "HOL-Library.Word"
begin

text \<open>What the two sharded caches of \<open>cache/\<close> share: the FNV-1a hash of \<open>hash/fnv\<close> with which
  \<open>getShard\<close> picks a shard, the sizes computed by the two constructors, and the client side of the
  interface \<open>lru_store\<close>: a list of shards, each holding only the keys that hash to it, behaves as
  one store.\<close>

unbundle bit_operations_syntax

section \<open>FNV-1a and the shard index\<close>

definition fnv32a :: "string \<Rightarrow> 32 word" where
  "fnv32a key = foldl (\<lambda>h c. (h XOR of_char c) * 16777619) 2166136261 key"

definition getShard_index :: "32 word \<Rightarrow> string \<Rightarrow> nat" where
  "getShard_index msk key = unat (fnv32a key AND msk)"

lemma getShard_index_bound: "getShard_index msk key \<le> unat msk"
  unfolding getShard_index_def by (metis word_and_le1 word_le_nat_alt)

definition shard_count :: "int \<Rightarrow> int" where
  "shard_count n = (if n \<le> 0 \<or> (n AND (n - 1)) \<noteq> 0 then 32 else n)"

definition shard_capacity :: "int \<Rightarrow> int \<Rightarrow> int" where
  "shard_capacity tot n = go_div (tot + n - 1) n"

definition access_chan_capacity :: "int \<Rightarrow> int" where
  "access_chan_capacity cap =
     (let c = go_div cap 10; c1 = (if c < 100 then 100 else c) in if 1000 < c1 then 1000 else c1)"

definition shard_mask :: "int \<Rightarrow> 32 word" where
  "shard_mask n = word_of_int (n - 1)"

lemma shard_count_pos: "0 < shard_count n"
  by (simp add: shard_count_def)

lemma unat_shard_mask: "0 < n \<Longrightarrow> unat (shard_mask n) < nat n"
proof -
  assume n: "0 < n"
  have "uint (shard_mask n) \<le> n - 1"
    unfolding shard_mask_def uint_word_of_int by (rule zmod_le_nonneg_dividend) (use n in simp)
  then have "int (unat (shard_mask n)) < n" unfolding uint_nat by linarith
  then show ?thesis using n by linarith
qed

text \<open>The shards together hold at least the requested number of entries, and less than one
  entry per shard more.\<close>

lemma shard_capacity_bounds:
  assumes "0 < n" "0 \<le> tot"
  shows "tot \<le> shard_capacity tot n * n" "shard_capacity tot n * n < tot + n"
proof -
  have c: "shard_capacity tot n = (tot + n - 1) div n"
    using assms by (simp add: shard_capacity_def)
  have "(tot + n - 1) div n * n + (tot + n - 1) mod n = tot + n - 1"
    by (simp add: div_mult_mod_eq)
  moreover have "0 \<le> (tot + n - 1) mod n" "(tot + n - 1) mod n < n"
    using assms by simp_all
  ultimately show "tot \<le> shard_capacity tot n * n" "shard_capacity tot n * n < tot + n"
    unfolding c by linarith+
qed

lemma access_chan_capacity_bounds: "100 \<le> access_chan_capacity c \<and> access_chan_capacity c \<le> 1000"
  by (simp add: access_chan_capacity_def Let_def)

section \<open>A list of shards as one store\<close>

definition shards_content :: "('s \<Rightarrow> (string \<times> 'v) list) \<Rightarrow> 's list \<Rightarrow> (string \<times> 'v) list" where
  "shards_content content ss = concat (map content ss)"

definition shards_ok ::
  "('s \<Rightarrow> bool) \<Rightarrow> ('s \<Rightarrow> (string \<times> 'v) list) \<Rightarrow> 32 word \<Rightarrow> 's list \<Rightarrow> bool" where
  "shards_ok okf content msk ss \<longleftrightarrow> unat msk < length ss \<and>
     (\<forall>i < length ss. okf (ss ! i) \<and> (\<forall>k \<in> set (keys_of (content (ss ! i))). getShard_index msk k = i))"

lemma shards_ok_index: "shards_ok okf content msk ss \<Longrightarrow> getShard_index msk k < length ss"
  using getShard_index_bound[of msk k] by (simp add: shards_ok_def)

lemma shards_ok_nth: "shards_ok okf content msk ss \<Longrightarrow> okf (ss ! getShard_index msk k)"
  using shards_ok_index[of okf content msk ss k] by (simp add: shards_ok_def)

lemma shards_ok_update:
  assumes "shards_ok okf content msk ss" "okf s'"
    "\<And>j. j \<in> set (keys_of (content s')) \<Longrightarrow> getShard_index msk j = i"
  shows "shards_ok okf content msk (ss[i := s'])"
proof -
  have "ss[i := s'] ! j = (if j = i then s' else ss ! j)" if "j < length ss" for j
    using that by (cases "j = i") simp_all
  then show ?thesis using assms by (simp add: shards_ok_def)
qed

lemma keys_of_concat: "keys_of (concat xss) = concat (map keys_of xss)"
  by (induction xss) simp_all

lemma shards_keys_disjoint:
  assumes "shards_ok okf content msk ss" "i < length ss" "j < length ss" "i \<noteq> j"
  shows "set (keys_of (content (ss ! i))) \<inter> set (keys_of (content (ss ! j))) = {}"
proof -
  have "getShard_index msk k = i" if "k \<in> set (keys_of (content (ss ! i)))" for k
    using that assms(1,2) by (simp add: shards_ok_def)
  moreover have "getShard_index msk k = j" if "k \<in> set (keys_of (content (ss ! j)))" for k
    using that assms(1,3) by (simp add: shards_ok_def)
  ultimately show ?thesis using assms(4) by blast
qed

lemma distinct_concat_nth:
  assumes "\<And>i. i < length xss \<Longrightarrow> distinct (xss ! i)"
    "\<And>i j. i < j \<Longrightarrow> j < length xss \<Longrightarrow> set (xss ! i) \<inter> set (xss ! j) = {}"
  shows "distinct (concat xss)"
  using assms
proof (induction xss)
  case (Cons xs xss)
  have "distinct (concat xss)"
    by (rule Cons.IH) (use Cons.prems(1)[of "Suc _"] Cons.prems(2)[of "Suc _" "Suc _"] in auto)
  moreover have "set xs \<inter> set (concat xss) = {}"
    using Cons.prems(2)[of 0 "Suc _"] by (fastforce simp: in_set_conv_nth)
  moreover have "distinct xs" using Cons.prems(1)[of 0] by simp
  ultimately show ?case by simp
qed simp

context lru_store
begin

lemma shards_distinct:
  assumes "shards_ok inv content msk ss"
  shows "distinct (keys_of (shards_content content ss))"
  unfolding shards_content_def keys_of_concat
proof (rule distinct_concat_nth)
  fix i assume "i < length (map keys_of (map content ss))"
  then show "distinct (map keys_of (map content ss) ! i)"
    using assms keys_distinct by (simp add: shards_ok_def)
next
  fix i j assume "i < j" "j < length (map keys_of (map content ss))"
  then show "set (map keys_of (map content ss) ! i) \<inter> set (map keys_of (map content ss) ! j) = {}"
    using shards_keys_disjoint[OF assms, of i j] by simp
qed

text \<open>Looking up a key in its shard is looking it up in the whole content.\<close>

lemma shards_lookup:
  assumes "shards_ok inv content msk ss"
  shows "lookup k (ss ! getShard_index msk k) = map_of (shards_content content ss) k"
proof -
  let ?s = "ss ! getShard_index msk k"
  note i = shards_ok_index[OF assms, of k]
  have inv: "inv ?s" by (rule shards_ok_nth[OF assms])
  have "(k, v) \<in> set (shards_content content ss) \<longleftrightarrow> (k, v) \<in> set (content ?s)" for v
  proof
    assume "(k, v) \<in> set (shards_content content ss)"
    then obtain j where j: "j < length ss" "(k, v) \<in> set (content (ss ! j))"
      by (auto simp: shards_content_def in_set_conv_nth[of _ ss])
    then have "k \<in> set (keys_of (content (ss ! j)))" by (force simp: set_keys_of)
    then have "getShard_index msk k = j" using assms j(1) by (simp add: shards_ok_def)
    then show "(k, v) \<in> set (content ?s)" using j by simp
  next
    assume "(k, v) \<in> set (content ?s)"
    then show "(k, v) \<in> set (shards_content content ss)"
      using nth_mem[OF i] by (auto simp: shards_content_def)
  qed
  then show ?thesis
    using shards_distinct[OF assms] keys_distinct[OF inv]
    by (metis distinct_keys_map_of inv lookup_content not_None_eq)
qed

lemma keys_set_op: "inv s \<Longrightarrow> set (keys_of (content (set_op k v s))) \<subseteq> insert k (set (keys_of (content s)))"
  by (simp add: set_refines keys_spec_set)

lemma shards_set_ok:
  assumes "shards_ok inv content msk ss" "i = getShard_index msk k"
  shows "shards_ok inv content msk (ss[i := set_op k v (ss ! i)])"
proof (rule shards_ok_update[OF assms(1)])
  have i: "inv (ss ! i)" using shards_ok_nth[OF assms(1)] assms(2) by simp
  show "inv (set_op k v (ss ! i))" by (rule set_keeps[OF i])
  fix j assume "j \<in> set (keys_of (content (set_op k v (ss ! i))))"
  then have "j = k \<or> j \<in> set (keys_of (content (ss ! i)))" using keys_set_op[OF i] by blast
  then show "getShard_index msk j = i"
    using assms shards_ok_index[OF assms(1), of k] by (auto simp: shards_ok_def)
qed

lemma shards_delete_ok:
  assumes "shards_ok inv content msk ss" "i = getShard_index msk k"
  shows "shards_ok inv content msk (ss[i := delete k (ss ! i)])"
proof (rule shards_ok_update[OF assms(1)])
  have i: "inv (ss ! i)" using shards_ok_nth[OF assms(1)] assms(2) by simp
  show "inv (delete k (ss ! i))" by (rule delete_keeps[OF i])
  fix j assume "j \<in> set (keys_of (content (delete k (ss ! i))))"
  then have "j \<in> set (keys_of (content (ss ! i)))" by (simp add: delete_refines[OF i])
  then show "getShard_index msk j = i"
    using assms shards_ok_index[OF assms(1), of k] by (auto simp: shards_ok_def)
qed

lemma shards_lookup_set_same:
  assumes "shards_ok inv content msk ss" "i = getShard_index msk k"
  shows "lookup k (ss[i := set_op k v (ss ! i)] ! getShard_index msk k) = Some v"
  using shards_ok_nth[OF assms(1), of k] shards_ok_index[OF assms(1), of k]
  by (simp add: assms(2) lookup_set_same)

text \<open>A set disturbs no key of another shard, and in its own shard at most the least recently
  used one.\<close>

lemma shards_lookup_set_other:
  assumes "shards_ok inv content msk ss" "i = getShard_index msk k" "j \<noteq> k"
  shows "lookup j (ss[i := set_op k v (ss ! i)] ! getShard_index msk j) =
    (if getShard_index msk j = i \<and> spec_evicted (cap (ss ! i)) k v (content (ss ! i)) \<noteq> []
        \<and> j = fst (last (content (ss ! i))) then None
     else lookup j (ss ! getShard_index msk j))"
  using shards_ok_nth[OF assms(1), of k] shards_ok_index[OF assms(1), of k] assms(2,3)
  by (auto simp: nth_list_update lookup_set_other)

lemma shards_lookup_delete:
  assumes "shards_ok inv content msk ss" "i = getShard_index msk k"
  shows "lookup j (ss[i := delete k (ss ! i)] ! getShard_index msk j) =
    (if j = k then None else lookup j (ss ! getShard_index msk j))"
  using shards_ok_nth[OF assms(1), of k] shards_ok_index[OF assms(1), of k] assms(2)
  by (auto simp: nth_list_update lookup_delete)

lemma shards_bounded:
  assumes "shards_ok inv content msk ss" "\<And>s. s \<in> set ss \<Longrightarrow> cap s = c" "0 < c"
  shows "int (length (shards_content content ss)) \<le> c * int (length ss)"
proof -
  have "inv s \<and> int (length (content s)) \<le> c" if "s \<in> set ss" for s
    using that assms bounded[of s] by (force simp: shards_ok_def in_set_conv_nth)
  then show ?thesis
    unfolding shards_content_def
    by (induction ss) (auto simp: algebra_simps, smt (verit))
qed

end

end
