(* ===== verification/Cache_List.thy ===== *)
theory Cache_List
  imports Prelude "HOL-Library.Monad_Syntax"
begin

text \<open>The hand-written doubly linked list of \<open>cache/sharded_cache.go\<close> (\<open>CacheNode\<close>, \<open>CacheList\<close>),
  at the level of its pointers: a store maps addresses to nodes, \<open>nil\<close> is \<open>None\<close>, and each
  operation performs the assignments of the code in their order. \<open>dll\<close> relates a store and a list
  header to the list of addresses they spell; every operation is shown to refine the list
  operation it stands for, and the walk over \<open>next\<close> pointers to end with the nodes in order.\<close>

record 'v CacheNode =
  cn_key :: string
  cn_value :: 'v
  cn_prev :: "nat option"
  cn_next :: "nat option"

record CacheList =
  cl_head :: "nat option"
  cl_tail :: "nat option"
  cl_len :: int

type_synonym 'v store = "nat \<rightharpoonup> 'v CacheNode"

definition upd_node :: "nat \<Rightarrow> ('v CacheNode \<Rightarrow> 'v CacheNode) \<Rightarrow> 'v store \<Rightarrow> 'v store" where
  "upd_node p f h = (case h p of None \<Rightarrow> h | Some n \<Rightarrow> h(p \<mapsto> f n))"

definition empty_list :: CacheList where
  "empty_list = \<lparr>cl_head = None, cl_tail = None, cl_len = 0\<rparr>"

definition CacheList_pushFront :: "nat \<Rightarrow> 'v store \<times> CacheList \<Rightarrow> 'v store \<times> CacheList" where
  "CacheList_pushFront node s = (case s of (h, cl) \<Rightarrow>
     (let h1 = upd_node node (\<lambda>n. n\<lparr>cn_prev := None\<rparr>) h;
          h2 = upd_node node (\<lambda>n. n\<lparr>cn_next := cl_head cl\<rparr>) h1;
          h3 = (case cl_head cl of None \<Rightarrow> h2
                | Some old \<Rightarrow> upd_node old (\<lambda>n. n\<lparr>cn_prev := Some node\<rparr>) h2);
          cl1 = cl\<lparr>cl_head := Some node\<rparr>;
          cl2 = (if cl_tail cl1 = None then cl1\<lparr>cl_tail := Some node\<rparr> else cl1)
      in (h3, cl2\<lparr>cl_len := cl_len cl2 + 1\<rparr>)))"

definition CacheList_remove :: "nat \<Rightarrow> 'v store \<times> CacheList \<Rightarrow> 'v store \<times> CacheList" where
  "CacheList_remove node s = (case s of (h, cl) \<Rightarrow>
     (case h node of None \<Rightarrow> (h, cl)
      | Some nd \<Rightarrow>
         (let (h1, cl1) = (case cn_prev nd of
                 Some p \<Rightarrow> (upd_node p (\<lambda>n. n\<lparr>cn_next := cn_next nd\<rparr>) h, cl)
               | None \<Rightarrow> (h, cl\<lparr>cl_head := cn_next nd\<rparr>));
              (h2, cl2) = (case cn_next nd of
                 Some q \<Rightarrow> (upd_node q (\<lambda>n. n\<lparr>cn_prev := cn_prev nd\<rparr>) h1, cl1)
               | None \<Rightarrow> (h1, cl1\<lparr>cl_tail := cn_prev nd\<rparr>))
          in (h2, cl2\<lparr>cl_len := cl_len cl2 - 1\<rparr>))))"

definition CacheList_moveToFront :: "nat \<Rightarrow> 'v store \<times> CacheList \<Rightarrow> 'v store \<times> CacheList" where
  "CacheList_moveToFront node s =
     (if Some node = cl_head (snd s) then s else CacheList_pushFront node (CacheList_remove node s))"

text \<open>\<open>for elem := head; elem != nil; elem = elem.next\<close>: on a cyclic list the loop does not end.\<close>

partial_function (option) CacheList_walk :: "'v store \<Rightarrow> nat option \<Rightarrow> (string \<times> 'v) list option" where
  "CacheList_walk h p = (case p of None \<Rightarrow> Some []
     | Some a \<Rightarrow> (case h a of None \<Rightarrow> None
        | Some n \<Rightarrow> Option.bind (CacheList_walk h (cn_next n))
                      (\<lambda>rest. Some ((cn_key n, cn_value n) # rest))))"

section \<open>Representation\<close>

text \<open>\<open>dlseg h p xs q\<close>: the nodes at \<open>xs\<close> are linked in order, the first has predecessor \<open>p\<close>, the
  last has successor \<open>q\<close>.\<close>

definition first_or :: "nat list \<Rightarrow> nat option \<Rightarrow> nat option" where
  "first_or xs q = (case xs of [] \<Rightarrow> q | x # _ \<Rightarrow> Some x)"

definition last_or :: "nat option \<Rightarrow> nat list \<Rightarrow> nat option" where
  "last_or p xs = (if xs = [] then p else Some (last xs))"

fun dlseg :: "'v store \<Rightarrow> nat option \<Rightarrow> nat list \<Rightarrow> nat option \<Rightarrow> bool" where
  "dlseg h p [] q \<longleftrightarrow> True"
| "dlseg h p (x # xs) q \<longleftrightarrow> (case h x of None \<Rightarrow> False
     | Some n \<Rightarrow> cn_prev n = p \<and> cn_next n = first_or xs q \<and> dlseg h (Some x) xs q)"

definition dll :: "'v store \<Rightarrow> CacheList \<Rightarrow> nat list \<Rightarrow> bool" where
  "dll h cl xs \<longleftrightarrow> distinct xs \<and> dlseg h None xs None \<and> cl_head cl = first_or xs None
     \<and> cl_tail cl = last_or None xs \<and> cl_len cl = int (length xs)"

definition node_kv :: "'v store \<Rightarrow> nat \<Rightarrow> string \<times> 'v" where
  "node_kv h a = (case h a of Some n \<Rightarrow> (cn_key n, cn_value n))"

lemma first_or_simps [simp]: "first_or [] q = q" "first_or (x # xs) q = Some x"
  by (simp_all add: first_or_def)

lemma first_or_append [simp]: "first_or (xs @ ys) q = first_or xs (first_or ys q)"
  by (simp add: first_or_def split: list.splits)

lemma last_or_simps [simp]: "last_or p [] = p" "last_or p (x # xs) = last_or (Some x) xs"
  "last_or p (xs @ [x]) = Some x" "last_or p (xs @ ys) = last_or (last_or p xs) ys"
  by (simp_all add: last_or_def)

lemma dlseg_append:
  "dlseg h p (xs @ ys) q \<longleftrightarrow> dlseg h p xs (first_or ys q) \<and> dlseg h (last_or p xs) ys q"
  by (induction xs arbitrary: p) (auto split: option.splits)

lemma dlseg_alloc: "dlseg h p xs q \<Longrightarrow> a \<in> set xs \<Longrightarrow> h a \<noteq> None"
  by (induction xs arbitrary: p) (auto split: option.splits)

lemma dlseg_cong: "(\<And>a. a \<in> set xs \<Longrightarrow> h' a = h a) \<Longrightarrow> dlseg h' p xs q = dlseg h p xs q"
  by (induction xs arbitrary: p) (auto split: option.splits)

lemma upd_node_apply: "upd_node a f h b = (if a = b then map_option f (h b) else h b)"
  by (auto simp: upd_node_def split: option.splits)

lemma upd_node_None [simp]: "upd_node a f h b = None \<longleftrightarrow> h b = None"
  by (auto simp: upd_node_apply)

lemma node_kv_upd [simp]:
  assumes "\<And>n. cn_key (f n) = cn_key n" "\<And>n. cn_value (f n) = cn_value n"
  shows "node_kv (upd_node a f h) = node_kv h"
  by (rule ext) (simp add: node_kv_def upd_node_apply assms split: option.splits)

lemma dlseg_upd_outside [simp]: "a \<notin> set xs \<Longrightarrow> dlseg (upd_node a f h) p xs q = dlseg h p xs q"
  by (rule dlseg_cong) (auto simp: upd_node_apply)

text \<open>Redirecting the outer pointers of a segment.\<close>

lemma dlseg_set_prev:
  assumes "dlseg h p (x # xs) q" "x \<notin> set xs"
  shows "dlseg (upd_node x (\<lambda>n. n\<lparr>cn_prev := p'\<rparr>) h) p' (x # xs) q"
  using assms by (auto simp: upd_node_apply split: option.splits)

lemma dlseg_set_next:
  assumes "dlseg h p (xs @ [x]) q" "x \<notin> set xs"
  shows "dlseg (upd_node x (\<lambda>n. n\<lparr>cn_next := q'\<rparr>) h) p (xs @ [x]) q'"
  using assms by (auto simp: dlseg_append upd_node_apply split: option.splits)

lemma dlseg_set_value:
  assumes "\<And>n. cn_prev (f n) = cn_prev n" "\<And>n. cn_next (f n) = cn_next n"
  shows "dlseg (upd_node a f h) p xs q = dlseg h p xs q"
  using assms by (induction xs arbitrary: p) (auto simp: upd_node_apply split: option.splits)

lemma dll_Nil [simp]: "dll h empty_list []"
  by (simp add: dll_def empty_list_def)

lemma dll_split:
  assumes "dll h cl xs" "x \<in> set xs"
  obtains as bs nd where "xs = as @ x # bs" "x \<notin> set as" "x \<notin> set bs" "h x = Some nd"
    "cn_prev nd = last_or None as" "cn_next nd = first_or bs None"
    "dlseg h None as (Some x)" "dlseg h (Some x) bs None"
proof -
  obtain as bs where xs: "xs = as @ x # bs" using assms(2) by (meson split_list)
  then show ?thesis
    using that[of as bs] assms(1) by (auto simp: dll_def dlseg_append split: option.splits)
qed

section \<open>The operations refine list operations\<close>

lemma pushFront_dll:
  assumes "dll h cl xs" "x \<notin> set xs" "h x = Some nd" "CacheList_pushFront x (h, cl) = (h', cl')"
  shows "dll h' cl' (x # xs)"
proof (cases xs)
  case Nil
  then show ?thesis
    using assms by (auto simp: dll_def CacheList_pushFront_def Let_def upd_node_apply)
next
  case (Cons y ys)
  let ?g = "upd_node x (\<lambda>n. n\<lparr>cn_next := Some y\<rparr>) (upd_node x (\<lambda>n. n\<lparr>cn_prev := None\<rparr>) h)"
  have "dlseg ?g None (y # ys) None" "y \<notin> set ys"
    using assms(1,2) Cons by (auto simp: dll_def simp del: dlseg.simps)
  then have "dlseg (upd_node y (\<lambda>n. n\<lparr>cn_prev := Some x\<rparr>) ?g) (Some x) (y # ys) None"
    by (rule dlseg_set_prev)
  then show ?thesis
    using assms Cons
    by (auto simp: dll_def CacheList_pushFront_def Let_def upd_node_apply last_or_def)
qed

lemma pushFront_kv:
  assumes "CacheList_pushFront x (h, cl) = (h', cl')"
  shows "node_kv h' = node_kv h" "h' a = None \<longleftrightarrow> h a = None"
  using assms
  by (auto simp: CacheList_pushFront_def Let_def split: option.splits)

lemma remove_dll:
  assumes "dll h cl xs" "x \<in> set xs" "CacheList_remove x (h, cl) = (h', cl')"
  shows "dll h' cl' (remove1 x xs) \<and> h' x = h x"
  using assms(1,2)
proof (rule dll_split)
  fix as bs nd
  assume *: "xs = as @ x # bs" "x \<notin> set as" "x \<notin> set bs" "h x = Some nd"
    "cn_prev nd = last_or None as" "cn_next nd = first_or bs None"
    "dlseg h None as (Some x)" "dlseg h (Some x) bs None"
  have d: "distinct as" "distinct bs" "set as \<inter> set bs = {}"
    using assms(1) * by (auto simp: dll_def)
  define h1 where "h1 = (case last_or None as of None \<Rightarrow> h
     | Some p \<Rightarrow> upd_node p (\<lambda>n. n\<lparr>cn_next := first_or bs None\<rparr>) h)"
  define h2 where "h2 = (case first_or bs None of None \<Rightarrow> h1
     | Some q \<Rightarrow> upd_node q (\<lambda>n. n\<lparr>cn_prev := last_or None as\<rparr>) h1)"
  have as1: "dlseg h1 None as (first_or bs None) \<and> dlseg h1 (Some x) bs None \<and> h1 x = h x"
  proof (cases as rule: rev_cases)
    case (snoc as' a)
    then show ?thesis
      using dlseg_set_next[of h None as' a "Some x" "first_or bs None"] * d
      by (auto simp: h1_def upd_node_apply)
  qed (use * in \<open>simp add: h1_def\<close>)
  have bs1: "dlseg h2 None as (first_or bs None) \<and> dlseg h2 (last_or None as) bs None \<and> h2 x = h x"
  proof (cases bs)
    case (Cons b bs')
    then have "dlseg h2 (last_or None as) bs None"
      using dlseg_set_prev[of h1 "Some x" b bs' None "last_or None as"] as1 d
      by (simp add: h2_def)
    moreover have "b \<notin> set as" "b \<noteq> x" using Cons * d by auto
    ultimately show ?thesis using as1 Cons by (simp add: h2_def upd_node_apply)
  qed (use as1 in \<open>simp add: h2_def\<close>)
  have "CacheList_remove x (h, cl) = (h2, cl\<lparr>
      cl_head := (case last_or None as of None \<Rightarrow> first_or bs None | Some _ \<Rightarrow> cl_head cl),
      cl_tail := (case first_or bs None of None \<Rightarrow> last_or None as | Some _ \<Rightarrow> cl_tail cl),
      cl_len := cl_len cl - 1\<rparr>)"
    by (simp add: CacheList_remove_def *(4-6) h2_def h1_def split: option.split)
  moreover have "cl_head cl = first_or (as @ x # bs) None" "cl_tail cl = last_or None (as @ x # bs)"
    "cl_len cl = int (length (as @ x # bs))"
    using assms(1) *(1) by (simp_all add: dll_def)
  ultimately have res: "h' = h2" "cl_head cl' = first_or (as @ bs) None"
    "cl_tail cl' = last_or None (as @ bs)" "cl_len cl' = int (length (as @ bs))"
    using assms(3) by (cases as; cases bs; simp add: last_or_def)+
  have "remove1 x xs = as @ bs" using * by (simp add: remove1_append)
  then show ?thesis
    using res bs1 d by (simp add: dll_def dlseg_append)
qed

lemma remove_kv:
  assumes "CacheList_remove x (h, cl) = (h', cl')"
  shows "node_kv h' = node_kv h" "h' a = None \<longleftrightarrow> h a = None"
  using assms
  by (auto simp: CacheList_remove_def Let_def split: option.splits prod.splits)

lemma moveToFront_dll:
  assumes "dll h cl xs" "x \<in> set xs" "CacheList_moveToFront x (h, cl) = (h', cl')"
  shows "dll h' cl' (x # remove1 x xs)" "node_kv h' = node_kv h" "h' a = None \<longleftrightarrow> h a = None"
proof -
  have "dll h' cl' (x # remove1 x xs) \<and> node_kv h' = node_kv h \<and> (\<forall>a. h' a = None \<longleftrightarrow> h a = None)"
  proof (cases "Some x = cl_head cl")
    case True
    then have "\<exists>ys. xs = x # ys"
      using assms(1,2) by (cases xs) (auto simp: dll_def)
    then show ?thesis using True assms by (auto simp: CacheList_moveToFront_def)
  next
    case False
    obtain h1 cl1 where r: "CacheList_remove x (h, cl) = (h1, cl1)" by force
    have p: "CacheList_pushFront x (h1, cl1) = (h', cl')"
      using assms(3) False r by (simp add: CacheList_moveToFront_def)
    have "x \<notin> set (remove1 x xs)" using assms(1) by (simp add: dll_def)
    moreover obtain nd where "h1 x = Some nd"
      using remove_dll[OF assms(1,2) r] assms(1,2) dlseg_alloc unfolding dll_def by fastforce
    ultimately show ?thesis
      using pushFront_dll[of h1 cl1 "remove1 x xs" x nd h' cl'] remove_dll[OF assms(1,2) r] p
        pushFront_kv[OF p] remove_kv[OF r] by simp
  qed
  then show "dll h' cl' (x # remove1 x xs)" "node_kv h' = node_kv h" "h' a = None \<longleftrightarrow> h a = None"
    by auto
qed

lemma walk_dlseg: "dlseg h p xs None \<Longrightarrow> CacheList_walk h (first_or xs None) = Some (map (node_kv h) xs)"
proof (induction xs arbitrary: p)
  case Nil
  then show ?case by (simp add: CacheList_walk.simps)
next
  case (Cons x xs)
  then show ?case
    by (auto simp: CacheList_walk.simps[of h "Some x"] node_kv_def split: option.splits)
qed

lemma walk_dll: "dll h cl xs \<Longrightarrow> CacheList_walk h (cl_head cl) = Some (map (node_kv h) xs)"
  using walk_dlseg[of h None xs] by (simp add: dll_def)

lemma dll_set_value:
  assumes "dll h cl xs"
  shows "dll (upd_node a (\<lambda>n. n\<lparr>cn_value := v\<rparr>) h) cl xs"
  using assms by (simp add: dll_def dlseg_set_value)

end
