(* ===== verification/Sharded_Cache.thy ===== *)
theory Sharded_Cache
  imports Sharding Cache_List
begin

text \<open>\<open>cache/sharded_cache.go\<close>: \<open>CacheShard\<close>, an LRU store over the pointer-level \<open>CacheList\<close>
  with its own store of nodes, and \<open>ShardedCache\<close>, an array of such shards indexed by the FNV
  hash, with the change counter that persistence reads.\<close>

section \<open>A shard\<close>

record 'v CacheShard =
  cs_capacity :: int
  cs_cache :: "string \<rightharpoonup> nat"
  cs_list :: CacheList
  cs_store :: "'v store"
  cs_fresh :: nat
  cs_accessChan :: "string list"
  cs_chanCap :: int

definition new_shard :: "int \<Rightarrow> int \<Rightarrow> 'v CacheShard" where
  "new_shard capacity chanCap =
     \<lparr>cs_capacity = capacity, cs_cache = Map.empty, cs_list = empty_list, cs_store = Map.empty,
      cs_fresh = 0, cs_accessChan = [], cs_chanCap = chanCap\<rparr>"

definition shard_lookup :: "string \<Rightarrow> 'v CacheShard \<Rightarrow> 'v option" where
  "shard_lookup key shard = (case cs_cache shard key of
      None \<Rightarrow> None
    | Some node \<Rightarrow> map_option cn_value (cs_store shard node))"

definition shard_with :: "'v store \<times> CacheList \<Rightarrow> 'v CacheShard \<Rightarrow> 'v CacheShard" where
  "shard_with s shard = shard\<lparr>cs_store := fst s, cs_list := snd s\<rparr>"

definition CacheShard_evictOne :: "'v CacheShard \<Rightarrow> 'v CacheShard" where
  "CacheShard_evictOne shard = (case cl_tail (cs_list shard) of
      None \<Rightarrow> shard
    | Some node \<Rightarrow>
       (case cs_store shard node of None \<Rightarrow> shard
        | Some nd \<Rightarrow>
           (shard_with (CacheList_remove node (cs_store shard, cs_list shard)) shard)
             \<lparr>cs_cache := (cs_cache shard)(cn_key nd := None)\<rparr>))"

text \<open>The locked part of \<open>ShardedCache.Set\<close>; the flag says whether the counter is bumped.\<close>

definition shard_set :: "string \<Rightarrow> 'v \<Rightarrow> 'v CacheShard \<Rightarrow> 'v CacheShard \<times> bool" where
  "shard_set key value shard = (case cs_cache shard key of
      Some node \<Rightarrow>
       (let h1 = upd_node node (\<lambda>n. n\<lparr>cn_value := value\<rparr>) (cs_store shard)
        in (shard_with (CacheList_moveToFront node (h1, cs_list shard)) shard, False))
    | None \<Rightarrow>
       (let node = cs_fresh shard;
            h1 = (cs_store shard)(node \<mapsto>
                   \<lparr>cn_key = key, cn_value = value, cn_prev = None, cn_next = None\<rparr>);
            shard1 = (shard_with (CacheList_pushFront node (h1, cs_list shard)) shard)
                       \<lparr>cs_fresh := Suc node, cs_cache := (cs_cache shard)(key \<mapsto> node)\<rparr>
        in (if 0 < cs_capacity shard1 \<and> cs_capacity shard1 < cl_len (cs_list shard1)
            then CacheShard_evictOne shard1 else shard1, True)))"

definition shard_delete :: "string \<Rightarrow> 'v CacheShard \<Rightarrow> 'v CacheShard \<times> bool" where
  "shard_delete key shard = (case cs_cache shard key of
      None \<Rightarrow> (shard, False)
    | Some node \<Rightarrow>
       ((shard_with (CacheList_remove node (cs_store shard, cs_list shard)) shard)
          \<lparr>cs_cache := (cs_cache shard)(key := None)\<rparr>, True))"

definition shard_move_front :: "string \<Rightarrow> 'v CacheShard \<Rightarrow> 'v CacheShard" where
  "shard_move_front key shard = (case cs_cache shard key of
      None \<Rightarrow> shard
    | Some node \<Rightarrow> shard_with (CacheList_moveToFront node (cs_store shard, cs_list shard)) shard)"

definition CacheShard_processAccessRecord :: "'v CacheShard \<Rightarrow> 'v CacheShard option" where
  "CacheShard_processAccessRecord shard = (case cs_accessChan shard of
      [] \<Rightarrow> None
    | key # rest \<Rightarrow> Some (shard_move_front key (shard\<lparr>cs_accessChan := rest\<rparr>)))"

definition CacheShard_recordAccess :: "string \<Rightarrow> 'v CacheShard \<Rightarrow> 'v CacheShard" where
  "CacheShard_recordAccess key shard =
     (if int (length (cs_accessChan shard)) < cs_chanCap shard
      then shard\<lparr>cs_accessChan := cs_accessChan shard @ [key]\<rparr> else shard)"

definition shard_clear :: "'v CacheShard \<Rightarrow> 'v CacheShard" where
  "shard_clear shard = shard\<lparr>cs_cache := Map.empty, cs_list := empty_list\<rparr>"

definition shard_snapshot :: "'v CacheShard \<Rightarrow> (string \<times> 'v) list option" where
  "shard_snapshot shard = CacheList_walk (cs_store shard) (cl_head (cs_list shard))"

section \<open>Invariant of a shard\<close>

definition addr_index :: "'v store \<Rightarrow> nat list \<Rightarrow> (string \<times> nat) list" where
  "addr_index h xs = map (\<lambda>a. (fst (node_kv h a), a)) xs"

text \<open>A capacity of 0 in \<open>spec_ok\<close> asks for distinct keys only: the bound holds between
  operations, not inside \<open>Set\<close>.\<close>

definition shard_rep :: "'v CacheShard \<Rightarrow> nat list \<Rightarrow> bool" where
  "shard_rep s xs \<longleftrightarrow> dll (cs_store s) (cs_list s) xs
     \<and> cs_cache s = map_of (addr_index (cs_store s) xs)
     \<and> (\<forall>a \<ge> cs_fresh s. cs_store s a = None)
     \<and> spec_ok 0 (map (node_kv (cs_store s)) xs)"

definition CacheShard_content :: "'v CacheShard \<Rightarrow> (string \<times> 'v) list" where
  "CacheShard_content s = (case shard_snapshot s of None \<Rightarrow> [] | Some kvs \<Rightarrow> kvs)"

definition CacheShard_inv :: "'v CacheShard \<Rightarrow> bool" where
  "CacheShard_inv s \<longleftrightarrow> (\<exists>xs. shard_rep s xs) \<and> spec_ok (cs_capacity s) (CacheShard_content s)
     \<and> int (length (cs_accessChan s)) \<le> max 0 (cs_chanCap s)"

lemma shard_rep_content:
  "shard_rep s xs \<Longrightarrow> shard_snapshot s = Some (map (node_kv (cs_store s)) xs)"
  "shard_rep s xs \<Longrightarrow> CacheShard_content s = map (node_kv (cs_store s)) xs"
  using walk_dll[of "cs_store s" "cs_list s" xs]
  by (simp_all add: shard_rep_def CacheShard_content_def shard_snapshot_def)

lemma keys_addr_index [simp]: "keys_of (addr_index h xs) = keys_of (map (node_kv h) xs)"
  by (simp add: addr_index_def keys_of_def)

lemma addr_index_simps [simp]: "addr_index h [] = []"
  "addr_index h (a # xs) = (fst (node_kv h a), a) # addr_index h xs"
  by (simp_all add: addr_index_def)

lemma remove1_drop_key:
  assumes "distinct (keys_of (map kv xs))" "a \<in> set xs" "fst (kv a) = k"
  shows "map kv (remove1 a xs) = drop_key k (map kv xs)"
    "map (\<lambda>a. (fst (kv a), a)) (remove1 a xs) = drop_key k (map (\<lambda>a. (fst (kv a), a)) xs)"
proof -
  have "map kv (remove1 a xs) = drop_key k (map kv xs) \<and>
      map (\<lambda>a. (fst (kv a), a)) (remove1 a xs) = drop_key k (map (\<lambda>a. (fst (kv a), a)) xs)"
    using assms
  proof (induction xs)
    case (Cons x xs)
    show ?case
    proof (cases "x = a")
      case True
      then have "k \<notin> set (keys_of (map kv xs))" using Cons.prems by simp
      moreover have "keys_of (map (\<lambda>a. (fst (kv a), a)) xs) = keys_of (map kv xs)"
        by (simp add: keys_of_def)
      ultimately show ?thesis using True Cons.prems by simp
    next
      case False
      then have "fst (kv x) \<noteq> k" using Cons.prems by (auto simp: keys_of_def)
      then show ?thesis using Cons False by simp
    qed
  qed simp
  then show "map kv (remove1 a xs) = drop_key k (map kv xs)"
    "map (\<lambda>a. (fst (kv a), a)) (remove1 a xs) = drop_key k (map (\<lambda>a. (fst (kv a), a)) xs)"
    by simp_all
qed

lemma shard_rep_addr:
  assumes "shard_rep s xs" "cs_cache s k = Some a"
  obtains n where "a \<in> set xs" "cs_store s a = Some n" "cn_key n = k"
    "map_of (map (node_kv (cs_store s)) xs) k = Some (cn_value n)"
proof -
  have d: "distinct (keys_of (map (node_kv (cs_store s)) xs))"
    using assms(1) by (simp add: shard_rep_def spec_ok_def)
  have "(k, a) \<in> set (addr_index (cs_store s) xs)"
    using assms by (auto simp: shard_rep_def dest: map_of_SomeD)
  then have a: "a \<in> set xs" "fst (node_kv (cs_store s) a) = k"
    by (auto simp: addr_index_def)
  moreover obtain n where n: "cs_store s a = Some n"
    using a(1) assms(1) dlseg_alloc unfolding shard_rep_def dll_def by fastforce
  moreover have "node_kv (cs_store s) a \<in> set (map (node_kv (cs_store s)) xs)"
    using a by simp
  ultimately show ?thesis
    using that[of n] d by (simp add: distinct_keys_map_of[symmetric] node_kv_def)
qed

lemma shard_rep_none:
  "shard_rep s xs \<Longrightarrow> cs_cache s k = None \<longleftrightarrow> map_of (map (node_kv (cs_store s)) xs) k = None"
  unfolding map_of_eq_None_keys by (simp add: shard_rep_def map_of_eq_None_keys)

lemma CacheShard_lookup:
  assumes "CacheShard_inv s"
  shows "shard_lookup k s = map_of (CacheShard_content s) k"
proof -
  obtain xs where r: "shard_rep s xs" using assms by (auto simp: CacheShard_inv_def)
  show ?thesis
  proof (cases "cs_cache s k")
    case None
    then show ?thesis
      using shard_rep_none[OF r, of k] by (simp add: shard_lookup_def shard_rep_content(2)[OF r])
  next
    case (Some a)
    then show ?thesis
      by (rule shard_rep_addr[OF r]) (simp add: shard_lookup_def Some shard_rep_content(2)[OF r])
  qed
qed

lemma shard_remove_rep:
  assumes r: "shard_rep s xs" and a: "cs_cache s k = Some a"
    and s': "s' = (shard_with (CacheList_remove a (cs_store s, cs_list s)) s)\<lparr>cs_cache := (cs_cache s)(k := None)\<rparr>"
  shows "shard_rep s' (remove1 a xs)"
    "CacheShard_content s' = drop_key k (CacheShard_content s)"
proof -
  obtain n where n: "a \<in> set xs" "cs_store s a = Some n" "cn_key n = k"
    using shard_rep_addr[OF r a] by metis
  obtain h cl where rm: "CacheList_remove a (cs_store s, cs_list s) = (h, cl)" by force
  have d: "dll (cs_store s) (cs_list s) xs" using r by (simp add: shard_rep_def)
  have dk: "distinct (keys_of (map (node_kv (cs_store s)) xs))"
    using r by (simp add: shard_rep_def spec_ok_def)
  have k: "fst (node_kv (cs_store s) a) = k" using n by (simp add: node_kv_def)
  note kv = remove_kv[OF rm]
  note rk = remove1_drop_key[OF dk n(1) k]
  have "cs_cache s' = map_of (addr_index h (remove1 a xs))"
    using r rk(2) by (simp add: s' rm shard_with_def shard_rep_def addr_index_def kv(1))
  moreover have "spec_ok 0 (map (node_kv h) (remove1 a xs))"
    using r rk(1) by (simp add: shard_rep_def kv(1))
  ultimately show rep: "shard_rep s' (remove1 a xs)"
    using r remove_dll[OF d n(1) rm] kv(2)
    by (simp add: shard_rep_def s' rm shard_with_def)
  show "CacheShard_content s' = drop_key k (CacheShard_content s)"
    using shard_rep_content(2)[OF rep] shard_rep_content(2)[OF r] rk(1)
    by (simp add: s' rm shard_with_def kv(1))
qed

lemma shard_move_rep:
  assumes r: "shard_rep s xs" and a: "cs_cache s k = Some a"
    and s': "s' = shard_with (CacheList_moveToFront a (cs_store s, cs_list s)) s"
  shows "shard_rep s' (a # remove1 a xs)"
    "CacheShard_content s' = spec_touch k (CacheShard_content s)"
proof -
  obtain n where n: "a \<in> set xs" "cs_store s a = Some n" "cn_key n = k"
    and v: "map_of (map (node_kv (cs_store s)) xs) k = Some (cn_value n)"
    using shard_rep_addr[OF r a] by metis
  obtain h cl where mv: "CacheList_moveToFront a (cs_store s, cs_list s) = (h, cl)" by force
  have d: "dll (cs_store s) (cs_list s) xs" using r by (simp add: shard_rep_def)
  have dk: "distinct (keys_of (map (node_kv (cs_store s)) xs))"
    using r by (simp add: shard_rep_def spec_ok_def)
  have kn: "node_kv (cs_store s) a = (k, cn_value n)" using n by (simp add: node_kv_def)
  have k: "fst (node_kv (cs_store s) a) = k" using kn by simp
  note mt = moveToFront_dll[OF d n(1) mv]
  note rk = remove1_drop_key[OF dk n(1) k]
  have t: "map (node_kv h) (a # remove1 a xs) = spec_touch k (map (node_kv (cs_store s)) xs)"
    using rk(1) v by (simp add: spec_touch_def kn mt(2))
  have "cs_cache s = map_of (addr_index h (a # remove1 a xs))"
    using r rk(2) k a by (auto simp: shard_rep_def addr_index_def mt(2) fun_eq_iff)
  then show rep: "shard_rep s' (a # remove1 a xs)"
    using r mt(1,3) t spec_ok_touch[of 0 "map (node_kv (cs_store s)) xs" k]
    by (simp add: shard_rep_def s' mv shard_with_def)
  show "CacheShard_content s' = spec_touch k (CacheShard_content s)"
    using shard_rep_content(2)[OF rep] shard_rep_content(2)[OF r] t
    by (simp add: s' mv shard_with_def)
qed

lemma shard_value_rep:
  assumes r: "shard_rep s xs" and a: "cs_cache s k = Some a"
    and s': "s' = s\<lparr>cs_store := upd_node a (\<lambda>n. n\<lparr>cn_value := v\<rparr>) (cs_store s)\<rparr>"
  shows "shard_rep s' xs" "spec_touch k (CacheShard_content s') = (k, v) # drop_key k (CacheShard_content s)"
proof -
  obtain n where n: "a \<in> set xs" "cs_store s a = Some n" "cn_key n = k"
    using shard_rep_addr[OF r a] by metis
  let ?h = "upd_node a (\<lambda>n. n\<lparr>cn_value := v\<rparr>) (cs_store s)"
  have dk: "distinct (keys_of (map (node_kv (cs_store s)) xs))"
    using r by (simp add: shard_rep_def spec_ok_def)
  have kv: "node_kv ?h b = (if b = a then (k, v) else node_kv (cs_store s) b)" for b
    using n by (simp add: node_kv_def upd_node_apply)
  have kv1: "fst (node_kv ?h b) = fst (node_kv (cs_store s) b)" for b
    using n by (simp add: kv) (simp add: node_kv_def)
  have keys: "keys_of (map (node_kv ?h) xs) = keys_of (map (node_kv (cs_store s)) xs)"
    by (simp add: keys_of_def comp_def kv1)
  have ix: "addr_index ?h xs = addr_index (cs_store s) xs"
    by (simp add: addr_index_def kv1)
  have ka: "fst (node_kv ?h a) = k" "fst (node_kv (cs_store s) a) = k"
    using n by (simp_all add: kv) (simp add: node_kv_def)
  have "spec_ok 0 (map (node_kv ?h) xs)"
    using r keys unfolding shard_rep_def spec_ok_def by simp
  then show rep: "shard_rep s' xs"
    using r dll_set_value[of "cs_store s" "cs_list s" xs a v] ix
    by (simp add: shard_rep_def s')
  have "map (node_kv ?h) (remove1 a xs) = map (node_kv (cs_store s)) (remove1 a xs)"
    using r by (auto simp: kv shard_rep_def dll_def)
  then have drop: "drop_key k (map (node_kv ?h) xs) = drop_key k (map (node_kv (cs_store s)) xs)"
    using remove1_drop_key(1)[OF dk n(1) ka(2)]
      remove1_drop_key(1)[of "node_kv ?h" xs a k] dk keys n(1) ka(1) by simp
  have "(k, v) \<in> set (map (node_kv ?h) xs)" using n(1) kv[of a] by force
  then have "map_of (map (node_kv ?h) xs) k = Some v"
    using dk keys distinct_keys_map_of by metis
  then show "spec_touch k (CacheShard_content s') = (k, v) # drop_key k (CacheShard_content s)"
    using shard_rep_content(2)[OF rep] shard_rep_content(2)[OF r] drop
    by (simp add: spec_touch_def s')
qed

lemma shard_push_rep:
  assumes r: "shard_rep s xs" and a: "cs_cache s k = None"
    and s': "s' = (shard_with (CacheList_pushFront (cs_fresh s)
        ((cs_store s)(cs_fresh s \<mapsto> \<lparr>cn_key = k, cn_value = v, cn_prev = None, cn_next = None\<rparr>), cs_list s)) s)
        \<lparr>cs_fresh := Suc (cs_fresh s), cs_cache := (cs_cache s)(k \<mapsto> cs_fresh s)\<rparr>"
  shows "shard_rep s' (cs_fresh s # xs)" "CacheShard_content s' = (k, v) # CacheShard_content s"
proof -
  let ?a = "cs_fresh s"
  let ?h = "(cs_store s)(?a \<mapsto> \<lparr>cn_key = k, cn_value = v, cn_prev = None, cn_next = None\<rparr>)"
  have d: "dll (cs_store s) (cs_list s) xs" and fresh: "cs_store s ?a = None"
    using r by (simp_all add: shard_rep_def)
  have new: "?a \<notin> set xs" using d fresh dlseg_alloc unfolding dll_def by fastforce
  have d': "dll ?h (cs_list s) xs"
    using d new dlseg_cong[of xs ?h "cs_store s" None None]
    unfolding dll_def by (metis fun_upd_other)
  obtain h cl where p: "CacheList_pushFront ?a (?h, cs_list s) = (h, cl)" by force
  note kv = pushFront_kv[OF p]
  have same: "map (node_kv h) xs = map (node_kv (cs_store s)) xs"
    "addr_index h xs = addr_index (cs_store s) xs"
    using new by (auto simp: kv(1) node_kv_def addr_index_def)
  have head: "node_kv h ?a = (k, v)" by (simp add: kv(1) node_kv_def)
  have notin: "k \<notin> set (keys_of (map (node_kv (cs_store s)) xs))"
    using shard_rep_none[OF r] a by (simp add: map_of_eq_None_keys)
  have "dll h cl (?a # xs)"
    by (rule pushFront_dll[OF d' new _ p]) simp
  moreover have "h b = None \<longleftrightarrow> ?h b = None" for b by (rule kv(2))
  ultimately show rep: "shard_rep s' (?a # xs)"
    using r head same(2) notin arg_cong[OF same(1), of keys_of] unfolding s' p
    by (auto simp: shard_rep_def shard_with_def spec_ok_def)
  show "CacheShard_content s' = (k, v) # CacheShard_content s"
    using shard_rep_content(2)[OF rep] shard_rep_content(2)[OF r] head same
    by (simp add: s' p shard_with_def)
qed


lemma dll_tail: "dll h cl xs \<Longrightarrow> cl_tail cl = last_or None xs \<and> cl_len cl = int (length xs)"
  by (simp add: dll_def)

lemma shard_evict_rep:
  assumes r: "shard_rep s xs" and ne: "xs \<noteq> []"
  shows "shard_rep (CacheShard_evictOne s) (butlast xs)"
    "CacheShard_content (CacheShard_evictOne s) = butlast (CacheShard_content s)"
proof -
  let ?a = "last xs"
  have a: "?a \<in> set xs" using ne by simp
  have d: "dll (cs_store s) (cs_list s) xs" using r by (simp add: shard_rep_def)
  have dk: "distinct (keys_of (map (node_kv (cs_store s)) xs))"
    using r by (simp add: shard_rep_def spec_ok_def)
  obtain nd where nd: "cs_store s ?a = Some nd"
    using a d dlseg_alloc unfolding dll_def by fastforce
  then have k: "fst (node_kv (cs_store s) ?a) = cn_key nd" by (simp add: node_kv_def)
  have "(cn_key nd, ?a) \<in> set (addr_index (cs_store s) xs)"
    using a k by (force simp: addr_index_def)
  then have c: "cs_cache s (cn_key nd) = Some ?a"
    using dk r by (simp add: shard_rep_def distinct_keys_map_of)
  have e: "CacheShard_evictOne s =
      (shard_with (CacheList_remove ?a (cs_store s, cs_list s)) s)\<lparr>cs_cache := (cs_cache s)(cn_key nd := None)\<rparr>"
    using dll_tail[OF d] ne nd by (simp add: CacheShard_evictOne_def last_or_def)
  have rem: "remove1 ?a xs = butlast xs"
    using d ne by (cases xs rule: rev_cases) (auto simp: dll_def remove1_append)
  show "shard_rep (CacheShard_evictOne s) (butlast xs)"
    using shard_remove_rep(1)[OF r c e] rem by simp
  have "drop_key (cn_key nd) (map (node_kv (cs_store s)) xs) = butlast (map (node_kv (cs_store s)) xs)"
    using remove1_drop_key(1)[OF dk a k] rem by (simp add: map_butlast)
  then show "CacheShard_content (CacheShard_evictOne s) = butlast (CacheShard_content s)"
    using shard_remove_rep(2)[OF r c e] shard_rep_content(2)[OF r] by simp
qed

lemma shard_evict_frame [simp]:
  "cs_capacity (CacheShard_evictOne s) = cs_capacity s"
  "cs_accessChan (CacheShard_evictOne s) = cs_accessChan s"
  "cs_chanCap (CacheShard_evictOne s) = cs_chanCap s"
  by (simp_all add: CacheShard_evictOne_def shard_with_def split: option.splits)

lemma shard_set_refines:
  assumes inv: "CacheShard_inv s"
  shows "CacheShard_content (fst (shard_set k v s)) = spec_set (cs_capacity s) k v (CacheShard_content s)"
      (is ?content)
    "CacheShard_inv (fst (shard_set k v s))" (is ?inv)
    "cs_capacity (fst (shard_set k v s)) = cs_capacity s" (is ?cap)
    "snd (shard_set k v s) = (map_of (CacheShard_content s) k = None)" (is ?flag)
proof -
  obtain xs where r: "shard_rep s xs" using inv by (auto simp: CacheShard_inv_def)
  note none = shard_rep_none[OF r, of k] and ct = shard_rep_content(2)[OF r]
  have *: "?content \<and> (\<exists>ys. shard_rep (fst (shard_set k v s)) ys) \<and> ?flag"
  proof (cases "cs_cache s k")
    case None
    define s1 where "s1 = (shard_with (CacheList_pushFront (cs_fresh s)
        ((cs_store s)(cs_fresh s \<mapsto> \<lparr>cn_key = k, cn_value = v, cn_prev = None, cn_next = None\<rparr>), cs_list s)) s)
        \<lparr>cs_fresh := Suc (cs_fresh s), cs_cache := (cs_cache s)(k \<mapsto> cs_fresh s)\<rparr>"
    note p = shard_push_rep[OF r None s1_def]
    have cap: "cs_capacity s1 = cs_capacity s" by (simp add: s1_def shard_with_def)
    have len: "cl_len (cs_list s1) = int (length (CacheShard_content s1))"
      using p(1) shard_rep_content(2)[OF p(1)] by (simp add: shard_rep_def dll_def)
    have set: "shard_set k v s = (if 0 < cs_capacity s1 \<and> cs_capacity s1 < cl_len (cs_list s1)
        then CacheShard_evictOne s1 else s1, True)"
      by (simp add: shard_set_def None s1_def Let_def)
    have m: "map_of (CacheShard_content s) k = None" using none None ct by simp
    show ?thesis
      using p shard_evict_rep[OF p(1)] by (auto simp: set cap len m spec_set_def spec_trim_def)
  next
    case (Some a)
    define s1 where "s1 = s\<lparr>cs_store := upd_node a (\<lambda>n. n\<lparr>cn_value := v\<rparr>) (cs_store s)\<rparr>"
    note w = shard_value_rep[OF r Some s1_def]
    have c1: "cs_cache s1 k = Some a" using Some by (simp add: s1_def)
    note mv = shard_move_rep[OF w(1) c1 refl]
    have "fst (shard_set k v s) = shard_with (CacheList_moveToFront a (cs_store s1, cs_list s1)) s1"
      "\<not> snd (shard_set k v s)"
      by (simp_all add: shard_set_def Some s1_def shard_with_def Let_def)
    moreover have "map_of (CacheShard_content s) k \<noteq> None" using none Some ct by simp
    ultimately show ?thesis
      using mv w(2) by (auto simp: spec_set_def)
  qed
  have frame: "cs_capacity (fst (shard_set k v s)) = cs_capacity s"
    "cs_accessChan (fst (shard_set k v s)) = cs_accessChan s"
    "cs_chanCap (fst (shard_set k v s)) = cs_chanCap s"
    by (simp_all add: shard_set_def shard_with_def Let_def split: option.splits)
  then show ?content ?cap ?flag ?inv
    using * inv by (auto simp: CacheShard_inv_def)
qed

lemma shard_delete_refines:
  assumes inv: "CacheShard_inv s"
  shows "CacheShard_content (fst (shard_delete k s)) = drop_key k (CacheShard_content s)"
    "CacheShard_inv (fst (shard_delete k s))"
    "cs_capacity (fst (shard_delete k s)) = cs_capacity s"
    "snd (shard_delete k s) = (map_of (CacheShard_content s) k \<noteq> None)"
proof -
  obtain xs where r: "shard_rep s xs" using inv by (auto simp: CacheShard_inv_def)
  note none = shard_rep_none[OF r, of k] and ct = shard_rep_content(2)[OF r]
  have *: "CacheShard_content (fst (shard_delete k s)) = drop_key k (CacheShard_content s) \<and>
      (\<exists>ys. shard_rep (fst (shard_delete k s)) ys) \<and>
      snd (shard_delete k s) = (map_of (CacheShard_content s) k \<noteq> None)"
  proof (cases "cs_cache s k")
    case None
    then have "k \<notin> set (keys_of (CacheShard_content s))"
      using none by (simp add: ct map_of_eq_None_keys)
    then show ?thesis using None r none ct by (auto simp: shard_delete_def)
  next
    case (Some a)
    then show ?thesis
      using shard_remove_rep[OF r Some refl] none ct by (auto simp: shard_delete_def)
  qed
  have frame: "cs_capacity (fst (shard_delete k s)) = cs_capacity s"
    "cs_accessChan (fst (shard_delete k s)) = cs_accessChan s"
    "cs_chanCap (fst (shard_delete k s)) = cs_chanCap s"
    by (simp_all add: shard_delete_def shard_with_def split: option.splits)
  then show "CacheShard_content (fst (shard_delete k s)) = drop_key k (CacheShard_content s)"
    "CacheShard_inv (fst (shard_delete k s))"
    "cs_capacity (fst (shard_delete k s)) = cs_capacity s"
    "snd (shard_delete k s) = (map_of (CacheShard_content s) k \<noteq> None)"
    using * inv by (auto simp: CacheShard_inv_def)
qed

lemma shard_move_refines:
  assumes inv: "CacheShard_inv s"
  shows "CacheShard_content (shard_move_front k s) = spec_touch k (CacheShard_content s)"
    "CacheShard_inv (shard_move_front k s)" "cs_capacity (shard_move_front k s) = cs_capacity s"
proof -
  obtain xs where r: "shard_rep s xs" using inv by (auto simp: CacheShard_inv_def)
  note none = shard_rep_none[OF r, of k] and ct = shard_rep_content(2)[OF r]
  have *: "CacheShard_content (shard_move_front k s) = spec_touch k (CacheShard_content s) \<and>
      (\<exists>ys. shard_rep (shard_move_front k s) ys)"
    using r none ct shard_move_rep[OF r _ refl, of k]
    by (cases "cs_cache s k") (auto simp: shard_move_front_def spec_touch_def)
  have frame: "cs_capacity (shard_move_front k s) = cs_capacity s"
    "cs_accessChan (shard_move_front k s) = cs_accessChan s"
    "cs_chanCap (shard_move_front k s) = cs_chanCap s"
    by (simp_all add: shard_move_front_def shard_with_def split: option.splits)
  then show "CacheShard_content (shard_move_front k s) = spec_touch k (CacheShard_content s)"
    "CacheShard_inv (shard_move_front k s)" "cs_capacity (shard_move_front k s) = cs_capacity s"
    using * inv by (auto simp: CacheShard_inv_def)
qed

interpretation shard: lru_store CacheShard_inv CacheShard_content cs_capacity
  "\<lambda>k v s. fst (shard_set k v s)" shard_lookup shard_move_front "\<lambda>k s. fst (shard_delete k s)"
  by unfold_locales
     (simp_all add: shard_set_refines shard_move_refines shard_delete_refines CacheShard_lookup,
      simp add: CacheShard_inv_def)


lemma shard_process_refines:
  assumes "CacheShard_inv s" "CacheShard_processAccessRecord s = Some s'"
  shows "CacheShard_inv s' \<and>
    CacheShard_content s' = spec_touch (hd (cs_accessChan s)) (CacheShard_content s) \<and>
    cs_capacity s' = cs_capacity s"
proof -
  obtain k rest where c: "cs_accessChan s = k # rest"
    and s': "s' = shard_move_front k (s\<lparr>cs_accessChan := rest\<rparr>)"
    using assms(2) by (auto simp: CacheShard_processAccessRecord_def split: list.splits)
  let ?m = "s\<lparr>cs_accessChan := rest\<rparr>"
  have content: "CacheShard_content ?m = CacheShard_content s"
    by (simp add: CacheShard_content_def shard_snapshot_def)
  have rep: "shard_rep ?m xs = shard_rep s xs" for xs by (simp add: shard_rep_def)
  have "CacheShard_inv ?m"
    using assms(1) c content by (simp add: CacheShard_inv_def rep)
  then show ?thesis using shard_move_refines[of ?m k] by (simp add: s' c content)
qed

lemma shard_record_keeps:
  assumes "CacheShard_inv s"
  shows "CacheShard_inv (CacheShard_recordAccess k s)"
    "CacheShard_content (CacheShard_recordAccess k s) = CacheShard_content s"
    "cs_capacity (CacheShard_recordAccess k s) = cs_capacity s"
proof -
  have rep: "shard_rep (CacheShard_recordAccess k s) xs = shard_rep s xs" for xs
    by (simp add: shard_rep_def CacheShard_recordAccess_def)
  show content: "CacheShard_content (CacheShard_recordAccess k s) = CacheShard_content s"
    by (simp add: CacheShard_content_def shard_snapshot_def CacheShard_recordAccess_def)
  show cap: "cs_capacity (CacheShard_recordAccess k s) = cs_capacity s"
    by (simp add: CacheShard_recordAccess_def)
  show "CacheShard_inv (CacheShard_recordAccess k s)"
    using assms content cap unfolding CacheShard_inv_def rep
    by (simp add: CacheShard_recordAccess_def)
qed

lemma shard_clear_refines:
  assumes "CacheShard_inv s"
  shows "CacheShard_inv (shard_clear s)" "CacheShard_content (shard_clear s) = []"
proof -
  obtain xs where r: "shard_rep s xs" using assms by (auto simp: CacheShard_inv_def)
  then have r': "shard_rep (shard_clear s) []" by (simp add: shard_rep_def shard_clear_def)
  show c: "CacheShard_content (shard_clear s) = []" using shard_rep_content(2)[OF r'] by simp
  show "CacheShard_inv (shard_clear s)"
    using assms r' c unfolding CacheShard_inv_def by (auto simp: shard_clear_def)
qed

lemma new_shard_ok: "CacheShard_inv (new_shard c n)" "CacheShard_content (new_shard c n) = []"
proof -
  have r: "shard_rep (new_shard c n) []" by (simp add: shard_rep_def new_shard_def)
  show c: "CacheShard_content (new_shard c n) = []" using shard_rep_content(2)[OF r] by simp
  show "CacheShard_inv (new_shard c n)"
    using r unfolding CacheShard_inv_def c by (auto simp: new_shard_def)
qed

lemma shard_snapshot_content: "CacheShard_inv s \<Longrightarrow> shard_snapshot s = Some (CacheShard_content s)"
  using shard_rep_content unfolding CacheShard_inv_def by fastforce

section \<open>The sharded cache\<close>

record 'v ShardedCache =
  sc_shards :: "'v CacheShard list"
  sc_mask :: "32 word"
  sc_dirty :: "64 word"

definition NewShardedCache :: "int \<Rightarrow> int \<Rightarrow> 'v ShardedCache" where
  "NewShardedCache totalCapacity shardCount =
     (let n = shard_count shardCount;
          c = shard_capacity totalCapacity n
      in \<lparr>sc_shards = replicate (nat n) (new_shard c (access_chan_capacity c)),
          sc_mask = shard_mask n, sc_dirty = 0\<rparr>)"

definition ShardedCache_getShard :: "string \<Rightarrow> 'v ShardedCache \<Rightarrow> nat" where
  "ShardedCache_getShard key sc = getShard_index (sc_mask sc) key"

definition on_shard ::
  "string \<Rightarrow> ('v CacheShard \<Rightarrow> 'v CacheShard) \<Rightarrow> 'v ShardedCache \<Rightarrow> 'v ShardedCache" where
  "on_shard key f sc = (let i = ShardedCache_getShard key sc
     in sc\<lparr>sc_shards := (sc_shards sc)[i := f (sc_shards sc ! i)]\<rparr>)"

definition ShardedCache_GetNoUpdate :: "string \<Rightarrow> 'v ShardedCache \<Rightarrow> 'v option" where
  "ShardedCache_GetNoUpdate key sc = shard_lookup key (sc_shards sc ! ShardedCache_getShard key sc)"

definition ShardedCache_Get :: "string \<Rightarrow> 'v ShardedCache \<Rightarrow> 'v option \<times> 'v ShardedCache" where
  "ShardedCache_Get key sc = (case shard_lookup key (sc_shards sc ! ShardedCache_getShard key sc) of
      None \<Rightarrow> (None, sc)
    | Some value \<Rightarrow> (Some value, on_shard key (CacheShard_recordAccess key) sc))"

definition ShardedCache_GetDirtyCount :: "'v ShardedCache \<Rightarrow> 64 word" where
  "ShardedCache_GetDirtyCount sc = sc_dirty sc"

definition ShardedCache_markDirty :: "'v ShardedCache \<Rightarrow> 'v ShardedCache" where
  "ShardedCache_markDirty sc = sc\<lparr>sc_dirty := sc_dirty sc + 1\<rparr>"

definition ShardedCache_Set :: "string \<Rightarrow> 'v \<Rightarrow> 'v ShardedCache \<Rightarrow> 'v ShardedCache" where
  "ShardedCache_Set key value sc =
     (let new = snd (shard_set key value (sc_shards sc ! ShardedCache_getShard key sc));
          sc1 = on_shard key (\<lambda>s. fst (shard_set key value s)) sc
      in if new then ShardedCache_markDirty sc1 else sc1)"

definition ShardedCache_Delete :: "string \<Rightarrow> 'v ShardedCache \<Rightarrow> 'v ShardedCache" where
  "ShardedCache_Delete key sc =
     (let found = snd (shard_delete key (sc_shards sc ! ShardedCache_getShard key sc));
          sc1 = on_shard key (\<lambda>s. fst (shard_delete key s)) sc
      in if found then ShardedCache_markDirty sc1 else sc1)"

definition ShardedCache_Len :: "'v ShardedCache \<Rightarrow> int" where
  "ShardedCache_Len sc = foldl (\<lambda>tot shard. tot + cl_len (cs_list shard)) 0 (sc_shards sc)"

definition ShardedCache_Clear :: "'v ShardedCache \<Rightarrow> 'v ShardedCache" where
  "ShardedCache_Clear sc = ShardedCache_markDirty (sc\<lparr>sc_shards := map shard_clear (sc_shards sc)\<rparr>)"

text \<open>The snapshot functions append the walk of every shard; \<open>None\<close> is a walk that does not end.\<close>

fun shards_snapshot :: "'v CacheShard list \<Rightarrow> (string \<times> 'v) list option" where
  "shards_snapshot [] = Some []"
| "shards_snapshot (s # ss) = (case shard_snapshot s of None \<Rightarrow> None
     | Some kvs \<Rightarrow> map_option (\<lambda>rest. kvs @ rest) (shards_snapshot ss))"

definition ShardedCache_GetSnapshot :: "'v ShardedCache \<Rightarrow> (string \<times> 'v) list option" where
  "ShardedCache_GetSnapshot sc = shards_snapshot (sc_shards sc)"

definition ShardedCache_GetAllEntries :: "'v ShardedCache \<Rightarrow> 'v list option" where
  "ShardedCache_GetAllEntries sc = map_option (map snd) (shards_snapshot (sc_shards sc))"

definition ShardedCache_GetAllKeys :: "'v ShardedCache \<Rightarrow> string list option" where
  "ShardedCache_GetAllKeys sc = map_option (map fst) (shards_snapshot (sc_shards sc))"

text \<open>\<open>StreamForEach\<close>: the callback threads a state and says whether to go on.\<close>

fun stream_entries :: "(string \<Rightarrow> 'v \<Rightarrow> 'x \<Rightarrow> 'x \<times> bool) \<Rightarrow> (string \<times> 'v) list \<Rightarrow> 'x \<Rightarrow> 'x \<times> bool" where
  "stream_entries fn [] x = (x, True)"
| "stream_entries fn ((k, v) # es) x =
    (case fn k v x of (x', True) \<Rightarrow> stream_entries fn es x' | (x', False) \<Rightarrow> (x', False))"

fun stream_shards :: "(string \<Rightarrow> 'v \<Rightarrow> 'x \<Rightarrow> 'x \<times> bool) \<Rightarrow> 'v CacheShard list \<Rightarrow> 'x \<Rightarrow> 'x option" where
  "stream_shards fn [] x = Some x"
| "stream_shards fn (s # ss) x = (case shard_snapshot s of None \<Rightarrow> None
     | Some es \<Rightarrow> (case stream_entries fn es x of
          (x', True) \<Rightarrow> stream_shards fn ss x' | (x', False) \<Rightarrow> Some x'))"

definition ShardedCache_StreamForEach ::
  "(string \<Rightarrow> 'v \<Rightarrow> 'x \<Rightarrow> 'x \<times> bool) \<Rightarrow> 'v ShardedCache \<Rightarrow> 'x \<Rightarrow> 'x option" where
  "ShardedCache_StreamForEach fn sc x = stream_shards fn (sc_shards sc) x"

subsection \<open>Invariant and refinement\<close>

definition ShardedCache_inv :: "'v ShardedCache \<Rightarrow> bool" where
  "ShardedCache_inv sc \<longleftrightarrow> shards_ok CacheShard_inv CacheShard_content (sc_mask sc) (sc_shards sc)"

definition ShardedCache_content :: "'v ShardedCache \<Rightarrow> (string \<times> 'v) list" where
  "ShardedCache_content sc = shards_content CacheShard_content (sc_shards sc)"

lemmas sharded_defs = ShardedCache_inv_def ShardedCache_content_def ShardedCache_getShard_def

lemma sharded_new: "ShardedCache_inv (NewShardedCache tot n)"
  "ShardedCache_content (NewShardedCache tot n) = []"
  using unat_shard_mask[OF shard_count_pos, of n]
  by (simp_all add: sharded_defs NewShardedCache_def Let_def shards_ok_def shards_content_def
      new_shard_ok)

lemma sharded_lookup:
  "ShardedCache_inv sc \<Longrightarrow> ShardedCache_GetNoUpdate k sc = map_of (ShardedCache_content sc) k"
  by (simp add: sharded_defs ShardedCache_GetNoUpdate_def shard.shards_lookup)

lemma sharded_snapshot:
  assumes "ShardedCache_inv sc"
  shows "ShardedCache_GetSnapshot sc = Some (ShardedCache_content sc)"
proof -
  have "shards_snapshot ss = Some (shards_content CacheShard_content ss)"
    if "\<forall>s \<in> set ss. CacheShard_inv s" for ss :: "'a CacheShard list"
    using that by (induction ss) (auto simp: shards_content_def shard_snapshot_content)
  moreover have "\<forall>s \<in> set (sc_shards sc). CacheShard_inv s"
    using assms by (auto simp: sharded_defs shards_ok_def in_set_conv_nth)
  ultimately show ?thesis by (simp add: ShardedCache_GetSnapshot_def ShardedCache_content_def)
qed

lemma on_shard_simps [simp]: "sc_mask (on_shard k f sc) = sc_mask sc"
  "sc_dirty (on_shard k f sc) = sc_dirty sc"
  "sc_shards (on_shard k f sc) =
     (sc_shards sc)[getShard_index (sc_mask sc) k := f (sc_shards sc ! getShard_index (sc_mask sc) k)]"
  by (simp_all add: on_shard_def Let_def ShardedCache_getShard_def)

lemma mark_dirty_simps [simp]: "sc_mask (ShardedCache_markDirty sc) = sc_mask sc"
  "sc_dirty (ShardedCache_markDirty sc) = sc_dirty sc + 1"
  "sc_shards (ShardedCache_markDirty sc) = sc_shards sc"
  by (simp_all add: ShardedCache_markDirty_def)

lemma sharded_Set_simps:
  "sc_mask (ShardedCache_Set k v sc) = sc_mask sc"
  "sc_shards (ShardedCache_Set k v sc) = (sc_shards sc)[getShard_index (sc_mask sc) k :=
     fst (shard_set k v (sc_shards sc ! getShard_index (sc_mask sc) k))]"
  "sc_dirty (ShardedCache_Set k v sc) = (if snd (shard_set k v (sc_shards sc ! getShard_index (sc_mask sc) k))
     then sc_dirty sc + 1 else sc_dirty sc)"
  by (simp_all add: ShardedCache_Set_def Let_def ShardedCache_getShard_def)

lemma sharded_set_ok:
  assumes "ShardedCache_inv sc"
  shows "ShardedCache_inv (ShardedCache_Set k v sc)"
    "ShardedCache_GetNoUpdate k (ShardedCache_Set k v sc) = Some v"
  using assms shard.shards_set_ok[of "sc_mask sc" "sc_shards sc" _ k v]
    shard.shards_lookup_set_same[of "sc_mask sc" "sc_shards sc" _ k v]
  by (simp_all add: sharded_defs ShardedCache_Set_def Let_def ShardedCache_GetNoUpdate_def)

lemma sharded_delete_ok:
  assumes "ShardedCache_inv sc"
  shows "ShardedCache_inv (ShardedCache_Delete k sc)"
    "ShardedCache_GetNoUpdate j (ShardedCache_Delete k sc) = (if j = k then None else ShardedCache_GetNoUpdate j sc)"
  using assms shard.shards_delete_ok[of "sc_mask sc" "sc_shards sc" _ k]
    shard.shards_lookup_delete[of "sc_mask sc" "sc_shards sc" _ k j]
  by (cases "j = k"; simp add: sharded_defs ShardedCache_Delete_def Let_def ShardedCache_GetNoUpdate_def)+

lemma sharded_get_ok:
  assumes "ShardedCache_inv sc"
  shows "ShardedCache_inv (snd (ShardedCache_Get k sc))"
    "fst (ShardedCache_Get k sc) = ShardedCache_GetNoUpdate k sc"
proof -
  let ?i = "getShard_index (sc_mask sc) k"
  have s: "CacheShard_inv (sc_shards sc ! ?i)"
    using assms shards_ok_nth by (auto simp: sharded_defs)
  have i: "?i < length (sc_shards sc)"
    using assms shards_ok_index by (auto simp: sharded_defs)
  have "shards_ok CacheShard_inv CacheShard_content (sc_mask sc)
      ((sc_shards sc)[?i := CacheShard_recordAccess k (sc_shards sc ! ?i)])"
    by (rule shards_ok_update)
       (use assms i in \<open>auto simp: shard_record_keeps[OF s] sharded_defs shards_ok_def\<close>)
  then show "ShardedCache_inv (snd (ShardedCache_Get k sc))"
    "fst (ShardedCache_Get k sc) = ShardedCache_GetNoUpdate k sc"
    using assms
    by (auto simp: ShardedCache_Get_def sharded_defs ShardedCache_GetNoUpdate_def split: option.splits)
qed

lemma sharded_clear_ok:
  assumes "ShardedCache_inv sc"
  shows "ShardedCache_inv (ShardedCache_Clear sc)" "ShardedCache_content (ShardedCache_Clear sc) = []"
proof -
  have c: "CacheShard_content (shard_clear s) = []" "CacheShard_inv (shard_clear s)"
    if "s \<in> set (sc_shards sc)" for s
    using that assms shard_clear_refines[of s] by (auto simp: sharded_defs shards_ok_def in_set_conv_nth)
  then show "ShardedCache_inv (ShardedCache_Clear sc)" "ShardedCache_content (ShardedCache_Clear sc) = []"
    using assms
    by (auto simp: sharded_defs ShardedCache_Clear_def shards_ok_def shards_content_def)
qed

lemma sharded_Len:
  assumes "ShardedCache_inv sc"
  shows "ShardedCache_Len sc = int (length (ShardedCache_content sc))"
proof -
  have len: "cl_len (cs_list s) = int (length (CacheShard_content s))" if i: "CacheShard_inv s" for s :: "'a CacheShard"
    using i shard_rep_content(2)[of s] by (auto simp: CacheShard_inv_def shard_rep_def dll_def)
  have "foldl (\<lambda>tot shard. tot + cl_len (cs_list shard)) c ss =
      c + int (length (shards_content CacheShard_content ss))"
    if "\<forall>s \<in> set ss. CacheShard_inv s" for ss :: "'a CacheShard list" and c
    using that by (induction ss arbitrary: c) (auto simp: shards_content_def len)
  moreover have "\<forall>s \<in> set (sc_shards sc). CacheShard_inv s"
    using assms by (auto simp: sharded_defs shards_ok_def in_set_conv_nth)
  ultimately show ?thesis by (simp add: ShardedCache_Len_def ShardedCache_content_def)
qed

section \<open>Interleavings\<close>

text \<open>The states of a \<open>ShardedCache\<close>: operations, and the goroutine of any shard.\<close>

inductive shc_step :: "'v ShardedCache \<Rightarrow> 'v ShardedCache \<Rightarrow> bool" where
  shc_get: "shc_step sc (snd (ShardedCache_Get k sc))"
| shc_set: "shc_step sc (ShardedCache_Set k v sc)"
| shc_delete: "shc_step sc (ShardedCache_Delete k sc)"
| shc_clear: "shc_step sc (ShardedCache_Clear sc)"
| shc_process: "i < length (sc_shards sc) \<Longrightarrow>
    CacheShard_processAccessRecord (sc_shards sc ! i) = Some s' \<Longrightarrow>
    shc_step sc (sc\<lparr>sc_shards := (sc_shards sc)[i := s']\<rparr>)"

inductive shc_reachable :: "int \<Rightarrow> int \<Rightarrow> 'v ShardedCache \<Rightarrow> bool" for tot n where
  shc_new: "shc_reachable tot n (NewShardedCache tot n)"
| shc_more: "shc_reachable tot n sc \<Longrightarrow> shc_step sc sc' \<Longrightarrow> shc_reachable tot n sc'"

lemma keys_spec_touch: "set (keys_of (spec_touch k xs)) = set (keys_of xs)"
  by (auto simp: spec_touch_def dest: map_of_Some_keys split: option.splits)

lemma shc_step_inv: "shc_step sc sc' \<Longrightarrow> ShardedCache_inv sc \<Longrightarrow> ShardedCache_inv sc'"
proof (induction rule: shc_step.induct)
  case (shc_process i sc s')
  have s: "CacheShard_inv (sc_shards sc ! i)"
    using shc_process by (simp add: sharded_defs shards_ok_def)
  note p = shard_process_refines[OF s shc_process(2)]
  have "shards_ok CacheShard_inv CacheShard_content (sc_mask sc) ((sc_shards sc)[i := s'])"
  proof (rule shards_ok_update)
    show "shards_ok CacheShard_inv CacheShard_content (sc_mask sc) (sc_shards sc)"
      using shc_process(3) by (simp add: ShardedCache_inv_def)
    show "CacheShard_inv s'" using p by simp
    fix j assume "j \<in> set (keys_of (CacheShard_content s'))"
    then have "j \<in> set (keys_of (CacheShard_content (sc_shards sc ! i)))"
      using p keys_spec_touch by metis
    then show "getShard_index (sc_mask sc) j = i"
      using shc_process by (simp add: sharded_defs shards_ok_def)
  qed
  then show ?case by (simp add: ShardedCache_inv_def)
qed (simp_all add: sharded_get_ok sharded_set_ok sharded_delete_ok sharded_clear_ok)

lemma shc_reachable_inv: "shc_reachable tot n sc \<Longrightarrow> ShardedCache_inv sc"
  by (induction rule: shc_reachable.induct) (auto simp: sharded_new intro: shc_step_inv)

section \<open>Properties\<close>

text \<open>C11: The pointer walks of \<open>GetSnapshot\<close>, \<open>GetAllKeys\<close> and \<open>GetAllEntries\<close> end in every reachable
  state of a \<open>ShardedCache\<close>; the keys they return are distinct, as many as \<open>Len\<close> says, and are
  exactly the keys a lookup finds, with the values the lookup returns.\<close>

theorem ShardedCache_snapshot_exact:
  assumes "shc_reachable tot n sc"
  shows "\<exists>kvs. ShardedCache_GetSnapshot sc = Some kvs
    \<and> ShardedCache_GetAllKeys sc = Some (map fst kvs)
    \<and> ShardedCache_GetAllEntries sc = Some (map snd kvs)
    \<and> distinct (map fst kvs) \<and> ShardedCache_Len sc = int (length kvs)
    \<and> (\<forall>k v. (k, v) \<in> set kvs \<longleftrightarrow> ShardedCache_GetNoUpdate k sc = Some v)"
proof -
  have i: "ShardedCache_inv sc" by (rule shc_reachable_inv[OF assms])
  have d: "distinct (keys_of (ShardedCache_content sc))"
    using shard.shards_distinct i by (simp add: sharded_defs)
  note sn = sharded_snapshot[OF i]
  then have "ShardedCache_GetAllKeys sc = Some (map fst (ShardedCache_content sc))"
    "ShardedCache_GetAllEntries sc = Some (map snd (ShardedCache_content sc))"
    by (simp_all add: ShardedCache_GetAllKeys_def ShardedCache_GetAllEntries_def
        ShardedCache_GetSnapshot_def)
  then show ?thesis
    using sn d distinct_keys_map_of[OF d] sharded_Len[OF i] sharded_lookup[OF i]
    by (intro exI[of _ "ShardedCache_content sc"]) (auto simp: keys_of_def)
qed

lemma shc_example: "shc_reachable 4 2 (ShardedCache_Set ''a'' (1::nat) (NewShardedCache 4 2))"
  by (intro shc_more[OF _ shc_step.shc_set] shc_new)

theorem ShardedCache_snapshot_exact_witness:
  "\<exists>kvs. ShardedCache_GetSnapshot (ShardedCache_Set ''a'' (1::nat) (NewShardedCache 4 2)) = Some kvs
     \<and> distinct (map fst kvs)"
  using ShardedCache_snapshot_exact[OF shc_example] by blast

lemma ShardedCache_Set_lookup_parts:
  assumes "shc_reachable tot n sc"
  shows "ShardedCache_GetNoUpdate k (ShardedCache_Set k v sc) = Some v"
    and "\<And>j. j \<noteq> k \<Longrightarrow> ShardedCache_GetNoUpdate j (ShardedCache_Set k v sc) = ShardedCache_GetNoUpdate j sc
      \<or> (ShardedCache_GetNoUpdate j (ShardedCache_Set k v sc) = None
         \<and> ShardedCache_getShard j sc = ShardedCache_getShard k sc
         \<and> ShardedCache_GetNoUpdate k sc = None
         \<and> j = fst (last (CacheShard_content (sc_shards sc ! ShardedCache_getShard k sc)))
         \<and> int (length (CacheShard_content (sc_shards sc ! ShardedCache_getShard k sc)))
             = cs_capacity (sc_shards sc ! ShardedCache_getShard k sc))"
proof -
  have i: "ShardedCache_inv sc" by (rule shc_reachable_inv[OF assms])
  then have ok: "shards_ok CacheShard_inv CacheShard_content (sc_mask sc) (sc_shards sc)"
    by (simp add: ShardedCache_inv_def)
  show "ShardedCache_GetNoUpdate k (ShardedCache_Set k v sc) = Some v"
    by (rule sharded_set_ok(2)[OF i])
  fix j assume j: "j \<noteq> k"
  let ?s = "sc_shards sc ! getShard_index (sc_mask sc) k"
  have s: "CacheShard_inv ?s" by (rule shards_ok_nth[OF ok])
  have look: "ShardedCache_GetNoUpdate j (ShardedCache_Set k v sc) =
      (if getShard_index (sc_mask sc) j = getShard_index (sc_mask sc) k
          \<and> spec_evicted (cs_capacity ?s) k v (CacheShard_content ?s) \<noteq> []
          \<and> j = fst (last (CacheShard_content ?s)) then None else ShardedCache_GetNoUpdate j sc)"
    using shard.shards_lookup_set_other[OF ok refl j, of v]
    by (simp only: ShardedCache_GetNoUpdate_def sharded_Set_simps ShardedCache_getShard_def)
  have none: "map_of (CacheShard_content ?s) k = ShardedCache_GetNoUpdate k sc"
    by (simp add: ShardedCache_GetNoUpdate_def ShardedCache_getShard_def CacheShard_lookup[OF s])
  have full: "int (length (CacheShard_content ?s)) = cs_capacity ?s"
    if "0 < cs_capacity ?s" "cs_capacity ?s < int (length (CacheShard_content ?s)) + 1"
    using that shard.bounded[OF s] by simp
  show "ShardedCache_GetNoUpdate j (ShardedCache_Set k v sc) = ShardedCache_GetNoUpdate j sc
      \<or> (ShardedCache_GetNoUpdate j (ShardedCache_Set k v sc) = None
         \<and> ShardedCache_getShard j sc = ShardedCache_getShard k sc
         \<and> ShardedCache_GetNoUpdate k sc = None
         \<and> j = fst (last (CacheShard_content (sc_shards sc ! ShardedCache_getShard k sc)))
         \<and> int (length (CacheShard_content (sc_shards sc ! ShardedCache_getShard k sc)))
             = cs_capacity (sc_shards sc ! ShardedCache_getShard k sc))"
    unfolding look using none full
    by (auto simp: ShardedCache_getShard_def spec_evicted_def split: if_splits)
qed

text \<open>\<open>Set\<close> on a reachable \<open>ShardedCache\<close> is a map update as far as lookups can tell, except
  that one other key may disappear: the least recently used key of the same shard, and only when
  the key set is new and its shard is full. Keys of other shards are never affected.\<close>

theorem ShardedCache_Set_lookup:
  assumes "shc_reachable tot n sc"
  shows "ShardedCache_GetNoUpdate k (ShardedCache_Set k v sc) = Some v \<and>
    (\<forall>j. j \<noteq> k \<longrightarrow> ShardedCache_GetNoUpdate j (ShardedCache_Set k v sc) = ShardedCache_GetNoUpdate j sc
      \<or> (ShardedCache_GetNoUpdate j (ShardedCache_Set k v sc) = None
         \<and> ShardedCache_getShard j sc = ShardedCache_getShard k sc
         \<and> ShardedCache_GetNoUpdate k sc = None
         \<and> j = fst (last (CacheShard_content (sc_shards sc ! ShardedCache_getShard k sc)))
         \<and> int (length (CacheShard_content (sc_shards sc ! ShardedCache_getShard k sc)))
             = cs_capacity (sc_shards sc ! ShardedCache_getShard k sc)))"
  using ShardedCache_Set_lookup_parts[OF assms] by blast

theorem ShardedCache_Set_lookup_witness:
  "ShardedCache_GetNoUpdate ''b'' (ShardedCache_Set ''b'' 2
     (ShardedCache_Set ''a'' (1::nat) (NewShardedCache 4 2))) = Some 2"
  using ShardedCache_Set_lookup[OF shc_example] by blast

lemma ShardedCache_dirty_ignores_overwrite_parts:
  assumes "shc_reachable tot n sc"
  shows "ShardedCache_GetNoUpdate k sc \<noteq> None \<Longrightarrow>
      ShardedCache_GetDirtyCount (ShardedCache_Set k v sc) = ShardedCache_GetDirtyCount sc
      \<and> ShardedCache_GetNoUpdate k (ShardedCache_Set k v sc) = Some v"
    and "ShardedCache_GetNoUpdate k sc = None \<Longrightarrow>
      ShardedCache_GetDirtyCount (ShardedCache_Set k v sc) = ShardedCache_GetDirtyCount sc + 1"
    and "ShardedCache_GetDirtyCount (ShardedCache_Delete k sc) =
      (if ShardedCache_GetNoUpdate k sc = None then ShardedCache_GetDirtyCount sc
       else ShardedCache_GetDirtyCount sc + 1)"
proof -
  have i: "ShardedCache_inv sc" by (rule shc_reachable_inv[OF assms])
  let ?s = "sc_shards sc ! getShard_index (sc_mask sc) k"
  have s: "CacheShard_inv ?s" using i shards_ok_nth by (auto simp: ShardedCache_inv_def)
  have look: "map_of (CacheShard_content ?s) k = ShardedCache_GetNoUpdate k sc"
    by (simp add: ShardedCache_GetNoUpdate_def ShardedCache_getShard_def CacheShard_lookup[OF s])
  note flags = shard_set_refines(4)[OF s, of k v] shard_delete_refines(4)[OF s, of k]
  show "ShardedCache_GetNoUpdate k sc \<noteq> None \<Longrightarrow>
      ShardedCache_GetDirtyCount (ShardedCache_Set k v sc) = ShardedCache_GetDirtyCount sc
      \<and> ShardedCache_GetNoUpdate k (ShardedCache_Set k v sc) = Some v"
    using flags look by (simp add: ShardedCache_GetDirtyCount_def sharded_Set_simps sharded_set_ok(2)[OF i])
  show "ShardedCache_GetNoUpdate k sc = None \<Longrightarrow>
      ShardedCache_GetDirtyCount (ShardedCache_Set k v sc) = ShardedCache_GetDirtyCount sc + 1"
    using flags look by (simp add: ShardedCache_GetDirtyCount_def sharded_Set_simps)
  show "ShardedCache_GetDirtyCount (ShardedCache_Delete k sc) =
      (if ShardedCache_GetNoUpdate k sc = None then ShardedCache_GetDirtyCount sc
       else ShardedCache_GetDirtyCount sc + 1)"
    using flags look
    by (simp add: ShardedCache_GetDirtyCount_def ShardedCache_Delete_def Let_def ShardedCache_getShard_def)
qed

text \<open>The change counter of a \<open>ShardedCache\<close>, which persistence consults, does not count an
  overwrite: setting a key that is present leaves the counter as it was even though the stored
  value changed; a new key and the deletion of a present key each add one.\<close>

theorem ShardedCache_dirty_ignores_overwrite:
  assumes "shc_reachable tot n sc"
  shows "(ShardedCache_GetNoUpdate k sc \<noteq> None \<longrightarrow>
      ShardedCache_GetDirtyCount (ShardedCache_Set k v sc) = ShardedCache_GetDirtyCount sc
      \<and> ShardedCache_GetNoUpdate k (ShardedCache_Set k v sc) = Some v)
    \<and> (ShardedCache_GetNoUpdate k sc = None \<longrightarrow>
      ShardedCache_GetDirtyCount (ShardedCache_Set k v sc) = ShardedCache_GetDirtyCount sc + 1)
    \<and> ShardedCache_GetDirtyCount (ShardedCache_Delete k sc) =
      (if ShardedCache_GetNoUpdate k sc = None then ShardedCache_GetDirtyCount sc
       else ShardedCache_GetDirtyCount sc + 1)"
  using ShardedCache_dirty_ignores_overwrite_parts[OF assms] by blast

theorem ShardedCache_dirty_ignores_overwrite_witness:
  "ShardedCache_GetDirtyCount (ShardedCache_Set ''a'' 2
     (ShardedCache_Set ''a'' (1::nat) (NewShardedCache 4 2)))
   = ShardedCache_GetDirtyCount (ShardedCache_Set ''a'' (1::nat) (NewShardedCache 4 2))"
  using ShardedCache_dirty_ignores_overwrite[OF shc_example, of "''a''" 2]
    sharded_set_ok(2)[OF sharded_new(1), of "''a''" "1::nat" 4 2] by simp

end
