(* ===== verification/Go_List.thy ===== *)
theory Go_List
  imports Prelude
begin

text \<open>Go's \<open>container/list\<close>: a doubly linked list whose elements have an identity. An element is a
  number (the address of its \<open>list.Element\<close>); a list holds its elements front to back with their
  values, and the next fresh address. The two LRU caches of the program index the elements of such
  a list by key; \<open>indexed\<close> is the invariant that ties the Go map to the list, with one lemma for each
  way the caches change both.\<close>

record 'a go_list =
  gl_elems :: "(nat \<times> 'a) list"
  gl_next :: nat

definition list_New :: "'a go_list" where
  "list_New = \<lparr>gl_elems = [], gl_next = 0\<rparr>"

definition list_Len :: "'a go_list \<Rightarrow> int" where
  "list_Len l = int (length (gl_elems l))"

definition list_Value :: "nat \<Rightarrow> 'a go_list \<Rightarrow> 'a option" where
  "list_Value e l = map_of (gl_elems l) e"

definition list_PushFront :: "'a \<Rightarrow> 'a go_list \<Rightarrow> nat \<times> 'a go_list" where
  "list_PushFront v l =
     (gl_next l, l\<lparr>gl_elems := (gl_next l, v) # gl_elems l, gl_next := Suc (gl_next l)\<rparr>)"

definition list_Remove :: "nat \<Rightarrow> 'a go_list \<Rightarrow> 'a go_list" where
  "list_Remove e l = l\<lparr>gl_elems := drop_key e (gl_elems l)\<rparr>"

definition list_MoveToFront :: "nat \<Rightarrow> 'a go_list \<Rightarrow> 'a go_list" where
  "list_MoveToFront e l = (case list_Value e l of None \<Rightarrow> l
     | Some v \<Rightarrow> l\<lparr>gl_elems := (e, v) # drop_key e (gl_elems l)\<rparr>)"

text \<open>\<open>elem.Value.(*node).value = v\<close>: the node behind an element is updated in place.\<close>

definition list_SetValue :: "nat \<Rightarrow> ('a \<Rightarrow> 'a) \<Rightarrow> 'a go_list \<Rightarrow> 'a go_list" where
  "list_SetValue e f l =
     l\<lparr>gl_elems := map (\<lambda>(e', v). (e', if e' = e then f v else v)) (gl_elems l)\<rparr>"

definition list_Back :: "'a go_list \<Rightarrow> (nat \<times> 'a) option" where
  "list_Back l = (if gl_elems l = [] then None else Some (last (gl_elems l)))"

definition list_ok :: "'a go_list \<Rightarrow> bool" where
  "list_ok l \<longleftrightarrow> distinct (keys_of (gl_elems l)) \<and> (\<forall>e \<in> set (keys_of (gl_elems l)). e < gl_next l)"

lemma list_ok_New [simp]: "list_ok list_New"
  by (simp add: list_ok_def list_New_def)

section \<open>Lists of key-value nodes and their index\<close>

record 'v lruNode =
  node_key :: string
  node_value :: 'v

abbreviation node_pair :: "'v lruNode \<Rightarrow> string \<times> 'v" where
  "node_pair n \<equiv> (node_key n, node_value n)"

definition node_pairs :: "(nat \<times> 'v lruNode) list \<Rightarrow> (string \<times> 'v) list" where
  "node_pairs xs = map (\<lambda>p. node_pair (snd p)) xs"

definition list_pairs :: "'v lruNode go_list \<Rightarrow> (string \<times> 'v) list" where
  "list_pairs l = node_pairs (gl_elems l)"

text \<open>The elements in list order with their keys; the Go map is exactly its inverse.\<close>

definition node_index :: "(nat \<times> 'v lruNode) list \<Rightarrow> (string \<times> nat) list" where
  "node_index xs = map (\<lambda>p. (node_key (snd p), fst p)) xs"

definition elem_keys :: "'v lruNode go_list \<Rightarrow> (string \<times> nat) list" where
  "elem_keys l = node_index (gl_elems l)"

lemma node_pairs_simps [simp]: "node_pairs [] = []"
  "node_pairs (p # xs) = node_pair (snd p) # node_pairs xs"
  "node_pairs (xs @ ys) = node_pairs xs @ node_pairs ys"
  by (simp_all add: node_pairs_def)

lemma node_index_simps [simp]: "node_index [] = []"
  "node_index (p # xs) = (node_key (snd p), fst p) # node_index xs"
  "node_index (xs @ ys) = node_index xs @ node_index ys"
  by (simp_all add: node_index_def)

lemma keys_node_index [simp]: "keys_of (node_index xs) = keys_of (node_pairs xs)"
  by (induction xs) auto

definition indexed :: "(string \<rightharpoonup> nat) \<Rightarrow> 'v lruNode go_list \<Rightarrow> bool" where
  "indexed m l \<longleftrightarrow> list_ok l \<and> distinct (keys_of (list_pairs l)) \<and> m = map_of (elem_keys l)"

lemma keys_list_pairs: "keys_of (list_pairs l) = keys_of (elem_keys l)"
  by (simp add: list_pairs_def elem_keys_def)

lemma indexed_New [simp]: "indexed Map.empty list_New" "list_pairs list_New = []"
  by (simp_all add: indexed_def list_pairs_def elem_keys_def list_New_def list_ok_def)

lemma indexed_distinct: "indexed m l \<Longrightarrow> distinct (keys_of (list_pairs l))"
  by (simp add: indexed_def)

lemma indexed_dom: "indexed m l \<Longrightarrow> m k = None \<longleftrightarrow> k \<notin> set (keys_of (list_pairs l))"
  by (simp add: indexed_def keys_list_pairs map_of_eq_None_keys)

lemma list_Len_pairs: "list_Len l = int (length (list_pairs l))"
  by (simp add: list_Len_def list_pairs_def node_pairs_def)

lemma indexed_split:
  assumes "indexed m l" "m k = Some e"
  obtains as n bs where "gl_elems l = as @ (e, n) # bs" "node_key n = k"
    "e \<notin> set (keys_of as)" "e \<notin> set (keys_of bs)"
    "k \<notin> set (keys_of (node_pairs as))" "k \<notin> set (keys_of (node_pairs bs))"
proof -
  from assms have "(k, e) \<in> set (elem_keys l)"
    by (auto simp: indexed_def dest: map_of_SomeD)
  then obtain n where n: "(e, n) \<in> set (gl_elems l)" "node_key n = k"
    by (auto simp: elem_keys_def node_index_def)
  then obtain as bs where l: "gl_elems l = as @ (e, n) # bs"
    by (meson split_list)
  have "distinct (keys_of (gl_elems l))" "distinct (keys_of (list_pairs l))"
    using assms by (auto simp: indexed_def list_ok_def)
  then show ?thesis
    using that[OF l n(2)] n(2) by (auto simp: l list_pairs_def)
qed

lemma indexed_lookup:
  assumes "indexed m l" "m k = Some e"
  shows "\<exists>n. list_Value e l = Some n \<and> map_of (list_pairs l) k = Some (node_value n)"
  using assms
proof (rule indexed_split)
  fix as n bs assume *: "gl_elems l = as @ (e, n) # bs" "node_key n = k" "e \<notin> set (keys_of as)"
    "k \<notin> set (keys_of (node_pairs as))" "k \<notin> set (keys_of (node_pairs bs))"
  have "map_of (node_pairs as) k = None"
    using * by (simp add: map_of_eq_None_keys)
  moreover have "map_of as e = None"
    using *(3) by (simp add: map_of_eq_None_keys)
  ultimately show ?thesis
    using * by (simp add: list_Value_def list_pairs_def map_add_def)
qed

lemma indexed_PushFront:
  assumes "indexed m l" "m k = None" "list_PushFront n l = (e, l')" "node_key n = k"
  shows "indexed (m(k \<mapsto> e)) l'" "list_pairs l' = (k, node_value n) # list_pairs l"
    "gl_elems l' = (e, n) # gl_elems l"
  using assms indexed_dom[OF assms(1), of k]
  by (auto simp: indexed_def list_PushFront_def list_pairs_def elem_keys_def list_ok_def
      less_Suc_eq)

lemma indexed_Remove:
  assumes "indexed m l" "m k = Some e"
  shows "indexed (m(k := None)) (list_Remove e l)"
    "list_pairs (list_Remove e l) = drop_key k (list_pairs l)"
  using assms
proof (atomize (full), rule indexed_split)
  fix as n bs assume *: "gl_elems l = as @ (e, n) # bs" "node_key n = k" "e \<notin> set (keys_of as)"
    "e \<notin> set (keys_of bs)" "k \<notin> set (keys_of (node_pairs as))" "k \<notin> set (keys_of (node_pairs bs))"
  have p: "list_pairs (list_Remove e l) = drop_key k (list_pairs l)"
    and q: "elem_keys (list_Remove e l) = drop_key k (elem_keys l)"
    using * by (simp_all add: list_pairs_def elem_keys_def list_Remove_def)
  moreover have "list_ok (list_Remove e l)"
    using assms(1) by (simp add: indexed_def list_ok_def list_Remove_def)
  ultimately show "indexed (m(k := None)) (list_Remove e l) \<and>
      list_pairs (list_Remove e l) = drop_key k (list_pairs l)"
    using assms(1) by (simp add: indexed_def)
qed

lemma indexed_MoveToFront:
  assumes "indexed m l" "m k = Some e" "map_of (list_pairs l) k = Some v"
  shows "indexed m (list_MoveToFront e l)"
    "list_pairs (list_MoveToFront e l) = (k, v) # drop_key k (list_pairs l)"
  using assms(1,2)
proof (atomize (full), rule indexed_split)
  fix as n bs assume *: "gl_elems l = as @ (e, n) # bs" "node_key n = k" "e \<notin> set (keys_of as)"
    "e \<notin> set (keys_of bs)" "k \<notin> set (keys_of (node_pairs as))" "k \<notin> set (keys_of (node_pairs bs))"
  have v: "list_Value e l = Some n" "v = node_value n"
    using indexed_lookup[OF assms(1,2)] assms(3) *
    by (auto simp: list_Value_def list_pairs_def map_add_def split: option.splits
        dest: map_of_Some_keys)
  have p: "list_pairs (list_MoveToFront e l) = (k, v) # drop_key k (list_pairs l)"
    and q: "elem_keys (list_MoveToFront e l) = (k, e) # drop_key k (elem_keys l)"
    using * v by (simp_all add: list_pairs_def elem_keys_def list_MoveToFront_def)
  moreover have "list_ok (list_MoveToFront e l)"
    using assms(1) * v by (auto simp: indexed_def list_ok_def list_MoveToFront_def)
  moreover have "m = map_of (elem_keys (list_MoveToFront e l))"
    using assms(1,2) q by (auto simp: indexed_def fun_eq_iff)
  ultimately show "indexed m (list_MoveToFront e l) \<and>
      list_pairs (list_MoveToFront e l) = (k, v) # drop_key k (list_pairs l)"
    using assms(1) by (simp add: indexed_def)
qed

lemma indexed_SetValue:
  assumes "indexed m l" "m k = Some e"
  shows "indexed m (list_SetValue e (\<lambda>n. n\<lparr>node_value := v\<rparr>) l)"
    "drop_key k (list_pairs (list_SetValue e (\<lambda>n. n\<lparr>node_value := v\<rparr>) l)) = drop_key k (list_pairs l)"
    "map_of (list_pairs (list_SetValue e (\<lambda>n. n\<lparr>node_value := v\<rparr>) l)) k = Some v"
  using assms
proof (atomize (full), rule indexed_split)
  fix as n bs assume *: "gl_elems l = as @ (e, n) # bs" "node_key n = k" "e \<notin> set (keys_of as)"
    "e \<notin> set (keys_of bs)" "k \<notin> set (keys_of (node_pairs as))" "k \<notin> set (keys_of (node_pairs bs))"
  let ?l = "list_SetValue e (\<lambda>n. n\<lparr>node_value := v\<rparr>) l"
  have same: "map (\<lambda>(e', w). (e', if e' = e then f w else w)) xs = xs"
    if "e \<notin> set (keys_of xs)" for xs :: "(nat \<times> 'a lruNode) list" and f
    using that by (induction xs) auto
  have l: "gl_elems ?l = as @ (e, n\<lparr>node_value := v\<rparr>) # bs" "gl_next ?l = gl_next l"
    using * by (simp_all add: list_SetValue_def same)
  have q: "elem_keys ?l = elem_keys l"
    using * l by (simp add: elem_keys_def)
  have "list_ok ?l"
    using assms(1) * l by (simp add: indexed_def list_ok_def)
  moreover have "distinct (keys_of (list_pairs ?l))"
    using assms(1) by (simp add: indexed_def keys_list_pairs q)
  moreover have "map_of (node_pairs as) k = None"
    using * by (simp add: map_of_eq_None_keys)
  ultimately show "indexed m ?l \<and> drop_key k (list_pairs ?l) = drop_key k (list_pairs l) \<and>
      map_of (list_pairs ?l) k = Some v"
    using assms(1) q l * by (simp add: indexed_def list_pairs_def map_add_def)
qed

lemma list_Back_nonempty:
  assumes "list_pairs l \<noteq> []" obtains e n where "list_Back l = Some (e, n)"
proof (cases "last (gl_elems l)")
  case (Pair e n)
  moreover have "gl_elems l \<noteq> []" using assms by (auto simp: list_pairs_def)
  ultimately show ?thesis using that[of e n] by (simp add: list_Back_def)
qed

lemma indexed_Back:
  assumes "indexed m l" "list_Back l = Some (e, n)"
  shows "m (node_key n) = Some e" "drop_key (node_key n) (list_pairs l) = butlast (list_pairs l)"
    "last (list_pairs l) = node_pair n" "list_pairs l \<noteq> []"
proof -
  obtain as where l: "gl_elems l = as @ [(e, n)]"
    using assms(2) by (metis append_butlast_last_id list_Back_def option.distinct(1) option.inject)
  have d: "distinct (keys_of (list_pairs l))" and m: "m = map_of (elem_keys l)"
    using assms(1) by (auto simp: indexed_def)
  have n: "node_key n \<notin> set (keys_of (node_pairs as))"
    using d by (simp add: list_pairs_def l)
  then have "map_of (node_index as) (node_key n) = None"
    by (simp add: map_of_eq_None_keys)
  then show "m (node_key n) = Some e"
    by (simp add: m elem_keys_def l map_add_def)
  show "drop_key (node_key n) (list_pairs l) = butlast (list_pairs l)"
    using n by (simp add: list_pairs_def l butlast_append)
  show "last (list_pairs l) = node_pair n" "list_pairs l \<noteq> []"
    by (simp_all add: list_pairs_def l)
qed

end
