(* ===== verification/Lru_Cache.thy ===== *)
theory Lru_Cache
  imports Lru_Spec Go_List "HOL-Library.Multiset"
begin

text \<open>\<open>cache/lru_cache.go\<close>: the read-friendly LRU cache. \<open>Get\<close> reads under the read lock and only
  queues the key on \<open>accessChan\<close>; a goroutine moves queued keys to the front later. Every section
  under the lock, every atomic operation on \<open>pending\<close> and every channel operation is a function on
  the state of its own; \<open>LRUCache_Get\<close> and \<open>LRUCache_processAccessRecord\<close> are their compositions
  when nothing runs in between (what a single goroutine sees, used by the sequential models above
  this one), and the step relation at the end interleaves the pieces: calls of \<open>Get\<close> stand at a
  program point, the worker at another. The eviction callback is a list of emitted calls.
  \<open>LRUCache\<close> is an \<open>lru_store\<close>.\<close>

record 'v LRUCache =
  lru_capacity :: int
  lru_cache :: "string \<rightharpoonup> nat"
  lru_list :: "'v lruNode go_list"
  lru_accessChan :: "string list"
  lru_pending :: int
  lru_onEvict :: bool

definition lru_chan_cap :: nat where "lru_chan_cap = 1000"

definition NewLRUCache :: "int \<Rightarrow> 'v LRUCache" where
  "NewLRUCache capacity =
     \<lparr>lru_capacity = (if capacity \<le> 0 then 10000 else capacity), lru_cache = Map.empty,
      lru_list = list_New, lru_accessChan = [], lru_pending = 0, lru_onEvict = False\<rparr>"

text \<open>The atomic actions on the access records: \<open>atomic.AddInt32(&lru.pending, 1)\<close>, the non-blocking
  send, which fails on a full channel, \<open>atomic.AddInt32(&lru.pending, -1)\<close> and the receive of the
  worker. The counter is 32 bits wide; it counts goroutines and buffered keys and does not come
  near the bound.\<close>

definition access_count :: "'v LRUCache \<Rightarrow> 'v LRUCache" where
  "access_count lru = lru\<lparr>lru_pending := lru_pending lru + 1\<rparr>"

definition access_send :: "string \<Rightarrow> 'v LRUCache \<Rightarrow> 'v LRUCache option" where
  "access_send key lru =
     (if length (lru_accessChan lru) < lru_chan_cap
      then Some (lru\<lparr>lru_accessChan := lru_accessChan lru @ [key]\<rparr>) else None)"

definition access_uncount :: "'v LRUCache \<Rightarrow> 'v LRUCache" where
  "access_uncount lru = lru\<lparr>lru_pending := lru_pending lru - 1\<rparr>"

definition access_receive :: "'v LRUCache \<Rightarrow> (string \<times> 'v LRUCache) option" where
  "access_receive lru = (case lru_accessChan lru of
      [] \<Rightarrow> None | key # rest \<Rightarrow> Some (key, lru\<lparr>lru_accessChan := rest\<rparr>))"

lemmas access_defs = access_count_def access_send_def access_uncount_def access_receive_def

text \<open>One iteration of the goroutine: receive a key, count it off, move its element to the front
  under the lock.\<close>

definition move_key_front :: "string \<Rightarrow> 'v LRUCache \<Rightarrow> 'v LRUCache" where
  "move_key_front key lru = (case lru_cache lru key of
      None \<Rightarrow> lru
    | Some elem \<Rightarrow> lru\<lparr>lru_list := list_MoveToFront elem (lru_list lru)\<rparr>)"

definition LRUCache_processAccessRecord :: "'v LRUCache \<Rightarrow> 'v LRUCache option" where
  "LRUCache_processAccessRecord lru =
     map_option (\<lambda>(key, lru1). move_key_front key (access_uncount lru1)) (access_receive lru)"

text \<open>The drain loop after \<open>stopChan\<close> is closed: process until the channel is empty.\<close>

function LRUCache_drain :: "'v LRUCache \<Rightarrow> 'v LRUCache" where
  "LRUCache_drain lru = (case LRUCache_processAccessRecord lru of
      None \<Rightarrow> lru | Some lru' \<Rightarrow> LRUCache_drain lru')"
  by pat_completeness auto
termination
  by (relation "measure (\<lambda>l. length (lru_accessChan l))")
     (auto simp: LRUCache_processAccessRecord_def access_defs move_key_front_def
        split: list.splits option.splits)

declare LRUCache_drain.simps [simp del]

definition LRUCache_GetNoUpdate :: "string \<Rightarrow> 'v LRUCache \<Rightarrow> 'v option" where
  "LRUCache_GetNoUpdate key lru = (case lru_cache lru key of
      None \<Rightarrow> None
    | Some elem \<Rightarrow> map_option node_value (list_Value elem (lru_list lru)))"

text \<open>\<open>Get\<close> with nothing in between: read under the read lock, count, send, and count off when the
  channel is full.\<close>

definition LRUCache_Get :: "string \<Rightarrow> 'v LRUCache \<Rightarrow> 'v option \<times> 'v LRUCache" where
  "LRUCache_Get key lru = (case lru_cache lru key of
      None \<Rightarrow> (None, lru)
    | Some elem \<Rightarrow>
       (let value = map_option node_value (list_Value elem (lru_list lru));
            lru1 = access_count lru
        in (value, case access_send key lru1 of
                     Some lru2 \<Rightarrow> lru2
                   | None \<Rightarrow> access_uncount lru1)))"

definition LRUCache_evictOne :: "'v LRUCache \<Rightarrow> 'v LRUCache \<times> (string \<times> 'v) list" where
  "LRUCache_evictOne lru = (case list_Back (lru_list lru) of
      None \<Rightarrow> (lru, [])
    | Some (elem, node) \<Rightarrow>
       (lru\<lparr>lru_list := list_Remove elem (lru_list lru),
            lru_cache := (lru_cache lru)(node_key node := None)\<rparr>,
        if lru_onEvict lru then [(node_key node, node_value node)] else []))"

definition LRUCache_Set :: "string \<Rightarrow> 'v \<Rightarrow> 'v LRUCache \<Rightarrow> 'v LRUCache \<times> (string \<times> 'v) list" where
  "LRUCache_Set key value lru = (case lru_cache lru key of
      Some elem \<Rightarrow>
       (let l1 = list_SetValue elem (\<lambda>n. n\<lparr>node_value := value\<rparr>) (lru_list lru)
        in (lru\<lparr>lru_list := list_MoveToFront elem l1\<rparr>, []))
    | None \<Rightarrow>
       (let (elem, l1) = list_PushFront \<lparr>node_key = key, node_value = value\<rparr> (lru_list lru);
            lru1 = lru\<lparr>lru_list := l1, lru_cache := (lru_cache lru)(key \<mapsto> elem)\<rparr>
        in if 0 < lru_capacity lru1 \<and> lru_capacity lru1 < list_Len (lru_list lru1)
           then LRUCache_evictOne lru1 else (lru1, [])))"

definition LRUCache_Len :: "'v LRUCache \<Rightarrow> int" where
  "LRUCache_Len lru = list_Len (lru_list lru)"

definition LRUCache_Delete :: "string \<Rightarrow> 'v LRUCache \<Rightarrow> 'v LRUCache" where
  "LRUCache_Delete key lru = (case lru_cache lru key of
      None \<Rightarrow> lru
    | Some elem \<Rightarrow> lru\<lparr>lru_list := list_Remove elem (lru_list lru),
                       lru_cache := (lru_cache lru)(key := None)\<rparr>)"

definition LRUCache_Clear :: "'v LRUCache \<Rightarrow> 'v LRUCache" where
  "LRUCache_Clear lru = lru\<lparr>lru_cache := Map.empty, lru_list := list_New\<rparr>"

definition LRUCache_Close :: "'v LRUCache \<Rightarrow> 'v LRUCache" where
  "LRUCache_Close lru = LRUCache_drain lru"

definition LRUCache_GetPendingAccess :: "'v LRUCache \<Rightarrow> int" where
  "LRUCache_GetPendingAccess lru = lru_pending lru"

definition LRUCache_SetOnEvict :: "bool \<Rightarrow> 'v LRUCache \<Rightarrow> 'v LRUCache" where
  "LRUCache_SetOnEvict has_callback lru = lru\<lparr>lru_onEvict := has_callback\<rparr>"

text \<open>\<open>CleanExpired\<close>: collect the elements whose value is expired, then remove each.\<close>

definition elems_to_remove :: "('v \<Rightarrow> bool) \<Rightarrow> 'v lruNode go_list \<Rightarrow> (nat \<times> 'v lruNode) list" where
  "elems_to_remove isExpired l = filter (\<lambda>(e, n). isExpired (node_value n)) (gl_elems l)"

definition remove_elem ::
  "nat \<times> 'v lruNode \<Rightarrow> (string \<rightharpoonup> nat) \<times> 'v lruNode go_list \<times> int \<Rightarrow>
   (string \<rightharpoonup> nat) \<times> 'v lruNode go_list \<times> int" where
  "remove_elem en s = (case (en, s) of ((elem, node), (m, l, removed)) \<Rightarrow>
     (m(node_key node := None), list_Remove elem l, removed + 1))"

definition LRUCache_CleanExpired :: "('v \<Rightarrow> bool) \<Rightarrow> 'v LRUCache \<Rightarrow> int \<times> 'v LRUCache" where
  "LRUCache_CleanExpired isExpired lru =
     (case fold remove_elem (elems_to_remove isExpired (lru_list lru)) (lru_cache lru, lru_list lru, 0) of
        (m, l, removed) \<Rightarrow> (removed, lru\<lparr>lru_cache := m, lru_list := l\<rparr>))"

section \<open>Removing a batch of elements\<close>

lemma remove_elems_indexed:
  assumes "indexed m l" "\<forall>(e, n) \<in> set es. m (node_key n) = Some e" "distinct (keys_of (node_pairs es))"
    "fold remove_elem es (m, l, c) = (m', l', c')"
  shows "indexed m' l' \<and> list_pairs l' = fold drop_key (keys_of (node_pairs es)) (list_pairs l)
    \<and> c' = c + int (length es)"
  using assms
proof (induction es arbitrary: m l c)
  case (Cons p es)
  obtain e n where p: "p = (e, n)" by force
  have m: "m (node_key n) = Some e" using Cons.prems(2) p by auto
  have keep: "\<forall>(e', n') \<in> set es. (m(node_key n := None)) (node_key n') = Some e'"
    using Cons.prems(2,3) p by (auto simp: node_pairs_def keys_of_def image_iff)
  have rest: "fold remove_elem es (m(node_key n := None), list_Remove e l, c + 1) = (m', l', c')"
    using Cons.prems(4) by (simp add: p remove_elem_def[of "(e, n)"])
  have d: "distinct (keys_of (node_pairs es))" using Cons.prems(3) by simp
  show ?case
    using Cons.IH[OF indexed_Remove(1)[OF Cons.prems(1) m] keep d rest]
    by (simp add: p indexed_Remove(2)[OF Cons.prems(1) m])
qed auto

lemma fold_drop_key: "fold drop_key ks xs = filter (\<lambda>p. fst p \<notin> set ks) xs"
  by (induction ks arbitrary: xs) (auto simp: drop_key_def intro!: filter_cong)

lemma filter_keys_filter:
  "distinct (keys_of xs) \<Longrightarrow>
   filter (\<lambda>p. fst p \<notin> set (keys_of (filter P xs))) xs = filter (\<lambda>p. \<not> P p) xs"
  by (rule filter_cong) (auto simp: keys_of_def dest: eq_key_imp_eq_value)

lemma clean_indexed:
  assumes "indexed m l" "fold remove_elem (elems_to_remove P l) (m, l, 0) = (m', l', c')"
  shows "indexed m' l'" "list_pairs l' = filter (\<lambda>p. \<not> P (snd p)) (list_pairs l)"
    "c' = int (length (list_pairs l)) - int (length (list_pairs l'))"
proof -
  let ?es = "elems_to_remove P l"
  have pairs: "node_pairs ?es = filter (\<lambda>p. P (snd p)) (list_pairs l)"
    by (simp add: elems_to_remove_def list_pairs_def node_pairs_def filter_map comp_def case_prod_unfold)
  have d: "distinct (keys_of (list_pairs l))" using assms(1) by (rule indexed_distinct)
  have m: "\<forall>(e, n) \<in> set ?es. m (node_key n) = Some e"
  proof (intro ballI, clarify)
    fix e n assume "(e, n) \<in> set ?es"
    then have "(node_key n, e) \<in> set (elem_keys l)"
      by (force simp: elems_to_remove_def elem_keys_def node_index_def)
    then show "m (node_key n) = Some e"
      using assms(1) by (simp add: indexed_def keys_list_pairs distinct_keys_map_of)
  qed
  have "indexed m' l' \<and> list_pairs l' = fold drop_key (keys_of (node_pairs ?es)) (list_pairs l)
    \<and> c' = 0 + int (length ?es)"
    by (rule remove_elems_indexed[OF assms(1) m _ assms(2)])
       (simp add: pairs distinct_keys_filter d)
  moreover have "length ?es = length (node_pairs ?es)" by (simp add: node_pairs_def)
  moreover have "length (filter (\<lambda>p. P (snd p)) (list_pairs l)) +
      length (filter (\<lambda>p. \<not> P (snd p)) (list_pairs l)) = length (list_pairs l)"
    by (rule sum_length_filter_compl)
  ultimately show "indexed m' l'" "list_pairs l' = filter (\<lambda>p. \<not> P (snd p)) (list_pairs l)"
    "c' = int (length (list_pairs l)) - int (length (list_pairs l'))"
    by (simp_all add: pairs fold_drop_key filter_keys_filter d)
qed

section \<open>The invariant and the refinement\<close>

definition LRUCache_content :: "'v LRUCache \<Rightarrow> (string \<times> 'v) list" where
  "LRUCache_content lru = list_pairs (lru_list lru)"

definition LRUCache_inv :: "'v LRUCache \<Rightarrow> bool" where
  "LRUCache_inv lru \<longleftrightarrow> indexed (lru_cache lru) (lru_list lru)
     \<and> spec_ok (lru_capacity lru) (LRUCache_content lru)
     \<and> length (lru_accessChan lru) \<le> lru_chan_cap"

lemmas LRUCache_inv_defs = LRUCache_inv_def LRUCache_content_def

lemma LRUCache_inv_New: "LRUCache_inv (NewLRUCache c)" "LRUCache_content (NewLRUCache c) = []"
  by (simp_all add: NewLRUCache_def LRUCache_inv_defs)

lemma LRUCache_lookup_none:
  "LRUCache_inv lru \<Longrightarrow> lru_cache lru k = None \<longleftrightarrow> map_of (LRUCache_content lru) k = None"
  by (simp add: LRUCache_inv_defs indexed_dom map_of_eq_None_keys)

lemma LRUCache_lookup:
  "LRUCache_inv lru \<Longrightarrow> LRUCache_GetNoUpdate k lru = map_of (LRUCache_content lru) k"
  using LRUCache_lookup_none[of lru k] indexed_lookup[of "lru_cache lru" "lru_list lru" k]
  by (auto simp: LRUCache_inv_defs LRUCache_GetNoUpdate_def split: option.splits)

lemma LRUCache_Get_value: "fst (LRUCache_Get k lru) = LRUCache_GetNoUpdate k lru"
  by (simp add: LRUCache_Get_def LRUCache_GetNoUpdate_def Let_def split: option.splits)

lemma LRUCache_Get_keeps:
  "LRUCache_inv lru \<Longrightarrow> LRUCache_inv (snd (LRUCache_Get k lru))
    \<and> LRUCache_content (snd (LRUCache_Get k lru)) = LRUCache_content lru
    \<and> lru_capacity (snd (LRUCache_Get k lru)) = lru_capacity lru"
  by (auto simp: LRUCache_Get_def access_defs LRUCache_inv_defs Let_def split: option.splits)

lemma LRUCache_move:
  assumes "LRUCache_inv lru"
  shows "LRUCache_content (move_key_front k lru) = spec_touch k (LRUCache_content lru)"
    "LRUCache_inv (move_key_front k lru)" "lru_capacity (move_key_front k lru) = lru_capacity lru"
proof (atomize (full), cases "lru_cache lru k")
  case None
  then show "LRUCache_content (move_key_front k lru) = spec_touch k (LRUCache_content lru) \<and>
      LRUCache_inv (move_key_front k lru) \<and> lru_capacity (move_key_front k lru) = lru_capacity lru"
    using assms LRUCache_lookup_none[OF assms, of k] by (simp add: move_key_front_def spec_touch_def)
next
  case (Some e)
  have ix: "indexed (lru_cache lru) (lru_list lru)" using assms by (simp add: LRUCache_inv_def)
  obtain v where v: "map_of (list_pairs (lru_list lru)) k = Some v"
    using indexed_lookup[OF ix Some] by auto
  have "spec_ok (lru_capacity lru) (spec_touch k (LRUCache_content lru))"
    using assms by (simp add: LRUCache_inv_def)
  then show "LRUCache_content (move_key_front k lru) = spec_touch k (LRUCache_content lru) \<and>
      LRUCache_inv (move_key_front k lru) \<and> lru_capacity (move_key_front k lru) = lru_capacity lru"
    using assms Some v indexed_MoveToFront[OF ix Some v]
    by (simp add: move_key_front_def LRUCache_inv_defs spec_touch_def)
qed

lemma LRUCache_Delete_refines:
  assumes "LRUCache_inv lru"
  shows "LRUCache_content (LRUCache_Delete k lru) = drop_key k (LRUCache_content lru)"
    "LRUCache_inv (LRUCache_Delete k lru)" "lru_capacity (LRUCache_Delete k lru) = lru_capacity lru"
proof -
  have ix: "indexed (lru_cache lru) (lru_list lru)" using assms by (simp add: LRUCache_inv_def)
  have *: "LRUCache_content (LRUCache_Delete k lru) = drop_key k (LRUCache_content lru) \<and>
      indexed (lru_cache (LRUCache_Delete k lru)) (lru_list (LRUCache_Delete k lru))"
    using ix indexed_dom[OF ix, of k] indexed_Remove[OF ix, of k]
    by (auto simp: LRUCache_Delete_def LRUCache_content_def split: option.splits)
  then show "LRUCache_content (LRUCache_Delete k lru) = drop_key k (LRUCache_content lru)" by simp
  show "lru_capacity (LRUCache_Delete k lru) = lru_capacity lru"
    by (simp add: LRUCache_Delete_def split: option.splits)
  have "lru_pending (LRUCache_Delete k lru) = lru_pending lru"
    "lru_accessChan (LRUCache_Delete k lru) = lru_accessChan lru"
    "lru_capacity (LRUCache_Delete k lru) = lru_capacity lru"
    by (simp_all add: LRUCache_Delete_def split: option.splits)
  then show "LRUCache_inv (LRUCache_Delete k lru)"
    using assms * by (simp add: LRUCache_inv_def)
qed

lemma LRUCache_evict:
  assumes "indexed (lru_cache lru) (lru_list lru)" "LRUCache_content lru \<noteq> []"
  shows "LRUCache_content (fst (LRUCache_evictOne lru)) = butlast (LRUCache_content lru)"
    "indexed (lru_cache (fst (LRUCache_evictOne lru))) (lru_list (fst (LRUCache_evictOne lru)))"
    "snd (LRUCache_evictOne lru) = (if lru_onEvict lru then [last (LRUCache_content lru)] else [])"
proof -
  obtain e n where b: "list_Back (lru_list lru) = Some (e, n)"
    using assms(2) list_Back_nonempty unfolding LRUCache_content_def by blast
  note bk = indexed_Back[OF assms(1) b]
  note rm = indexed_Remove[OF assms(1) bk(1)]
  show "LRUCache_content (fst (LRUCache_evictOne lru)) = butlast (LRUCache_content lru)"
    "indexed (lru_cache (fst (LRUCache_evictOne lru))) (lru_list (fst (LRUCache_evictOne lru)))"
    "snd (LRUCache_evictOne lru) = (if lru_onEvict lru then [last (LRUCache_content lru)] else [])"
    using bk rm by (simp_all add: LRUCache_evictOne_def b LRUCache_content_def)
qed

lemma LRUCache_evict_frame [simp]:
  "lru_capacity (fst (LRUCache_evictOne lru)) = lru_capacity lru"
  "lru_pending (fst (LRUCache_evictOne lru)) = lru_pending lru"
  "lru_accessChan (fst (LRUCache_evictOne lru)) = lru_accessChan lru"
  "lru_onEvict (fst (LRUCache_evictOne lru)) = lru_onEvict lru"
  by (simp_all add: LRUCache_evictOne_def split: option.splits prod.splits)

lemma LRUCache_Set_refines:
  assumes inv: "LRUCache_inv lru"
  shows "LRUCache_content (fst (LRUCache_Set k v lru)) =
      spec_set (lru_capacity lru) k v (LRUCache_content lru)" (is ?content)
    "LRUCache_inv (fst (LRUCache_Set k v lru))" (is ?inv)
    "lru_capacity (fst (LRUCache_Set k v lru)) = lru_capacity lru" (is ?cap)
    "snd (LRUCache_Set k v lru) = (if lru_onEvict lru then
       spec_evicted (lru_capacity lru) k v (LRUCache_content lru) else [])" (is ?calls)
proof -
  have ix: "indexed (lru_cache lru) (lru_list lru)" using inv by (simp add: LRUCache_inv_def)
  note none = LRUCache_lookup_none[OF inv, of k]
  let ?r = "fst (LRUCache_Set k v lru)"
  have *: "?content \<and> indexed (lru_cache ?r) (lru_list ?r) \<and> ?calls"
  proof (cases "lru_cache lru k")
    case None
    obtain e l1 where p: "list_PushFront \<lparr>node_key = k, node_value = v\<rparr> (lru_list lru) = (e, l1)"
      by force
    let ?s1 = "lru\<lparr>lru_list := l1, lru_cache := (lru_cache lru)(k \<mapsto> e)\<rparr>"
    have i1: "indexed (lru_cache ?s1) (lru_list ?s1)" "LRUCache_content ?s1 = (k, v) # LRUCache_content lru"
      using indexed_PushFront[OF ix None p] by (simp_all add: LRUCache_content_def)
    have len: "list_Len l1 = int (length (LRUCache_content ?s1))"
      by (simp add: LRUCache_content_def list_Len_pairs)
    show ?thesis
      using i1 LRUCache_evict[of ?s1] none None len
      by (auto simp: LRUCache_Set_def p spec_set_def spec_trim_def spec_evicted_def)
  next
    case (Some e)
    let ?l1 = "list_SetValue e (\<lambda>n. n\<lparr>node_value := v\<rparr>) (lru_list lru)"
    note sv = indexed_SetValue[OF ix Some, of v]
    note mv = indexed_MoveToFront[OF sv(1) Some sv(3)]
    show ?thesis
      using sv mv none Some
      by (auto simp: LRUCache_Set_def LRUCache_content_def spec_set_def spec_evicted_def)
  qed
  have frame: "lru_capacity ?r = lru_capacity lru" "lru_pending ?r = lru_pending lru"
    "lru_accessChan ?r = lru_accessChan lru"
    by (simp_all add: LRUCache_Set_def Let_def split: option.splits prod.splits)
  then show ?content ?cap ?calls ?inv
    using * inv by (auto simp: LRUCache_inv_def)
qed

interpretation lru: lru_store LRUCache_inv LRUCache_content lru_capacity
  "\<lambda>k v s. fst (LRUCache_Set k v s)" LRUCache_GetNoUpdate move_key_front LRUCache_Delete
  by unfold_locales
     (simp_all add: LRUCache_Set_refines LRUCache_move LRUCache_Delete_refines LRUCache_lookup,
      simp add: LRUCache_inv_def)

lemma LRUCache_CleanExpired_refines:
  assumes "LRUCache_inv lru" "LRUCache_CleanExpired P lru = (n, lru')"
  shows "LRUCache_inv lru' \<and> LRUCache_content lru' = filter (\<lambda>p. \<not> P (snd p)) (LRUCache_content lru)
    \<and> n = int (length (LRUCache_content lru)) - int (length (LRUCache_content lru'))"
proof -
  obtain m l c where f: "fold remove_elem (elems_to_remove P (lru_list lru)) (lru_cache lru, lru_list lru, 0) = (m, l, c)"
    by (metis prod_cases3)
  have ix: "indexed (lru_cache lru) (lru_list lru)" using assms(1) by (simp add: LRUCache_inv_def)
  show ?thesis
    using clean_indexed[OF ix f] assms
    by (auto simp: LRUCache_CleanExpired_def f LRUCache_inv_defs spec_ok_filter)
qed

lemma LRUCache_process_refines:
  assumes "LRUCache_inv lru" "LRUCache_processAccessRecord lru = Some lru'"
  shows "LRUCache_inv lru' \<and>
    LRUCache_content lru' = spec_touch (hd (lru_accessChan lru)) (LRUCache_content lru) \<and>
    lru_accessChan lru' = tl (lru_accessChan lru) \<and> lru_capacity lru' = lru_capacity lru"
proof -
  obtain k rest where c: "lru_accessChan lru = k # rest"
    and l: "lru' = move_key_front k (lru\<lparr>lru_accessChan := rest, lru_pending := lru_pending lru - 1\<rparr>)"
    using assms(2) by (auto simp: LRUCache_processAccessRecord_def access_defs split: list.splits)
  let ?m = "lru\<lparr>lru_accessChan := rest, lru_pending := lru_pending lru - 1\<rparr>"
  have "LRUCache_inv ?m" "LRUCache_content ?m = LRUCache_content lru"
    using assms(1) c by (auto simp: LRUCache_inv_defs)
  then show ?thesis
    using LRUCache_move[of ?m k] by (auto simp: l c move_key_front_def split: option.splits)
qed

lemma LRUCache_drain_refines:
  "LRUCache_inv lru \<Longrightarrow> LRUCache_inv (LRUCache_drain lru)
    \<and> LRUCache_content (LRUCache_drain lru) = fold spec_touch (lru_accessChan lru) (LRUCache_content lru)
    \<and> lru_accessChan (LRUCache_drain lru) = []"
proof (induction lru rule: LRUCache_drain.induct)
  case (1 lru)
  show ?case
  proof (cases "LRUCache_processAccessRecord lru")
    case None
    then have "lru_accessChan lru = []" by (auto simp: LRUCache_processAccessRecord_def access_defs split: list.splits)
    then show ?thesis using None 1(2) by (simp add: LRUCache_drain.simps[of lru])
  next
    case (Some lru')
    note p = LRUCache_process_refines[OF 1(2) Some]
    have "lru_accessChan lru = hd (lru_accessChan lru) # tl (lru_accessChan lru)"
      using Some by (auto simp: LRUCache_processAccessRecord_def access_defs split: list.splits)
    then have "fold spec_touch (lru_accessChan lru) xs =
        fold spec_touch (tl (lru_accessChan lru)) (spec_touch (hd (lru_accessChan lru)) xs)" for xs :: "(string \<times> 'a) list"
      by (metis fold_simps(2))
    then show ?thesis using p 1(1)[OF Some] by (simp add: LRUCache_drain.simps[of lru] Some)
  qed
qed

section \<open>Interleavings\<close>

text \<open>The program points. A call of \<open>Get\<close> that found its key is before its increment, before its
  send, or before the decrement of the \<open>default\<close> branch (a call that missed has already returned).
  The worker is at its \<open>select\<close>, has received a key, waits for the lock, or has returned; after
  \<open>Close\<close> it may take the \<open>stopChan\<close> branch and drains until the channel is empty.\<close>

datatype get_point = Counting string | Sending string | Uncounting

datatype worker_point = Receiving | Received string | Moving string
  | Draining | Drained string | Drain_moving string | Returned

type_synonym 'v lru_system = "'v LRUCache \<times> get_point multiset \<times> worker_point"

inductive lru_step :: "'v lru_system \<Rightarrow> 'v lru_system \<Rightarrow> bool" where
  step_lookup: "LRUCache_GetNoUpdate k s = Some v \<Longrightarrow>
     lru_step (s, gets, w) (s, add_mset (Counting k) gets, w)"
| step_count: "lru_step (s, add_mset (Counting k) gets, w) (access_count s, add_mset (Sending k) gets, w)"
| step_send: "access_send k s = Some s' \<Longrightarrow> lru_step (s, add_mset (Sending k) gets, w) (s', gets, w)"
| step_full: "access_send k s = None \<Longrightarrow>
     lru_step (s, add_mset (Sending k) gets, w) (s, add_mset Uncounting gets, w)"
| step_uncount: "lru_step (s, add_mset Uncounting gets, w) (access_uncount s, gets, w)"
| step_receive: "access_receive s = Some (k, s') \<Longrightarrow> lru_step (s, gets, Receiving) (s', gets, Received k)"
| step_received: "lru_step (s, gets, Received k) (access_uncount s, gets, Moving k)"
| step_move: "lru_step (s, gets, Moving k) (move_key_front k s, gets, Receiving)"
| step_stop: "lru_step (s, gets, Receiving) (s, gets, Draining)"
| step_drain: "access_receive s = Some (k, s') \<Longrightarrow> lru_step (s, gets, Draining) (s', gets, Drained k)"
| step_drained: "lru_step (s, gets, Drained k) (access_uncount s, gets, Drain_moving k)"
| step_drain_move: "lru_step (s, gets, Drain_moving k) (move_key_front k s, gets, Draining)"
| step_return: "access_receive s = None \<Longrightarrow> lru_step (s, gets, Draining) (s, gets, Returned)"
| step_set: "lru_step (s, gets, w) (fst (LRUCache_Set k v s), gets, w)"
| step_delete: "lru_step (s, gets, w) (LRUCache_Delete k s, gets, w)"
| step_clear: "lru_step (s, gets, w) (LRUCache_Clear s, gets, w)"
| step_clean: "lru_step (s, gets, w) (snd (LRUCache_CleanExpired P s), gets, w)"
| step_callback: "lru_step (s, gets, w) (LRUCache_SetOnEvict b s, gets, w)"

inductive lru_run :: "int \<Rightarrow> 'v lru_system \<Rightarrow> bool" for c where
  run_new: "lru_run c (NewLRUCache c, {#}, Receiving)"
| run_step: "lru_run c st \<Longrightarrow> lru_step st st' \<Longrightarrow> lru_run c st'"

text \<open>What is counted in \<open>pending\<close> but not in the channel: calls of \<open>Get\<close> between their increment and
  their send or decrement, and a key the worker has received and not yet counted off.\<close>

definition counted_get :: "get_point \<Rightarrow> bool" where
  "counted_get p = (case p of Counting k \<Rightarrow> False | _ \<Rightarrow> True)"

definition counted_gets :: "get_point multiset \<Rightarrow> nat" where
  "counted_gets gets = size (filter_mset counted_get gets)"

definition worker_holds :: "worker_point \<Rightarrow> nat" where
  "worker_holds w = (case w of Received k \<Rightarrow> 1 | Drained k \<Rightarrow> 1 | _ \<Rightarrow> 0)"

lemma counted_gets_simps [simp]:
  "counted_gets {#} = 0" "counted_gets (add_mset (Counting k) gets) = counted_gets gets"
  "counted_gets (add_mset (Sending k) gets) = Suc (counted_gets gets)"
  "counted_gets (add_mset Uncounting gets) = Suc (counted_gets gets)"
  by (simp_all add: counted_gets_def counted_get_def)

lemma worker_holds_simps [simp]:
  "worker_holds Receiving = 0" "worker_holds (Received k) = 1" "worker_holds (Moving k) = 0"
  "worker_holds Draining = 0" "worker_holds (Drained k) = 1" "worker_holds (Drain_moving k) = 0"
  "worker_holds Returned = 0"
  by (simp_all add: worker_holds_def)

definition lru_system_inv :: "int \<Rightarrow> 'v lru_system \<Rightarrow> bool" where
  "lru_system_inv c st = (case st of (s, gets, w) \<Rightarrow>
     LRUCache_inv s \<and> lru_capacity s = (if c \<le> 0 then 10000 else c)
     \<and> lru_pending s = int (length (lru_accessChan s) + counted_gets gets + worker_holds w))"

lemma LRUCache_Clear_inv: "LRUCache_inv s \<Longrightarrow> LRUCache_inv (LRUCache_Clear s)"
  by (simp add: LRUCache_Clear_def LRUCache_inv_defs)

lemma access_inv:
  "LRUCache_inv (access_count s) = LRUCache_inv s" "LRUCache_inv (access_uncount s) = LRUCache_inv s"
  "access_send k s = Some s1 \<Longrightarrow> LRUCache_inv s \<Longrightarrow> LRUCache_inv s1"
  "access_receive s = Some (k, s1) \<Longrightarrow> LRUCache_inv s \<Longrightarrow> LRUCache_inv s1"
  by (auto simp: access_defs LRUCache_inv_defs split: if_splits list.splits)

text \<open>The operations under the lock leave channel and counter alone.\<close>

lemma locked_frame:
  "lru_pending (move_key_front k s) = lru_pending s"
  "lru_accessChan (move_key_front k s) = lru_accessChan s"
  "lru_pending (fst (LRUCache_Set k v s)) = lru_pending s"
  "lru_accessChan (fst (LRUCache_Set k v s)) = lru_accessChan s"
  "lru_pending (LRUCache_Delete k s) = lru_pending s"
  "lru_accessChan (LRUCache_Delete k s) = lru_accessChan s"
  "lru_pending (snd (LRUCache_CleanExpired P s)) = lru_pending s"
  "lru_accessChan (snd (LRUCache_CleanExpired P s)) = lru_accessChan s"
  "lru_capacity (snd (LRUCache_CleanExpired P s)) = lru_capacity s"
  by (simp_all add: move_key_front_def LRUCache_Set_def LRUCache_Delete_def
      LRUCache_CleanExpired_def Let_def split: option.split prod.split)

lemma LRUCache_CleanExpired_inv: "LRUCache_inv s \<Longrightarrow> LRUCache_inv (snd (LRUCache_CleanExpired P s))"
  using LRUCache_CleanExpired_refines[of s P] by (metis prod.collapse)

lemmas lru_step_facts = locked_frame access_inv LRUCache_CleanExpired_inv LRUCache_Clear_inv
  LRUCache_Set_refines(2,3) LRUCache_Delete_refines(2,3) LRUCache_move(2,3)

lemma lru_step_inv:
  assumes "lru_step st st'" "lru_system_inv c st"
  shows "lru_system_inv c st'"
  using assms
proof (induction rule: lru_step.induct)
  case (step_send k s s' gets w)
  then show ?case using access_inv(3)[OF step_send(1)]
    by (auto simp: lru_system_inv_def access_send_def split: if_splits)
next
  case (step_receive s k s' gets)
  then show ?case using access_inv(4)[OF step_receive(1)]
    by (auto simp: lru_system_inv_def access_receive_def split: list.splits)
next
  case (step_drain s k s' gets)
  then show ?case using access_inv(4)[OF step_drain(1)]
    by (auto simp: lru_system_inv_def access_receive_def split: list.splits)
next
  case (step_clear s gets w)
  then show ?case
    using LRUCache_Clear_inv[of s] by (simp add: lru_system_inv_def LRUCache_Clear_def)
next
  case (step_callback s gets w b)
  have "LRUCache_inv (LRUCache_SetOnEvict b s) = LRUCache_inv s"
    by (simp add: LRUCache_SetOnEvict_def LRUCache_inv_defs)
  then show ?case using step_callback by (simp add: lru_system_inv_def) (simp add: LRUCache_SetOnEvict_def)
next
  case (step_count s k gets w)
  then show ?case using access_inv(1)[of s] by (simp add: lru_system_inv_def access_count_def)
next
  case (step_uncount s gets w)
  then show ?case using access_inv(2)[of s] by (simp add: lru_system_inv_def access_uncount_def)
next
  case (step_received s gets k)
  then show ?case using access_inv(2)[of s] by (simp add: lru_system_inv_def access_uncount_def)
next
  case (step_drained s gets k)
  then show ?case using access_inv(2)[of s] by (simp add: lru_system_inv_def access_uncount_def)
qed (auto simp: lru_system_inv_def lru_step_facts)

lemma NewLRUCache_fields:
  "lru_capacity (NewLRUCache c) = (if c \<le> 0 then 10000 else c)"
  "lru_pending (NewLRUCache c) = 0" "lru_accessChan (NewLRUCache c) = []"
  by (simp_all add: NewLRUCache_def)

lemma lru_run_inv: "lru_run c st \<Longrightarrow> lru_system_inv c st"
proof (induction rule: lru_run.induct)
  case run_new
  show ?case by (simp add: lru_system_inv_def LRUCache_inv_New(1) NewLRUCache_fields)
qed (rule lru_step_inv)

section \<open>Properties\<close>

text \<open>C10: Cut at its locks, its atomic operations and its channel operations, and whatever the
  interleaving of any number of calls with the goroutine that replays accesses, an \<open>LRUCache\<close> has
  distinct keys, never holds more entries than its capacity (10000 when the constructor is given
  none) and never queues more than 1000 access records; the counter of pending accesses is the
  number of queued records plus the records still in flight (counted by a \<open>Get\<close> that has not sent
  or given up yet, or received by the worker and not yet counted off), so it is never negative and
  it is the length of the queue exactly when nothing is in flight.\<close>

theorem LRUCache_reachable_bounded:
  assumes "lru_run c (s, gets, w)"
  shows "distinct (keys_of (LRUCache_content s))
    \<and> LRUCache_Len s = int (length (LRUCache_content s))
    \<and> LRUCache_Len s \<le> (if c \<le> 0 then 10000 else c)
    \<and> length (lru_accessChan s) \<le> 1000
    \<and> LRUCache_GetPendingAccess s = int (length (lru_accessChan s))
        + int (size {#p \<in># gets. counted_get p#}) + int (worker_holds w)"
  using lru_run_inv[OF assms] lru.keys_distinct[of s] lru.bounded[of s]
  by (auto simp: lru_system_inv_def LRUCache_Len_def LRUCache_GetPendingAccess_def LRUCache_inv_defs
      list_Len_pairs lru_chan_cap_def counted_gets_def split: if_splits)

lemma lru_example_run: "lru_run 1
    (access_count (fst (LRUCache_Set ''b'' (2::nat) (fst (LRUCache_Set ''a'' 1 (NewLRUCache 1))))),
     {#Sending ''b''#}, Receiving)"
proof -
  let ?s = "fst (LRUCache_Set ''b'' (2::nat) (fst (LRUCache_Set ''a'' 1 (NewLRUCache 1))))"
  have found: "LRUCache_GetNoUpdate ''b'' ?s = Some 2" by code_simp
  have "lru_run 1 (?s, {#}, Receiving)"
    by (intro run_step[OF _ step_set] run_new)
  then have "lru_run 1 (?s, {#Counting ''b''#}, Receiving)"
    by (rule run_step[OF _ step_lookup[OF found]])
  then show ?thesis by (rule run_step[OF _ step_count])
qed

theorem LRUCache_reachable_bounded_witness:
  "LRUCache_GetPendingAccess (access_count (fst (LRUCache_Set ''b'' (2::nat)
      (fst (LRUCache_Set ''a'' 1 (NewLRUCache 1)))))) = 1"
  using LRUCache_reachable_bounded[OF lru_example_run]
  by (simp add: counted_get_def locked_frame access_count_def) (simp add: NewLRUCache_def)

lemma LRUCache_Set_evicts_oldest_parts:
  assumes "lru_run c (s, gets, w)" "LRUCache_Set k v s = (s', calls)"
  shows "LRUCache_GetNoUpdate k s' = Some v"
    and "hd (LRUCache_content s') = (k, v)"
    and "calls = (if lru_onEvict s \<and> LRUCache_GetNoUpdate k s = None \<and> LRUCache_Len s = lru_capacity s
                  then [last (LRUCache_content s)] else [])"
    and "\<And>j. j \<noteq> k \<Longrightarrow> LRUCache_GetNoUpdate j s' =
          (if LRUCache_GetNoUpdate k s = None \<and> LRUCache_Len s = lru_capacity s
              \<and> j = fst (last (LRUCache_content s)) then None else LRUCache_GetNoUpdate j s)"
proof -
  have inv: "LRUCache_inv s" and cap: "0 < lru_capacity s"
    using lru_run_inv[OF assms(1)] by (auto simp: lru_system_inv_def split: if_splits)
  have s': "s' = fst (LRUCache_Set k v s)" "calls = snd (LRUCache_Set k v s)"
    using assms(2) by simp_all
  have len: "int (length (LRUCache_content s)) = LRUCache_Len s"
    by (simp add: LRUCache_Len_def LRUCache_content_def list_Len_pairs)
  have le: "LRUCache_Len s \<le> lru_capacity s"
    using lru.bounded[OF inv cap] len by simp
  have ne: "LRUCache_Len s = lru_capacity s \<Longrightarrow> LRUCache_content s \<noteq> []" using cap len by auto
  have ev: "spec_evicted (lru_capacity s) k v (LRUCache_content s) =
      (if LRUCache_GetNoUpdate k s = None \<and> LRUCache_Len s = lru_capacity s
       then [last (LRUCache_content s)] else [])"
    using LRUCache_lookup[OF inv, of k] le len cap ne by (auto simp: spec_evicted_def)
  show "LRUCache_GetNoUpdate k s' = Some v" unfolding s' by (rule lru.lookup_set_same[OF inv])
  show "hd (LRUCache_content s') = (k, v)"
    unfolding s' LRUCache_Set_refines(1)[OF inv]
    using hd_spec_set[OF lru.content_ok[OF inv]] by simp
  show "calls = (if lru_onEvict s \<and> LRUCache_GetNoUpdate k s = None \<and> LRUCache_Len s = lru_capacity s
                  then [last (LRUCache_content s)] else [])"
    unfolding s' LRUCache_Set_refines(4)[OF inv] ev by simp
  fix j assume "j \<noteq> k"
  then show "LRUCache_GetNoUpdate j s' =
      (if LRUCache_GetNoUpdate k s = None \<and> LRUCache_Len s = lru_capacity s
          \<and> j = fst (last (LRUCache_content s)) then None else LRUCache_GetNoUpdate j s)"
    unfolding s' using lru.lookup_set_other[OF inv, of j k v] ev by simp
qed

text \<open>\<open>Set\<close> on a reachable \<open>LRUCache\<close> stores the value and makes its key the most recent one;
  another key keeps its value, unless the key is new and the cache was full, in which case exactly
  the least recently used pair goes, and the eviction callback, when set, is called exactly once,
  with that pair; otherwise it is not called.\<close>

theorem LRUCache_Set_evicts_oldest:
  assumes "lru_run c (s, gets, w)" "LRUCache_Set k v s = (s', calls)"
  shows "LRUCache_GetNoUpdate k s' = Some v \<and> hd (LRUCache_content s') = (k, v)
    \<and> calls = (if lru_onEvict s \<and> LRUCache_GetNoUpdate k s = None \<and> LRUCache_Len s = lru_capacity s
                then [last (LRUCache_content s)] else [])
    \<and> (\<forall>j. j \<noteq> k \<longrightarrow> LRUCache_GetNoUpdate j s' =
          (if LRUCache_GetNoUpdate k s = None \<and> LRUCache_Len s = lru_capacity s
              \<and> j = fst (last (LRUCache_content s)) then None else LRUCache_GetNoUpdate j s))"
  using LRUCache_Set_evicts_oldest_parts[OF assms] by blast

theorem LRUCache_Set_evicts_oldest_witness:
  "snd (LRUCache_Set ''b'' (2::nat) (LRUCache_SetOnEvict True (fst (LRUCache_Set ''a'' 1 (NewLRUCache 1)))))
     = [(''a'', 1)]"
proof -
  let ?s = "LRUCache_SetOnEvict True (fst (LRUCache_Set ''a'' (1::nat) (NewLRUCache 1)))"
  have r: "lru_run 1 (?s, {#}, Receiving)"
    by (intro run_step[OF _ step_callback] run_step[OF _ step_set] run_new)
  have "lru_onEvict ?s \<and> LRUCache_GetNoUpdate ''b'' ?s = None \<and> LRUCache_Len ?s = lru_capacity ?s
      \<and> LRUCache_content ?s = [(''a'', 1)]"
    by code_simp
  then show ?thesis
    using LRUCache_Set_evicts_oldest[OF r prod.collapse[symmetric], of "''b''" 2] by simp
qed

end
