(* ===== verification/Sharded_Lru.thy ===== *)
theory Sharded_Lru
  imports Sharding Lru_Cache
begin

text \<open>\<open>cache/sharded_lru.go\<close>: the sharded LRU cache over \<open>container/list\<close>. A shard runs the same
  algorithm as \<open>LRUCache\<close>; \<open>as_lru\<close> maps a shard to the \<open>LRUCache\<close> it simulates, and each shard
  operation is shown to commute with that map, so that the refinement proved for \<open>LRUCache\<close>
  carries over and a shard is an \<open>lru_store\<close>.\<close>

record 'v ShardedLRUShard =
  sl_capacity :: int
  sl_cache :: "string \<rightharpoonup> nat"
  sl_list :: "'v lruNode go_list"
  sl_accessChan :: "string list"
  sl_chanCap :: int

record 'v ShardedLRUCache =
  slru_shards :: "'v ShardedLRUShard list"
  slru_mask :: "32 word"
  slru_onEvict :: bool
  slru_dirty :: "64 word"

definition new_lru_shard :: "int \<Rightarrow> int \<Rightarrow> 'v ShardedLRUShard" where
  "new_lru_shard capacity chanCap =
     \<lparr>sl_capacity = capacity, sl_cache = Map.empty, sl_list = list_New, sl_accessChan = [],
      sl_chanCap = chanCap\<rparr>"

definition NewShardedLRUCache :: "int \<Rightarrow> int \<Rightarrow> 'v ShardedLRUCache" where
  "NewShardedLRUCache totalCapacity shardCount =
     (let n = shard_count shardCount;
          c = shard_capacity totalCapacity n
      in \<lparr>slru_shards = replicate (nat n) (new_lru_shard c (access_chan_capacity c)),
          slru_mask = shard_mask n, slru_onEvict = False, slru_dirty = 0\<rparr>)"

definition ShardedLRUCache_getShard :: "string \<Rightarrow> 'v ShardedLRUCache \<Rightarrow> nat" where
  "ShardedLRUCache_getShard key slru = getShard_index (slru_mask slru) key"

section \<open>Operations of a shard\<close>

definition lru_shard_lookup :: "string \<Rightarrow> 'v ShardedLRUShard \<Rightarrow> 'v option" where
  "lru_shard_lookup key shard = (case sl_cache shard key of
      None \<Rightarrow> None
    | Some elem \<Rightarrow> map_option node_value (list_Value elem (sl_list shard)))"

definition ShardedLRUShard_evictOne ::
  "bool \<Rightarrow> 'v ShardedLRUShard \<Rightarrow> 'v ShardedLRUShard \<times> (string \<times> 'v) list" where
  "ShardedLRUShard_evictOne onEvict shard = (case list_Back (sl_list shard) of
      None \<Rightarrow> (shard, [])
    | Some (elem, node) \<Rightarrow>
       (shard\<lparr>sl_list := list_Remove elem (sl_list shard),
              sl_cache := (sl_cache shard)(node_key node := None)\<rparr>,
        if onEvict then [(node_key node, node_value node)] else []))"

text \<open>The locked part of \<open>Set\<close>: the shard, the callback's calls, whether the counter is bumped.\<close>

definition lru_shard_set :: "bool \<Rightarrow> string \<Rightarrow> 'v \<Rightarrow> 'v ShardedLRUShard \<Rightarrow>
    'v ShardedLRUShard \<times> (string \<times> 'v) list \<times> bool" where
  "lru_shard_set onEvict key value shard = (case sl_cache shard key of
      Some elem \<Rightarrow>
       (let l1 = list_SetValue elem (\<lambda>n. n\<lparr>node_value := value\<rparr>) (sl_list shard)
        in (shard\<lparr>sl_list := list_MoveToFront elem l1\<rparr>, [], False))
    | None \<Rightarrow>
       (let (elem, l1) = list_PushFront \<lparr>node_key = key, node_value = value\<rparr> (sl_list shard);
            shard1 = shard\<lparr>sl_list := l1, sl_cache := (sl_cache shard)(key \<mapsto> elem)\<rparr>;
            (shard2, calls) = (if 0 < sl_capacity shard1 \<and> sl_capacity shard1 < list_Len (sl_list shard1)
                               then ShardedLRUShard_evictOne onEvict shard1 else (shard1, []))
        in (shard2, calls, True)))"

definition lru_shard_delete :: "string \<Rightarrow> 'v ShardedLRUShard \<Rightarrow> 'v ShardedLRUShard \<times> bool" where
  "lru_shard_delete key shard = (case sl_cache shard key of
      None \<Rightarrow> (shard, False)
    | Some elem \<Rightarrow> (shard\<lparr>sl_list := list_Remove elem (sl_list shard),
                          sl_cache := (sl_cache shard)(key := None)\<rparr>, True))"

definition lru_shard_move_front :: "string \<Rightarrow> 'v ShardedLRUShard \<Rightarrow> 'v ShardedLRUShard" where
  "lru_shard_move_front key shard = (case sl_cache shard key of
      None \<Rightarrow> shard
    | Some elem \<Rightarrow> shard\<lparr>sl_list := list_MoveToFront elem (sl_list shard)\<rparr>)"

definition ShardedLRUShard_processAccessRecord :: "'v ShardedLRUShard \<Rightarrow> 'v ShardedLRUShard option" where
  "ShardedLRUShard_processAccessRecord shard = (case sl_accessChan shard of
      [] \<Rightarrow> None
    | key # rest \<Rightarrow> Some (lru_shard_move_front key (shard\<lparr>sl_accessChan := rest\<rparr>)))"

definition ShardedLRUShard_recordAccess :: "string \<Rightarrow> 'v ShardedLRUShard \<Rightarrow> 'v ShardedLRUShard" where
  "ShardedLRUShard_recordAccess key shard =
     (if int (length (sl_accessChan shard)) < sl_chanCap shard
      then shard\<lparr>sl_accessChan := sl_accessChan shard @ [key]\<rparr> else shard)"

definition lru_shard_clear :: "'v ShardedLRUShard \<Rightarrow> 'v ShardedLRUShard" where
  "lru_shard_clear shard = shard\<lparr>sl_cache := Map.empty, sl_list := list_New\<rparr>"

definition lru_shard_clean :: "('v \<Rightarrow> bool) \<Rightarrow> 'v ShardedLRUShard \<Rightarrow> int \<times> 'v ShardedLRUShard" where
  "lru_shard_clean isExpired shard =
     (case fold remove_elem (elems_to_remove isExpired (sl_list shard)) (sl_cache shard, sl_list shard, 0) of
        (m, l, removed) \<Rightarrow> (removed, shard\<lparr>sl_cache := m, sl_list := l\<rparr>))"

section \<open>A shard simulates an \<open>LRUCache\<close>\<close>

definition as_lru :: "bool \<Rightarrow> 'v ShardedLRUShard \<Rightarrow> 'v LRUCache" where
  "as_lru b shard = \<lparr>lru_capacity = sl_capacity shard, lru_cache = sl_cache shard,
     lru_list = sl_list shard, lru_accessChan = [], lru_pending = 0, lru_onEvict = b\<rparr>"

definition lru_shard_content :: "'v ShardedLRUShard \<Rightarrow> (string \<times> 'v) list" where
  "lru_shard_content shard = list_pairs (sl_list shard)"

definition lru_shard_inv :: "'v ShardedLRUShard \<Rightarrow> bool" where
  "lru_shard_inv shard \<longleftrightarrow> LRUCache_inv (as_lru False shard)
     \<and> int (length (sl_accessChan shard)) \<le> max 0 (sl_chanCap shard)"

lemma as_lru_inv: "LRUCache_inv (as_lru b s) = LRUCache_inv (as_lru False s)"
  by (simp add: as_lru_def LRUCache_inv_defs)

lemma as_lru_content: "LRUCache_content (as_lru b s) = lru_shard_content s"
  by (simp add: as_lru_def LRUCache_content_def lru_shard_content_def)

lemma as_lru_fields [simp]: "lru_capacity (as_lru b s) = sl_capacity s" "lru_onEvict (as_lru b s) = b"
  by (simp_all add: as_lru_def)

lemma sim_evict:
  "as_lru b (fst (ShardedLRUShard_evictOne b s)) = fst (LRUCache_evictOne (as_lru b s))"
  "snd (ShardedLRUShard_evictOne b s) = snd (LRUCache_evictOne (as_lru b s))"
  by (simp_all add: ShardedLRUShard_evictOne_def LRUCache_evictOne_def as_lru_def
      split: option.splits prod.splits)

lemma sim_set:
  "as_lru b (fst (lru_shard_set b k v s)) = fst (LRUCache_Set k v (as_lru b s))"
  "fst (snd (lru_shard_set b k v s)) = snd (LRUCache_Set k v (as_lru b s))"
  "snd (snd (lru_shard_set b k v s)) = (sl_cache s k = None)"
proof -
  have "as_lru b (fst (lru_shard_set b k v s)) = fst (LRUCache_Set k v (as_lru b s)) \<and>
      fst (snd (lru_shard_set b k v s)) = snd (LRUCache_Set k v (as_lru b s)) \<and>
      snd (snd (lru_shard_set b k v s)) = (sl_cache s k = None)"
  proof (cases "sl_cache s k")
    case None
    obtain e l1 where p: "list_PushFront \<lparr>node_key = k, node_value = v\<rparr> (sl_list s) = (e, l1)"
      by force
    let ?s1 = "s\<lparr>sl_list := l1, sl_cache := (sl_cache s)(k \<mapsto> e)\<rparr>"
    let ?full = "0 < sl_capacity s \<and> sl_capacity s < list_Len l1"
    have "lru_shard_set b k v s =
        (let r = (if ?full then ShardedLRUShard_evictOne b ?s1 else (?s1, [])) in (fst r, snd r, True))"
      by (simp add: lru_shard_set_def None p Let_def case_prod_unfold)
    moreover have "LRUCache_Set k v (as_lru b s) =
        (if ?full then LRUCache_evictOne (as_lru b ?s1) else (as_lru b ?s1, []))"
      using None by (simp add: LRUCache_Set_def as_lru_def p Let_def)
    ultimately show ?thesis
      using sim_evict[of b ?s1] None by (simp add: Let_def)
  next
    case (Some e)
    then show ?thesis by (simp add: lru_shard_set_def LRUCache_Set_def as_lru_def Let_def)
  qed
  then show "as_lru b (fst (lru_shard_set b k v s)) = fst (LRUCache_Set k v (as_lru b s))"
    "fst (snd (lru_shard_set b k v s)) = snd (LRUCache_Set k v (as_lru b s))"
    "snd (snd (lru_shard_set b k v s)) = (sl_cache s k = None)" by simp_all
qed

lemma sim_others:
  "as_lru b (fst (lru_shard_delete k s)) = LRUCache_Delete k (as_lru b s)"
  "as_lru b (lru_shard_move_front k s) = move_key_front k (as_lru b s)"
  "as_lru b (lru_shard_clear s) = LRUCache_Clear (as_lru b s)"
  "lru_shard_lookup k s = LRUCache_GetNoUpdate k (as_lru b s)"
  "as_lru b (snd (lru_shard_clean P s)) = snd (LRUCache_CleanExpired P (as_lru b s))"
  "fst (lru_shard_clean P s) = fst (LRUCache_CleanExpired P (as_lru b s))"
  "as_lru b (ShardedLRUShard_recordAccess k s) = as_lru b s"
  by (simp_all add: lru_shard_delete_def LRUCache_Delete_def lru_shard_move_front_def
      move_key_front_def lru_shard_clear_def LRUCache_Clear_def lru_shard_lookup_def
      LRUCache_GetNoUpdate_def lru_shard_clean_def LRUCache_CleanExpired_def as_lru_def
      ShardedLRUShard_recordAccess_def split: option.splits prod.splits)

lemma chan_frame [simp]:
  "sl_accessChan (fst (ShardedLRUShard_evictOne b s)) = sl_accessChan s"
  "sl_chanCap (fst (ShardedLRUShard_evictOne b s)) = sl_chanCap s"
  "sl_accessChan (fst (lru_shard_set b k v s)) = sl_accessChan s"
  "sl_chanCap (fst (lru_shard_set b k v s)) = sl_chanCap s"
  "sl_accessChan (fst (lru_shard_delete k s)) = sl_accessChan s"
  "sl_chanCap (fst (lru_shard_delete k s)) = sl_chanCap s"
  "sl_accessChan (lru_shard_move_front k s) = sl_accessChan s"
  "sl_chanCap (lru_shard_move_front k s) = sl_chanCap s"
  "sl_accessChan (snd (lru_shard_clean P s)) = sl_accessChan s"
  "sl_chanCap (snd (lru_shard_clean P s)) = sl_chanCap s"
  "sl_accessChan (lru_shard_clear s) = sl_accessChan s"
  "sl_chanCap (lru_shard_clear s) = sl_chanCap s"
  by (simp_all add: ShardedLRUShard_evictOne_def lru_shard_set_def lru_shard_delete_def
      lru_shard_move_front_def lru_shard_clean_def lru_shard_clear_def Let_def
      split: option.splits prod.splits)

lemma lru_shard_new: "lru_shard_inv (new_lru_shard c n)" "lru_shard_content (new_lru_shard c n) = []"
  by (simp_all add: lru_shard_inv_def lru_shard_content_def new_lru_shard_def as_lru_def
      LRUCache_inv_defs)

lemma lru_shard_set_refines:
  assumes "lru_shard_inv s"
  shows "lru_shard_content (fst (lru_shard_set b k v s)) = spec_set (sl_capacity s) k v (lru_shard_content s)"
    "lru_shard_inv (fst (lru_shard_set b k v s))"
    "sl_capacity (fst (lru_shard_set b k v s)) = sl_capacity s"
    "fst (snd (lru_shard_set b k v s)) =
       (if b then spec_evicted (sl_capacity s) k v (lru_shard_content s) else [])"
    "snd (snd (lru_shard_set b k v s)) = (map_of (lru_shard_content s) k = None)"
proof -
  have i: "LRUCache_inv (as_lru b s)" using assms as_lru_inv[of b s] by (simp add: lru_shard_inv_def)
  note r = LRUCache_Set_refines[OF i, of k v]
  have s: "sl_cache s k = None \<longleftrightarrow> map_of (lru_shard_content s) k = None"
    using LRUCache_lookup_none[OF i, of k] by (simp add: as_lru_content) (simp add: as_lru_def)
  show "lru_shard_content (fst (lru_shard_set b k v s)) = spec_set (sl_capacity s) k v (lru_shard_content s)"
    using r(1) by (simp add: sim_set(1)[symmetric] as_lru_content)
  show "lru_shard_inv (fst (lru_shard_set b k v s))"
    using assms r(2) as_lru_inv[of b "fst (lru_shard_set b k v s)"]
    by (simp add: sim_set(1)[symmetric] lru_shard_inv_def)
  show "sl_capacity (fst (lru_shard_set b k v s)) = sl_capacity s"
    using r(3) by (simp add: sim_set(1)[symmetric])
  show "fst (snd (lru_shard_set b k v s)) =
       (if b then spec_evicted (sl_capacity s) k v (lru_shard_content s) else [])"
    using r(4) by (simp add: sim_set(2) as_lru_content)
  show "snd (snd (lru_shard_set b k v s)) = (map_of (lru_shard_content s) k = None)"
    using sim_set(3)[of b k v s] s by simp
qed

lemma lru_shard_others_refine:
  assumes "lru_shard_inv s"
  shows "lru_shard_lookup k s = map_of (lru_shard_content s) k"
    "lru_shard_content (fst (lru_shard_delete k s)) = drop_key k (lru_shard_content s)"
    "lru_shard_inv (fst (lru_shard_delete k s))"
    "sl_capacity (fst (lru_shard_delete k s)) = sl_capacity s"
    "lru_shard_content (lru_shard_move_front k s) = spec_touch k (lru_shard_content s)"
    "lru_shard_inv (lru_shard_move_front k s)"
    "sl_capacity (lru_shard_move_front k s) = sl_capacity s"
    "lru_shard_inv (lru_shard_clear s)" "lru_shard_content (lru_shard_clear s) = []"
proof -
  have i: "LRUCache_inv (as_lru False s)" using assms by (simp add: lru_shard_inv_def)
  show "lru_shard_lookup k s = map_of (lru_shard_content s) k"
    using LRUCache_lookup[OF i, of k] by (simp add: sim_others(4)[of k s False] as_lru_content)
  note d = LRUCache_Delete_refines[OF i, of k] and m = LRUCache_move[OF i, of k]
  show "lru_shard_content (fst (lru_shard_delete k s)) = drop_key k (lru_shard_content s)"
    using d(1) by (simp add: sim_others(1)[symmetric] as_lru_content)
  show "lru_shard_inv (fst (lru_shard_delete k s))"
    using assms d(2) by (simp add: sim_others(1)[symmetric] lru_shard_inv_def)
  show "sl_capacity (fst (lru_shard_delete k s)) = sl_capacity s"
    using d(3) by (simp add: sim_others(1)[symmetric])
  show "lru_shard_content (lru_shard_move_front k s) = spec_touch k (lru_shard_content s)"
    using m(1) by (simp add: sim_others(2)[symmetric] as_lru_content)
  show "lru_shard_inv (lru_shard_move_front k s)"
    using assms m(2) by (simp add: sim_others(2)[symmetric] lru_shard_inv_def)
  show "sl_capacity (lru_shard_move_front k s) = sl_capacity s"
    using m(3) by (simp add: sim_others(2)[symmetric])
  show "lru_shard_inv (lru_shard_clear s)"
    using assms LRUCache_Clear_inv[OF i] by (simp add: sim_others(3) lru_shard_inv_def)
  show "lru_shard_content (lru_shard_clear s) = []"
    by (simp add: lru_shard_clear_def lru_shard_content_def)
qed

interpretation lrushard: lru_store lru_shard_inv lru_shard_content sl_capacity
  "\<lambda>k v s. fst (lru_shard_set b k v s)" lru_shard_lookup lru_shard_move_front
  "\<lambda>k s. fst (lru_shard_delete k s)" for b
  by unfold_locales
     (simp_all add: lru_shard_set_refines lru_shard_others_refine,
      simp add: lru_shard_inv_def LRUCache_inv_def as_lru_content)

lemma lru_shard_clean_refines:
  assumes "lru_shard_inv s" "lru_shard_clean P s = (n, s')"
  shows "lru_shard_inv s' \<and> lru_shard_content s' = filter (\<lambda>p. \<not> P (snd p)) (lru_shard_content s)
    \<and> n = int (length (lru_shard_content s)) - int (length (lru_shard_content s'))"
proof -
  have i: "LRUCache_inv (as_lru False s)" using assms by (simp add: lru_shard_inv_def)
  have c: "LRUCache_CleanExpired P (as_lru False s) = (n, as_lru False s')"
    using sim_others(5)[of False P s] sim_others(6)[of P s False] assms(2) by (simp add: prod_eq_iff)
  show ?thesis
    using LRUCache_CleanExpired_refines[OF i c] assms chan_frame(9,10)[of P s]
    by (simp add: lru_shard_inv_def as_lru_content)
qed

section \<open>The sharded LRU cache\<close>

definition on_lru_shard ::
  "string \<Rightarrow> ('v ShardedLRUShard \<Rightarrow> 'v ShardedLRUShard) \<Rightarrow> 'v ShardedLRUCache \<Rightarrow> 'v ShardedLRUCache" where
  "on_lru_shard key f slru = (let i = ShardedLRUCache_getShard key slru
     in slru\<lparr>slru_shards := (slru_shards slru)[i := f (slru_shards slru ! i)]\<rparr>)"

definition ShardedLRUCache_GetNoUpdate :: "string \<Rightarrow> 'v ShardedLRUCache \<Rightarrow> 'v option" where
  "ShardedLRUCache_GetNoUpdate key slru =
     lru_shard_lookup key (slru_shards slru ! ShardedLRUCache_getShard key slru)"

definition ShardedLRUCache_Get :: "string \<Rightarrow> 'v ShardedLRUCache \<Rightarrow> 'v option \<times> 'v ShardedLRUCache" where
  "ShardedLRUCache_Get key slru =
    (case lru_shard_lookup key (slru_shards slru ! ShardedLRUCache_getShard key slru) of
      None \<Rightarrow> (None, slru)
    | Some value \<Rightarrow> (Some value, on_lru_shard key (ShardedLRUShard_recordAccess key) slru))"

definition ShardedLRUCache_Set ::
  "string \<Rightarrow> 'v \<Rightarrow> 'v ShardedLRUCache \<Rightarrow> 'v ShardedLRUCache \<times> (string \<times> 'v) list" where
  "ShardedLRUCache_Set key value slru =
     (let i = ShardedLRUCache_getShard key slru;
          (shard, calls, new) = lru_shard_set (slru_onEvict slru) key value (slru_shards slru ! i);
          slru1 = slru\<lparr>slru_shards := (slru_shards slru)[i := shard]\<rparr>
      in (if new then slru1\<lparr>slru_dirty := slru_dirty slru + 1\<rparr> else slru1, calls))"

definition ShardedLRUCache_Delete :: "string \<Rightarrow> 'v ShardedLRUCache \<Rightarrow> 'v ShardedLRUCache" where
  "ShardedLRUCache_Delete key slru =
     (let i = ShardedLRUCache_getShard key slru;
          (shard, found) = lru_shard_delete key (slru_shards slru ! i);
          slru1 = slru\<lparr>slru_shards := (slru_shards slru)[i := shard]\<rparr>
      in if found then slru1\<lparr>slru_dirty := slru_dirty slru + 1\<rparr> else slru1)"

definition ShardedLRUCache_Len :: "'v ShardedLRUCache \<Rightarrow> int" where
  "ShardedLRUCache_Len slru = foldl (\<lambda>tot shard. tot + list_Len (sl_list shard)) 0 (slru_shards slru)"

definition ShardedLRUCache_Clear :: "'v ShardedLRUCache \<Rightarrow> 'v ShardedLRUCache" where
  "ShardedLRUCache_Clear slru =
     slru\<lparr>slru_shards := map lru_shard_clear (slru_shards slru), slru_dirty := slru_dirty slru + 1\<rparr>"

definition ShardedLRUCache_SetOnEvict :: "bool \<Rightarrow> 'v ShardedLRUCache \<Rightarrow> 'v ShardedLRUCache" where
  "ShardedLRUCache_SetOnEvict has_callback slru = slru\<lparr>slru_onEvict := has_callback\<rparr>"

definition ShardedLRUCache_GetDirtyCount :: "'v ShardedLRUCache \<Rightarrow> 64 word" where
  "ShardedLRUCache_GetDirtyCount slru = slru_dirty slru"

fun clean_shards :: "('v \<Rightarrow> bool) \<Rightarrow> 'v ShardedLRUShard list \<Rightarrow> int \<times> 'v ShardedLRUShard list" where
  "clean_shards isExpired [] = (0, [])"
| "clean_shards isExpired (s # ss) =
    (let (n, s') = lru_shard_clean isExpired s; (m, ss') = clean_shards isExpired ss
     in (n + m, s' # ss'))"

definition ShardedLRUCache_CleanExpired :: "('v \<Rightarrow> bool) \<Rightarrow> 'v ShardedLRUCache \<Rightarrow> int \<times> 'v ShardedLRUCache" where
  "ShardedLRUCache_CleanExpired isExpired slru =
     (let (n, ss) = clean_shards isExpired (slru_shards slru) in (n, slru\<lparr>slru_shards := ss\<rparr>))"

definition ShardedLRUCache_GetAllEntries :: "'v ShardedLRUCache \<Rightarrow> 'v list" where
  "ShardedLRUCache_GetAllEntries slru =
     concat (map (\<lambda>s. map (\<lambda>(e, n). node_value n) (gl_elems (sl_list s))) (slru_shards slru))"

definition ShardedLRUCache_GetAllKeys :: "'v ShardedLRUCache \<Rightarrow> string list" where
  "ShardedLRUCache_GetAllKeys slru =
     concat (map (\<lambda>s. map (\<lambda>(e, n). node_key n) (gl_elems (sl_list s))) (slru_shards slru))"

definition ShardedLRUCache_inv :: "'v ShardedLRUCache \<Rightarrow> bool" where
  "ShardedLRUCache_inv slru \<longleftrightarrow> shards_ok lru_shard_inv lru_shard_content (slru_mask slru) (slru_shards slru)"

definition ShardedLRUCache_content :: "'v ShardedLRUCache \<Rightarrow> (string \<times> 'v) list" where
  "ShardedLRUCache_content slru = shards_content lru_shard_content (slru_shards slru)"

lemmas slru_defs = ShardedLRUCache_inv_def ShardedLRUCache_content_def ShardedLRUCache_getShard_def

lemma slru_new: "ShardedLRUCache_inv (NewShardedLRUCache tot n)"
  "ShardedLRUCache_content (NewShardedLRUCache tot n) = []"
  using unat_shard_mask[OF shard_count_pos, of n]
  by (simp_all add: slru_defs NewShardedLRUCache_def Let_def shards_ok_def shards_content_def
      lru_shard_new)

lemma slru_lookup:
  "ShardedLRUCache_inv slru \<Longrightarrow>
   ShardedLRUCache_GetNoUpdate k slru = map_of (ShardedLRUCache_content slru) k"
  by (simp add: slru_defs ShardedLRUCache_GetNoUpdate_def lrushard.shards_lookup)

lemma slru_Set_simps:
  "slru_mask (fst (ShardedLRUCache_Set k v s)) = slru_mask s"
  "slru_shards (fst (ShardedLRUCache_Set k v s)) = (slru_shards s)[getShard_index (slru_mask s) k :=
     fst (lru_shard_set (slru_onEvict s) k v (slru_shards s ! getShard_index (slru_mask s) k))]"
  "slru_dirty (fst (ShardedLRUCache_Set k v s)) = (if snd (snd
     (lru_shard_set (slru_onEvict s) k v (slru_shards s ! getShard_index (slru_mask s) k)))
     then slru_dirty s + 1 else slru_dirty s)"
  "snd (ShardedLRUCache_Set k v s) =
     fst (snd (lru_shard_set (slru_onEvict s) k v (slru_shards s ! getShard_index (slru_mask s) k)))"
  by (simp_all add: ShardedLRUCache_Set_def ShardedLRUCache_getShard_def Let_def split: prod.splits)

lemma slru_Delete_simps:
  "slru_mask (ShardedLRUCache_Delete k s) = slru_mask s"
  "slru_shards (ShardedLRUCache_Delete k s) = (slru_shards s)[getShard_index (slru_mask s) k :=
     fst (lru_shard_delete k (slru_shards s ! getShard_index (slru_mask s) k))]"
  by (simp_all add: ShardedLRUCache_Delete_def ShardedLRUCache_getShard_def Let_def split: prod.splits)

lemma slru_set_ok:
  assumes "ShardedLRUCache_inv s"
  shows "ShardedLRUCache_inv (fst (ShardedLRUCache_Set k v s))"
    "ShardedLRUCache_GetNoUpdate k (fst (ShardedLRUCache_Set k v s)) = Some v"
  using assms lrushard.shards_set_ok[of "slru_mask s" "slru_shards s" _ k "slru_onEvict s" v]
    lrushard.shards_lookup_set_same[of "slru_mask s" "slru_shards s" _ k "slru_onEvict s" v]
  by (simp_all add: slru_defs ShardedLRUCache_GetNoUpdate_def slru_Set_simps)

lemma slru_delete_ok:
  assumes "ShardedLRUCache_inv s"
  shows "ShardedLRUCache_inv (ShardedLRUCache_Delete k s)"
    "ShardedLRUCache_GetNoUpdate j (ShardedLRUCache_Delete k s) =
      (if j = k then None else ShardedLRUCache_GetNoUpdate j s)"
  using assms lrushard.shards_delete_ok[of "slru_mask s" "slru_shards s" _ k]
    lrushard.shards_lookup_delete[of "slru_mask s" "slru_shards s" _ k j]
  by (cases "j = k"; simp add: slru_defs ShardedLRUCache_GetNoUpdate_def slru_Delete_simps)+

lemma clean_shards_refines:
  "\<forall>s \<in> set ss. lru_shard_inv s \<Longrightarrow> clean_shards P ss = (n, ss') \<Longrightarrow>
   length ss' = length ss \<and> (\<forall>i < length ss. lru_shard_inv (ss' ! i) \<and>
     lru_shard_content (ss' ! i) = filter (\<lambda>p. \<not> P (snd p)) (lru_shard_content (ss ! i)))
   \<and> n = int (length (shards_content lru_shard_content ss)) - int (length (shards_content lru_shard_content ss'))"
proof (induction ss arbitrary: n ss')
  case Nil
  then show ?case by (simp add: shards_content_def)
next
  case (Cons s ss)
  obtain k s1 where s1: "lru_shard_clean P s = (k, s1)" by force
  obtain m ss1 where ss1: "clean_shards P ss = (m, ss1)" by force
  show ?case
    using Cons lru_shard_clean_refines[OF _ s1] s1 ss1
    by (auto simp: shards_content_def nth_Cons split: nat.splits)
qed

lemma slru_clean_ok:
  assumes "ShardedLRUCache_inv s" "ShardedLRUCache_CleanExpired P s = (n, s')"
  shows "ShardedLRUCache_inv s' \<and>
    ShardedLRUCache_content s' = filter (\<lambda>p. \<not> P (snd p)) (ShardedLRUCache_content s) \<and>
    n = int (length (ShardedLRUCache_content s)) - int (length (ShardedLRUCache_content s'))"
proof -
  obtain m ss where c: "clean_shards P (slru_shards s) = (m, ss)" by force
  have i: "\<forall>s \<in> set (slru_shards s). lru_shard_inv s"
    using assms(1) by (auto simp: slru_defs shards_ok_def in_set_conv_nth)
  note r = clean_shards_refines[OF i c]
  have s': "s' = s\<lparr>slru_shards := ss\<rparr>" "n = m"
    using assms(2) c by (simp_all add: ShardedLRUCache_CleanExpired_def)
  have "map lru_shard_content ss = map (filter (\<lambda>p. \<not> P (snd p))) (map lru_shard_content (slru_shards s))"
    using r by (intro nth_equalityI) auto
  then have "shards_content lru_shard_content ss =
      filter (\<lambda>p. \<not> P (snd p)) (shards_content lru_shard_content (slru_shards s))"
    by (simp add: shards_content_def filter_concat)
  moreover have "shards_ok lru_shard_inv lru_shard_content (slru_mask s) ss"
    using assms(1) r by (auto simp: slru_defs shards_ok_def set_keys_of)
  ultimately show ?thesis using r by (simp add: slru_defs s')
qed

lemma slru_keys: "ShardedLRUCache_GetAllKeys s = keys_of (ShardedLRUCache_content s)"
  "ShardedLRUCache_GetAllEntries s = map snd (ShardedLRUCache_content s)"
  by (simp_all add: ShardedLRUCache_GetAllKeys_def ShardedLRUCache_GetAllEntries_def
      ShardedLRUCache_content_def shards_content_def lru_shard_content_def list_pairs_def
      node_pairs_def keys_of_def map_concat comp_def case_prod_unfold)

lemma lru_shard_record: "lru_shard_content (ShardedLRUShard_recordAccess k s) = lru_shard_content s"
  "lru_shard_inv s \<Longrightarrow> lru_shard_inv (ShardedLRUShard_recordAccess k s)"
  by (auto simp: ShardedLRUShard_recordAccess_def lru_shard_content_def lru_shard_inv_def as_lru_def
      LRUCache_inv_defs)

text \<open>\<open>Get\<close> changes neither the content nor the callback.\<close>

lemma slru_get_ok:
  assumes "ShardedLRUCache_inv s"
  shows "ShardedLRUCache_inv (snd (ShardedLRUCache_Get k s))"
    "fst (ShardedLRUCache_Get k s) = ShardedLRUCache_GetNoUpdate k s"
    "ShardedLRUCache_content (snd (ShardedLRUCache_Get k s)) = ShardedLRUCache_content s"
    "ShardedLRUCache_GetNoUpdate j (snd (ShardedLRUCache_Get k s)) = ShardedLRUCache_GetNoUpdate j s"
    "slru_onEvict (snd (ShardedLRUCache_Get k s)) = slru_onEvict s"
proof -
  let ?i = "getShard_index (slru_mask s) k"
  let ?ss = "(slru_shards s)[?i := ShardedLRUShard_recordAccess k (slru_shards s ! ?i)]"
  have ok: "shards_ok lru_shard_inv lru_shard_content (slru_mask s) (slru_shards s)"
    using assms by (simp add: ShardedLRUCache_inv_def)
  have i: "?i < length (slru_shards s)" by (rule shards_ok_index[OF ok])
  have "map lru_shard_content ?ss = map lru_shard_content (slru_shards s)"
    using i by (simp add: map_update lru_shard_record list_update_same_conv)
  then have c: "shards_content lru_shard_content ?ss = shards_content lru_shard_content (slru_shards s)"
    by (simp add: shards_content_def)
  have ok': "shards_ok lru_shard_inv lru_shard_content (slru_mask s) ?ss"
    by (rule shards_ok_update[OF ok])
       (use ok i shards_ok_nth[OF ok] in \<open>auto simp: lru_shard_record shards_ok_def\<close>)
  have st: "snd (ShardedLRUCache_Get k s) = s \<or> snd (ShardedLRUCache_Get k s) = s\<lparr>slru_shards := ?ss\<rparr>"
    by (auto simp: ShardedLRUCache_Get_def on_lru_shard_def ShardedLRUCache_getShard_def Let_def
        split: option.splits)
  then show inv: "ShardedLRUCache_inv (snd (ShardedLRUCache_Get k s))"
    and ct: "ShardedLRUCache_content (snd (ShardedLRUCache_Get k s)) = ShardedLRUCache_content s"
    and "slru_onEvict (snd (ShardedLRUCache_Get k s)) = slru_onEvict s"
    using ok ok' c by (auto simp: ShardedLRUCache_inv_def ShardedLRUCache_content_def)
  show "fst (ShardedLRUCache_Get k s) = ShardedLRUCache_GetNoUpdate k s"
    by (simp add: ShardedLRUCache_Get_def ShardedLRUCache_GetNoUpdate_def split: option.splits)
  show "ShardedLRUCache_GetNoUpdate j (snd (ShardedLRUCache_Get k s)) = ShardedLRUCache_GetNoUpdate j s"
    using slru_lookup[OF inv] slru_lookup[OF assms] ct by simp
qed

lemma slru_set_evicts:
  assumes "ShardedLRUCache_inv s" "ShardedLRUCache_Set k v s = (s', ev)"
  shows "set ev \<subseteq> set (ShardedLRUCache_content s) \<union> {(k, v)}"
    "ShardedLRUCache_GetNoUpdate k s \<noteq> None \<Longrightarrow> ev = []"
proof -
  let ?s = "slru_shards s ! getShard_index (slru_mask s) k"
  have ok: "shards_ok lru_shard_inv lru_shard_content (slru_mask s) (slru_shards s)"
    using assms by (simp add: ShardedLRUCache_inv_def)
  note i = shards_ok_nth[OF ok, of k]
  have ev: "ev = (if slru_onEvict s then spec_evicted (sl_capacity ?s) k v (lru_shard_content ?s) else [])"
    using slru_Set_simps(4)[of k v s] assms(2) lru_shard_set_refines(4)[OF i] by simp
  have "set (lru_shard_content ?s) \<subseteq> set (ShardedLRUCache_content s)"
    using nth_mem[OF shards_ok_index[OF ok, of k]] by (auto simp: slru_defs shards_content_def)
  moreover have "set (spec_evicted (sl_capacity ?s) k v (lru_shard_content ?s)) \<subseteq> insert (k, v) (set (lru_shard_content ?s))"
    using last_in_set[of "(k, v) # lru_shard_content ?s"] by (auto simp: spec_evicted_def split: if_splits)
  ultimately show "set ev \<subseteq> set (ShardedLRUCache_content s) \<union> {(k, v)}" using ev by auto
  show "ev = []" if "ShardedLRUCache_GetNoUpdate k s \<noteq> None"
    using that ev lru_shard_others_refine(1)[OF i, of k]
    by (auto simp: ShardedLRUCache_GetNoUpdate_def ShardedLRUCache_getShard_def spec_evicted_def)
qed

end
