(* ===== verification/Go_Strings.thy ===== *)
theory Go_Strings
  imports Prelude "HOL-Library.Word" "HOL-Library.Sublist"
begin

text \<open>The functions of Go's \<open>strings\<close> and \<open>strconv\<close> packages that the program uses, on strings as
  lists of bytes. Case mapping is the ASCII one: the program applies it to domain names and to
  addresses.\<close>

section \<open>Case\<close>

definition lower_char :: "char \<Rightarrow> char" where
  "lower_char c = (let n = (of_char c :: nat) in if 65 \<le> n \<and> n \<le> 90 then char_of (n + 32) else c)"

definition ToLower :: "string \<Rightarrow> string" where
  "ToLower s = map lower_char s"

lemma of_char_lower:
  "(of_char (lower_char c) :: nat) =
     (if 65 \<le> (of_char c :: nat) \<and> (of_char c :: nat) \<le> 90 then of_char c + 32 else of_char c)"
  by (simp add: lower_char_def Let_def)

lemma lower_char_idem [simp]: "lower_char (lower_char c) = lower_char c"
  using of_char_lower[of c] by (auto simp: lower_char_def[of "lower_char c"] Let_def)

lemma ToLower_idem [simp]: "ToLower (ToLower s) = ToLower s"
  by (simp add: ToLower_def)

lemma ToLower_simps [simp]: "ToLower [] = []" "ToLower (c # s) = lower_char c # ToLower s"
  "ToLower (s @ t) = ToLower s @ ToLower t" "length (ToLower s) = length s"
  by (simp_all add: ToLower_def)

lemma lower_char_eq:
  assumes "\<not> (97 \<le> (of_char d :: nat) \<and> (of_char d :: nat) \<le> 122)"
    "\<not> (65 \<le> (of_char d :: nat) \<and> (of_char d :: nat) \<le> 90)"
  shows "lower_char c = d \<longleftrightarrow> c = d"
proof
  assume "lower_char c = d"
  then show "c = d"
    using of_char_lower[of c] assms by (auto simp: lower_char_def Let_def split: if_splits)
next
  assume "c = d"
  then show "lower_char c = d" using assms(2) by (metis lower_char_def)
qed

lemma lower_char_sep [simp]: "lower_char c = CHR ''#'' \<longleftrightarrow> c = CHR ''#''"
  "lower_char c = CHR ''.'' \<longleftrightarrow> c = CHR ''.''"
  by (rule lower_char_eq; simp add: of_char_def)+

lemma in_ToLower_sep [simp]: "CHR ''#'' \<in> set (ToLower s) \<longleftrightarrow> CHR ''#'' \<in> set s"
  "CHR ''.'' \<in> set (ToLower s) \<longleftrightarrow> CHR ''.'' \<in> set s"
  by (induction s) (auto simp: eq_commute[of "CHR ''#''"] eq_commute[of "CHR ''.''"])

section \<open>Splitting, joining, trimming\<close>

text \<open>\<open>strings.Split\<close> with a one-byte separator: always at least one part.\<close>

fun go_Split :: "char \<Rightarrow> string \<Rightarrow> string list" where
  "go_Split sep [] = [[]]"
| "go_Split sep (c # s) =
    (if c = sep then [] # go_Split sep s
     else (case go_Split sep s of [] \<Rightarrow> [[c]] | p # ps \<Rightarrow> (c # p) # ps))"

fun go_Join :: "string \<Rightarrow> string list \<Rightarrow> string" where
  "go_Join sep [] = []"
| "go_Join sep [p] = p"
| "go_Join sep (p # q # ps) = p @ sep @ go_Join sep (q # ps)"

definition TrimRight_char :: "char \<Rightarrow> string \<Rightarrow> string" where
  "TrimRight_char c s = rev (dropWhile (\<lambda>d. d = c) (rev s))"

definition TrimSuffix :: "string \<Rightarrow> string \<Rightarrow> string" where
  "TrimSuffix s suf = (if suffix suf s then take (length s - length suf) s else s)"

definition TrimPrefix :: "string \<Rightarrow> string \<Rightarrow> string" where
  "TrimPrefix s pre = (if prefix pre s then drop (length pre) s else s)"

fun go_Contains :: "string \<Rightarrow> string \<Rightarrow> bool" where
  "go_Contains [] sub = (sub = [])"
| "go_Contains (c # s) sub = (prefix sub (c # s) \<or> go_Contains s sub)"

definition is_space :: "char \<Rightarrow> bool" where
  "is_space c \<longleftrightarrow> (of_char c :: nat) \<in> {9, 10, 11, 12, 13, 32}"

definition TrimSpace :: "string \<Rightarrow> string" where
  "TrimSpace s = rev (dropWhile is_space (rev (dropWhile is_space s)))"

lemma go_Split_ne [simp]: "go_Split sep s \<noteq> []"
  by (cases s) (auto split: list.splits)

lemma go_Split_no_sep [simp]: "sep \<notin> set s \<Longrightarrow> go_Split sep s = [s]"
  by (induction s) auto

lemma go_Split_append: "go_Split sep (s @ sep # t) = go_Split sep s @ go_Split sep t"
  by (induction s) (auto split: list.splits)

lemma length_go_Split: "length (go_Split sep s) = Suc (length (filter (\<lambda>c. c = sep) s))"
  by (induction s) (auto split: list.splits simp flip: length_0_conv)

lemma go_Split_parts: "p \<in> set (go_Split sep s) \<Longrightarrow> sep \<notin> set p"
  by (induction s arbitrary: p) (auto split: if_splits list.splits)

lemma go_Join_Cons: "ps \<noteq> [] \<Longrightarrow> go_Join sep (p # ps) = p @ sep @ go_Join sep ps"
  by (cases ps) auto

lemma go_Join_Split: "go_Join [sep] (go_Split sep s) = s"
proof (induction s)
  case (Cons c s)
  show ?case
  proof (cases "c = sep")
    case True
    then show ?thesis using Cons by (simp add: go_Join_Cons)
  next
    case False
    obtain p ps where "go_Split sep s = p # ps" by (cases "go_Split sep s") auto
    then show ?thesis using Cons False by (cases ps) auto
  qed
qed simp

lemma go_Split_Join:
  "ps \<noteq> [] \<Longrightarrow> \<forall>p \<in> set ps. sep \<notin> set p \<Longrightarrow> go_Split sep (go_Join [sep] ps) = ps"
proof (induction ps)
  case (Cons p ps)
  then show ?case by (cases ps) (auto simp: go_Split_append)
qed simp

lemma TrimRight_char_no: "TrimRight_char c s = [] \<or> last (TrimRight_char c s) \<noteq> c"
proof -
  have "dropWhile (\<lambda>d. d = c) t = [] \<or> hd (dropWhile (\<lambda>d. d = c) t) \<noteq> c" for t
    by (induction t) auto
  from this[of "rev s"] show ?thesis by (simp only: TrimRight_char_def last_rev rev_is_Nil_conv)
qed

section \<open>Unsigned decimal numbers\<close>

definition digit_char :: "nat \<Rightarrow> char" where
  "digit_char d = char_of (48 + d)"

fun FormatUint :: "nat \<Rightarrow> string" where
  "FormatUint n = (if n < 10 then [digit_char n] else FormatUint (n div 10) @ [digit_char (n mod 10)])"

declare FormatUint.simps [simp del]

definition digit_value :: "char \<Rightarrow> nat option" where
  "digit_value c = (let n = (of_char c :: nat) in if 48 \<le> n \<and> n \<le> 57 then Some (n - 48) else None)"

fun parse_digits :: "nat \<Rightarrow> string \<Rightarrow> nat option" where
  "parse_digits acc [] = Some acc"
| "parse_digits acc (c # s) = (case digit_value c of None \<Rightarrow> None
     | Some d \<Rightarrow> parse_digits (10 * acc + d) s)"

text \<open>\<open>strconv.ParseUint(s, 10, bits)\<close>: syntax errors, the empty string and out-of-range values
  are errors.\<close>

definition ParseUint :: "nat \<Rightarrow> string \<Rightarrow> nat option" where
  "ParseUint bits s = (if s = [] then None
     else case parse_digits 0 s of None \<Rightarrow> None
        | Some n \<Rightarrow> if n < 2 ^ bits then Some n else None)"

lemma of_char_digit: "d < 10 \<Longrightarrow> (of_char (digit_char d) :: nat) = 48 + d"
  by (simp add: digit_char_def)

lemma digit_value_char [simp]: "d < 10 \<Longrightarrow> digit_value (digit_char d) = Some d"
  by (simp add: digit_value_def of_char_digit)

lemma parse_digits_append:
  "parse_digits acc (s @ t) = (case parse_digits acc s of None \<Rightarrow> None | Some n \<Rightarrow> parse_digits n t)"
  by (induction s arbitrary: acc) (auto split: option.splits)

lemma FormatUint_ne [simp]: "FormatUint n \<noteq> []"
  by (subst FormatUint.simps) simp

lemma parse_FormatUint: "parse_digits 0 (FormatUint n) = Some n"
proof (induction n rule: FormatUint.induct)
  case (1 n)
  show ?case
  proof (cases "n < 10")
    case True
    then show ?thesis by (simp add: FormatUint.simps[of n])
  next
    case False
    then show ?thesis using 1[OF False]
      by (simp add: FormatUint.simps[of n] parse_digits_append)
  qed
qed

lemma ParseUint_FormatUint: "n < 2 ^ bits \<Longrightarrow> ParseUint bits (FormatUint n) = Some n"
  by (simp add: ParseUint_def parse_FormatUint)

lemma digits_FormatUint: "c \<in> set (FormatUint n) \<Longrightarrow> \<exists>d < 10. c = digit_char d"
proof (induction n rule: FormatUint.induct)
  case (1 n)
  then show ?case
    by (subst (asm) (2) FormatUint.simps) (auto split: if_splits intro: exI[of _ "n mod 10"])
qed

lemma FormatUint_no_sep [simp]: "CHR ''#'' \<notin> set (FormatUint n)" "CHR ''.'' \<notin> set (FormatUint n)"
proof -
  have "digit_char d \<noteq> CHR ''#'' \<and> digit_char d \<noteq> CHR ''.''" if "d < 10" for d
  proof -
    have "(of_char (digit_char d) :: nat) \<noteq> of_char (CHR ''#'')"
      "(of_char (digit_char d) :: nat) \<noteq> of_char (CHR ''.'')"
      using of_char_digit[OF that] by (simp_all add: of_char_def)
    then show ?thesis by metis
  qed
  then show "CHR ''#'' \<notin> set (FormatUint n)" "CHR ''.'' \<notin> set (FormatUint n)"
    using digits_FormatUint by metis+
qed

lemma FormatUint_inj: "FormatUint m = FormatUint n \<longleftrightarrow> m = n"
  by (metis parse_FormatUint option.inject)

end
