(* ===== verification/Cache_Entries.thy ===== *)
theory Cache_Entries
  imports Go_Strings
begin

text \<open>\<open>cache/cache_key.go\<close>, \<open>cache/entries.go\<close>, \<open>cache/cache_utils.go\<close>: cache keys, the cached
  entries and their freshness. Every method that reads the clock takes the instant as \<open>now\<close>. A
  comparison of \<open>time.Since(t).Seconds()\<close> with an integral number of seconds is made on
  nanoseconds.\<close>

section \<open>Keys\<close>

type_synonym qtype = "16 word"

definition cacheKey :: "string \<Rightarrow> qtype \<Rightarrow> string" where
  "cacheKey domain qt = ToLower domain @ ''#'' @ FormatUint (unat qt)"

definition parseCacheKey :: "string \<Rightarrow> string \<times> qtype" where
  "parseCacheKey key = (let parts = go_Split (CHR ''#'') key in
     if length parts \<noteq> 2 then ('''', 0)
     else (case ParseUint 16 (parts ! 1) of
             None \<Rightarrow> ('''', 0)
           | Some q \<Rightarrow> (parts ! 0, of_nat q)))"

definition extractDomain :: "string \<Rightarrow> string" where
  "extractDomain key = (case go_Split (CHR ''#'') key of [] \<Rightarrow> '''' | p # _ \<Rightarrow> p)"

lemma split_cacheKey:
  "go_Split (CHR ''#'') (cacheKey d q) = go_Split (CHR ''#'') (ToLower d) @ [FormatUint (unat q)]"
  by (simp add: cacheKey_def go_Split_append)

lemma parse_cacheKey:
  "parseCacheKey (cacheKey d q) = (if CHR ''#'' \<in> set d then ('''', 0) else (ToLower d, q))"
proof (cases "CHR ''#'' \<in> set d")
  case True
  have "CHR ''#'' \<in> set (ToLower d)" using True by simp
  then have "filter (\<lambda>c. c = CHR ''#'') (ToLower d) \<noteq> []"
    unfolding filter_empty_conv by blast
  then have "length (go_Split (CHR ''#'') (ToLower d)) \<noteq> 1"
    unfolding length_go_Split by simp
  then have "length (go_Split (CHR ''#'') (cacheKey d q)) \<noteq> 2" by (simp add: split_cacheKey)
  then show ?thesis using True by (simp add: parseCacheKey_def Let_def)
next
  case False
  have "unat q < 2 ^ 16" using unsigned_less[of q, where 'a = nat] by simp
  then show ?thesis using False
    by (simp add: parseCacheKey_def split_cacheKey ParseUint_FormatUint Let_def)
qed

lemma append_sep_inj:
  assumes "c \<notin> set y" "c \<notin> set z" "a @ c # y = b @ c # z"
  shows "a = b \<and> y = z"
proof -
  have "rev y @ c # rev a = rev z @ c # rev b" using assms(3) by (metis rev.simps(2) rev_append append.assoc append_Cons append_Nil)
  moreover have "takeWhile (\<lambda>d. d \<noteq> c) (rev w @ c # v) = rev w" if "c \<notin> set w" for w v
  proof -
    have "takeWhile (\<lambda>d. d \<noteq> c) (rev w @ c # v) = rev w @ takeWhile (\<lambda>d. d \<noteq> c) (c # v)"
      by (rule takeWhile_append2) (use that in auto)
    then show ?thesis by simp
  qed
  ultimately have "rev y = rev z" using assms(1,2) by metis
  then show ?thesis using assms(3) by auto
qed

lemma cacheKey_eq: "cacheKey d q = cacheKey d' q' \<longleftrightarrow> ToLower d = ToLower d' \<and> q = q'"
proof
  assume "cacheKey d q = cacheKey d' q'"
  then have "ToLower d = ToLower d' \<and> FormatUint (unat q) = FormatUint (unat q')"
    by (intro append_sep_inj[of "CHR ''#''"]) (simp_all add: cacheKey_def)
  then show "ToLower d = ToLower d' \<and> q = q'" by (simp add: FormatUint_inj word_unat_eq_iff)
qed (simp add: cacheKey_def)

lemma extractDomain_cacheKey: "CHR ''#'' \<notin> set d \<Longrightarrow> extractDomain (cacheKey d q) = ToLower d"
  by (simp add: extractDomain_def split_cacheKey)

section \<open>Entries\<close>

text \<open>DNS records of \<open>miekg/dns\<close>, as much of them as the program looks at: header name, type and TTL
  (the class is always IN), the text of the address of an A or AAAA record, the target of a CNAME,
  the fields of an SOA, and anything else opaque.\<close>

record SOA =
  soa_Ns :: string
  soa_Mbox :: string
  soa_Serial :: "32 word"
  soa_Refresh :: "32 word"
  soa_Retry :: "32 word"
  soa_Expire :: "32 word"
  soa_Minttl :: "32 word"

datatype rdata = A_rec string | AAAA_rec string | CNAME_rec string | SOA_rec SOA | Other_rec string

record dnsRR =
  rr_name :: string
  rr_type :: "16 word"
  rr_ttl :: "32 word"
  rr_data :: rdata

record RawCacheEntry =
  raw_Records :: "dnsRR list"
  raw_IPs :: "string list"
  raw_CNAMEs :: "string list"
  raw_UpstreamTTL :: "32 word"
  raw_EffectiveTTL :: "32 word"
  raw_AcquisitionTime :: instant
  raw_AuthenticatedData :: bool
  raw_QueryVersion :: int
  raw_gracePeriod :: "32 word"

datatype CacheEntryState = FRESH | STALE | EXPIRED

definition seconds :: "32 word \<Rightarrow> duration" where
  "seconds w = uint w * second"

definition RawCacheEntry_IsExpired :: "instant \<Rightarrow> RawCacheEntry \<Rightarrow> bool" where
  "RawCacheEntry_IsExpired now e \<longleftrightarrow> now - raw_AcquisitionTime e > seconds (raw_EffectiveTTL e)"

definition RawCacheEntry_GetState :: "instant \<Rightarrow> 32 word \<Rightarrow> RawCacheEntry \<Rightarrow> CacheEntryState" where
  "RawCacheEntry_GetState now gracePeriodSeconds e =
     (let expiresAt = raw_AcquisitionTime e + seconds (raw_EffectiveTTL e);
          graceExpiresAt = expiresAt + seconds gracePeriodSeconds
      in if now < expiresAt then FRESH
         else if now < graceExpiresAt then STALE
         else EXPIRED)"

definition GetEffectiveGracePeriod :: "bool \<Rightarrow> 32 word \<Rightarrow> 32 word" where
  "GetEffectiveGracePeriod keepExpired gracePeriodSeconds =
     (if \<not> keepExpired then 0 else gracePeriodSeconds)"

text \<open>\<open>int32(remaining)\<close> truncates; the conversion wraps for values beyond the int32 range, which
  a TTL of more than 2^31 seconds reaches.\<close>

definition GetRemainingTTL :: "instant \<Rightarrow> RawCacheEntry \<Rightarrow> 32 word" where
  "GetRemainingTTL now e =
     (let remaining = seconds (raw_EffectiveTTL e) - (now - raw_AcquisitionTime e)
      in if remaining < 0 then 0 else word_of_int (remaining div second))"

definition GetStateWithConfig :: "instant \<Rightarrow> bool \<Rightarrow> 32 word \<Rightarrow> RawCacheEntry \<Rightarrow> CacheEntryState" where
  "GetStateWithConfig now keepExpired gracePeriodSeconds e =
     (if \<not> keepExpired then (if RawCacheEntry_IsExpired now e then EXPIRED else FRESH)
      else RawCacheEntry_GetState now gracePeriodSeconds e)"

record SortedCacheEntry =
  sorted_IPs :: "string list"
  sorted_RTTs :: "int list"
  sorted_Timestamp :: instant
  sorted_TTL :: int
  sorted_IsValid :: bool
  sorted_QueryVersion :: int

definition SortedCacheEntry_IsExpired :: "instant \<Rightarrow> SortedCacheEntry \<Rightarrow> bool" where
  "SortedCacheEntry_IsExpired now e =
     (if \<not> sorted_IsValid e then True else now - sorted_Timestamp e > sorted_TTL e * second)"

record ErrorCacheEntry =
  err_Rcode :: int
  err_CachedAt :: instant
  err_TTL :: int

definition ErrorCacheEntry_IsExpired :: "instant \<Rightarrow> ErrorCacheEntry \<Rightarrow> bool" where
  "ErrorCacheEntry_IsExpired now e \<longleftrightarrow> now - err_CachedAt e > err_TTL e * second"

record dnsMsg =
  msg_Question :: "(string \<times> qtype) list"
  msg_Rcode :: int
  msg_AuthenticatedData :: bool
  msg_Answer :: "dnsRR list"
  msg_Ns :: "dnsRR list"
  msg_Extra :: "dnsRR list"

record DNSSECCacheEntry =
  dnssec_Message :: dnsMsg
  dnssec_AcquisitionTime :: instant
  dnssec_TTL :: "32 word"

definition DNSSECCacheEntry_IsExpired :: "instant \<Rightarrow> DNSSECCacheEntry \<Rightarrow> bool" where
  "DNSSECCacheEntry_IsExpired now e \<longleftrightarrow> now - dnssec_AcquisitionTime e > seconds (dnssec_TTL e)"

record BlockedCacheEntry =
  blocked_BlockType :: string
  blocked_Rule :: string
  blocked_ExpiredAt :: instant

record AllowedCacheEntry =
  allowed_ExpiredAt :: instant
  allowed_IsExplicit :: bool

definition BlockedCacheEntry_IsExpired :: "instant \<Rightarrow> BlockedCacheEntry \<Rightarrow> bool" where
  "BlockedCacheEntry_IsExpired now e \<longleftrightarrow> now > blocked_ExpiredAt e"

definition AllowedCacheEntry_IsExpired :: "instant \<Rightarrow> AllowedCacheEntry \<Rightarrow> bool" where
  "AllowedCacheEntry_IsExpired now e \<longleftrightarrow> now > allowed_ExpiredAt e"

record SortingState =
  ss_InProgress :: bool
  ss_DoneClosed :: bool
  ss_Result :: "SortedCacheEntry option"
  ss_Error :: "string option"

section \<open>Helpers on records\<close>

definition TypeDNSKEY :: "16 word" where "TypeDNSKEY = 48"
definition TypeDS :: "16 word" where "TypeDS = 43"

fun record_ip :: "rdata \<Rightarrow> string option" where
  "record_ip (A_rec ip) = Some ip"
| "record_ip (AAAA_rec ip) = Some ip"
| "record_ip _ = None"

fun extract_loop :: "string set \<Rightarrow> dnsRR list \<Rightarrow> string list" where
  "extract_loop seen [] = []"
| "extract_loop seen (r # rs) = (case record_ip (rr_data r) of
      None \<Rightarrow> extract_loop seen rs
    | Some ip \<Rightarrow> if ip \<in> seen then extract_loop seen rs
                  else ip # extract_loop (insert ip seen) rs)"

definition extractIPsFromRecords :: "dnsRR list \<Rightarrow> string list" where
  "extractIPsFromRecords records = extract_loop {} records"

definition filterRecords :: "dnsRR list \<Rightarrow> dnsRR list" where
  "filterRecords rrs = filter (\<lambda>rr. rr_type rr \<noteq> TypeDNSKEY \<and> rr_type rr \<noteq> TypeDS) rrs"

definition min_ttl_loop :: "32 word \<Rightarrow> dnsRR list \<Rightarrow> 32 word" where
  "min_ttl_loop m rrs = foldl (\<lambda>m rr. if rr_ttl rr < m then rr_ttl rr else m) m rrs"

definition getMinTTL :: "dnsMsg \<Rightarrow> 32 word" where
  "getMinTTL msg =
     (let m0 = (0xFFFFFFFF :: 32 word);
          m = min_ttl_loop (min_ttl_loop (min_ttl_loop m0 (msg_Answer msg)) (msg_Ns msg)) (msg_Extra msg)
      in if m = 0xFFFFFFFF then 60 else m)"

lemma extract_loop_eq:
  "extract_loop seen rs = keep_first id seen (List.map_filter (\<lambda>r. record_ip (rr_data r)) rs)"
  by (induction rs arbitrary: seen) (auto simp: map_filter_simps split: option.splits)

lemma extract_distinct: "distinct (extractIPsFromRecords rs)"
  using keep_first_distinct[of id "{}"] by (simp add: extractIPsFromRecords_def extract_loop_eq)

lemma set_extract:
  "set (extractIPsFromRecords rs) = {ip. \<exists>r \<in> set rs. record_ip (rr_data r) = Some ip}"
proof -
  have "set (keep_first id {} xs) = set xs" for xs :: "string list"
    using keep_first_keys[of id "{}" xs] by simp
  then show ?thesis
    by (auto simp: extractIPsFromRecords_def extract_loop_eq List.map_filter_def
        intro: rev_image_eqI)
qed

lemma min_ttl_loop_le: "min_ttl_loop m rrs \<le> m \<and> (\<forall>rr \<in> set rrs. min_ttl_loop m rrs \<le> rr_ttl rr)"
proof (induction rrs arbitrary: m)
  case (Cons rr rrs)
  let ?m = "if rr_ttl rr < m then rr_ttl rr else m"
  have "min_ttl_loop m (rr # rrs) = min_ttl_loop ?m rrs" by (simp add: min_ttl_loop_def)
  moreover have "?m \<le> m" "?m \<le> rr_ttl rr" by auto
  moreover have "min_ttl_loop ?m rrs \<le> ?m" "\<forall>rr \<in> set rrs. min_ttl_loop ?m rrs \<le> rr_ttl rr"
    using Cons.IH[of ?m] by blast+
  ultimately show ?case by (metis (no_types, lifting) order_trans set_ConsD)
qed (simp add: min_ttl_loop_def)

lemma min_ttl_loop_attained:
  "min_ttl_loop m rrs = m \<or> (\<exists>rr \<in> set rrs. min_ttl_loop m rrs = rr_ttl rr)"
proof (induction rrs arbitrary: m)
  case (Cons rr rrs)
  let ?m = "if rr_ttl rr < m then rr_ttl rr else m"
  have "min_ttl_loop m (rr # rrs) = min_ttl_loop ?m rrs" by (simp add: min_ttl_loop_def)
  then show ?case using Cons.IH[of ?m] by (auto split: if_splits)
qed (simp add: min_ttl_loop_def)

section \<open>Freshness\<close>

lemma seconds_nonneg [simp]: "0 \<le> seconds w"
  by (simp add: seconds_def second_def)

lemma GetState_cases:
  "RawCacheEntry_GetState now g e = FRESH \<longleftrightarrow>
     now < raw_AcquisitionTime e + seconds (raw_EffectiveTTL e)"
  "RawCacheEntry_GetState now g e = STALE \<longleftrightarrow>
     raw_AcquisitionTime e + seconds (raw_EffectiveTTL e) \<le> now \<and>
     now < raw_AcquisitionTime e + seconds (raw_EffectiveTTL e) + seconds g"
  "RawCacheEntry_GetState now g e = EXPIRED \<longleftrightarrow>
     raw_AcquisitionTime e + seconds (raw_EffectiveTTL e) + seconds g \<le> now"
  using seconds_nonneg[of g] unfolding RawCacheEntry_GetState_def Let_def
  by (simp_all del: seconds_nonneg split: if_splits)

section \<open>Properties\<close>

text \<open>C19: Cache keys identify a question up to the letter case of the name, and nothing else: two keys
  are equal exactly when the lower-cased names and the types are. A key parses back to the
  lower-cased name and the type, unless the name contains the separator, in which case parsing
  gives the empty name.\<close>

theorem cacheKey_roundtrip:
  "(cacheKey d q = cacheKey d' q' \<longleftrightarrow> ToLower d = ToLower d' \<and> q = q')
   \<and> parseCacheKey (cacheKey d q) = (if CHR ''#'' \<in> set d then ('''', 0) else (ToLower d, q))"
  by (simp add: cacheKey_eq parse_cacheKey)

definition raw_expiry :: "RawCacheEntry \<Rightarrow> instant" where
  "raw_expiry e = raw_AcquisitionTime e + seconds (raw_EffectiveTTL e)"

text \<open>The three states of a raw answer partition time at its expiry and at its expiry plus the
  grace period, fresh before, expired from the second on; the two-state check used when expired
  entries are not kept differs from it at one instant only: exactly at expiry it still says fresh.
  The remaining TTL is the whole seconds left, and zero once expired.\<close>

theorem GetStateWithConfig_partition:
  "GetStateWithConfig now True g e =
      (if now < raw_expiry e then FRESH else if now < raw_expiry e + seconds g then STALE else EXPIRED)
    \<and> GetStateWithConfig now False g e = (if now \<le> raw_expiry e then FRESH else EXPIRED)
    \<and> (GetStateWithConfig now False g e = FRESH \<and> GetStateWithConfig now True g e \<noteq> FRESH \<longleftrightarrow> now = raw_expiry e)
    \<and> GetRemainingTTL now e = (if raw_expiry e < now then 0 else word_of_int ((raw_expiry e - now) div second))"
proof -
  have m: "GetStateWithConfig now True g e =
      (if now < raw_expiry e then FRESH else if now < raw_expiry e + seconds g then STALE else EXPIRED)"
    by (simp add: GetStateWithConfig_def RawCacheEntry_GetState_def Let_def raw_expiry_def)
  have f: "GetStateWithConfig now False g e = (if now \<le> raw_expiry e then FRESH else EXPIRED)"
    by (auto simp: GetStateWithConfig_def RawCacheEntry_IsExpired_def raw_expiry_def)
  have r: "GetRemainingTTL now e = (if raw_expiry e < now then 0 else word_of_int ((raw_expiry e - now) div second))"
    by (simp add: GetRemainingTTL_def Let_def raw_expiry_def algebra_simps)
  show ?thesis unfolding m f r by auto
qed

text \<open>The addresses taken from an answer are exactly those of its A and AAAA records, each once;
  and the TTL computed for a message is the smallest of its three sections, or 60 when that is the
  largest 32-bit number, as it is for an empty message.\<close>

theorem extracted_ips_and_min_ttl:
  "distinct (extractIPsFromRecords rs)
   \<and> Some ` set (extractIPsFromRecords rs) = (record_ip \<circ> rr_data) ` set rs - {None}
   \<and> getMinTTL m = (let t = Min (insert 0xFFFFFFFF (rr_ttl ` set (msg_Answer m @ msg_Ns m @ msg_Extra m)))
        in if t = 0xFFFFFFFF then 60 else t)"
proof -
  let ?all = "msg_Answer m @ msg_Ns m @ msg_Extra m"
  let ?m = "min_ttl_loop 0xFFFFFFFF ?all"
  have g: "getMinTTL m = (if ?m = 0xFFFFFFFF then 60 else ?m)"
    by (simp add: getMinTTL_def Let_def min_ttl_loop_def)
  have "?m = Min (insert 0xFFFFFFFF (rr_ttl ` set ?all))"
    using min_ttl_loop_le[of "0xFFFFFFFF" ?all] min_ttl_loop_attained[of "0xFFFFFFFF" ?all]
    by (intro Min_eqI[symmetric]) auto
  moreover have "Some ` set (extractIPsFromRecords rs) = (record_ip \<circ> rr_data) ` set rs - {None}"
  proof (rule set_eqI)
    fix x show "x \<in> Some ` set (extractIPsFromRecords rs) \<longleftrightarrow> x \<in> (record_ip \<circ> rr_data) ` set rs - {None}"
      unfolding set_extract by (cases x) (auto simp: image_iff, metis)
  qed
  ultimately show ?thesis
    using g extract_distinct by (simp add: Let_def)
qed

end
