(* ===== verification/Config.thy ===== *)
theory Config
  imports Complex_Main Prelude "HOL-Library.Word"
begin

text \<open>\<open>config/\<close>: the configuration records and the filling-in of defaults. Float fields are exact
  rationals. The YAML parser is third-party code: \<open>yaml_fields\<close>, a parameter, gives for a document
  the field names present in each section that is a mapping, and \<open>None\<close> for a document that does
  not parse. \<open>runtime.NumCPU()\<close> is the parameter \<open>numCPU\<close>.\<close>

section \<open>Records\<close>

record DNSConfig =
  dns_ListenPort :: int
  dns_EnableTCP :: bool
  dns_EnableIPv6 :: bool

record DynamicParamOptimizationConfig =
  dpo_EWMAAlpha :: "rat option"
  dpo_MaxStepMs :: "int option"

record HealthCheckConfig =
  hc_Enabled :: bool
  hc_FailureThreshold :: int
  hc_CircuitBreakerThreshold :: int
  hc_CircuitBreakerTimeout :: int
  hc_SuccessThreshold :: int

record UpstreamConfig =
  up_Servers :: "string list"
  up_BootstrapDNS :: "string list"
  up_Strategy :: string
  up_TimeoutMs :: int
  up_Concurrency :: "int option"
  up_SequentialTimeout :: "int option"
  up_RacingDelay :: "int option"
  up_RacingMaxConcurrent :: "int option"
  up_MaxConnections :: "int option"
  up_DynamicParamOptimization :: DynamicParamOptimizationConfig
  up_Dnssec :: bool
  up_HealthCheck :: HealthCheckConfig
  up_EnableRecursor :: bool
  up_RecursorPort :: int

record PingConfig =
  ping_Enabled :: bool
  ping_Count :: int
  ping_TimeoutMs :: int
  ping_Concurrency :: int
  ping_Strategy :: string
  ping_MaxTestIPs :: int
  ping_RttCacheTtlSeconds :: int
  ping_EnableHttpFallback :: bool

record CacheConfig =
  cache_FastResponseTTL :: int
  cache_UserReturnTTL :: int
  cache_MinTTLSeconds :: int
  cache_MaxTTLSeconds :: int
  cache_NegativeTTLSeconds :: int
  cache_ErrorCacheTTL :: int
  cache_MaxMemoryMB :: int
  cache_KeepExpiredEntries :: bool
  cache_EvictionThreshold :: rat
  cache_EvictionBatchPercent :: rat
  cache_ProtectPrefetchDomains :: bool
  cache_SaveToDiskIntervalMinutes :: int
  cache_MsgCacheSizeMB :: int
  cache_DNSSECMsgCacheTTLSeconds :: int

record PrefetchConfig =
  pre_Enabled :: bool
  pre_MaxRefreshDomains :: int
  pre_MinScoreThreshold :: rat
  pre_EligibilityTTL :: "32 word"
  pre_StableCycleThreshold :: int
  pre_StabilityPenaltyFactor :: rat

record WebUIConfig =
  web_Enabled :: bool
  web_ListenPort :: int

record AdBlockConfig =
  ad_Enable :: bool
  ad_Engine :: string
  ad_RuleURLs :: "string list"
  ad_CustomRulesFile :: string
  ad_CustomResponseFile :: string
  ad_CacheDir :: string
  ad_UpdateIntervalHours :: int
  ad_MaxCacheAgeHours :: int
  ad_MaxCacheSizeMB :: int
  ad_BlockMode :: string
  ad_BlockedResponseIP :: string
  ad_BlockedTTL :: int
  ad_LastUpdate :: int
  ad_FailedSources :: "string list"
  ad_MaxConcurrentDownloads :: int
  ad_DownloadTimeoutSeconds :: int

record SystemConfig =
  sys_MaxCPUCores :: int
  sys_SortQueueWorkers :: int
  sys_RefreshWorkers :: int
  sys_LogLevel :: string

record StatsConfig =
  st_HotDomainsWindowHours :: int
  st_HotDomainsBucketMinutes :: int
  st_HotDomainsShardCount :: int
  st_HotDomainsMaxPerBucket :: int
  st_BlockedDomainsWindowHours :: int
  st_BlockedDomainsBucketMinutes :: int
  st_BlockedDomainsShardCount :: int
  st_GeneralStatsBucketMinutes :: int
  st_GeneralStatsRetentionDays :: int
  st_UpstreamStatsBucketMinutes :: int
  st_UpstreamStatsRetentionDays :: int

record IPPoolConfig =
  ipc_Enabled :: bool
  ipc_MaxSize :: int
  ipc_T0RefreshInterval :: int
  ipc_T1RefreshInterval :: int
  ipc_T2RefreshInterval :: int
  ipc_RefCountWeight :: rat
  ipc_AccessHeatWeight :: rat
  ipc_MaxRefreshPerCycle :: int
  ipc_RefreshConcurrency :: int
  ipc_CleanupInterval :: int

record Config =
  cfg_DNS :: DNSConfig
  cfg_Upstream :: UpstreamConfig
  cfg_Ping :: PingConfig
  cfg_Cache :: CacheConfig
  cfg_Prefetch :: PrefetchConfig
  cfg_WebUI :: WebUIConfig
  cfg_AdBlock :: AdBlockConfig
  cfg_System :: SystemConfig
  cfg_Stats :: StatsConfig
  cfg_IPMonitor :: IPPoolConfig

section \<open>Defaults\<close>

definition AvgBytesPerDomain :: int where "AvgBytesPerDomain = 820"

definition CalculateMaxEntries :: "CacheConfig \<Rightarrow> int" where
  "CalculateMaxEntries c =
     (if cache_MaxMemoryMB c \<le> 0 then 0
      else (let maxBytes = cache_MaxMemoryMB c * 1024 * 1024;
                entries = go_div maxBytes AvgBytesPerDomain
            in if 100000000 < entries then 100000000 else entries))"

text \<open>\<open>if x == zero { x = d }\<close>.\<close>

definition dflt :: "'a \<Rightarrow> 'a \<Rightarrow> 'a \<Rightarrow> 'a" where
  "dflt zero d x = (if x = zero then d else x)"

lemma dflt_ne [simp]: "d \<noteq> z \<Longrightarrow> dflt z d x \<noteq> z" "d \<noteq> z \<Longrightarrow> z \<noteq> dflt z d x"
  by (auto simp: dflt_def)

lemma dflt_idem [simp]: "d \<noteq> z \<Longrightarrow> dflt z d' (dflt z d x) = dflt z d x"
  by (auto simp: dflt_def)

type_synonym yaml_parser = "string \<Rightarrow> (string \<rightharpoonup> string list) option"

definition isFieldExplicitlySet :: "yaml_parser \<Rightarrow> string \<Rightarrow> string \<Rightarrow> string \<Rightarrow> bool" where
  "isFieldExplicitlySet yaml_fields rawData section_name field =
     (if rawData = [] then False
      else (case yaml_fields rawData of
          None \<Rightarrow> False
        | Some rawConfig \<Rightarrow> (case rawConfig section_name of
              None \<Rightarrow> False
            | Some sectionData \<Rightarrow> field \<in> set sectionData)))"

definition setUpstreamDefaults :: "int \<Rightarrow> UpstreamConfig \<Rightarrow> UpstreamConfig" where
  "setUpstreamDefaults numCPU cfg =
     (let cfg1 = cfg\<lparr>up_TimeoutMs := dflt 0 5000 (up_TimeoutMs cfg),
            up_Concurrency := dflt None (Some (numCPU * 10)) (up_Concurrency cfg),
            up_SequentialTimeout := dflt None (Some 1000) (up_SequentialTimeout cfg),
            up_RacingDelay := dflt None (Some 100) (up_RacingDelay cfg),
            up_RacingMaxConcurrent := dflt None
              (Some (let c = int (length (up_Servers cfg)) in if c < 2 then 2 else c))
              (up_RacingMaxConcurrent cfg)\<rparr>;
          dpo = up_DynamicParamOptimization cfg1;
          dpo1 = dpo\<lparr>dpo_EWMAAlpha := dflt None (Some (1 / 5)) (dpo_EWMAAlpha dpo),
                     dpo_MaxStepMs := dflt None (Some 10) (dpo_MaxStepMs dpo)\<rparr>;
          cfg2 = cfg1\<lparr>up_DynamicParamOptimization := dpo1\<rparr>;
          cfg3 = (if up_MaxConnections cfg2 = None \<or> up_MaxConnections cfg2 = Some 0
                  then cfg2\<lparr>up_MaxConnections := Some (numCPU * 20)\<rparr> else cfg2)
      in cfg3\<lparr>up_RecursorPort := dflt 0 5353 (up_RecursorPort cfg3)\<rparr>)"

definition setHealthCheckDefaults :: "HealthCheckConfig \<Rightarrow> HealthCheckConfig" where
  "setHealthCheckDefaults hc =
     hc\<lparr>hc_FailureThreshold := dflt 0 3 (hc_FailureThreshold hc),
        hc_CircuitBreakerThreshold := dflt 0 3 (hc_CircuitBreakerThreshold hc),
        hc_CircuitBreakerTimeout := dflt 0 30 (hc_CircuitBreakerTimeout hc),
        hc_SuccessThreshold := dflt 0 2 (hc_SuccessThreshold hc)\<rparr>"

definition setPingDefaults :: "yaml_parser \<Rightarrow> string \<Rightarrow> PingConfig \<Rightarrow> PingConfig" where
  "setPingDefaults yaml_fields rawData p =
     (let p1 = p\<lparr>ping_Count := dflt 0 3 (ping_Count p),
                 ping_TimeoutMs := dflt 0 1000 (ping_TimeoutMs p),
                 ping_Concurrency := dflt 0 16 (ping_Concurrency p),
                 ping_RttCacheTtlSeconds := dflt 0 600 (ping_RttCacheTtlSeconds p)\<rparr>
      in if \<not> ping_Enabled p1 \<and> \<not> isFieldExplicitlySet yaml_fields rawData ''ping'' ''enabled''
         then p1\<lparr>ping_Enabled := True\<rparr> else p1)"

definition setCacheDefaults :: "CacheConfig \<Rightarrow> CacheConfig" where
  "setCacheDefaults c =
     (let c1 = c\<lparr>cache_FastResponseTTL := dflt 0 15 (cache_FastResponseTTL c),
                 cache_UserReturnTTL := dflt 0 600 (cache_UserReturnTTL c),
                 cache_NegativeTTLSeconds := dflt 0 300 (cache_NegativeTTLSeconds c),
                 cache_ErrorCacheTTL := dflt 0 30 (cache_ErrorCacheTTL c),
                 cache_MaxMemoryMB := dflt 0 32 (cache_MaxMemoryMB c)\<rparr>;
          c2 = (if \<not> cache_KeepExpiredEntries c1 then c1\<lparr>cache_KeepExpiredEntries := True\<rparr> else c1);
          c3 = c2\<lparr>cache_EvictionThreshold := dflt 0 (4 / 5) (cache_EvictionThreshold c2),
                  cache_EvictionBatchPercent := dflt 0 (1 / 10) (cache_EvictionBatchPercent c2)\<rparr>;
          c4 = (if cache_MsgCacheSizeMB c3 = 0
                then (let m = go_div (cache_MaxMemoryMB c3) 10
                      in c3\<lparr>cache_MsgCacheSizeMB := (if m < 1 then 1 else m)\<rparr>)
                else c3)
      in c4\<lparr>cache_DNSSECMsgCacheTTLSeconds := dflt 0 300 (cache_DNSSECMsgCacheTTLSeconds c4),
            cache_SaveToDiskIntervalMinutes := dflt 0 60 (cache_SaveToDiskIntervalMinutes c4)\<rparr>)"

definition setAdBlockDefaults :: "AdBlockConfig \<Rightarrow> AdBlockConfig" where
  "setAdBlockDefaults a =
     a\<lparr>ad_Engine := dflt '''' ''urlfilter'' (ad_Engine a),
       ad_CustomRulesFile := dflt '''' ''./custom_rules.txt'' (ad_CustomRulesFile a),
       ad_CustomResponseFile :=
         dflt '''' ''./adblock_cache/custom_response_rules.txt'' (ad_CustomResponseFile a),
       ad_CacheDir := dflt '''' ''./adblock_cache'' (ad_CacheDir a),
       ad_UpdateIntervalHours := dflt 0 168 (ad_UpdateIntervalHours a),
       ad_MaxCacheAgeHours := dflt 0 168 (ad_MaxCacheAgeHours a),
       ad_MaxCacheSizeMB := dflt 0 10 (ad_MaxCacheSizeMB a),
       ad_BlockMode := dflt '''' ''zero_ip'' (ad_BlockMode a),
       ad_BlockedTTL := dflt 0 3600 (ad_BlockedTTL a)\<rparr>"

definition setSystemDefaults :: "int \<Rightarrow> SystemConfig \<Rightarrow> SystemConfig" where
  "setSystemDefaults numCPU s =
     (let s1 = s\<lparr>sys_MaxCPUCores := dflt 0 numCPU (sys_MaxCPUCores s)\<rparr>
      in s1\<lparr>sys_SortQueueWorkers := dflt 0 (sys_MaxCPUCores s1) (sys_SortQueueWorkers s1),
            sys_RefreshWorkers := dflt 0 (sys_MaxCPUCores s1) (sys_RefreshWorkers s1),
            sys_LogLevel := dflt '''' ''info'' (sys_LogLevel s1)\<rparr>)"

definition setStatsDefaults :: "StatsConfig \<Rightarrow> StatsConfig" where
  "setStatsDefaults s =
     s\<lparr>st_HotDomainsWindowHours := dflt 0 24 (st_HotDomainsWindowHours s),
       st_HotDomainsBucketMinutes := dflt 0 60 (st_HotDomainsBucketMinutes s),
       st_HotDomainsShardCount := dflt 0 16 (st_HotDomainsShardCount s),
       st_HotDomainsMaxPerBucket := dflt 0 5000 (st_HotDomainsMaxPerBucket s),
       st_BlockedDomainsWindowHours := dflt 0 24 (st_BlockedDomainsWindowHours s),
       st_BlockedDomainsBucketMinutes := dflt 0 10 (st_BlockedDomainsBucketMinutes s),
       st_BlockedDomainsShardCount := dflt 0 16 (st_BlockedDomainsShardCount s),
       st_GeneralStatsBucketMinutes := dflt 0 10 (st_GeneralStatsBucketMinutes s),
       st_GeneralStatsRetentionDays := dflt 0 90 (st_GeneralStatsRetentionDays s),
       st_UpstreamStatsBucketMinutes := dflt 0 10 (st_UpstreamStatsBucketMinutes s),
       st_UpstreamStatsRetentionDays := dflt 0 90 (st_UpstreamStatsRetentionDays s)\<rparr>"

definition setPrefetchDefaults :: "PrefetchConfig \<Rightarrow> PrefetchConfig" where
  "setPrefetchDefaults p =
     p\<lparr>pre_MaxRefreshDomains := dflt 0 150 (pre_MaxRefreshDomains p),
       pre_MinScoreThreshold := dflt 0 10 (pre_MinScoreThreshold p),
       pre_EligibilityTTL := dflt 0 300 (pre_EligibilityTTL p),
       pre_StableCycleThreshold := dflt 0 10 (pre_StableCycleThreshold p),
       pre_StabilityPenaltyFactor := dflt 0 (19 / 20) (pre_StabilityPenaltyFactor p)\<rparr>"

definition setIPMonitorDefaults :: "yaml_parser \<Rightarrow> string \<Rightarrow> IPPoolConfig \<Rightarrow> IPPoolConfig" where
  "setIPMonitorDefaults yaml_fields rawData i =
     (let i1 = i\<lparr>ipc_MaxSize := dflt 0 1000 (ipc_MaxSize i),
                 ipc_CleanupInterval := dflt 0 3600 (ipc_CleanupInterval i),
                 ipc_T0RefreshInterval := dflt 0 120 (ipc_T0RefreshInterval i),
                 ipc_T1RefreshInterval := dflt 0 900 (ipc_T1RefreshInterval i),
                 ipc_T2RefreshInterval := dflt 0 3600 (ipc_T2RefreshInterval i),
                 ipc_RefCountWeight := (if ipc_RefCountWeight i \<le> 0 then 1 else ipc_RefCountWeight i),
                 ipc_AccessHeatWeight := (if ipc_AccessHeatWeight i \<le> 0 then 1 / 2 else ipc_AccessHeatWeight i),
                 ipc_MaxRefreshPerCycle := dflt 0 50 (ipc_MaxRefreshPerCycle i),
                 ipc_RefreshConcurrency := dflt 0 10 (ipc_RefreshConcurrency i)\<rparr>
      in if \<not> ipc_Enabled i1 \<and> \<not> isFieldExplicitlySet yaml_fields rawData ''ip_monitor'' ''enabled''
         then i1\<lparr>ipc_Enabled := True\<rparr> else i1)"

definition setDefaultValues :: "yaml_parser \<Rightarrow> int \<Rightarrow> Config \<Rightarrow> string \<Rightarrow> Config" where
  "setDefaultValues yaml_fields numCPU cfg rawData =
     (let d = cfg_DNS cfg;
          u = setUpstreamDefaults numCPU (cfg_Upstream cfg);
          u1 = (if up_BootstrapDNS u = []
                then u\<lparr>up_BootstrapDNS := [''8.8.8.8'', ''1.1.1.1'', ''8.8.4.4'', ''1.0.0.1'']\<rparr> else u)
      in cfg\<lparr>cfg_DNS := d\<lparr>dns_ListenPort := dflt 0 53 (dns_ListenPort d)\<rparr>,
             cfg_Upstream := u1\<lparr>up_HealthCheck := setHealthCheckDefaults (up_HealthCheck u1)\<rparr>,
             cfg_Ping := setPingDefaults yaml_fields rawData (cfg_Ping cfg),
             cfg_Cache := setCacheDefaults (cfg_Cache cfg),
             cfg_Prefetch := setPrefetchDefaults (cfg_Prefetch cfg),
             cfg_AdBlock := setAdBlockDefaults (cfg_AdBlock cfg),
             cfg_System := setSystemDefaults numCPU (cfg_System cfg),
             cfg_Stats := setStatsDefaults (cfg_Stats cfg),
             cfg_IPMonitor := setIPMonitorDefaults yaml_fields rawData (cfg_IPMonitor cfg)\<rparr>)"

definition SetDefaults :: "yaml_parser \<Rightarrow> int \<Rightarrow> Config \<Rightarrow> Config" where
  "SetDefaults yaml_fields numCPU cfg = setDefaultValues yaml_fields numCPU cfg []"

section \<open>Lemmas\<close>

lemma CalculateMaxEntries_bounds: "0 \<le> CalculateMaxEntries c \<and> CalculateMaxEntries c \<le> 100000000"
  by (auto simp: CalculateMaxEntries_def AvgBytesPerDomain_def Let_def)

lemma keep_flag: "(if \<not> cache_KeepExpiredEntries c then c\<lparr>cache_KeepExpiredEntries := True\<rparr> else c)
    = c\<lparr>cache_KeepExpiredEntries := True\<rparr>"
  by (cases c) simp

definition auto_max :: "int \<Rightarrow> int option \<Rightarrow> int option" where
  "auto_max n m = (if m = None \<or> m = Some 0 then Some n else m)"

lemma max_conns: "(if up_MaxConnections u = None \<or> up_MaxConnections u = Some 0
    then u\<lparr>up_MaxConnections := Some n\<rparr> else u) = u\<lparr>up_MaxConnections := auto_max n (up_MaxConnections u)\<rparr>"
  by (cases u) (simp add: auto_max_def)

lemma auto_max_facts [simp]: "n \<noteq> 0 \<Longrightarrow> auto_max n (auto_max n m) = auto_max n m"
  "auto_max n m \<noteq> None" "n \<noteq> 0 \<Longrightarrow> auto_max n m \<noteq> Some 0"
  by (auto simp: auto_max_def)

definition auto_msg :: "int \<Rightarrow> int \<Rightarrow> int" where
  "auto_msg mb m = (if m = 0 then (let q = go_div mb 10 in if q < 1 then 1 else q) else m)"

lemma msg_size: "(if cache_MsgCacheSizeMB c = 0 then (let m = go_div (cache_MaxMemoryMB c) 10
      in c\<lparr>cache_MsgCacheSizeMB := (if m < 1 then 1 else m)\<rparr>) else c) =
    c\<lparr>cache_MsgCacheSizeMB := auto_msg (cache_MaxMemoryMB c) (cache_MsgCacheSizeMB c)\<rparr>"
  by (cases c) (simp add: auto_msg_def Let_def)

lemma auto_msg_facts [simp]: "auto_msg mb (auto_msg mb' m) = auto_msg mb' m" "auto_msg mb m \<noteq> 0"
  by (auto simp: auto_msg_def Let_def)

definition boot_servers :: "string list \<Rightarrow> string list" where
  "boot_servers b = (if b = [] then [''8.8.8.8'', ''1.1.1.1'', ''8.8.4.4'', ''1.0.0.1''] else b)"

lemma boot: "(if up_BootstrapDNS u = []
    then u\<lparr>up_BootstrapDNS := [''8.8.8.8'', ''1.1.1.1'', ''8.8.4.4'', ''1.0.0.1'']\<rparr> else u) =
    u\<lparr>up_BootstrapDNS := boot_servers (up_BootstrapDNS u)\<rparr>"
  by (cases u) (simp add: boot_servers_def)

lemma boot_facts [simp]: "boot_servers (boot_servers b) = boot_servers b" "boot_servers b \<noteq> []"
  by (auto simp: boot_servers_def)

lemma ping_flag: "(if \<not> ping_Enabled p \<and> \<not> x then p\<lparr>ping_Enabled := True\<rparr> else p) =
    p\<lparr>ping_Enabled := ping_Enabled p \<or> \<not> x\<rparr>"
  by (cases p) auto

lemma ipm_flag: "(if \<not> ipc_Enabled p \<and> \<not> x then p\<lparr>ipc_Enabled := True\<rparr> else p) =
    p\<lparr>ipc_Enabled := ipc_Enabled p \<or> \<not> x\<rparr>"
  by (cases p) auto

text \<open>Each setter as one record update.\<close>

lemmas set_Upstream = setUpstreamDefaults_def[unfolded max_conns]
lemmas set_Cache = setCacheDefaults_def[unfolded keep_flag msg_size]
lemmas set_Ping = setPingDefaults_def[unfolded ping_flag]
lemmas set_IPMonitor = setIPMonitorDefaults_def[unfolded ipm_flag]
lemmas set_All = setDefaultValues_def[unfolded boot]

lemma upstream_idem:
  "0 < n \<Longrightarrow> setUpstreamDefaults n (setUpstreamDefaults n u) = setUpstreamDefaults n u"
  by (simp add: set_Upstream Let_def split del: if_split)

lemma cache_idem: "setCacheDefaults (setCacheDefaults c) = setCacheDefaults c"
  by (simp add: set_Cache Let_def)

lemma others_idem:
  "setHealthCheckDefaults (setHealthCheckDefaults h) = setHealthCheckDefaults h"
  "setAdBlockDefaults (setAdBlockDefaults a) = setAdBlockDefaults a"
  "setStatsDefaults (setStatsDefaults t) = setStatsDefaults t"
  "setPrefetchDefaults (setPrefetchDefaults p) = setPrefetchDefaults p"
  by (simp_all add: setHealthCheckDefaults_def setAdBlockDefaults_def setStatsDefaults_def
      setPrefetchDefaults_def)

lemma flagged_idem:
  "setPingDefaults y r (setPingDefaults y r g) = setPingDefaults y r g"
  "setIPMonitorDefaults y r (setIPMonitorDefaults y r i) = setIPMonitorDefaults y r i"
  "0 < n \<Longrightarrow> setSystemDefaults n (setSystemDefaults n s) = setSystemDefaults n s"
  by (simp_all add: set_Ping set_IPMonitor setSystemDefaults_def Let_def)

text \<open>A configuration with nothing left to fill in, section by section: every field for which the setters
  have a default.\<close>

definition health_complete :: "HealthCheckConfig \<Rightarrow> bool" where
  "health_complete h \<longleftrightarrow> hc_FailureThreshold h \<noteq> 0 \<and> hc_CircuitBreakerThreshold h \<noteq> 0
     \<and> hc_CircuitBreakerTimeout h \<noteq> 0 \<and> hc_SuccessThreshold h \<noteq> 0"

definition upstream_complete :: "UpstreamConfig \<Rightarrow> bool" where
  "upstream_complete u \<longleftrightarrow> up_TimeoutMs u \<noteq> 0 \<and> up_Concurrency u \<noteq> None \<and> up_SequentialTimeout u \<noteq> None
     \<and> up_RacingDelay u \<noteq> None \<and> up_RacingMaxConcurrent u \<noteq> None
     \<and> dpo_EWMAAlpha (up_DynamicParamOptimization u) \<noteq> None
     \<and> dpo_MaxStepMs (up_DynamicParamOptimization u) \<noteq> None
     \<and> up_MaxConnections u \<noteq> None \<and> up_MaxConnections u \<noteq> Some 0 \<and> up_RecursorPort u \<noteq> 0
     \<and> up_BootstrapDNS u \<noteq> [] \<and> health_complete (up_HealthCheck u)"

definition ping_complete :: "yaml_parser \<Rightarrow> string \<Rightarrow> PingConfig \<Rightarrow> bool" where
  "ping_complete yaml_fields raw p \<longleftrightarrow> ping_Count p \<noteq> 0 \<and> ping_TimeoutMs p \<noteq> 0 \<and> ping_Concurrency p \<noteq> 0
     \<and> ping_RttCacheTtlSeconds p \<noteq> 0
     \<and> (ping_Enabled p \<or> isFieldExplicitlySet yaml_fields raw ''ping'' ''enabled'')"

definition cache_complete :: "CacheConfig \<Rightarrow> bool" where
  "cache_complete c \<longleftrightarrow> cache_FastResponseTTL c \<noteq> 0 \<and> cache_UserReturnTTL c \<noteq> 0
     \<and> cache_NegativeTTLSeconds c \<noteq> 0 \<and> cache_ErrorCacheTTL c \<noteq> 0 \<and> cache_MaxMemoryMB c \<noteq> 0
     \<and> cache_KeepExpiredEntries c \<and> cache_EvictionThreshold c \<noteq> 0 \<and> cache_EvictionBatchPercent c \<noteq> 0
     \<and> cache_MsgCacheSizeMB c \<noteq> 0 \<and> cache_DNSSECMsgCacheTTLSeconds c \<noteq> 0
     \<and> cache_SaveToDiskIntervalMinutes c \<noteq> 0"

definition adblock_complete :: "AdBlockConfig \<Rightarrow> bool" where
  "adblock_complete a \<longleftrightarrow> ad_Engine a \<noteq> '''' \<and> ad_CustomRulesFile a \<noteq> '''' \<and> ad_CustomResponseFile a \<noteq> ''''
     \<and> ad_CacheDir a \<noteq> '''' \<and> ad_UpdateIntervalHours a \<noteq> 0 \<and> ad_MaxCacheAgeHours a \<noteq> 0
     \<and> ad_MaxCacheSizeMB a \<noteq> 0 \<and> ad_BlockMode a \<noteq> '''' \<and> ad_BlockedTTL a \<noteq> 0"

definition system_complete :: "SystemConfig \<Rightarrow> bool" where
  "system_complete s \<longleftrightarrow> sys_MaxCPUCores s \<noteq> 0 \<and> sys_SortQueueWorkers s \<noteq> 0 \<and> sys_RefreshWorkers s \<noteq> 0
     \<and> sys_LogLevel s \<noteq> ''''"

definition stats_complete :: "StatsConfig \<Rightarrow> bool" where
  "stats_complete s \<longleftrightarrow> st_HotDomainsWindowHours s \<noteq> 0 \<and> st_HotDomainsBucketMinutes s \<noteq> 0
     \<and> st_HotDomainsShardCount s \<noteq> 0 \<and> st_HotDomainsMaxPerBucket s \<noteq> 0
     \<and> st_BlockedDomainsWindowHours s \<noteq> 0 \<and> st_BlockedDomainsBucketMinutes s \<noteq> 0
     \<and> st_BlockedDomainsShardCount s \<noteq> 0 \<and> st_GeneralStatsBucketMinutes s \<noteq> 0
     \<and> st_GeneralStatsRetentionDays s \<noteq> 0 \<and> st_UpstreamStatsBucketMinutes s \<noteq> 0
     \<and> st_UpstreamStatsRetentionDays s \<noteq> 0"

definition prefetch_complete :: "PrefetchConfig \<Rightarrow> bool" where
  "prefetch_complete p \<longleftrightarrow> pre_MaxRefreshDomains p \<noteq> 0 \<and> pre_MinScoreThreshold p \<noteq> 0
     \<and> pre_EligibilityTTL p \<noteq> 0 \<and> pre_StableCycleThreshold p \<noteq> 0 \<and> pre_StabilityPenaltyFactor p \<noteq> 0"

definition monitor_complete :: "yaml_parser \<Rightarrow> string \<Rightarrow> IPPoolConfig \<Rightarrow> bool" where
  "monitor_complete yaml_fields raw i \<longleftrightarrow> ipc_MaxSize i \<noteq> 0 \<and> ipc_CleanupInterval i \<noteq> 0
     \<and> ipc_T0RefreshInterval i \<noteq> 0 \<and> ipc_T1RefreshInterval i \<noteq> 0 \<and> ipc_T2RefreshInterval i \<noteq> 0
     \<and> 0 < ipc_RefCountWeight i \<and> 0 < ipc_AccessHeatWeight i
     \<and> ipc_MaxRefreshPerCycle i \<noteq> 0 \<and> ipc_RefreshConcurrency i \<noteq> 0
     \<and> (ipc_Enabled i \<or> isFieldExplicitlySet yaml_fields raw ''ip_monitor'' ''enabled'')"

definition config_complete :: "yaml_parser \<Rightarrow> string \<Rightarrow> Config \<Rightarrow> bool" where
  "config_complete yaml_fields raw c \<longleftrightarrow> dns_ListenPort (cfg_DNS c) \<noteq> 0 \<and> upstream_complete (cfg_Upstream c)
     \<and> ping_complete yaml_fields raw (cfg_Ping c) \<and> cache_complete (cfg_Cache c)
     \<and> adblock_complete (cfg_AdBlock c) \<and> system_complete (cfg_System c) \<and> stats_complete (cfg_Stats c)
     \<and> prefetch_complete (cfg_Prefetch c) \<and> monitor_complete yaml_fields raw (cfg_IPMonitor c)"

lemma dflt_id: "dflt z d x = x \<longleftrightarrow> x \<noteq> z \<or> d = z"
  by (auto simp: dflt_def)

lemma health_fixed: "setHealthCheckDefaults h = h \<longleftrightarrow> health_complete h"
  by (cases h) (simp add: setHealthCheckDefaults_def health_complete_def dflt_id)

lemma auto_max_id: "n \<noteq> 0 \<Longrightarrow> auto_max n m = m \<longleftrightarrow> m \<noteq> None \<and> m \<noteq> Some 0"
  by (auto simp: auto_max_def)

lemma upstream_fixed:
  assumes "0 < n"
  shows "(setUpstreamDefaults n u)\<lparr>up_BootstrapDNS := boot_servers (up_BootstrapDNS (setUpstreamDefaults n u)),
     up_HealthCheck := setHealthCheckDefaults (up_HealthCheck u)\<rparr> = u \<longleftrightarrow> upstream_complete u"
proof -
  obtain a b where d: "up_DynamicParamOptimization u = \<lparr>dpo_EWMAAlpha = a, dpo_MaxStepMs = b\<rparr>"
    by (cases "up_DynamicParamOptimization u")
  have "boot_servers b = b \<longleftrightarrow> b \<noteq> []" for b by (simp add: boot_servers_def)
  then show ?thesis
    using assms d
    by (cases u) (auto simp: set_Upstream Let_def upstream_complete_def dflt_id auto_max_id health_fixed)
qed

lemma ping_fixed: "setPingDefaults y raw p = p \<longleftrightarrow> ping_complete y raw p"
  by (cases p) (auto simp: set_Ping Let_def ping_complete_def dflt_id)

lemma cache_fixed: "setCacheDefaults c = c \<longleftrightarrow> cache_complete c"
proof -
  have "auto_msg mb m = m \<longleftrightarrow> m \<noteq> 0" for mb m by (auto simp: auto_msg_def Let_def split: if_splits)
  then show ?thesis by (cases c) (simp add: set_Cache Let_def cache_complete_def dflt_id conj_ac)
qed

lemma adblock_fixed: "setAdBlockDefaults a = a \<longleftrightarrow> adblock_complete a"
  by (cases a) (simp add: setAdBlockDefaults_def adblock_complete_def dflt_id conj_ac)

lemma system_fixed: "0 < n \<Longrightarrow> setSystemDefaults n s = s \<longleftrightarrow> system_complete s"
  by (cases s) (auto simp: setSystemDefaults_def Let_def system_complete_def dflt_id)

lemma stats_fixed: "setStatsDefaults s = s \<longleftrightarrow> stats_complete s"
  by (cases s) (simp add: setStatsDefaults_def stats_complete_def dflt_id)

lemma prefetch_fixed: "setPrefetchDefaults p = p \<longleftrightarrow> prefetch_complete p"
  by (cases p) (simp add: setPrefetchDefaults_def prefetch_complete_def dflt_id)

lemma monitor_fixed: "setIPMonitorDefaults y raw i = i \<longleftrightarrow> monitor_complete y raw i"
  by (cases i) (auto simp: set_IPMonitor Let_def monitor_complete_def dflt_id not_le)

lemma setDefaultValues_fixed:
  assumes "0 < n"
  shows "setDefaultValues y n cfg raw = cfg \<longleftrightarrow> config_complete y raw cfg"
proof -
  have d: "d\<lparr>dns_ListenPort := dflt 0 53 (dns_ListenPort d)\<rparr> = d \<longleftrightarrow> dns_ListenPort d \<noteq> 0" for d :: DNSConfig
    by (cases d) (simp add: dflt_id)
  have h: "up_HealthCheck (setUpstreamDefaults n u) = up_HealthCheck u" for u
    by (simp add: set_Upstream Let_def)
  show ?thesis
    by (cases cfg) (simp add: set_All Let_def config_complete_def d h upstream_fixed[OF assms] ping_fixed cache_fixed
        adblock_fixed system_fixed[OF assms] stats_fixed prefetch_fixed monitor_fixed conj_ac)
qed

lemma setDefaultValues_idem:
  assumes "0 < n"
  shows "setDefaultValues y n (setDefaultValues y n cfg raw) raw = setDefaultValues y n cfg raw"
proof -
  have "setUpstreamDefaults n (u\<lparr>up_BootstrapDNS := b, up_HealthCheck := h\<rparr>) =
      (setUpstreamDefaults n u)\<lparr>up_BootstrapDNS := b, up_HealthCheck := h\<rparr>" for u b h
    by (simp add: set_Upstream Let_def split del: if_split)
  then show ?thesis
    using assms
    by (simp add: set_All Let_def upstream_idem cache_idem others_idem flagged_idem)
qed

section \<open>Properties\<close>

text \<open>C20: On a machine with at least one CPU, filling in the defaults of any configuration leaves none
  of the fields that have a default empty, zero or unset; a configuration that has none to begin with,
  and only such a one, comes back unchanged; so doing it again changes nothing.\<close>

theorem setDefaultValues_complete:
  assumes "0 < numCPU"
  shows "config_complete y raw (setDefaultValues y numCPU cfg raw)
    \<and> (setDefaultValues y numCPU cfg raw = cfg \<longleftrightarrow> config_complete y raw cfg)
    \<and> setDefaultValues y numCPU (setDefaultValues y numCPU cfg raw) raw = setDefaultValues y numCPU cfg raw"
  using setDefaultValues_idem[OF assms] setDefaultValues_fixed[OF assms] by blast

theorem setDefaultValues_complete_witness:
  "\<forall>cfg. config_complete (\<lambda>_. None) '''' (setDefaultValues (\<lambda>_. None) 4 cfg '''')"
  using setDefaultValues_complete[of 4 "\<lambda>_. None" "''''"] by simp

text \<open>After the defaults are filled in, expired entries are always kept: a configuration that
  sets \<open>keep_expired_entries: false\<close> explicitly is overridden, so the branches of the cache that
  the flag turns off are unreachable with a loaded configuration.\<close>

theorem setCacheDefaults_overrides_keep_expired:
  "cache_KeepExpiredEntries (cfg_Cache (setDefaultValues y numCPU cfg raw))
   \<and> cache_KeepExpiredEntries (setCacheDefaults (c\<lparr>cache_KeepExpiredEntries := False\<rparr>))"
  by (simp add: set_All set_Cache Let_def)

end
