(* ===== verification/Go_Heap.thy ===== *)
theory Go_Heap
  imports Prelude
begin

text \<open>Go's \<open>container/heap\<close> on a slice: \<open>up\<close>, \<open>down\<close>, \<open>Init\<close>, \<open>Push\<close>, \<open>Pop\<close>, over the \<open>Less\<close> of
  the slice's type. The program keeps three heaps with it: the expiry index of the cache, and the
  top-k selections of the prefetcher and of the blocked-domain statistics. The laws are proved
  once, for every \<open>Less\<close> that is a strict weak order.\<close>

definition heap_parent :: "nat \<Rightarrow> nat" where "heap_parent j = (j - 1) div 2"

definition go_swap :: "nat \<Rightarrow> nat \<Rightarrow> 'a list \<Rightarrow> 'a list" where
  "go_swap i j h = h[i := h ! j, j := h ! i]"

function heap_up :: "('a \<Rightarrow> 'a \<Rightarrow> bool) \<Rightarrow> 'a list \<Rightarrow> nat \<Rightarrow> 'a list" where
  "heap_up lt h j =
     (let i = heap_parent j in
      if i = j \<or> \<not> lt (h ! j) (h ! i) then h else heap_up lt (go_swap i j h) i)"
  by pat_completeness auto
termination by (relation "measure (\<lambda>(lt, h, j). j)") (auto simp: heap_parent_def)

function heap_down :: "('a \<Rightarrow> 'a \<Rightarrow> bool) \<Rightarrow> 'a list \<Rightarrow> nat \<Rightarrow> nat \<Rightarrow> 'a list" where
  "heap_down lt h i n =
     (let j1 = 2 * i + 1 in
      if n \<le> j1 then h
      else (let j = (if j1 + 1 < n \<and> lt (h ! (j1 + 1)) (h ! j1) then j1 + 1 else j1) in
            if \<not> lt (h ! j) (h ! i) then h else heap_down lt (go_swap i j h) j n))"
  by pat_completeness auto
termination by (relation "measure (\<lambda>(lt, h, i, n). n - i)") (auto simp: Let_def split: if_splits)

declare heap_up.simps [simp del] heap_down.simps [simp del]

definition heap_Push :: "('a \<Rightarrow> 'a \<Rightarrow> bool) \<Rightarrow> 'a \<Rightarrow> 'a list \<Rightarrow> 'a list" where
  "heap_Push lt x h = heap_up lt (h @ [x]) (length h)"

definition heap_Pop :: "('a \<Rightarrow> 'a \<Rightarrow> bool) \<Rightarrow> 'a list \<Rightarrow> 'a \<times> 'a list" where
  "heap_Pop lt h = (let n = length h - 1; h1 = heap_down lt (go_swap 0 n h) 0 n in (last h1, butlast h1))"

definition heap_Init :: "('a \<Rightarrow> 'a \<Rightarrow> bool) \<Rightarrow> 'a list \<Rightarrow> 'a list" where
  "heap_Init lt h = foldr (\<lambda>i h. heap_down lt h i (length h)) [0 ..< length h div 2] h"

text \<open>No element is less than its parent.\<close>

definition heap_ok :: "('a \<Rightarrow> 'a \<Rightarrow> bool) \<Rightarrow> 'a list \<Rightarrow> bool" where
  "heap_ok lt h \<longleftrightarrow> (\<forall>j < length h. 0 < j \<longrightarrow> \<not> lt (h ! j) (h ! heap_parent j))"

section \<open>Permutation\<close>

lemma length_go_swap [simp]: "length (go_swap i j h) = length h"
  by (simp add: go_swap_def)

lemma mset_go_swap: "i < length h \<Longrightarrow> j < length h \<Longrightarrow> mset (go_swap i j h) = mset h"
  unfolding go_swap_def by (rule mset_swap)

lemma nth_go_swap:
  "i < length h \<Longrightarrow> j < length h \<Longrightarrow>
   go_swap i j h ! k = (if k = j then h ! i else if k = i then h ! j else h ! k)"
  by (cases "k = j"; cases "k = i"; simp add: go_swap_def)

lemma length_heap_up [simp]: "length (heap_up lt h j) = length h"
  by (induction lt h j rule: heap_up.induct) (simp add: heap_up.simps[of _ _ _] Let_def)

lemma mset_heap_up: "j < length h \<Longrightarrow> mset (heap_up lt h j) = mset h"
proof (induction lt h j rule: heap_up.induct)
  case (1 lt h j)
  have "heap_parent j < length h" using 1(2) by (simp add: heap_parent_def)
  then show ?case
    using 1 by (subst heap_up.simps) (simp add: Let_def mset_go_swap)
qed

lemma length_heap_down [simp]: "length (heap_down lt h i n) = length h"
  by (induction lt h i n rule: heap_down.induct) (subst heap_down.simps, simp add: Let_def)

lemma mset_heap_down: "n \<le> length h \<Longrightarrow> mset (heap_down lt h i n) = mset h"
proof (induction lt h i n rule: heap_down.induct)
  case (1 lt h i n)
  then show ?case
    by (subst heap_down.simps) (auto simp: Let_def mset_go_swap)
qed

lemma heap_down_outside: "n \<le> length h \<Longrightarrow> n \<le> k \<Longrightarrow> heap_down lt h i n ! k = h ! k"
proof (induction lt h i n rule: heap_down.induct)
  case (1 lt h i n)
  then show ?case
    by (subst heap_down.simps) (auto simp: Let_def nth_go_swap)
qed

section \<open>Heap order\<close>

definition heap_from :: "('a \<Rightarrow> 'a \<Rightarrow> bool) \<Rightarrow> nat \<Rightarrow> nat \<Rightarrow> 'a list \<Rightarrow> bool" where
  "heap_from lt k n h \<longleftrightarrow>
     (\<forall>j < n. 0 < j \<longrightarrow> k \<le> heap_parent j \<longrightarrow> \<not> lt (h ! j) (h ! heap_parent j))"

lemma heap_ok_from: "heap_ok lt h = heap_from lt 0 (length h) h"
  by (simp add: heap_ok_def heap_from_def)

lemma heap_child: "0 < j \<Longrightarrow> heap_parent j = i \<longleftrightarrow> j = 2 * i + 1 \<or> j = 2 * i + 2"
  unfolding heap_parent_def by presburger

lemma heap_parent_less: "0 < j \<Longrightarrow> heap_parent j < j"
  by (simp add: heap_parent_def)

context weak_order
begin

lemma lt_irrefl: "\<not> lt a a"
  using less_asym by blast

text \<open>\<open>down\<close> from \<open>i\<close>: order holds below \<open>k\<close> except between \<open>i\<close> and its children, and those are
  not less than the parent of \<open>i\<close>.\<close>

lemma heap_down_from:
  assumes "n \<le> length h" "i < n"
    "\<And>j. j < n \<Longrightarrow> 0 < j \<Longrightarrow> k \<le> heap_parent j \<Longrightarrow> heap_parent j \<noteq> i \<Longrightarrow> \<not> lt (h ! j) (h ! heap_parent j)"
    "\<And>j. j < n \<Longrightarrow> 0 < j \<Longrightarrow> heap_parent j = i \<Longrightarrow> 0 < i \<Longrightarrow> k \<le> heap_parent i \<Longrightarrow> \<not> lt (h ! j) (h ! heap_parent i)"
  shows "heap_from lt k n (heap_down lt h i n)"
  using assms
proof (induction "n - i" arbitrary: h i rule: less_induct)
  case less
  let ?j1 = "2 * i + 1"
  show ?case
  proof (cases "n \<le> ?j1")
    case True
    then have "heap_down lt h i n = h" by (simp add: heap_down.simps[of lt h i n])
    moreover have "heap_parent j \<noteq> i" if "j < n" "0 < j" for j
      using that True heap_child[of j i] by auto
    ultimately show ?thesis using less.prems(3) by (simp add: heap_from_def)
  next
    case False
    define j where "j = (if ?j1 + 1 < n \<and> lt (h ! (?j1 + 1)) (h ! ?j1) then ?j1 + 1 else ?j1)"
    have j: "j < n" "0 < j" "heap_parent j = i" "i < j"
      using False by (auto simp: j_def heap_parent_def)
    have min: "\<not> lt (h ! c) (h ! j)" if "c < n" "0 < c" "heap_parent c = i" for c
    proof -
      have "c = ?j1 \<or> c = ?j1 + 1" using that heap_child[of c i] by simp
      then show ?thesis using that(1) lt_irrefl less_asym by (auto simp: j_def)
    qed
    have step: "heap_down lt h i n = (if \<not> lt (h ! j) (h ! i) then h else heap_down lt (go_swap i j h) j n)"
      using False by (subst heap_down.simps) (simp only: Let_def j_def[symmetric] if_False)
    show ?thesis
    proof (cases "lt (h ! j) (h ! i)")
      case False
      then have "heap_down lt h i n = h" using step by simp
      moreover have "\<not> lt (h ! c) (h ! i)" if "c < n" "0 < c" "heap_parent c = i" for c
        using min[OF that] False less_ntrans by blast
      ultimately show ?thesis using less.prems(3) by (auto simp: heap_from_def)
    next
      case True
      let ?h = "go_swap i j h"
      have down: "heap_down lt h i n = heap_down lt ?h j n"
        using step True by simp
      have sw: "?h ! x = (if x = j then h ! i else if x = i then h ! j else h ! x)" for x
        using j less.prems(1,2) by (simp add: nth_go_swap)
      show ?thesis unfolding down
      proof (rule less.hyps)
        show "n - j < n - i" using j by simp
        show "n \<le> length ?h" "j < n" using less.prems(1) j by simp_all
        fix c assume c: "c < n" "0 < c"
        { assume "k \<le> heap_parent c" "heap_parent c \<noteq> j"
          note pc = this
          consider "c = j" | "c = i" | "c \<noteq> j" "c \<noteq> i" by blast
          then show "\<not> lt (?h ! c) (?h ! heap_parent c)"
          proof cases
            case 1
            then show ?thesis using True less_asym j by (simp add: sw)
          next
            case 2
            then have "heap_parent i < i" using heap_parent_less c by simp
            then show ?thesis using 2 less.prems(4)[OF j(1,2,3)] c pc j by (simp add: sw)
          next
            case 3
            then show ?thesis
              using min[OF c] less.prems(3)[OF c pc(1)] pc by (cases "heap_parent c = i") (simp_all add: sw)
          qed }
        { assume "heap_parent c = j" "0 < j" "k \<le> heap_parent j"
          then show "\<not> lt (?h ! c) (?h ! heap_parent j)"
            using less.prems(3)[OF c] j heap_parent_less[OF c(2)] by (auto simp: sw) }
      qed
    qed
  qed
qed

lemma heap_up_ok:
  assumes "j < length h"
    "\<And>c. c < length h \<Longrightarrow> 0 < c \<Longrightarrow> c \<noteq> j \<Longrightarrow> \<not> lt (h ! c) (h ! heap_parent c)"
    "\<And>c. c < length h \<Longrightarrow> 0 < c \<Longrightarrow> heap_parent c = j \<Longrightarrow> 0 < j \<Longrightarrow> \<not> lt (h ! c) (h ! heap_parent j)"
  shows "heap_ok lt (heap_up lt h j)"
  using assms
proof (induction j arbitrary: h rule: less_induct)
  case (less j)
  let ?i = "heap_parent j"
  show ?case
  proof (cases "?i = j \<or> \<not> lt (h ! j) (h ! ?i)")
    case True
    then have "heap_up lt h j = h" by (simp add: heap_up.simps[of lt h j] Let_def)
    moreover have "0 < j \<Longrightarrow> ?i \<noteq> j" using heap_parent_less[of j] by simp
    ultimately show ?thesis using True less.prems(2) by (auto simp: heap_ok_def)
  next
    case False
    then have j: "0 < j" "?i < j" by (auto simp: heap_parent_def)
    let ?h = "go_swap ?i j h"
    have up: "heap_up lt h j = heap_up lt ?h ?i"
      using False by (simp add: heap_up.simps[of lt h j] Let_def)
    have sw: "?h ! x = (if x = j then h ! ?i else if x = ?i then h ! j else h ! x)" for x
      using j less.prems(1) by (simp add: nth_go_swap)
    show ?thesis unfolding up
    proof (rule less.IH)
      show "?i < j" "?i < length ?h" using j less.prems(1) by simp_all
      fix c assume "c < length ?h" "0 < c"
      then have c: "c < length h" "0 < c" by simp_all
      have sib: "\<not> lt (h ! c) (h ! j)" if "heap_parent c = ?i" "c \<noteq> j"
      proof -
        have "\<not> lt (h ! c) (h ! ?i)" using less.prems(2)[OF c that(2)] that(1) by simp
        moreover have "\<not> lt (h ! ?i) (h ! j)" using False less_asym by blast
        ultimately show ?thesis using less_ntrans by blast
      qed
      { assume "c \<noteq> ?i"
        show "\<not> lt (?h ! c) (?h ! heap_parent c)"
        proof (cases "c = j")
          case True
          then show ?thesis using False less_asym j by (auto simp: sw)
        next
          case cj: False
          then have hc: "?h ! c = h ! c" using \<open>c \<noteq> ?i\<close> by (simp add: sw)
          consider "heap_parent c = j" | "heap_parent c = ?i" | "heap_parent c \<noteq> j" "heap_parent c \<noteq> ?i"
            by blast
          then show ?thesis
          proof cases
            case 1
            then show ?thesis using less.prems(3)[OF c] j hc by (simp add: sw)
          next
            case 2
            then have "?h ! heap_parent c = h ! j" using j by (simp add: sw)
            then show ?thesis using sib[OF 2 cj] hc by simp
          next
            case 3
            then show ?thesis using less.prems(2)[OF c cj] hc by (simp add: sw)
          qed
        qed }
      { assume p: "heap_parent c = ?i" "0 < ?i"
        have pi: "heap_parent ?i < ?i" using heap_parent_less[OF p(2)] .
        have up1: "\<not> lt (h ! ?i) (h ! heap_parent ?i)"
          using less.prems(2)[of ?i] p(2) j less.prems(1) by simp
        have "\<not> lt (h ! c) (h ! heap_parent ?i)" if "c \<noteq> j"
          using less.prems(2)[OF c that] p(1) up1 less_ntrans by metis
        moreover have "?h ! heap_parent ?i = h ! heap_parent ?i" using pi j by (simp add: sw)
        moreover have "?h ! c = (if c = j then h ! ?i else h ! c)"
          using heap_parent_less[OF c(2)] p by (simp add: sw)
        ultimately show "\<not> lt (?h ! c) (?h ! heap_parent ?i)" using up1 by auto }
    qed
  qed
qed

theorem heap_Push_ok: "heap_ok lt h \<Longrightarrow> heap_ok lt (heap_Push lt x h)"
  unfolding heap_Push_def
proof (rule heap_up_ok)
  assume h: "heap_ok lt h"
  show "length h < length (h @ [x])" by simp
  fix c assume c: "c < length (h @ [x])" "0 < c"
  { assume "c \<noteq> length h"
    then show "\<not> lt ((h @ [x]) ! c) ((h @ [x]) ! heap_parent c)"
      using h c heap_parent_less[OF c(2)] by (simp add: heap_ok_def nth_append) }
  { assume "heap_parent c = length h"
    then show "\<not> lt ((h @ [x]) ! c) ((h @ [x]) ! heap_parent (length h))"
      using c heap_parent_less[OF c(2)] by simp }
qed

text \<open>The root of a heap is a minimum.\<close>

lemma heap_root_min: "heap_ok lt h \<Longrightarrow> j < length h \<Longrightarrow> \<not> lt (h ! j) (h ! 0)"
proof (induction j rule: less_induct)
  case (less j)
  show ?case
  proof (cases "j = 0")
    case True
    then show ?thesis by (simp add: lt_irrefl)
  next
    case False
    then have p: "heap_parent j < j" by (simp add: heap_parent_less)
    then have "\<not> lt (h ! heap_parent j) (h ! 0)" using less by simp
    moreover have "\<not> lt (h ! j) (h ! heap_parent j)" using less.prems False by (simp add: heap_ok_def)
    ultimately show ?thesis using less_ntrans by blast
  qed
qed

theorem heap_Pop_ok:
  assumes "heap_ok lt h" "h \<noteq> []" "heap_Pop lt h = (x, h')"
  shows "x = h ! 0" "mset h = add_mset x (mset h')" "heap_ok lt h'"
    "\<And>y. y \<in> set h' \<Longrightarrow> \<not> lt y x"
proof -
  let ?n = "length h - 1"
  let ?s = "go_swap 0 ?n h"
  let ?d = "heap_down lt ?s 0 ?n"
  have n: "?n < length h" "0 < length h" using assms(2) by auto
  have sw: "?s ! c = (if c = ?n then h ! 0 else if c = 0 then h ! ?n else h ! c)" for c
    using n by (simp add: nth_go_swap)
  have xh: "x = last ?d" "h' = butlast ?d" using assms(3) by (simp_all add: heap_Pop_def Let_def)
  have "?d \<noteq> []" using n by (metis length_heap_down length_go_swap length_greater_0_conv)
  then have x: "x = ?d ! ?n" using xh by (simp add: last_conv_nth)
  moreover have "?d ! ?n = ?s ! ?n" by (rule heap_down_outside) simp_all
  moreover have "?s ! ?n = h ! 0" using sw[of ?n] by simp
  ultimately show x0: "x = h ! 0" by simp
  have "mset ?d = mset h" using n by (simp add: mset_heap_down mset_go_swap)
  moreover have "?d = h' @ [x]" using xh \<open>?d \<noteq> []\<close> by simp
  ultimately show m: "mset h = add_mset x (mset h')" by (metis mset_append mset.simps add_mset_add_single)
  show "heap_ok lt h'"
  proof (cases "?n = 0")
    case True
    then have "h' = []" using xh by (metis length_butlast length_heap_down length_go_swap length_0_conv)
    then show ?thesis by (simp add: heap_ok_def)
  next
    case False
    have "heap_from lt 0 ?n ?d"
    proof (rule heap_down_from)
      fix j assume "j < ?n" "0 < j" "heap_parent j \<noteq> 0"
      note j = this
      have "?s ! j = h ! j" "?s ! heap_parent j = h ! heap_parent j"
        using sw[of j] sw[of "heap_parent j"] j heap_parent_less[of j] by auto
      then show "\<not> lt (?s ! j) (?s ! heap_parent j)"
        using assms(1) j by (simp add: heap_ok_def)
    qed (use n False in auto)
    moreover have l: "length h' = ?n" using xh by simp
    moreover have nth: "h' ! j = ?d ! j" if "j < ?n" for j using that xh by (simp add: nth_butlast)
    ultimately have "\<not> lt (h' ! j) (h' ! heap_parent j)" if "j < ?n" "0 < j" for j
      using that heap_parent_less[of j] nth[of j] nth[of "heap_parent j"] by (simp add: heap_from_def)
    then show ?thesis using l by (simp add: heap_ok_def)
  qed
  show "\<not> lt y x" if "y \<in> set h'" for y
  proof -
    have "y \<in> set h" using that m by (metis insertI2 set_mset_add_mset_insert set_mset_mset)
    then obtain j where "j < length h" "y = h ! j" by (auto simp: in_set_conv_nth)
    then show ?thesis using heap_root_min[OF assms(1)] x0 by simp
  qed
qed

theorem heap_Init_ok: "heap_ok lt (heap_Init lt h)"
proof -
  have step: "heap_from lt (Suc i) n h \<Longrightarrow> i < n \<Longrightarrow> n = length h \<Longrightarrow> heap_from lt i n (heap_down lt h i n)" for i n h
  proof (rule heap_down_from)
    fix j assume h: "heap_from lt (Suc i) n h" and j: "j < n" "0 < j"
    { assume "i \<le> heap_parent j" "heap_parent j \<noteq> i"
      then show "\<not> lt (h ! j) (h ! heap_parent j)" using h j by (simp add: heap_from_def) }
    { assume "0 < i" "i \<le> heap_parent i"
      then show "\<not> lt (h ! j) (h ! heap_parent i)" using heap_parent_less[of i] by simp }
  qed simp_all
  have "m \<le> length h \<Longrightarrow> heap_from lt m (length h) h \<Longrightarrow>
      heap_from lt 0 (length h) (foldr (\<lambda>i h. heap_down lt h i (length h)) [0 ..< m] h)
      \<and> length (foldr (\<lambda>i h. heap_down lt h i (length h)) [0 ..< m] h) = length h" for m h
  proof (induction m arbitrary: h)
    case (Suc m)
    then show ?case using step[of m "length h" h] Suc.IH[of "heap_down lt h m (length h)"] by simp
  qed simp
  moreover have "heap_from lt (length h div 2) (length h) h"
    by (auto simp: heap_from_def heap_parent_def)
  ultimately show ?thesis unfolding heap_Init_def heap_ok_from by simp
qed

end

lemma heap_Push_mset: "mset (heap_Push lt x h) = add_mset x (mset h)"
  by (simp add: heap_Push_def mset_heap_up)

lemma heap_Init_mset: "mset (heap_Init lt h) = mset h"
proof -
  have "mset (foldr (\<lambda>i h. heap_down lt h i (length h)) is h) = mset h" for "is"
    by (induction "is") (simp_all add: mset_heap_down)
  then show ?thesis by (simp add: heap_Init_def)
qed

lemma heap_Pop_length: "h \<noteq> [] \<Longrightarrow> length (snd (heap_Pop lt h)) = length h - 1"
  by (simp add: heap_Pop_def Let_def)

end
