(* ===== verification/Cache_Store.thy ===== *)
theory Cache_Store
  imports Sharded_Cache Sharded_Lru Cache_Entries Config Go_Heap
begin

text \<open>\<open>cache/cache.go\<close> and the files that extend \<open>Cache\<close> with its stores: raw answers
  (\<open>cache_raw.go\<close>), sorted answers and sorting tasks (\<open>cache_sorted.go\<close>), errors
  (\<open>cache_error.go\<close>), DNSSEC messages (\<open>cache_dnssec.go\<close>, the end of \<open>cache_persistence.go\<close>), the
  ad-blocking verdicts (\<open>adblock_cache.go\<close>) and the counters (\<open>cache_stats.go\<close>). Methods take the
  readings of the clock they make as arguments. Calls of the IP pool updater are returned as
  values. A \<open>SortingState\<close> is shared by pointer between the map and the caller, so states live in a
  store of their own; closing a channel twice would panic, which is \<open>None\<close>.\<close>

section \<open>State\<close>

record expireEntry =
  ee_key :: string
  ee_expiry :: int
  ee_queryVersion :: int

datatype pool_call =
    UpdateDomainIPs "string list" "string list" string
  | RecordAccess string string

record Cache =
  c_config :: CacheConfig
  c_maxEntries :: int
  c_rawCache :: "RawCacheEntry ShardedCache"
  c_sortedCache :: "SortedCacheEntry ShardedLRUCache"
  c_sortingState :: "(string \<times> nat) list"
  c_states :: "nat \<rightharpoonup> SortingState"
  c_nextState :: nat
  c_errorCache :: "ErrorCacheEntry LRUCache"
  c_blockedCache :: "(string \<times> BlockedCacheEntry) list"
  c_allowedCache :: "(string \<times> AllowedCacheEntry) list"
  c_msgCache :: "DNSSECCacheEntry LRUCache"
  c_prefetcher :: "(string \<Rightarrow> bool) option"
  c_hasPool :: bool
  c_hits :: int
  c_misses :: int
  c_evictions :: int
  c_lastCleanupTime :: instant
  c_lastCleanupCount :: int
  c_lastCleanupDuration :: duration
  c_expiredHeap :: "expireEntry list"
  c_addHeapChan :: "expireEntry list"
  c_lastSavedDirty :: "64 word"
  c_heapChannelFullCount :: int
  c_actualExpiredCount :: int
  c_staleHeapCount :: int

definition heap_chan_cap :: nat where "heap_chan_cap = 10000"

definition NewCache :: "CacheConfig \<Rightarrow> Cache" where
  "NewCache cfg =
     (let maxEntries = CalculateMaxEntries cfg;
          msgCacheEntries = (if 0 < cache_MsgCacheSizeMB cfg
            then max (go_div (cache_MsgCacheSizeMB cfg * 1024 * 1024) 2048) 10 else 0)
      in \<lparr>c_config = cfg, c_maxEntries = maxEntries,
          c_rawCache = NewShardedCache maxEntries 64,
          c_sortedCache = ShardedLRUCache_SetOnEvict True (NewShardedLRUCache maxEntries 64),
          c_sortingState = [], c_states = Map.empty, c_nextState = 0,
          c_errorCache = NewLRUCache maxEntries,
          c_blockedCache = [], c_allowedCache = [],
          c_msgCache = NewLRUCache msgCacheEntries,
          c_prefetcher = None, c_hasPool = False, c_hits = 0, c_misses = 0, c_evictions = 0,
          c_lastCleanupTime = 0, c_lastCleanupCount = 0, c_lastCleanupDuration = 0,
          c_expiredHeap = [], c_addHeapChan = [], c_lastSavedDirty = 0,
          c_heapChannelFullCount = 0, c_actualExpiredCount = 0, c_staleHeapCount = 0\<rparr>)"

text \<open>The eviction callback installed by \<open>NewCache\<close>.\<close>

definition sorted_onEvict :: "bool \<Rightarrow> string \<Rightarrow> SortedCacheEntry \<Rightarrow> pool_call list" where
  "sorted_onEvict hasPool key entry =
     (if hasPool then
        (let (domain, _) = parseCacheKey key
         in if domain \<noteq> '''' then [UpdateDomainIPs (sorted_IPs entry) [] domain] else [])
      else [])"

definition SetPrefetcher :: "(string \<Rightarrow> bool) \<Rightarrow> Cache \<Rightarrow> Cache" where
  "SetPrefetcher p c = c\<lparr>c_prefetcher := Some p\<rparr>"

definition SetIPPoolUpdater :: "Cache \<Rightarrow> Cache" where
  "SetIPPoolUpdater c = c\<lparr>c_hasPool := True\<rparr>"

section \<open>Raw answers\<close>

definition addToExpiredHeap :: "string \<Rightarrow> int \<Rightarrow> int \<Rightarrow> Cache \<Rightarrow> Cache" where
  "addToExpiredHeap key expiryTime queryVersion c =
     (let entry = \<lparr>ee_key = key, ee_expiry = expiryTime, ee_queryVersion = queryVersion\<rparr>
      in if length (c_addHeapChan c) < heap_chan_cap
         then c\<lparr>c_addHeapChan := c_addHeapChan c @ [entry]\<rparr>
         else c\<lparr>c_heapChannelFullCount := c_heapChannelFullCount c + 1\<rparr>)"

definition calculateEffectiveTTL :: "CacheConfig \<Rightarrow> 32 word \<Rightarrow> 32 word" where
  "calculateEffectiveTTL cfg upstreamTTL =
     (let e1 = (if 0 < cache_MinTTLSeconds cfg \<and> upstreamTTL < word_of_int (cache_MinTTLSeconds cfg)
                then word_of_int (cache_MinTTLSeconds cfg) else upstreamTTL)
      in if 0 < cache_MaxTTLSeconds cfg \<and> word_of_int (cache_MaxTTLSeconds cfg) < e1
         then word_of_int (cache_MaxTTLSeconds cfg) else e1)"

definition GetRaw :: "string \<Rightarrow> qtype \<Rightarrow> Cache \<Rightarrow> RawCacheEntry option \<times> Cache" where
  "GetRaw domain qt c =
     (let (v, rc) = ShardedCache_Get (cacheKey domain qt) (c_rawCache c)
      in (v, c\<lparr>c_rawCache := rc\<rparr>))"

definition unix :: "instant \<Rightarrow> int" where "unix t = t div second"

text \<open>\<open>t_acq\<close> and \<open>t_exp\<close> are the two readings of the clock inside a set.\<close>

definition SetRawWithDNSSECAndVersion :: "instant \<Rightarrow> instant \<Rightarrow> string \<Rightarrow> qtype \<Rightarrow> string list \<Rightarrow>
    string list \<Rightarrow> 32 word \<Rightarrow> bool \<Rightarrow> int \<Rightarrow> Cache \<Rightarrow> Cache" where
  "SetRawWithDNSSECAndVersion t_acq t_exp domain qt ips cnames upstreamTTL authData queryVersion c =
     (let key = cacheKey domain qt;
          effTTL = calculateEffectiveTTL (c_config c) upstreamTTL;
          entry = \<lparr>raw_Records = [], raw_IPs = ips, raw_CNAMEs = cnames,
                   raw_UpstreamTTL = upstreamTTL, raw_EffectiveTTL = effTTL,
                   raw_AcquisitionTime = t_acq, raw_AuthenticatedData = authData,
                   raw_QueryVersion = queryVersion, raw_gracePeriod = 0\<rparr>;
          c1 = c\<lparr>c_rawCache := ShardedCache_Set key entry (c_rawCache c)\<rparr>
      in addToExpiredHeap key (unix t_exp + uint effTTL) queryVersion c1)"

definition SetRawWithDNSSEC :: "instant \<Rightarrow> instant \<Rightarrow> instant \<Rightarrow> string \<Rightarrow> qtype \<Rightarrow> string list \<Rightarrow>
    string list \<Rightarrow> 32 word \<Rightarrow> bool \<Rightarrow> Cache \<Rightarrow> Cache" where
  "SetRawWithDNSSEC t_ver t_acq t_exp domain qt ips cnames upstreamTTL authData c =
     (let key = cacheKey domain qt;
          effTTL = calculateEffectiveTTL (c_config c) upstreamTTL;
          queryVersion = t_ver;
          entry = \<lparr>raw_Records = [], raw_IPs = ips, raw_CNAMEs = cnames,
                   raw_UpstreamTTL = upstreamTTL, raw_EffectiveTTL = effTTL,
                   raw_AcquisitionTime = t_acq, raw_AuthenticatedData = authData,
                   raw_QueryVersion = queryVersion, raw_gracePeriod = 0\<rparr>;
          c1 = c\<lparr>c_rawCache := ShardedCache_Set key entry (c_rawCache c)\<rparr>
      in addToExpiredHeap key (unix t_exp + uint effTTL) queryVersion c1)"

definition SetRaw :: "instant \<Rightarrow> instant \<Rightarrow> instant \<Rightarrow> string \<Rightarrow> qtype \<Rightarrow> string list \<Rightarrow> string list \<Rightarrow>
    32 word \<Rightarrow> Cache \<Rightarrow> Cache" where
  "SetRaw t_ver t_acq t_exp domain qt ips cnames upstreamTTL c =
     SetRawWithDNSSEC t_ver t_acq t_exp domain qt ips cnames upstreamTTL False c"

definition SetRawWithVersion :: "instant \<Rightarrow> instant \<Rightarrow> string \<Rightarrow> qtype \<Rightarrow> string list \<Rightarrow>
    string list \<Rightarrow> 32 word \<Rightarrow> int \<Rightarrow> Cache \<Rightarrow> Cache" where
  "SetRawWithVersion t_acq t_exp domain qt ips cnames upstreamTTL queryVersion c =
     SetRawWithDNSSECAndVersion t_acq t_exp domain qt ips cnames upstreamTTL False queryVersion c"

definition SetRawRecordsWithDNSSECAndVersion :: "instant \<Rightarrow> instant \<Rightarrow> string \<Rightarrow> qtype \<Rightarrow>
    dnsRR list \<Rightarrow> string list \<Rightarrow> 32 word \<Rightarrow> bool \<Rightarrow> int \<Rightarrow> Cache \<Rightarrow> Cache" where
  "SetRawRecordsWithDNSSECAndVersion t_acq t_exp domain qt records cnames upstreamTTL authData queryVersion c =
     (let ips = extractIPsFromRecords records;
          key = cacheKey domain qt;
          effTTL = calculateEffectiveTTL (c_config c) upstreamTTL;
          entry = \<lparr>raw_Records = records, raw_IPs = ips, raw_CNAMEs = cnames,
                   raw_UpstreamTTL = upstreamTTL, raw_EffectiveTTL = effTTL,
                   raw_AcquisitionTime = t_acq, raw_AuthenticatedData = authData,
                   raw_QueryVersion = queryVersion, raw_gracePeriod = 0\<rparr>;
          c1 = c\<lparr>c_rawCache := ShardedCache_Set key entry (c_rawCache c)\<rparr>
      in addToExpiredHeap key (unix t_exp + uint effTTL) queryVersion c1)"

definition SetRawRecordsWithDNSSEC :: "instant \<Rightarrow> instant \<Rightarrow> instant \<Rightarrow> string \<Rightarrow> qtype \<Rightarrow>
    dnsRR list \<Rightarrow> string list \<Rightarrow> 32 word \<Rightarrow> bool \<Rightarrow> Cache \<Rightarrow> Cache" where
  "SetRawRecordsWithDNSSEC t_ver t_acq t_exp domain qt records cnames upstreamTTL authData c =
     (let ips = extractIPsFromRecords records;
          key = cacheKey domain qt;
          effTTL = calculateEffectiveTTL (c_config c) upstreamTTL;
          queryVersion = t_ver;
          entry = \<lparr>raw_Records = records, raw_IPs = ips, raw_CNAMEs = cnames,
                   raw_UpstreamTTL = upstreamTTL, raw_EffectiveTTL = effTTL,
                   raw_AcquisitionTime = t_acq, raw_AuthenticatedData = authData,
                   raw_QueryVersion = queryVersion, raw_gracePeriod = 0\<rparr>;
          c1 = c\<lparr>c_rawCache := ShardedCache_Set key entry (c_rawCache c)\<rparr>
      in addToExpiredHeap key (unix t_exp + uint effTTL) queryVersion c1)"

definition SetRawRecords :: "instant \<Rightarrow> instant \<Rightarrow> instant \<Rightarrow> string \<Rightarrow> qtype \<Rightarrow> dnsRR list \<Rightarrow>
    string list \<Rightarrow> 32 word \<Rightarrow> Cache \<Rightarrow> Cache" where
  "SetRawRecords t_ver t_acq t_exp domain qt records cnames upstreamTTL c =
     SetRawRecordsWithDNSSEC t_ver t_acq t_exp domain qt records cnames upstreamTTL False c"

definition SetRawRecordsWithVersion :: "instant \<Rightarrow> instant \<Rightarrow> string \<Rightarrow> qtype \<Rightarrow> dnsRR list \<Rightarrow>
    string list \<Rightarrow> 32 word \<Rightarrow> int \<Rightarrow> Cache \<Rightarrow> Cache" where
  "SetRawRecordsWithVersion t_acq t_exp domain qt records cnames upstreamTTL queryVersion c =
     SetRawRecordsWithDNSSECAndVersion t_acq t_exp domain qt records cnames upstreamTTL False queryVersion c"

definition GetRawCacheSnapshot :: "Cache \<Rightarrow> RawCacheEntry list option" where
  "GetRawCacheSnapshot c = ShardedCache_GetAllEntries (c_rawCache c)"

section \<open>Sorted answers\<close>

definition GetSortedWithStale :: "instant \<Rightarrow> string \<Rightarrow> qtype \<Rightarrow> bool \<Rightarrow> Cache \<Rightarrow>
    SortedCacheEntry option \<times> pool_call list \<times> Cache" where
  "GetSortedWithStale now domain qt includeStale c =
     (let (v, sc) = ShardedLRUCache_Get (cacheKey domain qt) (c_sortedCache c);
          c1 = c\<lparr>c_sortedCache := sc\<rparr>
      in (case v of
            None \<Rightarrow> (None, [], c1)
          | Some entry \<Rightarrow>
             if \<not> includeStale \<and> SortedCacheEntry_IsExpired now entry then (None, [], c1)
             else (Some entry,
                   (if c_hasPool c \<and> sorted_IPs entry \<noteq> [] then [RecordAccess (hd (sorted_IPs entry)) domain]
                    else []), c1)))"

definition GetSorted :: "instant \<Rightarrow> string \<Rightarrow> qtype \<Rightarrow> Cache \<Rightarrow>
    SortedCacheEntry option \<times> pool_call list \<times> Cache" where
  "GetSorted now domain qt c = GetSortedWithStale now domain qt False c"

definition SetSorted :: "string \<Rightarrow> qtype \<Rightarrow> SortedCacheEntry \<Rightarrow> Cache \<Rightarrow> pool_call list \<times> Cache" where
  "SetSorted domain qt entry c =
     (let key = cacheKey domain qt;
          (old, sc1) = ShardedLRUCache_Get key (c_sortedCache c);
          oldIPs = (case old of None \<Rightarrow> [] | Some e \<Rightarrow> sorted_IPs e);
          (sc2, evicted) = ShardedLRUCache_Set key entry sc1;
          evictCalls = concat (map (\<lambda>(k, e). sorted_onEvict (c_hasPool c) k e) evicted)
      in (evictCalls @ (if c_hasPool c then [UpdateDomainIPs oldIPs (sorted_IPs entry) domain] else []),
          c\<lparr>c_sortedCache := sc2\<rparr>))"

subsection \<open>Sorting tasks\<close>

definition GetOrStartSort :: "string \<Rightarrow> qtype \<Rightarrow> Cache \<Rightarrow> (nat \<times> bool) \<times> Cache" where
  "GetOrStartSort domain qt c =
     (let key = cacheKey domain qt in
      (case map_of (c_sortingState c) key of
         Some state \<Rightarrow> ((state, False), c)
       | None \<Rightarrow>
          (let p = c_nextState c;
               newState = \<lparr>ss_InProgress = True, ss_DoneClosed = False, ss_Result = None, ss_Error = None\<rparr>
           in ((p, True), c\<lparr>c_states := (c_states c)(p \<mapsto> newState), c_nextState := Suc p,
                            c_sortingState := AList.update key p (c_sortingState c)\<rparr>))))"

text \<open>\<open>close(ch)\<close>: \<open>None\<close> when the channel is closed already.\<close>

definition close_done :: "SortingState \<Rightarrow> SortingState option" where
  "close_done s = (if ss_DoneClosed s then None else Some (s\<lparr>ss_DoneClosed := True\<rparr>))"

definition safe_close :: "SortingState \<Rightarrow> SortingState option" where
  "safe_close s = (if ss_DoneClosed s then Some s else close_done s)"

definition FinishSort :: "SortedCacheEntry option \<Rightarrow> string option \<Rightarrow> nat \<Rightarrow> Cache \<Rightarrow> Cache option" where
  "FinishSort result err state c = (case c_states c state of
      None \<Rightarrow> None
    | Some s \<Rightarrow>
       (case safe_close (s\<lparr>ss_InProgress := False, ss_Result := result, ss_Error := err\<rparr>) of
          None \<Rightarrow> None
        | Some s' \<Rightarrow> Some (c\<lparr>c_states := (c_states c)(state \<mapsto> s')\<rparr>)))"

definition CancelSort :: "string \<Rightarrow> qtype \<Rightarrow> Cache \<Rightarrow> Cache option" where
  "CancelSort domain qt c =
     (let key = cacheKey domain qt;
          c1 = (case map_of (c_sortingState c) key of
             None \<Rightarrow> Some c
           | Some p \<Rightarrow> (case c_states c p of
                None \<Rightarrow> None
              | Some s \<Rightarrow>
                 (case safe_close (if ss_InProgress s then s\<lparr>ss_InProgress := False\<rparr> else s) of
                    None \<Rightarrow> None
                  | Some s' \<Rightarrow> Some (c\<lparr>c_states := (c_states c)(p \<mapsto> s'),
                                       c_sortingState := AList.delete key (c_sortingState c)\<rparr>))))
      in map_option (\<lambda>c. c\<lparr>c_sortedCache := ShardedLRUCache_Delete key (c_sortedCache c)\<rparr>) c1)"

definition cleanCompletedSortingStates :: "Cache \<Rightarrow> Cache" where
  "cleanCompletedSortingStates c =
     (let keysToRemove = map fst (filter (\<lambda>(k, p).
            (case c_states c p of None \<Rightarrow> False | Some s \<Rightarrow> \<not> ss_InProgress s)) (c_sortingState c))
      in c\<lparr>c_sortingState := fold AList.delete keysToRemove (c_sortingState c)\<rparr>)"

section \<open>Errors\<close>

definition GetError :: "instant \<Rightarrow> string \<Rightarrow> qtype \<Rightarrow> Cache \<Rightarrow> ErrorCacheEntry option \<times> Cache" where
  "GetError now domain qt c =
     (let (v, ec) = LRUCache_Get (cacheKey domain qt) (c_errorCache c);
          c1 = c\<lparr>c_errorCache := ec\<rparr>
      in (case v of None \<Rightarrow> (None, c1)
          | Some entry \<Rightarrow> if ErrorCacheEntry_IsExpired now entry then (None, c1) else (Some entry, c1)))"

definition SetError :: "instant \<Rightarrow> string \<Rightarrow> qtype \<Rightarrow> int \<Rightarrow> int \<Rightarrow> Cache \<Rightarrow> Cache" where
  "SetError now domain qt rcode ttl c =
     c\<lparr>c_errorCache := fst (LRUCache_Set (cacheKey domain qt)
        \<lparr>err_Rcode = rcode, err_CachedAt = now, err_TTL = ttl\<rparr> (c_errorCache c))\<rparr>"

section \<open>Ad-blocking verdicts\<close>

definition GetBlocked :: "instant \<Rightarrow> string \<Rightarrow> Cache \<Rightarrow> BlockedCacheEntry option" where
  "GetBlocked now domain c = (case map_of (c_blockedCache c) domain of
      None \<Rightarrow> None
    | Some entry \<Rightarrow> if BlockedCacheEntry_IsExpired now entry then None else Some entry)"

definition SetBlocked :: "string \<Rightarrow> BlockedCacheEntry \<Rightarrow> Cache \<Rightarrow> Cache" where
  "SetBlocked domain entry c = c\<lparr>c_blockedCache := AList.update domain entry (c_blockedCache c)\<rparr>"

definition GetExplicitAllowed :: "instant \<Rightarrow> string \<Rightarrow> Cache \<Rightarrow> bool" where
  "GetExplicitAllowed now domain c = (case map_of (c_allowedCache c) domain of
      None \<Rightarrow> False
    | Some entry \<Rightarrow> if AllowedCacheEntry_IsExpired now entry then False else allowed_IsExplicit entry)"

definition GetAllowed :: "instant \<Rightarrow> string \<Rightarrow> Cache \<Rightarrow> bool" where
  "GetAllowed now domain c = (case map_of (c_allowedCache c) domain of
      None \<Rightarrow> False
    | Some entry \<Rightarrow> if AllowedCacheEntry_IsExpired now entry then False else True)"

definition SetAllowed :: "string \<Rightarrow> AllowedCacheEntry \<Rightarrow> Cache \<Rightarrow> Cache" where
  "SetAllowed domain entry c = c\<lparr>c_allowedCache := AList.update domain entry (c_allowedCache c)\<rparr>"

definition cleanAdBlockCaches :: "instant \<Rightarrow> Cache \<Rightarrow> Cache" where
  "cleanAdBlockCaches now c =
     c\<lparr>c_blockedCache := filter (\<lambda>(k, e). \<not> BlockedCacheEntry_IsExpired now e) (c_blockedCache c),
       c_allowedCache := filter (\<lambda>(k, e). \<not> AllowedCacheEntry_IsExpired now e) (c_allowedCache c)\<rparr>"

section \<open>DNSSEC messages\<close>

definition GetDNSSECMsg :: "instant \<Rightarrow> string \<Rightarrow> qtype \<Rightarrow> Cache \<Rightarrow> DNSSECCacheEntry option \<times> Cache" where
  "GetDNSSECMsg now domain qt c =
     (let key = cacheKey domain qt;
          (v, mc) = LRUCache_Get key (c_msgCache c)
      in (case v of
            None \<Rightarrow> (None, c\<lparr>c_msgCache := mc\<rparr>)
          | Some entry \<Rightarrow>
             if DNSSECCacheEntry_IsExpired now entry
             then (None, c\<lparr>c_msgCache := LRUCache_Delete key mc\<rparr>)
             else (Some entry, c\<lparr>c_msgCache := mc\<rparr>)))"

definition SetDNSSECMsg :: "instant \<Rightarrow> string \<Rightarrow> qtype \<Rightarrow> dnsMsg \<Rightarrow> Cache \<Rightarrow> Cache" where
  "SetDNSSECMsg now domain qt msg c =
     (let filteredMsg = msg\<lparr>msg_Answer := filterRecords (msg_Answer msg), msg_Ns := filterRecords (msg_Ns msg),
                            msg_Extra := filterRecords (msg_Extra msg)\<rparr>;
          minMsgTTL = getMinTTL filteredMsg;
          effectiveTTL = (if 0 < cache_DNSSECMsgCacheTTLSeconds (c_config c)
            then word_of_int (min (uint minMsgTTL) (cache_DNSSECMsgCacheTTLSeconds (c_config c)))
            else minMsgTTL)
      in c\<lparr>c_msgCache := fst (LRUCache_Set (cacheKey domain qt)
            \<lparr>dnssec_Message = filteredMsg, dnssec_AcquisitionTime = now, dnssec_TTL = effectiveTTL\<rparr>
            (c_msgCache c))\<rparr>)"

definition GetMsg :: "instant \<Rightarrow> string \<Rightarrow> qtype \<Rightarrow> Cache \<Rightarrow> dnsMsg option \<times> Cache" where
  "GetMsg now domain qt c =
     (let key = cacheKey domain qt;
          (v, mc) = LRUCache_Get key (c_msgCache c)
      in (case v of
            None \<Rightarrow> (None, c\<lparr>c_msgCache := mc\<rparr>)
          | Some entry \<Rightarrow>
             if DNSSECCacheEntry_IsExpired now entry
             then (None, c\<lparr>c_msgCache := LRUCache_Delete key mc\<rparr>)
             else (Some (dnssec_Message entry), c\<lparr>c_msgCache := mc\<rparr>)))"

definition extractMinTTLFromMsg :: "dnsMsg \<Rightarrow> 32 word" where
  "extractMinTTLFromMsg msg =
     (let step = (\<lambda>m rr. if m = 0 \<or> rr_ttl rr < m then rr_ttl rr else m)
      in foldl step (foldl step 0 (msg_Answer msg)) (msg_Ns msg))"

definition SetMsg :: "instant \<Rightarrow> string \<Rightarrow> qtype \<Rightarrow> dnsMsg \<Rightarrow> Cache \<Rightarrow> Cache" where
  "SetMsg now domain qt msg c =
     (let m = extractMinTTLFromMsg msg; minTTL = (if m = 0 then 300 else m)
      in c\<lparr>c_msgCache := fst (LRUCache_Set (cacheKey domain qt)
            \<lparr>dnssec_Message = msg, dnssec_AcquisitionTime = now, dnssec_TTL = minTTL\<rparr> (c_msgCache c))\<rparr>)"

section \<open>Counters and housekeeping\<close>

definition GetCurrentEntries :: "Cache \<Rightarrow> int" where
  "GetCurrentEntries c = ShardedCache_Len (c_rawCache c)"

definition GetMemoryUsagePercent :: "Cache \<Rightarrow> rat" where
  "GetMemoryUsagePercent c =
     (if c_maxEntries c = 0 then 0 else of_int (GetCurrentEntries c) / of_int (c_maxEntries c))"

definition getMemoryUsagePercentLocked :: "Cache \<Rightarrow> rat" where
  "getMemoryUsagePercentLocked c =
     (if c_maxEntries c = 0 then 0 else of_int (ShardedCache_Len (c_rawCache c)) / of_int (c_maxEntries c))"

text \<open>\<open>for range heap\<close> with \<open>break\<close> at the first entry that is not due.\<close>

definition GetExpiredHeapEntries :: "instant \<Rightarrow> Cache \<Rightarrow> int" where
  "GetExpiredHeapEntries t c =
     int (length (takeWhile (\<lambda>e. ee_expiry e \<le> unix t) (c_expiredHeap c)))"

definition isProtectedDomain :: "string \<Rightarrow> Cache \<Rightarrow> bool" where
  "isProtectedDomain domain c = (case c_prefetcher c of
      None \<Rightarrow> False
    | Some p \<Rightarrow> if \<not> cache_ProtectPrefetchDomains (c_config c) then False else p domain)"

definition GetProtectedEntries :: "Cache \<Rightarrow> int option" where
  "GetProtectedEntries c =
     (if c_prefetcher c = None \<or> \<not> cache_ProtectPrefetchDomains (c_config c) then Some 0
      else map_option (\<lambda>ks. int (length (filter (\<lambda>k. isProtectedDomain (extractDomain k) c) ks)))
             (ShardedCache_GetAllKeys (c_rawCache c)))"

definition RecordHit :: "Cache \<Rightarrow> Cache" where "RecordHit c = c\<lparr>c_hits := c_hits c + 1\<rparr>"
definition RecordMiss :: "Cache \<Rightarrow> Cache" where "RecordMiss c = c\<lparr>c_misses := c_misses c + 1\<rparr>"

definition close_in_progress :: "(nat \<rightharpoonup> SortingState) \<Rightarrow> string \<times> nat \<Rightarrow> (nat \<rightharpoonup> SortingState) option" where
  "close_in_progress h kp = (case h (snd kp) of
      None \<Rightarrow> Some h
    | Some s \<Rightarrow> if ss_InProgress s then map_option (\<lambda>s'. h(snd kp \<mapsto> s')) (close_done s) else Some h)"

fun close_all :: "(nat \<rightharpoonup> SortingState) \<Rightarrow> (string \<times> nat) list \<Rightarrow> (nat \<rightharpoonup> SortingState) option" where
  "close_all h [] = Some h"
| "close_all h (kp # kps) = (case close_in_progress h kp of None \<Rightarrow> None | Some h' \<Rightarrow> close_all h' kps)"

definition Cache_Clear :: "Cache \<Rightarrow> Cache option" where
  "Cache_Clear c = map_option (\<lambda>h. c\<lparr>
       c_states := h,
       c_rawCache := ShardedCache_Clear (c_rawCache c),
       c_sortedCache := ShardedLRUCache_Clear (c_sortedCache c),
       c_sortingState := [],
       c_errorCache := LRUCache_Clear (c_errorCache c),
       c_blockedCache := [], c_allowedCache := [],
       c_msgCache := LRUCache_Clear (c_msgCache c),
       c_expiredHeap := [], c_actualExpiredCount := 0, c_staleHeapCount := 0,
       c_heapChannelFullCount := 0\<rparr>) (close_all (c_states c) (c_sortingState c))"

end
