(* ===== verification/Cache_Laws.thy ===== *)
theory Cache_Laws
  imports Cache_Store
begin

text \<open>What the stores of \<open>Cache\<close> promise: effective TTLs, reading back what was set, sorting tasks
  under every interleaving, the calls to the IP pool, and the lifetime of DNSSEC messages.\<close>

section \<open>Raw answers\<close>

lemma effective_ttl_uint:
  assumes "cache_MinTTLSeconds cfg < 2 ^ 32" "cache_MaxTTLSeconds cfg < 2 ^ 32"
  shows "uint (calculateEffectiveTTL cfg w) =
    (let m = (if 0 < cache_MinTTLSeconds cfg then max (cache_MinTTLSeconds cfg) (uint w) else uint w)
     in if 0 < cache_MaxTTLSeconds cfg then min (cache_MaxTTLSeconds cfg) m else m)"
proof -
  have u: "uint (word_of_int x :: 32 word) = x" if "0 < x" "x < 2 ^ 32" for x
    using that by (simp add: uint_word_of_int)
  show ?thesis
    using u[of "cache_MinTTLSeconds cfg"] u[of "cache_MaxTTLSeconds cfg"] assms
    by (auto simp: calculateEffectiveTTL_def Let_def word_less_def max_def min_def)
qed

lemma addToExpiredHeap_raw [simp]: "c_rawCache (addToExpiredHeap k e v c) = c_rawCache c"
  by (simp add: addToExpiredHeap_def Let_def)

lemma GetRaw_value:
  assumes "ShardedCache_inv (c_rawCache c)"
  shows "fst (GetRaw d q c) = ShardedCache_GetNoUpdate (cacheKey d q) (c_rawCache c)"
  using sharded_get_ok(2)[OF assms] by (simp add: GetRaw_def case_prod_unfold)

section \<open>Sorting tasks\<close>

definition sort_inv :: "Cache \<Rightarrow> bool" where
  "sort_inv c \<longleftrightarrow> distinct (map fst (c_sortingState c)) \<and> distinct (map snd (c_sortingState c))
     \<and> (\<forall>p. p < c_nextState c \<longleftrightarrow> c_states c p \<noteq> None)
     \<and> (\<forall>(k, p) \<in> set (c_sortingState c). \<exists>s. c_states c p = Some s \<and> (ss_InProgress s \<longrightarrow> \<not> ss_DoneClosed s))"

text \<open>The operations on sorting tasks, in any order; \<open>FinishSort\<close> is called with a state that
  \<open>GetOrStartSort\<close> gave out at some time, whether or not it is still in the map.\<close>

inductive sort_step :: "Cache \<Rightarrow> Cache \<Rightarrow> bool" where
  sort_start: "sort_step c (snd (GetOrStartSort d q c))"
| sort_finish: "p < c_nextState c \<Longrightarrow> FinishSort r e p c = Some c' \<Longrightarrow> sort_step c c'"
| sort_cancel: "CancelSort d q c = Some c' \<Longrightarrow> sort_step c c'"
| sort_clean: "sort_step c (cleanCompletedSortingStates c)"
| sort_clear: "Cache_Clear c = Some c' \<Longrightarrow> sort_step c c'"

inductive sort_reachable :: "CacheConfig \<Rightarrow> Cache \<Rightarrow> bool" for cfg where
  sort_new: "sort_reachable cfg (NewCache cfg)"
| sort_more: "sort_reachable cfg c \<Longrightarrow> sort_step c c' \<Longrightarrow> sort_reachable cfg c'"

lemma sort_inv_new: "sort_inv (NewCache cfg)"
  by (simp add: sort_inv_def NewCache_def Let_def)

lemma alist_update_new: "map_of al k = None \<Longrightarrow> AList.update k v al = al @ [(k, v)]"
  by (induction al) (auto split: if_splits)

lemma sort_inv_start: "sort_inv c \<Longrightarrow> sort_inv (snd (GetOrStartSort d q c))"
proof (cases "map_of (c_sortingState c) (cacheKey d q)")
  case None
  assume inv: "sort_inv c"
  have key: "cacheKey d q \<notin> set (map fst (c_sortingState c))"
    using None by (simp add: map_of_eq_None_iff)
  have new: "c_nextState c \<notin> set (map snd (c_sortingState c))"
  proof
    assume "c_nextState c \<in> set (map snd (c_sortingState c))"
    then obtain k where "(k, c_nextState c) \<in> set (c_sortingState c)" by auto
    then have "c_states c (c_nextState c) \<noteq> None" using inv by (auto simp: sort_inv_def)
    then show False using inv unfolding sort_inv_def by blast
  qed
  let ?s = "\<lparr>ss_InProgress = True, ss_DoneClosed = False, ss_Result = None, ss_Error = None\<rparr>"
  have c': "snd (GetOrStartSort d q c) = c\<lparr>c_states := (c_states c)(c_nextState c \<mapsto> ?s),
      c_nextState := Suc (c_nextState c), c_sortingState := c_sortingState c @ [(cacheKey d q, c_nextState c)]\<rparr>"
    by (simp add: GetOrStartSort_def None Let_def alist_update_new)
  have "p < Suc (c_nextState c) \<longleftrightarrow> ((c_states c)(c_nextState c \<mapsto> ?s)) p \<noteq> None" for p
    using inv by (auto simp: sort_inv_def less_Suc_eq)
  then show ?thesis
    using inv key new unfolding c' sort_inv_def by (auto simp: image_iff)
qed (simp add: GetOrStartSort_def Let_def)

lemma sort_inv_update:
  assumes "sort_inv c" "p < c_nextState c" "ss_InProgress s' \<longrightarrow> \<not> ss_DoneClosed s'"
  shows "sort_inv (c\<lparr>c_states := (c_states c)(p \<mapsto> s')\<rparr>)"
  using assms unfolding sort_inv_def by auto

lemma alist_delete_snd: "distinct (map snd al) \<Longrightarrow> distinct (map snd (AList.delete k al))"
  by (induction al) (auto simp: AList.delete_eq)

lemma alist_delete_fst: "distinct (map fst al) \<Longrightarrow> distinct (map fst (AList.delete k al))"
  by (rule AList.distinct_delete)

lemma sort_inv_sub:
  assumes "sort_inv c" "set al \<subseteq> set (c_sortingState c)" "distinct (map fst al)" "distinct (map snd al)"
  shows "sort_inv (c\<lparr>c_sortingState := al\<rparr>)"
  using assms unfolding sort_inv_def by auto

lemma alist_delete_subset: "set (AList.delete k al) \<subseteq> set al"
  by (auto simp: AList.delete_eq)

lemma sort_inv_delete: "sort_inv c \<Longrightarrow> sort_inv (c\<lparr>c_sortingState := AList.delete k (c_sortingState c)\<rparr>)"
  by (rule sort_inv_sub)
     (auto simp: alist_delete_snd alist_delete_fst sort_inv_def dest: subsetD[OF alist_delete_subset])

lemma fold_delete_props:
  "distinct (map fst al) \<Longrightarrow> distinct (map snd al) \<Longrightarrow>
   set (fold AList.delete ks al) \<subseteq> set al \<and> distinct (map fst (fold AList.delete ks al))
   \<and> distinct (map snd (fold AList.delete ks al))"
proof (induction ks arbitrary: al)
  case (Cons k ks)
  then show ?case
    using Cons.IH[OF alist_delete_fst[OF Cons.prems(1), of k] alist_delete_snd[OF Cons.prems(2), of k]]
      alist_delete_subset[of k al] by auto
qed simp

lemma sort_inv_clean: "sort_inv c \<Longrightarrow> sort_inv (cleanCompletedSortingStates c)"
  unfolding cleanCompletedSortingStates_def Let_def
  by (rule sort_inv_sub) (use fold_delete_props in \<open>auto simp: sort_inv_def\<close>)

lemma safe_close_eq: "safe_close s = Some (s\<lparr>ss_DoneClosed := True\<rparr>)"
  by (cases s) (auto simp: safe_close_def close_done_def)

lemma FinishSort_some:
  assumes "sort_inv c" "p < c_nextState c"
  obtains s' where "FinishSort r e p c = Some (c\<lparr>c_states := (c_states c)(p \<mapsto> s')\<rparr>)"
    "\<not> ss_InProgress s'" "ss_DoneClosed s'" "ss_Result s' = r" "ss_Error s' = e"
proof -
  have "c_states c p \<noteq> None" using assms by (simp add: sort_inv_def)
  then obtain s where "c_states c p = Some s" by auto
  then show ?thesis
    using that[of "s\<lparr>ss_InProgress := False, ss_Result := r, ss_Error := e, ss_DoneClosed := True\<rparr>"]
    by (simp add: FinishSort_def safe_close_eq)
qed

lemma CancelSort_some:
  assumes "sort_inv c"
  obtains c' where "CancelSort d q c = Some c'" "sort_inv c'" "c_nextState c' = c_nextState c"
    "map_of (c_sortingState c') (cacheKey d q) = None"
proof (cases "map_of (c_sortingState c) (cacheKey d q)")
  case None
  show ?thesis
    by (rule that[of "c\<lparr>c_sortedCache := ShardedLRUCache_Delete (cacheKey d q) (c_sortedCache c)\<rparr>"])
       (use None assms in \<open>simp_all add: CancelSort_def Let_def sort_inv_def\<close>)
next
  case (Some p)
  then have m: "(cacheKey d q, p) \<in> set (c_sortingState c)" by (rule map_of_SomeD)
  then obtain s where s: "c_states c p = Some s" using assms by (auto simp: sort_inv_def)
  have p: "p < c_nextState c" using assms s by (simp add: sort_inv_def)
  obtain s' where s': "safe_close (if ss_InProgress s then s\<lparr>ss_InProgress := False\<rparr> else s) = Some s'"
    "\<not> ss_InProgress s'"
    using safe_close_eq by auto
  let ?c1 = "c\<lparr>c_states := (c_states c)(p \<mapsto> s')\<rparr>"
  let ?c2 = "?c1\<lparr>c_sortingState := AList.delete (cacheKey d q) (c_sortingState ?c1)\<rparr>"
  have "sort_inv ?c2" by (rule sort_inv_delete, rule sort_inv_update[OF assms p]) (simp add: s'(2))
  then show ?thesis
    by (intro that[of "?c2\<lparr>c_sortedCache := ShardedLRUCache_Delete (cacheKey d q) (c_sortedCache c)\<rparr>"])
       (simp_all add: CancelSort_def Let_def Some s s'(1) sort_inv_def AList.delete_conv')
qed

text \<open>\<open>Clear\<close> closes the channel of every task in progress; none of them is closed already.\<close>

lemma close_all_some:
  assumes "distinct (map snd al)"
    "\<forall>(k, p) \<in> set al. \<exists>s. h p = Some s \<and> (ss_InProgress s \<longrightarrow> \<not> ss_DoneClosed s)"
  shows "\<exists>h'. close_all h al = Some h' \<and> dom h' = dom h"
  using assms
proof (induction al arbitrary: h)
  case (Cons kp al)
  obtain k p where kp: "kp = (k, p)" by force
  obtain s where s: "h p = Some s" "ss_InProgress s \<longrightarrow> \<not> ss_DoneClosed s"
    using Cons.prems(2) kp by auto
  obtain h1 where h1: "close_in_progress h kp = Some h1" "dom h1 = dom h" "\<forall>x. x \<noteq> p \<longrightarrow> h1 x = h x"
    using s kp by (cases "ss_InProgress s") (auto simp: close_in_progress_def close_done_def)
  have "\<forall>(k, p') \<in> set al. \<exists>s. h1 p' = Some s \<and> (ss_InProgress s \<longrightarrow> \<not> ss_DoneClosed s)"
  proof (intro ballI, clarify)
    fix k' p' assume m: "(k', p') \<in> set al"
    then have "p' \<noteq> p" using Cons.prems(1) kp by (force simp: image_iff)
    then show "\<exists>s. h1 p' = Some s \<and> (ss_InProgress s \<longrightarrow> \<not> ss_DoneClosed s)"
      using Cons.prems(2) m h1(3) by auto
  qed
  then show ?case using Cons.IH[of h1] Cons.prems(1) h1 by auto
qed simp

lemma Clear_some:
  assumes "sort_inv c"
  obtains c' where "Cache_Clear c = Some c'" "sort_inv c'"
proof -
  obtain h where h: "close_all (c_states c) (c_sortingState c) = Some h" "dom h = dom (c_states c)"
    using close_all_some[of "c_sortingState c" "c_states c"] assms by (auto simp: sort_inv_def)
  have "h p \<noteq> None \<longleftrightarrow> c_states c p \<noteq> None" for p using h(2) by (auto simp: dom_def)
  then show ?thesis
    using assms that by (simp add: Cache_Clear_def h(1) sort_inv_def)
qed

lemma sort_step_inv: "sort_step c c' \<Longrightarrow> sort_inv c \<Longrightarrow> sort_inv c'"
proof (induction rule: sort_step.induct)
  case (sort_finish p c r e c')
  obtain s' where "FinishSort r e p c = Some (c\<lparr>c_states := (c_states c)(p \<mapsto> s')\<rparr>)" "\<not> ss_InProgress s'"
    by (rule FinishSort_some[OF sort_finish(3,1)])
  then show ?case using sort_finish sort_inv_update[of c p s'] by simp
next
  case (sort_cancel d q c c')
  then show ?case using CancelSort_some[OF sort_cancel(2), of d q] by auto
next
  case (sort_clear c c')
  then show ?case using Clear_some[OF sort_clear(2)] by auto
qed (simp_all add: sort_inv_start sort_inv_clean)

lemma sort_reachable_inv: "sort_reachable cfg c \<Longrightarrow> sort_inv c"
  by (induction rule: sort_reachable.induct) (auto simp: sort_inv_new intro: sort_step_inv)

section \<open>Properties\<close>

text \<open>C14: No interleaving of starting, finishing, cancelling and cleaning up sorting tasks with clearing
  the cache ever closes a channel twice (which would panic): in every reachable state finishing any
  task ever handed out, cancelling any name and clearing the cache all return, and a finished task
  has left its result and closed its channel.\<close>

theorem sorting_never_panics:
  assumes "sort_reachable cfg c"
  shows "(\<forall>p r e. p < c_nextState c \<longrightarrow> (\<exists>c' s. FinishSort r e p c = Some c' \<and> c_states c' p = Some s
        \<and> \<not> ss_InProgress s \<and> ss_DoneClosed s \<and> ss_Result s = r \<and> ss_Error s = e))
    \<and> (\<forall>d q. CancelSort d q c \<noteq> None) \<and> Cache_Clear c \<noteq> None"
proof (intro conjI allI impI)
  have inv: "sort_inv c" by (rule sort_reachable_inv[OF assms])
  fix p r e assume p: "p < c_nextState c"
  obtain s' where "FinishSort r e p c = Some (c\<lparr>c_states := (c_states c)(p \<mapsto> s')\<rparr>)"
    "\<not> ss_InProgress s'" "ss_DoneClosed s'" "ss_Result s' = r" "ss_Error s' = e"
    by (rule FinishSort_some[OF inv p])
  then show "\<exists>c' s. FinishSort r e p c = Some c' \<and> c_states c' p = Some s
        \<and> \<not> ss_InProgress s \<and> ss_DoneClosed s \<and> ss_Result s = r \<and> ss_Error s = e"
    by auto
next
  fix d q
  show "CancelSort d q c \<noteq> None" using CancelSort_some[OF sort_reachable_inv[OF assms], of d q] by auto
next
  show "Cache_Clear c \<noteq> None" using Clear_some[OF sort_reachable_inv[OF assms]] by auto
qed

theorem sorting_never_panics_witness:
  "\<forall>cfg. Cache_Clear (snd (GetOrStartSort ''a'' 1 (NewCache cfg))) \<noteq> None"
  using sorting_never_panics[OF sort_more[OF sort_new sort_start[of _ "''a''" 1]]] by blast

text \<open>A raw answer set for a name is what a lookup returns, under any spelling of the name, until
  the key is overwritten or evicted: with the effective TTL clamped into the configured bounds (the
  upper bound wins), the caller's version, and one index entry queued with the matching key, version
  and expiry unless the queue is full.\<close>

theorem SetRaw_GetRaw:
  assumes "ShardedCache_inv (c_rawCache c)" "ToLower d' = ToLower d"
    "cache_MinTTLSeconds (c_config c) < 2 ^ 32" "cache_MaxTTLSeconds (c_config c) < 2 ^ 32"
    "c' = SetRawRecordsWithDNSSECAndVersion t_acq t_exp d q rs cnames ttl ad v c"
  shows "\<exists>e. fst (GetRaw d' q c') = Some e \<and> raw_Records e = rs \<and> raw_IPs e = extractIPsFromRecords rs
    \<and> raw_CNAMEs e = cnames \<and> raw_UpstreamTTL e = ttl \<and> raw_AcquisitionTime e = t_acq
    \<and> raw_AuthenticatedData e = ad \<and> raw_QueryVersion e = v
    \<and> uint (raw_EffectiveTTL e) =
        (let m = (if 0 < cache_MinTTLSeconds (c_config c) then max (cache_MinTTLSeconds (c_config c)) (uint ttl)
                  else uint ttl)
         in if 0 < cache_MaxTTLSeconds (c_config c) then min (cache_MaxTTLSeconds (c_config c)) m else m)
    \<and> c_addHeapChan c' = (if length (c_addHeapChan c) < 10000
        then c_addHeapChan c @ [\<lparr>ee_key = cacheKey d q, ee_expiry = t_exp div second + uint (raw_EffectiveTTL e),
                                 ee_queryVersion = v\<rparr>]
        else c_addHeapChan c)"
proof -
  let ?e = "\<lparr>raw_Records = rs, raw_IPs = extractIPsFromRecords rs, raw_CNAMEs = cnames,
     raw_UpstreamTTL = ttl, raw_EffectiveTTL = calculateEffectiveTTL (c_config c) ttl,
     raw_AcquisitionTime = t_acq, raw_AuthenticatedData = ad, raw_QueryVersion = v, raw_gracePeriod = 0\<rparr>"
  have k: "cacheKey d' q = cacheKey d q" using assms(2) by (simp add: cacheKey_eq)
  have raw: "c_rawCache c' = ShardedCache_Set (cacheKey d q) ?e (c_rawCache c)"
    by (simp add: assms(5) SetRawRecordsWithDNSSECAndVersion_def Let_def)
  have "fst (GetRaw d' q c') = Some ?e"
    using GetRaw_value[of c' d' q] sharded_set_ok[OF assms(1), of "cacheKey d q" ?e]
    by (simp add: raw k)
  moreover have "c_addHeapChan c' = (if length (c_addHeapChan c) < 10000
        then c_addHeapChan c @ [\<lparr>ee_key = cacheKey d q,
           ee_expiry = t_exp div second + uint (calculateEffectiveTTL (c_config c) ttl), ee_queryVersion = v\<rparr>]
        else c_addHeapChan c)"
    by (simp add: assms(5) SetRawRecordsWithDNSSECAndVersion_def Let_def addToExpiredHeap_def
        unix_def heap_chan_cap_def)
  ultimately show ?thesis
    using effective_ttl_uint[OF assms(3,4), of ttl] by (intro exI[of _ ?e]) simp
qed

theorem SetRaw_GetRaw_witness:
  "\<forall>cfg. \<exists>e. fst (GetRaw ''ExAmple'' 1 (SetRawRecordsWithDNSSECAndVersion 0 0 ''example'' 1
      [\<lparr>rr_name = ''a.'', rr_type = 1, rr_ttl = 60, rr_data = A_rec ''192.0.2.1''\<rparr>] [] 60 False 1
      (NewCache (cfg\<lparr>cache_MinTTLSeconds := 300, cache_MaxTTLSeconds := 0\<rparr>)))) = Some e
    \<and> uint (raw_EffectiveTTL e) = 300"
proof
  fix cfg :: CacheConfig
  let ?c = "NewCache (cfg\<lparr>cache_MinTTLSeconds := 300, cache_MaxTTLSeconds := 0\<rparr>)"
  have c: "ShardedCache_inv (c_rawCache ?c)" "cache_MinTTLSeconds (c_config ?c) = 300"
    "cache_MaxTTLSeconds (c_config ?c) = 0"
    by (simp_all add: NewCache_def Let_def sharded_new)
  have l: "ToLower ''ExAmple'' = ToLower ''example''" by code_simp
  have b: "cache_MinTTLSeconds (c_config ?c) < 2 ^ 32" "cache_MaxTTLSeconds (c_config ?c) < 2 ^ 32"
    using c by simp_all
  show "\<exists>e. fst (GetRaw ''ExAmple'' 1 (SetRawRecordsWithDNSSECAndVersion 0 0 ''example'' 1
      [\<lparr>rr_name = ''a.'', rr_type = 1, rr_ttl = 60, rr_data = A_rec ''192.0.2.1''\<rparr>] [] 60 False 1 ?c)) = Some e
    \<and> uint (raw_EffectiveTTL e) = 300"
    using SetRaw_GetRaw[OF c(1) l b refl, where t_acq = 0 and t_exp = 0 and q = 1 and ttl = 60 and ad = False
        and v = 1 and cnames = "[]" and rs = "[\<lparr>rr_name = ''a.'', rr_type = 1, rr_ttl = 60, rr_data = A_rec ''192.0.2.1''\<rparr>]"]
    unfolding c(2,3) Let_def by auto
qed

text \<open>With an IP pool attached, storing a sorted answer reports to the pool the addresses it
  replaces and the new ones under the name, after a report of the addresses of the pair it evicted,
  if any.\<close>

theorem SetSorted_reports_replaced_ips:
  assumes "ShardedLRUCache_inv (c_sortedCache c)" "slru_onEvict (c_sortedCache c)" "c_hasPool c"
    "SetSorted d q entry c = (calls, c')"
  shows "ShardedLRUCache_GetNoUpdate (cacheKey d q) (c_sortedCache c') = Some entry
    \<and> (\<exists>pre. calls = pre @ [UpdateDomainIPs
          (case ShardedLRUCache_GetNoUpdate (cacheKey d q) (c_sortedCache c) of
             None \<Rightarrow> [] | Some e \<Rightarrow> sorted_IPs e) (sorted_IPs entry) d]
        \<and> (ShardedLRUCache_GetNoUpdate (cacheKey d q) (c_sortedCache c) \<noteq> None \<longrightarrow> pre = [])
        \<and> (\<forall>x \<in> set pre. \<exists>k e. (k, e) \<in> set (ShardedLRUCache_content (c_sortedCache c)) \<union> {(cacheKey d q, entry)}
              \<and> x = UpdateDomainIPs (sorted_IPs e) [] (fst (parseCacheKey k))))"
proof -
  let ?k = "cacheKey d q"
  let ?sc = "c_sortedCache c"
  obtain old sc1 where g: "ShardedLRUCache_Get ?k ?sc = (old, sc1)" by force
  obtain sc2 ev where s: "ShardedLRUCache_Set ?k entry sc1 = (sc2, ev)" by force
  note get = slru_get_ok(1,2,3)[OF assms(1), where k = ?k, unfolded g fst_conv snd_conv]
    slru_get_ok(4)[OF assms(1), where k = ?k and j = ?k, unfolded g fst_conv snd_conv]
  have calls: "calls = concat (map (\<lambda>(k, e). sorted_onEvict True k e) ev) @
      [UpdateDomainIPs (case old of None \<Rightarrow> [] | Some e \<Rightarrow> sorted_IPs e) (sorted_IPs entry) d]"
    and c': "c_sortedCache c' = sc2"
    using assms(3,4) by (auto simp: SetSorted_def g s Let_def)
  note set = slru_set_ok[OF get(1), of ?k entry, unfolded s fst_conv]
  note ev = slru_set_evicts[OF get(1) s]
  have on: "set (sorted_onEvict True k e) \<subseteq> {UpdateDomainIPs (sorted_IPs e) [] (fst (parseCacheKey k))}" for k e
    by (auto simp: sorted_onEvict_def Let_def case_prod_unfold)
  have none: "old \<noteq> None \<Longrightarrow> ev = []" using ev(2) get(2,4) by simp
  have "\<forall>x \<in> set (concat (map (\<lambda>(k, e). sorted_onEvict True k e) ev)).
      \<exists>k e. (k, e) \<in> set (ShardedLRUCache_content ?sc) \<union> {(?k, entry)}
         \<and> x = UpdateDomainIPs (sorted_IPs e) [] (fst (parseCacheKey k))"
  proof
    fix x assume "x \<in> set (concat (map (\<lambda>(k, e). sorted_onEvict True k e) ev))"
    then obtain k e where ke: "(k, e) \<in> set ev" "x \<in> set (sorted_onEvict True k e)" by auto
    have "(k, e) \<in> set (ShardedLRUCache_content ?sc) \<union> {(?k, entry)}"
      using ev(1) ke(1) get(3) by (metis subsetD)
    moreover have "x = UpdateDomainIPs (sorted_IPs e) [] (fst (parseCacheKey k))"
      using on[of k e] ke(2) by blast
    ultimately show "\<exists>k e. (k, e) \<in> set (ShardedLRUCache_content ?sc) \<union> {(?k, entry)}
         \<and> x = UpdateDomainIPs (sorted_IPs e) [] (fst (parseCacheKey k))" by blast
  qed
  moreover have "ShardedLRUCache_GetNoUpdate ?k (c_sortedCache c') = Some entry"
    using set(2) c' by simp
  moreover have "concat (map (\<lambda>(k, e). sorted_onEvict True k e) ev) = []"
    if "ShardedLRUCache_GetNoUpdate ?k ?sc \<noteq> None"
    using none that get(2) by simp
  ultimately show ?thesis
    using calls get(2) by (intro conjI exI[of _ "concat (map (\<lambda>(k, e). sorted_onEvict True k e) ev)"]) simp_all
qed

theorem SetSorted_reports_replaced_ips_witness:
  "\<forall>cfg. \<exists>pre. fst (SetSorted ''a'' 1 \<lparr>sorted_IPs = [''192.0.2.1''], sorted_RTTs = [10], sorted_Timestamp = 0,
       sorted_TTL = 60, sorted_IsValid = True, sorted_QueryVersion = 0\<rparr> (SetIPPoolUpdater (NewCache cfg)))
     = pre @ [UpdateDomainIPs [] [''192.0.2.1''] ''a'']"
proof
  fix cfg
  let ?c = "SetIPPoolUpdater (NewCache cfg)"
  let ?e = "\<lparr>sorted_IPs = [''192.0.2.1''], sorted_RTTs = [10], sorted_Timestamp = 0,
       sorted_TTL = 60, sorted_IsValid = True, sorted_QueryVersion = 0\<rparr>"
  let ?n = "NewShardedLRUCache (CalculateMaxEntries cfg) 64 :: SortedCacheEntry ShardedLRUCache"
  have c: "c_sortedCache ?c = ShardedLRUCache_SetOnEvict True ?n" "c_hasPool ?c"
    by (simp_all add: SetIPPoolUpdater_def NewCache_def Let_def)
  have i: "ShardedLRUCache_inv (c_sortedCache ?c)" "slru_onEvict (c_sortedCache ?c)"
    using slru_new(1)[of "CalculateMaxEntries cfg" 64]
    unfolding c(1) by (simp_all add: ShardedLRUCache_inv_def ShardedLRUCache_SetOnEvict_def)
  have "ShardedLRUCache_content (c_sortedCache ?c) = []"
    using slru_new(2)[of "CalculateMaxEntries cfg" 64]
    unfolding c(1) by (simp add: ShardedLRUCache_content_def ShardedLRUCache_SetOnEvict_def)
  then have none: "ShardedLRUCache_GetNoUpdate (cacheKey ''a'' 1) (c_sortedCache ?c) = None"
    by (simp add: slru_lookup[OF i(1)])
  show "\<exists>pre. fst (SetSorted ''a'' 1 ?e ?c) = pre @ [UpdateDomainIPs [] [''192.0.2.1''] ''a'']"
    using SetSorted_reports_replaced_ips[OF i c(2) prod.collapse[symmetric], of "''a''" 1 ?e]
    unfolding none by auto
qed

end
