(* ===== verification/Cache_Cleanup.thy ===== *)
theory Cache_Cleanup
  imports Cache_Store
begin

text \<open>\<open>cache/cache_heap.go\<close> and \<open>cache/cache_cleanup.go\<close>: the expiry index, the goroutine that fills
  it and the cleaner. \<open>clock k\<close> is the k-th reading of the clock within one call of \<open>CleanExpired\<close>;
  the loops pass on the number of readings made. The lock \<open>c.mu\<close> is held throughout
  \<open>CleanExpired\<close>, and a goroutine that locks it again blocks for ever: that outcome is \<open>None\<close>.\<close>

section \<open>The expiry index\<close>

definition expire_less :: "expireEntry \<Rightarrow> expireEntry \<Rightarrow> bool" where
  "expire_less a b \<longleftrightarrow> ee_expiry a < ee_expiry b"

definition expireHeap_Push :: "expireEntry \<Rightarrow> expireEntry list \<Rightarrow> expireEntry list" where
  "expireHeap_Push x h = h @ [x]"

definition expireHeap_Pop :: "expireEntry list \<Rightarrow> expireEntry \<times> expireEntry list" where
  "expireHeap_Pop h = (last h, butlast h)"

interpretation expire: weak_order expire_less
  unfolding expire_less_def by (rule weak_order_by_key)

text \<open>One entry taken from \<open>addHeapChan\<close> by the goroutine; after the stop signal, the rest.\<close>

definition heapWorker_step :: "Cache \<Rightarrow> Cache option" where
  "heapWorker_step c = (case c_addHeapChan c of
      [] \<Rightarrow> None
    | entry # rest \<Rightarrow> Some (c\<lparr>c_addHeapChan := rest, c_expiredHeap := expireHeap_Push entry (c_expiredHeap c)\<rparr>))"

function heapWorker_drain :: "Cache \<Rightarrow> Cache" where
  "heapWorker_drain c = (case heapWorker_step c of None \<Rightarrow> c | Some c' \<Rightarrow> heapWorker_drain c')"
  by pat_completeness auto
termination
  by (relation "measure (\<lambda>c. length (c_addHeapChan c))") (auto simp: heapWorker_step_def split: list.splits)

declare heapWorker_drain.simps [simp del]

section \<open>The cleaner\<close>

definition MaxCleanupBatchSize :: nat where "MaxCleanupBatchSize = 200"
definition MaxCleanupDuration :: duration where "MaxCleanupDuration = 10 * millisecond"
definition MaxStaleHeapCleanupSize :: nat where "MaxStaleHeapCleanupSize = 500"
definition AncientLimitLowPressure :: int where "AncientLimitLowPressure = 86400"
definition AncientLimitMidPressure :: int where "AncientLimitMidPressure = 7200"
definition AncientLimitHighPressure :: int where "AncientLimitHighPressure = 0"

definition pop_index :: "Cache \<Rightarrow> Cache" where
  "pop_index c = c\<lparr>c_expiredHeap := snd (heap_Pop expire_less (c_expiredHeap c))\<rparr>"

text \<open>Phase one: drop index entries whose key is gone or whose version is not the stored one, until
  the first valid one.\<close>

definition index_valid :: "Cache \<Rightarrow> expireEntry \<Rightarrow> bool" where
  "index_valid c entry = (case ShardedCache_GetNoUpdate (ee_key entry) (c_rawCache c) of
      None \<Rightarrow> False
    | Some currentEntry \<Rightarrow> raw_QueryVersion currentEntry = ee_queryVersion entry)"

lemma length_pop_index [simp]:
  "c_expiredHeap c \<noteq> [] \<Longrightarrow> length (c_expiredHeap (pop_index c)) < length (c_expiredHeap c)"
  by (simp add: pop_index_def heap_Pop_length)

function clean_phase1 :: "(nat \<Rightarrow> instant) \<Rightarrow> instant \<Rightarrow> int \<Rightarrow> nat \<Rightarrow> nat \<Rightarrow> Cache \<Rightarrow> Cache \<times> nat" where
  "clean_phase1 clock startTime now k staleCleanedCount c =
     (if c_expiredHeap c = [] \<or> \<not> staleCleanedCount < MaxStaleHeapCleanupSize then (c, k)
      else if MaxCleanupDuration < clock k - startTime then (c, k + 1)
      else (let entry = hd (c_expiredHeap c) in
            if \<not> index_valid c entry then
              (let c1 = pop_index c;
                   c2 = (if ee_expiry entry \<le> now
                         then c1\<lparr>c_actualExpiredCount := c_actualExpiredCount c1 - 1\<rparr> else c1)
               in clean_phase1 clock startTime now (k + 1) (staleCleanedCount + 1) c2)
            else (c, k + 1)))"
  by pat_completeness auto
termination
  by (relation "measure (\<lambda>(clock, s, now, k, n, c). length (c_expiredHeap c))") (auto simp: Let_def)

declare clean_phase1.simps [simp del]

text \<open>Phase two: delete what is due, as far as pressure and configuration allow.\<close>

function clean_phase2 :: "(nat \<Rightarrow> instant) \<Rightarrow> instant \<Rightarrow> int \<Rightarrow> bool \<Rightarrow> int \<Rightarrow> nat \<Rightarrow> nat \<Rightarrow> Cache \<Rightarrow>
    Cache \<times> nat \<times> nat" where
  "clean_phase2 clock startTime now isHighPressure ancientLimit k cleanedCount c =
     (if c_expiredHeap c = [] \<or> MaxCleanupBatchSize \<le> cleanedCount then (c, k, cleanedCount)
      else if MaxCleanupDuration < clock k - startTime then (c, k + 1, cleanedCount)
      else (let entry = hd (c_expiredHeap c) in
            if now < ee_expiry entry then (c, k + 1, cleanedCount)
            else if \<not> index_valid c entry then
              clean_phase2 clock startTime now isHighPressure ancientLimit (k + 1) cleanedCount (pop_index c)
            else if isHighPressure
                \<or> (\<not> cache_KeepExpiredEntries (c_config c) \<and> ee_expiry entry + ancientLimit \<le> now) then
              (let c1 = pop_index (c\<lparr>c_rawCache := ShardedCache_Delete (ee_key entry) (c_rawCache c),
                                     c_evictions := c_evictions c + 1\<rparr>)
               in clean_phase2 clock startTime now isHighPressure ancientLimit (k + 1) (cleanedCount + 1)
                    (c1\<lparr>c_actualExpiredCount := c_actualExpiredCount c1 - 1\<rparr>))
            else (c, k + 1, cleanedCount)))"
  by pat_completeness auto
termination
  by (relation "measure (\<lambda>(clock, s, now, hp, al, k, n, c). length (c_expiredHeap c))")
     (auto simp: Let_def pop_index_def heap_Pop_length)

declare clean_phase2.simps [simp del]

definition recalculateActualExpiredCount :: "int \<Rightarrow> Cache \<Rightarrow> Cache" where
  "recalculateActualExpiredCount now c =
     c\<lparr>c_actualExpiredCount := int (length (filter (index_valid c)
          (takeWhile (\<lambda>e. ee_expiry e \<le> now) (c_expiredHeap c))))\<rparr>"

definition cleanExpiredSortedCache :: "instant \<Rightarrow> int \<Rightarrow> Cache \<Rightarrow> Cache" where
  "cleanExpiredSortedCache now ancientLimit c =
     c\<lparr>c_sortedCache := snd (ShardedLRUCache_CleanExpired (\<lambda>entry.
          sorted_Timestamp entry + sorted_TTL entry * second + ancientLimit * second < now)
        (c_sortedCache c))\<rparr>"

definition cleanExpiredErrorCache :: "instant \<Rightarrow> Cache \<Rightarrow> Cache" where
  "cleanExpiredErrorCache now c =
     c\<lparr>c_errorCache := snd (LRUCache_CleanExpired (ErrorCacheEntry_IsExpired now) (c_errorCache c))\<rparr>"

text \<open>The eviction count is taken under \<open>c.mu\<close>, which the caller of \<open>CleanExpired\<close> holds.\<close>

definition cleanExpiredMsgCache :: "instant \<Rightarrow> Cache \<Rightarrow> Cache option" where
  "cleanExpiredMsgCache now c =
     (let (expiredCount, mc) = LRUCache_CleanExpired (DNSSECCacheEntry_IsExpired now) (c_msgCache c)
      in if 0 < expiredCount then None else Some (c\<lparr>c_msgCache := mc\<rparr>))"

definition cleanAuxiliaryCaches :: "instant \<Rightarrow> int \<Rightarrow> Cache \<Rightarrow> Cache option" where
  "cleanAuxiliaryCaches now ancientLimit c =
     (let c1 = cleanExpiredSortedCache now ancientLimit c;
          c2 = cleanExpiredErrorCache now c1;
          c3 = cleanCompletedSortingStates c2
      in map_option (cleanAdBlockCaches now) (cleanExpiredMsgCache now c3))"

definition pressure_threshold :: "Cache \<Rightarrow> rat" where
  "pressure_threshold c = (let t = cache_EvictionThreshold (c_config c) in if t \<le> 0 then 9 / 10 else t)"

definition ancient_limit :: "rat \<Rightarrow> rat \<Rightarrow> int" where
  "ancient_limit usage threshold =
     (if usage < 1 / 2 then AncientLimitLowPressure
      else if usage < threshold then AncientLimitMidPressure
      else AncientLimitHighPressure)"

text \<open>The part of \<open>CleanExpired\<close> before the auxiliary caches.\<close>

definition clean_raw :: "(nat \<Rightarrow> instant) \<Rightarrow> Cache \<Rightarrow> Cache \<times> nat \<times> int" where
  "clean_raw clock c =
     (let usage = getMemoryUsagePercentLocked c;
          now = unix (clock 0);
          threshold = pressure_threshold c;
          isHighPressure = (threshold \<le> usage);
          ancientLimit = ancient_limit usage threshold;
          startTime = clock 1;
          (c1, k1) = clean_phase1 clock startTime now 2 0 c;
          c2 = c1\<lparr>c_staleHeapCount := int (length (c_expiredHeap c1))\<rparr>;
          (c3, k3, cleanedCount) = clean_phase2 clock startTime now isHighPressure ancientLimit k1 0 c2;
          c4 = recalculateActualExpiredCount now c3;
          c5 = c4\<lparr>c_lastCleanupTime := clock k3, c_lastCleanupCount := int cleanedCount,
                  c_lastCleanupDuration := clock (k3 + 1) - startTime\<rparr>
      in (c5, k3 + 2, ancientLimit))"

definition CleanExpired :: "(nat \<Rightarrow> instant) \<Rightarrow> Cache \<Rightarrow> Cache option" where
  "CleanExpired clock c = (case clean_raw clock c of
      (c5, k, ancientLimit) \<Rightarrow> cleanAuxiliaryCaches (clock k) ancientLimit c5)"

section \<open>What the loops change\<close>

definition raw_of :: "Cache \<Rightarrow> string \<Rightarrow> RawCacheEntry option" where
  "raw_of c k = ShardedCache_GetNoUpdate k (c_rawCache c)"

lemma index_valid_raw: "index_valid c e \<longleftrightarrow>
    (\<exists>r. raw_of c (ee_key e) = Some r \<and> raw_QueryVersion r = ee_queryVersion e)"
  by (simp add: index_valid_def raw_of_def split: option.splits)

lemma pop_index_frame [simp]: "c_rawCache (pop_index c) = c_rawCache c"
  "c_config (pop_index c) = c_config c" "c_msgCache (pop_index c) = c_msgCache c"
  "c_evictions (pop_index c) = c_evictions c"
  by (simp_all add: pop_index_def)

lemma set_pop_index: "c_expiredHeap c \<noteq> [] \<Longrightarrow> set (c_expiredHeap (pop_index c)) \<subseteq> set (c_expiredHeap c)"
proof -
  assume ne: "c_expiredHeap c \<noteq> []"
  let ?h = "c_expiredHeap c"
  let ?d = "heap_down expire_less (go_swap 0 (length ?h - 1) ?h) 0 (length ?h - 1)"
  have "mset ?d = mset ?h" using ne by (simp add: mset_heap_down mset_go_swap)
  then have "set ?d = set ?h" by (rule mset_eq_setD)
  then show ?thesis by (auto simp: pop_index_def heap_Pop_def Let_def dest: in_set_butlastD)
qed

lemma clean_phase1_frame:
  "clean_phase1 clock st now k n c = (c', k') \<Longrightarrow>
   c_rawCache c' = c_rawCache c \<and> c_config c' = c_config c \<and> c_msgCache c' = c_msgCache c
   \<and> c_evictions c' = c_evictions c \<and> set (c_expiredHeap c') \<subseteq> set (c_expiredHeap c)"
proof (induction clock st now k n c arbitrary: rule: clean_phase1.induct)
  case (1 clock st now k n c)
  note def = clean_phase1.simps[of clock st now k n c]
  show ?case
  proof (cases "c_expiredHeap c = [] \<or> \<not> n < MaxStaleHeapCleanupSize
      \<or> MaxCleanupDuration < clock k - st \<or> index_valid c (hd (c_expiredHeap c))")
    case True
    then show ?thesis using 1(2) by (auto simp: def Let_def split: if_splits)
  next
    case False
    define c2 where "c2 = (if ee_expiry (hd (c_expiredHeap c)) \<le> now
       then (pop_index c)\<lparr>c_actualExpiredCount := c_actualExpiredCount (pop_index c) - 1\<rparr> else pop_index c)"
    have rec: "clean_phase1 clock st now (k + 1) (n + 1) c2 = (c', k')"
      using 1(2) False unfolding def by (simp add: Let_def c2_def)
    have "c_rawCache c' = c_rawCache c2 \<and> c_config c' = c_config c2 \<and> c_msgCache c' = c_msgCache c2
       \<and> c_evictions c' = c_evictions c2 \<and> set (c_expiredHeap c') \<subseteq> set (c_expiredHeap c2)"
      using 1(1)[OF _ _ refl _ refl c2_def rec] False by simp
    moreover have "c_rawCache c2 = c_rawCache c" "c_config c2 = c_config c"
      "c_msgCache c2 = c_msgCache c" "c_evictions c2 = c_evictions c"
      "c_expiredHeap c2 = c_expiredHeap (pop_index c)" by (simp_all add: c2_def)
    ultimately show ?thesis using False set_pop_index[of c] by auto
  qed
qed

text \<open>Phase two deletes a key only for a due, valid index entry, at most as many as the batch
  allows, and counts each as an eviction.\<close>

definition deletable :: "int \<Rightarrow> bool \<Rightarrow> int \<Rightarrow> Cache \<Rightarrow> string \<Rightarrow> bool" where
  "deletable now high ancient c key \<longleftrightarrow>
     (\<exists>e \<in> set (c_expiredHeap c). ee_key e = key \<and> index_valid c e \<and> ee_expiry e \<le> now \<and>
        (high \<or> \<not> cache_KeepExpiredEntries (c_config c) \<and> ee_expiry e + ancient \<le> now))"

lemma raw_of_simps [simp]: "raw_of (c\<lparr>c_actualExpiredCount := x\<rparr>) = raw_of c"
  "raw_of (c\<lparr>c_staleHeapCount := y\<rparr>) = raw_of c" "raw_of (pop_index c) = raw_of c"
  by (simp_all add: raw_of_def fun_eq_iff)

lemma raw_of_delete:
  "ShardedCache_inv (c_rawCache c) \<Longrightarrow>
   raw_of (c\<lparr>c_rawCache := ShardedCache_Delete k (c_rawCache c), c_evictions := n\<rparr>) j =
     (if j = k then None else raw_of c j)"
  by (simp add: raw_of_def sharded_delete_ok)

lemma clean_phase2_safe:
  "clean_phase2 clock st now high ancient k n c = (c', k', n') \<Longrightarrow> ShardedCache_inv (c_rawCache c) \<Longrightarrow>
   n \<le> MaxCleanupBatchSize \<Longrightarrow>
   ShardedCache_inv (c_rawCache c') \<and> n \<le> n' \<and> n' \<le> MaxCleanupBatchSize
   \<and> c_config c' = c_config c \<and> c_msgCache c' = c_msgCache c
   \<and> set (c_expiredHeap c') \<subseteq> set (c_expiredHeap c)
   \<and> c_evictions c' = c_evictions c + int (n' - n)
   \<and> (\<forall>j. raw_of c' j = raw_of c j \<or> raw_of c' j = None \<and> deletable now high ancient c j)"
proof (induction clock st now high ancient k n c rule: clean_phase2.induct)
  case (1 clock st now high ancient k n c)
  let ?e = "hd (c_expiredHeap c)"
  let ?due = "high \<or> \<not> cache_KeepExpiredEntries (c_config c) \<and> ee_expiry ?e + ancient \<le> now"
  note def = clean_phase2.simps[of clock st now high ancient k n c]
  consider (stop) "c_expiredHeap c = [] \<or> MaxCleanupBatchSize \<le> n \<or> MaxCleanupDuration < clock k - st
        \<or> now < ee_expiry ?e \<or> index_valid c ?e \<and> \<not> ?due"
    | (drop) "c_expiredHeap c \<noteq> []" "\<not> MaxCleanupBatchSize \<le> n" "\<not> MaxCleanupDuration < clock k - st"
        "\<not> now < ee_expiry ?e" "\<not> index_valid c ?e"
    | (del) "c_expiredHeap c \<noteq> []" "\<not> MaxCleanupBatchSize \<le> n" "\<not> MaxCleanupDuration < clock k - st"
        "\<not> now < ee_expiry ?e" "index_valid c ?e" ?due
    by blast
  then show ?case
  proof cases
    case stop
    then have "c' = c \<and> n' = n" using 1(3) by (auto simp: def Let_def split: if_splits)
    then show ?thesis using 1(4,5) by simp
  next
    case drop
    have rec: "clean_phase2 clock st now high ancient (k + 1) n (pop_index c) = (c', k', n')"
      using 1(3) drop unfolding def by (simp add: Let_def)
    have sub: "deletable now high ancient (pop_index c) j \<Longrightarrow> deletable now high ancient c j" for j
      using set_pop_index[OF drop(1)] by (auto simp: deletable_def index_valid_raw)
    show ?thesis
      using 1(1)[OF _ _ refl _ _ rec] drop 1(4,5) set_pop_index[OF drop(1)] sub by auto
  next
    case del
    define c0 where "c0 = c\<lparr>c_rawCache := ShardedCache_Delete (ee_key ?e) (c_rawCache c),
        c_evictions := c_evictions c + 1\<rparr>"
    define c1 where "c1 = pop_index c0"
    define c2 where "c2 = c1\<lparr>c_actualExpiredCount := c_actualExpiredCount c1 - 1\<rparr>"
    have rec: "clean_phase2 clock st now high ancient (k + 1) (n + 1) c2 = (c', k', n')"
      using 1(3) del unfolding def by (simp add: Let_def c0_def c1_def c2_def)
    have inv: "ShardedCache_inv (c_rawCache c2)"
      using 1(4) by (simp add: c0_def c1_def c2_def sharded_delete_ok)
    have raw: "raw_of c2 j = (if j = ee_key ?e then None else raw_of c j)" for j
      unfolding c2_def c1_def c0_def raw_of_simps by (rule raw_of_delete[OF 1(4)])
    have heap: "set (c_expiredHeap c2) \<subseteq> set (c_expiredHeap c)"
      using set_pop_index[of c0] del(1) by (simp add: c0_def c1_def c2_def)
    have "?e \<in> set (c_expiredHeap c)" using del(1) by simp
    then have here: "deletable now high ancient c (ee_key ?e)"
      using del unfolding deletable_def by (intro bexI[of _ ?e]) auto
    have cfg: "c_config c2 = c_config c" "c_msgCache c2 = c_msgCache c" "c_evictions c2 = c_evictions c + 1"
      by (simp_all add: c0_def c1_def c2_def)
    have sub: "deletable now high ancient c2 j \<Longrightarrow> deletable now high ancient c j" for j
      using heap raw cfg by (auto simp: deletable_def index_valid_raw split: if_splits)
    have le: "n + 1 \<le> MaxCleanupBatchSize" using del(2) by simp
    have IH: "ShardedCache_inv (c_rawCache c') \<and> n + 1 \<le> n' \<and> n' \<le> MaxCleanupBatchSize
       \<and> c_config c' = c_config c2 \<and> c_msgCache c' = c_msgCache c2
       \<and> set (c_expiredHeap c') \<subseteq> set (c_expiredHeap c2)
       \<and> c_evictions c' = c_evictions c2 + int (n' - (n + 1))
       \<and> (\<forall>j. raw_of c' j = raw_of c2 j \<or> raw_of c' j = None \<and> deletable now high ancient c2 j)"
      using 1(2)[of ?e c1] del rec inv le unfolding c2_def c1_def c0_def by simp
    then have "raw_of c' j = raw_of c j \<or> raw_of c' j = None \<and> deletable now high ancient c j" for j
      using raw[of j] here sub[of j] by (metis (full_types))
    then show ?thesis using IH cfg heap by auto
  qed
qed

lemma raw_of_unchanged: "c_rawCache c' = c_rawCache c \<Longrightarrow> raw_of c' = raw_of c"
  by (simp add: raw_of_def fun_eq_iff)

lemma clean_raw_safe:
  assumes "clean_raw clock c = (c', k, al)" "ShardedCache_inv (c_rawCache c)"
  defines "usage \<equiv> getMemoryUsagePercentLocked c" and "now \<equiv> unix (clock 0)"
  shows "al = ancient_limit usage (pressure_threshold c) \<and> ShardedCache_inv (c_rawCache c')
    \<and> c_config c' = c_config c \<and> c_msgCache c' = c_msgCache c
    \<and> c_evictions c' = c_evictions c + c_lastCleanupCount c'
    \<and> 0 \<le> c_lastCleanupCount c' \<and> c_lastCleanupCount c' \<le> 200
    \<and> set (c_expiredHeap c') \<subseteq> set (c_expiredHeap c)
    \<and> (\<forall>j. raw_of c' j = raw_of c j \<or> raw_of c' j = None \<and>
         deletable now (pressure_threshold c \<le> usage) al c j)"
proof -
  let ?al = "ancient_limit usage (pressure_threshold c)"
  obtain c1 k1 where p1: "clean_phase1 clock (clock 1) now 2 0 c = (c1, k1)" by force
  define c2 where "c2 = c1\<lparr>c_staleHeapCount := int (length (c_expiredHeap c1))\<rparr>"
  obtain c3 k3 n where p2: "clean_phase2 clock (clock 1) now (pressure_threshold c \<le> usage) ?al k1 0 c2
      = (c3, k3, n)" by (metis prod_cases3)
  note f1 = clean_phase1_frame[OF p1]
  have inv2: "ShardedCache_inv (c_rawCache c2)" using f1 assms(2) by (simp add: c2_def)
  note f2 = clean_phase2_safe[OF p2 inv2]
  have c': "c_rawCache c' = c_rawCache c3" "c_config c' = c_config c3" "c_msgCache c' = c_msgCache c3"
    "c_expiredHeap c' = c_expiredHeap c3" "c_evictions c' = c_evictions c3"
    "c_lastCleanupCount c' = int n" "al = ?al"
    using assms(1) p1 p2
    by (auto simp: clean_raw_def Let_def usage_def now_def c2_def recalculateActualExpiredCount_def
        split: prod.splits)
  have raw2: "raw_of c2 = raw_of c" using f1 by (intro raw_of_unchanged) (simp add: c2_def)
  have "deletable now hp al c2 j \<Longrightarrow> deletable now hp al c j" for hp al j
    using f1 raw2 by (auto simp: deletable_def index_valid_raw c2_def)
  then show ?thesis
    using f1 f2 c' raw2 raw_of_unchanged[OF c'(1)]
    by (auto simp: MaxCleanupBatchSize_def c2_def)
qed

lemma aux_frame:
  assumes "cleanAuxiliaryCaches now al c = Some c'"
  shows "c_rawCache c' = c_rawCache c \<and> c_evictions c' = c_evictions c \<and> c_config c' = c_config c
    \<and> c_expiredHeap c' = c_expiredHeap c \<and> c_lastCleanupCount c' = c_lastCleanupCount c"
  using assms
  by (auto simp: cleanAuxiliaryCaches_def Let_def cleanExpiredMsgCache_def cleanAdBlockCaches_def
      cleanCompletedSortingStates_def cleanExpiredErrorCache_def cleanExpiredSortedCache_def
      split: prod.splits if_splits)

lemma clean_raw_root:
  assumes "c_expiredHeap c \<noteq> []" "index_valid c (hd (c_expiredHeap c))"
    "unix (clock 0) < ee_expiry (hd (c_expiredHeap c))"
  shows "c_rawCache (fst (clean_raw clock c)) = c_rawCache c"
proof -
  let ?now = "unix (clock 0)"
  have "\<exists>k1. clean_phase1 clock (clock 1) ?now 2 0 c = (c, k1)"
    using assms(1,2) by (subst clean_phase1.simps) (simp add: Let_def)
  then obtain k1 where p1: "clean_phase1 clock (clock 1) ?now 2 0 c = (c, k1)" by blast
  let ?c2 = "c\<lparr>c_staleHeapCount := int (length (c_expiredHeap c))\<rparr>"
  have "\<exists>k. clean_phase2 clock (clock 1) ?now hp al k1 0 ?c2 = (?c2, k, 0)" for hp al
    using assms by (subst clean_phase2.simps) (auto simp: Let_def)
  then have "fst (clean_phase2 clock (clock 1) ?now hp al k1 0 ?c2) = ?c2" for hp al
    by (metis fst_conv)
  then show ?thesis
    using p1 by (simp add: clean_raw_def Let_def recalculateActualExpiredCount_def case_prod_unfold)
qed

section \<open>Properties\<close>

text \<open>C13: When \<open>CleanExpired\<close> returns, every raw answer is either untouched or was deleted for a
  reason: the expiry index held an entry for its key, with the version stored, that was due; and
  either memory pressure had reached the threshold, or expired entries are not to be kept and the
  entry was older than the pressure-dependent limit. At most 200 answers go in one call, and each
  is counted as an eviction. Below the threshold with expired entries kept, nothing is deleted.\<close>

theorem CleanExpired_deletes_only_due:
  assumes "ShardedCache_inv (c_rawCache c)" "CleanExpired clock c = Some c'"
  shows "(\<forall>j. raw_of c' j = raw_of c j \<or> raw_of c' j = None \<and>
      deletable (unix (clock 0)) (pressure_threshold c \<le> getMemoryUsagePercentLocked c)
        (ancient_limit (getMemoryUsagePercentLocked c) (pressure_threshold c)) c j)
    \<and> c_evictions c' - c_evictions c = c_lastCleanupCount c'
    \<and> 0 \<le> c_lastCleanupCount c' \<and> c_lastCleanupCount c' \<le> 200
    \<and> (getMemoryUsagePercentLocked c < pressure_threshold c \<and> cache_KeepExpiredEntries (c_config c)
        \<longrightarrow> raw_of c' = raw_of c)"
proof -
  obtain c5 k al where r: "clean_raw clock c = (c5, k, al)" by (metis prod_cases3)
  have a: "cleanAuxiliaryCaches (clock k) al c5 = Some c'" using assms(2) r by (simp add: CleanExpired_def)
  note s = clean_raw_safe[OF r assms(1)] and f = aux_frame[OF a]
  have raw: "raw_of c' = raw_of c5" using f by (intro raw_of_unchanged) simp
  have all: "\<forall>j. raw_of c' j = raw_of c j \<or> raw_of c' j = None \<and>
      deletable (unix (clock 0)) (pressure_threshold c \<le> getMemoryUsagePercentLocked c)
        (ancient_limit (getMemoryUsagePercentLocked c) (pressure_threshold c)) c j"
    using s raw by (simp only: conj_assoc) metis
  moreover have "raw_of c' = raw_of c"
    if "getMemoryUsagePercentLocked c < pressure_threshold c" "cache_KeepExpiredEntries (c_config c)"
    using all that by (fastforce simp: deletable_def)
  ultimately show ?thesis using s f by simp
qed

definition example_config :: "bool \<Rightarrow> rat \<Rightarrow> CacheConfig" where
  "example_config keep threshold =
     \<lparr>cache_FastResponseTTL = 15, cache_UserReturnTTL = 600, cache_MinTTLSeconds = 0,
      cache_MaxTTLSeconds = 0, cache_NegativeTTLSeconds = 300, cache_ErrorCacheTTL = 30,
      cache_MaxMemoryMB = 0, cache_KeepExpiredEntries = keep, cache_EvictionThreshold = threshold,
      cache_EvictionBatchPercent = 0, cache_ProtectPrefetchDomains = False,
      cache_SaveToDiskIntervalMinutes = 60, cache_MsgCacheSizeMB = 0,
      cache_DNSSECMsgCacheTTLSeconds = 300\<rparr>"

definition example_entry :: "int \<Rightarrow> RawCacheEntry" where
  "example_entry version = \<lparr>raw_Records = [], raw_IPs = [''192.0.2.1''], raw_CNAMEs = [], raw_UpstreamTTL = 60,
     raw_EffectiveTTL = 60, raw_AcquisitionTime = 0, raw_AuthenticatedData = False,
     raw_QueryVersion = version, raw_gracePeriod = 0\<rparr>"

definition example_cache :: Cache where
  "example_cache = (NewCache (example_config False 1))
     \<lparr>c_rawCache := ShardedCache_Set ''a#1'' (example_entry 7) (NewShardedCache 0 64),
      c_addHeapChan := [\<lparr>ee_key = ''a#1'', ee_expiry = 100, ee_queryVersion = 7\<rparr>,
                        \<lparr>ee_key = ''b#1'', ee_expiry = 50, ee_queryVersion = 8\<rparr>]\<rparr>"

lemma example_raw: "ShardedCache_inv (c_rawCache example_cache)"
  "ShardedCache_GetNoUpdate ''a#1'' (c_rawCache example_cache) = Some (example_entry 7)"
  using sharded_set_ok[OF sharded_new(1)] by (simp_all add: example_cache_def)

lemma clean_returns:
  assumes "ShardedCache_inv (c_rawCache c)" "c_msgCache c = NewLRUCache 0"
  shows "\<exists>c'. CleanExpired clock c = Some c'"
proof -
  obtain c5 k al where r: "clean_raw clock c = (c5, k, al)" by (metis prod_cases3)
  have "c_msgCache c5 = NewLRUCache 0"
    using clean_raw_safe[OF r assms(1)] assms(2) by simp
  then show ?thesis
    by (simp add: CleanExpired_def r cleanAuxiliaryCaches_def cleanExpiredMsgCache_def Let_def
        cleanExpiredSortedCache_def cleanExpiredErrorCache_def cleanCompletedSortingStates_def
        LRUCache_CleanExpired_def elems_to_remove_def NewLRUCache_def list_New_def)
qed

lemma example_cleans: "\<exists>c'. CleanExpired clock (heapWorker_drain example_cache) = Some c'"
  by (rule clean_returns)
     (simp_all add: heapWorker_drain.simps heapWorker_step_def example_cache_def NewCache_def
        example_config_def Let_def sharded_set_ok[OF sharded_new(1)])

theorem CleanExpired_deletes_only_due_witness:
  "\<exists>c'. CleanExpired (\<lambda>_. 60 * second) (heapWorker_drain example_cache) = Some c'
    \<and> c_lastCleanupCount c' \<le> 200"
proof -
  obtain c' where c': "CleanExpired (\<lambda>_. 60 * second) (heapWorker_drain example_cache) = Some c'"
    using example_cleans by blast
  have "c_rawCache (heapWorker_drain example_cache) = c_rawCache example_cache"
    by (simp add: heapWorker_drain.simps heapWorker_step_def example_cache_def)
  then show ?thesis
    using CleanExpired_deletes_only_due[OF _ c'] example_raw(1) c' by auto
qed

text \<open>C27: \<open>CleanExpired\<close> never returns when the DNSSEC message cache holds an expired message at the
  moment that cache is cleaned: the cleaner then locks the mutex its caller holds. Otherwise it
  returns.\<close>

theorem CleanExpired_blocks_iff:
  assumes "ShardedCache_inv (c_rawCache c)" "LRUCache_inv (c_msgCache c)"
  shows "CleanExpired clock c = None \<longleftrightarrow>
    (\<exists>(key, e) \<in> set (LRUCache_content (c_msgCache c)).
       DNSSECCacheEntry_IsExpired (clock (fst (snd (clean_raw clock c)))) e)"
proof -
  obtain c5 k al where r: "clean_raw clock c = (c5, k, al)" by (metis prod_cases3)
  obtain n mc where m: "LRUCache_CleanExpired (DNSSECCacheEntry_IsExpired (clock k)) (c_msgCache c) = (n, mc)"
    by force
  note cl = LRUCache_CleanExpired_refines[OF assms(2) m]
  have msg: "c_msgCache c5 = c_msgCache c" using clean_raw_safe[OF r assms(1)] by simp
  have "CleanExpired clock c = None \<longleftrightarrow> 0 < n"
    by (simp add: CleanExpired_def r cleanAuxiliaryCaches_def Let_def cleanExpiredMsgCache_def msg m
        cleanExpiredSortedCache_def cleanExpiredErrorCache_def cleanCompletedSortingStates_def)
  also have "\<dots> \<longleftrightarrow> length (filter (\<lambda>p. \<not> DNSSECCacheEntry_IsExpired (clock k) (snd p)) (LRUCache_content (c_msgCache c)))
      < length (LRUCache_content (c_msgCache c))"
    using cl by auto
  also have "\<dots> \<longleftrightarrow> (\<exists>p \<in> set (LRUCache_content (c_msgCache c)). DNSSECCacheEntry_IsExpired (clock k) (snd p))"
    by (metis (mono_tags, lifting) filter_True length_filter_less nat_neq_iff)
  finally show ?thesis unfolding r case_prod_unfold by simp
qed

definition example_msg_cache :: Cache where
  "example_msg_cache = SetMsg 0 ''a'' 1 \<lparr>msg_Question = [], msg_Rcode = 0, msg_AuthenticatedData = False,
    msg_Answer = [], msg_Ns = [], msg_Extra = []\<rparr>
     (NewCache (example_config True 1))"

theorem CleanExpired_blocks_iff_witness:
  "CleanExpired (\<lambda>_. 400 * second) example_msg_cache = None"
proof -
  let ?e = "\<lparr>dnssec_Message = \<lparr>msg_Question = [], msg_Rcode = 0, msg_AuthenticatedData = False,
    msg_Answer = [], msg_Ns = [], msg_Extra = []\<rparr>,
    dnssec_AcquisitionTime = 0, dnssec_TTL = 300\<rparr>"
  have m: "c_msgCache example_msg_cache = fst (LRUCache_Set (cacheKey ''a'' 1) ?e (NewLRUCache 0))"
    by (simp add: example_msg_cache_def SetMsg_def extractMinTTLFromMsg_def Let_def NewCache_def
        example_config_def)
  have r: "c_rawCache example_msg_cache = NewShardedCache 0 64"
    by (simp add: example_msg_cache_def SetMsg_def NewCache_def example_config_def Let_def
        CalculateMaxEntries_def)
  have i: "LRUCache_inv (c_msgCache example_msg_cache)"
    unfolding m by (rule lru.set_keeps(1)[OF LRUCache_inv_New(1)])
  have "(cacheKey ''a'' 1, ?e) \<in> set (LRUCache_content (c_msgCache example_msg_cache))"
    unfolding m lru.set_refines[OF LRUCache_inv_New(1)]
    by (simp add: LRUCache_inv_New spec_set_def spec_trim_def NewLRUCache_def)
  moreover have "DNSSECCacheEntry_IsExpired (400 * second) ?e"
    by (simp add: DNSSECCacheEntry_IsExpired_def seconds_def second_def)
  ultimately show ?thesis
    using CleanExpired_blocks_iff[OF _ i, of "\<lambda>_. 400 * second"] r by (auto simp: sharded_new)
qed

text \<open>The goroutine appends to the expiry index without restoring heap order. When two entries
  arrive with the later-expiring one first, the index is no heap; the due entry behind the root is
  not counted, and \<open>CleanExpired\<close> deletes nothing however high the pressure, as long as the root is
  valid and not due. With \<open>heap.Push\<close> the due entry would be the root.\<close>

theorem heapWorker_hides_due_entry:
  assumes "c_expiredHeap c = []" "c_addHeapChan c = [a, b]" "index_valid c a"
    "ee_expiry b \<le> unix (clock 0)" "unix (clock 0) < ee_expiry a"
  shows "\<not> heap_ok expire_less (c_expiredHeap (heapWorker_drain c))
    \<and> b \<in> set (c_expiredHeap (heapWorker_drain c))
    \<and> GetExpiredHeapEntries (clock 0) (heapWorker_drain c) = 0
    \<and> raw_of (fst (clean_raw clock (heapWorker_drain c))) = raw_of c
    \<and> hd (heap_Push expire_less b (heap_Push expire_less a [])) = b"
proof -
  let ?c = "heapWorker_drain c"
  have c: "?c = c\<lparr>c_addHeapChan := [], c_expiredHeap := [a, b]\<rparr>"
    using assms(1,2) by (simp add: heapWorker_drain.simps heapWorker_step_def expireHeap_Push_def)
  have lt: "expire_less b a" using assms(4,5) by (simp add: expire_less_def)
  have "\<not> heap_ok expire_less [a, b]"
    using lt by (auto simp: heap_ok_def heap_parent_def intro!: exI[of _ "1::nat"])
  moreover have "raw_of (fst (clean_raw clock ?c)) = raw_of c"
  proof -
    have "c_rawCache (fst (clean_raw clock ?c)) = c_rawCache ?c"
      by (rule clean_raw_root) (use assms in \<open>simp_all add: c index_valid_def\<close>)
    then show ?thesis by (intro raw_of_unchanged) (simp add: c)
  qed
  moreover have "hd (heap_Push expire_less b (heap_Push expire_less a [])) = b"
    using lt by (simp add: heap_Push_def heap_up.simps heap_parent_def go_swap_def Let_def)
  ultimately show ?thesis
    using assms(5) by (simp add: c GetExpiredHeapEntries_def)
qed

theorem heapWorker_hides_due_entry_witness:
  "GetExpiredHeapEntries (60 * second) (heapWorker_drain example_cache) = 0
   \<and> \<not> heap_ok expire_less (c_expiredHeap (heapWorker_drain example_cache))"
proof -
  let ?a = "\<lparr>ee_key = ''a#1'', ee_expiry = 100, ee_queryVersion = 7\<rparr>"
  let ?b = "\<lparr>ee_key = ''b#1'', ee_expiry = 50, ee_queryVersion = 8\<rparr>"
  have "index_valid example_cache ?a"
    using example_raw(2) by (simp add: index_valid_def example_entry_def)
  moreover have "c_expiredHeap example_cache = []" "c_addHeapChan example_cache = [?a, ?b]"
    by (simp_all add: example_cache_def NewCache_def Let_def)
  ultimately show ?thesis
    using heapWorker_hides_due_entry[of example_cache ?a ?b "\<lambda>_. 60 * second"]
    by (simp add: unix_def second_def)
qed

end
