(* ===== verification/Cache_Persist.thy ===== *)
theory Cache_Persist
  imports Cache_Cleanup
begin

text \<open>\<open>cache/cache_persistence.go\<close>: saving the raw answers to a file and restoring them. A file is
  the sequence of \<open>encoding/gob\<close> messages in it. What the code relies on of that package is its
  documented rule for structs: a message decodes into a variable when the two types have a field
  name in common, and is an error otherwise; the end of the stream is \<open>io.EOF\<close>. Failures of the
  file system are parameters. The first decoder reads ahead, so what a second decoder on the same
  file still sees is the parameter \<open>left\<close>.\<close>

unbundle bit_operations_syntax

section \<open>Files\<close>

record PersistentCacheEntry =
  per_Domain :: string
  per_QType :: qtype
  per_IPs :: "string list"
  per_CNAME :: string
  per_CNAMEs :: "string list"
  per_AcquisitionTime :: int
  per_EffectiveTTL :: "32 word"
  per_GracePeriod :: "32 word"

record cacheFileHeader =
  hdr_Magic :: "32 word"
  hdr_Version :: "32 word"

record cacheFileFooter =
  ftr_Checksum :: "32 word"
  ftr_Count :: "64 word"

datatype gob_message =
    Gob_header cacheFileHeader
  | Gob_entry PersistentCacheEntry
  | Gob_footer cacheFileFooter
  | Gob_corrupt

datatype 'a decoded = Decoded 'a | Decode_EOF | Decode_error

text \<open>The three struct types share no field name.\<close>

fun decode_header :: "gob_message list \<Rightarrow> cacheFileHeader decoded" where
  "decode_header [] = Decode_EOF"
| "decode_header (Gob_header h # _) = Decoded h"
| "decode_header (_ # _) = Decode_error"

fun decode_entry :: "gob_message list \<Rightarrow> PersistentCacheEntry decoded" where
  "decode_entry [] = Decode_EOF"
| "decode_entry (Gob_entry e # _) = Decoded e"
| "decode_entry (_ # _) = Decode_error"

fun decode_footer :: "gob_message list \<Rightarrow> cacheFileFooter decoded" where
  "decode_footer [] = Decode_EOF"
| "decode_footer (Gob_footer f # _) = Decoded f"
| "decode_footer (_ # _) = Decode_error"

datatype io_error = Err_create | Err_open | Err_encode | Err_rename | Err_decode | Err_version | ErrChecksumMismatch

record io_outcome =
  io_create :: bool
  io_header :: bool
  io_entry :: "nat \<Rightarrow> bool"
  io_footer :: bool
  io_rename :: bool

type_synonym files = "string \<rightharpoonup> gob_message list"

definition cacheFileMagic :: "32 word" where "cacheFileMagic = 0x53444E53"
definition cacheFileVersion :: "32 word" where "cacheFileVersion = 1"

section \<open>CRC-32\<close>

definition crc_bit :: "32 word \<Rightarrow> 32 word" where
  "crc_bit c = (if bit c 0 then drop_bit 1 c XOR 0xEDB88320 else drop_bit 1 c)"

definition crc_byte :: "32 word \<Rightarrow> char \<Rightarrow> 32 word" where
  "crc_byte c b = (crc_bit ^^ 8) (c XOR of_char b)"

definition crc_update :: "32 word \<Rightarrow> string \<Rightarrow> 32 word" where
  "crc_update crc bs = NOT (foldl crc_byte (NOT crc) bs)"

definition crc_entry :: "32 word \<Rightarrow> PersistentCacheEntry \<Rightarrow> 32 word" where
  "crc_entry crc e = foldl crc_update (crc_update crc (per_Domain e)) (per_IPs e)"

section \<open>Saving\<close>

definition persistent_entry :: "string \<Rightarrow> qtype \<Rightarrow> RawCacheEntry \<Rightarrow> PersistentCacheEntry" where
  "persistent_entry domain qt entry =
     \<lparr>per_Domain = domain, per_QType = qt, per_IPs = raw_IPs entry,
      per_CNAME = (case raw_CNAMEs entry of [] \<Rightarrow> '''' | cn # _ \<Rightarrow> cn), per_CNAMEs = raw_CNAMEs entry,
      per_AcquisitionTime = unix (raw_AcquisitionTime entry), per_EffectiveTTL = raw_EffectiveTTL entry,
      per_GracePeriod = raw_gracePeriod entry\<rparr>"

text \<open>The callback given to \<open>StreamForEach\<close>; its state is the messages written, the checksum and
  the count.\<close>

type_synonym writer = "gob_message list \<times> 32 word \<times> nat"

definition save_entry :: "io_outcome \<Rightarrow> string \<Rightarrow> RawCacheEntry \<Rightarrow> writer \<Rightarrow> writer \<times> bool" where
  "save_entry io key entry w = (case w of (out, crc, n) \<Rightarrow>
     (let (domain, qt) = parseCacheKey key in
      if domain = '''' then (w, True)
      else (let pe = persistent_entry domain qt entry in
            if \<not> io_entry io n then (w, False)
            else ((out @ [Gob_entry pe], crc_entry crc pe, n + 1), True))))"

definition SaveToDisk :: "io_outcome \<Rightarrow> string \<Rightarrow> Cache \<Rightarrow> files \<Rightarrow>
    (io_error option \<times> Cache \<times> files) option" where
  "SaveToDisk io filename c fs =
     (let currentDirty = ShardedCache_GetDirtyCount (c_rawCache c);
          tempFile = filename @ ''.tmp'' in
      if c_lastSavedDirty c = currentDirty then Some (None, c, fs)
      else if \<not> io_create io then Some (Some Err_create, c, fs)
      else if \<not> io_header io then Some (Some Err_encode, c, fs(tempFile := None))
      else (case ShardedCache_StreamForEach (save_entry io) (c_rawCache c)
              ([Gob_header \<lparr>hdr_Magic = cacheFileMagic, hdr_Version = cacheFileVersion\<rparr>], 0, 0) of
          None \<Rightarrow> None
        | Some (out, crc, n) \<Rightarrow>
           (let closed = (n = 0 \<and> 0 < ShardedCache_Len (c_rawCache c)) in
            if closed \<or> \<not> io_footer io then Some (Some Err_encode, c, fs(tempFile := None))
            else (let content = out @ [Gob_footer \<lparr>ftr_Checksum = crc, ftr_Count = of_nat n\<rparr>] in
                  if \<not> io_rename io then Some (Some Err_rename, c, fs(tempFile \<mapsto> content))
                  else Some (None, c\<lparr>c_lastSavedDirty := currentDirty\<rparr>,
                             fs(tempFile := None, filename \<mapsto> content))))))"

section \<open>Loading\<close>

definition load_ttl :: "int \<Rightarrow> int \<Rightarrow> PersistentCacheEntry \<Rightarrow> 32 word" where
  "load_ttl now r entry =
     (if 0 < per_AcquisitionTime entry \<and> 0 < per_EffectiveTTL entry then
        (let elapsed = now - per_AcquisitionTime entry;
             remainingTTL = uint (per_EffectiveTTL entry) - elapsed
         in if 30 < remainingTTL then word_of_int remainingTTL else word_of_int (15 + r))
      else word_of_int (15 + r))"

text \<open>\<open>rnd k\<close> is the k-th result of \<open>rand.Intn(31)\<close>, \<open>t k\<close> the clock when entry k is stored.\<close>

definition restore_entry :: "int \<Rightarrow> (nat \<Rightarrow> int) \<Rightarrow> (nat \<Rightarrow> instant) \<Rightarrow> nat \<Rightarrow> PersistentCacheEntry \<Rightarrow>
    Cache \<Rightarrow> Cache" where
  "restore_entry now rnd t k entry c =
     (let key = cacheKey (per_Domain entry) (per_QType entry);
          cnames = (if per_CNAMEs entry = [] \<and> per_CNAME entry \<noteq> '''' then [per_CNAME entry]
                    else per_CNAMEs entry);
          loadTTL = load_ttl now (rnd k) entry
      in c\<lparr>c_rawCache := ShardedCache_Set key
            \<lparr>raw_Records = [], raw_IPs = per_IPs entry, raw_CNAMEs = cnames, raw_UpstreamTTL = loadTTL,
             raw_EffectiveTTL = loadTTL, raw_AcquisitionTime = t k, raw_AuthenticatedData = False,
             raw_QueryVersion = 0, raw_gracePeriod = per_GracePeriod entry\<rparr> (c_rawCache c)\<rparr>)"

fun restore_all :: "int \<Rightarrow> (nat \<Rightarrow> int) \<Rightarrow> (nat \<Rightarrow> instant) \<Rightarrow> nat \<Rightarrow> PersistentCacheEntry list \<Rightarrow>
    Cache \<Rightarrow> Cache" where
  "restore_all now rnd t k [] c = c"
| "restore_all now rnd t k (e # es) c = restore_all now rnd t (k + 1) es (restore_entry now rnd t k e c)"

text \<open>The reading loop: entries, checksum, and how it ended.\<close>

fun read_entries :: "gob_message list \<Rightarrow> 32 word \<Rightarrow> (PersistentCacheEntry list \<times> 32 word) option" where
  "read_entries [] crc = Some ([], crc)"
| "read_entries (Gob_entry e # ms) crc =
    (if per_Domain e = '''' \<and> per_IPs e = [] then Some ([], crc)
     else map_option (\<lambda>(es, crc'). (e # es, crc')) (read_entries ms (crc_entry crc e)))"
| "read_entries (_ # _) crc = None"

definition finish_load :: "Cache \<Rightarrow> Cache" where
  "finish_load c = c\<lparr>c_lastSavedDirty := ShardedCache_GetDirtyCount (c_rawCache c)\<rparr>"

fun load_legacy :: "int \<Rightarrow> (nat \<Rightarrow> int) \<Rightarrow> (nat \<Rightarrow> instant) \<Rightarrow> nat \<Rightarrow> gob_message list \<Rightarrow> Cache \<Rightarrow>
    io_error option \<times> Cache" where
  "load_legacy now rnd t k [] c = (None, finish_load c)"
| "load_legacy now rnd t k (m # ms) c = (case decode_entry (m # ms) of
      Decoded e \<Rightarrow> load_legacy now rnd t (k + 1) ms (restore_entry now rnd t k e c)
    | _ \<Rightarrow> (Some Err_decode, c))"

definition LoadFromDisk :: "bool \<Rightarrow> instant \<Rightarrow> (nat \<Rightarrow> int) \<Rightarrow> (nat \<Rightarrow> instant) \<Rightarrow> gob_message list \<Rightarrow> string \<Rightarrow>
    files \<Rightarrow> Cache \<Rightarrow> io_error option \<times> Cache" where
  "LoadFromDisk opened t_now rnd t left filename fs c = (case fs filename of
      None \<Rightarrow> (None, c)
    | Some ms \<Rightarrow> if \<not> opened then (Some Err_open, c) else (case decode_header ms of
          Decode_error \<Rightarrow> load_legacy (unix t_now) rnd t 0 ms c
        | Decode_EOF \<Rightarrow> load_legacy (unix t_now) rnd t 0 ms c
        | Decoded h \<Rightarrow>
           if hdr_Magic h \<noteq> cacheFileMagic then load_legacy (unix t_now) rnd t 0 ms c
           else if cacheFileVersion < hdr_Version h then (Some Err_version, c)
           else (case read_entries (tl ms) 0 of
                None \<Rightarrow> (Some Err_decode, c)
              | Some (entries, crc) \<Rightarrow>
                  if (case decode_footer left of Decoded f \<Rightarrow> 0 < ftr_Count f \<and> ftr_Checksum f \<noteq> crc
                      | _ \<Rightarrow> False)
                  then (Some ErrChecksumMismatch, c)
                  else (None, finish_load (restore_all (unix t_now) rnd t 0 entries c)))))"

section \<open>Lemmas\<close>

lemma read_entries_footer:
  "(\<forall>e \<in> set es. per_Domain e \<noteq> '''') \<Longrightarrow> read_entries (map Gob_entry es @ [Gob_footer f]) crc = None"
  by (induction es arbitrary: crc) auto

lemma stream_entries_save:
  assumes "stream_entries (save_entry io) kvs (out, crc, n) = (w, go)"
  shows "\<exists>es. fst w = out @ map Gob_entry es \<and> (\<forall>e \<in> set es. per_Domain e \<noteq> '''') \<and> snd (snd w) = n + length es"
  using assms
proof (induction kvs arbitrary: out crc n)
  case Nil
  then show ?case by auto
next
  case (Cons kv kvs)
  obtain k v where kv: "kv = (k, v)" by force
  obtain d q where d: "parseCacheKey k = (d, q)" by force
  let ?e = "persistent_entry d q v"
  consider (skip) "d = ''''" | (fail) "d \<noteq> ''''" "\<not> io_entry io n" | (wr) "d \<noteq> ''''" "io_entry io n" by blast
  then show ?case
  proof cases
    case skip
    then have "save_entry io k v (out, crc, n) = ((out, crc, n), True)" by (simp add: save_entry_def d)
    then show ?thesis using Cons.IH[of out crc n] Cons.prems kv by simp
  next
    case fail
    then have "save_entry io k v (out, crc, n) = ((out, crc, n), False)" by (simp add: save_entry_def d Let_def)
    then show ?thesis using Cons.prems kv by auto
  next
    case wr
    then have s: "save_entry io k v (out, crc, n) = ((out @ [Gob_entry ?e], crc_entry crc ?e, n + 1), True)"
      by (simp add: save_entry_def d Let_def)
    obtain es where "fst w = (out @ [Gob_entry ?e]) @ map Gob_entry es" "\<forall>e \<in> set es. per_Domain e \<noteq> ''''"
      "snd (snd w) = n + 1 + length es"
      using Cons.IH[of "out @ [Gob_entry ?e]" "crc_entry crc ?e" "n + 1"] Cons.prems kv s by auto
    then show ?thesis using wr by (intro exI[of _ "?e # es"]) (simp_all add: persistent_entry_def)
  qed
qed

lemma stream_shards_save:
  assumes "\<forall>s \<in> set ss. CacheShard_inv s"
  shows "\<exists>es crc'. stream_shards (save_entry io) ss (out, crc, n) = Some (out @ map Gob_entry es, crc', n + length es)
    \<and> (\<forall>e \<in> set es. per_Domain e \<noteq> '''')"
  using assms
proof (induction ss arbitrary: out crc n)
  case Nil
  then show ?case by (intro exI[of _ "[]"]) simp
next
  case (Cons s ss)
  have sn: "shard_snapshot s = Some (CacheShard_content s)"
    using Cons.prems by (simp add: shard_snapshot_content)
  obtain w go where st: "stream_entries (save_entry io) (CacheShard_content s) (out, crc, n) = (w, go)"
    by (rule prod.exhaust)
  obtain es where es: "fst w = out @ map Gob_entry es" "\<forall>e \<in> set es. per_Domain e \<noteq> ''''"
    "snd (snd w) = n + length es"
    using stream_entries_save[OF st] by auto
  have w: "w = (out @ map Gob_entry es, fst (snd w), n + length es)" using es by (cases w) auto
  show ?case
  proof (cases go)
    case True
    obtain es' crc' where "stream_shards (save_entry io) ss (out @ map Gob_entry es, fst (snd w), n + length es) =
        Some ((out @ map Gob_entry es) @ map Gob_entry es', crc', n + length es + length es')"
      "\<forall>e \<in> set es'. per_Domain e \<noteq> ''''"
      using Cons.IH[of "out @ map Gob_entry es" "fst (snd w)" "n + length es"] Cons.prems by auto
    then show ?thesis using True es sn st w by (intro exI[of _ "es @ es'"] exI[of _ crc']) auto
  next
    case False
    then show ?thesis using es sn st w by (intro exI[of _ es] exI[of _ "fst (snd w)"]) simp
  qed
qed

lemma restore_frame:
  "c_expiredHeap (restore_all now rnd t k es c) = c_expiredHeap c
   \<and> c_addHeapChan (restore_all now rnd t k es c) = c_addHeapChan c"
  by (induction es arbitrary: k c) (simp_all add: restore_entry_def Let_def)

lemma restore_entry_inv: "ShardedCache_inv (c_rawCache c) \<Longrightarrow> ShardedCache_inv (c_rawCache (restore_entry now rnd t k e c))"
  by (simp add: restore_entry_def Let_def sharded_set_ok)

lemma restore_all_inv: "ShardedCache_inv (c_rawCache c) \<Longrightarrow> ShardedCache_inv (c_rawCache (restore_all now rnd t k es c))"
  by (induction es arbitrary: k c) (simp_all add: restore_entry_inv)

lemma load_legacy_frame:
  "load_legacy now rnd t k ms c = (err, c') \<Longrightarrow> ShardedCache_inv (c_rawCache c) \<Longrightarrow>
   c_expiredHeap c' = c_expiredHeap c \<and> c_addHeapChan c' = c_addHeapChan c \<and> ShardedCache_inv (c_rawCache c')"
proof (induction ms arbitrary: k c)
  case Nil
  then show ?case by (auto simp: finish_load_def)
next
  case (Cons m ms)
  show ?case
  proof (cases m)
    case (Gob_entry e)
    then have rec: "load_legacy now rnd t (k + 1) ms (restore_entry now rnd t k e c) = (err, c')"
      using Cons.prems(1) by simp
    show ?thesis
      using Cons.IH[OF rec restore_entry_inv[OF Cons.prems(2)]] by (simp add: restore_entry_def Let_def)
  qed (use Cons.prems in auto)
qed

lemma LoadFromDisk_frame:
  assumes "LoadFromDisk opened t_now rnd t left f fs c = (err, c')" "ShardedCache_inv (c_rawCache c)"
  shows "c_expiredHeap c' = c_expiredHeap c \<and> c_addHeapChan c' = c_addHeapChan c
    \<and> ShardedCache_inv (c_rawCache c')"
  using assms load_legacy_frame[OF _ assms(2)] restore_frame restore_all_inv[OF assms(2)]
  by (auto simp: LoadFromDisk_def finish_load_def split: option.splits decoded.splits if_splits prod.splits)

lemma load_ttl_cases:
  "0 \<le> r \<Longrightarrow> r < 31 \<Longrightarrow> load_ttl now r e =
     (if 0 < per_AcquisitionTime e \<and> 0 < per_EffectiveTTL e
         \<and> 30 < uint (per_EffectiveTTL e) - (now - per_AcquisitionTime e)
      then word_of_int (uint (per_EffectiveTTL e) - (now - per_AcquisitionTime e))
      else word_of_int (15 + r))"
  by (simp add: load_ttl_def Let_def)

section \<open>Properties\<close>

text \<open>C28: A file that \<open>SaveToDisk\<close> has written cannot be read back: whatever the cache, and
  whichever entries could be encoded, \<open>LoadFromDisk\<close> of that file by any cache ends with the decoding error of the
  footer, which shares no field name with an entry, and restores no answer at all.\<close>

theorem SaveToDisk_LoadFromDisk_fails:
  assumes "ShardedCache_inv (c_rawCache c)"
    "c_lastSavedDirty c \<noteq> ShardedCache_GetDirtyCount (c_rawCache c)"
    "SaveToDisk io filename c fs = Some (None, c', fs')"
  shows "LoadFromDisk True now rnd t left filename fs' c2 = (Some Err_decode, c2)"
proof -
  let ?h = "Gob_header \<lparr>hdr_Magic = cacheFileMagic, hdr_Version = cacheFileVersion\<rparr>"
  have "\<forall>s \<in> set (sc_shards (c_rawCache c)). CacheShard_inv s"
    using assms(1) by (auto simp: ShardedCache_inv_def shards_ok_def in_set_conv_nth)
  then obtain es crc where es: "ShardedCache_StreamForEach (save_entry io) (c_rawCache c) ([?h], 0, 0)
      = Some ([?h] @ map Gob_entry es, crc, 0 + length es)" "\<forall>e \<in> set es. per_Domain e \<noteq> ''''"
    using stream_shards_save[of "sc_shards (c_rawCache c)" io "[?h]" 0 0]
    unfolding ShardedCache_StreamForEach_def by blast
  have "fs' filename = Some (?h # map Gob_entry es @ [Gob_footer \<lparr>ftr_Checksum = crc, ftr_Count = of_nat (length es)\<rparr>])"
    using assms(2,3) es(1) by (auto simp: SaveToDisk_def Let_def split: if_splits)
  then show ?thesis
    using es(2) by (simp add: LoadFromDisk_def read_entries_footer)
qed

definition all_io :: io_outcome where
  "all_io = \<lparr>io_create = True, io_header = True, io_entry = (\<lambda>_. True), io_footer = True, io_rename = True\<rparr>"

definition example_saved :: Cache where
  "example_saved = (NewCache (example_config False 1))
     \<lparr>c_rawCache := ShardedCache_Set ''a#1'' (example_entry 7) (NewShardedCache 0 1)\<rparr>"

lemma example_shards:
  "map shard_snapshot (sc_shards (ShardedCache_Set ''a#1'' (example_entry 7) (NewShardedCache 0 1)))
    = [Some [(''a#1'', example_entry 7)]]"
  by code_simp (simp add: CacheList_walk.simps example_entry_def)

lemma example_key: "cacheKey ''a'' 1 = ''a#1''" "parseCacheKey ''a#1'' = (''a'', 1)"
proof -
  show k: "cacheKey ''a'' 1 = ''a#1''" by code_simp
  have "ToLower ''a'' = ''a''" by code_simp
  then show "parseCacheKey ''a#1'' = (''a'', 1)" using k parse_cacheKey[of "''a''" 1] by simp
qed

lemma example_stream:
  "\<exists>crc. ShardedCache_StreamForEach (save_entry all_io) (c_rawCache example_saved) (out, c, 0) =
     Some (out @ [Gob_entry (persistent_entry ''a'' 1 (example_entry 7))], crc, 1)"
proof -
  obtain sh where "sc_shards (c_rawCache example_saved) = [sh]"
      "shard_snapshot sh = Some [(''a#1'', example_entry 7)]"
    using example_shards by (cases "sc_shards (c_rawCache example_saved)") (auto simp: example_saved_def)
  then show ?thesis
    unfolding ShardedCache_StreamForEach_def by (simp add: save_entry_def all_io_def example_key Let_def)
qed

theorem SaveToDisk_LoadFromDisk_fails_witness:
  "\<exists>c' fs'. SaveToDisk all_io ''f'' example_saved Map.empty = Some (None, c', fs')
    \<and> LoadFromDisk True 0 (\<lambda>_. 0) (\<lambda>_. 0) [] ''f'' fs' example_cache = (Some Err_decode, example_cache)"
proof -
  let ?raw = "c_rawCache example_saved"
  have inv: "ShardedCache_inv ?raw"
    using sharded_set_ok[OF sharded_new(1)] by (simp add: example_saved_def)
  have "ShardedCache_GetDirtyCount (ShardedCache_Set ''a#1'' (example_entry 7) (NewShardedCache 0 1)) = 1"
    by code_simp
  then have dirty: "c_lastSavedDirty example_saved \<noteq> ShardedCache_GetDirtyCount ?raw"
    by (simp add: example_saved_def NewCache_def Let_def)
  have "\<exists>c' fs'. SaveToDisk all_io ''f'' example_saved Map.empty = Some (None, c', fs')"
    using dirty example_stream[of "[Gob_header \<lparr>hdr_Magic = cacheFileMagic, hdr_Version = cacheFileVersion\<rparr>]" 0]
    by (auto simp: SaveToDisk_def Let_def all_io_def)
  then show ?thesis using SaveToDisk_LoadFromDisk_fails[OF inv dirty] by blast
qed

text \<open>The TTL given to a restored answer: the exact remaining lifetime when the file has a
  positive acquisition time and TTL and more than 30 seconds are left of it; otherwise between 15 and 45
  seconds. It is never longer than the lifetime that was left, or 45 seconds, and never below 15.\<close>

theorem load_ttl_bounds:
  assumes "0 \<le> r" "r < 31" "per_AcquisitionTime e \<le> now"
  shows "(let left = uint (per_EffectiveTTL e) - (now - per_AcquisitionTime e) in
     uint (load_ttl now r e) =
       (if 0 < per_AcquisitionTime e \<and> 0 < per_EffectiveTTL e \<and> 30 < left then left else 15 + r))
     \<and> 15 \<le> uint (load_ttl now r e) \<and> uint (load_ttl now r e) \<le> max 45 (uint (per_EffectiveTTL e))"
proof -
  have "uint (per_EffectiveTTL e) < 2 ^ 32" using uint_bounded[of "per_EffectiveTTL e"] by simp
  then have "30 < uint (per_EffectiveTTL e) - (now - per_AcquisitionTime e) \<Longrightarrow>
    uint (word_of_int (uint (per_EffectiveTTL e) - (now - per_AcquisitionTime e)) :: 32 word)
      = uint (per_EffectiveTTL e) - (now - per_AcquisitionTime e)"
    using assms(3) by (subst uint_word_of_int_eq) (simp add: take_bit_int_eq_self)
  moreover have "uint (word_of_int (15 + r) :: 32 word) = 15 + r"
    using assms(1,2) by (subst uint_word_of_int_eq) (simp add: take_bit_int_eq_self)
  ultimately show ?thesis
    using assms by (auto simp: load_ttl_cases Let_def)
qed

definition example_file_entry :: PersistentCacheEntry where
  "example_file_entry = \<lparr>per_Domain = ''a'', per_QType = 1, per_IPs = [''192.0.2.1''], per_CNAME = '''',
     per_CNAMEs = [], per_AcquisitionTime = 1000, per_EffectiveTTL = 60, per_GracePeriod = 0\<rparr>"

theorem load_ttl_bounds_witness:
  "uint (load_ttl 1020 7 example_file_entry) = 40 \<and> uint (load_ttl 1050 7 example_file_entry) = 22"
  using load_ttl_bounds[of 7 example_file_entry 1020] load_ttl_bounds[of 7 example_file_entry 1050]
  by (simp add: example_file_entry_def)

end
