(* ===== verification/Cache_Runs.thy ===== *)
theory Cache_Runs
  imports Cache_Laws Cache_Persist
begin

text \<open>Runs of a \<open>Cache\<close>: every operation of \<open>cache/*.go\<close> on a \<open>Cache\<close> that changes state is a step, and
  so is each step of its goroutines; the label says what a step does to sorting tasks and to the raw
  answers. An operation is one step: what it does outside \<open>c.mu\<close> (a store in one shard, an entry sent
  to a channel) falls before or after the operations of others. \<open>LoadFromDisk\<close> is called once, before anything else runs, and is where a run starts. The
  properties are about all runs: how long a sorting task stays the only one of its key, and that the
  cleaner never deletes an answer restored from disk.\<close>

section \<open>Steps\<close>

datatype cache_event = Ev_store string | Ev_start string | Ev_finish nat | Ev_cancel string
  | Ev_clean | Ev_clear | Ev_quiet

inductive cache_step :: "cache_event \<Rightarrow> Cache \<Rightarrow> Cache \<Rightarrow> bool" where
  ev_set_raw_version: "cache_step (Ev_store (cacheKey d q)) c
     (SetRawWithDNSSECAndVersion t_acq t_exp d q ips cnames ttl auth v c)"
| ev_set_raw: "cache_step (Ev_store (cacheKey d q)) c
     (SetRawWithDNSSEC t_ver t_acq t_exp d q ips cnames ttl auth c)"
| ev_set_records_version: "cache_step (Ev_store (cacheKey d q)) c
     (SetRawRecordsWithDNSSECAndVersion t_acq t_exp d q rrs cnames ttl auth v c)"
| ev_set_records: "cache_step (Ev_store (cacheKey d q)) c
     (SetRawRecordsWithDNSSEC t_ver t_acq t_exp d q rrs cnames ttl auth c)"
| ev_start_sort: "cache_step (Ev_start (cacheKey d q)) c (snd (GetOrStartSort d q c))"
| ev_finish_sort: "FinishSort res err p c = Some c' \<Longrightarrow> cache_step (Ev_finish p) c c'"
| ev_cancel_sort: "CancelSort d q c = Some c' \<Longrightarrow> cache_step (Ev_cancel (cacheKey d q)) c c'"
| ev_clean_expired: "CleanExpired clock c = Some c' \<Longrightarrow> cache_step Ev_clean c c'"
| ev_clear_all: "Cache_Clear c = Some c' \<Longrightarrow> cache_step Ev_clear c c'"
| ev_get_raw: "cache_step Ev_quiet c (snd (GetRaw d q c))"
| ev_raw_worker: "i < length (sc_shards (c_rawCache c)) \<Longrightarrow>
     CacheShard_processAccessRecord (sc_shards (c_rawCache c) ! i) = Some s \<Longrightarrow>
     cache_step Ev_quiet c
       (c\<lparr>c_rawCache := (c_rawCache c)\<lparr>sc_shards := (sc_shards (c_rawCache c))[i := s]\<rparr>\<rparr>)"
| ev_get_sorted: "cache_step Ev_quiet c (snd (snd (GetSortedWithStale now d q stale c)))"
| ev_set_sorted: "cache_step Ev_quiet c (snd (SetSorted d q entry c))"
| ev_sorted_worker: "i < length (slru_shards (c_sortedCache c)) \<Longrightarrow>
     ShardedLRUShard_processAccessRecord (slru_shards (c_sortedCache c) ! i) = Some sh \<Longrightarrow>
     cache_step Ev_quiet c
       (c\<lparr>c_sortedCache := (c_sortedCache c)\<lparr>slru_shards := (slru_shards (c_sortedCache c))[i := sh]\<rparr>\<rparr>)"
| ev_get_error: "cache_step Ev_quiet c (snd (GetError now d q c))"
| ev_set_error: "cache_step Ev_quiet c (SetError now d q rcode t c)"
| ev_error_worker: "LRUCache_processAccessRecord (c_errorCache c) = Some ec \<Longrightarrow>
     cache_step Ev_quiet c (c\<lparr>c_errorCache := ec\<rparr>)"
| ev_set_blocked: "cache_step Ev_quiet c (SetBlocked d be c)"
| ev_set_allowed: "cache_step Ev_quiet c (SetAllowed d ae c)"
| ev_get_dnssec: "cache_step Ev_quiet c (snd (GetDNSSECMsg now d q c))"
| ev_set_dnssec: "cache_step Ev_quiet c (SetDNSSECMsg now d q m c)"
| ev_get_msg: "cache_step Ev_quiet c (snd (GetMsg now d q c))"
| ev_set_msg: "cache_step Ev_quiet c (SetMsg now d q m c)"
| ev_msg_worker: "LRUCache_processAccessRecord (c_msgCache c) = Some mc \<Longrightarrow>
     cache_step Ev_quiet c (c\<lparr>c_msgCache := mc\<rparr>)"
| ev_hit: "cache_step Ev_quiet c (RecordHit c)"
| ev_miss: "cache_step Ev_quiet c (RecordMiss c)"
| ev_prefetcher: "cache_step Ev_quiet c (SetPrefetcher p c)"
| ev_pool: "cache_step Ev_quiet c (SetIPPoolUpdater c)"
| ev_save: "SaveToDisk io f c fs = Some (e, c', fs') \<Longrightarrow> cache_step Ev_quiet c c'"

text \<open>The goroutine of the expiry index receives an entry and then waits for \<open>c.mu\<close>; in between it
  holds the entry.\<close>

type_synonym cache_system = "Cache \<times> expireEntry option"

inductive system_step :: "cache_event \<Rightarrow> cache_system \<Rightarrow> cache_system \<Rightarrow> bool" where
  sys_operation: "cache_step e c c' \<Longrightarrow> system_step e (c, held) (c', held)"
| sys_receive: "c_addHeapChan c = x # rest \<Longrightarrow>
     system_step Ev_quiet (c, None) (c\<lparr>c_addHeapChan := rest\<rparr>, Some x)"
| sys_push: "system_step Ev_quiet (c, Some x)
     (c\<lparr>c_expiredHeap := expireHeap_Push x (c_expiredHeap c)\<rparr>, None)"

inductive cache_run :: "cache_event list \<Rightarrow> cache_system \<Rightarrow> cache_system \<Rightarrow> bool" where
  cr_nil: "cache_run [] s s"
| cr_cons: "system_step e s s' \<Longrightarrow> cache_run es s' s'' \<Longrightarrow> cache_run (e # es) s s''"

lemma cache_run_append: "cache_run es s s' \<Longrightarrow> cache_run fs s' s'' \<Longrightarrow> cache_run (es @ fs) s s''"
  by (induction rule: cache_run.induct) (auto intro: cr_cons)

section \<open>What the steps leave alone\<close>

text \<open>The fields of the sorting tasks, and those of the raw answers with their index.\<close>

definition sort_part :: "Cache \<Rightarrow> (string \<times> nat) list \<times> (nat \<rightharpoonup> SortingState) \<times> nat" where
  "sort_part c = (c_sortingState c, c_states c, c_nextState c)"

definition index_part :: "Cache \<Rightarrow> RawCacheEntry ShardedCache \<times> expireEntry list \<times> expireEntry list" where
  "index_part c = (c_rawCache c, c_expiredHeap c, c_addHeapChan c)"

lemma part_fields:
  "sort_part c' = sort_part c \<longleftrightarrow> c_sortingState c' = c_sortingState c \<and> c_states c' = c_states c
     \<and> c_nextState c' = c_nextState c"
  "index_part c' = index_part c \<longleftrightarrow> c_rawCache c' = c_rawCache c \<and> c_expiredHeap c' = c_expiredHeap c
     \<and> c_addHeapChan c' = c_addHeapChan c"
  by (simp_all add: sort_part_def index_part_def)

lemma sort_inv_part: "sort_part c' = sort_part c \<Longrightarrow> sort_inv c' = sort_inv c"
  by (simp add: part_fields sort_inv_def)

lemma store_sort_part:
  "sort_part (SetRawWithDNSSECAndVersion t1 t2 d q ips cs ttl a v c) = sort_part c"
  "sort_part (SetRawWithDNSSEC t0 t1 t2 d q ips cs ttl a c) = sort_part c"
  "sort_part (SetRawRecordsWithDNSSECAndVersion t1 t2 d q rrs cs ttl a v c) = sort_part c"
  "sort_part (SetRawRecordsWithDNSSEC t0 t1 t2 d q rrs cs ttl a c) = sort_part c"
  by (simp_all add: part_fields addToExpiredHeap_def Let_def SetRawWithDNSSECAndVersion_def
      SetRawWithDNSSEC_def SetRawRecordsWithDNSSECAndVersion_def SetRawRecordsWithDNSSEC_def)

lemma quiet_parts:
  "sort_part (snd (snd (GetSortedWithStale now d q st c))) = sort_part c"
  "index_part (snd (snd (GetSortedWithStale now d q st c))) = index_part c"
  "sort_part (snd (SetSorted d q entry c)) = sort_part c"
  "index_part (snd (SetSorted d q entry c)) = index_part c"
  "sort_part (snd (GetError now d q c)) = sort_part c" "index_part (snd (GetError now d q c)) = index_part c"
  "sort_part (SetError now d q r t c) = sort_part c" "index_part (SetError now d q r t c) = index_part c"
  "sort_part (SetBlocked d be c) = sort_part c" "index_part (SetBlocked d be c) = index_part c"
  "sort_part (SetAllowed d ae c) = sort_part c" "index_part (SetAllowed d ae c) = index_part c"
  "sort_part (snd (GetDNSSECMsg now d q c)) = sort_part c" "index_part (snd (GetDNSSECMsg now d q c)) = index_part c"
  "sort_part (SetDNSSECMsg now d q m c) = sort_part c" "index_part (SetDNSSECMsg now d q m c) = index_part c"
  "sort_part (snd (GetMsg now d q c)) = sort_part c" "index_part (snd (GetMsg now d q c)) = index_part c"
  "sort_part (SetMsg now d q m c) = sort_part c" "index_part (SetMsg now d q m c) = index_part c"
  "sort_part (RecordHit c) = sort_part c" "index_part (RecordHit c) = index_part c"
  "sort_part (RecordMiss c) = sort_part c" "index_part (RecordMiss c) = index_part c"
  "sort_part (SetPrefetcher p c) = sort_part c" "index_part (SetPrefetcher p c) = index_part c"
  "sort_part (SetIPPoolUpdater c) = sort_part c" "index_part (SetIPPoolUpdater c) = index_part c"
  "sort_part (snd (GetRaw d q c)) = sort_part c"
  by (simp_all add: part_fields GetSortedWithStale_def SetSorted_def GetError_def SetError_def SetBlocked_def
      SetAllowed_def GetDNSSECMsg_def SetDNSSECMsg_def GetMsg_def SetMsg_def RecordHit_def RecordMiss_def
      SetPrefetcher_def SetIPPoolUpdater_def GetRaw_def Let_def split: prod.split option.split)

lemma SaveToDisk_parts:
  assumes "SaveToDisk io f c fs = Some (e, c', fs')"
  shows "sort_part c' = sort_part c" "index_part c' = index_part c"
  using assms by (auto simp: part_fields SaveToDisk_def Let_def split: option.splits if_splits prod.splits)

section \<open>The cleaner\<close>

lemma phase1_parts:
  "clean_phase1 clock st now k n c = (c', k') \<Longrightarrow> sort_part c' = sort_part c \<and> c_addHeapChan c' = c_addHeapChan c"
proof (induction clock st now k n c rule: clean_phase1.induct)
  case (1 clock st now k n c)
  note def = clean_phase1.simps[of clock st now k n c]
  show ?case
  proof (cases "c_expiredHeap c = [] \<or> \<not> n < MaxStaleHeapCleanupSize
      \<or> MaxCleanupDuration < clock k - st \<or> index_valid c (hd (c_expiredHeap c))")
    case True
    then show ?thesis using 1(2) by (auto simp: def Let_def split: if_splits)
  next
    case False
    define c2 where "c2 = (if ee_expiry (hd (c_expiredHeap c)) \<le> now
       then (pop_index c)\<lparr>c_actualExpiredCount := c_actualExpiredCount (pop_index c) - 1\<rparr> else pop_index c)"
    have rec: "clean_phase1 clock st now (k + 1) (n + 1) c2 = (c', k')"
      using 1(2) False unfolding def by (simp add: Let_def c2_def)
    have "sort_part c2 = sort_part c" "c_addHeapChan c2 = c_addHeapChan c"
      by (simp_all add: part_fields c2_def pop_index_def)
    then show ?thesis using 1(1)[OF _ _ refl _ refl c2_def rec] False by simp
  qed
qed

lemma phase2_parts:
  "clean_phase2 clock st now high ancient k n c = (c', k', n') \<Longrightarrow>
   sort_part c' = sort_part c \<and> c_addHeapChan c' = c_addHeapChan c"
proof (induction clock st now high ancient k n c rule: clean_phase2.induct)
  case (1 clock st now high ancient k n c)
  let ?e = "hd (c_expiredHeap c)"
  let ?due = "high \<or> \<not> cache_KeepExpiredEntries (c_config c) \<and> ee_expiry ?e + ancient \<le> now"
  note def = clean_phase2.simps[of clock st now high ancient k n c]
  consider (stop) "c_expiredHeap c = [] \<or> MaxCleanupBatchSize \<le> n \<or> MaxCleanupDuration < clock k - st
        \<or> now < ee_expiry ?e \<or> index_valid c ?e \<and> \<not> ?due"
    | (drop) "c_expiredHeap c \<noteq> []" "\<not> MaxCleanupBatchSize \<le> n" "\<not> MaxCleanupDuration < clock k - st"
        "\<not> now < ee_expiry ?e" "\<not> index_valid c ?e"
    | (del) "c_expiredHeap c \<noteq> []" "\<not> MaxCleanupBatchSize \<le> n" "\<not> MaxCleanupDuration < clock k - st"
        "\<not> now < ee_expiry ?e" "index_valid c ?e" ?due
    by blast
  then show ?case
  proof cases
    case stop
    then have "c' = c" using 1(3) by (auto simp: def Let_def split: if_splits)
    then show ?thesis by simp
  next
    case drop
    have rec: "clean_phase2 clock st now high ancient (k + 1) n (pop_index c) = (c', k', n')"
      using 1(3) drop unfolding def by (simp add: Let_def)
    have "sort_part (pop_index c) = sort_part c" "c_addHeapChan (pop_index c) = c_addHeapChan c"
      by (simp_all add: part_fields pop_index_def)
    then show ?thesis using 1(1)[OF _ _ refl _ _ rec] drop by simp
  next
    case del
    define c1 where "c1 = pop_index (c\<lparr>c_rawCache := ShardedCache_Delete (ee_key ?e) (c_rawCache c),
        c_evictions := c_evictions c + 1\<rparr>)"
    define c2 where "c2 = c1\<lparr>c_actualExpiredCount := c_actualExpiredCount c1 - 1\<rparr>"
    have rec: "clean_phase2 clock st now high ancient (k + 1) (n + 1) c2 = (c', k', n')"
      using 1(3) del unfolding def by (simp add: Let_def c1_def c2_def)
    have "sort_part c2 = sort_part c" "c_addHeapChan c2 = c_addHeapChan c"
      by (simp_all add: part_fields c2_def c1_def pop_index_def)
    then show ?thesis using 1(2)[of ?e c1] del rec unfolding c2_def c1_def by simp
  qed
qed

lemma clean_raw_parts:
  assumes "clean_raw clock c = (c', k, al)"
  shows "sort_part c' = sort_part c" "c_addHeapChan c' = c_addHeapChan c"
proof -
  let ?now = "unix (clock 0)" and ?usage = "getMemoryUsagePercentLocked c"
  obtain c1 k1 where p1: "clean_phase1 clock (clock 1) ?now 2 0 c = (c1, k1)" by force
  define c2 where "c2 = c1\<lparr>c_staleHeapCount := int (length (c_expiredHeap c1))\<rparr>"
  obtain c3 k3 n where p2: "clean_phase2 clock (clock 1) ?now (pressure_threshold c \<le> ?usage)
      (ancient_limit ?usage (pressure_threshold c)) k1 0 c2 = (c3, k3, n)" by (metis prod_cases3)
  have "sort_part c2 = sort_part c1" "c_addHeapChan c2 = c_addHeapChan c1"
    by (simp_all add: c2_def part_fields)
  moreover have "sort_part c' = sort_part c3" "c_addHeapChan c' = c_addHeapChan c3"
    using assms p1 p2 by (auto simp: part_fields clean_raw_def Let_def c2_def recalculateActualExpiredCount_def
        split: prod.splits)
  ultimately show "sort_part c' = sort_part c" "c_addHeapChan c' = c_addHeapChan c"
    using phase1_parts[OF p1] phase2_parts[OF p2] by simp_all
qed

text \<open>A pass of the cleaner drops the states of finished sorts; of the raw answers it deletes only what
  has a valid entry in the index, to which it adds nothing.\<close>

lemma CleanExpired_parts:
  assumes "CleanExpired clock c = Some c'"
  shows "sort_part c' = sort_part (cleanCompletedSortingStates c)" "c_addHeapChan c' = c_addHeapChan c"
    "ShardedCache_inv (c_rawCache c) \<Longrightarrow> ShardedCache_inv (c_rawCache c')
      \<and> set (c_expiredHeap c') \<subseteq> set (c_expiredHeap c)
      \<and> (\<forall>j. raw_of c' j = raw_of c j \<or> (\<exists>e \<in> set (c_expiredHeap c). ee_key e = j \<and> index_valid c e))"
proof -
  obtain c5 k al where r: "clean_raw clock c = (c5, k, al)" by (metis prod_cases3)
  have a: "cleanAuxiliaryCaches (clock k) al c5 = Some c'" using assms r by (simp add: CleanExpired_def)
  note f = aux_frame[OF a] and p = clean_raw_parts[OF r]
  have "sort_part c' = sort_part (cleanCompletedSortingStates c5)" "c_addHeapChan c' = c_addHeapChan c5"
    using a by (auto simp: part_fields cleanAuxiliaryCaches_def Let_def cleanExpiredMsgCache_def cleanAdBlockCaches_def
      cleanCompletedSortingStates_def cleanExpiredErrorCache_def cleanExpiredSortedCache_def
      split: prod.splits if_splits)
  moreover have "sort_part (cleanCompletedSortingStates c5) = sort_part (cleanCompletedSortingStates c)"
    using p(1) by (simp add: part_fields cleanCompletedSortingStates_def)
  ultimately show "sort_part c' = sort_part (cleanCompletedSortingStates c)" "c_addHeapChan c' = c_addHeapChan c"
    using p(2) by simp_all
  assume inv: "ShardedCache_inv (c_rawCache c)"
  note s = clean_raw_safe[OF r inv]
  have "raw_of c' = raw_of c5" using f by (intro raw_of_unchanged) simp
  then show "ShardedCache_inv (c_rawCache c')
      \<and> set (c_expiredHeap c') \<subseteq> set (c_expiredHeap c)
      \<and> (\<forall>j. raw_of c' j = raw_of c j \<or> (\<exists>e \<in> set (c_expiredHeap c). ee_key e = j \<and> index_valid c e))"
    using s f unfolding deletable_def by auto
qed

section \<open>Sorting tasks in a run\<close>

definition task_running :: "nat \<Rightarrow> Cache \<Rightarrow> bool" where
  "task_running p c \<longleftrightarrow> (\<exists>s. c_states c p = Some s \<and> ss_InProgress s)"

text \<open>Whether a run leaves the task \<open>p\<close> of a key in the map: no cancellation of that key, no clearing, and
  no pass of the cleaner once the task has finished. Nothing else counts.\<close>

fun task_kept :: "string \<Rightarrow> nat \<Rightarrow> bool \<Rightarrow> cache_event list \<Rightarrow> bool" where
  "task_kept key p running [] = True"
| "task_kept key p running (e # es) = (case e of
      Ev_cancel k \<Rightarrow> k \<noteq> key \<and> task_kept key p running es
    | Ev_clear \<Rightarrow> False
    | Ev_clean \<Rightarrow> running \<and> task_kept key p running es
    | Ev_finish p' \<Rightarrow> task_kept key p (running \<and> p' \<noteq> p) es
    | _ \<Rightarrow> task_kept key p running es)"

definition task_of :: "string \<Rightarrow> Cache \<Rightarrow> nat option" where
  "task_of key c = map_of (c_sortingState c) key"

lemma task_part: "sort_part c' = sort_part c \<Longrightarrow> task_of k c' = task_of k c \<and> task_running p c' = task_running p c"
  by (simp add: part_fields task_of_def task_running_def)

lemma raw_worker_sort_part: "sort_part (c\<lparr>c_rawCache := rc\<rparr>) = sort_part c"
  "sort_part (c\<lparr>c_sortedCache := sc\<rparr>) = sort_part c" "sort_part (c\<lparr>c_errorCache := ec\<rparr>) = sort_part c"
  "sort_part (c\<lparr>c_msgCache := mc\<rparr>) = sort_part c" "sort_part (c\<lparr>c_addHeapChan := ch\<rparr>) = sort_part c"
  "sort_part (c\<lparr>c_expiredHeap := h\<rparr>) = sort_part c"
  by (simp_all add: part_fields)

lemma quiet_sort_part:
  assumes "cache_step e c c'" "e = Ev_quiet \<or> (\<exists>k. e = Ev_store k)"
  shows "sort_part c' = sort_part c"
  using assms
  by (cases rule: cache_step.cases) (simp_all add: store_sort_part quiet_parts raw_worker_sort_part SaveToDisk_parts)

lemma start_task:
  assumes "task_of k c = Some p" "p < c_nextState c"
  shows "task_of k (snd (GetOrStartSort d q c)) = Some p"
    "task_running p (snd (GetOrStartSort d q c)) = task_running p c"
  using assms
  by (auto simp: task_of_def task_running_def GetOrStartSort_def Let_def alist_update_new map_add_def
      split: option.splits)

lemma finish_task:
  assumes "FinishSort r e p' c = Some c'"
  shows "task_of k c' = task_of k c" "p' \<noteq> p \<Longrightarrow> task_running p c' = task_running p c"
    "p' = p \<Longrightarrow> \<not> task_running p c'"
  using assms by (auto simp: FinishSort_def safe_close_eq task_of_def task_running_def split: option.splits)

lemma map_of_delete: "map_of (AList.delete k al) j = (if j = k then None else map_of al j)"
  by (simp add: delete_conv')

lemma cancel_task:
  assumes "CancelSort d q c = Some c'"
  shows "task_of (cacheKey d q) c' = None" "k \<noteq> cacheKey d q \<Longrightarrow> task_of k c' = task_of k c"
    "sort_inv c \<Longrightarrow> k \<noteq> cacheKey d q \<Longrightarrow> task_of k c = Some p \<Longrightarrow> task_running p c' = task_running p c"
proof -
  show "task_of (cacheKey d q) c' = None" "k \<noteq> cacheKey d q \<Longrightarrow> task_of k c' = task_of k c"
    using assms by (auto simp: CancelSort_def Let_def task_of_def map_of_delete safe_close_eq split: option.splits)
  assume inv: "sort_inv c" and k: "k \<noteq> cacheKey d q" "task_of k c = Some p"
  have "p' \<noteq> p" if "map_of (c_sortingState c) (cacheKey d q) = Some p'" for p'
  proof
    assume "p' = p"
    then have "(k, p) \<in> set (c_sortingState c)" "(cacheKey d q, p) \<in> set (c_sortingState c)"
      using k(2) that by (auto simp: task_of_def dest: map_of_SomeD)
    moreover have "inj_on snd (set (c_sortingState c))"
      using inv by (simp add: sort_inv_def distinct_map)
    ultimately have "(k, p) = (cacheKey d q, p)" by (metis inj_onD snd_conv)
    then show False using k(1) by simp
  qed
  then show "task_running p c' = task_running p c"
    using assms by (auto simp: CancelSort_def Let_def task_running_def safe_close_eq split: option.splits)
qed



lemma map_of_fold_delete:
  "map_of (fold AList.delete ks al) j = (if j \<in> set ks then None else map_of al j)"
  by (induction ks arbitrary: al) (auto simp: map_of_delete)

lemma clean_task:
  assumes "sort_inv c" "task_of k c = Some p"
  shows "task_of k (cleanCompletedSortingStates c) = (if task_running p c then Some p else None)"
    "task_running p (cleanCompletedSortingStates c) = task_running p c"
proof -
  have kp: "(k, p) \<in> set (c_sortingState c)" using assms(2) by (simp add: task_of_def map_of_SomeD)
  then obtain s where s: "c_states c p = Some s" using assms(1) unfolding sort_inv_def by fastforce
  have only: "p' = p" if "(k, p') \<in> set (c_sortingState c)" for p'
    using assms(1) kp that unfolding sort_inv_def by (auto dest: eq_key_imp_eq_value)
  let ?done = "\<lambda>(k, p). case c_states c p of None \<Rightarrow> False | Some s \<Rightarrow> \<not> ss_InProgress s"
  have "k \<in> set (map fst (filter ?done (c_sortingState c))) \<longleftrightarrow> ?done (k, p)"
  proof
    assume "k \<in> set (map fst (filter ?done (c_sortingState c)))"
    then obtain p' where "(k, p') \<in> set (c_sortingState c)" "?done (k, p')" by auto
    then show "?done (k, p)" using only by metis
  next
    assume "?done (k, p)"
    then have "(k, p) \<in> set (filter ?done (c_sortingState c))" using kp by simp
    from imageI[OF this, of fst] show "k \<in> set (map fst (filter ?done (c_sortingState c)))"
      by (simp only: fst_conv list.set_map)
  qed
  moreover have "?done (k, p) \<longleftrightarrow> \<not> task_running p c" using s by (simp add: task_running_def)
  ultimately have del: "k \<in> set (map fst (filter ?done (c_sortingState c))) \<longleftrightarrow> \<not> task_running p c" by (rule trans)
  have "c_sortingState (cleanCompletedSortingStates c) =
      fold AList.delete (map fst (filter ?done (c_sortingState c))) (c_sortingState c)"
    by (simp add: cleanCompletedSortingStates_def)
  then show "task_of k (cleanCompletedSortingStates c) = (if task_running p c then Some p else None)"
    using assms(2) unfolding task_of_def by (simp only: map_of_fold_delete del not_not split: if_split) simp
  show "task_running p (cleanCompletedSortingStates c) = task_running p c"
    by (simp add: task_running_def cleanCompletedSortingStates_def)
qed

lemma step_sort_inv:
  assumes "cache_step e c c'" "sort_inv c"
  shows "sort_inv c'"
  using assms
proof (cases rule: cache_step.cases)
  case (ev_start_sort d q)
  then show ?thesis using sort_inv_start assms(2) by simp
next
  case (ev_finish_sort res err p)
  then have "p < c_nextState c" using assms(2) by (auto simp: FinishSort_def sort_inv_def split: option.splits)
  then show ?thesis using ev_finish_sort assms(2) by (blast intro: sort_step_inv sort_finish)
next
  case (ev_cancel_sort d q)
  then show ?thesis using assms(2) by (blast intro: sort_step_inv sort_cancel)
next
  case (ev_clear_all)
  then show ?thesis using assms(2) by (blast intro: sort_step_inv sort_clear)
next
  case (ev_clean_expired clock)
  then show ?thesis
    using sort_inv_part[OF CleanExpired_parts(1)] sort_inv_clean[OF assms(2)] by blast
qed (use quiet_sort_part[OF assms(1)] assms(2) in \<open>auto dest: sort_inv_part\<close>)

lemma system_step_sort_inv: "system_step e s s' \<Longrightarrow> sort_inv (fst s) \<Longrightarrow> sort_inv (fst s')"
  by (induction rule: system_step.induct)
    (auto intro: step_sort_inv simp: sort_inv_part[OF raw_worker_sort_part(5)] sort_inv_part[OF raw_worker_sort_part(6)])

lemma cache_run_sort_inv: "cache_run es s s' \<Longrightarrow> sort_inv (fst s) \<Longrightarrow> sort_inv (fst s')"
  by (induction rule: cache_run.induct) (auto intro: system_step_sort_inv)

lemma task_bound: "sort_inv c \<Longrightarrow> task_of k c = Some p \<Longrightarrow> p < c_nextState c"
  by (fastforce simp: sort_inv_def task_of_def dest: map_of_SomeD)

lemma step_keeps_task:
  assumes "cache_step e c c'" "sort_inv c" "task_of k c = Some p" "running \<longrightarrow> task_running p c"
    "task_kept k p running (e # es)"
  shows "task_of k c' = Some p \<and> (\<exists>running'. (running' \<longrightarrow> task_running p c') \<and> task_kept k p running' es)"
  using assms(1)
proof (cases rule: cache_step.cases)
  case (ev_start_sort d q)
  then show ?thesis using start_task[OF assms(3) task_bound[OF assms(2,3)]] assms(4,5) by auto
next
  case (ev_finish_sort res err p')
  note f = finish_task[OF ev_finish_sort(2)]
  have "running \<and> p' \<noteq> p \<longrightarrow> task_running p c'" using f(2)[of p] assms(4) by simp
  moreover have "task_kept k p (running \<and> p' \<noteq> p) es" using ev_finish_sort(1) assms(5) by simp
  ultimately show ?thesis using f(1)[of k] assms(3) by metis
next
  case (ev_cancel_sort d q)
  then have k: "k \<noteq> cacheKey d q" using assms(5) by auto
  show ?thesis
    using cancel_task[OF ev_cancel_sort(2)] k assms(2-5) ev_cancel_sort(1) by auto
next
  case (ev_clean_expired clock)
  then have run: "running" "task_kept k p running es" using assms(5) by auto
  then show ?thesis
    using task_part[OF CleanExpired_parts(1)[OF ev_clean_expired(2)]] clean_task[OF assms(2,3)] assms(4) by auto
next
  case ev_clear_all
  then show ?thesis using assms(5) by simp
qed (use task_part[OF quiet_sort_part[OF assms(1)]] assms(3-5) in auto)

lemma run_keeps_task:
  assumes "cache_run es s s'" "sort_inv (fst s)" "task_of k (fst s) = Some p" "running \<longrightarrow> task_running p (fst s)"
    "task_kept k p running es"
  shows "task_of k (fst s') = Some p"
  using assms
proof (induction arbitrary: running rule: cache_run.induct)
  case (cr_cons e s s' es s'')
  have inv: "sort_inv (fst s')" by (rule system_step_sort_inv[OF cr_cons(1,4)])
  have "task_of k (fst s') = Some p \<and> (\<exists>running'. (running' \<longrightarrow> task_running p (fst s')) \<and> task_kept k p running' es)"
    using cr_cons(1)
  proof (cases rule: system_step.cases)
    case (sys_operation c c' held)
    then show ?thesis using step_keeps_task cr_cons(4-7) by simp
  qed (use cr_cons(5-7) task_part[OF raw_worker_sort_part(5)] task_part[OF raw_worker_sort_part(6)] in auto)
  then show ?case using cr_cons(3)[OF inv] by blast
qed simp

section \<open>Raw answers in a run\<close>

text \<open>An answer no entry of the index refers to with its version: the cleaner takes every entry of its
  key for stale.\<close>

definition index_entries :: "cache_system \<Rightarrow> expireEntry set" where
  "index_entries s = set (c_expiredHeap (fst s)) \<union> set (c_addHeapChan (fst s)) \<union> set_option (snd s)"

definition unindexed :: "string \<Rightarrow> int \<Rightarrow> cache_system \<Rightarrow> bool" where
  "unindexed key v s \<longleftrightarrow> (\<forall>e \<in> index_entries s. ee_key e = key \<longrightarrow> ee_queryVersion e \<noteq> v)"

definition makes_room :: "cache_event \<Rightarrow> bool" where
  "makes_room e \<longleftrightarrow> e = Ev_clear \<or> (\<exists>k. e = Ev_store k)"

lemma raw_of_set_other:
  assumes "ShardedCache_inv (c_rawCache c)" "j \<noteq> k" "c_rawCache c' = ShardedCache_Set k v (c_rawCache c)"
  shows "raw_of c' j = raw_of c j \<or> raw_of c' j = None"
proof -
  have ok: "shards_ok CacheShard_inv CacheShard_content (sc_mask (c_rawCache c)) (sc_shards (c_rawCache c))"
    using assms(1) by (simp add: ShardedCache_inv_def)
  have gen: "x = y \<or> x = None" if "x = (if P then None else y)" for x y :: "RawCacheEntry option" and P
    using that by (cases P) simp_all
  show ?thesis
    using shard.shards_lookup_set_other[OF ok refl assms(2), of v] unfolding raw_of_def assms(3)
    by (intro gen) (simp only: ShardedCache_GetNoUpdate_def sharded_Set_simps ShardedCache_getShard_def)
qed

lemma lookup_get: "ShardedCache_GetNoUpdate j (snd (ShardedCache_Get k sc)) = ShardedCache_GetNoUpdate j sc"
proof -
  have r: "shard_lookup j (CacheShard_recordAccess k s) = shard_lookup j s" for s :: "'a CacheShard"
    by (simp add: CacheShard_recordAccess_def shard_lookup_def split: option.split)
  have "shard_lookup j (xs[i := CacheShard_recordAccess k (xs ! i)] ! n) = shard_lookup j (xs ! n)"
    for xs :: "'a CacheShard list" and i n
    by (cases "i < length xs"; cases "i = n") (simp_all add: r list_update_beyond)
  then show ?thesis
    by (simp add: ShardedCache_Get_def ShardedCache_GetNoUpdate_def ShardedCache_getShard_def on_shard_def Let_def
        split: option.split)
qed

lemma lookup_worker:
  assumes "ShardedCache_inv sc" "i < length (sc_shards sc)"
    "CacheShard_processAccessRecord (sc_shards sc ! i) = Some s"
  shows "ShardedCache_GetNoUpdate j (sc\<lparr>sc_shards := (sc_shards sc)[i := s]\<rparr>) = ShardedCache_GetNoUpdate j sc"
proof -
  have inv: "CacheShard_inv (sc_shards sc ! i)" using assms(1,2) by (simp add: sharded_defs shards_ok_def)
  note p = shard_process_refines[OF inv assms(3)]
  have "shard_lookup j s = shard_lookup j (sc_shards sc ! i)"
    using p by (simp add: CacheShard_lookup inv)
  then show ?thesis
    using assms(2) by (simp add: ShardedCache_GetNoUpdate_def ShardedCache_getShard_def nth_list_update)
qed

text \<open>A store puts its answer into the raw cache, and the index entry with it into the channel or nowhere.\<close>

lemma store_parts:
  assumes "cache_step (Ev_store k) c c'"
  shows "(\<exists>v. c_rawCache c' = ShardedCache_Set k v (c_rawCache c)) \<and> c_expiredHeap c' = c_expiredHeap c
    \<and> (\<forall>e \<in> set (c_addHeapChan c'). e \<in> set (c_addHeapChan c) \<or> ee_key e = k)"
  using assms
  by (cases rule: cache_step.cases)
    (auto simp: addToExpiredHeap_def Let_def SetRawWithDNSSECAndVersion_def
      SetRawWithDNSSEC_def SetRawRecordsWithDNSSECAndVersion_def SetRawRecordsWithDNSSEC_def)

lemma Clear_index:
  assumes "Cache_Clear c = Some c'"
  shows "c_rawCache c' = ShardedCache_Clear (c_rawCache c)" "c_expiredHeap c' = []"
    "c_addHeapChan c' = c_addHeapChan c"
  using assms by (auto simp: Cache_Clear_def)

lemma sort_index_part:
  "index_part (snd (GetOrStartSort d q c)) = index_part c"
  "FinishSort r e p c = Some c' \<Longrightarrow> index_part c' = index_part c"
  "CancelSort d q c = Some c' \<Longrightarrow> index_part c' = index_part c"
  by (auto simp: part_fields GetOrStartSort_def FinishSort_def CancelSort_def Let_def split: option.splits)

lemma worker_index_part:
  "index_part (c\<lparr>c_sortedCache := sc\<rparr>) = index_part c" "index_part (c\<lparr>c_errorCache := ec\<rparr>) = index_part c"
  "index_part (c\<lparr>c_msgCache := mc\<rparr>) = index_part c"
  by (simp_all add: part_fields)

lemma same_index_part: "index_part c' = index_part c \<Longrightarrow>
    c_rawCache c' = c_rawCache c \<and> raw_of c' = raw_of c \<and> index_entries (c', h) = index_entries (c, h)"
  by (simp add: part_fields raw_of_def fun_eq_iff index_entries_def)

definition survives :: "string \<Rightarrow> RawCacheEntry \<Rightarrow> cache_system \<Rightarrow> bool" where
  "survives key r s \<longleftrightarrow> ShardedCache_inv (c_rawCache (fst s)) \<and> unindexed key (raw_QueryVersion r) s
     \<and> (raw_of (fst s) key = Some r \<or> raw_of (fst s) key = None)"

lemma clean_survives:
  assumes "survives key r (c, h)" "CleanExpired clock c = Some c'"
  shows "survives key r (c', h)" "raw_of c' key = raw_of c key"
proof -
  have inv: "ShardedCache_inv (c_rawCache c)" and u: "unindexed key (raw_QueryVersion r) (c, h)"
    and r: "raw_of c key = Some r \<or> raw_of c key = None"
    using assms(1) by (simp_all add: survives_def)
  note p = CleanExpired_parts(2)[OF assms(2)] CleanExpired_parts(3)[OF assms(2) inv]
  have "\<not> (\<exists>e \<in> set (c_expiredHeap c). ee_key e = key \<and> index_valid c e)"
    using u r by (auto simp: unindexed_def index_entries_def index_valid_raw)
  then show same: "raw_of c' key = raw_of c key" using p(2) by blast
  have "index_entries (c', h) \<subseteq> index_entries (c, h)" using p by (auto simp: index_entries_def)
  then show "survives key r (c', h)"
    using p r u same by (auto simp: survives_def unindexed_def)
qed

lemma step_survives:
  assumes "cache_step e c c'" "survives key r (c, h)" "e \<noteq> Ev_store key"
  shows "survives key r (c', h) \<and> (raw_of c' key = raw_of c key \<or> raw_of c' key = None \<and> makes_room e)"
proof -
  have inv: "ShardedCache_inv (c_rawCache c)" and u: "unindexed key (raw_QueryVersion r) (c, h)"
    and r: "raw_of c key = Some r \<or> raw_of c key = None"
    using assms(2) by (simp_all add: survives_def)
  have same: ?thesis if "index_part c' = index_part c"
    using same_index_part[OF that] assms(2) by (simp add: survives_def unindexed_def)
  have store: ?thesis if ek: "e = Ev_store k" for k
  proof -
    obtain v where v: "c_rawCache c' = ShardedCache_Set k v (c_rawCache c)" "c_expiredHeap c' = c_expiredHeap c"
      "\<forall>e \<in> set (c_addHeapChan c'). e \<in> set (c_addHeapChan c) \<or> ee_key e = k"
      using store_parts[of k c c'] assms(1) ek by blast
    have k: "k \<noteq> key" using assms(3) ek by simp
    have "unindexed key (raw_QueryVersion r) (c', h)"
      using u v(2,3) k by (auto simp: unindexed_def index_entries_def)
    moreover have "ShardedCache_inv (c_rawCache c')" unfolding v(1) by (rule sharded_set_ok(1)[OF inv])
    ultimately show ?thesis
      using raw_of_set_other[OF inv k[symmetric] v(1)] r ek by (auto simp: survives_def makes_room_def)
  qed
  show ?thesis
    using assms(1)
  proof (cases rule: cache_step.cases)
    case (ev_clean_expired clock)
    then show ?thesis using clean_survives[OF assms(2)] by simp
  next
    case ev_clear_all
    note x = Clear_index[OF ev_clear_all(2)]
    have "raw_of c' key = None"
      using sharded_clear_ok[OF inv] by (simp add: raw_of_def x(1) sharded_lookup)
    moreover have "unindexed key (raw_QueryVersion r) (c', h)"
      using u by (auto simp: unindexed_def index_entries_def x)
    ultimately show ?thesis
      using sharded_clear_ok(1)[OF inv] ev_clear_all(1) by (simp add: survives_def x(1) makes_room_def)
  next
    case (ev_get_raw d q)
    have "c_rawCache c' = snd (ShardedCache_Get (cacheKey d q) (c_rawCache c))"
      "c_expiredHeap c' = c_expiredHeap c" "c_addHeapChan c' = c_addHeapChan c"
      using ev_get_raw by (simp_all add: GetRaw_def split: prod.split)
    then show ?thesis
      using assms(2) sharded_get_ok(1)[OF inv]
      by (simp add: survives_def unindexed_def index_entries_def raw_of_def lookup_get)
  next
    case (ev_raw_worker i s)
    have "shc_step (c_rawCache c) (c_rawCache c')"
      using ev_raw_worker by (simp add: shc_process)
    then have "ShardedCache_inv (c_rawCache c')" by (rule shc_step_inv[OF _ inv])
    moreover have "raw_of c' key = raw_of c key"
      using lookup_worker[OF inv ev_raw_worker(3,4)] ev_raw_worker(2) by (simp add: raw_of_def)
    moreover have "index_entries (c', h) = index_entries (c, h)"
      using ev_raw_worker by (simp add: index_entries_def)
    ultimately show ?thesis using assms(2) by (simp add: survives_def unindexed_def)
  qed (use store same in \<open>simp_all add: quiet_parts sort_index_part worker_index_part SaveToDisk_parts\<close>)
qed

lemma system_survives:
  assumes "system_step e s s'" "survives key r s" "e \<noteq> Ev_store key"
  shows "survives key r s' \<and> (raw_of (fst s') key = raw_of (fst s) key \<or> raw_of (fst s') key = None \<and> makes_room e)"
  using assms(1)
proof (cases rule: system_step.cases)
  case (sys_operation c c' held)
  then show ?thesis using step_survives[of e c c' key r held] assms(2,3) by simp
next
  case (sys_receive c x rest)
  then have "index_entries s' = index_entries s" "c_rawCache (fst s') = c_rawCache (fst s)"
    by (auto simp: index_entries_def)
  then show ?thesis using assms(2) by (simp add: survives_def unindexed_def raw_of_def)
next
  case (sys_push c x)
  then have "index_entries s' = index_entries s" "c_rawCache (fst s') = c_rawCache (fst s)"
    by (auto simp: index_entries_def expireHeap_Push_def)
  then show ?thesis using assms(2) by (simp add: survives_def unindexed_def raw_of_def)
qed

lemma run_survives:
  assumes "cache_run es s s'" "survives key r s" "Ev_store key \<notin> set es"
  shows "survives key r s'
    \<and> (raw_of (fst s') key = raw_of (fst s) key \<or> raw_of (fst s') key = None \<and> (\<exists>e \<in> set es. makes_room e))"
  using assms
proof (induction rule: cache_run.induct)
  case (cr_cons e s s' es s'')
  then have "survives key r s' \<and> (raw_of (fst s') key = raw_of (fst s) key \<or> raw_of (fst s') key = None \<and> makes_room e)"
    by (intro system_survives) auto
  then show ?case using cr_cons by auto
qed simp

text \<open>What a load leaves for a key is what was there, or an answer with version zero.\<close>

lemma restore_entry_version:
  assumes "ShardedCache_inv (c_rawCache c)" "raw_of (restore_entry now rnd t k e c) key = Some r"
  shows "raw_of c key = Some r \<or> raw_QueryVersion r = 0"
proof (cases "key = cacheKey (per_Domain e) (per_QType e)")
  case True
  then show ?thesis
    using assms(2) by (auto simp: raw_of_def restore_entry_def Let_def sharded_set_ok(2)[OF assms(1)])
next
  case False
  then show ?thesis
    using assms(2) raw_of_set_other[OF assms(1) False, of "restore_entry now rnd t k e c"]
    by (fastforce simp: restore_entry_def Let_def)
qed

lemma restore_all_version:
  "ShardedCache_inv (c_rawCache c) \<Longrightarrow> raw_of (restore_all now rnd t k es c) key = Some r \<Longrightarrow>
   raw_of c key = Some r \<or> raw_QueryVersion r = 0"
proof (induction es arbitrary: k c)
  case (Cons e es)
  then show ?case using restore_entry_inv restore_entry_version by (metis restore_all.simps(2))
qed simp

lemma finish_load_raw [simp]: "raw_of (finish_load c) = raw_of c"
  by (simp add: finish_load_def raw_of_def fun_eq_iff)

lemma load_legacy_version:
  "load_legacy now rnd t k ms c = (err, c') \<Longrightarrow> ShardedCache_inv (c_rawCache c) \<Longrightarrow> raw_of c' key = Some r \<Longrightarrow>
   raw_of c key = Some r \<or> raw_QueryVersion r = 0"
proof (induction ms arbitrary: k c)
  case (Cons m ms)
  show ?case
  proof (cases m)
    case (Gob_entry e)
    then have rec: "load_legacy now rnd t (k + 1) ms (restore_entry now rnd t k e c) = (err, c')"
      using Cons.prems(1) by simp
    show ?thesis
      using Cons.IH[OF rec restore_entry_inv[OF Cons.prems(2)] Cons.prems(3)] restore_entry_version[OF Cons.prems(2)]
      by blast
  qed (use Cons.prems in auto)
qed auto

lemma LoadFromDisk_version:
  assumes "LoadFromDisk opened t_now rnd t left f fs c = (err, c')" "ShardedCache_inv (c_rawCache c)"
    "raw_of c' key = Some r"
  shows "raw_of c key = Some r \<or> raw_QueryVersion r = 0"
  using assms load_legacy_version[OF _ assms(2,3)]
  by (auto simp: LoadFromDisk_def dest: restore_all_version[OF assms(2)]
      split: option.splits decoded.splits if_splits prod.splits)

section \<open>Properties\<close>

text \<open>C16: Whatever runs in between, a name and type has at most one sorting task. In every state of a
  cache, \<open>GetOrStartSort\<close> starts a task exactly when its map has none for the key; from then on, over any
  run of the cache's operations, every later call for that key, in any spelling, returns the same task
  and starts none, unless the run cancels that key, clears the cache or lets the cleaner run after the
  task has finished; and after each of these the next call starts a new task.\<close>

theorem GetOrStartSort_single_flight:
  assumes "cache_run es0 (NewCache cfg, None) (c, h)" "GetOrStartSort d q c = ((p, started), c1)"
    "ToLower d' = ToLower d" "cache_run es (c1, h) (c2, h2)"
    "task_kept (cacheKey d q) p (task_running p c1) es"
  shows "started = (map_of (c_sortingState c) (cacheKey d q) = None)
    \<and> GetOrStartSort d' q c2 = ((p, False), c2)
    \<and> (\<forall>c3. CancelSort d' q c2 = Some c3 \<longrightarrow> snd (fst (GetOrStartSort d q c3)))
    \<and> (\<forall>c3. Cache_Clear c2 = Some c3 \<longrightarrow> snd (fst (GetOrStartSort d q c3)))
    \<and> (\<forall>clock c3. CleanExpired clock c2 = Some c3 \<longrightarrow>
         snd (fst (GetOrStartSort d q c3)) = (\<not> task_running p c2))"
proof -
  have k: "cacheKey d' q = cacheKey d q" using assms(3) by (simp add: cacheKey_eq)
  have inv: "sort_inv c" using cache_run_sort_inv[OF assms(1)] sort_inv_new[of cfg] by simp
  have inv1: "sort_inv c1" using sort_inv_start[OF inv, of d q] assms(2) by simp
  have m: "task_of (cacheKey d q) c1 = Some p" "started = (map_of (c_sortingState c) (cacheKey d q) = None)"
    using assms(2) by (auto simp: task_of_def GetOrStartSort_def Let_def alist_update_new map_add_def split: option.splits)
  have t2: "task_of (cacheKey d q) c2 = Some p"
    using run_keeps_task[OF assms(4), of "cacheKey d q" p "task_running p c1"] inv1 m(1) assms(5) by simp
  have inv2: "sort_inv c2" using cache_run_sort_inv[OF assms(4)] inv1 by simp
  have starts: "snd (fst (GetOrStartSort d q c3)) = (task_of (cacheKey d q) c3 = None)" for c3
    by (simp add: GetOrStartSort_def Let_def task_of_def split: option.split)
  have "task_of (cacheKey d q) c3 = None" if "CancelSort d' q c2 = Some c3" for c3
    using cancel_task(1)[OF that] k by simp
  moreover have "task_of (cacheKey d q) c3 = None" if "Cache_Clear c2 = Some c3" for c3
    using that by (auto simp: Cache_Clear_def task_of_def)
  moreover have "(task_of (cacheKey d q) c3 = None) = (\<not> task_running p c2)" if "CleanExpired clock c2 = Some c3" for clock c3
    using task_part[OF CleanExpired_parts(1)[OF that]] clean_task(1)[OF inv2 t2] by simp
  moreover have "GetOrStartSort d' q c2 = ((p, False), c2)"
    using t2 k by (simp add: GetOrStartSort_def Let_def task_of_def)
  ultimately show ?thesis using m(2) unfolding starts by blast
qed

text \<open>C29: The cleaner never deletes an answer restored from disk. A load stores its answers with version
  zero and enters none into the index of expiry. Over any run of the cache's operations that does not
  store the name anew, and as long as the index has no entry with version zero for it, a restored answer
  is untouched, except that clearing the cache, or room needed for another name, may remove it; a run
  that does neither still has it, however often and under whatever pressure it cleans; and no pass of the
  cleaner ever changes what is stored for the name.\<close>

theorem restored_entries_survive_cleaning:
  assumes "ShardedCache_inv (c_rawCache c)" "unindexed key 0 (c, None)"
    "LoadFromDisk opened now rnd t left filename fs c = (err, c1)"
    "raw_of c1 key = Some r" "raw_of c key \<noteq> Some r"
    "cache_run es (c1, None) (c2, h2)" "Ev_store key \<notin> set es"
  shows "(raw_of c2 key = Some r \<or> raw_of c2 key = None \<and> (\<exists>e \<in> set es. makes_room e))
    \<and> (\<forall>clock c3. CleanExpired clock c2 = Some c3 \<longrightarrow> raw_of c3 key = raw_of c2 key)"
proof -
  note l = LoadFromDisk_frame[OF assms(3,1)]
  have v: "raw_QueryVersion r = 0" using LoadFromDisk_version[OF assms(3,1,4)] assms(5) by blast
  have "unindexed key 0 (c1, None)" using assms(2) l by (simp add: unindexed_def index_entries_def)
  then have "survives key r (c1, None)" using l assms(4) v by (simp add: survives_def)
  then have s: "survives key r (c2, h2)"
    "raw_of c2 key = raw_of c1 key \<or> raw_of c2 key = None \<and> (\<exists>e \<in> set es. makes_room e)"
    using run_survives[OF assms(6) _ assms(7)] by simp_all
  then show ?thesis using clean_survives(2)[OF s(1)] assms(4) by metis
qed

theorem GetOrStartSort_single_flight_witness:
  "\<forall>cfg. GetOrStartSort ''A'' 1 (RecordHit (snd (GetOrStartSort ''a'' 1 (NewCache cfg))))
     = ((0, False), RecordHit (snd (GetOrStartSort ''a'' 1 (NewCache cfg))))"
proof
  fix cfg
  have s: "c_sortingState (NewCache cfg) = []" "c_nextState (NewCache cfg) = 0"
    by (simp_all add: NewCache_def Let_def)
  then obtain c1 where g: "GetOrStartSort ''a'' 1 (NewCache cfg) = ((0, True), c1)"
    by (simp add: GetOrStartSort_def Let_def)
  have run: "cache_run [Ev_quiet] (c1, None) (RecordHit c1, None)"
    by (rule cr_cons[OF sys_operation[OF ev_hit] cr_nil])
  have a: "ToLower ''A'' = ToLower ''a''" by code_simp
  show "GetOrStartSort ''A'' 1 (RecordHit (snd (GetOrStartSort ''a'' 1 (NewCache cfg))))
     = ((0, False), RecordHit (snd (GetOrStartSort ''a'' 1 (NewCache cfg))))"
    using GetOrStartSort_single_flight[OF cr_nil g a run] g by simp
qed

theorem restored_entries_survive_cleaning_witness:
  "let c1 = snd (LoadFromDisk True 0 (\<lambda>_. 0) (\<lambda>_. 0) [] ''f'' [''f'' \<mapsto> [Gob_entry example_file_entry]]
       ((NewCache (example_config False 1))\<lparr>c_rawCache := NewShardedCache 0 64\<rparr>))
   in \<exists>c2. CleanExpired (\<lambda>_. 10 ^ 30) c1 = Some c2 \<and> raw_of c2 ''a#1'' = raw_of c1 ''a#1''
     \<and> raw_of c2 ''a#1'' \<noteq> None"
proof -
  let ?c = "(NewCache (example_config False 1))\<lparr>c_rawCache := NewShardedCache 0 64\<rparr>"
  let ?fs = "[''f'' \<mapsto> [Gob_entry example_file_entry]]"
  define c1 where "c1 = snd (LoadFromDisk True 0 (\<lambda>_. 0) (\<lambda>_. 0) [] ''f'' ?fs ?c)"
  have c1': "c1 = finish_load (restore_entry 0 (\<lambda>_. 0) (\<lambda>_. 0) 0 example_file_entry ?c)"
    by (simp add: c1_def LoadFromDisk_def unix_def)
  have inv: "ShardedCache_inv (c_rawCache ?c)" by (simp add: sharded_new)
  have load: "LoadFromDisk True 0 (\<lambda>_. 0) (\<lambda>_. 0) [] ''f'' ?fs ?c = (None, c1)"
    by (simp add: c1' LoadFromDisk_def unix_def)
  note l = LoadFromDisk_frame[OF load inv]
  have "c_msgCache c1 = NewLRUCache 0"
    by (simp add: c1' finish_load_def restore_entry_def Let_def NewCache_def example_config_def)
  then obtain c2 where c2: "CleanExpired (\<lambda>_. 10 ^ 30) c1 = Some c2"
    using clean_returns l by metis
  have "raw_of c1 ''a#1'' \<noteq> None"
    by (simp add: sharded_set_ok(2)[OF sharded_new(1)] raw_of_def c1' finish_load_def restore_entry_def Let_def
        example_file_entry_def example_key)
  then obtain r where r: "raw_of c1 ''a#1'' = Some r" by blast
  have fresh: "raw_of ?c ''a#1'' \<noteq> Some r"
    by (simp add: raw_of_def sharded_lookup[OF sharded_new(1)] sharded_new(2))
  have idx: "unindexed ''a#1'' 0 (?c, None)"
    by (simp add: unindexed_def index_entries_def NewCache_def Let_def)
  have run: "cache_run [Ev_clean] (c1, None) (c2, None)"
    by (rule cr_cons[OF sys_operation[OF ev_clean_expired[OF c2]] cr_nil])
  have "raw_of c2 ''a#1'' = Some r"
    using restored_entries_survive_cleaning[OF inv idx load r fresh run] by (simp add: makes_room_def)
  then show ?thesis using c2 r unfolding Let_def c1_def[symmetric] by auto
qed

end
