(* ===== verification/Go_Num.thy ===== *)
theory Go_Num
  imports Prelude Complex_Main
begin

text \<open>Conversions between Go's integers and floating-point numbers, which the models keep as exact
  rationals: \<open>int(x)\<close> truncates toward zero. Sums over association lists, which several
  components keep as statistics.\<close>

definition go_trunc :: "rat \<Rightarrow> int" where
  "go_trunc r = (if 0 \<le> r then floor r else ceiling r)"

lemma go_trunc_of_int [simp]: "go_trunc (of_int n) = n"
  by (simp add: go_trunc_def)

lemma go_trunc_0 [simp]: "go_trunc 0 = 0"
  by (simp add: go_trunc_def)

lemma go_trunc_nonneg [simp]: "0 \<le> r \<Longrightarrow> 0 \<le> go_trunc r"
  by (simp add: go_trunc_def)

lemma go_trunc_mono: "r \<le> s \<Longrightarrow> go_trunc r \<le> go_trunc s"
  by (auto simp: go_trunc_def floor_mono ceiling_mono)
     (metis ceiling_mono ceiling_zero floor_mono floor_zero not_le_imp_less order.trans order.strict_implies_order)

lemma go_trunc_between: "of_int a \<le> r \<Longrightarrow> r \<le> of_int b \<Longrightarrow> a \<le> go_trunc r \<and> go_trunc r \<le> b"
  using go_trunc_mono[of "of_int a" r] go_trunc_mono[of r "of_int b"] by simp

text \<open>A weighted mean of two integers, truncated, lies between them.\<close>

lemma go_trunc_mean:
  assumes "0 \<le> a" "a \<le> 1"
  shows "min x y \<le> go_trunc (of_int x * a + (1 - a) * of_int y)
    \<and> go_trunc (of_int x * a + (1 - a) * of_int y) \<le> max x y"
proof (rule go_trunc_between)
  let ?lo = "of_int (min x y) :: rat" and ?hi = "of_int (max x y) :: rat"
  have "?lo * a + (1 - a) * ?lo \<le> of_int x * a + (1 - a) * of_int y"
    using assms by (intro add_mono mult_right_mono mult_left_mono) auto
  then show "?lo \<le> of_int x * a + (1 - a) * of_int y" by (simp add: algebra_simps)
  have "of_int x * a + (1 - a) * of_int y \<le> ?hi * a + (1 - a) * ?hi"
    using assms by (intro add_mono mult_right_mono mult_left_mono) auto
  then show "of_int x * a + (1 - a) * of_int y \<le> ?hi" by (simp add: algebra_simps)
qed

text \<open>Updating the value of one key in place, as Go does through a pointer in a map.\<close>

definition map_value :: "'k \<Rightarrow> ('v \<Rightarrow> 'v) \<Rightarrow> ('k \<times> 'v) list \<Rightarrow> ('k \<times> 'v) list" where
  "map_value k f xs = map (\<lambda>(j, v). (j, if j = k then f v else v)) xs"

lemma map_value_simps [simp]: "map_value k f [] = []"
  "map_value k f ((j, v) # xs) = (j, if j = k then f v else v) # map_value k f xs"
  by (simp_all add: map_value_def)

lemma keys_map_value [simp, key_lists]: "keys_of (map_value k f xs) = keys_of xs"
  by (induction xs) auto

lemma map_of_map_value [simp, key_lists]:
  "map_of (map_value k f xs) j = (if j = k then map_option f (map_of xs j) else map_of xs j)"
  by (induction xs) auto

lemma length_map_value [simp]: "length (map_value k f xs) = length xs"
  by (simp add: map_value_def)

definition sum_values :: "('v \<Rightarrow> int) \<Rightarrow> ('k \<times> 'v) list \<Rightarrow> int" where
  "sum_values g xs = sum_list (map (g \<circ> snd) xs)"

lemma sum_values_simps [simp]: "sum_values g [] = 0" "sum_values g ((k, v) # xs) = g v + sum_values g xs"
  "sum_values g (xs @ ys) = sum_values g xs + sum_values g ys"
  by (simp_all add: sum_values_def)

lemma sum_values_map_value_same:
  "(\<And>v. g (f v) = g v) \<Longrightarrow> sum_values g (map_value k f xs) = sum_values g xs"
  by (induction xs) auto

lemma sum_values_map_value:
  "distinct (keys_of xs) \<Longrightarrow> map_of xs k = Some v \<Longrightarrow>
   sum_values g (map_value k f xs) = sum_values g xs + g (f v) - g v"
proof (induction xs)
  case (Cons p xs)
  obtain j w where p: "p = (j, w)" by force
  show ?case
  proof (cases "j = k")
    case True
    then have "map_of xs k = None" using Cons.prems(1) p by (simp add: map_of_eq_None_keys)
    then have "map_value k f xs = xs"
      by (induction xs) (auto split: if_splits)
    then show ?thesis using True Cons.prems p by simp
  qed (use Cons p in auto)
qed simp

text \<open>Updating the value of a key, which is added with a default value when it is missing.\<close>

definition upsert :: "'k \<Rightarrow> 'v \<Rightarrow> ('v \<Rightarrow> 'v) \<Rightarrow> ('k \<times> 'v) list \<Rightarrow> ('k \<times> 'v) list" where
  "upsert k d f xs = (case map_of xs k of None \<Rightarrow> xs @ [(k, f d)] | Some _ \<Rightarrow> map_value k f xs)"

lemma map_of_upsert [simp, key_lists]:
  "map_of (upsert k d f xs) j =
     (if j = k then Some (f (case map_of xs k of None \<Rightarrow> d | Some v \<Rightarrow> v)) else map_of xs j)"
  by (auto simp: upsert_def map_add_def split: option.splits)

lemma distinct_keys_upsert [simp, key_lists]:
  "distinct (keys_of xs) \<Longrightarrow> distinct (keys_of (upsert k d f xs))"
  by (auto simp: upsert_def map_of_eq_None_keys split: option.splits)

lemma map_of_filter_distinct:
  "distinct (keys_of xs) \<Longrightarrow> map_of (filter P xs) k =
     (case map_of xs k of None \<Rightarrow> None | Some v \<Rightarrow> if P (k, v) then Some v else None)"
proof (induction xs)
  case (Cons p xs)
  obtain j w where p: "p = (j, w)" by force
  have "map_of xs j = None" using Cons.prems p by (simp add: map_of_eq_None_keys)
  then show ?case using Cons p by auto
qed simp

end
