(* ===== verification/Ip_Pool.thy ===== *)
theory Ip_Pool
  imports Go_Num
begin

text \<open>\<open>ping/ip_pool.go\<close>: the pool of known addresses, with the number of names that use each, its
  access heat, a representative name and the smoothed round-trip time. The map from addresses to
  records is an association list, whose order stands for the order of Go's map iteration; methods
  that read the clock take the reading. An unset \<open>time.Time\<close> is \<open>None\<close>.\<close>

section \<open>State and operations\<close>

definition LogicDeadRTT :: int where "LogicDeadRTT = 9000"

record IPInfo =
  inf_IP :: string
  inf_RefCount :: int
  inf_AccessHeat :: int
  inf_LastAccess :: instant
  inf_RepDomain :: string
  inf_RepDomainHeat :: int
  inf_RTT :: int
  inf_RTTUpdated :: "instant option"
  inf_RTTEWMA :: int
  inf_loss :: rat
  inf_LastMonitorTime :: "instant option"

record IPPoolStats =
  st_TotalIPs :: int
  st_TotalRefCount :: int
  st_TotalHeat :: int
  st_LastUpdated :: "instant option"

record IPPool =
  ipp_ips :: "(string \<times> IPInfo) list"
  ipp_stats :: IPPoolStats

definition zero_stats :: IPPoolStats where
  "zero_stats = \<lparr>st_TotalIPs = 0, st_TotalRefCount = 0, st_TotalHeat = 0, st_LastUpdated = None\<rparr>"

definition NewIPPool :: IPPool where
  "NewIPPool = \<lparr>ipp_ips = [], ipp_stats = zero_stats\<rparr>"

definition selectRepDomain :: "IPInfo \<Rightarrow> IPInfo" where
  "selectRepDomain info = info"

definition updateRepDomain :: "string \<Rightarrow> IPInfo \<Rightarrow> IPInfo" where
  "updateRepDomain domain info =
     info\<lparr>inf_RepDomain := domain, inf_RepDomainHeat := inf_RepDomainHeat info + 1\<rparr>"

definition pool_updateStats :: "IPPool \<Rightarrow> IPPool" where
  "pool_updateStats p = p\<lparr>ipp_stats := (ipp_stats p)
     \<lparr>st_TotalIPs := int (length (ipp_ips p)),
      st_TotalRefCount := sum_values inf_RefCount (ipp_ips p),
      st_TotalHeat := sum_values inf_AccessHeat (ipp_ips p)\<rparr>\<rparr>"

definition release_ref :: "string \<Rightarrow> IPInfo \<Rightarrow> IPInfo" where
  "release_ref domain info =
     (let i1 = info\<lparr>inf_RefCount := inf_RefCount info - 1\<rparr>;
          i2 = (if inf_RefCount i1 < 0 then i1\<lparr>inf_RefCount := 0\<rparr> else i1)
      in if inf_RepDomain i2 = domain then selectRepDomain i2 else i2)"

definition acquire_ref :: "instant \<Rightarrow> string \<Rightarrow> bool \<Rightarrow> IPInfo \<Rightarrow> IPInfo" where
  "acquire_ref now domain isNew info =
     (let i1 = (if isNew then info\<lparr>inf_RefCount := inf_RefCount info + 1\<rparr> else info)
      in updateRepDomain domain (i1\<lparr>inf_LastAccess := now\<rparr>))"

definition fresh_info :: "instant \<Rightarrow> string \<Rightarrow> string \<Rightarrow> IPInfo" where
  "fresh_info now domain ip =
     \<lparr>inf_IP = ip, inf_RefCount = 1, inf_AccessHeat = 0, inf_LastAccess = now, inf_RepDomain = domain,
      inf_RepDomainHeat = 0, inf_RTT = 0, inf_RTTUpdated = None, inf_RTTEWMA = 0, inf_loss = 0,
      inf_LastMonitorTime = None\<rparr>"

definition release_step :: "string list \<Rightarrow> string \<Rightarrow> string \<Rightarrow> (string \<times> IPInfo) list \<Rightarrow> (string \<times> IPInfo) list" where
  "release_step newIPs domain ip ips =
     (if ip \<notin> set newIPs then map_value ip (release_ref domain) ips else ips)"

definition acquire_step :: "instant \<Rightarrow> string list \<Rightarrow> string \<Rightarrow> string \<Rightarrow> (string \<times> IPInfo) list \<Rightarrow>
    (string \<times> IPInfo) list" where
  "acquire_step now oldIPs domain ip ips = (case map_of ips ip of
      Some _ \<Rightarrow> map_value ip (acquire_ref now domain (ip \<notin> set oldIPs)) ips
    | None \<Rightarrow> ips @ [(ip, fresh_info now domain ip)])"

definition UpdateDomainIPs :: "instant \<Rightarrow> string list \<Rightarrow> string list \<Rightarrow> string \<Rightarrow> IPPool \<Rightarrow> IPPool" where
  "UpdateDomainIPs now oldIPs newIPs domain p =
     (let ips1 = fold (release_step newIPs domain) (remdups oldIPs) (ipp_ips p);
          ips2 = fold (acquire_step now oldIPs domain) (remdups newIPs) ips1
      in pool_updateStats (p\<lparr>ipp_ips := ips2, ipp_stats := (ipp_stats p)\<lparr>st_LastUpdated := Some now\<rparr>\<rparr>))"

definition Pool_RecordAccess :: "instant \<Rightarrow> string \<Rightarrow> string \<Rightarrow> IPPool \<Rightarrow> IPPool" where
  "Pool_RecordAccess now ip domain p = (case map_of (ipp_ips p) ip of
      None \<Rightarrow> p
    | Some _ \<Rightarrow> p\<lparr>ipp_ips := map_value ip (\<lambda>info. updateRepDomain domain
            (info\<lparr>inf_AccessHeat := inf_AccessHeat info + 1, inf_LastAccess := now\<rparr>)) (ipp_ips p),
         ipp_stats := (ipp_stats p)\<lparr>st_LastUpdated := Some now,
            st_TotalHeat := st_TotalHeat (ipp_stats p) + 1\<rparr>\<rparr>)"

definition GetIPInfo :: "string \<Rightarrow> IPPool \<Rightarrow> IPInfo option" where
  "GetIPInfo ip p = map_option (\<lambda>info. \<lparr>inf_IP = inf_IP info, inf_RefCount = inf_RefCount info,
      inf_AccessHeat = inf_AccessHeat info, inf_LastAccess = inf_LastAccess info,
      inf_RepDomain = inf_RepDomain info, inf_RepDomainHeat = inf_RepDomainHeat info,
      inf_RTT = 0, inf_RTTUpdated = None, inf_RTTEWMA = 0, inf_loss = 0, inf_LastMonitorTime = None\<rparr>)
    (map_of (ipp_ips p) ip)"

definition GetRepDomain :: "string \<Rightarrow> IPPool \<Rightarrow> string option" where
  "GetRepDomain ip p = map_option inf_RepDomain (map_of (ipp_ips p) ip)"

definition GetAllIPs :: "IPPool \<Rightarrow> IPInfo list" where
  "GetAllIPs p = map snd (ipp_ips p)"

definition UpdateRepDomainOnSuccess :: "string \<Rightarrow> string \<Rightarrow> bool \<Rightarrow> IPPool \<Rightarrow> IPPool" where
  "UpdateRepDomainOnSuccess ip domain forceUpdate p =
     (if domain = '''' then p
      else p\<lparr>ipp_ips := map_value ip (\<lambda>info.
         if forceUpdate then info\<lparr>inf_RepDomain := domain, inf_RepDomainHeat := 1\<rparr>
         else if inf_RepDomain info = '''' then info\<lparr>inf_RepDomain := domain, inf_RepDomainHeat := 1\<rparr>
         else if inf_RepDomain info = domain then info\<lparr>inf_RepDomainHeat := inf_RepDomainHeat info + 1\<rparr>
         else info) (ipp_ips p)\<rparr>)"

definition CheckAndUpdateRepDomain :: "string \<Rightarrow> string \<Rightarrow> string \<Rightarrow> IPPool \<Rightarrow> IPPool" where
  "CheckAndUpdateRepDomain ip failedDomain successDomain p =
     (if successDomain = '''' then p
      else p\<lparr>ipp_ips := map_value ip (\<lambda>info.
         if inf_RepDomain info = failedDomain \<and> failedDomain \<noteq> successDomain
         then info\<lparr>inf_RepDomain := successDomain, inf_RepDomainHeat := 1\<rparr> else info) (ipp_ips p)\<rparr>)"

definition Pool_Clear :: "IPPool \<Rightarrow> IPPool" where
  "Pool_Clear p = \<lparr>ipp_ips = [], ipp_stats = zero_stats\<rparr>"

definition RemoveIP :: "string \<Rightarrow> IPPool \<Rightarrow> IPPool" where
  "RemoveIP ip p = pool_updateStats (p\<lparr>ipp_ips := drop_key ip (ipp_ips p)\<rparr>)"

definition info_copy :: "IPInfo \<Rightarrow> IPInfo" where
  "info_copy info = info\<lparr>inf_RTT := 0, inf_RTTUpdated := None, inf_RTTEWMA := 0, inf_loss := 0,
     inf_LastMonitorTime := None\<rparr>"

definition GetTopIPsByRefCount :: "int \<Rightarrow> IPPool \<Rightarrow> IPInfo list" where
  "GetTopIPsByRefCount n p =
     (if n \<le> 0 then []
      else take (nat n) (go_sort_slice (\<lambda>a b. inf_RefCount a > inf_RefCount b)
             (map (info_copy \<circ> snd) (ipp_ips p))))"

definition GetTopIPsByAccessHeat :: "int \<Rightarrow> IPPool \<Rightarrow> IPInfo list" where
  "GetTopIPsByAccessHeat n p =
     (if n \<le> 0 then []
      else take (nat n) (go_sort_slice (\<lambda>a b. inf_AccessHeat a > inf_AccessHeat b)
             (map (info_copy \<circ> snd) (ipp_ips p))))"

definition ewma :: "rat \<Rightarrow> int \<Rightarrow> int \<Rightarrow> int" where
  "ewma alpha current previous =
     (if previous = 0 then current
      else go_trunc (of_int current * alpha + (1 - alpha) * of_int previous))"

definition UpdateIPRTT :: "instant \<Rightarrow> string \<Rightarrow> int \<Rightarrow> rat \<Rightarrow> rat \<Rightarrow> IPPool \<Rightarrow> IPPool" where
  "UpdateIPRTT now ip rtt loss alpha p =
     p\<lparr>ipp_ips := map_value ip (\<lambda>info. info\<lparr>inf_RTT := rtt, inf_loss := loss,
         inf_RTTUpdated := Some now, inf_RTTEWMA := ewma alpha rtt (inf_RTTEWMA info)\<rparr>) (ipp_ips p)\<rparr>"

definition GetIPRTT :: "string \<Rightarrow> IPPool \<Rightarrow> int \<times> int \<times> bool" where
  "GetIPRTT ip p = (case map_of (ipp_ips p) ip of
      Some info \<Rightarrow> (inf_RTT info, inf_RTTEWMA info, inf_RTTUpdated info \<noteq> None)
    | None \<Rightarrow> (LogicDeadRTT, LogicDeadRTT, False))"

definition GetIPRTTWithLoss :: "string \<Rightarrow> IPPool \<Rightarrow> int \<times> int \<times> rat \<times> bool" where
  "GetIPRTTWithLoss ip p = (case map_of (ipp_ips p) ip of
      Some info \<Rightarrow> (inf_RTT info, inf_RTTEWMA info, inf_loss info, inf_RTTUpdated info \<noteq> None)
    | None \<Rightarrow> (LogicDeadRTT, LogicDeadRTT, 0, False))"

definition GetAllIPRTTs :: "string list \<Rightarrow> IPPool \<Rightarrow> string \<rightharpoonup> int" where
  "GetAllIPRTTs ips p = fold (\<lambda>ip result. case map_of (ipp_ips p) ip of
      Some info \<Rightarrow> if inf_RTTUpdated info \<noteq> None then result(ip \<mapsto> inf_RTTEWMA info) else result
    | None \<Rightarrow> result) ips Map.empty"

definition IsIPDead :: "string \<Rightarrow> IPPool \<Rightarrow> bool" where
  "IsIPDead ip p = (case map_of (ipp_ips p) ip of
      Some info \<Rightarrow> LogicDeadRTT \<le> inf_RTT info | None \<Rightarrow> False)"

definition CleanStaleIPs :: "instant \<Rightarrow> duration \<Rightarrow> IPPool \<Rightarrow> int \<times> IPPool" where
  "CleanStaleIPs now maxIdleDuration p =
     (let stale = (\<lambda>(ip, info). inf_RefCount info \<le> 0 \<and> maxIdleDuration < now - inf_LastAccess info);
          cleanedCount = int (length (filter stale (ipp_ips p)));
          p1 = p\<lparr>ipp_ips := filter (\<lambda>x. \<not> stale x) (ipp_ips p)\<rparr>
      in (cleanedCount, if 0 < cleanedCount then pool_updateStats p1 else p1))"

definition UpdateMonitorTime :: "instant \<Rightarrow> string \<Rightarrow> IPPool \<Rightarrow> IPPool" where
  "UpdateMonitorTime now ip p =
     p\<lparr>ipp_ips := map_value ip (\<lambda>info. info\<lparr>inf_LastMonitorTime := Some now\<rparr>) (ipp_ips p)\<rparr>"

section \<open>Lookups\<close>

lemma release_frame [simp]: "inf_IP (release_ref d i) = inf_IP i"
  "inf_AccessHeat (release_ref d i) = inf_AccessHeat i"
  "inf_RefCount (release_ref d i) = max 0 (inf_RefCount i - 1)"
  by (simp_all add: release_ref_def selectRepDomain_def Let_def)

lemma acquire_frame [simp]: "inf_IP (acquire_ref now d b i) = inf_IP i"
  "inf_AccessHeat (acquire_ref now d b i) = inf_AccessHeat i"
  "inf_RefCount (acquire_ref now d b i) = inf_RefCount i + (if b then 1 else 0)"
  by (simp_all add: acquire_ref_def updateRepDomain_def Let_def)

lemma keys_release: "keys_of (fold (release_step newIPs d) xs ips) = keys_of ips"
  by (induction xs arbitrary: ips) (simp_all add: release_step_def)

lemma lookup_release:
  "distinct xs \<Longrightarrow> map_of (fold (release_step newIPs d) xs ips) k =
     (if k \<in> set xs \<and> k \<notin> set newIPs then map_option (release_ref d) (map_of ips k) else map_of ips k)"
  by (induction xs arbitrary: ips) (auto simp: release_step_def)

lemma lookup_acquire_step:
  "map_of (acquire_step now oldIPs d ip ips) k =
     (if k = ip then Some (case map_of ips k of None \<Rightarrow> fresh_info now d k
         | Some i \<Rightarrow> acquire_ref now d (k \<notin> set oldIPs) i) else map_of ips k)"
  by (auto simp: acquire_step_def map_add_def split: option.splits)

lemma distinct_acquire_step:
  "distinct (keys_of ips) \<Longrightarrow> distinct (keys_of (acquire_step now oldIPs d ip ips))"
  by (auto simp: acquire_step_def map_of_eq_None_keys split: option.splits)

lemma distinct_acquire:
  "distinct (keys_of ips) \<Longrightarrow> distinct (keys_of (fold (acquire_step now oldIPs d) xs ips))"
  by (induction xs arbitrary: ips) (simp_all add: distinct_acquire_step)

lemma lookup_acquire:
  "distinct xs \<Longrightarrow> map_of (fold (acquire_step now oldIPs d) xs ips) k =
     (if k \<in> set xs then Some (case map_of ips k of None \<Rightarrow> fresh_info now d k
         | Some i \<Rightarrow> acquire_ref now d (k \<notin> set oldIPs) i) else map_of ips k)"
  by (induction xs arbitrary: ips) (auto simp: lookup_acquire_step)

lemma update_lookup:
  "map_of (ipp_ips (UpdateDomainIPs now old new d p)) k =
     (if k \<in> set new then Some (case map_of (ipp_ips p) k of None \<Rightarrow> fresh_info now d k
         | Some i \<Rightarrow> acquire_ref now d (k \<notin> set old) i)
      else if k \<in> set old then map_option (release_ref d) (map_of (ipp_ips p) k)
      else map_of (ipp_ips p) k)"
  by (simp add: UpdateDomainIPs_def Let_def pool_updateStats_def lookup_acquire lookup_release)

lemma update_distinct:
  "distinct (keys_of (ipp_ips p)) \<Longrightarrow> distinct (keys_of (ipp_ips (UpdateDomainIPs now old new d p)))"
  by (simp add: UpdateDomainIPs_def Let_def pool_updateStats_def distinct_acquire keys_release)

section \<open>Reference counts\<close>

text \<open>The statistics are those of the records.\<close>

definition stats_ok :: "IPPool \<Rightarrow> bool" where
  "stats_ok p \<longleftrightarrow> st_TotalIPs (ipp_stats p) = int (length (ipp_ips p))
     \<and> st_TotalRefCount (ipp_stats p) = sum_values inf_RefCount (ipp_ips p)
     \<and> st_TotalHeat (ipp_stats p) = sum_values inf_AccessHeat (ipp_ips p)"

lemma stats_ok_updateStats [simp]: "stats_ok (pool_updateStats p)"
  by (simp add: stats_ok_def pool_updateStats_def)

lemma stats_ok_update [simp]: "stats_ok (UpdateDomainIPs now old new d p)"
  by (simp add: UpdateDomainIPs_def Let_def)

text \<open>A step that changes one record, but neither its count nor its heat.\<close>

lemma stats_ok_map_value:
  "stats_ok p \<Longrightarrow> (\<And>i. inf_RefCount (f i) = inf_RefCount i \<and> inf_AccessHeat (f i) = inf_AccessHeat i) \<Longrightarrow>
   stats_ok (p\<lparr>ipp_ips := map_value ip f (ipp_ips p)\<rparr>)"
  by (simp add: stats_ok_def sum_values_map_value_same)

text \<open>\<open>users reg ip\<close>: the names whose current answer holds the address.\<close>

definition users :: "(string \<Rightarrow> string set) \<Rightarrow> string \<Rightarrow> string set" where
  "users reg ip = {d. ip \<in> reg d}"

definition count_ok :: "string set \<Rightarrow> string \<Rightarrow> IPInfo option \<Rightarrow> bool" where
  "count_ok ds ip info \<longleftrightarrow> finite ds \<and> (case info of
      None \<Rightarrow> ds = {} | Some i \<Rightarrow> inf_IP i = ip \<and> inf_RefCount i = int (card ds))"

definition pool_inv :: "(string \<Rightarrow> string set) \<Rightarrow> IPPool \<Rightarrow> bool" where
  "pool_inv reg p \<longleftrightarrow> distinct (keys_of (ipp_ips p)) \<and> stats_ok p \<and>
     (\<forall>ip. count_ok (users reg ip) ip (map_of (ipp_ips p) ip))"

lemma pool_inv_at: "pool_inv reg p \<Longrightarrow> count_ok (users reg ip) ip (map_of (ipp_ips p) ip)"
  by (simp add: pool_inv_def)

lemma count_ok_map: "count_ok ds ip x \<Longrightarrow> (\<And>i. inf_IP (f i) = inf_IP i \<and> inf_RefCount (f i) = inf_RefCount i)
    \<Longrightarrow> count_ok ds ip (map_option f x)"
  by (cases x) (auto simp: count_ok_def)

text \<open>Runs in which each report of a name gives as old addresses those of its last report.\<close>

inductive pool_reachable :: "(string \<Rightarrow> string set) \<Rightarrow> IPPool \<Rightarrow> bool" where
  pr_new: "pool_reachable (\<lambda>_. {}) NewIPPool"
| pr_update: "pool_reachable reg p \<Longrightarrow> set old = reg d \<Longrightarrow>
    pool_reachable (reg(d := set new)) (UpdateDomainIPs now old new d p)"
| pr_access: "pool_reachable reg p \<Longrightarrow> pool_reachable reg (Pool_RecordAccess now ip d p)"
| pr_rtt: "pool_reachable reg p \<Longrightarrow> pool_reachable reg (UpdateIPRTT now ip rtt loss alpha p)"
| pr_success: "pool_reachable reg p \<Longrightarrow> pool_reachable reg (UpdateRepDomainOnSuccess ip d force p)"
| pr_check: "pool_reachable reg p \<Longrightarrow> pool_reachable reg (CheckAndUpdateRepDomain ip d d' p)"
| pr_monitor: "pool_reachable reg p \<Longrightarrow> pool_reachable reg (UpdateMonitorTime now ip p)"
| pr_clean: "pool_reachable reg p \<Longrightarrow> pool_reachable reg (snd (CleanStaleIPs now idle p))"
| pr_clear: "pool_reachable reg p \<Longrightarrow> pool_reachable (\<lambda>_. {}) (Pool_Clear p)"

lemma users_upd: "users (reg(d := S)) ip =
    (if ip \<in> S then insert d (users reg ip) else users reg ip - {d})"
  by (auto simp: users_def)

lemma pool_inv_update:
  assumes "pool_inv reg p" "set old = reg d"
  shows "pool_inv (reg(d := set new)) (UpdateDomainIPs now old new d p)"
proof -
  have "count_ok (users (reg(d := set new)) ip) ip (map_of (ipp_ips (UpdateDomainIPs now old new d p)) ip)" for ip
  proof -
    have u: "finite (users reg ip)" "d \<in> users reg ip \<longleftrightarrow> ip \<in> set old"
      "count_ok (users reg ip) ip (map_of (ipp_ips p) ip)"
      using assms by (auto simp: pool_inv_def users_def count_ok_def)
    have pos: "d \<in> users reg ip \<Longrightarrow> 0 < card (users reg ip)" using u(1) by (auto simp: card_gt_0_iff)
    show ?thesis
      using u pos
      by (auto simp: count_ok_def users_upd update_lookup fresh_info_def card_insert_if card_Diff_singleton
          of_nat_diff split: option.splits)
  qed
  then show ?thesis using assms(1) by (simp add: pool_inv_def update_distinct)
qed

lemma pool_inv_map_value:
  assumes "pool_inv reg p"
    "\<And>i. inf_IP (f i) = inf_IP i \<and> inf_RefCount (f i) = inf_RefCount i \<and> inf_AccessHeat (f i) = inf_AccessHeat i"
  shows "pool_inv reg (p\<lparr>ipp_ips := map_value ip f (ipp_ips p)\<rparr>)"
  using assms stats_ok_map_value[of p f] count_ok_map[of _ _ _ f] by (simp add: pool_inv_def)

lemma pool_inv_access:
  assumes "pool_inv reg p"
  shows "pool_inv reg (Pool_RecordAccess now ip d p)"
proof (cases "map_of (ipp_ips p) ip")
  case (Some i)
  let ?f = "\<lambda>info. updateRepDomain d (info\<lparr>inf_AccessHeat := inf_AccessHeat info + 1, inf_LastAccess := now\<rparr>)"
  have "sum_values inf_RefCount (map_value ip ?f (ipp_ips p)) = sum_values inf_RefCount (ipp_ips p)"
    by (rule sum_values_map_value_same) (simp add: updateRepDomain_def)
  moreover have "sum_values inf_AccessHeat (map_value ip ?f (ipp_ips p)) = sum_values inf_AccessHeat (ipp_ips p) + 1"
    using assms Some sum_values_map_value[of "ipp_ips p" ip i inf_AccessHeat ?f]
    by (simp add: pool_inv_def updateRepDomain_def)
  ultimately have "stats_ok (Pool_RecordAccess now ip d p)"
    using assms Some by (simp add: pool_inv_def Pool_RecordAccess_def stats_ok_def)
  moreover have "count_ok (users reg j) j (map_of (ipp_ips (Pool_RecordAccess now ip d p)) j)" for j
    using pool_inv_at[OF assms, of j] Some
    by (cases "j = ip") (simp_all add: count_ok_def Pool_RecordAccess_def updateRepDomain_def)
  ultimately show ?thesis using assms Some by (simp add: pool_inv_def Pool_RecordAccess_def)
qed (use assms in \<open>simp add: Pool_RecordAccess_def\<close>)

lemma pool_inv_clean:
  assumes "pool_inv reg p"
  shows "pool_inv reg (snd (CleanStaleIPs now idle p))"
proof -
  define stale where "stale = (\<lambda>(ip :: string, info :: IPInfo). inf_RefCount info \<le> 0 \<and> idle < now - inf_LastAccess info)"
  let ?ips = "filter (\<lambda>x. \<not> stale x) (ipp_ips p)"
  have d: "distinct (keys_of (ipp_ips p))" "distinct (keys_of ?ips)"
    using assms by (auto simp: pool_inv_def distinct_keys_filter)
  have look: "map_of ?ips ip = (case map_of (ipp_ips p) ip of None \<Rightarrow> None
      | Some i \<Rightarrow> if stale (ip, i) then None else Some i)" for ip
  proof (cases "map_of ?ips ip")
    case (Some j)
    then have "(ip, j) \<in> set ?ips" by (rule map_of_SomeD)
    then have "map_of (ipp_ips p) ip = Some j" "\<not> stale (ip, j)" using d(1) by (auto simp: keys_of_def)
    then show ?thesis using Some by simp
  next
    case None
    then have "(ip, i) \<notin> set ?ips" for i using d(2) by (metis distinct_keys_map_of option.distinct(1))
    then have "map_of (ipp_ips p) ip = Some i \<Longrightarrow> stale (ip, i)" for i
      by (auto dest: map_of_SomeD)
    then show ?thesis using None by (auto split: option.splits)
  qed
  have ips: "ipp_ips (snd (CleanStaleIPs now idle p)) = ?ips"
    by (simp add: CleanStaleIPs_def Let_def stale_def pool_updateStats_def)
  have "stats_ok (snd (CleanStaleIPs now idle p))"
  proof (cases "filter stale (ipp_ips p) = []")
    case True
    then have "?ips = ipp_ips p" by (induction "ipp_ips p") (auto simp: filter_empty_conv filter_id_conv)
    then have "snd (CleanStaleIPs now idle p) = p"
      using True by (simp add: CleanStaleIPs_def Let_def stale_def[symmetric])
    then show ?thesis using assms by (simp add: pool_inv_def)
  next
    case False
    then show ?thesis by (simp add: CleanStaleIPs_def Let_def stale_def[symmetric])
  qed
  moreover have "count_ok (users reg ip) ip (map_of ?ips ip)" for ip
    using pool_inv_at[OF assms, of ip] unfolding look
    by (auto simp: stale_def count_ok_def split: option.splits)
  ultimately show ?thesis using d(2) unfolding pool_inv_def ips by blast
qed

lemma pool_reachable_inv: "pool_reachable reg p \<Longrightarrow> pool_inv reg p"
proof (induction rule: pool_reachable.induct)
  case pr_new
  show ?case by (simp add: pool_inv_def count_ok_def NewIPPool_def stats_ok_def zero_stats_def users_def)
next
  case (pr_update reg p old d new now)
  show ?case by (rule pool_inv_update[OF pr_update.IH pr_update.hyps(2)])
next
  case (pr_success reg p ip d force)
  then show ?case by (cases "d = ''''") (simp_all add: UpdateRepDomainOnSuccess_def pool_inv_map_value)
next
  case (pr_check reg p ip d d')
  then show ?case by (cases "d' = ''''") (simp_all add: CheckAndUpdateRepDomain_def pool_inv_map_value)
next
  case (pr_clear reg p)
  show ?case by (simp add: pool_inv_def count_ok_def Pool_Clear_def stats_ok_def zero_stats_def users_def)
qed (simp_all add: pool_inv_access pool_inv_clean UpdateIPRTT_def UpdateMonitorTime_def pool_inv_map_value)

section \<open>Properties\<close>

text \<open>C3: As long as each report of a name gives the addresses of its previous report as the old
  ones, every record's reference count is exactly the number of names that use the address, every
  address in use has a record, whatever is accessed, measured or cleaned in between, and the
  statistics are the sums over the records. Cleaning removes no address in use.\<close>

theorem IPPool_counts_users:
  assumes "pool_reachable reg p"
  shows "(\<forall>ip. case map_of (ipp_ips p) ip of
        None \<Rightarrow> users reg ip = {}
      | Some i \<Rightarrow> inf_RefCount i = int (card (users reg ip)))
    \<and> st_TotalIPs (ipp_stats p) = int (length (ipp_ips p))
    \<and> st_TotalRefCount (ipp_stats p) = sum_values inf_RefCount (ipp_ips p)
    \<and> st_TotalHeat (ipp_stats p) = sum_values inf_AccessHeat (ipp_ips p)"
proof -
  have i: "pool_inv reg p" using assms by (rule pool_reachable_inv)
  have "case map_of (ipp_ips p) ip of None \<Rightarrow> users reg ip = {}
      | Some i \<Rightarrow> inf_RefCount i = int (card (users reg ip))" for ip
    using pool_inv_at[OF i, of ip] by (auto simp: count_ok_def split: option.splits)
  then show ?thesis using i by (simp add: pool_inv_def stats_ok_def)
qed

theorem IPPool_counts_users_witness:
  "map_option inf_RefCount (map_of (ipp_ips (UpdateDomainIPs 5 [] [''192.0.2.1''] ''b''
     (UpdateDomainIPs 3 [] [''192.0.2.1''] ''a'' NewIPPool))) ''192.0.2.1'') = Some 2"
proof -
  define reg where "reg = ((\<lambda>_. {})(''a'' := {''192.0.2.1''}))(''b'' := {''192.0.2.1''})"
  define p where "p = UpdateDomainIPs 5 [] [''192.0.2.1''] ''b'' (UpdateDomainIPs 3 [] [''192.0.2.1''] ''a'' NewIPPool)"
  have "pool_reachable reg p"
    unfolding reg_def p_def
    using pr_update[OF pr_update[OF pr_new, of "[]" "''a''" "[''192.0.2.1'']" 3], of "[]" "''b''" "[''192.0.2.1'']" 5]
    by simp
  then have "case map_of (ipp_ips p) ''192.0.2.1'' of None \<Rightarrow> users reg ''192.0.2.1'' = {}
      | Some i \<Rightarrow> inf_RefCount i = int (card (users reg ''192.0.2.1''))"
    using IPPool_counts_users[of reg p] by blast
  moreover have "users reg ''192.0.2.1'' = {''a'', ''b''}" by (auto simp: users_def reg_def split: if_splits)
  ultimately have "map_option inf_RefCount (map_of (ipp_ips p) ''192.0.2.1'') = Some 2"
    by (simp split: option.splits)
  then show ?thesis unfolding p_def .
qed

text \<open>The smoothed round-trip time stays between the new measurement and the previous value, and
  the first measurement is taken as it is; the recorded time is exactly the one measured. No other
  address is affected.\<close>

theorem UpdateIPRTT_smooths:
  assumes "0 \<le> alpha" "alpha \<le> 1" "map_of (ipp_ips p) ip = Some i"
  shows "(\<exists>e. GetIPRTT ip (UpdateIPRTT now ip rtt loss alpha p) = (rtt, e, True)
      \<and> (if inf_RTTEWMA i = 0 then e = rtt else min rtt (inf_RTTEWMA i) \<le> e \<and> e \<le> max rtt (inf_RTTEWMA i)))
    \<and> (IsIPDead ip (UpdateIPRTT now ip rtt loss alpha p) \<longleftrightarrow> 9000 \<le> rtt)
    \<and> (GetIPRTT ip' (UpdateIPRTT now ip rtt loss alpha p) = GetIPRTT ip' p \<or> ip' = ip)"
  using assms go_trunc_mean[OF assms(1,2), of rtt "inf_RTTEWMA i"]
  by (auto simp: GetIPRTT_def UpdateIPRTT_def IsIPDead_def LogicDeadRTT_def ewma_def)

theorem UpdateIPRTT_smooths_witness:
  "\<exists>e. GetIPRTT ''192.0.2.1'' (UpdateIPRTT 9 ''192.0.2.1'' 40 0 (3 / 10)
      (UpdateIPRTT 8 ''192.0.2.1'' 20 0 (3 / 10) (UpdateDomainIPs 3 [] [''192.0.2.1''] ''a'' NewIPPool)))
     = (40, e, True) \<and> 20 \<le> e \<and> e \<le> 40"
proof -
  let ?p = "UpdateIPRTT 8 ''192.0.2.1'' 20 0 (3 / 10) (UpdateDomainIPs 3 [] [''192.0.2.1''] ''a'' NewIPPool)"
  obtain i where i: "map_of (ipp_ips ?p) ''192.0.2.1'' = Some i" "inf_RTTEWMA i = 20"
    by (simp add: UpdateIPRTT_def update_lookup NewIPPool_def fresh_info_def ewma_def)
  show ?thesis
    using UpdateIPRTT_smooths[OF _ _ i(1), of "3 / 10" 9 40 0] i(2) by (auto simp: min_def max_def)
qed

end
