(* ===== verification/Failure_Weight.thy ===== *)
theory Failure_Weight
  imports Go_Num
begin

text \<open>\<open>ping/ip_failure_weight.go\<close>: the record of failures of each address, from which the sorting
  penalty is computed, and its file. The file holds one \<open>encoding/gob\<close> value, which decodes to what
  was encoded, or is corrupt (\<open>None\<close>).\<close>

section \<open>State and operations\<close>

record IPFailureRecord =
  fr_IP :: string
  fr_FailureCount :: int
  fr_LastFailureTime :: "instant option"
  fr_SuccessCount :: int
  fr_TotalAttempts :: int
  fr_FailureRate :: rat
  fr_FastFailCount :: int

record IPFailureWeightManager =
  fw_records :: "(string \<times> IPFailureRecord) list"
  fw_persistFile :: string
  fw_decayDays :: int
  fw_maxFailureCount :: int

definition new_record :: "string \<Rightarrow> IPFailureRecord" where
  "new_record ip = \<lparr>fr_IP = ip, fr_FailureCount = 0, fr_LastFailureTime = None, fr_SuccessCount = 0,
     fr_TotalAttempts = 0, fr_FailureRate = 0, fr_FastFailCount = 0\<rparr>"

definition updateFailureRate :: "IPFailureRecord \<Rightarrow> IPFailureRecord" where
  "updateFailureRate r =
     (if 0 < fr_TotalAttempts r
      then r\<lparr>fr_FailureRate := of_int (fr_FailureCount r) / of_int (fr_TotalAttempts r)\<rparr> else r)"

definition fail_record :: "int \<Rightarrow> instant \<Rightarrow> IPFailureRecord \<Rightarrow> IPFailureRecord" where
  "fail_record maxFailureCount now r =
     (let r1 = r\<lparr>fr_FailureCount := fr_FailureCount r + 1\<rparr>;
          r2 = (if maxFailureCount < fr_FailureCount r1 then r1\<lparr>fr_FailureCount := maxFailureCount\<rparr> else r1)
      in updateFailureRate (r2\<lparr>fr_LastFailureTime := Some now, fr_SuccessCount := 0,
           fr_TotalAttempts := fr_TotalAttempts r2 + 1\<rparr>))"

definition RecordFailure :: "instant \<Rightarrow> string \<Rightarrow> IPFailureWeightManager \<Rightarrow> IPFailureWeightManager" where
  "RecordFailure now ip m =
     m\<lparr>fw_records := upsert ip (new_record ip) (fail_record (fw_maxFailureCount m) now) (fw_records m)\<rparr>"

definition succeed_record :: "IPFailureRecord \<Rightarrow> IPFailureRecord" where
  "succeed_record r =
     (let r1 = updateFailureRate (r\<lparr>fr_SuccessCount := fr_SuccessCount r + 1,
                                    fr_TotalAttempts := fr_TotalAttempts r + 1\<rparr>)
      in if 0 < fr_FastFailCount r1 \<and> fr_SuccessCount r1 = 1
         then r1\<lparr>fr_FailureCount := 0, fr_SuccessCount := 0, fr_FastFailCount := 0\<rparr>
         else if 3 \<le> fr_SuccessCount r1 \<and> 0 < fr_FailureCount r1
         then r1\<lparr>fr_FailureCount := fr_FailureCount r1 - 1, fr_SuccessCount := 0\<rparr>
         else r1)"

definition RecordSuccess :: "string \<Rightarrow> IPFailureWeightManager \<Rightarrow> IPFailureWeightManager" where
  "RecordSuccess ip m = m\<lparr>fw_records := upsert ip (new_record ip) succeed_record (fw_records m)\<rparr>"

definition RecordFastFail :: "instant \<Rightarrow> string \<Rightarrow> IPFailureWeightManager \<Rightarrow> IPFailureWeightManager" where
  "RecordFastFail now ip m =
     m\<lparr>fw_records := upsert ip (new_record ip)
        (\<lambda>r. fail_record (fw_maxFailureCount m) now (r\<lparr>fr_FastFailCount := fr_FastFailCount r + 1\<rparr>))
        (fw_records m)\<rparr>"

definition record_weight :: "int \<Rightarrow> instant \<Rightarrow> IPFailureRecord \<Rightarrow> int" where
  "record_weight decayDays now r =
     (let weight = fr_FailureCount r * 50 + fr_FastFailCount r * 500
      in (case fr_LastFailureTime r of
            None \<Rightarrow> weight
          | Some t \<Rightarrow>
             (let daysSinceFailure = of_int (now - t) / of_int hour / 24 :: rat
              in if of_int decayDays < daysSinceFailure then 0
                 else go_trunc (of_int weight * (1 - daysSinceFailure / of_int decayDays)))))"

definition GetWeight :: "instant \<Rightarrow> string \<Rightarrow> IPFailureWeightManager \<Rightarrow> int" where
  "GetWeight now ip m = (case map_of (fw_records m) ip of
      None \<Rightarrow> 0 | Some r \<Rightarrow> record_weight (fw_decayDays m) now r)"

definition GetRecord :: "string \<Rightarrow> IPFailureWeightManager \<Rightarrow> IPFailureRecord" where
  "GetRecord ip m = (case map_of (fw_records m) ip of None \<Rightarrow> new_record ip | Some r \<Rightarrow> r)"

definition GetAllRecords :: "IPFailureWeightManager \<Rightarrow> IPFailureRecord list" where
  "GetAllRecords m = map snd (fw_records m)"

definition Weights_Clear :: "IPFailureWeightManager \<Rightarrow> IPFailureWeightManager" where
  "Weights_Clear m = m\<lparr>fw_records := []\<rparr>"

section \<open>The file\<close>

type_synonym weight_files = "string \<rightharpoonup> IPFailureRecord list option"

text \<open>\<open>created\<close>, \<open>encoded\<close>, \<open>renamed\<close>: whether the calls succeed. The result says whether an error is returned.\<close>

definition Weights_SaveToDisk :: "bool \<Rightarrow> bool \<Rightarrow> bool \<Rightarrow> IPFailureWeightManager \<Rightarrow> weight_files \<Rightarrow>
    bool \<times> weight_files" where
  "Weights_SaveToDisk created encoded renamed m fs =
     (if fw_persistFile m = '''' then (False, fs)
      else (let tempFile = fw_persistFile m @ ''.tmp''; records = map snd (fw_records m) in
            if \<not> created then (True, fs)
            else if \<not> encoded then (True, fs(tempFile \<mapsto> None))
            else if \<not> renamed then (True, fs(tempFile \<mapsto> Some records))
            else (False, fs(tempFile := None, fw_persistFile m \<mapsto> Some records))))"

definition Weights_loadFromDisk :: "weight_files \<Rightarrow> IPFailureWeightManager \<Rightarrow> bool \<times> IPFailureWeightManager" where
  "Weights_loadFromDisk fs m =
     (if fw_persistFile m = '''' then (False, m)
      else (case fs (fw_persistFile m) of
              None \<Rightarrow> (False, m)
            | Some None \<Rightarrow> (True, m)
            | Some (Some records) \<Rightarrow>
                (False, m\<lparr>fw_records := fold (\<lambda>r rs. AList.update (fr_IP r) r rs) records (fw_records m)\<rparr>)))"

definition NewIPFailureWeightManager :: "weight_files \<Rightarrow> string \<Rightarrow> IPFailureWeightManager" where
  "NewIPFailureWeightManager fs persistFile =
     snd (Weights_loadFromDisk fs \<lparr>fw_records = [], fw_persistFile = persistFile, fw_decayDays = 7,
       fw_maxFailureCount = 100\<rparr>)"

section \<open>Lemmas\<close>

definition record_ok :: "IPFailureRecord \<Rightarrow> bool" where
  "record_ok r \<longleftrightarrow> 0 \<le> fr_FailureCount r \<and> fr_FailureCount r \<le> 100
     \<and> fr_FailureCount r \<le> fr_TotalAttempts r \<and> 0 \<le> fr_FastFailCount r
     \<and> 0 \<le> fr_SuccessCount r \<and> 0 \<le> fr_FailureRate r \<and> fr_FailureRate r \<le> 1"

definition weights_ok :: "IPFailureWeightManager \<Rightarrow> bool" where
  "weights_ok m \<longleftrightarrow> fw_decayDays m = 7 \<and> fw_maxFailureCount m = 100 \<and> distinct (keys_of (fw_records m))
     \<and> (\<forall>ip r. map_of (fw_records m) ip = Some r \<longrightarrow> record_ok r \<and> fr_IP r = ip)"

lemma record_ok_new [simp]: "record_ok (new_record ip)" "fr_IP (new_record ip) = ip"
  by (simp_all add: record_ok_def new_record_def)

lemma rate_ok: "0 \<le> c \<Longrightarrow> c \<le> n \<Longrightarrow> 0 < n \<Longrightarrow> 0 \<le> (of_int c / of_int n :: rat) \<and> (of_int c / of_int n :: rat) \<le> 1"
  by (simp add: divide_le_eq)

lemma fail_record_ok: "record_ok r \<Longrightarrow> record_ok (fail_record 100 now r)"
  using rate_ok[of "fr_FailureCount r + 1" "fr_TotalAttempts r + 1"] rate_ok[of 100 "fr_TotalAttempts r + 1"]
  by (auto simp: record_ok_def fail_record_def updateFailureRate_def Let_def)

lemma succeed_record_ok: "record_ok r \<Longrightarrow> record_ok (succeed_record r)"
  using rate_ok[of "fr_FailureCount r" "fr_TotalAttempts r + 1"]
  by (auto simp: record_ok_def succeed_record_def updateFailureRate_def Let_def)

lemma fr_IP_simps [simp]: "fr_IP (fail_record x now r) = fr_IP r" "fr_IP (succeed_record r) = fr_IP r"
  by (simp_all add: fail_record_def succeed_record_def updateFailureRate_def Let_def)

lemma weights_ok_upsert:
  assumes "weights_ok m" "\<And>r. record_ok r \<Longrightarrow> record_ok (f r)" "\<And>r. fr_IP (f r) = fr_IP r"
  shows "weights_ok (m\<lparr>fw_records := upsert ip (new_record ip) f (fw_records m)\<rparr>)"
  using assms by (auto simp: weights_ok_def split: option.splits)

lemma weights_ok_steps:
  assumes "weights_ok m"
  shows "weights_ok (RecordFailure now ip m)" "weights_ok (RecordSuccess ip m)"
    "weights_ok (RecordFastFail now ip m)" "weights_ok (Weights_Clear m)"
proof -
  have "fw_maxFailureCount m = 100" using assms by (simp add: weights_ok_def)
  then show "weights_ok (RecordFailure now ip m)"
    using assms by (simp add: RecordFailure_def weights_ok_upsert fail_record_ok)
  have "record_ok (fail_record 100 now (r\<lparr>fr_FastFailCount := fr_FastFailCount r + 1\<rparr>))" if "record_ok r" for r
    using that by (intro fail_record_ok) (simp add: record_ok_def)
  then show "weights_ok (RecordFastFail now ip m)"
    using assms \<open>fw_maxFailureCount m = 100\<close> by (simp add: RecordFastFail_def weights_ok_upsert)
  show "weights_ok (RecordSuccess ip m)"
    using assms by (simp add: RecordSuccess_def weights_ok_upsert succeed_record_ok)
  show "weights_ok (Weights_Clear m)" using assms by (simp add: Weights_Clear_def weights_ok_def)
qed

inductive weights_reachable :: "IPFailureWeightManager \<Rightarrow> bool" where
  wr_new: "fs f = None \<Longrightarrow> weights_reachable (NewIPFailureWeightManager fs f)"
| wr_failure: "weights_reachable m \<Longrightarrow> weights_reachable (RecordFailure now ip m)"
| wr_success: "weights_reachable m \<Longrightarrow> weights_reachable (RecordSuccess ip m)"
| wr_fast: "weights_reachable m \<Longrightarrow> weights_reachable (RecordFastFail now ip m)"
| wr_clear: "weights_reachable m \<Longrightarrow> weights_reachable (Weights_Clear m)"
| wr_restart: "weights_reachable m \<Longrightarrow> Weights_SaveToDisk a b c m fs = (False, fs') \<Longrightarrow> fw_persistFile m \<noteq> '''' \<Longrightarrow>
    weights_reachable (NewIPFailureWeightManager fs' (fw_persistFile m))"

lemma fold_update_records:
  "distinct (map fr_IP rs) \<Longrightarrow> map_of (fold (\<lambda>r rs. AList.update (fr_IP r) r rs) rs xs) ip =
     (case find (\<lambda>r. fr_IP r = ip) rs of Some r \<Rightarrow> Some r | None \<Rightarrow> map_of xs ip)"
proof (induction rs arbitrary: xs)
  case (Cons r rs)
  have "fr_IP r = ip \<Longrightarrow> find (\<lambda>r. fr_IP r = ip) rs = None"
    using Cons.prems by (auto simp: find_None_iff) (metis image_eqI)
  then show ?case using Cons by (auto simp: update_conv split: option.splits)
qed simp

lemma distinct_fold_update_records:
  "distinct (keys_of xs) \<Longrightarrow> distinct (keys_of (fold (\<lambda>r rs. AList.update (fr_IP r) r rs) rs xs))"
  by (induction rs arbitrary: xs) (simp_all add: keys_of_def distinct_update)

lemma find_record:
  "distinct (keys_of xs) \<Longrightarrow> (\<And>k r. map_of xs k = Some r \<Longrightarrow> fr_IP r = k) \<Longrightarrow>
   map fr_IP (map snd xs) = keys_of xs \<and> find (\<lambda>r. fr_IP r = ip) (map snd xs) = map_of xs ip"
proof (induction xs)
  case (Cons p xs)
  obtain k r where p: "p = (k, r)" by force
  have k: "fr_IP r = k" using Cons.prems(2)[of k r] p by simp
  have "map_of xs j = Some s \<Longrightarrow> fr_IP s = j" for j s
    using Cons.prems(1) Cons.prems(2)[of j s] p map_of_Some_keys[of xs j s] by (cases "j = k") auto
  then show ?case using Cons.IH Cons.prems(1) p k by auto
qed simp

lemma reload_lookup:
  assumes "weights_ok m" "Weights_SaveToDisk a b c m fs = (False, fs')" "fw_persistFile m \<noteq> ''''"
  defines "m' \<equiv> NewIPFailureWeightManager fs' (fw_persistFile m)"
  shows "map_of (fw_records m') ip = map_of (fw_records m) ip \<and> distinct (keys_of (fw_records m'))
    \<and> fw_decayDays m' = 7 \<and> fw_maxFailureCount m' = 100"
proof -
  have saved: "fs' (fw_persistFile m) = Some (Some (map snd (fw_records m)))"
    using assms(2,3) by (auto simp: Weights_SaveToDisk_def Let_def split: if_splits)
  have fnd: "map fr_IP (map snd (fw_records m)) = keys_of (fw_records m)"
    "find (\<lambda>r. fr_IP r = ip) (map snd (fw_records m)) = map_of (fw_records m) ip"
    using find_record[of "fw_records m" ip] assms(1) by (auto simp: weights_ok_def)
  have "distinct (map fr_IP (map snd (fw_records m)))" using fnd(1) assms(1) by (simp add: weights_ok_def)
  then show ?thesis
    using saved fnd(2) assms(3) distinct_fold_update_records[of "[]"] fold_update_records[of "map snd (fw_records m)" "[]" ip]
    by (simp add: m'_def NewIPFailureWeightManager_def Weights_loadFromDisk_def split: option.splits)
qed

lemma weights_reachable_ok: "weights_reachable m \<Longrightarrow> weights_ok m"
proof (induction rule: weights_reachable.induct)
  case (wr_new fs f)
  then show ?case by (simp add: NewIPFailureWeightManager_def Weights_loadFromDisk_def weights_ok_def)
next
  case (wr_restart m a b c fs fs')
  note r = reload_lookup[OF wr_restart.IH wr_restart.hyps(2,3)]
  show ?case using wr_restart.IH r unfolding weights_ok_def by metis
qed (simp_all add: weights_ok_steps)

lemma record_weight_bounds:
  assumes "record_ok r" "\<forall>t. fr_LastFailureTime r = Some t \<longrightarrow> t \<le> now"
  shows "0 \<le> record_weight 7 now r \<and> record_weight 7 now r \<le> fr_FailureCount r * 50 + fr_FastFailCount r * 500"
proof (cases "fr_LastFailureTime r")
  case None
  then show ?thesis using assms by (simp add: record_weight_def record_ok_def)
next
  case (Some t)
  let ?w = "fr_FailureCount r * 50 + fr_FastFailCount r * 500"
  let ?d = "of_int (now - t) / of_int hour / 24 :: rat"
  have w: "0 \<le> ?w" using assms(1) by (simp add: record_ok_def)
  have "0 < (of_int hour :: rat)" using time_units_pos(4) by simp
  then have d: "0 \<le> ?d" using assms(2) Some by (intro divide_nonneg_pos) simp_all
  show ?thesis
  proof (cases "7 < ?d")
    case True
    then show ?thesis using w Some by (simp add: record_weight_def)
  next
    case False
    have "0 \<le> 1 - x / 7 \<and> 1 - x / 7 \<le> 1" if "0 \<le> x" "\<not> 7 < x" for x :: rat
      using that by (simp add: divide_le_eq)
    then have f: "0 \<le> 1 - ?d / 7" "1 - ?d / 7 \<le> 1" using False d by blast+
    have "of_int 0 \<le> of_int ?w * (1 - ?d / 7)" using w f(1) by simp
    moreover have "of_int ?w * (1 - ?d / 7) \<le> of_int ?w" using w f(2) by (intro mult_left_le) simp_all
    ultimately have "0 \<le> go_trunc (of_int ?w * (1 - ?d / 7)) \<and> go_trunc (of_int ?w * (1 - ?d / 7)) \<le> ?w"
      by (rule go_trunc_between)
    then show ?thesis using False Some by (simp add: record_weight_def Let_def)
  qed
qed

lemma fast_fail_forgiven:
  assumes "weights_reachable m"
  shows "GetWeight now' ip (RecordSuccess ip (RecordFastFail now ip m)) = 0"
    "fr_FailureCount (GetRecord ip (RecordSuccess ip (RecordFastFail now ip m))) = 0"
proof -
  have "0 \<le> fr_FastFailCount (GetRecord ip m)"
    using weights_reachable_ok[OF assms] by (auto simp: GetRecord_def weights_ok_def record_ok_def new_record_def split: option.splits)
  then have ff: "0 \<le> fr_FastFailCount (case map_of (fw_records m) ip of None \<Rightarrow> new_record ip | Some v \<Rightarrow> v)"
    by (simp add: GetRecord_def)
  define r where "r = (case map_of (fw_records m) ip of None \<Rightarrow> new_record ip | Some v \<Rightarrow> v)"
  define s where "s = succeed_record (fail_record (fw_maxFailureCount m) now (r\<lparr>fr_FastFailCount := fr_FastFailCount r + 1\<rparr>))"
  have "fr_FailureCount s = 0" "fr_FastFailCount s = 0"
    using ff by (simp_all add: s_def succeed_record_def fail_record_def updateFailureRate_def Let_def r_def[symmetric])
  moreover have "map_of (fw_records (RecordSuccess ip (RecordFastFail now ip m))) ip = Some s"
    by (simp add: RecordSuccess_def RecordFastFail_def s_def r_def)
  ultimately show "GetWeight now' ip (RecordSuccess ip (RecordFastFail now ip m)) = 0"
    "fr_FailureCount (GetRecord ip (RecordSuccess ip (RecordFastFail now ip m))) = 0"
    by (simp_all add: GetWeight_def GetRecord_def record_weight_def Let_def split: option.splits)
qed

section \<open>Properties\<close>

text \<open>C21: Whatever is recorded, over any number of restarts: at most 100 failures are counted, and
  never more than attempts; the failure rate lies between 0 and 1; the penalty of an address is
  between 0 and 50 for each failure and 500 for each fast failure, and is 0 once the last failure
  is more than seven days back.\<close>

theorem IPFailureWeight_bounded:
  assumes "weights_reachable m" "\<forall>t. fr_LastFailureTime (GetRecord ip m) = Some t \<longrightarrow> t \<le> now"
  shows "0 \<le> GetWeight now ip m
    \<and> GetWeight now ip m \<le> fr_FailureCount (GetRecord ip m) * 50 + fr_FastFailCount (GetRecord ip m) * 500
    \<and> fr_FailureCount (GetRecord ip m) \<le> min 100 (fr_TotalAttempts (GetRecord ip m))
    \<and> 0 \<le> fr_FailureRate (GetRecord ip m) \<and> fr_FailureRate (GetRecord ip m) \<le> 1
    \<and> (\<forall>t. fr_LastFailureTime (GetRecord ip m) = Some t \<and> t + 7 * 24 * hour < now \<longrightarrow> GetWeight now ip m = 0)"
proof -
  note ok = weights_reachable_ok[OF assms(1)]
  show ?thesis
  proof (cases "map_of (fw_records m) ip")
    case None
    then show ?thesis by (simp add: GetWeight_def GetRecord_def new_record_def)
  next
    case (Some r)
    have r: "record_ok r" "fw_decayDays m = 7" using ok Some by (auto simp: weights_ok_def)
    have old: "record_weight 7 now r = 0" if "fr_LastFailureTime r = Some t" "t + 7 * 24 * hour < now" for t
    proof -
      have "7 * 24 * hour < now - t" using that(2) by simp
      then have "(of_int (7 * 24 * hour) :: rat) < of_int (now - t)" by (simp only: of_int_less_iff)
      then have "7 < of_int (now - t) / of_int hour / (24 :: rat)"
        using time_units_pos(4) by (simp add: less_divide_eq)
      then show ?thesis using that(1) by (simp add: record_weight_def)
    qed
    have w: "GetWeight now ip m = record_weight 7 now r" "GetRecord ip m = r"
      using Some r(2) by (simp_all add: GetWeight_def GetRecord_def)
    have "0 \<le> record_weight 7 now r \<and> record_weight 7 now r \<le> fr_FailureCount r * 50 + fr_FastFailCount r * 500"
      using assms(2) w(2) by (intro record_weight_bounds r(1)) simp
    moreover have "fr_FailureCount r \<le> min 100 (fr_TotalAttempts r) \<and> 0 \<le> fr_FailureRate r \<and> fr_FailureRate r \<le> 1"
      using r(1) by (simp add: record_ok_def)
    ultimately show ?thesis using old unfolding w by blast
  qed
qed

theorem IPFailureWeight_bounded_witness:
  "GetWeight (5 * second) ''192.0.2.1'' (RecordFastFail second ''192.0.2.1''
      (NewIPFailureWeightManager Map.empty ''w'')) \<le> 550"
proof -
  define m where "m = RecordFastFail second ''192.0.2.1'' (NewIPFailureWeightManager Map.empty ''w'')"
  have reach: "weights_reachable m" unfolding m_def by (intro wr_fast wr_new) simp
  have rec: "fr_LastFailureTime (GetRecord ''192.0.2.1'' m) = Some second"
    "fr_FailureCount (GetRecord ''192.0.2.1'' m) = 1" "fr_FastFailCount (GetRecord ''192.0.2.1'' m) = 1"
    by (simp_all add: m_def RecordFastFail_def NewIPFailureWeightManager_def Weights_loadFromDisk_def GetRecord_def
        fail_record_def updateFailureRate_def new_record_def Let_def)
  show ?thesis
    using IPFailureWeight_bounded[OF reach, of "''192.0.2.1''" "5 * second"] rec unfolding m_def[symmetric]
    by (simp add: second_def)
qed

text \<open>One success right after a fast failure erases the whole penalty of an address, also what
  earlier failures had left, however many there were.\<close>

theorem RecordSuccess_forgives_fast_fail:
  assumes "weights_reachable m"
  shows "GetWeight now' ip (RecordSuccess ip (RecordFastFail now ip m)) = 0
    \<and> fr_FailureCount (GetRecord ip (RecordSuccess ip (RecordFastFail now ip m))) = 0"
  using fast_fail_forgiven[OF assms] by simp

theorem RecordSuccess_forgives_fast_fail_witness:
  "GetWeight 9 ''a'' (RecordSuccess ''a'' (RecordFastFail 8 ''a'' (RecordFailure 7 ''a''
      (NewIPFailureWeightManager Map.empty ''w'')))) = 0"
proof -
  have "weights_reachable (RecordFailure 7 ''a'' (NewIPFailureWeightManager Map.empty ''w''))"
    by (intro wr_failure wr_new) simp
  then show ?thesis using RecordSuccess_forgives_fast_fail by blast
qed

text \<open>Saving the failure records and starting again with the same file restores every record.\<close>

theorem IPFailureWeight_roundtrip:
  assumes "weights_reachable m" "Weights_SaveToDisk a b c m fs = (False, fs')" "fw_persistFile m \<noteq> ''''"
  shows "GetRecord ip (NewIPFailureWeightManager fs' (fw_persistFile m)) = GetRecord ip m
    \<and> GetWeight now ip (NewIPFailureWeightManager fs' (fw_persistFile m)) = GetWeight now ip m"
proof -
  note ok = weights_reachable_ok[OF assms(1)]
  show ?thesis
    using reload_lookup[OF ok assms(2,3), of ip] ok
    by (simp add: GetRecord_def GetWeight_def weights_ok_def split: option.splits)
qed

theorem IPFailureWeight_roundtrip_witness:
  "\<exists>fs'. Weights_SaveToDisk True True True (RecordFailure 7 ''a'' (NewIPFailureWeightManager Map.empty ''w'')) Map.empty
      = (False, fs')
    \<and> GetRecord ''a'' (NewIPFailureWeightManager fs' ''w'')
      = GetRecord ''a'' (RecordFailure 7 ''a'' (NewIPFailureWeightManager Map.empty ''w''))"
proof -
  define m where "m = RecordFailure 7 ''a'' (NewIPFailureWeightManager Map.empty ''w'')"
  have r: "weights_reachable m" unfolding m_def by (intro wr_failure wr_new) simp
  have f: "fw_persistFile m = ''w''"
    by (simp add: m_def RecordFailure_def NewIPFailureWeightManager_def Weights_loadFromDisk_def)
  obtain fs' where s: "Weights_SaveToDisk True True True m Map.empty = (False, fs')"
    using f by (simp add: Weights_SaveToDisk_def Let_def)
  show ?thesis using IPFailureWeight_roundtrip[OF r s] s f unfolding m_def by auto
qed

end
