(* ===== verification/Rtt_Cache.thy ===== *)
theory Rtt_Cache
  imports Go_Num Sharding
begin

text \<open>\<open>ping/sharded_cache.go\<close>: the cache of measured round-trip times, a list of shards picked by
  the same hash as the answer caches, cleaned a few shards at a time.\<close>

unbundle bit_operations_syntax

section \<open>State and operations\<close>

record rttCacheEntry =
  re_rtt :: int
  re_loss :: rat
  re_staleAt :: instant
  re_expiresAt :: instant

record shardedRttCache =
  rc_shards :: "(string \<times> rttCacheEntry) list list"
  rc_shardMask :: "32 word"
  rc_nextCleanupShard :: "32 word"
  rc_cleanupShardBatch :: nat

function rtt_shard_doubling :: "int \<Rightarrow> int" where
  "rtt_shard_doubling n = (if n < 1024 \<and> n < n * 2 then rtt_shard_doubling (n * 2) else n)"
  by pat_completeness auto
termination by (relation "measure (\<lambda>n. nat (1024 - n))") auto

declare rtt_shard_doubling.simps [simp del]

definition rtt_shard_count :: "int \<Rightarrow> int" where
  "rtt_shard_count n =
     (let n1 = (if n \<le> 0 then 16 else n)
      in if (n1 AND (n1 - 1)) \<noteq> 0 then rtt_shard_doubling 1 else n1)"

definition newShardedRttCache :: "int \<Rightarrow> shardedRttCache" where
  "newShardedRttCache n =
     (let c = rtt_shard_count n
      in \<lparr>rc_shards = replicate (nat c) [], rc_shardMask = word_of_int (c - 1), rc_nextCleanupShard = 0,
          rc_cleanupShardBatch = 4\<rparr>)"

definition rtt_getShardIndex :: "string \<Rightarrow> shardedRttCache \<Rightarrow> nat" where
  "rtt_getShardIndex ip sc =
     unat (foldl (\<lambda>h c. (h XOR of_char c) * 16777619) 2166136261 ip AND rc_shardMask sc)"

definition rtt_get :: "string \<Rightarrow> shardedRttCache \<Rightarrow> rttCacheEntry option" where
  "rtt_get ip sc = map_of (rc_shards sc ! rtt_getShardIndex ip sc) ip"

definition rtt_on_shard :: "(( string \<times> rttCacheEntry) list \<Rightarrow> (string \<times> rttCacheEntry) list) \<Rightarrow> nat \<Rightarrow>
    shardedRttCache \<Rightarrow> shardedRttCache" where
  "rtt_on_shard f i sc = sc\<lparr>rc_shards := (rc_shards sc)[i := f (rc_shards sc ! i)]\<rparr>"

definition rtt_set :: "string \<Rightarrow> rttCacheEntry \<Rightarrow> shardedRttCache \<Rightarrow> shardedRttCache" where
  "rtt_set ip entry sc = rtt_on_shard (AList.update ip entry) (rtt_getShardIndex ip sc) sc"

definition rtt_delete :: "string \<Rightarrow> shardedRttCache \<Rightarrow> shardedRttCache" where
  "rtt_delete ip sc = rtt_on_shard (drop_key ip) (rtt_getShardIndex ip sc) sc"

definition rtt_clean_one :: "instant \<Rightarrow> int \<times> shardedRttCache \<Rightarrow> int \<times> shardedRttCache" where
  "rtt_clean_one now x = (case x of (cleaned, sc) \<Rightarrow>
     (let shardIdx = unat (rc_nextCleanupShard sc);
          expired = (\<lambda>(ip :: string, e). re_expiresAt e < now);
          gone = length (filter expired (rc_shards sc ! shardIdx));
          sc1 = rtt_on_shard (filter (\<lambda>x. \<not> expired x)) shardIdx sc
      in (cleaned + int gone,
          sc1\<lparr>rc_nextCleanupShard := (rc_nextCleanupShard sc1 + 1) AND rc_shardMask sc1\<rparr>)))"

definition rtt_cleanupExpired :: "instant \<Rightarrow> shardedRttCache \<Rightarrow> int \<times> shardedRttCache" where
  "rtt_cleanupExpired now sc =
     (rtt_clean_one now ^^ (min (rc_cleanupShardBatch sc) (length (rc_shards sc)))) (0, sc)"

definition rtt_len :: "shardedRttCache \<Rightarrow> int" where
  "rtt_len sc = int (sum_list (map length (rc_shards sc)))"

definition rtt_clear :: "shardedRttCache \<Rightarrow> shardedRttCache" where
  "rtt_clear sc = sc\<lparr>rc_shards := map (\<lambda>_. []) (rc_shards sc)\<rparr>"

definition rtt_getAllEntries :: "shardedRttCache \<Rightarrow> string \<rightharpoonup> rttCacheEntry" where
  "rtt_getAllEntries sc = foldl (\<lambda>m s. m ++ map_of s) Map.empty (rc_shards sc)"

section \<open>Invariant\<close>

lemma rtt_shard_doubling_1: "rtt_shard_doubling 1 = 1024"
  by (simp add: rtt_shard_doubling.simps)

text \<open>A count that is not a power of two is not rounded up to the next one: it becomes 1024.\<close>

lemma rtt_shard_count_cases:
  "rtt_shard_count n = (if n \<le> 0 then 16 else if (n AND (n - 1)) \<noteq> 0 then 1024 else n)"
  by (simp add: rtt_shard_count_def rtt_shard_doubling_1 Let_def)

text \<open>The shape of the cache the server uses, with 32 shards.\<close>

definition rtt_inv :: "shardedRttCache \<Rightarrow> bool" where
  "rtt_inv sc \<longleftrightarrow> length (rc_shards sc) = 32 \<and> rc_shardMask sc = 31 \<and> rc_cleanupShardBatch sc = 4
     \<and> unat (rc_nextCleanupShard sc) < 32 \<and> (\<forall>s \<in> set (rc_shards sc). distinct (keys_of s))"

lemma rtt_inv_new: "rtt_inv (newShardedRttCache 32)"
  by (simp add: rtt_inv_def newShardedRttCache_def rtt_shard_count_cases Let_def)

lemma unat_mask31: "unat (x AND 31) = unat (x :: 32 word) mod 32"
proof -
  have "(31 :: 32 word) = mask 5" by (simp add: mask_eq_exp_minus_1)
  then have "x AND 31 = take_bit 5 x" by (simp add: take_bit_eq_mask)
  moreover have "unat (take_bit 5 x) = take_bit 5 (unat x)" by (rule unsigned_take_bit_eq)
  moreover have "take_bit 5 (unat x) = unat x mod 32" by (simp add: take_bit_eq_mod)
  ultimately show ?thesis by (simp only:)
qed

lemma rtt_index_bound: "rtt_inv sc \<Longrightarrow> rtt_getShardIndex ip sc < 32"
  by (simp add: rtt_inv_def rtt_getShardIndex_def unat_mask31)

lemma rtt_shards_on_shard [simp]:
  "rc_shards (rtt_on_shard f i sc) = (rc_shards sc)[i := f (rc_shards sc ! i)]"
  by (simp add: rtt_on_shard_def)

lemma rtt_index_on_shard [simp]: "rtt_getShardIndex ip (rtt_on_shard f i sc) = rtt_getShardIndex ip sc"
  "rtt_getShardIndex ip (sc\<lparr>rc_nextCleanupShard := w\<rparr>) = rtt_getShardIndex ip sc"
  by (simp_all add: rtt_getShardIndex_def rtt_on_shard_def)

lemma rtt_inv_on_shard:
  assumes "rtt_inv sc" "\<And>s. distinct (keys_of s) \<Longrightarrow> distinct (keys_of (f s))" "i < 32"
  shows "rtt_inv (rtt_on_shard f i sc)"
proof -
  have "distinct (keys_of (f (rc_shards sc ! i)))" using assms by (simp add: rtt_inv_def)
  then show ?thesis
    using assms(1) set_update_subset_insert[of "rc_shards sc" i "f (rc_shards sc ! i)"]
    by (auto simp: rtt_inv_def rtt_on_shard_def)
qed

lemma rtt_inv_steps:
  assumes "rtt_inv sc"
  shows "rtt_inv (rtt_set ip e sc)" "rtt_inv (rtt_delete ip sc)" "rtt_inv (rtt_clear sc)"
  using assms rtt_index_bound[OF assms, of ip]
  by (auto simp: rtt_set_def rtt_delete_def rtt_clear_def keys_of_def distinct_update
      intro!: rtt_inv_on_shard) (auto simp: rtt_inv_def drop_key_def intro: distinct_map_filter)

lemma rtt_get_on_shard:
  assumes "rtt_inv sc"
  shows "rtt_get ip (rtt_on_shard f i sc) =
    (if rtt_getShardIndex ip sc = i then map_of (f (rc_shards sc ! i)) ip else rtt_get ip sc)"
  using rtt_index_bound[OF assms, of ip] assms by (auto simp: rtt_get_def rtt_inv_def)

lemma rtt_get_set:
  assumes "rtt_inv sc"
  shows "rtt_get j (rtt_set ip e sc) = (if j = ip then Some e else rtt_get j sc)"
  unfolding rtt_set_def rtt_get_on_shard[OF assms] by (auto simp: update_conv' rtt_get_def)

lemma rtt_get_delete:
  assumes "rtt_inv sc"
  shows "rtt_get j (rtt_delete ip sc) = (if j = ip then None else rtt_get j sc)"
  unfolding rtt_delete_def rtt_get_on_shard[OF assms] by (auto simp: rtt_get_def)

section \<open>The sweep\<close>

text \<open>One iteration: the shard at the cursor loses its expired entries, the cursor moves on.\<close>

lemma rtt_clean_one_ok:
  assumes "rtt_inv sc" "rtt_clean_one now (n, sc) = (n', sc')"
  shows "rtt_inv sc' \<and> unat (rc_nextCleanupShard sc') = (unat (rc_nextCleanupShard sc) + 1) mod 32
    \<and> rtt_getShardIndex ip sc' = rtt_getShardIndex ip sc
    \<and> rtt_get ip sc' = (if rtt_getShardIndex ip sc = unat (rc_nextCleanupShard sc)
        then (case rtt_get ip sc of None \<Rightarrow> None | Some e \<Rightarrow> if re_expiresAt e < now then None else Some e)
        else rtt_get ip sc)"
proof -
  let ?P = "\<lambda>x. \<not> (case x of (ip :: string, e) \<Rightarrow> re_expiresAt e < now)"
  let ?i = "unat (rc_nextCleanupShard sc)"
  let ?sc1 = "rtt_on_shard (filter ?P) ?i sc"
  have i: "?i < 32" "rc_shardMask sc = 31" using assms(1) by (simp_all add: rtt_inv_def)
  have sc': "sc' = ?sc1\<lparr>rc_nextCleanupShard := (rc_nextCleanupShard sc + 1) AND 31\<rparr>"
    using assms(2) i(2) by (simp add: rtt_clean_one_def Let_def rtt_on_shard_def)
  have inv1: "rtt_inv ?sc1" using assms(1) i(1) by (intro rtt_inv_on_shard) (auto intro: distinct_keys_filter)
  have nxt: "unat ((rc_nextCleanupShard sc + 1) AND 31) = (?i + 1) mod 32"
    unfolding unat_mask31 unat_word_ariths using i(1) by simp
  have "distinct (keys_of (rc_shards sc ! ?i))" using assms(1) i(1) by (simp add: rtt_inv_def)
  then have "map_of (filter ?P (rc_shards sc ! ?i)) ip =
      (case map_of (rc_shards sc ! ?i) ip of None \<Rightarrow> None | Some e \<Rightarrow> if re_expiresAt e < now then None else Some e)"
    by (subst map_of_filter_distinct) (auto split: option.splits)
  then have get: "rtt_get ip ?sc1 = (if rtt_getShardIndex ip sc = ?i
        then (case rtt_get ip sc of None \<Rightarrow> None | Some e \<Rightarrow> if re_expiresAt e < now then None else Some e)
        else rtt_get ip sc)"
    unfolding rtt_get_on_shard[OF assms(1)] by (simp add: rtt_get_def)
  have "rtt_inv sc'" using inv1 nxt unfolding sc' by (simp add: rtt_inv_def)
  moreover have "rtt_get ip sc' = rtt_get ip ?sc1" by (simp add: sc' rtt_get_def)
  ultimately show ?thesis using get nxt by (simp add: sc')
qed

text \<open>\<open>k\<close> iterations from cursor \<open>s\<close>, at times between \<open>lo\<close> and \<open>hi\<close>.\<close>

definition sweep :: "instant list \<Rightarrow> shardedRttCache \<Rightarrow> shardedRttCache" where
  "sweep ts sc = fold (\<lambda>t sc. snd (rtt_clean_one t (0, sc))) ts sc"

lemma sweep_simps: "sweep [] sc = sc" "sweep (t # ts) sc = sweep ts (snd (rtt_clean_one t (0, sc)))"
  by (simp_all add: sweep_def)

lemma clean_one_facts:
  fixes t :: instant
  assumes "rtt_inv sc"
  defines "sc' \<equiv> snd (rtt_clean_one t (0, sc))"
  shows "rtt_inv sc'" "unat (rc_nextCleanupShard sc') = (unat (rc_nextCleanupShard sc) + 1) mod 32"
    "rtt_getShardIndex ip sc' = rtt_getShardIndex ip sc"
    "rtt_get ip sc' = Some e \<Longrightarrow> rtt_get ip sc = Some e \<and>
       (rtt_getShardIndex ip sc = unat (rc_nextCleanupShard sc) \<longrightarrow> t \<le> re_expiresAt e)"
    "rtt_get ip sc = Some e \<Longrightarrow> t \<le> re_expiresAt e \<Longrightarrow> rtt_get ip sc' = Some e"
proof -
  have one: "rtt_clean_one t (0, sc) = (fst (rtt_clean_one t (0, sc)), sc')" by (simp add: sc'_def)
  note o = rtt_clean_one_ok[OF assms(1) one, of ip]
  show "rtt_inv sc'" "unat (rc_nextCleanupShard sc') = (unat (rc_nextCleanupShard sc) + 1) mod 32"
    "rtt_getShardIndex ip sc' = rtt_getShardIndex ip sc" using o by blast+
  have g: "rtt_get ip sc' = (if rtt_getShardIndex ip sc = unat (rc_nextCleanupShard sc)
        then (case rtt_get ip sc of None \<Rightarrow> None | Some e \<Rightarrow> if re_expiresAt e < t then None else Some e)
        else rtt_get ip sc)" using o by blast
  show "rtt_get ip sc' = Some e \<Longrightarrow> rtt_get ip sc = Some e \<and>
       (rtt_getShardIndex ip sc = unat (rc_nextCleanupShard sc) \<longrightarrow> t \<le> re_expiresAt e)"
    unfolding g by (auto split: if_splits option.splits)
  show "rtt_get ip sc = Some e \<Longrightarrow> t \<le> re_expiresAt e \<Longrightarrow> rtt_get ip sc' = Some e"
    unfolding g by simp
qed

lemma sweep_inv: "rtt_inv sc \<Longrightarrow> rtt_inv (sweep ts sc)"
  by (induction ts arbitrary: sc) (simp_all add: sweep_simps clean_one_facts(1))

lemma sweep_keeps:
  "rtt_inv sc \<Longrightarrow> \<forall>t \<in> set ts. t \<le> hi \<Longrightarrow> rtt_get ip sc = Some e \<Longrightarrow> hi \<le> re_expiresAt e \<Longrightarrow>
   rtt_get ip (sweep ts sc) = Some e"
proof (induction ts arbitrary: sc)
  case (Cons t ts)
  have "t \<le> re_expiresAt e" using Cons.prems(2,4) by simp
  then show ?case
    using Cons.IH[OF clean_one_facts(1)[OF Cons.prems(1)]] Cons.prems clean_one_facts(5)[OF Cons.prems(1,3)]
    by (simp add: sweep_simps)
qed (simp add: sweep_simps)

lemma sweep_drops:
  "rtt_inv sc \<Longrightarrow> \<forall>t \<in> set ts. lo \<le> t \<Longrightarrow> rtt_get ip (sweep ts sc) = Some e \<Longrightarrow>
   rtt_get ip sc = Some e \<and>
   (k < length ts \<longrightarrow> rtt_getShardIndex ip sc = (unat (rc_nextCleanupShard sc) + k) mod 32 \<longrightarrow> lo \<le> re_expiresAt e)"
proof (induction ts arbitrary: sc k)
  case (Cons t ts)
  let ?sc' = "snd (rtt_clean_one t (0, sc))"
  note f = clean_one_facts[OF Cons.prems(1), where t = t]
  have IH: "rtt_get ip ?sc' = Some e \<and> (j < length ts \<longrightarrow>
      rtt_getShardIndex ip ?sc' = (unat (rc_nextCleanupShard ?sc') + j) mod 32 \<longrightarrow> lo \<le> re_expiresAt e)" for j
    by (rule Cons.IH[OF f(1)]) (use Cons.prems in \<open>simp_all add: sweep_simps\<close>)
  have g: "rtt_get ip sc = Some e"
    "rtt_getShardIndex ip sc = unat (rc_nextCleanupShard sc) \<longrightarrow> t \<le> re_expiresAt e"
    using f(4) IH by blast+
  have "lo \<le> re_expiresAt e" if k: "k < length (t # ts)"
      "rtt_getShardIndex ip sc = (unat (rc_nextCleanupShard sc) + k) mod 32"
  proof (cases k)
    case 0
    have "unat (rc_nextCleanupShard sc) < 32" using Cons.prems(1) by (simp add: rtt_inv_def)
    then have "t \<le> re_expiresAt e" using g(2) k(2) 0 by simp
    then show ?thesis using Cons.prems(2) by auto
  next
    case (Suc j)
    have "rtt_getShardIndex ip ?sc' = (unat (rc_nextCleanupShard ?sc') + j) mod 32"
      unfolding f(2,3) k(2) Suc by (simp add: mod_add_left_eq)
    then show ?thesis using IH[of j] k(1) Suc by simp
  qed
  then show ?case using g(1) by blast
qed (simp add: sweep_simps)

lemma rtt_clean_one_snd: "snd (rtt_clean_one t (n, sc)) = snd (rtt_clean_one t (0, sc))"
  by (simp add: rtt_clean_one_def Let_def)

lemma rtt_cleanup_sweep:
  assumes "rtt_inv sc"
  shows "snd (rtt_cleanupExpired t sc) = sweep [t, t, t, t] sc"
proof -
  have "snd ((rtt_clean_one t ^^ k) x) = sweep (replicate k t) (snd x)" for k x
  proof (induction k arbitrary: x)
    case (Suc k)
    have "snd (rtt_clean_one t x) = snd (rtt_clean_one t (0, snd x))"
      using rtt_clean_one_snd[of t "fst x" "snd x"] by simp
    then show ?case using Suc[of "rtt_clean_one t x"] by (simp add: funpow_swap1 sweep_simps)
  qed (simp add: sweep_simps)
  moreover have "replicate 4 t = [t, t, t, t]" by (simp add: numeral_eq_Suc)
  ultimately show ?thesis using assms by (simp add: rtt_cleanupExpired_def rtt_inv_def)
qed

definition cleanups :: "instant list \<Rightarrow> shardedRttCache \<Rightarrow> shardedRttCache" where
  "cleanups ts sc = fold (\<lambda>t sc. snd (rtt_cleanupExpired t sc)) ts sc"

lemma cleanups_sweep:
  "rtt_inv sc \<Longrightarrow> cleanups ts sc = sweep (concat (map (\<lambda>t. [t, t, t, t]) ts)) sc"
proof (induction ts arbitrary: sc)
  case (Cons t ts)
  have "rtt_inv (sweep [t, t, t, t] sc)" by (rule sweep_inv[OF Cons.prems])
  then show ?case
    using Cons.IH Cons.prems by (simp add: cleanups_def rtt_cleanup_sweep sweep_def)
qed (simp add: cleanups_def sweep_def)

section \<open>Properties\<close>

text \<open>Incremental cleaning is complete and safe: eight consecutive runs of the cleaner, wherever
  its cursor stands, visit all 32 shards, so what is left had not expired at the first of them;
  nothing is invented, and every entry that has not expired by the last run survives. A lookup
  after a store returns what was stored and leaves other addresses alone.\<close>

theorem rtt_cleanup_sweeps_all:
  assumes "rtt_inv sc" "length ts = 8" "\<forall>t \<in> set ts. lo \<le> t \<and> t \<le> hi"
  shows "(\<forall>ip e. rtt_get ip (cleanups ts sc) = Some e \<longrightarrow> rtt_get ip sc = Some e \<and> lo \<le> re_expiresAt e)
    \<and> (\<forall>ip e. rtt_get ip sc = Some e \<and> hi \<le> re_expiresAt e \<longrightarrow> rtt_get ip (cleanups ts sc) = Some e)
    \<and> rtt_get j (rtt_set ip entry (cleanups ts sc)) = (if j = ip then Some entry else rtt_get j (cleanups ts sc))"
proof -
  let ?us = "concat (map (\<lambda>t. [t, t, t, t]) ts)"
  have len: "length ?us = 32" using assms(2) by (simp add: length_concat comp_def sum_list_triv)
  have mem: "\<forall>t \<in> set ?us. lo \<le> t" "\<forall>t \<in> set ?us. t \<le> hi" using assms(3) by auto
  have hit: "\<exists>k < 32. i = (s + k) mod 32" if "i < 32" "s < 32" for i s :: nat
  proof (intro exI conjI)
    show "(i + 32 - s) mod 32 < 32" by simp
    show "i = (s + (i + 32 - s) mod 32) mod 32" using that by (simp add: mod_add_right_eq)
  qed
  note sw = cleanups_sweep[OF assms(1), of ts]
  have "rtt_get ip sc = Some e \<and> lo \<le> re_expiresAt e" if "rtt_get ip (cleanups ts sc) = Some e" for ip e
  proof -
    have "unat (rc_nextCleanupShard sc) < 32" using assms(1) by (simp add: rtt_inv_def)
    then obtain k where "k < 32" "rtt_getShardIndex ip sc = (unat (rc_nextCleanupShard sc) + k) mod 32"
      using hit rtt_index_bound[OF assms(1)] by blast
    then show ?thesis using sweep_drops[OF assms(1) mem(1), of ip e k] that unfolding sw len by blast
  qed
  moreover have "rtt_get ip (cleanups ts sc) = Some e" if "rtt_get ip sc = Some e" "hi \<le> re_expiresAt e" for ip e
    unfolding sw by (rule sweep_keeps[OF assms(1) mem(2) that])
  moreover have "rtt_inv (cleanups ts sc)" unfolding sw by (rule sweep_inv[OF assms(1)])
  ultimately show ?thesis using rtt_get_set by blast
qed

theorem rtt_cleanup_sweeps_all_witness:
  "rtt_get ''192.0.2.1'' (cleanups [5, 5, 5, 5, 6, 6, 6, 6] (rtt_set ''192.0.2.1''
      \<lparr>re_rtt = 20, re_loss = 0, re_staleAt = 7, re_expiresAt = 9\<rparr> (newShardedRttCache 32)))
   = Some \<lparr>re_rtt = 20, re_loss = 0, re_staleAt = 7, re_expiresAt = 9\<rparr>"
proof -
  let ?e = "\<lparr>re_rtt = 20, re_loss = 0, re_staleAt = 7, re_expiresAt = 9\<rparr>"
  let ?sc = "rtt_set ''192.0.2.1'' ?e (newShardedRttCache 32)"
  have i: "rtt_inv ?sc" by (rule rtt_inv_steps(1)[OF rtt_inv_new])
  have "rtt_get ''192.0.2.1'' ?sc = Some ?e" by (simp add: rtt_get_set rtt_inv_new)
  moreover have mem: "\<forall>t \<in> set [5, 5, 5, 5, 6, 6, 6, 6 :: int]. 5 \<le> t \<and> t \<le> 6" by simp
  have len: "length [5, 5, 5, 5, 6, 6, 6, 6 :: int] = 8" by simp
  have "\<forall>ip e. rtt_get ip ?sc = Some e \<and> 6 \<le> re_expiresAt e \<longrightarrow>
      rtt_get ip (cleanups [5, 5, 5, 5, 6, 6, 6, 6] ?sc) = Some e"
    by (rule rtt_cleanup_sweeps_all[OF i len mem, THEN conjunct2, THEN conjunct1])
  ultimately show ?thesis by simp
qed

end
