(* ===== verification/Pinger.thy ===== *)
theory Pinger
  imports Ip_Pool Failure_Weight Rtt_Cache "HOL-Library.Char_ord" "HOL-Library.List_Lexorder"
    "HOL-Library.Product_Lexorder" Go_Strings
begin

text \<open>The rest of \<open>ping/\<close> but its monitor: \<open>ping_types.go\<close>, \<open>ping_health.go\<close>, \<open>ping_cache.go\<close>,
  \<open>ping_test_methods.go\<close> (\<open>pingIP\<close>), the decision part of \<open>ping_probe.go\<close>, \<open>ping_concurrent.go\<close>
  (the sort and the merging of results) and \<open>ping.go\<close>. The outcomes of ICMP and TCP probes are
  parameters, as is the verdict of the network health checker (\<open>None\<close> when there is none). The
  results of concurrent probes arrive in any order: \<open>sched\<close> reorders the addresses probed.
  Requests for an address that is being probed are not merged. Readings of the clock are
  arguments; within one sort the clock is read once.\<close>

section \<open>State\<close>

record Result =
  rs_IP :: string
  rs_RTT :: int
  rs_Loss :: rat
  rs_ProbeMethod :: string
  rs_FastFail :: bool

record Pinger =
  pg_count :: int
  pg_timeoutMs :: int
  pg_concurrency :: int
  pg_maxTestIPs :: int
  pg_rttCacheTtlSeconds :: int
  pg_rttCache :: shardedRttCache
  pg_weights :: "IPFailureWeightManager option"
  pg_ipPool :: "IPPool option"
  pg_health :: "bool option"
  pg_staleRevalidating :: "string set"
  pg_staleGracePeriod :: duration
  pg_enableTCPFallback :: bool
  pg_tcpFallbackPorts :: "int list"
  pg_tcpThresholdMs :: int
  pg_rttThresholdExcellent :: int
  pg_rttThresholdGood :: int
  pg_deadThresholdMs :: int
  pg_alphaOnline :: rat
  pg_alphaOffline :: rat

definition NewPinger :: "weight_files \<Rightarrow> int \<Rightarrow> int \<Rightarrow> int \<Rightarrow> int \<Rightarrow> int \<Rightarrow> string \<Rightarrow> Pinger" where
  "NewPinger fs probeCount timeoutMs concurrency maxTestIPs rttCacheTtlSeconds failureWeightPersistFile =
     \<lparr>pg_count = (if probeCount \<le> 0 then 3 else probeCount),
      pg_timeoutMs = (if timeoutMs \<le> 0 then 800 else timeoutMs),
      pg_concurrency = (if concurrency \<le> 0 then 8 else concurrency),
      pg_maxTestIPs = maxTestIPs, pg_rttCacheTtlSeconds = rttCacheTtlSeconds,
      pg_rttCache = newShardedRttCache 32,
      pg_weights = Some (NewIPFailureWeightManager fs failureWeightPersistFile),
      pg_ipPool = Some NewIPPool, pg_health = None, pg_staleRevalidating = {},
      pg_staleGracePeriod = 30 * second, pg_enableTCPFallback = True, pg_tcpFallbackPorts = [443, 80],
      pg_tcpThresholdMs = 1000, pg_rttThresholdExcellent = 50, pg_rttThresholdGood = 100,
      pg_deadThresholdMs = LogicDeadRTT, pg_alphaOnline = 3 / 10, pg_alphaOffline = 1 / 10\<rparr>"

section \<open>Health and weights\<close>

definition offline :: "Pinger \<Rightarrow> bool" where
  "offline p \<longleftrightarrow> pg_health p = Some False"

definition on_weights :: "(IPFailureWeightManager \<Rightarrow> IPFailureWeightManager) \<Rightarrow> Pinger \<Rightarrow> Pinger" where
  "on_weights f p = (if offline p then p else p\<lparr>pg_weights := map_option f (pg_weights p)\<rparr>)"

definition RecordIPFailure :: "instant \<Rightarrow> string \<Rightarrow> Pinger \<Rightarrow> Pinger" where
  "RecordIPFailure now ip p = on_weights (RecordFailure now ip) p"

definition RecordIPSuccess :: "string \<Rightarrow> Pinger \<Rightarrow> Pinger" where
  "RecordIPSuccess ip p = on_weights (RecordSuccess ip) p"

definition RecordIPFastFail :: "instant \<Rightarrow> string \<Rightarrow> Pinger \<Rightarrow> Pinger" where
  "RecordIPFastFail now ip p = on_weights (RecordFastFail now ip) p"

definition GetIPFailureRecord :: "string \<Rightarrow> Pinger \<Rightarrow> IPFailureRecord" where
  "GetIPFailureRecord ip p = (case pg_weights p of Some m \<Rightarrow> GetRecord ip m | None \<Rightarrow> new_record ip)"

definition SetHealthChecker :: "bool \<Rightarrow> Pinger \<Rightarrow> Pinger" where
  "SetHealthChecker verdict p = p\<lparr>pg_health := Some verdict\<rparr>"

definition ClearIPFailureWeights :: "Pinger \<Rightarrow> Pinger" where
  "ClearIPFailureWeights p = p\<lparr>pg_weights := map_option Weights_Clear (pg_weights p)\<rparr>"

definition IsNetworkOnline :: "Pinger \<Rightarrow> bool" where
  "IsNetworkOnline p = (case pg_health p of None \<Rightarrow> True | Some h \<Rightarrow> h)"

section \<open>The cache of measurements\<close>

definition Pinger_GetIPRTT :: "instant \<Rightarrow> string \<Rightarrow> Pinger \<Rightarrow> int \<times> rat \<times> bool \<times> bool" where
  "Pinger_GetIPRTT now ip p =
     (if pg_rttCacheTtlSeconds p \<le> 0 then (-1, 0, False, False)
      else (case rtt_get ip (pg_rttCache p) of
              None \<Rightarrow> (-1, 0, False, False)
            | Some e \<Rightarrow> (re_rtt e, re_loss e, True, re_staleAt e < now \<and> now < re_expiresAt e)))"

definition GetCacheTTLRemaining :: "instant \<Rightarrow> string \<Rightarrow> Pinger \<Rightarrow> int \<times> bool" where
  "GetCacheTTLRemaining now ip p =
     (if pg_rttCacheTtlSeconds p \<le> 0 then (-1, False)
      else (case rtt_get ip (pg_rttCache p) of
              None \<Rightarrow> (-1, False)
            | Some e \<Rightarrow>
               if re_expiresAt e < now then (-1, False)
               else (let r = re_staleAt e - now; remaining = (if r < 0 then 0 else r)
                     in (go_div remaining millisecond, now < re_staleAt e))))"

definition GetMultipleIPRTTs :: "instant \<Rightarrow> string list \<Rightarrow> Pinger \<Rightarrow> string \<rightharpoonup> Result" where
  "GetMultipleIPRTTs now ips p =
     (if pg_rttCacheTtlSeconds p \<le> 0 then Map.empty
      else fold (\<lambda>ip result. case rtt_get ip (pg_rttCache p) of
          None \<Rightarrow> result
        | Some e \<Rightarrow> if now < re_expiresAt e
            then result(ip \<mapsto> \<lparr>rs_IP = ip, rs_RTT = re_rtt e, rs_Loss = re_loss e,
               rs_ProbeMethod = (if re_staleAt e < now then ''stale'' else ''cached''), rs_FastFail = False\<rparr>)
            else result) ips Map.empty)"

definition quality_ratio :: "Pinger \<Rightarrow> Result \<Rightarrow> rat" where
  "quality_ratio p r =
     (if rs_Loss r = 0 then
        (let excellentThreshold = (if pg_rttThresholdExcellent p \<le> 0 then 50 else pg_rttThresholdExcellent p);
             goodThreshold = (if pg_rttThresholdGood p \<le> 0 then 100 else pg_rttThresholdGood p)
         in if rs_RTT r < excellentThreshold then 10 else if rs_RTT r < goodThreshold then 5 else 2)
      else if rs_Loss r < 20 then 1
      else if rs_Loss r < 50 then 1 / 2
      else if rs_Loss r < 100 then 3 / 10
      else 2 / 10)"

definition calculateDynamicTTL :: "Pinger \<Rightarrow> Result \<Rightarrow> duration" where
  "calculateDynamicTTL p r =
     (let b = pg_rttCacheTtlSeconds p * second;
          baseTTL = (if b = 0 then 60 * second else b);
          ttl = go_trunc (of_int baseTTL * quality_ratio p r)
      in if ttl < 15 * second then 15 * second else ttl)"

text \<open>The code that stores a result, the same in its three places.\<close>

definition store_result :: "instant \<Rightarrow> Result \<Rightarrow> Pinger \<Rightarrow> Pinger" where
  "store_result now r p =
     (let ttl = calculateDynamicTTL p r;
          staleAt = now + ttl;
          g = (if pg_staleGracePeriod p = 0 then 30 * second else pg_staleGracePeriod p);
          gracePeriod = (if go_div ttl 2 < g then go_div ttl 2 else g)
      in p\<lparr>pg_rttCache := rtt_set (rs_IP r)
            \<lparr>re_rtt = rs_RTT r, re_loss = rs_Loss r, re_staleAt = staleAt, re_expiresAt = staleAt + gracePeriod\<rparr>
            (pg_rttCache p)\<rparr>)"

definition UpdateIPCache :: "instant \<Rightarrow> string \<Rightarrow> int \<Rightarrow> rat \<Rightarrow> string \<Rightarrow> Pinger \<Rightarrow> Pinger" where
  "UpdateIPCache now ip rtt loss probeMethod p =
     (if pg_rttCacheTtlSeconds p \<le> 0 then p
      else if offline p then
        p\<lparr>pg_ipPool := map_option (UpdateIPRTT now ip rtt loss
            (if pg_alphaOffline p \<le> 0 then 1 / 10 else pg_alphaOffline p)) (pg_ipPool p)\<rparr>
      else
        (let p1 = p\<lparr>pg_ipPool := map_option (UpdateIPRTT now ip rtt loss
               (if pg_alphaOnline p \<le> 0 then 3 / 10 else pg_alphaOnline p)) (pg_ipPool p)\<rparr>;
             deadThreshold = (if pg_deadThresholdMs p \<le> 0 then LogicDeadRTT else pg_deadThresholdMs p);
             p2 = (if rtt < deadThreshold then RecordIPSuccess ip p1 else RecordIPFailure now ip p1)
         in store_result now \<lparr>rs_IP = ip, rs_RTT = rtt, rs_Loss = loss, rs_ProbeMethod = probeMethod,
              rs_FastFail = False\<rparr> p2))"

section \<open>Probing\<close>

record ICMPError =
  ie_IsPermissionError :: bool
  ie_IsProtocolError :: bool

type_synonym probe = "int \<times> string \<times> ICMPError option"

text \<open>One probe: the outcome of ICMP, and of TCP (round-trip time and port), which is tried second.\<close>

definition smartPingWithMethod :: "Pinger \<Rightarrow> int \<times> ICMPError option \<Rightarrow> int \<times> nat \<Rightarrow> probe" where
  "smartPingWithMethod p icmp tcp = (case (icmp, tcp) of ((rtt, icmpErr), (tcpRTT, tcpPort)) \<Rightarrow>
     (let needTCPFallback = (rtt < 0 \<or> pg_tcpThresholdMs p \<le> rtt)
      in if needTCPFallback \<and> pg_enableTCPFallback p \<and> pg_tcpFallbackPorts p \<noteq> [] \<and> 0 \<le> tcpRTT
         then (let n = go_trunc (of_int tcpRTT / (5 / 2))
               in (if n < 1 then 1 else n, ''tcp:'' @ FormatUint tcpPort, None))
         else (rtt, ''icmp'', icmpErr)))"

text \<open>The probes of one address; \<open>None\<close> when the first one failed and counts as a fast failure.\<close>

fun ping_loop :: "nat \<Rightarrow> probe list \<Rightarrow> int \<times> int \<times> string \<Rightarrow> (int \<times> int \<times> string) option" where
  "ping_loop i [] acc = Some acc"
| "ping_loop i ((rtt, method, err) # os) (totalRTT, successCount, probeMethod) =
    (if 0 \<le> rtt then ping_loop (i + 1) os (totalRTT + rtt, successCount + 1,
        if probeMethod = '''' then method else probeMethod)
     else if i = 0 \<and> \<not> (case err of None \<Rightarrow> False | Some e \<Rightarrow> ie_IsPermissionError e \<or> ie_IsProtocolError e)
     then None
     else ping_loop (i + 1) os (totalRTT, successCount, probeMethod))"

definition pingIP :: "instant \<Rightarrow> (string \<Rightarrow> nat \<Rightarrow> probe) \<Rightarrow> string \<Rightarrow> Pinger \<Rightarrow> Result \<times> Pinger" where
  "pingIP now probe ip p =
     (case ping_loop 0 (map (probe ip) [0..<nat (pg_count p)]) (0, 0, '''') of
        None \<Rightarrow> (\<lparr>rs_IP = ip, rs_RTT = LogicDeadRTT, rs_Loss = 100, rs_ProbeMethod = ''icmp'',
                  rs_FastFail = True\<rparr>, RecordIPFastFail now ip p)
      | Some (totalRTT, successCount, probeMethod) \<Rightarrow>
          (if successCount = 0
           then (\<lparr>rs_IP = ip, rs_RTT = LogicDeadRTT, rs_Loss = 100, rs_ProbeMethod = ''icmp'',
                  rs_FastFail = False\<rparr>, p)
           else (\<lparr>rs_IP = ip, rs_RTT = go_div totalRTT successCount,
                  rs_Loss = of_int (pg_count p - successCount) / of_int (pg_count p) * 100,
                  rs_ProbeMethod = probeMethod, rs_FastFail = False\<rparr>, p)))"

definition recordProbeResult :: "instant \<Rightarrow> string \<Rightarrow> rat \<Rightarrow> bool \<Rightarrow> Pinger \<Rightarrow> Pinger" where
  "recordProbeResult now ip loss isFastFail p =
     (if isFastFail then p
      else if loss = 100 then RecordIPFailure now ip p else RecordIPSuccess ip p)"

definition concurrentPing :: "instant \<Rightarrow> (string \<Rightarrow> nat \<Rightarrow> probe) \<Rightarrow> string list \<Rightarrow> Pinger \<Rightarrow>
    Result list \<times> Pinger" where
  "concurrentPing now probe order p =
     foldl (\<lambda>(rs, p) ip. case pingIP now probe ip p of (r, p') \<Rightarrow> (rs @ [r], p')) ([], p) order"

text \<open>A stale entry starts one background probe per address; the second definition is that probe's
  end.\<close>

definition triggerStaleRevalidate :: "string \<Rightarrow> Pinger \<Rightarrow> bool \<times> Pinger" where
  "triggerStaleRevalidate ip p =
     (if offline p then (False, p)
      else if ip \<in> pg_staleRevalidating p then (False, p)
      else (True, p\<lparr>pg_staleRevalidating := insert ip (pg_staleRevalidating p)\<rparr>))"

definition staleRevalidate :: "instant \<Rightarrow> (string \<Rightarrow> nat \<Rightarrow> probe) \<Rightarrow> string \<Rightarrow> Pinger \<Rightarrow> Pinger" where
  "staleRevalidate now probe ip p =
     (let (result, p1) = pingIP now probe ip p;
          p2 = recordProbeResult now ip (rs_Loss result) (rs_FastFail result) p1;
          p3 = (if 0 < pg_rttCacheTtlSeconds p2 then store_result now (result\<lparr>rs_IP := ip\<rparr>) p2 else p2)
      in p3\<lparr>pg_staleRevalidating := pg_staleRevalidating p3 - {ip}\<rparr>)"

section \<open>Sorting\<close>

definition go_round :: "rat \<Rightarrow> int" where
  "go_round r = (if 0 \<le> r then floor (r + 1 / 2) else ceiling (r - 1 / 2))"

definition result_score :: "instant \<Rightarrow> Pinger \<Rightarrow> Result \<Rightarrow> int" where
  "result_score now p r =
     (let failCount = go_round (rs_Loss r * of_int (pg_count p) / 100);
          score = rs_RTT r + failCount * 2000
      in case pg_weights p of Some m \<Rightarrow> score + GetWeight now (rs_IP r) m | None \<Rightarrow> score)"

definition result_less :: "instant \<Rightarrow> Pinger \<Rightarrow> Result \<Rightarrow> Result \<Rightarrow> bool" where
  "result_less now p a b =
     (let scoreI = result_score now p a; scoreJ = result_score now p b
      in if scoreI \<noteq> scoreJ then scoreI < scoreJ else rs_IP a < rs_IP b)"

definition sortResults :: "instant \<Rightarrow> Pinger \<Rightarrow> Result list \<Rightarrow> Result list" where
  "sortResults now p results = go_sort_slice (result_less now p) results"

section \<open>PingAndSort\<close>

definition rtt_to_use :: "string \<Rightarrow> rttCacheEntry \<Rightarrow> Pinger \<Rightarrow> int" where
  "rtt_to_use ip e p = (case pg_ipPool p of
      None \<Rightarrow> re_rtt e
    | Some pool \<Rightarrow> (case GetIPRTT ip pool of (_, poolRTTEWMA, updated) \<Rightarrow>
        if updated then poolRTTEWMA else re_rtt e))"

definition cached_result :: "string \<Rightarrow> rttCacheEntry \<Rightarrow> string \<Rightarrow> Pinger \<Rightarrow> Result" where
  "cached_result ip e method p =
     \<lparr>rs_IP = ip, rs_RTT = rtt_to_use ip e p, rs_Loss = re_loss e, rs_ProbeMethod = method, rs_FastFail = False\<rparr>"

text \<open>One address against the cache: the results and addresses to probe so far, and the addresses
  whose background probe was started.\<close>

type_synonym triage = "Result list \<times> string list \<times> string list \<times> Pinger"

definition triage_ip :: "instant \<Rightarrow> triage \<Rightarrow> string \<Rightarrow> triage" where
  "triage_ip now x ip = (case x of (cached, toPing, spawned, p) \<Rightarrow>
     (case rtt_get ip (pg_rttCache p) of
        None \<Rightarrow> (cached, toPing @ [ip], spawned, p)
      | Some e \<Rightarrow>
          if now < re_staleAt e
          then (cached @ [cached_result ip e ''cached'' p], toPing, spawned, RecordIPSuccess ip p)
          else if now < re_expiresAt e
          then (let (started, p') = triggerStaleRevalidate ip (RecordIPSuccess ip p)
                in (cached @ [cached_result ip e ''stale'' p], toPing,
                    if started then spawned @ [ip] else spawned, p'))
          else (cached, toPing @ [ip], spawned, p)))"

definition PingAndSort :: "(nat \<Rightarrow> instant) \<Rightarrow> (string \<Rightarrow> nat \<Rightarrow> probe) \<Rightarrow> (string list \<Rightarrow> string list) \<Rightarrow>
    string list \<Rightarrow> Pinger \<Rightarrow> Result list \<times> string list \<times> Pinger" where
  "PingAndSort clock probe sched ips p =
     (if ips = [] then ([], [], p)
      else if offline p then
        (if 0 < pg_rttCacheTtlSeconds p then
           (let cached = concat (map (\<lambda>ip. case rtt_get ip (pg_rttCache p) of
                  None \<Rightarrow> [] | Some e \<Rightarrow> [cached_result ip e ''cached-offline'' p]) ips)
            in (sortResults (clock 3) p cached, [], p))
         else ([], [], p))
      else
        (let testIPs = (if 0 < pg_maxTestIPs p \<and> pg_maxTestIPs p < int (length ips)
                        then take (nat (pg_maxTestIPs p)) ips else ips);
             (cached, toPing, spawned, p1) =
                (if 0 < pg_rttCacheTtlSeconds p then foldl (triage_ip (clock 0)) ([], [], [], p) testIPs
                 else ([], testIPs, [], p));
             (results, p2) = concurrentPing (clock 1) probe (sched toPing) p1;
             p3 = foldl (\<lambda>p r. recordProbeResult (clock 1) (rs_IP r) (rs_Loss r) (rs_FastFail r) p) p2 results;
             p4 = (if 0 < pg_rttCacheTtlSeconds p3 then foldl (\<lambda>p r. store_result (clock 2) r p) p3 results else p3)
         in (sortResults (clock 3) p4 (cached @ results), spawned, p4)))"

section \<open>Lemmas\<close>

text \<open>The comparison of results is that of the pairs of score and address.\<close>

definition result_key :: "instant \<Rightarrow> Pinger \<Rightarrow> Result \<Rightarrow> int \<times> string" where
  "result_key now p r = (result_score now p r, rs_IP r)"

lemma result_less_key: "result_less now p = (\<lambda>a b. result_key now p a < result_key now p b)"
  by (auto simp: fun_eq_iff result_less_def result_key_def Let_def less_prod_def)

interpretation result: weak_order "result_less now p" for now p
  unfolding result_less_key by (rule weak_order_by_key)

lemma sortResults_sorted: "sorted (map (result_key now p) (sortResults now p rs))"
  using result.go_sort_slice_sorted[of now p rs]
  by (simp add: sortResults_def sorted_map result_less_key linorder_not_less)

lemma mset_sortResults [simp]: "mset (sortResults now p rs) = mset rs"
  by (simp add: sortResults_def)

lemma pingIP_ip [simp]: "rs_IP (fst (pingIP now probe ip p)) = ip"
  by (simp add: pingIP_def split: option.splits prod.splits)

lemma on_weights_frame [simp]: "pg_rttCache (on_weights f p) = pg_rttCache p"
  "pg_ipPool (on_weights f p) = pg_ipPool p" "pg_health (on_weights f p) = pg_health p"
  "pg_count (on_weights f p) = pg_count p" "pg_rttCacheTtlSeconds (on_weights f p) = pg_rttCacheTtlSeconds p"
  by (simp_all add: on_weights_def)

lemmas record_defs = RecordIPSuccess_def RecordIPFailure_def RecordIPFastFail_def

lemma concurrentPing_ips:
  "map rs_IP (fst (concurrentPing now probe order p)) = order"
proof -
  have "map rs_IP (fst (foldl (\<lambda>(rs, p) ip. case pingIP now probe ip p of (r, p') \<Rightarrow> (rs @ [r], p')) (rs, p) order))
      = map rs_IP rs @ order" for rs p
  proof (induction order arbitrary: rs p)
    case (Cons ip ips)
    obtain r p' where r: "pingIP now probe ip p = (r, p')" by force
    then have "rs_IP r = ip" using pingIP_ip[of now probe ip p] by simp
    then show ?case using Cons r by simp
  qed simp
  then show ?thesis by (simp add: concurrentPing_def)
qed

lemma triage_fold_ips:
  "foldl (triage_ip now) (cached, toPing, spawned, p) ips = (cached', toPing', spawned', p') \<Longrightarrow>
   mset (map rs_IP cached') + mset toPing' = mset (map rs_IP cached) + mset toPing + mset ips
   \<and> pg_rttCache p' = pg_rttCache p"
proof (induction ips arbitrary: cached toPing spawned p)
  case (Cons ip ips)
  obtain c t s q where one: "triage_ip now (cached, toPing, spawned, p) ip = (c, t, s, q)"
    by (metis prod_cases4)
  have "mset (map rs_IP c) + mset t = mset (map rs_IP cached) + mset toPing + {#ip#}
      \<and> pg_rttCache q = pg_rttCache p"
    using one by (auto simp: triage_ip_def cached_result_def triggerStaleRevalidate_def record_defs
        split: option.splits if_splits)
  moreover have "foldl (triage_ip now) (c, t, s, q) ips = (cached', toPing', spawned', p')"
    using Cons.prems one by simp
  ultimately show ?case using Cons.IH[of c t s q] by simp
qed simp

definition test_ips :: "Pinger \<Rightarrow> string list \<Rightarrow> string list" where
  "test_ips p ips = (if 0 < pg_maxTestIPs p \<and> pg_maxTestIPs p < int (length ips)
     then take (nat (pg_maxTestIPs p)) ips else ips)"

lemma PingAndSort_online:
  assumes "\<not> offline p" "ips \<noteq> []"
  obtains cached toPing spawned p1 results p2 p4 where
    "(if 0 < pg_rttCacheTtlSeconds p then foldl (triage_ip (clock 0)) ([], [], [], p) (test_ips p ips)
      else ([], test_ips p ips, [], p)) = (cached, toPing, spawned, p1)"
    "concurrentPing (clock 1) probe (sched toPing) p1 = (results, p2)"
    "PingAndSort clock probe sched ips p = (sortResults (clock 3) p4 (cached @ results), spawned, p4)"
proof -
  obtain cached toPing spawned p1 where t:
    "(if 0 < pg_rttCacheTtlSeconds p then foldl (triage_ip (clock 0)) ([], [], [], p) (test_ips p ips)
      else ([], test_ips p ips, [], p)) = (cached, toPing, spawned, p1)" by (metis prod_cases4)
  obtain results p2 where c: "concurrentPing (clock 1) probe (sched toPing) p1 = (results, p2)" by force
  have "\<exists>p4. PingAndSort clock probe sched ips p = (sortResults (clock 3) p4 (cached @ results), spawned, p4)"
    using assms t[unfolded test_ips_def] c by (simp add: PingAndSort_def Let_def)
  then show ?thesis using that t c by blast
qed

section \<open>Properties\<close>

text \<open>C4: Online, \<open>PingAndSort\<close> loses and invents no address: whatever is cached, fresh, stale or
  expired, whatever the probes say and in whichever order they end, the result holds each tested
  address as often as it was given, and it is sorted by score, ties by address.\<close>

theorem PingAndSort_permutes:
  assumes "\<not> offline p" "\<And>xs. mset (sched xs) = mset xs"
    "PingAndSort clock probe sched ips p = (rs, spawned, p')"
  shows "mset (map rs_IP rs) = mset (test_ips p ips)
    \<and> sorted_wrt (\<lambda>a b. \<not> result_less (clock 3) p' b a) rs"
proof (cases "ips = []")
  case True
  then show ?thesis using assms(3) by (simp add: PingAndSort_def test_ips_def)
next
  case False
  obtain cached toPing spawned' p1 results p2 p4 where r:
    "(if 0 < pg_rttCacheTtlSeconds p then foldl (triage_ip (clock 0)) ([], [], [], p) (test_ips p ips)
      else ([], test_ips p ips, [], p)) = (cached, toPing, spawned', p1)"
    "concurrentPing (clock 1) probe (sched toPing) p1 = (results, p2)"
    "PingAndSort clock probe sched ips p = (sortResults (clock 3) p4 (cached @ results), spawned', p4)"
    using PingAndSort_online[OF assms(1) False] by blast
  have rs: "rs = sortResults (clock 3) p4 (cached @ results)" "p' = p4" using r(3) assms(3) by simp_all
  have "mset (map rs_IP cached) + mset toPing = mset (test_ips p ips)"
    using r(1) triage_fold_ips[of "clock 0" "[]" "[]" "[]" p "test_ips p ips"] by (auto split: if_splits)
  moreover have "mset (map rs_IP results) = mset toPing"
    using concurrentPing_ips[of "clock 1" probe "sched toPing" p1] r(2) assms(2) by simp
  ultimately have "mset (map rs_IP (cached @ results)) = mset (test_ips p ips)" by simp
  moreover have "mset (map rs_IP rs) = mset (map rs_IP (cached @ results))"
    unfolding rs by (simp only: mset_map mset_sortResults)
  moreover have "sorted_wrt (\<lambda>a b. \<not> result_less (clock 3) p' b a) rs"
    unfolding rs sortResults_def by (rule result.go_sort_slice_sorted)
  ultimately show ?thesis by simp
qed

theorem PingAndSort_permutes_witness:
  "mset (map rs_IP (fst (PingAndSort (\<lambda>_. 0) (\<lambda>_ _. (20, ''icmp'', None)) rev [''192.0.2.1'', ''192.0.2.2'']
     (NewPinger Map.empty 3 800 8 0 60 '''')))) = mset [''192.0.2.1'', ''192.0.2.2'']"
proof -
  let ?p = "NewPinger Map.empty 3 800 8 0 60 ''''"
  obtain rs sp p' where r: "PingAndSort (\<lambda>_. 0) (\<lambda>_ _. (20, ''icmp'', None)) rev [''192.0.2.1'', ''192.0.2.2''] ?p
      = (rs, sp, p')" by (metis prod_cases3)
  have "\<not> offline ?p" "test_ips ?p [''192.0.2.1'', ''192.0.2.2''] = [''192.0.2.1'', ''192.0.2.2'']"
    by (simp_all add: offline_def NewPinger_def test_ips_def)
  then show ?thesis using PingAndSort_permutes[OF _ _ r] r by simp
qed

text \<open>The order of the answer does not depend on the order in which probes end: on any two
  permutations of results for distinct addresses, the sort gives the same list.\<close>

theorem sortResults_deterministic:
  assumes "mset xs = mset ys" "distinct (map rs_IP xs)"
  shows "sortResults now p xs = sortResults now p ys"
proof -
  let ?k = "result_key now p" and ?a = "sortResults now p xs" and ?b = "sortResults now p ys"
  have "mset (map ?k ?a) = mset (map ?k ?b)" using assms(1) by (simp only: mset_map mset_sortResults)
  then have eq: "map ?k ?a = map ?k ?b"
    using sortResults_sorted[of now p xs] sortResults_sorted[of now p ys]
    by (metis properties_for_sort)
  have "inj_on rs_IP (set xs)" using assms(2) by (simp add: distinct_map)
  then have "inj_on ?k (set xs)" by (auto simp: inj_on_def result_key_def)
  moreover have "set ?a = set xs" "set ?b = set xs"
    using mset_sortResults[of now p xs] mset_sortResults[of now p ys] assms(1) by (metis mset_eq_setD)+
  ultimately show ?thesis using eq map_inj_on[of ?k ?a ?b] by simp
qed

theorem sortResults_deterministic_witness:
  "\<forall>p. let r = (\<lambda>ip. \<lparr>rs_IP = ip, rs_RTT = 20, rs_Loss = 0, rs_ProbeMethod = ''icmp'', rs_FastFail = False\<rparr>)
   in sortResults 0 p [r ''192.0.2.2'', r ''192.0.2.1''] = sortResults 0 p [r ''192.0.2.1'', r ''192.0.2.2'']"
  unfolding Let_def by (intro allI sortResults_deterministic) simp_all

text \<open>An address known to be dead is credited with a success whenever its cached measurement is
  used: after a fast failure whose result is still fresh in the cache, one call of \<open>PingAndSort\<close>
  sends no probe, returns the address as unreachable, and erases its whole penalty.\<close>

theorem cached_dead_address_forgiven:
  assumes "\<not> offline p" "pg_weights p = Some (RecordFastFail t ip m)" "weights_reachable m"
    "0 < pg_rttCacheTtlSeconds p" "pg_maxTestIPs p = 0" "sched [] = []"
    "rtt_get ip (pg_rttCache p) = Some e" "clock 0 < re_staleAt e" "re_loss e = 100"
    "PingAndSort clock probe sched [ip] p = (rs, spawned, p')"
  shows "(\<exists>r. rs = [r] \<and> rs_IP r = ip \<and> rs_Loss r = 100)
    \<and> (\<exists>m'. pg_weights p' = Some m' \<and> (\<forall>now. GetWeight now ip m' = 0))"
proof -
  have "PingAndSort clock probe sched [ip] p =
      (sortResults (clock 3) (RecordIPSuccess ip p) [cached_result ip e ''cached'' p], [], RecordIPSuccess ip p)"
    using assms(1,4-8)
    by (simp add: PingAndSort_def triage_ip_def concurrentPing_def Let_def record_defs)
  then have eq: "rs = sortResults (clock 3) (RecordIPSuccess ip p) [cached_result ip e ''cached'' p]"
    "p' = RecordIPSuccess ip p" using assms(10) by simp_all
  have "rs = [cached_result ip e ''cached'' p]" by (simp add: eq(1) sortResults_def go_sort_slice_def)
  moreover have "pg_weights p' = Some (RecordSuccess ip (RecordFastFail t ip m))"
    using assms(1,2) by (simp add: eq(2) record_defs on_weights_def)
  moreover have "GetWeight now ip (RecordSuccess ip (RecordFastFail t ip m)) = 0" for now
    by (rule fast_fail_forgiven(1)[OF assms(3)])
  ultimately show ?thesis using assms(9) by (simp add: cached_result_def)
qed

definition example_pinger :: Pinger where
  "example_pinger = store_result 0 \<lparr>rs_IP = ''192.0.2.1'', rs_RTT = 9000, rs_Loss = 100, rs_ProbeMethod = ''icmp'',
       rs_FastFail = True\<rparr> ((NewPinger Map.empty 3 800 8 0 60 '''')\<lparr>pg_weights :=
         Some (RecordFastFail 0 ''192.0.2.1'' (NewIPFailureWeightManager Map.empty ''w''))\<rparr>)"

lemma example_pinger_facts:
  "\<not> offline example_pinger" "pg_rttCacheTtlSeconds example_pinger = 60" "pg_maxTestIPs example_pinger = 0"
  "pg_weights example_pinger = Some (RecordFastFail 0 ''192.0.2.1'' (NewIPFailureWeightManager Map.empty ''w''))"
  "\<exists>e. rtt_get ''192.0.2.1'' (pg_rttCache example_pinger) = Some e \<and> re_loss e = 100 \<and> 0 < re_staleAt e"
  by (auto simp: example_pinger_def store_result_def NewPinger_def offline_def Let_def rtt_get_set rtt_inv_new
      calculateDynamicTTL_def second_def)

theorem cached_dead_address_forgiven_witness:
  "\<exists>r. fst (PingAndSort (\<lambda>_. 0) (\<lambda>_ _. (20, ''icmp'', None)) id [''192.0.2.1''] example_pinger) = [r]
     \<and> rs_IP r = ''192.0.2.1'' \<and> rs_Loss r = 100"
proof -
  obtain e where e: "rtt_get ''192.0.2.1'' (pg_rttCache example_pinger) = Some e" "re_loss e = 100" "0 < re_staleAt e"
    using example_pinger_facts(5) by blast
  obtain rs sp p' where r: "PingAndSort (\<lambda>_. 0) (\<lambda>_ _. (20, ''icmp'', None)) id [''192.0.2.1''] example_pinger
      = (rs, sp, p')" by (metis prod_cases3)
  have "weights_reachable (NewIPFailureWeightManager Map.empty ''w'')" by (rule wr_new) simp
  then show ?thesis
    using cached_dead_address_forgiven[OF example_pinger_facts(1,4) _ _ example_pinger_facts(3) _ e(1) _ e(2) r]
      e(3) r example_pinger_facts(2) by auto
qed

text \<open>While the network is reported down, a measurement changes neither the cache of
  measurements nor the failure weights, only the smoothed value in the pool. While it is up, the
  measurement becomes fresh for between 15 seconds and ten times the configured lifetime (if that
  is more), and stays usable as stale for at most half as long again.\<close>

theorem UpdateIPCache_guards:
  assumes "0 < pg_rttCacheTtlSeconds p" "rtt_inv (pg_rttCache p)" "0 \<le> pg_staleGracePeriod p"
  shows "let p' = UpdateIPCache now ip rtt loss method p in
    if offline p then pg_rttCache p' = pg_rttCache p \<and> pg_weights p' = pg_weights p
    else \<exists>e. rtt_get ip (pg_rttCache p') = Some e \<and> re_rtt e = rtt \<and> re_loss e = loss
      \<and> now + 15 * second \<le> re_staleAt e
      \<and> re_staleAt e \<le> now + max (15 * second) (10 * pg_rttCacheTtlSeconds p * second)
      \<and> re_staleAt e \<le> re_expiresAt e \<and> 2 * (re_expiresAt e - re_staleAt e) \<le> re_staleAt e - now"
proof (cases "offline p")
  case True
  then show ?thesis using assms(1) by (simp add: UpdateIPCache_def Let_def)
next
  case False
  define r where "r = \<lparr>rs_IP = ip, rs_RTT = rtt, rs_Loss = loss, rs_ProbeMethod = method, rs_FastFail = False\<rparr>"
  define b where "b = pg_rttCacheTtlSeconds p * second"
  define ttl where "ttl = calculateDynamicTTL p r"
  obtain q where q: "UpdateIPCache now ip rtt loss method p = store_result now r q"
    "pg_rttCache q = pg_rttCache p" "pg_rttCacheTtlSeconds q = pg_rttCacheTtlSeconds p"
    "pg_staleGracePeriod q = pg_staleGracePeriod p" "calculateDynamicTTL q r = ttl"
    using False assms(1)
    by (simp add: UpdateIPCache_def Let_def r_def record_defs on_weights_def ttl_def offline_def
        calculateDynamicTTL_def quality_ratio_def)
  have b: "0 < b" using assms(1) by (simp add: b_def second_def)
  have ratio: "0 \<le> quality_ratio p r \<and> quality_ratio p r \<le> 10" by (simp add: quality_ratio_def Let_def)
  then have "of_int b * quality_ratio p r \<le> of_int b * 10" "0 \<le> of_int b * quality_ratio p r"
    using b by (simp_all only: mult_left_mono of_int_0_le_iff mult_nonneg_nonneg less_imp_le)
  then have "go_trunc (of_int b * quality_ratio p r) \<le> 10 * b"
    using go_trunc_between[of 0 "of_int b * quality_ratio p r" "10 * b"] by simp
  then have ttl: "15 * second \<le> ttl" "ttl \<le> max (15 * second) (10 * b)"
    using b by (auto simp: ttl_def calculateDynamicTTL_def Let_def b_def[symmetric])
  have pos: "0 < ttl" using ttl(1) by (simp add: second_def)
  define g where "g = (if go_div ttl 2 < (if pg_staleGracePeriod p = 0 then 30 * second else pg_staleGracePeriod p)
      then go_div ttl 2 else (if pg_staleGracePeriod p = 0 then 30 * second else pg_staleGracePeriod p))"
  have g: "0 \<le> g \<and> 2 * g \<le> ttl"
    using pos assms(3) by (auto simp: g_def second_def)
  have "rtt_get ip (pg_rttCache (store_result now r q)) = Some \<lparr>re_rtt = rtt, re_loss = loss,
      re_staleAt = now + ttl, re_expiresAt = now + ttl + g\<rparr>"
    using assms(2) q(2-5) by (simp add: store_result_def Let_def rtt_get_set r_def g_def)
  then show ?thesis
    using False ttl g unfolding Let_def q(1) b_def by (simp add: algebra_simps)
qed

theorem UpdateIPCache_guards_witness:
  "\<exists>e. rtt_get ''192.0.2.1'' (pg_rttCache (UpdateIPCache 0 ''192.0.2.1'' 20 0 ''icmp'' (NewPinger Map.empty 3 800 8 0 60 '''')))
     = Some e \<and> 15 * second \<le> re_staleAt e"
proof -
  let ?p = "NewPinger Map.empty 3 800 8 0 60 ''''"
  have "0 < pg_rttCacheTtlSeconds ?p" "rtt_inv (pg_rttCache ?p)" "0 \<le> pg_staleGracePeriod ?p" "\<not> offline ?p"
    by (simp_all add: NewPinger_def rtt_inv_new offline_def second_def)
  then show ?thesis using UpdateIPCache_guards[of ?p 0 "''192.0.2.1''" 20 0 "''icmp''"] by (auto simp: Let_def)
qed

end
