(* ===== verification/Ip_Monitor.thy ===== *)
theory Ip_Monitor
  imports Pinger
begin

text \<open>\<open>ping/ip_monitor*.go\<close>: the background monitor that measures the addresses of the pool in three
  tiers, under a cooldown, a stability discount and an hourly quota. The workers of one refresh
  take the addresses in any order, which is the order of the list given to \<open>refreshIPs\<close>; the k-th
  address is handled at time \<open>clock k\<close> and the check of the quota reads \<open>now\<close>.\<close>

section \<open>State\<close>

record IPMonitorConfig =
  mc_T0RefreshInterval :: int
  mc_T1RefreshInterval :: int
  mc_T2RefreshInterval :: int
  mc_RefCountWeight :: rat
  mc_AccessHeatWeight :: rat
  mc_MaxRefreshPerCycle :: int
  mc_RefreshConcurrency :: int
  mc_Enabled :: bool
  mc_CleanupInterval :: int
  mc_EnableCooldown :: bool
  mc_CooldownRatio :: rat
  mc_EnableStabilityBackoff :: bool
  mc_StabilityThreshold :: int
  mc_StabilityRTTVariance :: rat
  mc_EnableSlidingWindow :: bool
  mc_MaxPingsPerHour :: int

record IPMonitorStats =
  ms_TotalRefreshes :: int
  ms_TotalPlannedPings :: int
  ms_TotalActualPings :: int
  ms_TotalSkippedPings :: int
  ms_LastRefreshTime :: "instant option"
  ms_T0PoolSize :: int
  ms_T1PoolSize :: int
  ms_T2PoolSize :: int
  ms_DowngradedIPs :: int
  ms_HourlyQuotaUsed :: int
  ms_HourlyQuotaLimit :: int

record IPStabilityRecord =
  sr_StableCount :: int
  sr_LastCheck :: instant
  sr_LastRTT :: int
  sr_IsDowngraded :: bool

record IPMonitor =
  im_pinger :: Pinger
  im_config :: IPMonitorConfig
  im_stats :: IPMonitorStats
  im_stability :: "(string \<times> IPStabilityRecord) list"
  im_hourlyPingCount :: int
  im_hourlyResetTime :: instant

definition DefaultIPMonitorConfig :: IPMonitorConfig where
  "DefaultIPMonitorConfig = \<lparr>mc_T0RefreshInterval = 120, mc_T1RefreshInterval = 900,
     mc_T2RefreshInterval = 3600, mc_RefCountWeight = 1, mc_AccessHeatWeight = 1 / 2,
     mc_MaxRefreshPerCycle = 50, mc_RefreshConcurrency = 10, mc_Enabled = True, mc_CleanupInterval = 3600,
     mc_EnableCooldown = True, mc_CooldownRatio = 1 / 2, mc_EnableStabilityBackoff = True,
     mc_StabilityThreshold = 10, mc_StabilityRTTVariance = 5 / 100, mc_EnableSlidingWindow = True,
     mc_MaxPingsPerHour = 5000\<rparr>"

definition or_default :: "'a :: linordered_idom \<Rightarrow> 'a \<Rightarrow> 'a" where
  "or_default d x = (if x \<le> 0 then d else x)"

definition NewIPMonitor :: "instant \<Rightarrow> Pinger \<Rightarrow> IPMonitorConfig \<Rightarrow> IPMonitor" where
  "NewIPMonitor now pinger config =
     \<lparr>im_pinger = pinger,
      im_config = config
        \<lparr>mc_T0RefreshInterval := or_default 120 (mc_T0RefreshInterval config),
         mc_T1RefreshInterval := or_default 900 (mc_T1RefreshInterval config),
         mc_T2RefreshInterval := or_default 3600 (mc_T2RefreshInterval config),
         mc_RefCountWeight := or_default 1 (mc_RefCountWeight config),
         mc_AccessHeatWeight := or_default (1 / 2) (mc_AccessHeatWeight config),
         mc_MaxRefreshPerCycle := or_default 50 (mc_MaxRefreshPerCycle config),
         mc_RefreshConcurrency := or_default 10 (mc_RefreshConcurrency config),
         mc_CleanupInterval := or_default 43200 (mc_CleanupInterval config),
         mc_CooldownRatio := or_default (1 / 2) (mc_CooldownRatio config),
         mc_StabilityThreshold := or_default 10 (mc_StabilityThreshold config),
         mc_StabilityRTTVariance := or_default (5 / 100) (mc_StabilityRTTVariance config),
         mc_MaxPingsPerHour := or_default 5000 (mc_MaxPingsPerHour config)\<rparr>,
      im_stats = \<lparr>ms_TotalRefreshes = 0, ms_TotalPlannedPings = 0, ms_TotalActualPings = 0,
         ms_TotalSkippedPings = 0, ms_LastRefreshTime = None, ms_T0PoolSize = 0, ms_T1PoolSize = 0,
         ms_T2PoolSize = 0, ms_DowngradedIPs = 0, ms_HourlyQuotaUsed = 0, ms_HourlyQuotaLimit = 0\<rparr>,
      im_stability = [], im_hourlyPingCount = 0, im_hourlyResetTime = now\<rparr>"

section \<open>Selection\<close>

definition calculateWeight :: "instant \<Rightarrow> IPMonitor \<Rightarrow> IPInfo \<Rightarrow> rat" where
  "calculateWeight now m info =
     (let w = of_int (inf_RefCount info) * mc_RefCountWeight (im_config m)
            + of_int (inf_AccessHeat info) * mc_AccessHeatWeight (im_config m);
          w1 = (case pg_weights (im_pinger m) of None \<Rightarrow> w
                | Some f \<Rightarrow> w - of_int (GetWeight now (inf_IP info) f) / 100)
      in if w1 < 0 then 0 else w1)"

definition monitor_weight :: "instant \<Rightarrow> IPMonitor \<Rightarrow> IPInfo \<Rightarrow> rat" where
  "monitor_weight now m info =
     (let cfg = im_config m;
          w = calculateWeight now m info;
          w1 = (if mc_EnableStabilityBackoff cfg then
                  (case map_of (im_stability m) (inf_IP info) of
                     Some r \<Rightarrow> if mc_StabilityThreshold cfg \<le> sr_StableCount r then w * (1 / 2) else w
                   | None \<Rightarrow> w) else w)
      in if mc_EnableSlidingWindow cfg then
           (let baseInterval = mc_T0RefreshInterval cfg * second;
                since = (case inf_LastMonitorTime info of None \<Rightarrow> baseInterval * 10 | Some t \<Rightarrow> now - t);
                timeFactor = of_int since / of_int baseInterval
            in w1 * (1 + timeFactor))
         else w1)"

definition selectSortedIPs :: "instant \<Rightarrow> IPMonitor \<Rightarrow> (string \<times> rat) list" where
  "selectSortedIPs now m = (case pg_ipPool (im_pinger m) of
      None \<Rightarrow> []
    | Some pool \<Rightarrow> go_sort_slice (\<lambda>a b. snd a > snd b)
        (map (\<lambda>info. (inf_IP info, monitor_weight now m info)) (GetAllIPs pool)))"

definition selectT0IPs :: "instant \<Rightarrow> IPMonitor \<Rightarrow> string list \<times> IPMonitor" where
  "selectT0IPs now m =
     (let weighted = selectSortedIPs now m in
      if weighted = [] then ([], m)
      else (let maxIPs = min (mc_MaxRefreshPerCycle (im_config m)) (int (length weighted))
            in (map fst (take (nat maxIPs) weighted),
                m\<lparr>im_stats := (im_stats m)\<lparr>ms_T0PoolSize := maxIPs\<rparr>\<rparr>)))"

definition select_slice :: "int \<Rightarrow> (string \<times> rat) list \<Rightarrow> IPMonitor \<Rightarrow> (string list \<times> int) option" where
  "select_slice startIdx weighted m =
     (if weighted = [] \<or> int (length weighted) \<le> startIdx then None
      else (let endIdx = min (startIdx + mc_MaxRefreshPerCycle (im_config m)) (int (length weighted))
            in Some (map fst (take (nat (endIdx - startIdx)) (drop (nat startIdx) weighted)), endIdx - startIdx)))"

definition selectT1IPs :: "instant \<Rightarrow> IPMonitor \<Rightarrow> string list \<times> IPMonitor" where
  "selectT1IPs now m = (case select_slice (mc_MaxRefreshPerCycle (im_config m)) (selectSortedIPs now m) m of
      None \<Rightarrow> ([], m)
    | Some (ips, n) \<Rightarrow> (ips, m\<lparr>im_stats := (im_stats m)\<lparr>ms_T1PoolSize := n\<rparr>\<rparr>))"

definition selectT2IPs :: "instant \<Rightarrow> IPMonitor \<Rightarrow> string list \<times> IPMonitor" where
  "selectT2IPs now m = (case select_slice (mc_MaxRefreshPerCycle (im_config m) * 2) (selectSortedIPs now m) m of
      None \<Rightarrow> ([], m)
    | Some (ips, n) \<Rightarrow> (ips, m\<lparr>im_stats := (im_stats m)\<lparr>ms_T2PoolSize := n\<rparr>\<rparr>))"

section \<open>Refreshing\<close>

definition updateStabilityRecord :: "instant \<Rightarrow> string \<Rightarrow> int \<Rightarrow> IPMonitor \<Rightarrow> IPMonitor" where
  "updateStabilityRecord now ip rtt m = (case map_of (im_stability m) ip of
      None \<Rightarrow> m\<lparr>im_stability := AList.update ip \<lparr>sr_StableCount = 0, sr_LastCheck = now, sr_LastRTT = rtt,
                  sr_IsDowngraded = False\<rparr> (im_stability m)\<rparr>
    | Some _ \<Rightarrow> m\<lparr>im_stability := map_value ip (\<lambda>r.
        if 0 < sr_LastRTT r then
          (let rttVariance = of_int \<bar>rtt - sr_LastRTT r\<bar> / of_int (sr_LastRTT r)
           in if rttVariance \<le> mc_StabilityRTTVariance (im_config m)
              then r\<lparr>sr_StableCount := sr_StableCount r + 1, sr_LastCheck := now, sr_LastRTT := rtt,
                     sr_IsDowngraded := sr_IsDowngraded r
                       \<or> mc_StabilityThreshold (im_config m) \<le> sr_StableCount r + 1\<rparr>
              else r\<lparr>sr_StableCount := 0, sr_LastCheck := now, sr_LastRTT := rtt, sr_IsDowngraded := False\<rparr>)
        else r\<lparr>sr_LastCheck := now, sr_LastRTT := rtt\<rparr>) (im_stability m)\<rparr>)"

definition resetStabilityRecord :: "string \<Rightarrow> IPMonitor \<Rightarrow> IPMonitor" where
  "resetStabilityRecord ip m = m\<lparr>im_stability :=
     map_value ip (\<lambda>r. r\<lparr>sr_StableCount := 0, sr_IsDowngraded := False\<rparr>) (im_stability m)\<rparr>"

definition checkHourlyQuota :: "instant \<Rightarrow> IPMonitor \<Rightarrow> IPMonitor" where
  "checkHourlyQuota now m =
     (if hour \<le> now - im_hourlyResetTime m then m\<lparr>im_hourlyPingCount := 0, im_hourlyResetTime := now\<rparr> else m)"

datatype tier = T0 | T1 | T2

definition tier_interval :: "tier \<Rightarrow> IPMonitorConfig \<Rightarrow> int" where
  "tier_interval t cfg = (case t of T0 \<Rightarrow> mc_T0RefreshInterval cfg | T1 \<Rightarrow> mc_T1RefreshInterval cfg
     | T2 \<Rightarrow> mc_T2RefreshInterval cfg)"

definition in_cooldown :: "instant \<Rightarrow> tier \<Rightarrow> string \<Rightarrow> IPMonitor \<Rightarrow> bool" where
  "in_cooldown now t ip m =
     (mc_EnableCooldown (im_config m) \<and>
      (let (remainingMs, isFresh) = GetCacheTTLRemaining now ip (im_pinger m);
           thresholdMs = go_trunc (of_int (tier_interval t (im_config m) * 1000) * mc_CooldownRatio (im_config m))
       in isFresh \<and> thresholdMs < remainingMs))"

definition probe_ip :: "instant \<Rightarrow> (string \<Rightarrow> probe) \<Rightarrow> string \<Rightarrow> IPMonitor \<Rightarrow> IPMonitor" where
  "probe_ip now probe ip m = (case probe ip of (rtt, method, _) \<Rightarrow>
     (let m1 = (if 0 \<le> rtt
            then (let a = m\<lparr>im_pinger := UpdateIPCache now ip rtt 0 method (im_pinger m)\<rparr>
                  in if mc_EnableStabilityBackoff (im_config m) then updateStabilityRecord now ip rtt a else a)
            else (let a = m\<lparr>im_pinger := UpdateIPCache now ip LogicDeadRTT 100 method (im_pinger m)\<rparr>
                  in if IsNetworkOnline (im_pinger a) then resetStabilityRecord ip a else a));
          m2 = m1\<lparr>im_pinger := (im_pinger m1)\<lparr>pg_ipPool :=
                 map_option (UpdateMonitorTime now ip) (pg_ipPool (im_pinger m1))\<rparr>\<rparr>
      in if 0 < mc_MaxPingsPerHour (im_config m2)
         then m2\<lparr>im_hourlyPingCount := im_hourlyPingCount m2 + 1\<rparr> else m2))"

fun refresh_loop :: "(nat \<Rightarrow> instant) \<Rightarrow> (string \<Rightarrow> probe) \<Rightarrow> tier \<Rightarrow> nat \<Rightarrow> string list \<Rightarrow> IPMonitor \<Rightarrow> int \<times> IPMonitor" where
  "refresh_loop clock probe t k [] m = (0, m)"
| "refresh_loop clock probe t k (ip # ips) m =
    (if in_cooldown (clock k) t ip m
     then (let (skipped, m') = refresh_loop clock probe t (k + 1) ips m in (skipped + 1, m'))
     else refresh_loop clock probe t (k + 1) ips (probe_ip (clock k) probe ip m))"

definition refreshIPs :: "instant \<Rightarrow> (nat \<Rightarrow> instant) \<Rightarrow> (string \<Rightarrow> probe) \<Rightarrow> tier \<Rightarrow> string list \<Rightarrow> IPMonitor \<Rightarrow> IPMonitor" where
  "refreshIPs now clock probe t ips m =
     (if ips = [] then m
      else (let m1 = (if 0 < mc_MaxPingsPerHour (im_config m) then checkHourlyQuota now m else m) in
        if 0 < mc_MaxPingsPerHour (im_config m) \<and> mc_MaxPingsPerHour (im_config m) \<le> im_hourlyPingCount m1 then m1
        else (let (skipped, m2) = refresh_loop clock probe t 0 ips m1; s = im_stats m2; n = int (length ips)
              in m2\<lparr>im_stats := s\<lparr>ms_TotalRefreshes := ms_TotalRefreshes s + 1,
                    ms_TotalPlannedPings := ms_TotalPlannedPings s + n,
                    ms_TotalActualPings := ms_TotalActualPings s + (n - skipped),
                    ms_TotalSkippedPings := ms_TotalSkippedPings s + skipped,
                    ms_HourlyQuotaUsed := im_hourlyPingCount m2,
                    ms_HourlyQuotaLimit := mc_MaxPingsPerHour (im_config m2),
                    ms_LastRefreshTime := Some (clock (length ips))\<rparr>\<rparr>)))"

definition monitor_GetStats :: "IPMonitor \<Rightarrow> IPMonitorStats" where
  "monitor_GetStats m = (im_stats m)\<lparr>ms_DowngradedIPs := int (length (filter (\<lambda>(ip, r).
      sr_IsDowngraded r \<or> mc_StabilityThreshold (im_config m) \<le> sr_StableCount r) (im_stability m)))\<rparr>"

definition newIPProtectionPeriod :: duration where "newIPProtectionPeriod = 5 * minute"

definition cleanupStaleIPs :: "instant \<Rightarrow> IPMonitor \<Rightarrow> IPMonitor" where
  "cleanupStaleIPs now m = (case pg_ipPool (im_pinger m) of
      None \<Rightarrow> m
    | Some pool \<Rightarrow>
       (let pool' = snd (CleanStaleIPs now (24 * hour) pool);
            validIPs = set (map inf_IP (GetAllIPs pool'))
        in m\<lparr>im_pinger := (im_pinger m)\<lparr>pg_ipPool := Some pool'\<rparr>,
             im_stability := filter (\<lambda>(ip, r). ip \<in> validIPs \<or> now - sr_LastCheck r < newIPProtectionPeriod)
               (im_stability m)\<rparr>))"

text \<open>The periodic events of \<open>run\<close>, which does nothing while the network is down.\<close>

datatype monitor_event = Tick tier | Tick_cleanup

definition monitor_select :: "instant \<Rightarrow> tier \<Rightarrow> IPMonitor \<Rightarrow> string list \<times> IPMonitor" where
  "monitor_select now t m = (case t of T0 \<Rightarrow> selectT0IPs now m | T1 \<Rightarrow> selectT1IPs now m | T2 \<Rightarrow> selectT2IPs now m)"

definition monitor_run :: "instant \<Rightarrow> (nat \<Rightarrow> instant) \<Rightarrow> (string \<Rightarrow> probe) \<Rightarrow> monitor_event \<Rightarrow> IPMonitor \<Rightarrow> IPMonitor" where
  "monitor_run now clock probe ev m =
     (if \<not> IsNetworkOnline (im_pinger m) then m
      else (case ev of
          Tick t \<Rightarrow> (case monitor_select now t m of (ips, m1) \<Rightarrow> refreshIPs now clock probe t ips m1)
        | Tick_cleanup \<Rightarrow> cleanupStaleIPs now m))"

section \<open>Lemmas\<close>

interpretation monitor_order: weak_order "\<lambda>a b :: string \<times> rat. snd a > snd b"
  by (rule weak_order_by_key_desc)

lemma selectSortedIPs_sorted: "sorted_wrt (\<lambda>a b. snd b \<le> snd a) (selectSortedIPs now m)"
  using monitor_order.go_sort_slice_sorted
  by (auto simp: selectSortedIPs_def not_less split: option.splits)

lemma selectSortedIPs_ips:
  assumes "pg_ipPool (im_pinger m) = Some pool"
  shows "mset (map fst (selectSortedIPs now m)) = mset (map inf_IP (GetAllIPs pool))"
  using assms by (simp add: selectSortedIPs_def multiset.map_comp comp_def)

lemma selectT0_take:
  "0 < mc_MaxRefreshPerCycle (im_config m) \<Longrightarrow>
   fst (selectT0IPs now m) = take (nat (mc_MaxRefreshPerCycle (im_config m))) (map fst (selectSortedIPs now m))"
  by (auto simp: selectT0IPs_def Let_def take_map min_def)

lemma select_slice_take:
  assumes "0 < mc_MaxRefreshPerCycle (im_config m)" "0 \<le> s"
  shows "(case select_slice s w m of None \<Rightarrow> [] | Some (ips, n) \<Rightarrow> ips) =
    take (nat (mc_MaxRefreshPerCycle (im_config m))) (drop (nat s) (map fst w))"
proof (cases "w = [] \<or> int (length w) \<le> s")
  case True
  then show ?thesis by (auto simp: select_slice_def)
next
  case False
  let ?n = "mc_MaxRefreshPerCycle (im_config m)"
  have "take (nat (min (s + ?n) (int (length w)) - s)) (drop (nat s) w) = take (nat ?n) (drop (nat s) w)"
  proof (cases "s + ?n \<le> int (length w)")
    case True
    then show ?thesis by simp
  next
    case False
    then have "min (s + ?n) (int (length w)) - s = int (length w) - s" by simp
    then show ?thesis using False assms by simp
  qed
  then show ?thesis using False by (simp add: select_slice_def Let_def take_map drop_map)
qed

lemma tiers_eq:
  assumes "0 < mc_MaxRefreshPerCycle (im_config m)"
  shows "fst (selectT1IPs now m) = take (nat (mc_MaxRefreshPerCycle (im_config m)))
      (drop (nat (mc_MaxRefreshPerCycle (im_config m))) (map fst (selectSortedIPs now m)))"
    "fst (selectT2IPs now m) = take (nat (mc_MaxRefreshPerCycle (im_config m)))
      (drop (2 * nat (mc_MaxRefreshPerCycle (im_config m))) (map fst (selectSortedIPs now m)))"
  using select_slice_take[OF assms, of "mc_MaxRefreshPerCycle (im_config m)" "selectSortedIPs now m"]
    select_slice_take[OF assms, of "mc_MaxRefreshPerCycle (im_config m) * 2" "selectSortedIPs now m"] assms
  by (auto simp: selectT1IPs_def selectT2IPs_def nat_mult_distrib mult.commute split: option.splits)

lemma take_drop_3: "take n xs @ take n (drop n xs) @ take n (drop (2 * n) xs) = take (3 * n) xs"
proof -
  have "take (3 * n) xs = take n xs @ take (2 * n) (drop n xs)"
    using take_add[of n "2 * n" xs] by (simp add: algebra_simps)
  moreover have "take (2 * n) (drop n xs) = take n (drop n xs) @ take n (drop n (drop n xs))"
    using take_add[of n n "drop n xs"] by (simp add: mult_2)
  ultimately show ?thesis by (simp add: mult_2)
qed

lemma probe_ip_frame [simp]: "im_config (probe_ip now probe ip m) = im_config m"
  "im_stats (probe_ip now probe ip m) = im_stats m"
  "im_hourlyPingCount (probe_ip now probe ip m) =
     im_hourlyPingCount m + (if 0 < mc_MaxPingsPerHour (im_config m) then 1 else 0)"
  by (auto simp: probe_ip_def Let_def updateStabilityRecord_def resetStabilityRecord_def
      split: prod.splits option.splits)

lemma refresh_loop_counts:
  "refresh_loop clock probe t k ips m = (skipped, m') \<Longrightarrow>
   0 \<le> skipped \<and> skipped \<le> int (length ips) \<and> im_config m' = im_config m \<and> im_stats m' = im_stats m
   \<and> (0 < mc_MaxPingsPerHour (im_config m) \<longrightarrow>
        im_hourlyPingCount m' = im_hourlyPingCount m + (int (length ips) - skipped))"
proof (induction ips arbitrary: k m skipped m')
  case (Cons ip ips)
  show ?case
  proof (cases "in_cooldown (clock k) t ip m")
    case True
    obtain s q where r: "refresh_loop clock probe t (k + 1) ips m = (s, q)" by force
    then show ?thesis using Cons.IH[OF r] Cons.prems True by auto
  next
    case False
    then have r: "refresh_loop clock probe t (k + 1) ips (probe_ip (clock k) probe ip m) = (skipped, m')"
      using Cons.prems by simp
    show ?thesis using Cons.IH[OF r] by auto
  qed
qed auto

section \<open>Properties\<close>

text \<open>The three tiers are consecutive segments of the addresses of the pool by falling weight:
  no address is in two tiers, each tier has at most the configured number of addresses, and none
  of a later tier weighs more than one of an earlier tier.\<close>

theorem IPMonitor_tiers:
  assumes "pg_ipPool (im_pinger m) = Some pool" "pool_reachable reg pool"
    "0 < mc_MaxRefreshPerCycle (im_config m)"
  shows "fst (selectT0IPs now m) @ fst (selectT1IPs now m) @ fst (selectT2IPs now m) =
      take (3 * nat (mc_MaxRefreshPerCycle (im_config m))) (map fst (selectSortedIPs now m))
    \<and> distinct (fst (selectT0IPs now m) @ fst (selectT1IPs now m) @ fst (selectT2IPs now m))
    \<and> sorted_wrt (\<lambda>a b. snd b \<le> snd a) (selectSortedIPs now m)
    \<and> int (length (fst (selectT0IPs now m))) \<le> mc_MaxRefreshPerCycle (im_config m)"
proof -
  have inv: "pool_inv reg pool" using assms(2) by (rule pool_reachable_inv)
  have "map inf_IP (map snd xs) = keys_of xs" if "\<forall>k i. (k, i) \<in> set xs \<longrightarrow> inf_IP i = k" for xs :: "(string \<times> IPInfo) list"
    using that by (induction xs) auto
  moreover have "inf_IP i = k" if "(k, i) \<in> set (ipp_ips pool)" for k i
  proof -
    have "map_of (ipp_ips pool) k = Some i" using that inv by (simp add: pool_inv_def distinct_keys_map_of)
    then show ?thesis using pool_inv_at[OF inv, of k] by (simp add: count_ok_def)
  qed
  ultimately have "map inf_IP (GetAllIPs pool) = keys_of (ipp_ips pool)" unfolding GetAllIPs_def by blast
  then have "distinct (map inf_IP (GetAllIPs pool))" using inv by (simp add: pool_inv_def)
  then have d: "distinct (map fst (selectSortedIPs now m))"
    using selectSortedIPs_ips[OF assms(1)] mset_eq_imp_distinct_iff by metis
  have eq: "fst (selectT0IPs now m) @ fst (selectT1IPs now m) @ fst (selectT2IPs now m) =
      take (3 * nat (mc_MaxRefreshPerCycle (im_config m))) (map fst (selectSortedIPs now m))"
    unfolding selectT0_take[OF assms(3)] tiers_eq[OF assms(3)] by (rule take_drop_3)
  have "int (length (fst (selectT0IPs now m))) \<le> mc_MaxRefreshPerCycle (im_config m)"
    unfolding selectT0_take[OF assms(3)] using assms(3) by simp
  then show ?thesis unfolding eq using d selectSortedIPs_sorted by (simp add: distinct_take)
qed

theorem IPMonitor_tiers_witness:
  "distinct (fst (selectT0IPs 7 (NewIPMonitor 0 ((NewPinger Map.empty 3 800 8 0 60 '''')\<lparr>pg_ipPool :=
     Some (UpdateDomainIPs 3 [] [''192.0.2.1'', ''192.0.2.2''] ''a'' NewIPPool)\<rparr>) DefaultIPMonitorConfig)))"
proof -
  let ?pool = "UpdateDomainIPs 3 [] [''192.0.2.1'', ''192.0.2.2''] ''a'' NewIPPool"
  let ?m = "NewIPMonitor 0 ((NewPinger Map.empty 3 800 8 0 60 '''')\<lparr>pg_ipPool := Some ?pool\<rparr>) DefaultIPMonitorConfig"
  have p: "pool_reachable ((\<lambda>_. {})(''a'' := set [''192.0.2.1'', ''192.0.2.2''])) ?pool"
    by (rule pr_update[OF pr_new]) simp
  have "pg_ipPool (im_pinger ?m) = Some ?pool" "0 < mc_MaxRefreshPerCycle (im_config ?m)"
    by (simp_all add: NewIPMonitor_def DefaultIPMonitorConfig_def or_default_def)
  from IPMonitor_tiers[OF this(1) p this(2), of 7] show ?thesis by simp
qed

text \<open>A refresh accounts for each address as measured or as skipped, counts exactly the measured
  ones against the hourly quota, and at the quota does nothing. The quota is checked before a
  refresh only, so it can be exceeded by less than the addresses of one refresh.\<close>

theorem refreshIPs_quota:
  assumes "0 < mc_MaxPingsPerHour (im_config m)"
  shows "let m1 = checkHourlyQuota now m; m' = refreshIPs now clock probe t ips m;
      actual = ms_TotalActualPings (im_stats m') - ms_TotalActualPings (im_stats m);
      skipped = ms_TotalSkippedPings (im_stats m') - ms_TotalSkippedPings (im_stats m) in
    if ips = [] then m' = m
    else if mc_MaxPingsPerHour (im_config m) \<le> im_hourlyPingCount m1 then m' = m1
    else actual + skipped = int (length ips) \<and> 0 \<le> actual \<and> 0 \<le> skipped
      \<and> ms_TotalPlannedPings (im_stats m') = ms_TotalPlannedPings (im_stats m) + int (length ips)
      \<and> im_hourlyPingCount m' = im_hourlyPingCount m1 + actual
      \<and> im_hourlyPingCount m' < mc_MaxPingsPerHour (im_config m) + int (length ips)"
proof -
  let ?m1 = "checkHourlyQuota now m"
  have f: "im_config ?m1 = im_config m" "im_stats ?m1 = im_stats m" by (simp_all add: checkHourlyQuota_def)
  obtain s q where r: "refresh_loop clock probe t 0 ips ?m1 = (s, q)" by force
  note c = refresh_loop_counts[OF r]
  show ?thesis
  proof (cases "ips = [] \<or> mc_MaxPingsPerHour (im_config m) \<le> im_hourlyPingCount ?m1")
    case True
    then show ?thesis using assms by (auto simp: refreshIPs_def Let_def)
  next
    case False
    then show ?thesis using assms r c f by (simp add: refreshIPs_def Let_def)
  qed
qed

theorem refreshIPs_quota_witness:
  "im_hourlyPingCount (refreshIPs 5 (\<lambda>_. 5) (\<lambda>_. (20, ''icmp'', None)) T0 [''192.0.2.1'']
     (NewIPMonitor 0 (NewPinger Map.empty 3 800 8 0 60 '''') DefaultIPMonitorConfig)) < 5001"
proof -
  let ?m = "NewIPMonitor 0 (NewPinger Map.empty 3 800 8 0 60 '''') DefaultIPMonitorConfig"
  have m: "mc_MaxPingsPerHour (im_config ?m) = 5000" "checkHourlyQuota 5 ?m = ?m" "im_hourlyPingCount ?m = 0"
    by (simp_all add: NewIPMonitor_def DefaultIPMonitorConfig_def or_default_def checkHourlyQuota_def time_defs)
  then show ?thesis
    using refreshIPs_quota[of ?m 5 "\<lambda>_. 5" "\<lambda>_. (20, ''icmp'', None)" T0 "[''192.0.2.1'']"] by (simp add: Let_def)
qed

end
