(* ===== verification/Health.thy ===== *)
theory Health
  imports Go_Num Config "HOL-Library.Word"
begin

text \<open>Health of an upstream server (\<open>src/upstream/health.go\<close>, \<open>health_stats_tracker.go\<close> and
  \<open>health_aware.go\<close>): the circuit breaker with its counters and back-off, the smoothed latency and
  the ring of statistics buckets. \<open>online\<close> is the answer of the network checker (true when there is
  none). Readings of the clock are arguments. The rotation goroutine appears as its step
  \<open>rotateBucket\<close>.\<close>

section \<open>Statistics buckets\<close>

record UpstreamStatsBucket =
  ub_timestamp :: instant
  ub_success :: int
  ub_failure :: int

record UpstreamStatsTracker =
  ut_address :: string
  ut_buckets :: "UpstreamStatsBucket list"
  ut_current :: nat
  ut_bucketSize :: duration
  ut_bucketCount :: nat

definition NewUpstreamStatsTracker :: "instant \<Rightarrow> string \<Rightarrow> duration \<Rightarrow> int \<Rightarrow> UpstreamStatsTracker" where
  "NewUpstreamStatsTracker now address bucketSize bucketCount =
     (let n = nat (if bucketCount \<le> 0 then 1 else bucketCount)
      in \<lparr>ut_address = address,
          ut_buckets = replicate n \<lparr>ub_timestamp = now, ub_success = 0, ub_failure = 0\<rparr>,
          ut_current = 0, ut_bucketSize = bucketSize, ut_bucketCount = n\<rparr>)"

definition on_bucket :: "(UpstreamStatsBucket \<Rightarrow> UpstreamStatsBucket) \<Rightarrow> UpstreamStatsTracker \<Rightarrow>
    UpstreamStatsTracker" where
  "on_bucket f t = t\<lparr>ut_buckets := (ut_buckets t)[ut_current t := f (ut_buckets t ! ut_current t)]\<rparr>"

definition tracker_RecordSuccess :: "UpstreamStatsTracker \<Rightarrow> UpstreamStatsTracker" where
  "tracker_RecordSuccess t = on_bucket (\<lambda>b. b\<lparr>ub_success := ub_success b + 1\<rparr>) t"

definition tracker_RecordFailure :: "UpstreamStatsTracker \<Rightarrow> UpstreamStatsTracker" where
  "tracker_RecordFailure t = on_bucket (\<lambda>b. b\<lparr>ub_failure := ub_failure b + 1\<rparr>) t"

definition Aggregate :: "instant \<Rightarrow> UpstreamStatsTracker \<Rightarrow> int \<times> int" where
  "Aggregate startTime t = foldl (\<lambda>(s, f) b.
      if startTime \<le> ub_timestamp b then (s + ub_success b, f + ub_failure b) else (s, f)) (0, 0) (ut_buckets t)"

definition rotateBucket :: "instant \<Rightarrow> UpstreamStatsTracker \<Rightarrow> UpstreamStatsTracker" where
  "rotateBucket now t =
     on_bucket (\<lambda>b. b\<lparr>ub_timestamp := now, ub_success := 0, ub_failure := 0\<rparr>)
       (t\<lparr>ut_current := (ut_current t + 1) mod ut_bucketCount t\<rparr>)"

definition tracker_Reset :: "UpstreamStatsTracker \<Rightarrow> UpstreamStatsTracker" where
  "tracker_Reset t = t\<lparr>ut_buckets := map (\<lambda>b. b\<lparr>ub_success := 0, ub_failure := 0\<rparr>) (ut_buckets t)\<rparr>"

section \<open>Server health\<close>

datatype HealthStatus = HealthStatusHealthy | HealthStatusDegraded | HealthStatusUnhealthy

text \<open>\<open>upstream.HealthCheckConfig\<close>: the package's own copy of the configuration's thresholds. The
  switch \<open>Enabled\<close> of the configuration is not copied.\<close>

record UpHealthCheckConfig =
  uh_FailureThreshold :: int
  uh_CircuitBreakerThreshold :: int
  uh_CircuitBreakerTimeout :: int
  uh_SuccessThreshold :: int

definition convertConfigHealthCheck :: "HealthCheckConfig \<Rightarrow> UpHealthCheckConfig" where
  "convertConfigHealthCheck cfg =
     \<lparr>uh_FailureThreshold = hc_FailureThreshold cfg,
      uh_CircuitBreakerThreshold = hc_CircuitBreakerThreshold cfg,
      uh_CircuitBreakerTimeout = hc_CircuitBreakerTimeout cfg, uh_SuccessThreshold = hc_SuccessThreshold cfg\<rparr>"

definition DefaultHealthCheckConfig :: UpHealthCheckConfig where
  "DefaultHealthCheckConfig = \<lparr>uh_FailureThreshold = 3, uh_CircuitBreakerThreshold = 5,
     uh_CircuitBreakerTimeout = 30, uh_SuccessThreshold = 2\<rparr>"

record ServerHealth =
  sh_address :: string
  sh_status :: HealthStatus
  sh_consecutiveFailures :: int
  sh_consecutiveSuccesses :: int
  sh_lastFailureTime :: "instant option"
  sh_circuitBreakerStartTime :: "instant option"
  sh_consecutiveRecoveryAttempts :: nat
  sh_config :: UpHealthCheckConfig
  sh_latency :: duration
  sh_latencyAlpha :: rat
  sh_totalSuccesses :: int
  sh_totalFailures :: int
  sh_statsTracker :: UpstreamStatsTracker

definition NewServerHealth :: "instant \<Rightarrow> string \<Rightarrow> UpHealthCheckConfig option \<Rightarrow> (int \<times> int) option \<Rightarrow>
    ServerHealth" where
  "NewServerHealth now address config statsConfig =
     (let cfg = (case config of None \<Rightarrow> DefaultHealthCheckConfig | Some c \<Rightarrow> c);
          bucketMinutes = (case statsConfig of Some (m, _) \<Rightarrow> if 0 < m then m else 10 | None \<Rightarrow> 10);
          retentionDays = (case statsConfig of Some (_, d) \<Rightarrow> if 0 < d then d else 90 | None \<Rightarrow> 90);
          count = go_div (retentionDays * 24 * 60) bucketMinutes;
          bucketCount = (if count < 1 then 1 else count)
      in \<lparr>sh_address = address, sh_status = HealthStatusHealthy, sh_consecutiveFailures = 0,
          sh_consecutiveSuccesses = 0, sh_lastFailureTime = None, sh_circuitBreakerStartTime = None,
          sh_consecutiveRecoveryAttempts = 0, sh_config = cfg, sh_latency = 200 * millisecond,
          sh_latencyAlpha = 1 / 5, sh_totalSuccesses = 0, sh_totalFailures = 0,
          sh_statsTracker = NewUpstreamStatsTracker now address (bucketMinutes * minute) bucketCount\<rparr>)"

definition MarkSuccess :: "bool \<Rightarrow> ServerHealth \<Rightarrow> ServerHealth" where
  "MarkSuccess online h =
     (if \<not> online then h
      else (let h1 = h\<lparr>sh_consecutiveSuccesses := sh_consecutiveSuccesses h + 1, sh_consecutiveFailures := 0,
                       sh_totalSuccesses := sh_totalSuccesses h + 1,
                       sh_statsTracker := tracker_RecordSuccess (sh_statsTracker h)\<rparr>
            in if uh_SuccessThreshold (sh_config h1) \<le> sh_consecutiveSuccesses h1
                  \<and> sh_status h1 \<noteq> HealthStatusHealthy
               then h1\<lparr>sh_status := HealthStatusHealthy, sh_consecutiveSuccesses := 0,
                       sh_consecutiveRecoveryAttempts := 0\<rparr>
               else h1))"

text \<open>\<open>now\<close> and \<open>now'\<close> are the two readings of the clock in \<open>MarkFailure\<close>.\<close>

definition MarkFailure :: "bool \<Rightarrow> instant \<Rightarrow> instant \<Rightarrow> ServerHealth \<Rightarrow> ServerHealth" where
  "MarkFailure online now now' h =
     (if \<not> online then h
      else (let h1 = h\<lparr>sh_consecutiveFailures := sh_consecutiveFailures h + 1, sh_consecutiveSuccesses := 0,
                       sh_lastFailureTime := Some now, sh_totalFailures := sh_totalFailures h + 1,
                       sh_statsTracker := tracker_RecordFailure (sh_statsTracker h)\<rparr>
            in if uh_CircuitBreakerThreshold (sh_config h1) \<le> sh_consecutiveFailures h1
               then (if sh_status h1 \<noteq> HealthStatusUnhealthy
                     then h1\<lparr>sh_status := HealthStatusUnhealthy, sh_circuitBreakerStartTime := Some now',
                             sh_consecutiveRecoveryAttempts := sh_consecutiveRecoveryAttempts h1 + 1\<rparr>
                     else h1)
               else if uh_FailureThreshold (sh_config h1) \<le> sh_consecutiveFailures h1
               then (if sh_status h1 = HealthStatusHealthy then h1\<lparr>sh_status := HealthStatusDegraded\<rparr> else h1)
               else h1))"

definition ewma :: "rat \<Rightarrow> duration \<Rightarrow> duration \<Rightarrow> duration" where
  "ewma alpha d avg = (if avg = 0 then d else go_trunc (alpha * of_int d + (1 - alpha) * of_int avg))"

definition MarkTimeout :: "bool \<Rightarrow> instant \<Rightarrow> duration \<Rightarrow> ServerHealth \<Rightarrow> ServerHealth" where
  "MarkTimeout online now d h =
     (if \<not> online then h
      else h\<lparr>sh_consecutiveSuccesses := 0, sh_lastFailureTime := Some now,
             sh_latency := ewma (sh_latencyAlpha h) (if d \<le> 0 then second else d) (sh_latency h)\<rparr>)"

definition RecordLatency :: "bool \<Rightarrow> duration \<Rightarrow> ServerHealth \<Rightarrow> ServerHealth" where
  "RecordLatency online d h =
     (if \<not> online then h else h\<lparr>sh_latency := ewma (sh_latencyAlpha h) d (sh_latency h)\<rparr>)"

text \<open>\<open>time.Duration(10 * (1 << uint(n))) * time.Second\<close> in 64-bit arithmetic. The time since the zero
  instant is the largest duration.\<close>

definition backoffDuration :: "ServerHealth \<Rightarrow> duration" where
  "backoffDuration h =
     sint (10 * push_bit (sh_consecutiveRecoveryAttempts h) 1 * 1000000000 :: 64 word)"

definition since :: "instant \<Rightarrow> instant option \<Rightarrow> duration" where
  "since now t = (case t of None \<Rightarrow> 2 ^ 63 - 1 | Some s \<Rightarrow> now - s)"

definition ShouldSkipTemporarily :: "instant \<Rightarrow> ServerHealth \<Rightarrow> bool" where
  "ShouldSkipTemporarily now h \<longleftrightarrow> sh_status h = HealthStatusUnhealthy
     \<and> since now (sh_circuitBreakerStartTime h) < backoffDuration h"

definition health_Reset :: "ServerHealth \<Rightarrow> ServerHealth" where
  "health_Reset h = h\<lparr>sh_status := HealthStatusHealthy, sh_consecutiveFailures := 0,
     sh_consecutiveSuccesses := 0, sh_lastFailureTime := None, sh_circuitBreakerStartTime := None,
     sh_totalSuccesses := 0, sh_totalFailures := 0, sh_statsTracker := tracker_Reset (sh_statsTracker h)\<rparr>"

definition health_ClearStats :: "ServerHealth \<Rightarrow> ServerHealth" where
  "health_ClearStats h = h\<lparr>sh_totalSuccesses := 0, sh_totalFailures := 0\<rparr>"


text \<open>The numbers of \<open>GetStats\<close> (its strings are formatting) and of \<open>GetStatsWithTimeRange\<close>, over
  the wanted number of days of 24 hours.\<close>

record HealthStats =
  hs_status :: HealthStatus
  hs_consecutive_failures :: int
  hs_consecutive_successes :: int
  hs_success :: int
  hs_failure :: int
  hs_seconds_since_last_failure :: "int option"
  hs_circuit :: "(int \<times> nat \<times> int) option"

definition health_GetStats :: "instant \<Rightarrow> ServerHealth \<Rightarrow> HealthStats" where
  "health_GetStats now h =
     \<lparr>hs_status = sh_status h, hs_consecutive_failures = sh_consecutiveFailures h,
      hs_consecutive_successes = sh_consecutiveSuccesses h, hs_success = sh_totalSuccesses h,
      hs_failure = sh_totalFailures h,
      hs_seconds_since_last_failure = map_option (\<lambda>t. go_div (now - t) second) (sh_lastFailureTime h),
      hs_circuit = (if sh_status h = HealthStatusUnhealthy
        then (let remaining = backoffDuration h - since now (sh_circuitBreakerStartTime h)
              in Some (go_div (if remaining < 0 then 0 else remaining) second,
                       sh_consecutiveRecoveryAttempts h, go_div (backoffDuration h) second))
        else None)\<rparr>"

definition stats_days :: "int \<Rightarrow> int" where
  "stats_days days = (if days < 1 \<or> 90 < days then 7 else days)"

definition health_GetStatsWithTimeRange :: "instant \<Rightarrow> int \<Rightarrow> ServerHealth \<Rightarrow> int \<times> int \<times> rat" where
  "health_GetStatsWithTimeRange now days h =
     (let (success, failure) = Aggregate (now - stats_days days * 24 * hour) (sh_statsTracker h);
          tot = success + failure
      in (success, failure, if 0 < tot then of_int success / of_int tot * 100 else 0))"

section \<open>Runs\<close>

text \<open>What can happen to a server: the calls of the query strategies, the statistics being cleared,
  the rotation of the buckets.\<close>

datatype health_event =
    Ev_success bool
  | Ev_failure bool instant instant
  | Ev_timeout bool instant duration
  | Ev_latency bool duration
  | Ev_rotate instant
  | Ev_clear

fun health_step :: "health_event \<Rightarrow> ServerHealth \<Rightarrow> ServerHealth" where
  "health_step (Ev_success online) h = MarkSuccess online h"
| "health_step (Ev_failure online now now') h = MarkFailure online now now' h"
| "health_step (Ev_timeout online now d) h = MarkTimeout online now d h"
| "health_step (Ev_latency online d) h = RecordLatency online d h"
| "health_step (Ev_rotate now) h = h\<lparr>sh_statsTracker := rotateBucket now (sh_statsTracker h)\<rparr>"
| "health_step Ev_clear h = health_ClearStats h"

definition health_run :: "health_event list \<Rightarrow> ServerHealth \<Rightarrow> ServerHealth" where
  "health_run es h = fold health_step es h"

section \<open>Lemmas\<close>

definition streak_step :: "health_event \<Rightarrow> int \<Rightarrow> int" where
  "streak_step e n = (case e of Ev_success True \<Rightarrow> 0 | Ev_failure True _ _ \<Rightarrow> n + 1 | _ \<Rightarrow> n)"

definition failure_streak :: "health_event list \<Rightarrow> int" where
  "failure_streak es = fold streak_step es 0"

definition sensible :: "UpHealthCheckConfig \<Rightarrow> bool" where
  "sensible cfg \<longleftrightarrow> 0 < uh_FailureThreshold cfg \<and> uh_FailureThreshold cfg \<le> uh_CircuitBreakerThreshold cfg
     \<and> 0 < uh_SuccessThreshold cfg"

definition health_inv :: "ServerHealth \<Rightarrow> bool" where
  "health_inv h \<longleftrightarrow> 0 \<le> sh_consecutiveFailures h \<and> 0 \<le> sh_consecutiveSuccesses h
     \<and> (uh_CircuitBreakerThreshold (sh_config h) \<le> sh_consecutiveFailures h \<longrightarrow> sh_status h = HealthStatusUnhealthy)
     \<and> (sh_status h = HealthStatusHealthy \<longrightarrow> sh_consecutiveFailures h < uh_FailureThreshold (sh_config h))
     \<and> (sh_status h \<noteq> HealthStatusHealthy \<longrightarrow> sh_consecutiveSuccesses h < uh_SuccessThreshold (sh_config h))
     \<and> sh_consecutiveRecoveryAttempts h = (if sh_status h = HealthStatusUnhealthy then 1 else 0)
     \<and> (sh_status h = HealthStatusUnhealthy \<longrightarrow> sh_circuitBreakerStartTime h \<noteq> None)"

lemmas health_step_defs = MarkSuccess_def MarkFailure_def MarkTimeout_def RecordLatency_def
  health_ClearStats_def Let_def

lemma health_step_config [simp]: "sh_config (health_step e h) = sh_config h"
  by (cases e) (auto simp: health_step_defs)

lemma health_run_simps [simp]: "health_run [] h = h" "health_run (e # es) h = health_run es (health_step e h)"
  "health_run (es @ fs) h = health_run fs (health_run es h)"
  by (simp_all add: health_run_def)

lemma health_run_config [simp]: "sh_config (health_run es h) = sh_config h"
  by (induction es arbitrary: h) auto

lemma health_inv_New [simp]:
  "sensible cfg \<Longrightarrow> health_inv (NewServerHealth now a (Some cfg) sc) \<and> sh_config (NewServerHealth now a (Some cfg) sc) = cfg
    \<and> sh_consecutiveFailures (NewServerHealth now a (Some cfg) sc) = 0"
  by (simp add: health_inv_def NewServerHealth_def sensible_def Let_def)

lemma health_step_inv: "sensible (sh_config h) \<Longrightarrow> health_inv h \<Longrightarrow> health_inv (health_step e h)"
  by (cases e) (auto simp: health_inv_def sensible_def health_step_defs split: if_splits)

lemma health_run_inv: "sensible (sh_config h) \<Longrightarrow> health_inv h \<Longrightarrow> health_inv (health_run es h)"
  by (induction es arbitrary: h) (auto simp: health_step_inv)

lemma streak_of_step: "sh_consecutiveFailures (health_step e h) = streak_step e (sh_consecutiveFailures h)"
  by (cases e) (auto simp: streak_step_def health_step_defs split: bool.splits)

lemma streak_of_run: "sh_consecutiveFailures (health_run es h) = fold streak_step es (sh_consecutiveFailures h)"
  by (induction es arbitrary: h) (auto simp: streak_of_step)

definition is_success :: "health_event \<Rightarrow> bool" where
  "is_success e = (case e of Ev_success online \<Rightarrow> online | _ \<Rightarrow> False)"

text \<open>While a server is unhealthy nothing but successes changes the state of its circuit.\<close>

lemma unhealthy_step:
  assumes "health_inv h" "sh_status h = HealthStatusUnhealthy" "\<not> is_success e"
  shows "sh_status (health_step e h) = HealthStatusUnhealthy
    \<and> sh_circuitBreakerStartTime (health_step e h) = sh_circuitBreakerStartTime h
    \<and> sh_consecutiveRecoveryAttempts (health_step e h) = sh_consecutiveRecoveryAttempts h"
  using assms by (cases e) (auto simp: health_step_defs is_success_def)

lemma unhealthy_run:
  "sensible (sh_config h) \<Longrightarrow> health_inv h \<Longrightarrow> sh_status h = HealthStatusUnhealthy \<Longrightarrow> list_all (\<lambda>e. \<not> is_success e) es \<Longrightarrow>
   sh_status (health_run es h) = HealthStatusUnhealthy
    \<and> sh_circuitBreakerStartTime (health_run es h) = sh_circuitBreakerStartTime h
    \<and> sh_consecutiveRecoveryAttempts (health_run es h) = sh_consecutiveRecoveryAttempts h"
proof (induction es arbitrary: h)
  case (Cons e es)
  have e: "\<not> is_success e" and es: "list_all (\<lambda>e. \<not> is_success e) es" using Cons.prems by auto
  note u = unhealthy_step[OF Cons.prems(2,3) e]
  have "health_inv (health_step e h)" "sensible (sh_config (health_step e h))"
    using Cons.prems by (simp_all add: health_step_inv)
  from Cons.IH[OF this(2,1) _ es] u show ?case by simp
qed simp

text \<open>Successes in a row close it.\<close>

lemma successes_close:
  "sh_status h \<noteq> HealthStatusHealthy \<Longrightarrow> 0 \<le> sh_consecutiveSuccesses h \<Longrightarrow>
   uh_SuccessThreshold (sh_config h) \<le> sh_consecutiveSuccesses h + int n \<Longrightarrow> 0 < n \<Longrightarrow>
   sh_status (health_run (replicate n (Ev_success True)) h) = HealthStatusHealthy"
proof (induction n arbitrary: h)
  case (Suc n)
  let ?h = "health_step (Ev_success True) h"
  have healthy: "sh_status g = HealthStatusHealthy \<Longrightarrow>
      sh_status (health_run (replicate m (Ev_success True)) g) = HealthStatusHealthy" for g m
    by (induction m arbitrary: g) (auto simp: MarkSuccess_def Let_def)
  show ?case
  proof (cases "sh_status ?h = HealthStatusHealthy")
    case False
    then have "sh_consecutiveSuccesses ?h = sh_consecutiveSuccesses h + 1"
      "sh_consecutiveSuccesses h + 1 < uh_SuccessThreshold (sh_config h)"
      using Suc.prems by (auto simp: MarkSuccess_def Let_def split: if_splits)
    then have "0 < n" "uh_SuccessThreshold (sh_config ?h) \<le> sh_consecutiveSuccesses ?h + int n"
      using Suc.prems by (auto simp del: health_step.simps)
    then show ?thesis using Suc.IH[of ?h] Suc.prems False
      \<open>sh_consecutiveSuccesses ?h = _\<close> by (simp del: health_step.simps)
  qed (use healthy in simp)
qed simp

lemma backoff_one: "sh_consecutiveRecoveryAttempts h = 1 \<Longrightarrow> backoffDuration h = 20 * second"
  by (simp add: backoffDuration_def second_def)

section \<open>Properties\<close>

text \<open>C12: In every run of a server's health (queries that succeed, fail or time out, clearing, rotation)
  with sensible thresholds, the counter of failures is the number of failures recorded since the last
  recorded success, the circuit is open whenever that number has reached the breaker threshold, a
  healthy server is below the degradation threshold, fewer successes than the success threshold have
  accumulated while it is not healthy, and the attempt counter of the back-off is one in an open
  circuit and zero otherwise.\<close>

theorem ServerHealth_counts_failures:
  assumes "sensible cfg" "h = health_run es (NewServerHealth now a (Some cfg) sc)"
  shows "sh_consecutiveFailures h = failure_streak es
    \<and> (uh_CircuitBreakerThreshold cfg \<le> failure_streak es \<longrightarrow> sh_status h = HealthStatusUnhealthy)
    \<and> (sh_status h = HealthStatusHealthy \<longrightarrow> failure_streak es < uh_FailureThreshold cfg)
    \<and> (sh_status h \<noteq> HealthStatusHealthy \<longrightarrow> sh_consecutiveSuccesses h < uh_SuccessThreshold cfg)
    \<and> sh_consecutiveRecoveryAttempts h = (if sh_status h = HealthStatusUnhealthy then 1 else 0)"
proof -
  have "health_inv h" using assms health_inv_New[OF assms(1)] by (simp add: health_run_inv)
  moreover have "sh_consecutiveFailures h = failure_streak es" "sh_config h = cfg"
    using assms by (simp_all add: streak_of_run failure_streak_def)
  ultimately show ?thesis by (simp add: health_inv_def)
qed

theorem ServerHealth_counts_failures_witness:
  "sh_status (health_run (replicate 4 (Ev_failure True 0 0) @ [Ev_timeout True 0 0, Ev_failure True 1 1])
     (NewServerHealth 0 ''9.9.9.9'' (Some DefaultHealthCheckConfig) None)) = HealthStatusUnhealthy"
  using ServerHealth_counts_failures[OF _ refl, of DefaultHealthCheckConfig
      "replicate 4 (Ev_failure True 0 0) @ [Ev_timeout True 0 0, Ev_failure True 1 1]" 0 "''9.9.9.9''" None]
  by (simp add: sensible_def DefaultHealthCheckConfig_def failure_streak_def streak_step_def
      numeral_eq_Suc)

text \<open>The back-off of an open circuit does not grow: whatever failures, timeouts and measurements
  follow, the server is skipped exactly during the first 20 seconds after the circuit opened, and
  every later query goes to it again although each one fails. Only successes, as many in a row as the
  threshold says, close the circuit.\<close>

theorem circuit_backoff_constant:
  assumes "sensible cfg" "h = health_run es (NewServerHealth now a (Some cfg) sc)"
    "sh_status h = HealthStatusUnhealthy" "list_all (\<lambda>e. \<not> is_success e) fs"
  shows "(\<exists>t. sh_circuitBreakerStartTime h = Some t
      \<and> (\<forall>later. ShouldSkipTemporarily later (health_run fs h) \<longleftrightarrow> later - t < 20 * second))
    \<and> sh_status (health_run fs h) = HealthStatusUnhealthy
    \<and> sh_status (health_run (replicate (nat (uh_SuccessThreshold cfg)) (Ev_success True)) h) = HealthStatusHealthy"
proof -
  have inv: "health_inv h" and cfg: "sh_config h = cfg"
    using assms health_inv_New[OF assms(1)] by (simp_all add: health_run_inv)
  obtain t where t: "sh_circuitBreakerStartTime h = Some t" and one: "sh_consecutiveRecoveryAttempts h = 1"
    using inv assms(3) by (auto simp: health_inv_def)
  note u = unhealthy_run[OF _ inv assms(3,4)]
  have "ShouldSkipTemporarily later (health_run fs h) \<longleftrightarrow> later - t < 20 * second" for later
    using u t one cfg assms(1) backoff_one[of "health_run fs h"]
    by (simp add: ShouldSkipTemporarily_def since_def)
  moreover have "sh_status (health_run (replicate (nat (uh_SuccessThreshold cfg)) (Ev_success True)) h)
      = HealthStatusHealthy"
    by (rule successes_close) (use inv assms(1,3) cfg in \<open>auto simp: health_inv_def sensible_def\<close>)
  ultimately show ?thesis using u t cfg assms(1) by simp
qed

theorem circuit_backoff_constant_witness:
  "\<not> ShouldSkipTemporarily (21 * second) (health_run (replicate 3 (Ev_failure True (20 * second) (20 * second)))
     (health_run (replicate 5 (Ev_failure True 0 0)) (NewServerHealth 0 ''9.9.9.9'' (Some DefaultHealthCheckConfig) (Some (1440, 1)))))"
proof -
  let ?h = "health_run (replicate 5 (Ev_failure True 0 0)) (NewServerHealth 0 ''9.9.9.9'' (Some DefaultHealthCheckConfig) (Some (1440, 1)))"
  let ?fs = "replicate 3 (Ev_failure True (20 * second) (20 * second))"
  have "sensible DefaultHealthCheckConfig" "list_all (\<lambda>e. \<not> is_success e) ?fs"
    by (simp_all add: sensible_def DefaultHealthCheckConfig_def list_all_iff is_success_def)
  moreover have "sh_status ?h = HealthStatusUnhealthy \<and> sh_circuitBreakerStartTime ?h = Some 0"
    by code_simp
  ultimately have "\<exists>t. Some 0 = Some t
      \<and> (\<forall>later. ShouldSkipTemporarily later (health_run ?fs ?h) \<longleftrightarrow> later - t < 20 * second)"
    using circuit_backoff_constant[OF _ refl, of DefaultHealthCheckConfig "replicate 5 (Ev_failure True 0 0)" 0
        "''9.9.9.9''" "Some (1440, 1)" ?fs] by metis
  then show ?thesis by (auto simp: time_defs)
qed

end
