(* ===== verification/Upstream_Base.thy ===== *)
theory Upstream_Base
  imports Health Cache_Entries
begin

text \<open>What the query strategies of \<open>src/upstream/\<close> share: errors, results, the reduction of a reply
  (\<open>manager_utils.go\<close>), the health-aware server (\<open>health_aware.go\<close>), the manager with its
  self-tuning (\<open>manager.go\<close>, \<open>manager_auto.go\<close>).\<close>

section \<open>Errors and results\<close>

text \<open>Go errors, as far as the program distinguishes them: the three sentinel errors, the errors the
  package formats, and errors of the transports with their text, whether \<open>errors.Is\<close> finds
  \<open>context.DeadlineExceeded\<close> in them, and whether they are a \<open>net.Error\<close>, with the value of
  \<open>Timeout() || Temporary()\<close>.\<close>

datatype go_error =
    DeadlineExceeded
  | Canceled
  | NetworkOffline
  | Err_text string
  | Transport_error string bool "bool option"

fun err_text :: "go_error \<Rightarrow> string" where
  "err_text DeadlineExceeded = ''context deadline exceeded''"
| "err_text Canceled = ''context canceled''"
| "err_text NetworkOffline = ''network offline''"
| "err_text (Err_text s) = s"
| "err_text (Transport_error s _ _) = s"

fun is_deadline :: "go_error \<Rightarrow> bool" where
  "is_deadline DeadlineExceeded = True"
| "is_deadline (Transport_error _ d _) = d"
| "is_deadline _ = False"

definition FormatInt :: "int \<Rightarrow> string" where
  "FormatInt n = (if n < 0 then CHR ''-'' # FormatUint (nat (- n)) else FormatUint (nat n))"

record QueryResultWithTTL =
  qr_Records :: "dnsRR list"
  qr_IPs :: "string list"
  qr_CNAMEs :: "string list"
  qr_TTL :: "32 word"
  qr_AuthenticatedData :: bool
  qr_DnsMsg :: "dnsMsg option"

record QueryResult = QueryResultWithTTL +
  qr_Error :: "go_error option"
  qr_Server :: nat
  qr_Rcode :: int

definition rcode_success :: int where "rcode_success = 0"
definition rcode_servfail :: int where "rcode_servfail = 2"
definition rcode_nxdomain :: int where "rcode_nxdomain = 3"

lemmas rcode_defs [simp] = rcode_success_def rcode_servfail_def rcode_nxdomain_def

section \<open>Reading a reply\<close>

fun record_cname :: "rdata \<Rightarrow> string option" where
  "record_cname (CNAME_rec t) = Some t"
| "record_cname _ = None"

definition ttl_step :: "32 word \<Rightarrow> 32 word \<Rightarrow> 32 word" where
  "ttl_step m ttl = (if m = 0 \<or> ttl < m then ttl else m)"

definition default_ttl :: "32 word \<Rightarrow> 32 word" where
  "default_ttl m = (if m = 0 then 60 else m)"

definition extractRecords :: "dnsMsg \<Rightarrow> dnsRR list \<times> string list \<times> 32 word" where
  "extractRecords msg =
     (msg_Answer msg, List.map_filter (\<lambda>r. record_cname (rr_data r)) (msg_Answer msg),
      default_ttl (foldl ttl_step 0 (map rr_ttl (msg_Answer msg))))"

definition record_ips :: "dnsRR list \<Rightarrow> string list" where
  "record_ips rs = List.map_filter (\<lambda>r. record_ip (rr_data r)) rs"

definition extractIPs :: "dnsMsg \<Rightarrow> string list \<times> string list \<times> 32 word" where
  "extractIPs msg =
     (record_ips (msg_Answer msg), List.map_filter (\<lambda>r. record_cname (rr_data r)) (msg_Answer msg),
      default_ttl (foldl ttl_step 0 (map rr_ttl (filter (\<lambda>r.
        record_ip (rr_data r) \<noteq> None \<or> record_cname (rr_data r) \<noteq> None) (msg_Answer msg)))))"

fun extractNegativeTTL :: "dnsRR list \<Rightarrow> 32 word" where
  "extractNegativeTTL [] = 300"
| "extractNegativeTTL (r # rs) = (case rr_data r of
      SOA_rec soa \<Rightarrow> min (soa_Minttl soa) (rr_ttl r)
    | _ \<Rightarrow> extractNegativeTTL rs)"

definition isDNSError :: "go_error option \<Rightarrow> bool" where
  "isDNSError e = (case e of None \<Rightarrow> False
     | Some x \<Rightarrow> go_Contains (err_text x) ''dns'' \<or> go_Contains (err_text x) ''rcode'')"

definition isDNSNXDomain :: "go_error option \<Rightarrow> bool" where
  "isDNSNXDomain e = (case e of None \<Rightarrow> False
     | Some x \<Rightarrow> go_Contains (err_text x) ''rcode=3'' \<or> go_Contains (err_text x) ''NXDOMAIN'')"

section \<open>Health-aware server\<close>

record HealthAwareUpstream =
  ha_address :: string
  ha_health :: ServerHealth

text \<open>\<open>out\<close> is the outcome of the wrapped \<open>upstream.Exchange\<close> and \<open>latency\<close> the time it took.\<close>

definition aware_Exchange :: "bool \<Rightarrow> duration \<Rightarrow> go_error + dnsMsg \<Rightarrow> HealthAwareUpstream \<Rightarrow>
    (go_error + dnsMsg) \<times> HealthAwareUpstream" where
  "aware_Exchange online latency out srv =
     (if \<not> online then (Inl NetworkOffline, srv)
      else (case out of
          Inl e \<Rightarrow> (Inl e, srv)
        | Inr reply \<Rightarrow> (Inr reply,
            if msg_Rcode reply = rcode_success \<or> msg_Rcode reply = rcode_nxdomain
            then srv\<lparr>ha_health := RecordLatency online latency (ha_health srv)\<rparr> else srv)))"

definition aware_Query :: "bool \<Rightarrow> go_error + dnsMsg \<Rightarrow> go_error + dnsMsg" where
  "aware_Query online out = (if \<not> online then Inl NetworkOffline else out)"

definition RecordServerSuccess :: "bool \<Rightarrow> HealthAwareUpstream \<Rightarrow> HealthAwareUpstream" where
  "RecordServerSuccess online srv = srv\<lparr>ha_health := MarkSuccess online (ha_health srv)\<rparr>"

definition RecordServerError :: "bool \<Rightarrow> instant \<Rightarrow> HealthAwareUpstream \<Rightarrow> HealthAwareUpstream" where
  "RecordServerError online now srv = srv\<lparr>ha_health := MarkFailure online now now (ha_health srv)\<rparr>"

definition RecordServerTimeout :: "bool \<Rightarrow> instant \<Rightarrow> HealthAwareUpstream \<Rightarrow> HealthAwareUpstream" where
  "RecordServerTimeout online now srv = srv\<lparr>ha_health := MarkTimeout online now 0 (ha_health srv)\<rparr>"

section \<open>Manager\<close>

record DynamicParamOptimization =
  dp_ewmaAlpha :: rat
  dp_maxStepMs :: int
  dp_avgLatency :: duration
  dp_latencyMean :: rat
  dp_latencyM2 :: rat
  dp_latencyN :: int
  dp_adjustmentCount :: int

record StrategyStats =
  st_totalLatency :: duration
  st_requestCount :: int
  st_avgLatency :: duration
  st_errorCount :: int
  st_errorRate :: rat
  st_successCount :: int
  st_successRate :: rat
  st_mean :: rat
  st_m2 :: rat

definition zero_strategy :: StrategyStats where
  "zero_strategy = \<lparr>st_totalLatency = 0, st_requestCount = 0, st_avgLatency = 0, st_errorCount = 0,
     st_errorRate = 0, st_successCount = 0, st_successRate = 0, st_mean = 0, st_m2 = 0\<rparr>"

record Manager =
  um_servers :: "HealthAwareUpstream list"
  um_strategy :: string
  um_timeoutMs :: int
  um_concurrency :: int
  um_racingDelayMs :: int
  um_racingMaxConcurrent :: int
  um_sequentialTimeoutMs :: int
  um_hasCallback :: bool
  um_dyn :: DynamicParamOptimization
  um_strategyStats :: "(string \<times> StrategyStats) list"
  um_activeTierSize :: nat
  um_fallbackTimeout :: duration
  um_batchSize :: nat
  um_staggerDelay :: duration
  um_totalCollectTimeout :: duration

definition selectInitialStrategy :: "string \<Rightarrow> int \<Rightarrow> string" where
  "selectInitialStrategy cfgStrategy numServers =
     (if cfgStrategy = '''' \<or> cfgStrategy = ''auto''
      then (if numServers \<le> 1 then ''sequential'' else if numServers \<le> 3 then ''racing'' else ''parallel'')
      else cfgStrategy)"

definition derefOrDefault :: "'a option \<Rightarrow> 'a \<Rightarrow> 'a" where
  "derefOrDefault ptr defaultValue = (case ptr of Some v \<Rightarrow> v | None \<Rightarrow> defaultValue)"

definition NewManager :: "instant \<Rightarrow> int \<Rightarrow> UpstreamConfig \<Rightarrow> string list \<Rightarrow> (int \<times> int) option \<Rightarrow> Manager" where
  "NewManager now numCPU cfg addresses statsConfig =
     (let numServers = int (length addresses);
          timeoutMs = (if up_TimeoutMs cfg \<le> 0 then 5000 else up_TimeoutMs cfg);
          conc = derefOrDefault (up_Concurrency cfg) (numCPU * 10);
          racing = derefOrDefault (up_RacingMaxConcurrent cfg) numServers;
          racing1 = (if racing < 2 then 2 else racing)
      in \<lparr>um_servers = map (\<lambda>a. \<lparr>ha_address = a,
              ha_health = NewServerHealth now a (Some (convertConfigHealthCheck (up_HealthCheck cfg))) statsConfig\<rparr>) addresses,
          um_strategy = selectInitialStrategy (up_Strategy cfg) numServers, um_timeoutMs = timeoutMs,
          um_concurrency = (if conc < numServers then numServers else conc),
          um_racingDelayMs = derefOrDefault (up_RacingDelay cfg) 100,
          um_racingMaxConcurrent = (if racing1 > numServers then numServers else racing1),
          um_sequentialTimeoutMs = derefOrDefault (up_SequentialTimeout cfg) 1000, um_hasCallback = False,
          um_dyn = \<lparr>dp_ewmaAlpha = derefOrDefault (dpo_EWMAAlpha (up_DynamicParamOptimization cfg)) (1 / 5),
            dp_maxStepMs = derefOrDefault (dpo_MaxStepMs (up_DynamicParamOptimization cfg)) 10,
            dp_avgLatency = 200 * millisecond, dp_latencyMean = 0, dp_latencyM2 = 0, dp_latencyN = 0,
            dp_adjustmentCount = 0\<rparr>,
          um_strategyStats = map (\<lambda>s. (s, zero_strategy)) [''sequential'', ''parallel'', ''racing'', ''random''],
          um_activeTierSize = 2, um_fallbackTimeout = 300 * millisecond, um_batchSize = 2,
          um_staggerDelay = 50 * millisecond, um_totalCollectTimeout = 3 * second\<rparr>)"

definition SetCacheUpdateCallback :: "Manager \<Rightarrow> Manager" where
  "SetCacheUpdateCallback u = u\<lparr>um_hasCallback := True\<rparr>"

definition on_server :: "(HealthAwareUpstream \<Rightarrow> HealthAwareUpstream) \<Rightarrow> nat \<Rightarrow> Manager \<Rightarrow> Manager" where
  "on_server f i u = u\<lparr>um_servers := (um_servers u)[i := f (um_servers u ! i)]\<rparr>"

definition server_skipped :: "instant \<Rightarrow> nat \<Rightarrow> Manager \<Rightarrow> bool" where
  "server_skipped now i u = ShouldSkipTemporarily now (ha_health (um_servers u ! i))"

definition server_latency :: "Manager \<Rightarrow> nat \<Rightarrow> duration" where
  "server_latency u i = sh_latency (ha_health (um_servers u ! i))"

definition GetHealthyServerCount :: "instant \<Rightarrow> Manager \<Rightarrow> nat" where
  "GetHealthyServerCount now u = length (filter (\<lambda>i. \<not> server_skipped now i u) [0..<length (um_servers u)])"

definition getSortedHealthyServers :: "instant \<Rightarrow> Manager \<Rightarrow> nat list" where
  "getSortedHealthyServers now u =
     (let healthy = filter (\<lambda>i. \<not> server_skipped now i u) [0..<length (um_servers u)];
          unhealthy = filter (\<lambda>i. server_skipped now i u) [0..<length (um_servers u)]
      in go_sort_slice (\<lambda>i j. server_latency u i < server_latency u j) healthy @ unhealthy)"

definition min_latency_server :: "instant \<Rightarrow> Manager \<Rightarrow> nat option" where
  "min_latency_server now u = fst (foldl (\<lambda>(sel, best) i.
       if server_skipped now i u then (sel, best)
       else if server_latency u i < best then (Some i, server_latency u i) else (sel, best))
     (None, 2 ^ 63 - 1) [0..<length (um_servers u)])"

definition SelectServerByLatency :: "instant \<Rightarrow> Manager \<Rightarrow> nat option" where
  "SelectServerByLatency now u = (case min_latency_server now u of
       Some i \<Rightarrow> Some i
     | None \<Rightarrow> if um_servers u \<noteq> [] then Some 0 else None)"

definition CalculateServerWeight :: "HealthAwareUpstream option \<Rightarrow> rat" where
  "CalculateServerWeight server = (case server of None \<Rightarrow> 0
     | Some s \<Rightarrow>
        (let errorRate = (case sh_status (ha_health s) of HealthStatusHealthy \<Rightarrow> 0
              | HealthStatusDegraded \<Rightarrow> 3 / 10 | HealthStatusUnhealthy \<Rightarrow> 1)
         in (1 - errorRate) / (of_int (go_div (sh_latency (ha_health s)) millisecond) + 1)))"

definition manager_ClearStats :: "Manager \<Rightarrow> Manager" where
  "manager_ClearStats u =
     u\<lparr>um_servers := map (\<lambda>s. s\<lparr>ha_health := health_ClearStats (ha_health s)\<rparr>) (um_servers u)\<rparr>"

end
