(* ===== verification/Upstream_Tuning.thy ===== *)
theory Upstream_Tuning
  imports Upstream_Base
begin

text \<open>The self-tuning of the upstream manager (\<open>src/upstream/manager_auto.go\<close>): smoothed latency and
  its variance by Welford's algorithm, the delays and timeouts derived from them, the statistics of
  the query strategies and the choice of a strategy. Floating-point numbers are exact rationals;
  \<open>math.Sqrt\<close> appears only truncated to an integer and is the integer square root.\<close>

section \<open>Latency\<close>

definition welford_add :: "rat \<Rightarrow> int \<Rightarrow> rat \<times> rat \<Rightarrow> rat \<times> rat" where
  "welford_add x n ms =
     (if n = 1 then (x, 0)
      else (let delta = x - fst ms; mean = fst ms + delta / of_int n; delta2 = x - mean
            in (mean, snd ms + delta * delta2)))"

definition RecordQueryLatency :: "duration \<Rightarrow> Manager \<Rightarrow> Manager" where
  "RecordQueryLatency latency u =
     (let d = um_dyn u;
          d1 = d\<lparr>dp_avgLatency := ewma (dp_ewmaAlpha d) latency (dp_avgLatency d),
                 dp_latencyN := dp_latencyN d + 1\<rparr>;
          latencyMs = of_int (go_div latency millisecond);
          (mean, m2) = welford_add latencyMs (dp_latencyN d1) (dp_latencyMean d1, dp_latencyM2 d1);
          d2 = d1\<lparr>dp_latencyMean := mean, dp_latencyM2 := m2\<rparr>;
          d3 = (if 500 < dp_latencyN d2
                then d2\<lparr>dp_latencyN := go_div (dp_latencyN d2) 2, dp_latencyM2 := dp_latencyM2 d2 / 2\<rparr> else d2)
      in u\<lparr>um_dyn := d3\<rparr>)"

fun isqrt :: "nat \<Rightarrow> nat" where
  "isqrt n = (if n = 0 then 0
     else (let r = 2 * isqrt (n div 4) in if (r + 1) * (r + 1) \<le> n then r + 1 else r))"

declare isqrt.simps [simp del]

definition GetAverageLatency :: "Manager \<Rightarrow> duration" where
  "GetAverageLatency u = dp_avgLatency (um_dyn u)"

definition GetLatencyStdDev :: "Manager \<Rightarrow> duration" where
  "GetLatencyStdDev u =
     (if dp_latencyN (um_dyn u) < 2 then 0
      else int (isqrt (nat (floor (dp_latencyM2 (um_dyn u) / of_int (dp_latencyN (um_dyn u)))))) * millisecond)"

definition GetAdaptiveRacingDelay :: "Manager \<Rightarrow> duration" where
  "GetAdaptiveRacingDelay u =
     (let baseDelay = (if 0 < um_racingDelayMs u then um_racingDelayMs u * millisecond else GetAverageLatency u);
          adjustedDelay = baseDelay - go_trunc (1 / 2 * of_int (GetLatencyStdDev u))
      in max (20 * millisecond) (min adjustedDelay (200 * millisecond)))"

definition GetAdaptiveSequentialTimeout :: "Manager \<Rightarrow> duration" where
  "GetAdaptiveSequentialTimeout u =
     max (500 * millisecond) (min (go_trunc (of_int (GetAverageLatency u) * (3 / 2))) (2 * second))"

section \<open>Strategies\<close>

definition strategy_decay :: "StrategyStats \<Rightarrow> StrategyStats" where
  "strategy_decay s =
     (if 200 < st_requestCount s
      then s\<lparr>st_totalLatency := go_div (st_totalLatency s) 2, st_m2 := st_m2 s / 2,
             st_requestCount := go_div (st_requestCount s) 2, st_successCount := go_div (st_successCount s) 2,
             st_errorCount := go_div (st_errorCount s) 2\<rparr>
      else s)"

definition strategy_add :: "duration \<Rightarrow> bool \<Rightarrow> StrategyStats \<Rightarrow> StrategyStats" where
  "strategy_add latency success s0 =
     (let s = strategy_decay s0;
          s1 = s\<lparr>st_totalLatency := st_totalLatency s + latency, st_requestCount := st_requestCount s + 1\<rparr>;
          (mean, m2) = welford_add (of_int (go_div latency millisecond)) (st_requestCount s1) (st_mean s1, st_m2 s1);
          s2 = s1\<lparr>st_mean := mean, st_m2 := m2\<rparr>
      in if success then s2\<lparr>st_successCount := st_successCount s2 + 1\<rparr>
         else s2\<lparr>st_errorCount := st_errorCount s2 + 1\<rparr>)"

definition RecordStrategyResult :: "bool \<Rightarrow> string \<Rightarrow> duration \<Rightarrow> bool \<Rightarrow> Manager \<Rightarrow> Manager" where
  "RecordStrategyResult online strategy latency success u =
     (if um_servers u \<noteq> [] \<and> \<not> online then u
      else u\<lparr>um_strategyStats := upsert strategy zero_strategy (strategy_add latency success) (um_strategyStats u)\<rparr>)"

definition valid_strategies :: "Manager \<Rightarrow> StrategyStats list" where
  "valid_strategies u = filter (\<lambda>s. 10 \<le> st_requestCount s) (map snd (um_strategyStats u))"

definition variance_of :: "StrategyStats \<Rightarrow> rat" where
  "variance_of s = st_m2 s / of_int (st_requestCount s)"

definition SelectOptimalStrategy :: "Manager \<Rightarrow> string" where
  "SelectOptimalStrategy u =
     (if um_strategy u \<noteq> ''auto'' then um_strategy u
      else (let vs = valid_strategies u; n = length (um_servers u) in
        if vs = [] then selectInitialStrategy ''auto'' (int n)
        else (let maxVariance = foldl (\<lambda>m s. if variance_of s > m then variance_of s else m) 0 vs;
                  avgLatencyMs = sum_list (map st_mean vs) / of_nat (length vs);
                  successRate = sum_list (map (\<lambda>s. of_int (st_successCount s) / of_int (st_requestCount s)) vs)
                                / of_nat (length vs) :: rat;
                  isJittery = (2500 < maxVariance)
              in if (successRate :: rat) < 88 / 100 then ''parallel''
                 else if \<not> isJittery \<and> avgLatencyMs < 150 then ''sequential''
                 else if 5000 < maxVariance then ''parallel''
                 else if isJittery \<or> 400 < avgLatencyMs then ''parallel''
                 else if 3 < n then ''parallel'' else ''racing'')))"

definition evaluate_strategy :: "StrategyStats \<Rightarrow> StrategyStats" where
  "evaluate_strategy s =
     (if 0 < st_requestCount s
      then (let er = of_int (st_errorCount s) / of_int (st_requestCount s)
            in s\<lparr>st_avgLatency := go_div (st_totalLatency s) (st_requestCount s), st_errorRate := er,
                 st_successRate := 1 - er\<rparr>)
      else s)"

definition EvaluateStrategyPerformance :: "Manager \<Rightarrow> Manager" where
  "EvaluateStrategyPerformance u =
     u\<lparr>um_strategyStats := map (\<lambda>(k, s). (k, evaluate_strategy s)) (um_strategyStats u)\<rparr>"

definition GetStrategyMetrics :: "Manager \<Rightarrow> (string \<times> int \<times> int \<times> int \<times> rat \<times> rat \<times> rat) list" where
  "GetStrategyMetrics u = map (\<lambda>(k, s). (k, st_requestCount s, st_successCount s, st_errorCount s,
        of_int (go_div (st_totalLatency s) millisecond) / of_int (st_requestCount s),
        of_int (st_successCount s) / of_int (st_requestCount s), st_errorRate s))
     (filter (\<lambda>(k, s). st_requestCount s \<noteq> 0) (um_strategyStats u))"

definition GetPerformanceMetrics :: "Manager \<Rightarrow> int \<times> int \<times> rat \<times> rat \<times> rat" where
  "GetPerformanceMetrics u =
     (let totalRequests = sum_values st_requestCount (um_strategyStats u);
          totalErrors = sum_values st_errorCount (um_strategyStats u);
          totalLatency = sum_values st_totalLatency (um_strategyStats u);
          avgLatency = (if 0 < totalRequests then of_int (go_div totalLatency millisecond) / of_int totalRequests else 0);
          errorRate = (if 0 < totalRequests then of_int totalErrors / of_int totalRequests * 100 else 0)
      in (totalRequests, totalErrors, avgLatency, errorRate, 100 - errorRate))"

section \<open>Welford's algorithm\<close>

text \<open>What the online algorithm keeps: the mean, and the sum of squares less the square of the mean.\<close>

definition moments :: "rat list \<Rightarrow> rat \<times> rat \<Rightarrow> bool" where
  "moments xs ms \<longleftrightarrow> fst ms * of_nat (length xs) = sum_list xs
     \<and> snd ms = (\<Sum>x\<leftarrow>xs. x * x) - of_nat (length xs) * (fst ms * fst ms)"

lemma welford_step:
  assumes "moments xs ms" "xs \<noteq> []"
  shows "moments (xs @ [x]) (welford_add x (int (Suc (length xs))) ms)"
proof -
  define n :: rat where "n = of_nat (length xs) + 1"
  define \<mu> where "\<mu> = fst ms"
  define \<mu>' where "\<mu>' = \<mu> + (x - \<mu>) / n"
  have n: "0 < n" unfolding n_def by (simp add: pos_add_strict)
  have w: "welford_add x (int (Suc (length xs))) ms = (\<mu>', snd ms + (x - \<mu>) * (x - \<mu>'))"
    using assms(2) by (simp add: welford_add_def Let_def \<mu>_def \<mu>'_def n_def add.commute)
  have m': "\<mu>' * n = \<mu> * n + (x - \<mu>)" using n by (simp add: \<mu>'_def field_simps)
  have s: "\<mu> * (n - 1) = sum_list xs" "snd ms = (\<Sum>x\<leftarrow>xs. x * x) - (n - 1) * (\<mu> * \<mu>)"
    using assms(1) by (simp_all add: moments_def \<mu>_def n_def)
  have x: "x = \<mu>' * n - \<mu> * (n - 1)" using m' by (simp add: algebra_simps)
  have "\<mu>' * n = sum_list xs + x" using m' s(1) by (simp add: algebra_simps)
  moreover have "snd ms + (x - \<mu>) * (x - \<mu>') = (\<Sum>x\<leftarrow>xs. x * x) + x * x - n * (\<mu>' * \<mu>')"
    unfolding s(2) x by (simp add: algebra_simps)
  ultimately show ?thesis unfolding w moments_def by (simp add: n_def add.commute)
qed

lemma moments_variance:
  assumes "moments xs (\<mu>, m2)"
  shows "m2 = (\<Sum>x\<leftarrow>xs. (x - \<mu>) * (x - \<mu>))"
proof -
  have m: "\<mu> * of_nat (length xs) = sum_list xs"
    "m2 = (\<Sum>x\<leftarrow>xs. x * x) - of_nat (length xs) * (\<mu> * \<mu>)"
    using assms by (simp_all add: moments_def)
  have "(\<Sum>x\<leftarrow>xs. (x - \<mu>) * (x - \<mu>)) =
      (\<Sum>x\<leftarrow>xs. x * x) - 2 * \<mu> * sum_list xs + of_nat (length xs) * (\<mu> * \<mu>)"
    by (induction xs) (simp_all add: algebra_simps)
  also have "\<dots> = m2" unfolding m(1)[symmetric] m(2) by (simp add: algebra_simps)
  finally show ?thesis by simp
qed

definition latency_ms :: "duration \<Rightarrow> rat" where
  "latency_ms l = of_int (go_div l millisecond)"

abbreviation record_latencies :: "duration list \<Rightarrow> Manager \<Rightarrow> Manager" where
  "record_latencies ls u \<equiv> fold RecordQueryLatency ls u"

lemma RecordQueryLatency_small:
  assumes "dp_latencyN (um_dyn u) < 500"
  shows "dp_latencyN (um_dyn (RecordQueryLatency l u)) = dp_latencyN (um_dyn u) + 1
    \<and> (dp_latencyMean (um_dyn (RecordQueryLatency l u)), dp_latencyM2 (um_dyn (RecordQueryLatency l u))) =
       welford_add (latency_ms l) (dp_latencyN (um_dyn u) + 1) (dp_latencyMean (um_dyn u), dp_latencyM2 (um_dyn u))"
  using assms by (simp add: RecordQueryLatency_def Let_def latency_ms_def case_prod_unfold)

lemma record_latencies_moments:
  assumes "dp_latencyN (um_dyn u) = 0" "length ls \<le> 500" "ls \<noteq> []"
  shows "dp_latencyN (um_dyn (record_latencies ls u)) = int (length ls)
    \<and> moments (map latency_ms ls)
        (dp_latencyMean (um_dyn (record_latencies ls u)), dp_latencyM2 (um_dyn (record_latencies ls u)))"
  using assms(2,3)
proof (induction ls rule: rev_induct)
  case (snoc l ls)
  show ?case
  proof (cases "ls = []")
    case True
    then show ?thesis
      using RecordQueryLatency_small[of u l] assms(1) by (simp add: moments_def welford_add_def)
  next
    case False
    let ?u = "record_latencies ls u"
    have ih: "dp_latencyN (um_dyn ?u) = int (length ls)"
      "moments (map latency_ms ls) (dp_latencyMean (um_dyn ?u), dp_latencyM2 (um_dyn ?u))"
      using snoc False by auto
    note r = RecordQueryLatency_small[of ?u l]
    have "int (Suc (length (map latency_ms ls))) = dp_latencyN (um_dyn ?u) + 1" using ih(1) by simp
    then show ?thesis using r ih(1) snoc.prems welford_step[OF ih(2), of "latency_ms l"] False
      by (simp add: add.commute)
  qed
qed simp

lemma isqrt_bounds: "isqrt n * isqrt n \<le> n \<and> n < Suc (isqrt n) * Suc (isqrt n)"
proof (induction n rule: isqrt.induct)
  case (1 n)
  show ?case
  proof (cases "n = 0")
    case False
    let ?r = "isqrt (n div 4)"
    have ih: "?r * ?r \<le> n div 4" "n div 4 < Suc ?r * Suc ?r" using 1 False by auto
    have a: "2 * ?r * (2 * ?r) \<le> n" using ih(1) by linarith
    have "n < 4 * (Suc ?r * Suc ?r)" using ih(2) by linarith
    then have b: "n < Suc (2 * ?r + 1) * Suc (2 * ?r + 1)" by simp
    show ?thesis using a b False by (subst (1 2 3 4) isqrt.simps) (auto simp: Let_def)
  qed (simp add: isqrt.simps)
qed

text \<open>The online computation of the latency statistics is Welford's: after at most 500 recorded
  latencies the stored mean is their average in milliseconds and the stored sum is the sum of squared
  deviations from it, and the standard deviation reported to the racing strategy is the square root
  of the variance, rounded down to a millisecond.\<close>

theorem latency_statistics_exact:
  assumes "dp_latencyN (um_dyn u) = 0" "ls \<noteq> []" "length ls \<le> 500"
    "\<mu> = sum_list (map latency_ms ls) / of_nat (length ls)"
    "v = (\<Sum>l\<leftarrow>ls. (latency_ms l - \<mu>) * (latency_ms l - \<mu>))"
    "\<sigma> = GetLatencyStdDev (record_latencies ls u) div millisecond"
  shows "dp_latencyMean (um_dyn (record_latencies ls u)) = \<mu>
    \<and> dp_latencyM2 (um_dyn (record_latencies ls u)) = v
    \<and> (2 \<le> length ls \<longrightarrow> of_int (\<sigma> * \<sigma>) \<le> v / of_nat (length ls)
        \<and> v / of_nat (length ls) < of_int ((\<sigma> + 1) * (\<sigma> + 1)))"
proof -
  let ?d = "um_dyn (record_latencies ls u)"
  have m: "dp_latencyN ?d = int (length ls)" "moments (map latency_ms ls) (dp_latencyMean ?d, dp_latencyM2 ?d)"
    using record_latencies_moments[OF assms(1,3,2)] by auto
  have mean: "dp_latencyMean ?d = \<mu>"
    using m(2) assms(2) unfolding assms(4) moments_def by (simp add: eq_divide_eq)
  have m2: "dp_latencyM2 ?d = v"
    using moments_variance[OF m(2)] by (simp add: mean assms(5) o_def)
  have "0 \<le> v" unfolding assms(5) by (rule sum_list_nonneg) auto
  define q where "q = v / of_nat (length ls)"
  have q: "0 \<le> q" using \<open>0 \<le> v\<close> by (simp add: q_def)
  have "of_int (\<sigma> * \<sigma>) \<le> q \<and> q < of_int ((\<sigma> + 1) * (\<sigma> + 1))" if "2 \<le> length ls"
  proof -
    let ?k = "nat (floor q)"
    have s: "\<sigma> = int (isqrt ?k)"
      using that m(1) by (simp add: assms(6) GetLatencyStdDev_def m2 q_def millisecond_def)
    have "int (isqrt ?k * isqrt ?k) \<le> floor q" "floor q < int (Suc (isqrt ?k) * Suc (isqrt ?k))"
      using isqrt_bounds[of ?k] q by (simp_all add: le_nat_iff nat_less_iff)
    then have "floor q < (\<sigma> + 1) * (\<sigma> + 1)" "\<sigma> * \<sigma> \<le> floor q" 
      unfolding s by (simp_all add: algebra_simps)
    then show ?thesis by (meson le_floor_iff floor_less_iff)
  qed
  then show ?thesis using mean m2 by (simp add: q_def)
qed

theorem latency_statistics_exact_witness:
  "\<forall>cfg. dp_latencyM2 (um_dyn (record_latencies [10 * millisecond, 30 * millisecond, 20 * millisecond]
     (NewManager 0 4 cfg [] None))) = 200"
proof
  fix cfg
  have "dp_latencyN (um_dyn (NewManager 0 4 cfg [] None)) = 0" by (simp add: NewManager_def Let_def)
  then show "dp_latencyM2 (um_dyn (record_latencies [10 * millisecond, 30 * millisecond, 20 * millisecond]
     (NewManager 0 4 cfg [] None))) = 200"
    using latency_statistics_exact[OF _ _ _ refl refl refl, of "NewManager 0 4 cfg [] None"
        "[10 * millisecond, 30 * millisecond, 20 * millisecond]"]
    by (simp add: latency_ms_def millisecond_def)
qed

end
