(* ===== verification/Upstream_Query.thy ===== *)
theory Upstream_Query
  imports Upstream_Tuning
begin

text \<open>The strategies of \<open>src/upstream/\<close> that try one server after the other, \<open>querySequential\<close> and
  \<open>queryRandom\<close>, and the entry points \<open>rawQuery\<close>, \<open>Query\<close> and \<open>QueryWithPriority\<close> around all
  strategies. The outside world of one query is a record of answers: per server the network checker,
  whether the query's context is done at its turn, the clock, and the outcome of the exchange.\<close>

record query_env =
  qe_online :: "nat \<Rightarrow> bool"
  qe_done :: "nat \<Rightarrow> bool"
  qe_ctxErr :: go_error
  qe_clock :: "nat \<Rightarrow> instant"
  qe_exchange :: "nat \<Rightarrow> go_error + dnsMsg"
  qe_latency :: "nat \<Rightarrow> duration"
  qe_elapsed :: "nat \<Rightarrow> duration"

type_synonym query_outcome = "QueryResultWithTTL option \<times> go_error option"

definition server_exchange :: "query_env \<Rightarrow> nat \<Rightarrow> Manager \<Rightarrow> (go_error + dnsMsg) \<times> Manager" where
  "server_exchange env i u =
     (let (out, srv) = aware_Exchange (qe_online env i) (qe_latency env i) (qe_exchange env i) (um_servers u ! i)
      in (out, u\<lparr>um_servers := (um_servers u)[i := srv]\<rparr>))"

definition RecordSuccess_at :: "query_env \<Rightarrow> nat \<Rightarrow> Manager \<Rightarrow> Manager" where
  "RecordSuccess_at env i = on_server (RecordServerSuccess (qe_online env i)) i"

definition RecordError_at :: "query_env \<Rightarrow> nat \<Rightarrow> Manager \<Rightarrow> Manager" where
  "RecordError_at env i = on_server (RecordServerError (qe_online env i) (qe_clock env i)) i"

definition RecordTimeout_at :: "query_env \<Rightarrow> nat \<Rightarrow> Manager \<Rightarrow> Manager" where
  "RecordTimeout_at env i = on_server (RecordServerTimeout (qe_online env i) (qe_clock env i)) i"

definition nxdomain_result :: "dnsMsg \<Rightarrow> QueryResultWithTTL" where
  "nxdomain_result reply = \<lparr>qr_Records = [], qr_IPs = [], qr_CNAMEs = [],
     qr_TTL = extractNegativeTTL (msg_Ns reply), qr_AuthenticatedData = False, qr_DnsMsg = Some reply\<rparr>"

definition answer_result :: "bool \<Rightarrow> dnsMsg \<Rightarrow> QueryResultWithTTL" where
  "answer_result ad reply = (case extractRecords reply of (records, cnames, ttl) \<Rightarrow>
     \<lparr>qr_Records = records, qr_IPs = record_ips records, qr_CNAMEs = cnames, qr_TTL = ttl,
      qr_AuthenticatedData = ad, qr_DnsMsg = Some reply\<rparr>)"

definition query_failed :: "int \<Rightarrow> go_error" where
  "query_failed rcode = Err_text (''dns query failed: rcode='' @ FormatInt rcode)"

section \<open>Sequential\<close>

definition or_else :: "'a option \<Rightarrow> 'a option \<Rightarrow> 'a option" where
  "or_else a b = (case a of Some _ \<Rightarrow> a | None \<Rightarrow> b)"

fun sequential_loop :: "query_env \<Rightarrow> go_error option \<Rightarrow> go_error option \<Rightarrow> nat list \<Rightarrow> Manager \<Rightarrow>
    query_outcome \<times> Manager" where
  "sequential_loop env primary lastDNS [] u =
     ((None, Some (case or_else lastDNS primary of Some e \<Rightarrow> e | None \<Rightarrow> Err_text ''all upstream servers failed'')), u)"
| "sequential_loop env primary lastDNS (i # is) u =
     (if qe_done env i then ((None, or_else lastDNS (or_else primary (Some (qe_ctxErr env)))), u)
      else if server_skipped (qe_clock env i) i u then sequential_loop env primary lastDNS is u
      else (case server_exchange env i u of
          (Inl err, u1) \<Rightarrow>
            sequential_loop env (or_else primary (Some err)) lastDNS is
              (if is_deadline err then RecordTimeout_at env i u1 else RecordError_at env i u1)
        | (Inr reply, u1) \<Rightarrow>
            if msg_Rcode reply = rcode_nxdomain
            then ((Some (nxdomain_result reply), None), RecordSuccess_at env i u1)
            else if msg_Rcode reply \<noteq> rcode_success
            then sequential_loop env primary (Some (query_failed (msg_Rcode reply))) is (RecordError_at env i u1)
            else if msg_Answer reply = []
            then sequential_loop env primary lastDNS is (RecordError_at env i u1)
            else ((Some (answer_result (msg_AuthenticatedData reply) reply), None),
                  RecordQueryLatency (qe_elapsed env i) (RecordSuccess_at env i u1))))"

definition querySequential :: "instant \<Rightarrow> query_env \<Rightarrow> Manager \<Rightarrow> query_outcome \<times> Manager" where
  "querySequential now env u =
     (if um_servers u = [] then ((None, Some (Err_text ''no upstream servers configured'')), u)
      else sequential_loop env None None (getSortedHealthyServers now u) u)"

section \<open>Random\<close>

text \<open>\<open>order\<close> is the shuffled list of indices.\<close>

fun random_loop :: "query_env \<Rightarrow> QueryResultWithTTL option \<Rightarrow> go_error option \<Rightarrow> nat list \<Rightarrow> Manager \<Rightarrow>
    query_outcome \<times> Manager" where
  "random_loop env lastResult lastErr [] u = ((lastResult, lastErr), u)"
| "random_loop env lastResult lastErr (i # is) u =
     (if server_skipped (qe_clock env i) i u then random_loop env lastResult lastErr is u
      else if qe_done env i then ((lastResult, or_else lastErr (Some (qe_ctxErr env))), u)
      else (case server_exchange env i u of
          (Inl err, u1) \<Rightarrow> random_loop env lastResult (Some err) is (RecordError_at env i u1)
        | (Inr reply, u1) \<Rightarrow>
            if msg_Rcode reply = rcode_nxdomain
            then ((Some (nxdomain_result reply), None),
                  RecordQueryLatency (qe_elapsed env i) (RecordSuccess_at env i u1))
            else if msg_Rcode reply \<noteq> rcode_success
            then random_loop env lastResult (Some (query_failed (msg_Rcode reply))) is (RecordError_at env i u1)
            else if msg_Answer reply = []
            then random_loop env (Some (answer_result False reply))
                   (Some (Err_text ''empty response: no records found'')) is (RecordError_at env i u1)
            else ((Some (answer_result (msg_AuthenticatedData reply) reply), None),
                  RecordQueryLatency (qe_elapsed env i) (RecordSuccess_at env i u1))))"

definition queryRandom :: "(nat list \<Rightarrow> nat list) \<Rightarrow> query_env \<Rightarrow> Manager \<Rightarrow> query_outcome \<times> Manager" where
  "queryRandom shuffle env u =
     (if um_servers u = [] then ((None, Some (Err_text ''no upstream servers configured'')), u)
      else random_loop env None None (shuffle [0..<length (um_servers u)]) u)"

section \<open>Entry points\<close>

text \<open>\<open>par\<close> and \<open>race\<close> are the strategies of the theory on concurrent queries, \<open>online\<close> the network
  checker when the query arrives, \<open>online'\<close> when its result is recorded.\<close>

type_synonym strategy = "Manager \<Rightarrow> query_outcome \<times> Manager"

definition rawQuery :: "strategy \<Rightarrow> strategy \<Rightarrow> strategy \<Rightarrow> strategy \<Rightarrow> bool \<Rightarrow> bool \<Rightarrow> duration \<Rightarrow>
    (string \<times> qtype) list \<Rightarrow> Manager \<Rightarrow> query_outcome \<times> Manager" where
  "rawQuery par seq race rand online online' latency questions u =
     (if questions = [] then ((None, Some (Err_text ''query message has no questions'')), u)
      else if um_servers u \<noteq> [] \<and> \<not> online then ((None, Some NetworkOffline), u)
      else (let optimal = SelectOptimalStrategy u;
                queryStrategy = (if optimal \<noteq> '''' \<and> optimal \<noteq> um_strategy u then optimal else um_strategy u);
                run = (if queryStrategy = ''parallel'' then par
                       else if queryStrategy = ''sequential'' then seq
                       else if queryStrategy = ''racing'' then race else rand);
                ((result, err), u1) = run u
            in ((result, err), RecordStrategyResult online' queryStrategy latency (err = None) u1)))"

text \<open>\<open>Query\<close>: the singleflight group hands the caller what \<open>rawQuery\<close> returned. A nil result in it is
  a typed nil inside the interface, which the check \<open>v == nil\<close> does not catch.\<close>

definition Query :: "query_outcome \<Rightarrow> query_outcome" where
  "Query outcome = (case outcome of (result, err) \<Rightarrow>
     (case err of Some e \<Rightarrow> (None, Some e) | None \<Rightarrow> (result, None)))"

datatype QueryPriority = PriorityHigh | PriorityNormal | PriorityLow

definition priority_timeout :: "QueryPriority \<Rightarrow> Manager \<Rightarrow> duration" where
  "priority_timeout p u = (case p of PriorityHigh \<Rightarrow> go_div (um_timeoutMs u * 3) 4
     | PriorityLow \<Rightarrow> um_timeoutMs u * 2 | PriorityNormal \<Rightarrow> um_timeoutMs u) * millisecond"

section \<open>Trying servers in turn\<close>

text \<open>The attempt at one server as the two loops see it, and whether it ends the loop.\<close>

definition attempt_outcome :: "query_env \<Rightarrow> nat \<Rightarrow> go_error + dnsMsg" where
  "attempt_outcome env i = (if qe_online env i then qe_exchange env i else Inl NetworkOffline)"

definition conclusive :: "query_env \<Rightarrow> nat \<Rightarrow> bool" where
  "conclusive env i = (case attempt_outcome env i of Inl _ \<Rightarrow> False
     | Inr r \<Rightarrow> msg_Rcode r = rcode_nxdomain \<or> msg_Rcode r = rcode_success \<and> msg_Answer r \<noteq> [])"

definition conclusive_result :: "query_env \<Rightarrow> nat \<Rightarrow> QueryResultWithTTL" where
  "conclusive_result env i = (case attempt_outcome env i of
     Inr r \<Rightarrow> if msg_Rcode r = rcode_nxdomain then nxdomain_result r
              else answer_result (msg_AuthenticatedData r) r)"

definition undisturbed :: "query_env \<Rightarrow> bool" where
  "undisturbed env \<longleftrightarrow> (\<forall>i. \<not> qe_done env i)"

text \<open>The prefix of the candidates up to the first conclusive one.\<close>

fun attempted :: "query_env \<Rightarrow> nat list \<Rightarrow> nat list" where
  "attempted env [] = []"
| "attempted env (i # is) = (if conclusive env i then [i] else i # attempted env is)"

definition candidates :: "query_env \<Rightarrow> Manager \<Rightarrow> nat list \<Rightarrow> nat list" where
  "candidates env u is = filter (\<lambda>i. \<not> server_skipped (qe_clock env i) i u) is"

lemma candidates_simps [simp]: "candidates env u [] = []"
  "candidates env u (i # is) =
     (if server_skipped (qe_clock env i) i u then candidates env u is else i # candidates env u is)"
  "set (candidates env u is) \<subseteq> set is"
  by (auto simp: candidates_def)

lemma attempted_subset: "set (attempted env is) \<subseteq> set is"
  by (induction "is") auto

lemma on_server_simps [simp]:
  "length (um_servers (on_server f i u)) = length (um_servers u)"
  "i \<noteq> j \<Longrightarrow> um_servers (on_server f i u) ! j = um_servers u ! j"
  "i < length (um_servers u) \<Longrightarrow> um_servers (on_server f i u) ! i = f (um_servers u ! i)"
  by (simp_all add: on_server_def)

lemma candidates_on_server:
  "i \<notin> set is \<Longrightarrow> candidates env (on_server f i u) is = candidates env u is"
  by (induction "is") (auto simp: server_skipped_def)

text \<open>What a strategy that tries servers one by one promises: a skipped server changes nothing, a
  conclusive attempt ends the loop with its result, any other one is noted and judged and the loop
  goes on, and at the end of the list the notes decide.\<close>

locale serial_strategy =
  fixes serial :: "query_env \<Rightarrow> 'acc \<Rightarrow> nat list \<Rightarrow> Manager \<Rightarrow> query_outcome \<times> Manager"
    and judge :: "query_env \<Rightarrow> nat \<Rightarrow> HealthAwareUpstream \<Rightarrow> HealthAwareUpstream"
    and jot :: "query_env \<Rightarrow> nat \<Rightarrow> 'acc \<Rightarrow> 'acc"
    and give_up :: "'acc \<Rightarrow> query_outcome"
  assumes serial_Nil: "undisturbed env \<Longrightarrow> serial env acc [] u = (give_up acc, u)"
    and serial_skip: "undisturbed env \<Longrightarrow> server_skipped (qe_clock env i) i u \<Longrightarrow>
      serial env acc (i # is) u = serial env acc is u"
    and serial_fail: "undisturbed env \<Longrightarrow> \<not> server_skipped (qe_clock env i) i u \<Longrightarrow> \<not> conclusive env i \<Longrightarrow>
      serial env acc (i # is) u = serial env (jot env i acc) is (on_server (judge env i) i u)"
    and serial_answer: "undisturbed env \<Longrightarrow> \<not> server_skipped (qe_clock env i) i u \<Longrightarrow> conclusive env i \<Longrightarrow>
      fst (serial env acc (i # is) u) = (Some (conclusive_result env i), None)
      \<and> um_servers (snd (serial env acc (i # is) u)) = um_servers (on_server (judge env i) i u)"
begin

lemma serial_outcome:
  "undisturbed env \<Longrightarrow> distinct is \<Longrightarrow> set is \<subseteq> {..<length (um_servers u)} \<Longrightarrow>
   fst (serial env acc is u) = (case find (conclusive env) (candidates env u is) of
       Some i \<Rightarrow> (Some (conclusive_result env i), None)
     | None \<Rightarrow> give_up (fold (jot env) (candidates env u is) acc))"
proof (induction "is" arbitrary: acc u)
  case (Cons i "is")
  let ?u = "on_server (judge env i) i u"
  have r: "distinct is" "set is \<subseteq> {..<length (um_servers u)}" "i \<notin> set is" using Cons.prems by auto
  show ?case
    using Cons.IH[of ?u "jot env i acc"] Cons.IH[of u acc] Cons.prems(1) r
    by (cases "server_skipped (qe_clock env i) i u"; cases "conclusive env i")
       (simp_all add: serial_skip serial_fail serial_answer candidates_on_server cong: option.case_cong)
qed (simp add: serial_Nil)

lemma serial_servers:
  "undisturbed env \<Longrightarrow> distinct is \<Longrightarrow> set is \<subseteq> {..<length (um_servers u)} \<Longrightarrow> j < length (um_servers u) \<Longrightarrow>
   um_servers (snd (serial env acc is u)) ! j =
     (if j \<in> set (attempted env (candidates env u is)) then judge env j (um_servers u ! j)
      else um_servers u ! j)"
proof (induction "is" arbitrary: acc u)
  case (Cons i "is")
  let ?u = "on_server (judge env i) i u"
  have r: "distinct is" "set is \<subseteq> {..<length (um_servers u)}" "i \<notin> set is" using Cons.prems by auto
  have "i \<notin> set (attempted env (candidates env u is))"
    using r(3) attempted_subset candidates_simps(3) by blast
  then show ?case
    using Cons.IH[of ?u "jot env i acc"] Cons.IH[of u acc] Cons.prems(1,4) r
    by (cases "server_skipped (qe_clock env i) i u"; cases "conclusive env i"; cases "j = i")
       (simp_all add: serial_skip serial_fail serial_answer candidates_on_server)
qed (simp add: serial_Nil)

end

text \<open>The two strategies.\<close>

definition exchanged :: "query_env \<Rightarrow> nat \<Rightarrow> HealthAwareUpstream \<Rightarrow> HealthAwareUpstream" where
  "exchanged env i srv = snd (aware_Exchange (qe_online env i) (qe_latency env i) (qe_exchange env i) srv)"

definition random_judge :: "query_env \<Rightarrow> nat \<Rightarrow> HealthAwareUpstream \<Rightarrow> HealthAwareUpstream" where
  "random_judge env i srv =
     (if conclusive env i then RecordServerSuccess (qe_online env i) (exchanged env i srv)
      else RecordServerError (qe_online env i) (qe_clock env i) (exchanged env i srv))"

definition sequential_judge :: "query_env \<Rightarrow> nat \<Rightarrow> HealthAwareUpstream \<Rightarrow> HealthAwareUpstream" where
  "sequential_judge env i srv = (case attempt_outcome env i of
      Inl e \<Rightarrow> if is_deadline e then RecordServerTimeout (qe_online env i) (qe_clock env i) (exchanged env i srv)
               else random_judge env i srv
    | Inr _ \<Rightarrow> random_judge env i srv)"

type_synonym seq_notes = "go_error option \<times> go_error option"

fun seq_give_up :: "seq_notes \<Rightarrow> query_outcome" where
  "seq_give_up (primary, lastDNS) =
     (None, Some (case or_else lastDNS primary of Some e \<Rightarrow> e | None \<Rightarrow> Err_text ''all upstream servers failed''))"

fun seq_note :: "query_env \<Rightarrow> nat \<Rightarrow> seq_notes \<Rightarrow> seq_notes" where
  "seq_note env i (primary, lastDNS) = (case attempt_outcome env i of
      Inl e \<Rightarrow> (or_else primary (Some e), lastDNS)
    | Inr r \<Rightarrow> (primary, if msg_Rcode r \<noteq> rcode_success then Some (query_failed (msg_Rcode r)) else lastDNS))"

fun random_note :: "query_env \<Rightarrow> nat \<Rightarrow> query_outcome \<Rightarrow> query_outcome" where
  "random_note env i (lastResult, lastErr) = (case attempt_outcome env i of
      Inl e \<Rightarrow> (lastResult, Some e)
    | Inr r \<Rightarrow> if msg_Rcode r \<noteq> rcode_success then (lastResult, Some (query_failed (msg_Rcode r)))
               else (Some (answer_result False r), Some (Err_text ''empty response: no records found'')))"

lemmas attempt_defs = attempt_outcome_def conclusive_def conclusive_result_def server_exchange_def
  aware_Exchange_def exchanged_def random_judge_def sequential_judge_def RecordSuccess_at_def
  RecordError_at_def RecordTimeout_at_def on_server_def

lemma error_updated [simp]:
  "xs[i := RecordServerError on now (xs[i := a] ! i)] = xs[i := RecordServerError on now a]"
  by (cases "i < length xs") (auto simp: not_less list_update_beyond)

lemma success_updated [simp]:
  "xs[i := RecordServerSuccess on (xs[i := a] ! i)] = xs[i := RecordServerSuccess on a]"
  by (cases "i < length xs") (auto simp: not_less list_update_beyond)

lemma servers_RecordQueryLatency [simp]: "um_servers (RecordQueryLatency l u) = um_servers u"
  by (simp add: RecordQueryLatency_def Let_def case_prod_unfold)

interpretation sequential: serial_strategy "\<lambda>env (p, l) is u. sequential_loop env p l is u"
  sequential_judge seq_note seq_give_up
  by unfold_locales (auto simp: undisturbed_def attempt_defs split: sum.splits if_splits)

interpretation random: serial_strategy "\<lambda>env (r, e) is u. random_loop env r e is u"
  random_judge random_note "\<lambda>x. x"
  by unfold_locales (auto simp: undisturbed_def attempt_defs split: sum.splits if_splits)


section \<open>Properties\<close>

lemma sorted_servers_facts:
  "distinct (getSortedHealthyServers now u)"
  "set (getSortedHealthyServers now u) = {..<length (um_servers u)}"
  by (auto simp: getSortedHealthyServers_def Let_def)

text \<open>The order of the servers: those not skipped, by latency, then the others as configured.\<close>

definition server_order :: "instant \<Rightarrow> Manager \<Rightarrow> nat list \<Rightarrow> bool" where
  "server_order now u order \<longleftrightarrow> mset order = mset [0..<length (um_servers u)]
     \<and> (\<exists>healthy unhealthy. order = healthy @ unhealthy
        \<and> (\<forall>i \<in> set healthy. \<not> server_skipped now i u) \<and> (\<forall>i \<in> set unhealthy. server_skipped now i u)
        \<and> sorted_wrt (\<lambda>i j. server_latency u i \<le> server_latency u j) healthy
        \<and> sorted unhealthy)"

lemma sorted_servers_order: "server_order now u (getSortedHealthyServers now u)"
proof -
  let ?h = "filter (\<lambda>i. \<not> server_skipped now i u) [0..<length (um_servers u)]"
  let ?u = "filter (\<lambda>i. server_skipped now i u) [0..<length (um_servers u)]"
  let ?s = "go_sort_slice (\<lambda>i j. server_latency u i < server_latency u j) ?h"
  have "sorted_wrt (\<lambda>i j. \<not> server_latency u j < server_latency u i) ?s"
    by (rule weak_order.go_sort_slice_sorted[OF weak_order_by_key])
  then have "sorted_wrt (\<lambda>i j. server_latency u i \<le> server_latency u j) ?s" by (simp add: not_less)
  moreover have "mset (getSortedHealthyServers now u) = mset [0..<length (um_servers u)]"
    by (rule iffD1[OF set_eq_iff_mset_eq_distinct]) (auto simp: sorted_servers_facts)
  moreover have "getSortedHealthyServers now u = ?s @ ?u"
    by (simp add: getSortedHealthyServers_def Let_def)
  moreover have "sorted ?u" by (intro sorted_wrt_filter sorted_upt)
  moreover have "\<forall>i \<in> set ?s. \<not> server_skipped now i u" "\<forall>i \<in> set ?u. server_skipped now i u" by auto
  ultimately show ?thesis unfolding server_order_def by blast
qed

text \<open>C8: While its context does not end, \<open>querySequential\<close> goes through all servers, first those not
  skipped when it starts, in the order of their latencies, then the others as configured, leaves out
  those whose circuit is open at their turn, and returns
  the answer of the first one that is conclusive (a name error or a non-empty success); when there is
  none it returns no result and an error. Exactly the servers up to that one are judged: a deadline
  costs latency, every other failure and every empty answer counts as a failure of the server, the
  conclusive answer as a success; the other servers keep their health.\<close>

theorem querySequential_first_conclusive:
  assumes "undisturbed env" "um_servers u \<noteq> []" "querySequential now env u = ((result, err), u')"
    "cs = candidates env u (getSortedHealthyServers now u)"
  shows "server_order now u (getSortedHealthyServers now u)
    \<and> (case find (conclusive env) cs of
        Some i \<Rightarrow> result = Some (conclusive_result env i) \<and> err = None
      | None \<Rightarrow> result = None \<and> err \<noteq> None)
    \<and> (\<forall>j. j < length (um_servers u) \<longrightarrow> um_servers u' ! j =
        (if j \<in> set (attempted env cs) then sequential_judge env j (um_servers u ! j) else um_servers u ! j))"
proof -
  let ?is = "getSortedHealthyServers now u"
  have q: "sequential_loop env None None ?is u = ((result, err), u')"
    using assms(2,3) by (simp add: querySequential_def)
  have "(result, err) = (case find (conclusive env) cs of
        Some i \<Rightarrow> (Some (conclusive_result env i), None)
      | None \<Rightarrow> seq_give_up (fold (seq_note env) cs (None, None)))"
    using sequential.serial_outcome[OF assms(1) sorted_servers_facts(1), of now u u "(None, None)"] q
    unfolding assms(4) by (simp add: sorted_servers_facts)
  then have "(case find (conclusive env) cs of
        Some i \<Rightarrow> result = Some (conclusive_result env i) \<and> err = None
      | None \<Rightarrow> result = None \<and> err \<noteq> None)"
    by (cases "fold (seq_note env) cs (None, None)") (simp split: option.splits)
  moreover have "\<forall>j. j < length (um_servers u) \<longrightarrow> um_servers u' ! j =
        (if j \<in> set (attempted env cs) then sequential_judge env j (um_servers u ! j) else um_servers u ! j)"
    using sequential.serial_servers[OF assms(1) sorted_servers_facts(1), of now u u _ "(None, None)"] q
    unfolding assms(4) by (simp add: sorted_servers_facts)
  ultimately show ?thesis using sorted_servers_order by blast
qed

text \<open>A manager with one server, for the examples.\<close>

definition example_manager :: "HealthStatus \<Rightarrow> Manager" where
  "example_manager st = \<lparr>um_servers = [\<lparr>ha_address = ''9.9.9.9'',
       ha_health = (NewServerHealth 0 ''9.9.9.9'' None (Some (1440, 1)))\<lparr>sh_status := st,
         sh_circuitBreakerStartTime := Some 0, sh_consecutiveRecoveryAttempts := 1\<rparr>\<rparr>],
     um_strategy = ''sequential'', um_timeoutMs = 5000, um_concurrency = 1, um_racingDelayMs = 100,
     um_racingMaxConcurrent = 1, um_sequentialTimeoutMs = 1000, um_hasCallback = False,
     um_dyn = \<lparr>dp_ewmaAlpha = 1 / 5, dp_maxStepMs = 10, dp_avgLatency = 200 * millisecond,
       dp_latencyMean = 0, dp_latencyM2 = 0, dp_latencyN = 0, dp_adjustmentCount = 0\<rparr>,
     um_strategyStats = [], um_activeTierSize = 2, um_fallbackTimeout = 300 * millisecond,
     um_batchSize = 2, um_staggerDelay = 50 * millisecond, um_totalCollectTimeout = 3 * second\<rparr>"

definition example_env :: "go_error + dnsMsg \<Rightarrow> query_env" where
  "example_env out = \<lparr>qe_online = (\<lambda>_. True), qe_done = (\<lambda>_. False), qe_ctxErr = DeadlineExceeded,
     qe_clock = (\<lambda>_. 1), qe_exchange = (\<lambda>_. out), qe_latency = (\<lambda>_. millisecond),
     qe_elapsed = (\<lambda>_. millisecond)\<rparr>"

definition example_nxdomain :: dnsMsg where
  "example_nxdomain = \<lparr>msg_Question = [(''a.'', 1)], msg_Rcode = 3, msg_AuthenticatedData = False,
     msg_Answer = [], msg_Ns = [], msg_Extra = []\<rparr>"

lemma example_env_undisturbed [simp]: "undisturbed (example_env out)"
  by (simp add: undisturbed_def example_env_def)

lemma example_manager_servers [simp]:
  "um_servers (example_manager st) \<noteq> []" "length (um_servers (example_manager st)) = 1"
  by (simp_all add: example_manager_def)

theorem querySequential_first_conclusive_witness:
  "fst (fst (querySequential 1 (example_env (Inr example_nxdomain)) (example_manager HealthStatusHealthy)))
     = Some (nxdomain_result example_nxdomain)"
proof -
  let ?e = "example_env (Inr example_nxdomain)" and ?m = "example_manager HealthStatusHealthy"
  obtain r err u' where q: "querySequential 1 ?e ?m = ((r, err), u')" by (metis surj_pair)
  have f: "find (conclusive ?e) (candidates ?e ?m (getSortedHealthyServers 1 ?m)) = Some 0"
    by code_simp
  have "conclusive_result ?e 0 = nxdomain_result example_nxdomain"
    by (simp add: attempt_defs example_env_def example_nxdomain_def)
  then show ?thesis
    using querySequential_first_conclusive[OF example_env_undisturbed example_manager_servers(1) q refl] f q
    by simp
qed

lemma random_note_error: "snd (random_note env i x) \<noteq> None"
  by (cases x) (simp split: sum.splits)

lemma shuffled:
  assumes "\<And>xs. mset (shuffle xs) = mset xs"
  shows "distinct (shuffle [0..<n])" "set (shuffle [0..<n]) = {..<n}"
  using mset_eq_imp_distinct_iff[OF assms, of "[0..<n]"] mset_eq_setD[OF assms, of "[0..<n]"]
  by (simp_all add: atLeast0LessThan)

lemma random_notes_error: "cs \<noteq> [] \<Longrightarrow> snd (fold (random_note env) cs n) \<noteq> None"
  by (cases cs rule: rev_cases) (simp_all add: random_note_error)

lemma Query_simps [simp]: "Query (r, Some e) = (None, Some e)" "Query (r, None) = (r, None)"
  by (simp_all add: Query_def)

lemma candidates_empty:
  "set is = {..<length (um_servers u)} \<Longrightarrow> candidates env u is = [] \<longleftrightarrow>
    (\<forall>i. i < length (um_servers u) \<longrightarrow> server_skipped (qe_clock env i) i u)"
  unfolding candidates_def filter_empty_conv by auto

text \<open>C30: \<open>queryRandom\<close> takes any permutation of the servers and returns, like \<open>querySequential\<close>, the
  answer of the first conclusive one among those not skipped. With no conclusive one it fails with an
  error, except when the circuits of all servers are open: then it returns neither a result nor an
  error, and \<open>Query\<close> hands this nil pointer to its caller as a success.\<close>

theorem queryRandom_nil_iff_all_skipped:
  assumes "undisturbed env" "um_servers u \<noteq> []" "\<And>xs. mset (shuffle xs) = mset xs"
    "queryRandom shuffle env u = (outcome, u')"
    "cs = candidates env u (shuffle [0..<length (um_servers u)])"
  shows "(Query outcome = (None, None) \<longleftrightarrow>
        (\<forall>i. i < length (um_servers u) \<longrightarrow> server_skipped (qe_clock env i) i u))
    \<and> (case find (conclusive env) cs of
        Some i \<Rightarrow> Query outcome = (Some (conclusive_result env i), None)
      | None \<Rightarrow> fst (Query outcome) = None \<and> (cs \<noteq> [] \<longrightarrow> snd (Query outcome) \<noteq> None))"
proof -
  let ?is = "shuffle [0..<length (um_servers u)]"
  note d = shuffled[of shuffle "length (um_servers u)", OF assms(3)]
  have "random_loop env None None ?is u = (outcome, u')" using assms(2,4) by (simp add: queryRandom_def)
  then have o: "outcome = (case find (conclusive env) cs of
        Some i \<Rightarrow> (Some (conclusive_result env i), None)
      | None \<Rightarrow> fold (random_note env) cs (None, None))"
    using random.serial_outcome[OF assms(1) d(1), of u "(None, None)"] d(2) unfolding assms(5) by simp
  note e = candidates_empty[OF d(2), of env, folded assms(5)]
  show ?thesis
  proof (cases "find (conclusive env) cs")
    case None
    show ?thesis
    proof (cases "cs = []")
      case False
      then obtain r x where "fold (random_note env) cs (None, None) = (r, Some x)"
        using random_notes_error by (metis option.exhaust prod.collapse)
      then show ?thesis using o None False unfolding e[symmetric] by simp
    qed (use o None in \<open>unfold e[symmetric], simp\<close>)
  next
    case (Some j)
    then have "cs \<noteq> []" by auto
    then show ?thesis using o Some unfolding e[symmetric] by simp
  qed
qed

theorem queryRandom_nil_iff_all_skipped_witness:
  "Query (fst (queryRandom (\<lambda>xs. xs) (example_env (Inr example_nxdomain)) (example_manager HealthStatusUnhealthy)))
     = (None, None)"
proof -
  let ?e = "example_env (Inr example_nxdomain)" and ?m = "example_manager HealthStatusUnhealthy"
  obtain out u' where q: "queryRandom (\<lambda>xs. xs) ?e ?m = (out, u')" by (metis surj_pair)
  have s: "server_skipped 1 0 ?m"
    by code_simp
  show ?thesis
    using queryRandom_nil_iff_all_skipped[OF example_env_undisturbed example_manager_servers(1) _ q refl] s q
    by (simp add: example_env_def less_Suc_eq)
qed

end
