(* ===== verification/Upstream_Concurrent.thy ===== *)
theory Upstream_Concurrent
  imports Upstream_Query
begin

text \<open>The strategies of \<open>src/upstream/\<close> that query servers concurrently: \<open>queryParallel\<close> with
  \<open>collectRemainingResponses\<close> (\<open>manager_parallel.go\<close>) and \<open>queryRacing\<close> (\<open>manager_racing.go\<close>). A
  query is a state that events change: an exchange that returns, a timer that fires, a context that
  ends, the main goroutine that runs. Every interleaving of the goroutines is a list of events. The
  exchange event carries what the wrapped server returned; network checker, clock and latency come
  from the record of the world.\<close>

section \<open>One exchange\<close>

definition do_exchange :: "query_env \<Rightarrow> nat \<Rightarrow> go_error + dnsMsg \<Rightarrow> Manager \<Rightarrow> (go_error + dnsMsg) \<times> Manager" where
  "do_exchange env i out u =
     (let (res, srv) = aware_Exchange (qe_online env i) (qe_latency env i) out (um_servers u ! i)
      in (res, u\<lparr>um_servers := (um_servers u)[i := srv]\<rparr>))"

section \<open>Parallel\<close>

datatype par_event =
    Par_reply nat "go_error + dnsMsg"
  | Par_main
  | Par_fallback
  | Par_stagger
  | Par_ctx_done
  | Par_timeout

datatype par_phase = Par_first | Par_second | Par_drain | Par_returned query_outcome

record par_state =
  ps_manager :: Manager
  ps_running :: "nat list"
  ps_pending :: "nat list"
  ps_background :: bool
  ps_cancelled :: bool
  ps_results :: "QueryResult list"
  ps_fastChan :: "QueryResult option"
  ps_fast :: "QueryResult option"
  ps_phase :: par_phase

definition failed_result :: "nat \<Rightarrow> go_error \<Rightarrow> int \<Rightarrow> QueryResult" where
  "failed_result i err rcode = \<lparr>qr_Records = [], qr_IPs = [], qr_CNAMEs = [], qr_TTL = 0,
     qr_AuthenticatedData = False, qr_DnsMsg = None, qr_Error = Some err, qr_Server = i, qr_Rcode = rcode\<rparr>"

definition par_result :: "nat \<Rightarrow> go_error + dnsMsg \<Rightarrow> QueryResult" where
  "par_result i res = (case res of
      Inl err \<Rightarrow> failed_result i err 0
    | Inr reply \<Rightarrow>
        if msg_Rcode reply \<noteq> rcode_success
        then failed_result i (Err_text (''dns error rcode='' @ FormatInt (msg_Rcode reply))) (msg_Rcode reply)
        else QueryResultWithTTL.extend (answer_result (msg_AuthenticatedData reply) reply)
               \<lparr>qr_Error = None, qr_Server = i, qr_Rcode = msg_Rcode reply\<rparr>)"

definition launch_batch :: "par_state \<Rightarrow> par_state" where
  "launch_batch s =
     (let n = um_batchSize (ps_manager s)
      in s\<lparr>ps_running := ps_running s @ take n (ps_pending s), ps_pending := drop n (ps_pending s),
           ps_background := True\<rparr>)"

definition start_parallel :: "instant \<Rightarrow> Manager \<Rightarrow> par_state" where
  "start_parallel now u =
     (let sortedServers = getSortedHealthyServers now u; n = um_activeTierSize u
      in \<lparr>ps_manager = u, ps_running = take n sortedServers, ps_pending = drop n sortedServers,
          ps_background = False, ps_cancelled = False, ps_results = [], ps_fastChan = None,
          ps_fast = None,
          ps_phase = (if sortedServers = []
            then Par_returned (None, Some (Err_text ''no healthy upstream servers configured'')) else Par_first)\<rparr>)"

definition is_fast :: "QueryResult \<Rightarrow> bool" where
  "is_fast r \<longleftrightarrow> qr_Error r = None \<and> (qr_IPs r \<noteq> [] \<or> qr_CNAMEs r \<noteq> [])"

text \<open>The main goroutine returns: the deferred \<open>cancelAll\<close> ends the context of all exchanges. Taking the
  fast response before the fallback timer it has just started the background tier, whose first batch
  then runs on the ended context.\<close>

definition par_return :: "query_outcome \<Rightarrow> par_state \<Rightarrow> par_state" where
  "par_return out s = s\<lparr>ps_phase := Par_returned out, ps_cancelled := True\<rparr>"

definition first_error_of :: "QueryResult list \<Rightarrow> go_error" where
  "first_error_of rs = (case List.map_filter qr_Error rs of
      e # _ \<Rightarrow> e | [] \<Rightarrow> Err_text ''all parallel tiers failed to provide valid response'')"

definition par_take_fast :: "query_env \<Rightarrow> QueryResult \<Rightarrow> par_state \<Rightarrow> par_state" where
  "par_take_fast env r s =
     (let s1 = (if ps_phase s = Par_first then launch_batch s else s)
      in par_return (Some (QueryResultWithTTL.truncate r), None)
           (s1\<lparr>ps_fast := Some r, ps_manager := RecordQueryLatency (qe_elapsed env (qr_Server r)) (ps_manager s1)\<rparr>))"

text \<open>What the goroutine of server \<open>i\<close> does when its exchange returns: judge the server, and, unless the
  context has ended, send the result; the first usable one also goes to the channel of the main
  goroutine.\<close>

definition par_reply :: "query_env \<Rightarrow> nat \<Rightarrow> go_error + dnsMsg \<Rightarrow> par_state \<Rightarrow> par_state" where
  "par_reply env i out s =
     (let (res, u1) = do_exchange env i out (ps_manager s);
          r = par_result i res;
          u2 = (if qr_Error r = None then RecordSuccess_at env i u1 else RecordError_at env i u1);
          s1 = s\<lparr>ps_manager := u2, ps_running := remove1 i (ps_running s)\<rparr>
      in if ps_cancelled s then s1
         else s1\<lparr>ps_results := ps_results s1 @ [r],
                 ps_fastChan := (if is_fast r \<and> ps_fastChan s1 = None then Some r else ps_fastChan s1)\<rparr>)"

text \<open>The main goroutine: its two selects, and waiting for all goroutines at the end.\<close>

definition par_main :: "query_env \<Rightarrow> par_state \<Rightarrow> par_state" where
  "par_main env s = (case ps_phase s of
      Par_returned _ \<Rightarrow> s
    | Par_drain \<Rightarrow> if ps_running s = [] then par_return (None, Some (first_error_of (ps_results s))) s else s
    | _ \<Rightarrow> (case ps_fastChan s of None \<Rightarrow> s | Some r \<Rightarrow> par_take_fast env r s))"

definition par_step :: "query_env \<Rightarrow> par_event \<Rightarrow> par_state \<Rightarrow> par_state" where
  "par_step env ev s = (case ev of
      Par_reply i out \<Rightarrow> if i \<in> set (ps_running s) then par_reply env i out s else s
    | Par_main \<Rightarrow> par_main env s
    | Par_fallback \<Rightarrow> if ps_phase s = Par_first then (launch_batch s)\<lparr>ps_phase := Par_second\<rparr> else s
    | Par_stagger \<Rightarrow> if ps_background s \<and> \<not> ps_cancelled s then launch_batch s else s
    | Par_ctx_done \<Rightarrow> if ps_phase s = Par_first \<or> ps_phase s = Par_second
                     then par_return (None, Some (qe_ctxErr env)) s else s
    | Par_timeout \<Rightarrow> if ps_phase s = Par_second then s\<lparr>ps_phase := Par_drain, ps_cancelled := True\<rparr> else s)"

definition parallel_run :: "query_env \<Rightarrow> par_event list \<Rightarrow> instant \<Rightarrow> Manager \<Rightarrow> par_state" where
  "parallel_run env evs now u = fold (par_step env) evs (start_parallel now u)"

text \<open>The result of the strategy; \<open>None\<close> while the caller still waits.\<close>

definition par_outcome :: "par_state \<Rightarrow> query_outcome option" where
  "par_outcome s = (case ps_phase s of Par_returned out \<Rightarrow> Some out | _ \<Rightarrow> None)"

subsection \<open>Completing in the background\<close>

datatype merge_key = Key_ip string | Key_cname string | Key_other string

text \<open>\<open>rr_String\<close> is \<open>String()\<close> of a record of the DNS library. The three sets of the code are one set
  of tagged keys.\<close>

definition merge_key_of :: "(dnsRR \<Rightarrow> string) \<Rightarrow> dnsRR \<Rightarrow> merge_key" where
  "merge_key_of rr_String rr = (case rr_data rr of
      A_rec ip \<Rightarrow> Key_ip ip | AAAA_rec ip \<Rightarrow> Key_ip ip | CNAME_rec t \<Rightarrow> Key_cname t | _ \<Rightarrow> Key_other (rr_String rr))"

definition mergeAndDeduplicateRecords :: "(dnsRR \<Rightarrow> string) \<Rightarrow> QueryResult list \<Rightarrow> dnsRR list" where
  "mergeAndDeduplicateRecords rr_String results =
     keep_first (merge_key_of rr_String) {} (concat (map qr_Records results))"

definition gathered :: "QueryResult \<Rightarrow> QueryResult list \<Rightarrow> QueryResult list" where
  "gathered fast results = fast # filter (\<lambda>r. qr_Error r = None \<and> qr_Server r \<noteq> qr_Server fast) results"

text \<open>The call of the cache update callback with merged records, CNAMEs and TTL, when there is one. The
  results in the channel are those sent before the context ended; the fast response is among them
  and is recognised by its pointer, here by its server.\<close>

definition collectRemainingResponses :: "(dnsRR \<Rightarrow> string) \<Rightarrow> par_state \<Rightarrow>
    (dnsRR list \<times> string list \<times> 32 word) option" where
  "collectRemainingResponses rr_String s = (case ps_fast s of
      None \<Rightarrow> None
    | Some fast \<Rightarrow>
       (let all = gathered fast (ps_results s);
            minTTL = foldl (\<lambda>m r. if qr_TTL r < m then qr_TTL r else m) (qr_TTL fast) all
        in if length all \<le> 1 \<or> \<not> um_hasCallback (ps_manager s) then None
           else Some (mergeAndDeduplicateRecords rr_String all, qr_CNAMEs fast, minTTL)))"

section \<open>Racing\<close>

text \<open>\<open>contains\<close> and \<open>toLower\<close> of the package, and the classification of errors that lets the backups
  start early.\<close>

definition byte_toLower :: "char \<Rightarrow> char" where
  "byte_toLower b =
     (if 65 \<le> (of_char b :: nat) \<and> (of_char b :: nat) \<le> 90 then char_of ((of_char b :: nat) + 32) else b)"

definition fold_contains :: "string \<Rightarrow> string \<Rightarrow> bool" where
  "fold_contains s sub \<longleftrightarrow> (\<exists>i \<in> set [0..<Suc (length s)]. i + length sub \<le> length s \<and>
     map byte_toLower (take (length sub) (drop i s)) = map byte_toLower sub)"

definition networkKeywords :: "string list" where
  "networkKeywords = [''connection refused'', ''connection reset'', ''connection timeout'', ''i/o timeout'',
     ''no such host'', ''network unreachable'', ''host unreachable'', ''broken pipe'']"

text \<open>\<open>context.DeadlineExceeded\<close> is itself a \<open>net.Error\<close> with \<open>Timeout()\<close>.\<close>

fun isNetworkError :: "go_error \<Rightarrow> bool" where
  "isNetworkError DeadlineExceeded = True"
| "isNetworkError (Transport_error _ _ (Some b)) = b"
| "isNetworkError e = list_ex (fold_contains (err_text e)) networkKeywords"

definition calculateRacingBatchParams :: "nat \<Rightarrow> duration \<Rightarrow> nat \<times> duration" where
  "calculateRacingBatchParams remainingCount stdDev =
     (let (b, st) = (if 50 * millisecond < stdDev then (3, 15 * millisecond) else (2, 20 * millisecond))
      in (if 5 < remainingCount then min (b + 1) 4 else b, st))"

definition shouldSkipServerInRacing :: "HealthAwareUpstream \<Rightarrow> bool" where
  "shouldSkipServerInRacing srv \<longleftrightarrow> sh_status (ha_health srv) = HealthStatusUnhealthy"

datatype race_event =
    Race_reply nat "go_error + dnsMsg" bool
  | Race_delay
  | Race_stagger
  | Race_main_result
  | Race_main_done
  | Race_ctx_done

datatype race_phase = Race_waiting | Race_draining | Race_returned query_outcome

record race_state =
  rs_manager :: Manager
  rs_primary :: nat
  rs_batch :: nat
  rs_running :: "nat list"
  rs_pending :: "nat list"
  rs_started :: bool
  rs_winner :: "(nat \<times> QueryResultWithTTL) option"
  rs_errors :: "go_error list"
  rs_cancelled :: bool
  rs_ctxErr :: "go_error option"
  rs_phase :: race_phase

definition start_racing :: "instant \<Rightarrow> Manager \<Rightarrow> race_state" where
  "start_racing now u = (case getSortedHealthyServers now u of
      [] \<Rightarrow> \<lparr>rs_manager = u, rs_primary = 0, rs_batch = 1, rs_running = [], rs_pending = [], rs_started = False,
            rs_winner = None, rs_errors = [], rs_cancelled = False, rs_ctxErr = None,
            rs_phase = Race_returned (None, Some (Err_text ''no healthy upstream servers configured''))\<rparr>
    | i # remaining \<Rightarrow>
         \<lparr>rs_manager = u, rs_primary = i,
          rs_batch = fst (calculateRacingBatchParams (length remaining) (GetLatencyStdDev u)),
          rs_running = [i], rs_pending = take (nat (um_racingMaxConcurrent u - 1)) remaining,
          rs_started = False, rs_winner = None, rs_errors = [], rs_cancelled = False, rs_ctxErr = None,
          rs_phase = Race_waiting\<rparr>)"

text \<open>One round of the goroutine that starts the backups; unhealthy servers of the batch are passed over.\<close>

definition race_launch :: "race_state \<Rightarrow> race_state" where
  "race_launch s = s\<lparr>rs_started := True,
     rs_running := rs_running s @ filter (\<lambda>i. \<not> shouldSkipServerInRacing (um_servers (rs_manager s) ! i))
                                       (take (rs_batch s) (rs_pending s)),
     rs_pending := drop (rs_batch s) (rs_pending s)\<rparr>"

text \<open>Once the context has ended, the select that sends the error has two ready cases; \<open>sent\<close> says
  whether it is sent.\<close>

definition race_fail :: "query_env \<Rightarrow> nat \<Rightarrow> bool \<Rightarrow> go_error \<Rightarrow> race_state \<Rightarrow> race_state" where
  "race_fail env i sent err s = s\<lparr>rs_manager := RecordError_at env i (rs_manager s),
     rs_errors := rs_errors s @ (if sent \<or> \<not> rs_cancelled s then [err] else [])\<rparr>"

definition race_answer :: "dnsMsg \<Rightarrow> QueryResultWithTTL" where
  "race_answer reply =
     (if msg_Rcode reply = rcode_success then answer_result (msg_AuthenticatedData reply) reply
      else (nxdomain_result reply)\<lparr>qr_AuthenticatedData := msg_AuthenticatedData reply\<rparr>)"

definition race_reply :: "query_env \<Rightarrow> nat \<Rightarrow> go_error + dnsMsg \<Rightarrow> bool \<Rightarrow> race_state \<Rightarrow> race_state" where
  "race_reply env i out sent s =
     (let (res, u1) = do_exchange env i out (rs_manager s);
          s1 = s\<lparr>rs_manager := u1, rs_running := remove1 i (rs_running s)\<rparr>
      in (case res of
          Inl err \<Rightarrow>
            (let s2 = (if i = rs_primary s \<and> isNetworkError err \<and> \<not> rs_started s \<and> \<not> rs_cancelled s
                       then race_launch s1 else s1)
             in race_fail env i sent err s2)
        | Inr reply \<Rightarrow>
            if msg_Rcode reply = rcode_success \<or> msg_Rcode reply = rcode_nxdomain
            then (if rs_winner s = None
                  then s1\<lparr>rs_winner := Some (i, race_answer reply), rs_manager := RecordSuccess_at env i u1,
                          rs_cancelled := True\<rparr>
                  else s1)
            else race_fail env i sent (Err_text (''dns rcode='' @ FormatInt (msg_Rcode reply))) s1))"

text \<open>The select of the main goroutine has two ready cases once there is a winner, since the winner also
  cancels the context: it may take the result or wait for everyone and look at the errors.\<close>

definition race_step :: "query_env \<Rightarrow> race_event \<Rightarrow> race_state \<Rightarrow> race_state" where
  "race_step env ev s = (case ev of
      Race_reply i out sent \<Rightarrow> if i \<in> set (rs_running s) then race_reply env i out sent s else s
    | Race_delay \<Rightarrow> if \<not> rs_started s \<and> \<not> rs_cancelled s \<and> rs_phase s = Race_waiting then race_launch s else s
    | Race_stagger \<Rightarrow> if rs_started s \<and> \<not> rs_cancelled s then race_launch s else s
    | Race_main_result \<Rightarrow> (case rs_winner s of
          Some (i, r) \<Rightarrow> if rs_phase s = Race_waiting
             then s\<lparr>rs_phase := Race_returned (Some r, None), rs_cancelled := True,
                    rs_manager := RecordQueryLatency (qe_elapsed env i) (rs_manager s)\<rparr> else s
        | None \<Rightarrow> s)
    | Race_main_done \<Rightarrow>
        if rs_phase s = Race_waiting \<and> rs_cancelled s then s\<lparr>rs_phase := Race_draining\<rparr>
        else if rs_phase s = Race_draining \<and> rs_running s = []
        then s\<lparr>rs_phase := Race_returned (None, case rs_errors s of [] \<Rightarrow> rs_ctxErr s | es \<Rightarrow> Some (last es))\<rparr>
        else s
    | Race_ctx_done \<Rightarrow> s\<lparr>rs_cancelled := True,
        rs_ctxErr := (if rs_ctxErr s = None then Some (qe_ctxErr env) else rs_ctxErr s)\<rparr>)"

definition racing_run :: "query_env \<Rightarrow> race_event list \<Rightarrow> instant \<Rightarrow> Manager \<Rightarrow> race_state" where
  "racing_run env evs now u = fold (race_step env) evs (start_racing now u)"

definition race_outcome :: "race_state \<Rightarrow> query_outcome option" where
  "race_outcome s = (case rs_phase s of Race_returned out \<Rightarrow> Some out | _ \<Rightarrow> None)"

section \<open>Parallel: lemmas\<close>

definition usable_reply :: "query_env \<Rightarrow> par_event set \<Rightarrow> QueryResult \<Rightarrow> bool" where
  "usable_reply env E r \<longleftrightarrow> (\<exists>i reply. Par_reply i (Inr reply) \<in> E \<and> qe_online env i
     \<and> msg_Rcode reply = rcode_success \<and> r = par_result i (Inr reply) \<and> is_fast r)"

definition par_inv :: "query_env \<Rightarrow> par_event set \<Rightarrow> par_state \<Rightarrow> bool" where
  "par_inv env E s \<longleftrightarrow> (\<forall>r. ps_fastChan s = Some r \<longrightarrow> usable_reply env E r)
     \<and> (\<forall>r. ps_fast s = Some r \<longrightarrow> usable_reply env E r)
     \<and> (case ps_phase s of Par_returned (Some q, e) \<Rightarrow> e = None \<and> (\<exists>r. usable_reply env E r \<and> q = QueryResultWithTTL.truncate r)
        | Par_returned (None, e) \<Rightarrow> e \<noteq> None | _ \<Rightarrow> True)"

lemma do_exchange_out: "fst (do_exchange env i out u) = (if qe_online env i then out else Inl NetworkOffline)"
  by (simp add: do_exchange_def aware_Exchange_def split: sum.splits)

lemma par_result_fast:
  "is_fast (par_result i res) \<Longrightarrow> \<exists>reply. res = Inr reply \<and> msg_Rcode reply = rcode_success"
  by (cases res) (auto simp: par_result_def is_fast_def failed_result_def split: if_splits)

lemma launch_batch_simps [simp]:
  "ps_fastChan (launch_batch s) = ps_fastChan s" "ps_fast (launch_batch s) = ps_fast s"
  "ps_phase (launch_batch s) = ps_phase s" "ps_results (launch_batch s) = ps_results s"
  "ps_cancelled (launch_batch s) = ps_cancelled s" "ps_manager (launch_batch s) = ps_manager s"
  by (simp_all add: launch_batch_def Let_def)

lemma par_reply_simps [simp]:
  "ps_fast (par_reply env i out s) = ps_fast s" "ps_phase (par_reply env i out s) = ps_phase s"
  "ps_cancelled (par_reply env i out s) = ps_cancelled s"
  "ps_cancelled s \<Longrightarrow> ps_results (par_reply env i out s) = ps_results s"
  by (simp_all add: par_reply_def Let_def case_prod_unfold)

lemma par_reply_fastChan:
  "ps_fastChan (par_reply env i out s) = Some r \<Longrightarrow> Par_reply i out \<in> E \<Longrightarrow>
   ps_fastChan s = Some r \<or> usable_reply env E r"
  using par_result_fast[of i "fst (do_exchange env i out (ps_manager s))"]
  by (auto simp: par_reply_def Let_def case_prod_unfold usable_reply_def do_exchange_out split: if_splits)

lemma par_step_inv:
  assumes "par_inv env E s" "ev \<in> E"
  shows "par_inv env E (par_step env ev s)"
proof (cases ev)
  case (Par_reply i out)
  then show ?thesis using assms par_reply_fastChan[of env i out s _ E]
    by (auto simp: par_step_def par_inv_def)
next
  case Par_main
  then show ?thesis using assms
    by (auto simp: par_step_def par_main_def par_inv_def par_take_fast_def par_return_def Let_def
        split: par_phase.splits option.splits)
qed (use assms in \<open>auto simp: par_step_def par_inv_def par_return_def split: par_phase.splits option.splits prod.splits\<close>)

lemma par_run_inv: "par_inv env E s \<Longrightarrow> set evs \<subseteq> E \<Longrightarrow> par_inv env E (fold (par_step env) evs s)"
  by (induction evs arbitrary: s) (auto simp: par_step_inv)

lemma par_start_inv: "par_inv env E (start_parallel now u)"
  by (simp add: par_inv_def start_parallel_def Let_def)

text \<open>Without a usable reply nothing but a deadline ends the wait.\<close>

definition par_stuck :: "par_state \<Rightarrow> bool" where
  "par_stuck s \<longleftrightarrow> ps_fastChan s = None \<and> (ps_phase s = Par_first \<or> ps_phase s = Par_second)"

lemma par_step_stuck:
  assumes "par_stuck s" "ev \<notin> {Par_ctx_done, Par_timeout}" "\<And>r. \<not> usable_reply env E r" "ev \<in> E"
  shows "par_stuck (par_step env ev s)"
proof (cases ev)
  case (Par_reply i out)
  then show ?thesis using assms par_reply_fastChan[of env i out s _ E]
    by (auto simp: par_step_def par_stuck_def) (metis option.distinct(1) option.exhaust)+
qed (use assms in \<open>auto simp: par_step_def par_main_def par_stuck_def split: par_phase.splits option.splits\<close>)

lemma par_run_stuck:
  "par_stuck s \<Longrightarrow> set evs \<inter> {Par_ctx_done, Par_timeout} = {} \<Longrightarrow> (\<And>r. \<not> usable_reply env E r) \<Longrightarrow> set evs \<subseteq> E \<Longrightarrow>
   par_stuck (fold (par_step env) evs s)"
  by (induction evs arbitrary: s) (auto simp: par_step_stuck[where E = E])

text \<open>After the return nothing enters the channel of results.\<close>

definition returned_same :: "par_state \<Rightarrow> par_state \<Rightarrow> bool" where
  "returned_same s s' \<longleftrightarrow> ps_cancelled s' \<and> ps_results s' = ps_results s \<and> ps_fast s' = ps_fast s
     \<and> ps_phase s' = ps_phase s \<and> um_hasCallback (ps_manager s') = um_hasCallback (ps_manager s)"

lemma hasCallback_simps [simp]:
  "um_hasCallback (on_server f i u) = um_hasCallback u"
  "um_hasCallback (snd (do_exchange env i out u)) = um_hasCallback u"
  by (simp_all add: on_server_def do_exchange_def Let_def case_prod_unfold)

lemma par_reply_callback [simp]:
  "um_hasCallback (ps_manager (par_reply env i out s)) = um_hasCallback (ps_manager s)"
  by (simp add: par_reply_def Let_def case_prod_unfold RecordSuccess_at_def RecordError_at_def)

lemma par_step_returned:
  "ps_phase s = Par_returned out \<Longrightarrow> returned_same s s' \<Longrightarrow> returned_same s (par_step env ev s')"
  by (cases ev) (auto simp: returned_same_def par_step_def par_main_def)

lemma par_run_returned:
  "ps_phase s = Par_returned out \<Longrightarrow> returned_same s s' \<Longrightarrow> returned_same s (fold (par_step env) evs s')"
  by (induction evs arbitrary: s') (auto simp: par_step_returned)

lemma returned_cancelled: "ps_phase (fold (par_step env) evs s) = Par_returned out \<Longrightarrow>
   ps_phase s = Par_first \<Longrightarrow> ps_cancelled (fold (par_step env) evs s)"
proof -
  have "(\<exists>out. ps_phase t = Par_returned out) \<longrightarrow> ps_cancelled t \<Longrightarrow>
    (\<exists>out. ps_phase (fold (par_step env) es t) = Par_returned out) \<longrightarrow> ps_cancelled (fold (par_step env) es t)" for es t
  proof (induction es arbitrary: t)
    case (Cons e es)
    have "(\<exists>out. ps_phase (par_step env e t) = Par_returned out) \<longrightarrow> ps_cancelled (par_step env e t)"
      using Cons.prems by (cases e) (auto simp: par_step_def par_main_def par_return_def par_take_fast_def Let_def
          split: par_phase.splits option.splits)
    then show ?case using Cons.IH by simp
  qed simp
  from this[of s evs] show "ps_phase (fold (par_step env) evs s) = Par_returned out \<Longrightarrow>
   ps_phase s = Par_first \<Longrightarrow> ps_cancelled (fold (par_step env) evs s)" by auto
qed

lemma par_result_truncate [simp]:
  "msg_Rcode reply = rcode_success \<Longrightarrow>
   QueryResultWithTTL.truncate (par_result i (Inr reply)) = answer_result (msg_AuthenticatedData reply) reply"
  by (simp add: par_result_def QueryResultWithTTL.defs answer_result_def extractRecords_def)

lemma par_result_is_fast:
  "is_fast (par_result i (Inr reply)) \<longleftrightarrow> msg_Rcode reply = rcode_success
     \<and> (record_ips (msg_Answer reply) \<noteq> []
         \<or> List.map_filter (\<lambda>r. record_cname (rr_data r)) (msg_Answer reply) \<noteq> [])"
  by (cases "msg_Rcode reply = rcode_success")
    (simp_all add: par_result_def is_fast_def failed_result_def answer_result_def extractRecords_def
      QueryResultWithTTL.defs)

lemma par_outcome_phase [simp]: "par_outcome s = Some out \<longleftrightarrow> ps_phase s = Par_returned out"
  unfolding par_outcome_def by (cases "ps_phase s") auto

lemma start_parallel_first:
  "um_servers u \<noteq> [] \<Longrightarrow> ps_phase (start_parallel now u) = Par_first \<and> ps_fastChan (start_parallel now u) = None"
proof -
  assume "um_servers u \<noteq> []"
  then have "set (getSortedHealthyServers now u) \<noteq> {}"
    unfolding sorted_servers_facts by (simp add: lessThan_empty_iff)
  then show ?thesis by (simp add: start_parallel_def Let_def)
qed

text \<open>C6: Whatever the interleaving of exchanges, timers and deadlines, a result of \<open>queryParallel\<close> is the
  answer of a server that replied without error and with an address or an alias; without a result
  there is an error. As long as no such reply has come in, the caller waits for a deadline: name
  errors and empty answers, even from every server, end nothing.\<close>

theorem queryParallel_outcome:
  assumes "um_servers u \<noteq> []" "s = parallel_run env evs now u"
  shows "(\<forall>q e. par_outcome s = Some (Some q, e) \<longrightarrow> e = None \<and>
      (\<exists>i reply. Par_reply i (Inr reply) \<in> set evs \<and> msg_Rcode reply = rcode_success
        \<and> q = answer_result (msg_AuthenticatedData reply) reply \<and> (qr_IPs q \<noteq> [] \<or> qr_CNAMEs q \<noteq> [])))
    \<and> par_outcome s \<noteq> Some (None, None)
    \<and> ((\<forall>i reply. Par_reply i (Inr reply) \<in> set evs \<longrightarrow> \<not> is_fast (par_result i (Inr reply)))
        \<and> Par_ctx_done \<notin> set evs \<and> Par_timeout \<notin> set evs \<longrightarrow> par_outcome s = None)"
proof (intro conjI allI impI)
  have inv: "par_inv env (set evs) s"
    unfolding assms(2) parallel_run_def by (rule par_run_inv[OF par_start_inv order_refl])
  show "e = None" "\<exists>i reply. Par_reply i (Inr reply) \<in> set evs \<and> msg_Rcode reply = rcode_success
        \<and> q = answer_result (msg_AuthenticatedData reply) reply \<and> (qr_IPs q \<noteq> [] \<or> qr_CNAMEs q \<noteq> [])"
    if out: "par_outcome s = Some (Some q, e)" for q e
  proof -
    obtain r where r: "usable_reply env (set evs) r" "q = QueryResultWithTTL.truncate r" and e: "e = None"
      using inv out by (auto simp: par_inv_def)
    show "e = None" by (rule e)
    obtain i reply where i: "Par_reply i (Inr reply) \<in> set evs" "msg_Rcode reply = rcode_success"
      "q = answer_result (msg_AuthenticatedData reply) reply" "is_fast (par_result i (Inr reply))"
      using r par_result_truncate unfolding usable_reply_def by metis
    moreover have "qr_IPs q \<noteq> [] \<or> qr_CNAMEs q \<noteq> []"
      using i(4) unfolding par_result_is_fast i(3)
      by (simp add: answer_result_def extractRecords_def)
    ultimately show "\<exists>i reply. Par_reply i (Inr reply) \<in> set evs \<and> msg_Rcode reply = rcode_success
        \<and> q = answer_result (msg_AuthenticatedData reply) reply \<and> (qr_IPs q \<noteq> [] \<or> qr_CNAMEs q \<noteq> [])"
      by blast
  qed
  show "par_outcome s \<noteq> Some (None, None)"
    using inv by (auto simp: par_inv_def)
  assume a: "(\<forall>i reply. Par_reply i (Inr reply) \<in> set evs \<longrightarrow> \<not> is_fast (par_result i (Inr reply)))
        \<and> Par_ctx_done \<notin> set evs \<and> Par_timeout \<notin> set evs"
  then have "\<not> usable_reply env (set evs) r" for r by (auto simp: usable_reply_def)
  then have "par_stuck s"
    unfolding assms(2) parallel_run_def using a start_parallel_first[OF assms(1), of now]
    by (intro par_run_stuck[where E = "set evs"]) (auto simp: par_stuck_def)
  then show "par_outcome s = None" by (auto simp: par_stuck_def par_outcome_def)
qed

theorem queryParallel_outcome_witness:
  "par_outcome (parallel_run (example_env (Inr example_nxdomain))
     [Par_reply 0 (Inr example_nxdomain), Par_main, Par_fallback, Par_main] 1 (example_manager HealthStatusHealthy)) = None"
  using queryParallel_outcome[OF example_manager_servers(1) refl,
      of "example_env (Inr example_nxdomain)" "[Par_reply 0 (Inr example_nxdomain), Par_main, Par_fallback, Par_main]" 1 HealthStatusHealthy]
  by (simp add: par_result_is_fast example_nxdomain_def del: par_outcome_phase)

text \<open>The completion of the answer in the background is over when the query returns: whatever replies
  come in afterwards, the merge sees the results that were there at the return, since returning ends
  the context of all exchanges and a goroutine drops its result once the context has ended. What it
  passes on is free of duplicates and covers every record of those results.\<close>

theorem parallel_late_replies_dropped:
  assumes "um_servers u \<noteq> []" "s = parallel_run env evs now u" "par_outcome s = Some out"
  shows "collectRemainingResponses rr_String (fold (par_step env) late s) = collectRemainingResponses rr_String s
    \<and> (\<forall>rs cnames ttl. collectRemainingResponses rr_String s = Some (rs, cnames, ttl) \<longrightarrow>
        (\<exists>fast. ps_fast s = Some fast \<and> distinct (map (merge_key_of rr_String) rs)
            \<and> merge_key_of rr_String ` set rs =
                merge_key_of rr_String ` (\<Union>r \<in> set (gathered fast (ps_results s)). set (qr_Records r))))"
proof (intro conjI allI impI)
  have p: "ps_phase s = Par_returned out" using assms(3) by simp
  have "ps_cancelled s"
    using p start_parallel_first[OF assms(1), of now] returned_cancelled
    unfolding assms(2) parallel_run_def by blast
  then have "returned_same s s" by (simp add: returned_same_def)
  from par_run_returned[OF p this, of env late]
  show "collectRemainingResponses rr_String (fold (par_step env) late s) = collectRemainingResponses rr_String s"
    by (simp add: returned_same_def collectRemainingResponses_def cong: option.case_cong)
next
  fix rs cnames ttl
  assume "collectRemainingResponses rr_String s = Some (rs, cnames, ttl)"
  then obtain fast where "ps_fast s = Some fast"
    "rs = mergeAndDeduplicateRecords rr_String (gathered fast (ps_results s))"
    by (auto simp: collectRemainingResponses_def Let_def split: option.splits if_splits)
  then show "\<exists>fast. ps_fast s = Some fast \<and> distinct (map (merge_key_of rr_String) rs)
            \<and> merge_key_of rr_String ` set rs =
                merge_key_of rr_String ` (\<Union>r \<in> set (gathered fast (ps_results s)). set (qr_Records r))"
    by (auto simp: mergeAndDeduplicateRecords_def keep_first_distinct keep_first_keys)
qed

text \<open>The example: the only server answers, the caller takes the answer; a second reply of the same server
  would be late.\<close>

definition example_answer :: dnsMsg where
  "example_answer = \<lparr>msg_Question = [(''a.'', 1)], msg_Rcode = 0, msg_AuthenticatedData = False,
     msg_Answer = [\<lparr>rr_name = ''a.'', rr_type = 1, rr_ttl = 60, rr_data = A_rec ''192.0.2.1''\<rparr>],
     msg_Ns = [], msg_Extra = []\<rparr>"

theorem parallel_late_replies_dropped_witness:
  "\<forall>late rr_String. collectRemainingResponses rr_String
     (fold (par_step (example_env (Inr example_answer))) late
       (parallel_run (example_env (Inr example_answer)) [Par_reply 0 (Inr example_answer), Par_main] 1
         (example_manager HealthStatusHealthy))) = None"
proof (intro allI)
  fix late rr_String
  let ?e = "example_env (Inr example_answer)"
  let ?s = "parallel_run ?e [Par_reply 0 (Inr example_answer), Par_main] 1 (example_manager HealthStatusHealthy)"
  have o: "par_outcome ?s = Some (Some (answer_result False example_answer), None)"
    and c: "um_hasCallback (ps_manager ?s) = False" by code_simp+
  have "collectRemainingResponses rr_String ?s = None"
    by (simp add: collectRemainingResponses_def c split: option.split)
  then show "collectRemainingResponses rr_String (fold (par_step ?e) late ?s) = None"
    using parallel_late_replies_dropped[OF example_manager_servers(1) refl o] by simp
qed

section \<open>Racing: lemmas and property\<close>

definition race_won :: "query_env \<Rightarrow> race_event set \<Rightarrow> QueryResultWithTTL \<Rightarrow> bool" where
  "race_won env E q \<longleftrightarrow> (\<exists>i reply sent. Race_reply i (Inr reply) sent \<in> E \<and> qe_online env i
     \<and> (msg_Rcode reply = rcode_success \<or> msg_Rcode reply = rcode_nxdomain) \<and> q = race_answer reply)"

definition race_inv :: "query_env \<Rightarrow> race_event set \<Rightarrow> race_state \<Rightarrow> bool" where
  "race_inv env E s \<longleftrightarrow> (\<forall>i q. rs_winner s = Some (i, q) \<longrightarrow> race_won env E q)
     \<and> (rs_cancelled s \<longrightarrow> rs_winner s \<noteq> None \<or> rs_ctxErr s \<noteq> None)
     \<and> (rs_ctxErr s \<noteq> None \<longrightarrow> Race_ctx_done \<in> E)
     \<and> (rs_phase s = Race_draining \<longrightarrow> rs_cancelled s)
     \<and> (case rs_phase s of Race_returned (Some q, e) \<Rightarrow> e = None \<and> race_won env E q
        | Race_returned (None, e) \<Rightarrow> rs_cancelled s | _ \<Rightarrow> True)"

lemma race_launch_simps [simp]:
  "rs_winner (race_launch s) = rs_winner s" "rs_cancelled (race_launch s) = rs_cancelled s"
  "rs_ctxErr (race_launch s) = rs_ctxErr s" "rs_phase (race_launch s) = rs_phase s"
  by (simp_all add: race_launch_def)

lemma race_fail_simps [simp]:
  "rs_winner (race_fail env i sent e s) = rs_winner s" "rs_cancelled (race_fail env i sent e s) = rs_cancelled s"
  "rs_ctxErr (race_fail env i sent e s) = rs_ctxErr s" "rs_phase (race_fail env i sent e s) = rs_phase s"
  by (simp_all add: race_fail_def)

lemma race_reply_simps [simp]:
  "rs_ctxErr (race_reply env i out sent s) = rs_ctxErr s" "rs_phase (race_reply env i out sent s) = rs_phase s"
  by (simp_all add: race_reply_def Let_def case_prod_unfold split: sum.splits)

lemma race_reply_winner:
  "(rs_winner (race_reply env i out sent s), rs_cancelled (race_reply env i out sent s)) =
     (rs_winner s, rs_cancelled s)
   \<or> (\<exists>reply. out = Inr reply \<and> qe_online env i \<and> (msg_Rcode reply = rcode_success \<or> msg_Rcode reply = rcode_nxdomain)
       \<and> rs_winner (race_reply env i out sent s) = Some (i, race_answer reply)
       \<and> rs_cancelled (race_reply env i out sent s))"
  by (cases "qe_online env i"; cases out)
    (simp_all add: race_reply_def Let_def case_prod_unfold do_exchange_out)

lemma race_reply_inv:
  assumes "race_inv env E s" "Race_reply i out sent \<in> E"
  shows "race_inv env E (race_reply env i out sent s)"
  using race_reply_winner[of env i out sent s]
proof
  assume "(rs_winner (race_reply env i out sent s), rs_cancelled (race_reply env i out sent s)) =
     (rs_winner s, rs_cancelled s)"
  then show ?thesis using assms(1) by (cases "rs_phase s") (auto simp: race_inv_def split: option.splits)
next
  assume "\<exists>reply. out = Inr reply \<and> qe_online env i \<and> (msg_Rcode reply = rcode_success \<or> msg_Rcode reply = rcode_nxdomain)
       \<and> rs_winner (race_reply env i out sent s) = Some (i, race_answer reply)
       \<and> rs_cancelled (race_reply env i out sent s)"
  then obtain reply where r: "out = Inr reply" "qe_online env i"
    "msg_Rcode reply = rcode_success \<or> msg_Rcode reply = rcode_nxdomain"
    "rs_winner (race_reply env i out sent s) = Some (i, race_answer reply)"
    "rs_cancelled (race_reply env i out sent s)" by blast
  then have "race_won env E (race_answer reply)" using assms(2) by (auto simp: race_won_def)
  then show ?thesis using assms(1) r(4,5) unfolding race_inv_def
    by (auto split: race_phase.splits prod.splits option.splits)
qed

lemma race_step_inv:
  assumes "race_inv env E s" "ev \<in> E"
  shows "race_inv env E (race_step env ev s)"
proof (cases ev)
  case (Race_reply i out sent)
  then show ?thesis using assms race_reply_inv by (simp add: race_step_def)
qed (use assms in \<open>auto simp: race_step_def race_inv_def split: option.splits prod.splits race_phase.splits list.splits\<close>)

lemma race_run_inv: "race_inv env E s \<Longrightarrow> set evs \<subseteq> E \<Longrightarrow> race_inv env E (fold (race_step env) evs s)"
  by (induction evs arbitrary: s) (auto simp: race_step_inv)

lemma race_start_inv: "race_inv env E ((start_racing now u))" if "um_servers u \<noteq> []"
proof -
  have "set (getSortedHealthyServers now u) \<noteq> {}" using that unfolding sorted_servers_facts by (simp add: lessThan_empty_iff)
  then show ?thesis by (cases "getSortedHealthyServers now u") (simp_all add: race_inv_def start_racing_def)
qed

text \<open>C7: In every interleaving, a result of \<open>queryRacing\<close> is the answer of a server that replied with
  success or a name error. When no server has sent such a reply and the caller's context has not
  ended, the caller waits, even when every server has already failed. Since the winner also cancels
  the race, the main goroutine may see the end of the race before the result: there is an
  interleaving in which the only server answers and the caller gets neither a result nor an error.\<close>

theorem queryRacing_outcome:
  assumes "um_servers u \<noteq> []" "s = racing_run env evs now u"
  shows "(\<forall>q e. race_outcome s = Some (Some q, e) \<longrightarrow> e = None \<and>
      (\<exists>i reply sent. Race_reply i (Inr reply) sent \<in> set evs \<and> q = race_answer reply
        \<and> (msg_Rcode reply = rcode_success \<or> msg_Rcode reply = rcode_nxdomain)))
    \<and> ((\<forall>i reply sent. Race_reply i (Inr reply) sent \<in> set evs \<longrightarrow> msg_Rcode reply \<notin> {rcode_success, rcode_nxdomain})
        \<and> Race_ctx_done \<notin> set evs \<longrightarrow> race_outcome s = None)
    \<and> (length (um_servers u) = 1 \<and> qe_online env 0 \<longrightarrow> (\<exists>es. \<forall>reply. msg_Rcode reply = rcode_success \<longrightarrow>
        race_outcome (racing_run env (Race_reply 0 (Inr reply) True # es) now u) = Some (None, None)))"
proof (intro conjI impI)
  have inv: "race_inv env (set evs) s"
    unfolding assms(2) racing_run_def by (rule race_run_inv[OF race_start_inv[OF assms(1)] order_refl])
  show "\<forall>q e. race_outcome s = Some (Some q, e) \<longrightarrow> e = None \<and>
      (\<exists>i reply sent. Race_reply i (Inr reply) sent \<in> set evs \<and> q = race_answer reply
        \<and> (msg_Rcode reply = rcode_success \<or> msg_Rcode reply = rcode_nxdomain))"
  proof (intro allI impI)
    fix q e assume "race_outcome s = Some (Some q, e)"
    then have "rs_phase s = Race_returned (Some q, e)" by (simp add: race_outcome_def split: race_phase.splits)
    then have "e = None" "race_won env (set evs) q" using inv by (simp_all add: race_inv_def)
    then show "e = None \<and> (\<exists>i reply sent. Race_reply i (Inr reply) sent \<in> set evs \<and> q = race_answer reply
        \<and> (msg_Rcode reply = rcode_success \<or> msg_Rcode reply = rcode_nxdomain))"
      unfolding race_won_def by blast
  qed
  assume a: "(\<forall>i reply sent. Race_reply i (Inr reply) sent \<in> set evs \<longrightarrow> msg_Rcode reply \<notin> {rcode_success, rcode_nxdomain})
        \<and> Race_ctx_done \<notin> set evs"
  then have "\<not> race_won env (set evs) q" for q by (auto simp: race_won_def)
  then show "race_outcome s = None"
    using inv a by (auto simp: race_inv_def race_outcome_def split: race_phase.splits option.splits)
next
  assume a: "length (um_servers u) = 1 \<and> qe_online env 0"
  then have "set (getSortedHealthyServers now u) = {0}" unfolding sorted_servers_facts by auto
  moreover have "distinct (getSortedHealthyServers now u)" by (rule sorted_servers_facts)
  ultimately have "getSortedHealthyServers now u = [0]"
    by (cases "getSortedHealthyServers now u"; cases "tl (getSortedHealthyServers now u)") auto
  then show "\<exists>es. \<forall>reply. msg_Rcode reply = rcode_success \<longrightarrow>
        race_outcome (racing_run env (Race_reply 0 (Inr reply) True # es) now u) = Some (None, None)"
    using a by (intro exI[of _ "[Race_main_done, Race_main_done]"])
      (simp add: racing_run_def start_racing_def race_step_def race_reply_def do_exchange_out case_prod_unfold Let_def
        race_outcome_def)
qed

theorem queryRacing_outcome_witness:
  "\<exists>es. race_outcome (racing_run (example_env (Inr example_answer)) (Race_reply 0 (Inr example_answer) True # es) 1
     (example_manager HealthStatusHealthy)) = Some (None, None)"
proof -
  have "msg_Rcode example_answer = rcode_success" "qe_online (example_env (Inr example_answer)) 0"
    by (simp_all add: example_answer_def example_env_def)
  then show ?thesis
    using queryRacing_outcome[OF example_manager_servers(1) refl, of "example_env (Inr example_answer)" "[]" 1
        HealthStatusHealthy] by auto
qed

end
