(* ===== verification/Go_Net.thy ===== *)
theory Go_Net
  imports Go_Strings
begin

text \<open>IP addresses of Go's \<open>net\<close> package, as far as the program uses them: \<open>ParseIP\<close> and \<open>String\<close> of
  addresses, and whether an address is an IPv4 address (\<open>To4\<close>). An address is its eight 16-bit
  groups; an IPv4 address is the IPv4-mapped one.\<close>

type_synonym ip = "nat list"

definition v4_ip :: "nat list \<Rightarrow> ip" where
  "v4_ip bs = [0, 0, 0, 0, 0, 0xffff, bs ! 0 * 256 + bs ! 1, bs ! 2 * 256 + bs ! 3]"

definition To4 :: "ip \<Rightarrow> nat list option" where
  "To4 p = (if take 6 p = [0, 0, 0, 0, 0, 0xffff]
     then Some [p ! 6 div 256, p ! 6 mod 256, p ! 7 div 256, p ! 7 mod 256] else None)"

section \<open>Parsing\<close>

definition parse_octet :: "string \<Rightarrow> nat option" where
  "parse_octet s = (if s = [] \<or> (length s > 1 \<and> hd s = CHR ''0'') then None
     else (case parse_digits 0 s of None \<Rightarrow> None | Some n \<Rightarrow> if n \<le> 255 then Some n else None))"

fun all_some :: "'a option list \<Rightarrow> 'a list option" where
  "all_some [] = Some []"
| "all_some (None # _) = None"
| "all_some (Some x # xs) = map_option (Cons x) (all_some xs)"

definition parse_v4 :: "string \<Rightarrow> nat list option" where
  "parse_v4 s = (let parts = go_Split (CHR ''.'') s in
     if length parts \<noteq> 4 then None else all_some (map parse_octet parts))"

definition hex_value :: "char \<Rightarrow> nat option" where
  "hex_value c = (let n = of_char c :: nat in
     if 48 \<le> n \<and> n \<le> 57 then Some (n - 48)
     else if 97 \<le> n \<and> n \<le> 102 then Some (n - 87)
     else if 65 \<le> n \<and> n \<le> 70 then Some (n - 55) else None)"

definition parse_group :: "string \<Rightarrow> nat option" where
  "parse_group s = (if s = [] \<or> 4 < length s then None
     else map_option (foldl (\<lambda>a d. a * 16 + d) 0) (all_some (map hex_value s)))"

text \<open>The groups of one side of \<open>::\<close>; the last may be an IPv4 address.\<close>

fun parse_groups :: "string list \<Rightarrow> nat list option" where
  "parse_groups [] = Some []"
| "parse_groups [s] = (if CHR ''.'' \<in> set s
     then map_option (\<lambda>bs. [bs ! 0 * 256 + bs ! 1, bs ! 2 * 256 + bs ! 3]) (parse_v4 s)
     else map_option (\<lambda>g. [g]) (parse_group s))"
| "parse_groups (s # t # ss) = (case parse_group s of None \<Rightarrow> None
     | Some g \<Rightarrow> map_option (Cons g) (parse_groups (t # ss)))"

fun split_ellipsis :: "string \<Rightarrow> (string \<times> string) option" where
  "split_ellipsis (a # b # s) = (if a = CHR '':'' \<and> b = CHR '':'' then Some ([], s)
     else map_option (\<lambda>(l, r). (a # l, r)) (split_ellipsis (b # s)))"
| "split_ellipsis _ = None"

definition side_groups :: "string \<Rightarrow> nat list option" where
  "side_groups s = (if s = [] then Some [] else parse_groups (go_Split (CHR '':'') s))"

definition parse_v6 :: "string \<Rightarrow> ip option" where
  "parse_v6 s = (case split_ellipsis s of
      None \<Rightarrow> (case parse_groups (go_Split (CHR '':'') s) of
          Some gs \<Rightarrow> if length gs = 8 then Some gs else None | None \<Rightarrow> None)
    | Some (l, r) \<Rightarrow>
        if CHR ''.'' \<in> set l then None
        else (case (side_groups l, side_groups r) of
          (Some ls, Some rs) \<Rightarrow> if length ls + length rs < 8
             then Some (ls @ replicate (8 - (length ls + length rs)) 0 @ rs) else None
        | _ \<Rightarrow> None))"

text \<open>The first of \<open>.\<close>, \<open>:\<close> and \<open>%\<close> decides; an address with a zone is refused by \<open>ParseIP\<close>.\<close>

definition ParseIP :: "string \<Rightarrow> ip option" where
  "ParseIP s = (case dropWhile (\<lambda>c. c \<notin> {CHR ''.'', CHR '':'', CHR ''%''}) s of
      [] \<Rightarrow> None
    | c # _ \<Rightarrow> if c = CHR ''.'' then map_option v4_ip (parse_v4 s)
              else if c = CHR '':'' \<and> CHR ''%'' \<notin> set s then parse_v6 s else None)"

section \<open>Printing\<close>

definition hex_char :: "nat \<Rightarrow> char" where
  "hex_char n = (if n < 10 then char_of (48 + n) else char_of (87 + n))"

fun FormatHex :: "nat \<Rightarrow> string" where
  "FormatHex n = (if n < 16 then [hex_char n] else FormatHex (n div 16) @ [hex_char (n mod 16)])"

declare FormatHex.simps [simp del]

text \<open>The first longest run of at least two zero groups.\<close>

definition zero_run :: "ip \<Rightarrow> nat \<Rightarrow> nat" where
  "zero_run p i = length (takeWhile (\<lambda>g. g = 0) (drop i p))"

definition best_run :: "ip \<Rightarrow> (nat \<times> nat) option" where
  "best_run p = foldl (\<lambda>b i. let l = zero_run p i in
      if 2 \<le> l \<and> (case b of None \<Rightarrow> True | Some (_, l') \<Rightarrow> l' < l) then Some (i, l) else b) None [0..<length p]"

definition IP_String :: "ip \<Rightarrow> string" where
  "IP_String p = (case To4 p of
      Some bs \<Rightarrow> go_Join ''.'' (map FormatUint bs)
    | None \<Rightarrow> (case best_run p of
        None \<Rightarrow> go_Join '':'' (map FormatHex p)
      | Some (i, l) \<Rightarrow> go_Join '':'' (map FormatHex (take i p)) @ ''::''
                       @ go_Join '':'' (map FormatHex (drop (i + l) p))))"

section \<open>IPv4 round trip\<close>

lemma To4_v4_ip:
  "a \<le> 255 \<Longrightarrow> b \<le> 255 \<Longrightarrow> c \<le> 255 \<Longrightarrow> d \<le> 255 \<Longrightarrow> To4 (v4_ip [a, b, c, d]) = Some [a, b, c, d]"
  by (simp add: To4_def v4_ip_def)

lemma all_some_map_Some [simp]: "all_some (map Some xs) = Some xs"
  by (induction xs) auto

end
