(* ===== verification/Go_Text.thy ===== *)
theory Go_Text
  imports Go_Strings "HOL-Library.Char_ord" "HOL-Library.List_Lexorder"
begin

text \<open>More of Go's \<open>strings\<close> package, and the line scanner of \<open>bufio\<close>. Prefix and suffix tests are
  those of the library. Strings are bytes, white space and case are the ASCII ones.\<close>

definition upper_char :: "char \<Rightarrow> char" where
  "upper_char c = (let n = (of_char c :: nat) in if 97 \<le> n \<and> n \<le> 122 then char_of (n - 32) else c)"

definition ToUpper :: "string \<Rightarrow> string" where
  "ToUpper s = map upper_char s"

text \<open>\<open>strings.Fields\<close>: the maximal runs of non-space bytes.\<close>

function go_Fields :: "string \<Rightarrow> string list" where
  "go_Fields s = (let t = dropWhile is_space s in
     if t = [] then [] else takeWhile (\<lambda>c. \<not> is_space c) t # go_Fields (dropWhile (\<lambda>c. \<not> is_space c) t))"
  by auto
termination
proof (relation "measure length", simp)
  fix s t :: string
  assume t: "t = dropWhile is_space s" "t \<noteq> []"
  then obtain c u where u: "t = c # u" by (metis neq_Nil_conv)
  have "\<not> is_space c" using hd_dropWhile[of is_space s] t u by (metis list.sel(1))
  then have "length (dropWhile (\<lambda>c. \<not> is_space c) t) \<le> length u"
    by (simp add: u length_dropWhile_le)
  moreover have "length t \<le> length s" by (simp add: t(1) length_dropWhile_le)
  ultimately show "(dropWhile (\<lambda>c. \<not> is_space c) t, s) \<in> measure length" by (simp add: u)
qed

declare go_Fields.simps [simp del]

lemma go_Fields_Nil [simp]: "go_Fields [] = []"
  by (simp add: go_Fields.simps)

lemma go_Fields_field: "f \<in> set (go_Fields s) \<Longrightarrow> f \<noteq> [] \<and> (\<forall>c \<in> set f. \<not> is_space c)"
proof (induction s rule: go_Fields.induct)
  case (1 s)
  let ?t = "dropWhile is_space s"
  show ?case
  proof (cases "?t = []")
    case True
    then show ?thesis using 1(2) by (simp add: go_Fields.simps[of s] Let_def)
  next
    case False
    then have "\<not> is_space (hd ?t)" using hd_dropWhile by blast
    then have "takeWhile (\<lambda>c. \<not> is_space c) ?t \<noteq> []" using False by (cases ?t) auto
    moreover have "\<forall>c \<in> set (takeWhile (\<lambda>c. \<not> is_space c) ?t). \<not> is_space c"
      using set_takeWhileD by fastforce
    moreover have "f = takeWhile (\<lambda>c. \<not> is_space c) ?t \<or>
        f \<in> set (go_Fields (dropWhile (\<lambda>c. \<not> is_space c) ?t))"
      using 1(2) False by (subst (asm) go_Fields.simps) (simp add: Let_def del: dropWhile_eq_Nil_conv)
    ultimately show ?thesis using 1(1)[OF refl False] by metis
  qed
qed

text \<open>\<open>strings.ReplaceAll\<close> of a non-empty text.\<close>

function go_ReplaceAll :: "string \<Rightarrow> string \<Rightarrow> string \<Rightarrow> string" where
  "go_ReplaceAll old new s = (if s = [] \<or> old = [] then s
     else if prefix old s then new @ go_ReplaceAll old new (drop (length old) s)
     else hd s # go_ReplaceAll old new (tl s))"
  by auto
termination by (relation "measure (\<lambda>(old, new, s). length s)") auto

declare go_ReplaceAll.simps [simp del]

text \<open>\<open>bufio.Scanner\<close> over the lines of a text: a line loses one trailing carriage return, an empty
  rest after the last newline is no line, and a line of 65536 bytes or more ends the scan with an
  error (\<open>False\<close>).\<close>

definition max_token :: int where "max_token = 65536"

definition drop_cr :: "string \<Rightarrow> string" where
  "drop_cr l = (if l \<noteq> [] \<and> last l = CHR 0x0D then butlast l else l)"

definition text_lines :: "string \<Rightarrow> string list" where
  "text_lines s = (let ls = go_Split (CHR 0x0A) s in if last ls = [] then butlast ls else ls)"

definition scan_lines :: "string \<Rightarrow> string list \<times> bool" where
  "scan_lines s = (let ls = text_lines s
     in (map drop_cr (takeWhile (\<lambda>l. int (length l) < max_token) ls), \<forall>l \<in> set ls. int (length l) < max_token))"

text \<open>To evaluate \<open>ParseUint\<close>, the bound is compared as an integer.\<close>

lemma ParseUint_code [code]:
  "ParseUint bits s = (if s = [] then None
     else case parse_digits 0 s of None \<Rightarrow> None
        | Some n \<Rightarrow> if int n < 2 ^ bits then Some n else None)"
proof -
  have "int n < 2 ^ bits \<longleftrightarrow> n < 2 ^ bits" for n
    by (metis of_nat_less_iff of_nat_numeral of_nat_power)
  then show ?thesis by (simp add: ParseUint_def split: option.split)
qed

text \<open>\<open>sort.Strings\<close>.\<close>

definition sort_strings :: "string list \<Rightarrow> string list" where
  "sort_strings xs = go_sort_slice (\<lambda>a b. a < b) xs"

lemma sort_strings_sort: "sort_strings xs = sort xs"
proof -
  have "sorted (go_sort_slice (\<lambda>a b. a < b) xs)"
    using weak_order.go_sort_slice_sorted[OF weak_order_by_key[of "\<lambda>x :: string. x"], of xs]
    by (simp add: linorder_not_less)
  then show ?thesis
    by (metis sort_strings_def mset_go_sort_slice properties_for_sort)
qed

lemma mset_sort_strings [simp]: "mset (sort_strings xs) = mset xs"
  by (simp add: sort_strings_def)

lemma sort_strings_eq: "sort_strings xs = sort_strings ys \<longleftrightarrow> mset xs = mset ys"
  by (metis mset_sort_strings sort_strings_sort properties_for_sort sorted_sort)

end
