(* ===== verification/Dns_Response.thy ===== *)
theory Dns_Response
  imports Go_Net Go_Text Upstream_Base
begin

text \<open>\<open>dnsserver/handler_response.go\<close> and \<open>utils.go\<close>: how answers are written. A message is built in
  place in Go; here each function returns the message. \<open>fqdn\<close> is \<open>dns.Fqdn\<close> and \<open>rr_text\<close> the
  presentation form of a record, both of \<open>miekg/dns\<close>. The recursion-available and compression
  flags, which every handler sets alike, are left out.\<close>

section \<open>Names and numbers\<close>

definition TypeA :: qtype where "TypeA = 1"
definition TypeCNAME :: qtype where "TypeCNAME = 5"
definition TypeSOA :: qtype where "TypeSOA = 6"
definition TypeAAAA :: qtype where "TypeAAAA = 28"

definition rcode_notimp :: int where "rcode_notimp = 4"
definition rcode_refused :: int where "rcode_refused = 5"

text \<open>\<open>msg.SetReply(r)\<close> keeps the first question; \<open>msg.SetRcode(r, rcode)\<close> does it again.\<close>

definition reply_to :: "dnsMsg \<Rightarrow> int \<Rightarrow> dnsMsg" where
  "reply_to r rcode = \<lparr>msg_Question = take 1 (msg_Question r), msg_Rcode = rcode, msg_AuthenticatedData = False,
     msg_Answer = [], msg_Ns = [], msg_Extra = []\<rparr>"

definition record_of :: "string \<Rightarrow> 32 word \<Rightarrow> ip \<Rightarrow> dnsRR" where
  "record_of name ttl p =
     (if To4 p \<noteq> None then \<lparr>rr_name = name, rr_type = TypeA, rr_ttl = ttl, rr_data = A_rec (IP_String p)\<rparr>
      else \<lparr>rr_name = name, rr_type = TypeAAAA, rr_ttl = ttl, rr_data = AAAA_rec (IP_String p)\<rparr>)"

section \<open>Addresses\<close>

fun deduplicate_loop :: "string set \<Rightarrow> string list \<Rightarrow> ip list" where
  "deduplicate_loop ipSet [] = []"
| "deduplicate_loop ipSet (s # ips) = (case ParseIP s of
      None \<Rightarrow> deduplicate_loop ipSet ips
    | Some p \<Rightarrow> if IP_String p \<in> ipSet then deduplicate_loop ipSet ips
                else p # deduplicate_loop (insert (IP_String p) ipSet) ips)"

definition deduplicateIPs :: "string list \<Rightarrow> ip list" where
  "deduplicateIPs ips = deduplicate_loop {} ips"

text \<open>The address records of one name, of the type asked for.\<close>

definition address_records :: "string \<Rightarrow> string list \<Rightarrow> qtype \<Rightarrow> 32 word \<Rightarrow> dnsRR list" where
  "address_records name ips qt ttl = map (record_of name ttl)
     (filter (\<lambda>p. qt = TypeA \<and> To4 p \<noteq> None \<or> qt = TypeAAAA \<and> To4 p = None) (deduplicateIPs ips))"

section \<open>Answers\<close>

definition buildSOARecord :: "(string \<Rightarrow> string) \<Rightarrow> instant \<Rightarrow> string \<Rightarrow> 32 word \<Rightarrow> dnsRR" where
  "buildSOARecord fqdn now domain ttl =
     \<lparr>rr_name = fqdn domain, rr_type = TypeSOA, rr_ttl = ttl,
      rr_data = SOA_rec \<lparr>soa_Ns = ''ns.smartdnssort.local.'', soa_Mbox = ''admin.smartdnssort.local.'',
        soa_Serial = word_of_int (now div second), soa_Refresh = 3600, soa_Retry = 600, soa_Expire = 86400,
        soa_Minttl = ttl\<rparr>\<rparr>"

definition add_answers :: "dnsRR list \<Rightarrow> dnsMsg \<Rightarrow> dnsMsg" where
  "add_answers rrs msg = msg\<lparr>msg_Answer := msg_Answer msg @ rrs\<rparr>"

definition mark_authenticated :: "bool \<Rightarrow> dnsMsg \<Rightarrow> dnsMsg" where
  "mark_authenticated authData msg = (if authData then msg\<lparr>msg_AuthenticatedData := True\<rparr> else msg)"

definition buildDNSResponseWithDNSSEC :: "(string \<Rightarrow> string) \<Rightarrow> string \<Rightarrow> string list \<Rightarrow> qtype \<Rightarrow> 32 word \<Rightarrow> bool \<Rightarrow>
    dnsMsg \<Rightarrow> dnsMsg" where
  "buildDNSResponseWithDNSSEC fqdn domain ips qt ttl authData msg =
     add_answers (address_records (fqdn domain) ips qt ttl) (mark_authenticated authData msg)"

definition buildDNSResponse :: "(string \<Rightarrow> string) \<Rightarrow> string \<Rightarrow> string list \<Rightarrow> qtype \<Rightarrow> 32 word \<Rightarrow> dnsMsg \<Rightarrow> dnsMsg" where
  "buildDNSResponse fqdn domain ips qt ttl msg = buildDNSResponseWithDNSSEC fqdn domain ips qt ttl False msg"

text \<open>The chain of aliases from a name: a link already written is left out, and the name moves on
  with each written link. The result is the records and the last name.\<close>

fun cname_chain :: "(string \<Rightarrow> string) \<Rightarrow> 32 word \<Rightarrow> string set \<Rightarrow> string \<Rightarrow> string list \<Rightarrow> dnsRR list \<times> string" where
  "cname_chain fqdn ttl cnameSet currentName [] = ([], currentName)"
| "cname_chain fqdn ttl cnameSet currentName (target # cnames) =
     (let targetFqdn = fqdn target; cnamePair = currentName @ ''->'' @ targetFqdn
      in if cnamePair \<in> cnameSet then cname_chain fqdn ttl cnameSet currentName cnames
         else (case cname_chain fqdn ttl (insert cnamePair cnameSet) targetFqdn cnames of
            (rrs, lastName) \<Rightarrow> (\<lparr>rr_name = currentName, rr_type = TypeCNAME, rr_ttl = ttl,
                                rr_data = CNAME_rec targetFqdn\<rparr> # rrs, lastName)))"

definition buildDNSResponseWithCNAMEAndDNSSEC :: "(string \<Rightarrow> string) \<Rightarrow> string \<Rightarrow> string list \<Rightarrow> string list \<Rightarrow> qtype \<Rightarrow>
    32 word \<Rightarrow> bool \<Rightarrow> dnsMsg \<Rightarrow> dnsMsg" where
  "buildDNSResponseWithCNAMEAndDNSSEC fqdn domain cnames ips qt ttl authData msg =
     (if cnames = [] then msg
      else (case cname_chain fqdn ttl {} (fqdn domain) cnames of
         (rrs, lastName) \<Rightarrow> add_answers (rrs @ address_records lastName ips qt ttl) (mark_authenticated authData msg)))"

definition buildDNSResponseWithCNAME :: "(string \<Rightarrow> string) \<Rightarrow> string \<Rightarrow> string list \<Rightarrow> string list \<Rightarrow> qtype \<Rightarrow> 32 word \<Rightarrow>
    dnsMsg \<Rightarrow> dnsMsg" where
  "buildDNSResponseWithCNAME fqdn domain cnames ips qt ttl msg =
     buildDNSResponseWithCNAMEAndDNSSEC fqdn domain cnames ips qt ttl False msg"

text \<open>Records of the type asked for, an address once, all with the new TTL.\<close>

fun generic_records :: "qtype \<Rightarrow> 32 word \<Rightarrow> string set \<Rightarrow> dnsRR list \<Rightarrow> dnsRR list" where
  "generic_records qt ttl ipSet [] = []"
| "generic_records qt ttl ipSet (rr # records) =
     (if rr_type rr \<noteq> qt then generic_records qt ttl ipSet records
      else (case record_ip (rr_data rr) of
          None \<Rightarrow> rr\<lparr>rr_ttl := ttl\<rparr> # generic_records qt ttl ipSet records
        | Some ipStr \<Rightarrow> if ipStr \<in> ipSet then generic_records qt ttl ipSet records
            else rr\<lparr>rr_ttl := ttl\<rparr> # generic_records qt ttl (insert ipStr ipSet) records))"

text \<open>\<open>msg.SetRcode(msg, RcodeSuccess)\<close> at the end resets only the reply header. \<open>None\<close> is the panic on
  a message without a question.\<close>

definition buildGenericResponse :: "(string \<Rightarrow> string) \<Rightarrow> string list \<Rightarrow> dnsRR list \<Rightarrow> qtype \<Rightarrow> 32 word \<Rightarrow> bool \<Rightarrow>
    dnsMsg \<Rightarrow> dnsMsg option" where
  "buildGenericResponse fqdn cnames records qt ttl authData msg = (case msg_Question msg of
      [] \<Rightarrow> None
    | (qname, _) # _ \<Rightarrow>
       (let msg1 = add_answers (fst (cname_chain fqdn ttl {} (fqdn qname) cnames)
              @ generic_records qt ttl {} records) (mark_authenticated authData msg)
        in Some (if msg_Answer msg1 = [] \<or> (cnames \<noteq> [] \<and> length (msg_Answer msg1) = length cnames)
                 then msg1\<lparr>msg_Rcode := rcode_success\<rparr> else msg1)))"

section \<open>Duplicates\<close>

text \<open>The name of the Go type in the key of other records repeats the type in their text.\<close>

definition record_key :: "(dnsRR \<Rightarrow> string) \<Rightarrow> dnsRR \<Rightarrow> string" where
  "record_key rr_text rr = (case rr_data rr of
      A_rec ip \<Rightarrow> ''A:'' @ rr_name rr @ '':'' @ ip
    | AAAA_rec ip \<Rightarrow> ''AAAA:'' @ rr_name rr @ '':'' @ ip
    | CNAME_rec target \<Rightarrow> ''CNAME:'' @ rr_name rr @ '':'' @ target
    | _ \<Rightarrow> ''*dns.RR:'' @ rr_name rr @ '':'' @ rr_text rr)"

definition deduplicateRecords :: "(dnsRR \<Rightarrow> string) \<Rightarrow> dnsRR list \<Rightarrow> dnsRR list" where
  "deduplicateRecords rr_text records = keep_first (record_key rr_text) {} records"

definition deduplicateDNSMsg :: "(dnsRR \<Rightarrow> string) \<Rightarrow> dnsMsg \<Rightarrow> dnsMsg" where
  "deduplicateDNSMsg rr_text msg = msg\<lparr>msg_Answer := deduplicateRecords rr_text (msg_Answer msg),
     msg_Ns := deduplicateRecords rr_text (msg_Ns msg), msg_Extra := deduplicateRecords rr_text (msg_Extra msg)\<rparr>"

definition trim_dots :: "string \<Rightarrow> string" where
  "trim_dots s = TrimRight_char (CHR ''.'') s"

definition deduplicateCNAMEs :: "string list \<Rightarrow> string list" where
  "deduplicateCNAMEs cnames = keep_first trim_dots {} cnames"

section \<open>TTLs\<close>

text \<open>\<open>adjustTTL\<close> of \<open>handler_query.go\<close>.\<close>

definition adjusted_ttl :: "duration \<Rightarrow> 32 word \<Rightarrow> 32 word" where
  "adjusted_ttl elapsed ttl =
     (if 0 < ttl
      then (let newTTL = uint ttl - go_div elapsed second in if newTTL \<le> 0 then 1 else word_of_int newTTL)
      else ttl)"

definition adjustTTL :: "duration \<Rightarrow> dnsRR list \<Rightarrow> dnsRR list" where
  "adjustTTL elapsed rrs = map (\<lambda>rr. rr\<lparr>rr_ttl := adjusted_ttl elapsed (rr_ttl rr)\<rparr>) rrs"

text \<open>\<open>calculateUserTTL\<close> of \<open>handler_cache.go\<close>.\<close>

definition calculateUserTTL :: "CacheConfig \<Rightarrow> int \<Rightarrow> duration \<Rightarrow> bool \<Rightarrow> 32 word" where
  "calculateUserTTL cfg originalTTL elapsed isStale =
     (let elapsedSec = go_div elapsed second;
          remaining = max 0 (originalTTL - elapsedSec);
          fastTTL = word_of_int (cache_FastResponseTTL cfg);
          userReturn = cache_UserReturnTTL cfg;
          cycleOffset = elapsedSec - go_div elapsedSec userReturn * userReturn;
          userTTL = (if 0 < remaining
            then (if 0 < userReturn then word_of_int (min remaining (userReturn - cycleOffset))
                  else word_of_int remaining)
            else fastTTL)
      in max (if isStale then min userTTL fastTTL else userTTL) 1)"

section \<open>Errors of the upstream\<close>

text \<open>\<open>fmt.Sscanf(errMsg, "dns query failed: rcode=%d")\<close>: a space of the format consumes one or more
  spaces, the number may be signed, and what follows it is ignored.\<close>

fun scan_literal :: "string \<Rightarrow> string \<Rightarrow> string option" where
  "scan_literal [] s = Some s"
| "scan_literal (f # fs) [] = None"
| "scan_literal (f # fs) (c # s) =
     (if f = CHR '' '' then (if c = f then scan_literal fs (dropWhile (\<lambda>c. c = CHR '' '') s) else None)
      else if f = c then scan_literal fs s else None)"

definition scan_int :: "string \<Rightarrow> int option" where
  "scan_int s0 =
     (let s = dropWhile is_space s0;
          (neg, t) = (if s \<noteq> [] \<and> hd s = CHR ''-'' then (True, tl s)
                      else if s \<noteq> [] \<and> hd s = CHR ''+'' then (False, tl s) else (False, s));
          ds = takeWhile (\<lambda>c. digit_value c \<noteq> None) t
      in if ds = [] then None
         else (case parse_digits 0 ds of None \<Rightarrow> None
           | Some n \<Rightarrow> (let i = (if neg then - int n else int n)
                        in if - (2 ^ 63) \<le> i \<and> i < 2 ^ 63 then Some i else None)))"

definition parseRcodeFromError :: "go_error option \<Rightarrow> int" where
  "parseRcodeFromError err = (case err of
      None \<Rightarrow> rcode_success
    | Some e \<Rightarrow>
       (let errMsg = err_text e;
            scanned = (if go_Contains errMsg ''rcode=''
              then Option.bind (scan_literal ''dns query failed: rcode='' errMsg) scan_int else None)
        in (case scanned of
             Some rcode \<Rightarrow> rcode
           | None \<Rightarrow> if go_Contains errMsg ''NXDOMAIN'' \<or> go_Contains errMsg ''no such host'' then rcode_nxdomain
                     else rcode_servfail)))"

section \<open>Blocked answers\<close>

definition blocked_reply :: "(string \<Rightarrow> string) \<Rightarrow> instant \<Rightarrow> int \<Rightarrow> dnsMsg \<Rightarrow> int \<Rightarrow> dnsMsg" where
  "blocked_reply fqdn now rcode r ttl =
     (let msg = reply_to r rcode
      in (case msg_Question r of
            [] \<Rightarrow> msg
          | (qname, _) # _ \<Rightarrow> msg\<lparr>msg_Ns := [buildSOARecord fqdn now (trim_dots qname) (word_of_int ttl)]\<rparr>))"

definition buildNXDomainResponse :: "(string \<Rightarrow> string) \<Rightarrow> instant \<Rightarrow> dnsMsg \<Rightarrow> int \<Rightarrow> dnsMsg" where
  "buildNXDomainResponse fqdn now r ttl = blocked_reply fqdn now rcode_nxdomain r ttl"

definition buildRefuseResponse :: "(string \<Rightarrow> string) \<Rightarrow> instant \<Rightarrow> dnsMsg \<Rightarrow> int \<Rightarrow> dnsMsg" where
  "buildRefuseResponse fqdn now r ttl = blocked_reply fqdn now rcode_refused r ttl"

text \<open>\<open>None\<close> is the panic on a message without a question.\<close>

definition buildZeroIPResponse :: "dnsMsg \<Rightarrow> string \<Rightarrow> int \<Rightarrow> dnsMsg option" where
  "buildZeroIPResponse r blockedIP blockedTTL = (case msg_Question r of
      [] \<Rightarrow> None
    | (qname, qt) # _ \<Rightarrow>
       (let ip = (case ParseIP blockedIP of Some p \<Rightarrow> p | None \<Rightarrow> v4_ip [0, 0, 0, 0])
        in Some (if (qt = TypeA \<and> To4 ip \<noteq> None) \<or> (qt = TypeAAAA \<and> To4 ip = None)
                 then add_answers [record_of qname (word_of_int blockedTTL) ip] (reply_to r rcode_success)
                 else reply_to r rcode_success)))"

section \<open>Lemmas\<close>

subsection \<open>Addresses\<close>

lemma dedup_eq: "deduplicate_loop seen ips = keep_first IP_String seen (List.map_filter ParseIP ips)"
  by (induction ips arbitrary: seen) (auto simp: map_filter_simps split: option.splits)

lemma deduplicateIPs_distinct: "distinct (map IP_String (deduplicateIPs ips))"
  by (simp add: deduplicateIPs_def dedup_eq keep_first_distinct)

lemma deduplicateIPs_strings:
  "IP_String ` set (deduplicateIPs ips) = {s. \<exists>ip \<in> set ips. map_option IP_String (ParseIP ip) = Some s}"
  by (force simp: deduplicateIPs_def dedup_eq keep_first_keys List.map_filter_def)

definition rr_address :: "dnsRR \<Rightarrow> string option" where
  "rr_address rr = record_ip (rr_data rr)"

lemma record_of_simps [simp]:
  "rr_name (record_of n ttl p) = n" "rr_ttl (record_of n ttl p) = ttl"
  "rr_type (record_of n ttl p) = (if To4 p \<noteq> None then TypeA else TypeAAAA)"
  "rr_address (record_of n ttl p) = Some (IP_String p)"
  by (simp_all add: record_of_def rr_address_def)

lemma types_distinct [simp]: "TypeA \<noteq> TypeAAAA" "TypeAAAA \<noteq> TypeA" "TypeCNAME \<noteq> TypeA" "TypeCNAME \<noteq> TypeAAAA"
  by (simp_all add: TypeA_def TypeAAAA_def TypeCNAME_def)

lemma address_records_ok:
  "\<forall>r \<in> set (address_records n ips qt ttl). rr_name r = n \<and> rr_type r = qt \<and> rr_ttl r = ttl"
  "distinct (map rr_address (address_records n ips qt ttl))"
  "qt \<noteq> TypeA \<Longrightarrow> qt \<noteq> TypeAAAA \<Longrightarrow> address_records n ips qt ttl = []"
proof -
  let ?ps = "filter (\<lambda>p. qt = TypeA \<and> To4 p \<noteq> None \<or> qt = TypeAAAA \<and> To4 p = None) (deduplicateIPs ips)"
  show "\<forall>r \<in> set (address_records n ips qt ttl). rr_name r = n \<and> rr_type r = qt \<and> rr_ttl r = ttl"
    by (auto simp: address_records_def)
  have "distinct (map IP_String ?ps)" by (rule distinct_map_filter[OF deduplicateIPs_distinct])
  then have "distinct (map Some (map IP_String ?ps))" by (subst distinct_map) simp
  then show "distinct (map rr_address (address_records n ips qt ttl))"
    by (simp add: address_records_def comp_def)
  show "qt \<noteq> TypeA \<Longrightarrow> qt \<noteq> TypeAAAA \<Longrightarrow> address_records n ips qt ttl = []"
    by (simp add: address_records_def)
qed

lemma address_records_complete:
  "rr_address ` set (address_records n ips TypeA ttl) \<union> rr_address ` set (address_records n ips TypeAAAA ttl)
     = {Some s |s. \<exists>ip \<in> set ips. map_option IP_String (ParseIP ip) = Some s}"
proof -
  have "rr_address ` set (address_records n ips TypeA ttl) \<union> rr_address ` set (address_records n ips TypeAAAA ttl)
      = Some ` (IP_String ` set (deduplicateIPs ips))"
    by (auto simp: address_records_def image_iff) blast
  then show ?thesis unfolding deduplicateIPs_strings by blast
qed

subsection \<open>Chains\<close>

fun linked :: "string \<Rightarrow> dnsRR list \<Rightarrow> string \<Rightarrow> bool" where
  "linked n [] m \<longleftrightarrow> n = m"
| "linked n (r # rs) m \<longleftrightarrow> rr_name r = n \<and> (\<exists>t. rr_data r = CNAME_rec t \<and> linked t rs m)"

lemma cname_chain_linked:
  "cname_chain fqdn ttl seen n cnames = (rrs, m) \<Longrightarrow> linked n rrs m \<and> (\<forall>r \<in> set rrs. rr_type r = TypeCNAME \<and> rr_ttl r = ttl)"
  by (induction cnames arbitrary: seen n rrs) (auto simp: Let_def split: if_splits prod.splits)

text \<open>Without repeated links every alias is written, in order.\<close>

lemma cname_chain_targets:
  assumes "distinct (map fqdn cnames)" "\<forall>t \<in> set cnames. \<forall>s. s @ ''->'' @ fqdn t \<notin> seen"
    "\<And>s s' t t'. s @ ''->'' @ fqdn t = s' @ ''->'' @ fqdn t' \<Longrightarrow> fqdn t = fqdn t'"
  shows "map rr_data (fst (cname_chain fqdn ttl seen n cnames)) = map (\<lambda>t. CNAME_rec (fqdn t)) cnames"
  using assms(1,2)
proof (induction cnames arbitrary: seen n)
  case (Cons c cs)
  have "s @ ''->'' @ fqdn t \<notin> insert (n @ ''->'' @ fqdn c) seen" if "t \<in> set cs" for s t
  proof
    assume "s @ ''->'' @ fqdn t \<in> insert (n @ ''->'' @ fqdn c) seen"
    then have "fqdn t = fqdn c" using Cons.prems(2) that assms(3)[of s t n c] by auto
    then show False using Cons.prems(1) that by (metis distinct.simps(2) image_eqI list.set_map list.simps(9))
  qed
  then have "map rr_data (fst (cname_chain fqdn ttl (insert (n @ ''->'' @ fqdn c) seen) (fqdn c) cs))
      = map (\<lambda>t. CNAME_rec (fqdn t)) cs"
    using Cons.IH[of "insert (n @ ''->'' @ fqdn c) seen" "fqdn c"] Cons.prems(1) by auto
  moreover obtain rrs m where "cname_chain fqdn ttl (insert (n @ ''->'' @ fqdn c) seen) (fqdn c) cs = (rrs, m)"
    by fastforce
  ultimately show ?case using Cons.prems(2) by (simp add: Let_def)
qed simp

text \<open>C9: The shape of an answer with aliases. After what the message held come alias records that form
  a chain from the name asked for to some last name, then the addresses: all of them records of
  that last name, of the type asked for, with the given TTL and no address twice. The last name is
  where the chain ends, so an answer never gives an address to a name it does not lead to. With
  both types together the addresses are exactly those of the list that parse. A query that is
  neither A nor AAAA gets the chain alone, and without aliases the message stays as it is.\<close>

theorem response_chain_shape:
  assumes "cnames \<noteq> []"
  shows "\<exists>chain lastName.
      msg_Answer (buildDNSResponseWithCNAMEAndDNSSEC fqdn domain cnames ips qt ttl ad msg)
        = msg_Answer msg @ chain @ address_records lastName ips qt ttl
      \<and> linked (fqdn domain) chain lastName
      \<and> (\<forall>r \<in> set chain. rr_type r = TypeCNAME \<and> rr_ttl r = ttl)
      \<and> (\<forall>r \<in> set (address_records lastName ips qt ttl). rr_name r = lastName \<and> rr_type r = qt \<and> rr_ttl r = ttl)
      \<and> distinct (map rr_address (address_records lastName ips qt ttl))
      \<and> (qt \<notin> {TypeA, TypeAAAA} \<longrightarrow> address_records lastName ips qt ttl = [])
      \<and> rr_address ` set (address_records lastName ips TypeA ttl) \<union> rr_address ` set (address_records lastName ips TypeAAAA ttl)
          = {Some s |s. \<exists>ip \<in> set ips. map_option IP_String (ParseIP ip) = Some s}"
proof -
  obtain rrs m where c: "cname_chain fqdn ttl {} (fqdn domain) cnames = (rrs, m)" by fastforce
  have a: "msg_Answer (buildDNSResponseWithCNAMEAndDNSSEC fqdn domain cnames ips qt ttl ad msg)
      = msg_Answer msg @ rrs @ address_records m ips qt ttl"
    using assms by (simp add: buildDNSResponseWithCNAMEAndDNSSEC_def c add_answers_def mark_authenticated_def)
  show ?thesis
    by (rule exI[of _ rrs], rule exI[of _ m])
      (use a cname_chain_linked[OF c] address_records_ok[where n = m] address_records_complete[where n = m] in auto)
qed

definition example_request :: dnsMsg where
  "example_request = \<lparr>msg_Question = [(''a.com.'', TypeA)], msg_Rcode = 0, msg_AuthenticatedData = False,
     msg_Answer = [], msg_Ns = [], msg_Extra = []\<rparr>"

lemma response_chain_shape_witness:
  "\<exists>chain lastName. msg_Answer (buildDNSResponseWithCNAMEAndDNSSEC (\<lambda>s. s @ ''.'') ''a.com''
      [''b.com'', ''c.com''] [''192.0.2.1'', ''192.0.2.1'', ''::1''] TypeA 60 False (reply_to example_request 0))
        = chain @ address_records lastName [''192.0.2.1'', ''192.0.2.1'', ''::1''] TypeA 60
      \<and> linked ''a.com.'' chain lastName"
  using response_chain_shape[of "[''b.com'', ''c.com'']" "\<lambda>s. s @ ''.''" "''a.com''"
      "[''192.0.2.1'', ''192.0.2.1'', ''::1'']" TypeA 60 False "reply_to example_request 0"]
  by (auto simp: reply_to_def)

subsection \<open>TTLs\<close>

lemma uint_of_int_small: "0 \<le> x \<Longrightarrow> x < 2 ^ 32 \<Longrightarrow> uint (word_of_int x :: 32 word) = x"
  by (simp add: uint_word_of_int_eq take_bit_int_eq_self)

lemma max_word_1: "uint (max w (1 :: 32 word)) = max (uint w) 1"
  by (auto simp: max_def word_le_def)

lemma min_word_uint: "uint (min v w) = min (uint v) (uint w)" for v w :: "32 word"
  by (auto simp: min_def word_le_def)

text \<open>The TTL a client sees for a cached answer. It is at least one second. While the answer is fresh
  and sorted in time it is the time left, cut at the next multiple of the configured period counted
  from the acquisition: the client's copy never outlives the cached answer, and all clients' copies
  end at the same instants. Once nothing is left, or the order is stale, it is at most the
  fast-response TTL, or one second when that is zero.\<close>

theorem calculateUserTTL_bounds:
  assumes "0 \<le> elapsed" "0 \<le> orig" "orig < 2 ^ 32"
    "0 \<le> cache_FastResponseTTL cfg" "cache_FastResponseTTL cfg < 2 ^ 32"
    "e = elapsed div second" "ttl = uint (calculateUserTTL cfg orig elapsed stale)"
  shows "1 \<le> ttl
    \<and> (e < orig \<and> \<not> stale \<longrightarrow> e + ttl \<le> orig
        \<and> (cache_UserReturnTTL cfg \<le> 0 \<longrightarrow> e + ttl = orig)
        \<and> (0 < cache_UserReturnTTL cfg \<longrightarrow> ttl \<le> cache_UserReturnTTL cfg
             \<and> (e + ttl = orig \<or> cache_UserReturnTTL cfg dvd e + ttl)))
    \<and> (orig \<le> e \<or> stale \<longrightarrow> ttl \<le> max 1 (cache_FastResponseTTL cfg))"
proof -
  let ?U = "cache_UserReturnTTL cfg" and ?F = "cache_FastResponseTTL cfg"
  have e: "go_div elapsed second = e" "0 \<le> e"
    using assms(1,6) by (simp_all add: go_div_def second_def zdiv_int pos_imp_zdiv_nonneg_iff)
  have m: "e - go_div e ?U * ?U = e mod ?U" if "0 < ?U"
    using that e(2) by (simp add: go_div_def minus_div_mult_eq_mod)
  define left where "left = (if 0 < ?U then min (orig - e) (?U - e mod ?U) else orig - e)"
  have left: "1 \<le> left \<and> left \<le> orig - e \<and> (0 < ?U \<longrightarrow> left \<le> ?U)" if "e < orig"
  proof (cases "0 < ?U")
    case True
    then have "0 \<le> e mod ?U" "e mod ?U < ?U" by simp_all
    then show ?thesis using that unfolding left_def min_def by (simp split: if_splits)
  qed (use that in \<open>simp add: left_def\<close>)
  have dv: "e + left = orig \<or> ?U dvd e + left" if "0 < ?U" "left \<noteq> orig - e"
  proof -
    have "e + left = e div ?U * ?U + ?U" using that by (auto simp: left_def min_def minus_mod_eq_div_mult[symmetric])
    then show ?thesis by simp
  qed
  have F: "uint (word_of_int ?F :: 32 word) = ?F" using assms(4,5) by (rule uint_of_int_small)
  have t: "ttl = max (if e < orig then (if stale then min left ?F else left) else ?F) 1"
  proof (cases "e < orig")
    case True
    then have "uint (word_of_int left :: 32 word) = left"
      using left assms(3) e(2) by (intro uint_of_int_small) auto
    then show ?thesis using True m
      by (auto simp: assms(7) calculateUserTTL_def Let_def e(1) max_word_1 min_word_uint F left_def)
  next
    case False
    then show ?thesis by (simp add: assms(7) calculateUserTTL_def Let_def e(1) max_word_1 min_word_uint F)
  qed
  show ?thesis
  proof (cases "e < orig")
    case True
    have l0: "left = orig - e" if "\<not> 0 < ?U" using that by (simp add: left_def)
    have l1: "1 \<le> left" "left \<le> orig - e" "0 < ?U \<longrightarrow> left \<le> ?U" using left[OF True] by blast+
    have tt: "ttl = (if stale then max (min left ?F) 1 else left)" using True l1(1) by (simp add: t)
    have "e + left = orig \<or> ?U dvd e + left" if "0 < ?U" using dv[OF that] by (cases "left = orig - e") simp_all
    then show ?thesis using True l0 l1 unfolding tt by (cases "0 < ?U") auto
  qed (auto simp: t)
qed

lemma calculateUserTTL_bounds_witness:
  defines "cfg \<equiv> \<lparr>cache_FastResponseTTL = 15, cache_UserReturnTTL = 600, cache_MinTTLSeconds = 600, cache_MaxTTLSeconds = 86400,
     cache_NegativeTTLSeconds = 300, cache_ErrorCacheTTL = 30, cache_MaxMemoryMB = 128, cache_KeepExpiredEntries = True,
     cache_EvictionThreshold = 0, cache_EvictionBatchPercent = 0, cache_ProtectPrefetchDomains = True,
     cache_SaveToDiskIntervalMinutes = 60, cache_MsgCacheSizeMB = 0, cache_DNSSECMsgCacheTTLSeconds = 0\<rparr>"
  shows "700 + uint (calculateUserTTL cfg 3600 (700 * second) False) \<le> 3600
    \<and> uint (calculateUserTTL cfg 3600 (700 * second) True) \<le> 15"
proof -
  have c: "(0 :: int) \<le> 700 * second" "700 = 700 * second div second" "(0 :: int) \<le> 3600" "(3600 :: int) < 2 ^ 32"
    "0 \<le> cache_FastResponseTTL cfg" "cache_FastResponseTTL cfg < 2 ^ 32" "\<not> 3600 \<le> (700 :: int)"
    by (simp_all add: second_def cfg_def)
  have F: "max 1 (cache_FastResponseTTL cfg) = 15" by (simp add: cfg_def)
  show ?thesis
    using calculateUserTTL_bounds[OF c(1,3,4,5,6,2) refl, of False] calculateUserTTL_bounds[OF c(1,3,4,5,6,2) refl, of True]
    by (simp only: F c(7) simp_thms)
qed

text \<open>A positive TTL loses the elapsed seconds and stays at least one; the pseudo-record of EDNS keeps
  its flags in that field, so the flag that asks for DNSSEC records, bit 15, is lost after a
  second.\<close>

lemma adjusted_ttl_bounds:
  "0 \<le> elapsed \<Longrightarrow> 0 < ttl \<Longrightarrow> uint (adjusted_ttl elapsed ttl) = max 1 (uint ttl - elapsed div second)"
proof -
  assume "0 \<le> elapsed" "0 < ttl"
  moreover have "uint ttl < 2 ^ 32" "0 \<le> uint ttl" using uint_lt2p[of ttl] by simp_all
  moreover have "0 \<le> elapsed div second" using \<open>0 \<le> elapsed\<close> by (simp add: second_def pos_imp_zdiv_nonneg_iff)
  ultimately show ?thesis
    using uint_of_int_small[of "uint ttl - elapsed div second"]
    by (auto simp: adjusted_ttl_def Let_def second_def simp del: of_int_diff)
qed

lemma adjusted_ttl_edns: "adjusted_ttl (30 * second) 0x8000 = 0x7FE2"
  by (simp add: adjusted_ttl_def Let_def second_def)

subsection \<open>Errors of the upstream\<close>

lemma go_Contains_prefix: "prefix sub s \<Longrightarrow> go_Contains s sub"
  by (cases s) auto

lemma go_Contains_drop: "go_Contains t sub \<Longrightarrow> go_Contains (s @ t) sub"
  by (induction s) auto

lemma go_Contains_mid: "go_Contains (s @ sub @ t) sub"
  by (intro go_Contains_drop go_Contains_prefix) simp

lemma go_Contains_subset: "go_Contains s sub \<Longrightarrow> set sub \<subseteq> set s"
proof (induction s sub rule: go_Contains.induct)
  case (2 c s sub)
  then show ?case using set_mono_prefix[of sub "c # s"] by auto
qed simp

lemma digit_char_facts:
  assumes "d < 10"
  shows "\<not> is_space (digit_char d)" "digit_char d \<noteq> CHR ''-''" "digit_char d \<noteq> CHR ''+''"
    "digit_char d \<noteq> CHR ''N''" "digit_char d \<noteq> CHR ''h''"
proof -
  have o: "(of_char (digit_char d) :: nat) = 48 + d" using assms by (rule of_char_digit)
  show "\<not> is_space (digit_char d)" using assms by (simp add: is_space_def o)
  show "digit_char d \<noteq> CHR ''-''" "digit_char d \<noteq> CHR ''+''" "digit_char d \<noteq> CHR ''N''" "digit_char d \<noteq> CHR ''h''"
    using o assms by (auto simp: of_char_def)
qed

lemma scan_int_FormatInt:
  assumes "- (2 ^ 63) \<le> n" "n < 2 ^ 63"
  shows "scan_int (FormatInt n) = Some n"
proof -
  define ds where "ds = FormatUint (nat \<bar>n\<bar>)"
  have d: "\<exists>d < 10. c = digit_char d" if "c \<in> set ds" for c
    using that digits_FormatUint unfolding ds_def by blast
  then have digits: "digit_value c \<noteq> None \<and> \<not> is_space c \<and> c \<noteq> CHR ''-'' \<and> c \<noteq> CHR ''+''" if "c \<in> set ds" for c
    using that digit_char_facts by fastforce
  then have tw: "takeWhile (\<lambda>c. \<exists>y. digit_value c = Some y) ds = ds" by (simp add: takeWhile_eq_all_conv)
  obtain c cs where c: "ds = c # cs" using FormatUint_ne[of "nat \<bar>n\<bar>"] by (cases ds) (auto simp: ds_def)
  have dw: "dropWhile is_space ds = ds" using digits[of c] by (simp add: c)
  have hd: "hd ds \<noteq> CHR ''-''" "hd ds \<noteq> CHR ''+''" "ds \<noteq> []" using digits[of c] by (simp_all add: c)
  have p: "parse_digits 0 ds = Some (nat \<bar>n\<bar>)" by (simp add: ds_def parse_FormatUint)
  show ?thesis
  proof (cases "n < 0")
    case True
    then have f: "FormatInt n = CHR ''-'' # ds" by (simp add: FormatInt_def ds_def)
    have "\<not> is_space (CHR ''-'')" by code_simp
    then show ?thesis using True assms p tw hd(3) by (simp add: scan_int_def f Let_def tw)
  next
    case False
    then have f: "FormatInt n = ds" by (simp add: FormatInt_def ds_def)
    then show ?thesis using False assms p tw hd dw by (simp add: scan_int_def f Let_def tw)
  qed
qed

lemma contains_rcode: "go_Contains (''dns query failed: rcode='' @ t) ''rcode=''"
proof -
  have "go_Contains (''dns query failed: '' @ ''rcode='' @ t) ''rcode=''" by (rule go_Contains_mid)
  then show ?thesis by (simp del: go_Contains.simps)
qed

lemma parse_rcode_roundtrip:
  assumes "- (2 ^ 63) \<le> n" "n < 2 ^ 63"
  shows "parseRcodeFromError (Some (Err_text (''dns query failed: rcode='' @ FormatInt n))) = n"
proof -
  have "scan_literal ''dns query failed: rcode='' (''dns query failed: rcode='' @ FormatInt n) = Some (FormatInt n)"
    by simp
  then show ?thesis
    by (simp only: parseRcodeFromError_def option.case err_text.simps Let_def contains_rcode if_True
        scan_int_FormatInt[OF assms] Option.bind.bind_lunit)
qed

lemma FormatInt_no_letters: "CHR ''N'' \<notin> set (FormatInt n)" "CHR ''h'' \<notin> set (FormatInt n)"
proof -
  have "c \<notin> set (FormatUint m)" if "\<And>d. d < 10 \<Longrightarrow> digit_char d \<noteq> c" for c m
    using digits_FormatUint that by blast
  then show "CHR ''N'' \<notin> set (FormatInt n)" "CHR ''h'' \<notin> set (FormatInt n)"
    using digit_char_facts(4,5) by (simp_all add: FormatInt_def)
qed

lemma not_contains: "x \<in> set sub \<Longrightarrow> x \<notin> set s \<Longrightarrow> \<not> go_Contains s sub"
  using go_Contains_subset by blast

lemma parse_rcode_other_texts:
  "parseRcodeFromError (Some (Err_text (''dns error rcode='' @ FormatInt n))) = rcode_servfail"
  "parseRcodeFromError (Some (Err_text (''dns rcode='' @ FormatInt n))) = rcode_servfail"
proof -
  have no: "\<not> go_Contains (p @ FormatInt n) ''NXDOMAIN''" "\<not> go_Contains (p @ FormatInt n) ''no such host''"
    if "CHR ''N'' \<notin> set p" "CHR ''h'' \<notin> set p" for p
    using that FormatInt_no_letters[of n] not_contains[of "CHR ''N''" "''NXDOMAIN''" "p @ FormatInt n"]
      not_contains[of "CHR ''h''" "''no such host''" "p @ FormatInt n"]
    by (simp_all del: go_Contains.simps)
  have s: "scan_literal ''dns query failed: rcode='' (''dns error rcode='' @ FormatInt n) = None"
    "scan_literal ''dns query failed: rcode='' (''dns rcode='' @ FormatInt n) = None"
    by simp_all
  show "parseRcodeFromError (Some (Err_text (''dns error rcode='' @ FormatInt n))) = rcode_servfail"
    using no[of "''dns error rcode=''"]
    by (simp only: parseRcodeFromError_def option.case err_text.simps Let_def s Option.bind.bind_lzero if_cancel) simp
  show "parseRcodeFromError (Some (Err_text (''dns rcode='' @ FormatInt n))) = rcode_servfail"
    using no[of "''dns rcode=''"]
    by (simp only: parseRcodeFromError_def option.case err_text.simps Let_def s Option.bind.bind_lzero if_cancel) simp
qed

end
