(* ===== verification/Dns_Custom.thy ===== *)
theory Dns_Custom
  imports Dns_Response
begin

text \<open>\<open>dnsserver/custom_response.go\<close> and \<open>handler_custom.go\<close>: the user's own answers and the built-in
  rules for local names. A handler that answers gives the message it writes, one that passes the
  query on gives \<open>None\<close>.\<close>

section \<open>Custom rules\<close>

record CustomRule =
  cr_Domain :: string
  cr_Type :: qtype
  cr_Value :: string
  cr_TTL :: "32 word"

type_synonym rule_map = "string \<rightharpoonup> CustomRule list"

record CustomResponseManager =
  cm_rules :: rule_map
  cm_filePath :: string
  cm_lastLoad :: instant

definition NewCustomResponseManager :: "string \<Rightarrow> CustomResponseManager" where
  "NewCustomResponseManager filePath = \<lparr>cm_rules = Map.empty, cm_filePath = filePath, cm_lastLoad = 0\<rparr>"

definition line_error :: "nat \<Rightarrow> string \<Rightarrow> string" where
  "line_error lineNum text = ''line '' @ FormatUint lineNum @ '': '' @ text"

definition quoted :: "string \<Rightarrow> string" where
  "quoted s = CHR 0x27 # s @ [CHR 0x27]"

definition rule_type :: "nat \<Rightarrow> string \<Rightarrow> string \<Rightarrow> string + qtype" where
  "rule_type lineNum recordType val =
     (if recordType = ''A'' then
        (if ParseIP val = None \<or> go_Contains val '':'' then Inl (line_error lineNum (''invalid A record IP '' @ quoted val))
         else Inr TypeA)
      else if recordType = ''AAAA'' then
        (if ParseIP val = None then Inl (line_error lineNum (''invalid AAAA record IP '' @ quoted val)) else Inr TypeAAAA)
      else if recordType = ''CNAME'' then Inr TypeCNAME
      else Inl (line_error lineNum (''unsupported record type '' @ quoted recordType)))"

text \<open>One line, trimmed: nothing for an empty line or a comment, a rule, or an error.\<close>

definition parse_line :: "nat \<Rightarrow> string \<Rightarrow> string + CustomRule option" where
  "parse_line lineNum text =
     (let line = TrimSpace text; parts = go_Fields line in
      if line = '''' \<or> prefix ''#'' line then Inr None
      else if length parts \<noteq> 4 then Inl (line_error lineNum (''invalid format, expected '' @ quoted ''domain type value ttl''))
      else (case rule_type lineNum (ToUpper (parts ! 1)) (parts ! 2) of
          Inl err \<Rightarrow> Inl err
        | Inr qt \<Rightarrow> (case ParseUint 32 (parts ! 3) of
              None \<Rightarrow> Inl (line_error lineNum (''invalid TTL '' @ quoted (parts ! 3) @ '' (must be a positive integer)''))
            | Some ttl \<Rightarrow> if ttl = 0 then Inl (line_error lineNum (''invalid TTL '' @ quoted (parts ! 3) @ '' (must be a positive integer)''))
                else Inr (Some \<lparr>cr_Domain = ToLower (trim_dots (parts ! 0)), cr_Type = qt,
                                cr_Value = parts ! 2, cr_TTL = of_nat ttl\<rparr>))))"

definition add_rule :: "CustomRule \<Rightarrow> rule_map \<Rightarrow> rule_map" where
  "add_rule rule m = m(cr_Domain rule \<mapsto> (case m (cr_Domain rule) of None \<Rightarrow> [] | Some rs \<Rightarrow> rs) @ [rule])"

fun parse_lines :: "nat \<Rightarrow> rule_map \<Rightarrow> string list \<Rightarrow> string + rule_map" where
  "parse_lines n m [] = Inr m"
| "parse_lines n m (l # ls) = (case parse_line n l of
      Inl err \<Rightarrow> Inl err
    | Inr None \<Rightarrow> parse_lines (n + 1) m ls
    | Inr (Some rule) \<Rightarrow> parse_lines (n + 1) (add_rule rule m) ls)"

definition parseContent :: "string \<Rightarrow> string + rule_map" where
  "parseContent content = (case scan_lines content of (ls, ok) \<Rightarrow>
     (case parse_lines 1 Map.empty ls of
        Inl err \<Rightarrow> Inl err
      | Inr m \<Rightarrow> if ok then Inr m else Inl ''error reading content: bufio.Scanner: token too long''))"

definition ValidateRules :: "string \<Rightarrow> string option" where
  "ValidateRules content = (case parseContent content of Inl err \<Rightarrow> Some err | Inr _ \<Rightarrow> None)"

datatype file_state = Missing | Unreadable string | Content string

definition cm_Load :: "instant \<Rightarrow> file_state \<Rightarrow> CustomResponseManager \<Rightarrow> string option \<times> CustomResponseManager" where
  "cm_Load now f m = (case f of
      Missing \<Rightarrow> (None, m\<lparr>cm_rules := Map.empty\<rparr>)
    | Unreadable err \<Rightarrow> (Some (''failed to read custom response file: '' @ err), m)
    | Content content \<Rightarrow> (case parseContent content of
          Inl err \<Rightarrow> (Some err, m)
        | Inr rules \<Rightarrow> (None, m\<lparr>cm_rules := rules, cm_lastLoad := now\<rparr>)))"

definition cm_Match :: "string \<Rightarrow> qtype \<Rightarrow> CustomResponseManager \<Rightarrow> CustomRule list \<times> bool" where
  "cm_Match domain qt m = (case cm_rules m (ToLower (trim_dots domain)) of
      None \<Rightarrow> ([], False)
    | Some rules \<Rightarrow> (let matched = filter (\<lambda>r. cr_Type r = qt \<or> cr_Type r = TypeCNAME) rules
        in if matched \<noteq> [] then (matched, True) else ([], False)))"

section \<open>Answering by a custom rule\<close>

definition rule_record :: "string \<Rightarrow> CustomRule \<Rightarrow> dnsRR list" where
  "rule_record qname rule =
     (let text = (case ParseIP (cr_Value rule) of None \<Rightarrow> ''<nil>'' | Some p \<Rightarrow> IP_String p) in
      if cr_Type rule = TypeA then [\<lparr>rr_name = qname, rr_type = TypeA, rr_ttl = cr_TTL rule, rr_data = A_rec text\<rparr>]
      else if cr_Type rule = TypeAAAA
        then [\<lparr>rr_name = qname, rr_type = TypeAAAA, rr_ttl = cr_TTL rule, rr_data = AAAA_rec text\<rparr>]
      else [])"

definition question_name :: "dnsMsg \<Rightarrow> string" where
  "question_name r = (case msg_Question r of [] \<Rightarrow> '''' | (qname, _) # _ \<Rightarrow> qname)"

text \<open>The loop stops at the first alias; the rules of the type asked for are those before it.\<close>

definition handleCustomResponse :: "(string \<Rightarrow> string) \<Rightarrow> CustomResponseManager option \<Rightarrow> dnsMsg \<Rightarrow> string \<Rightarrow> qtype \<Rightarrow>
    dnsMsg option" where
  "handleCustomResponse fqdn mgr r domain qt = (case mgr of
      None \<Rightarrow> None
    | Some m \<Rightarrow> (case cm_Match domain qt m of
          (_, False) \<Rightarrow> None
        | (rules, True) \<Rightarrow>
           (let aRules = filter (\<lambda>rule. cr_Type rule = qt) (takeWhile (\<lambda>rule. cr_Type rule \<noteq> TypeCNAME) rules)
            in (case find (\<lambda>rule. cr_Type rule = TypeCNAME) rules of
                 Some rule \<Rightarrow> Some (add_answers [\<lparr>rr_name = question_name r, rr_type = TypeCNAME, rr_ttl = cr_TTL rule,
                                rr_data = CNAME_rec (fqdn (cr_Value rule))\<rparr>] (reply_to r rcode_success))
               | None \<Rightarrow> if aRules \<noteq> []
                   then Some (add_answers (concat (map (rule_record (question_name r)) aRules)) (reply_to r rcode_success))
                   else None))))"

section \<open>Local rules\<close>

definition localBlockedDomains :: "string \<rightharpoonup> int" where
  "localBlockedDomains = map_of
     [(''local'', rcode_refused), (''corp'', rcode_refused), (''home'', rcode_refused), (''lan'', rcode_refused),
      (''internal'', rcode_refused), (''intranet'', rcode_refused), (''private'', rcode_refused),
      (''home.arpa'', rcode_refused), (''wpad'', rcode_nxdomain), (''isatap'', rcode_refused),
      (''teredo.ipv6.microsoft.com'', rcode_nxdomain)]"

definition negative_reply :: "(string \<Rightarrow> string) \<Rightarrow> instant \<Rightarrow> dnsMsg \<Rightarrow> int \<Rightarrow> string \<Rightarrow> 32 word \<Rightarrow> dnsMsg" where
  "negative_reply fqdn now r rcode domain ttl = (reply_to r rcode)\<lparr>msg_Ns := [buildSOARecord fqdn now domain ttl]\<rparr>"

definition handleLocalRules :: "(string \<Rightarrow> string) \<Rightarrow> instant \<Rightarrow> dnsMsg \<Rightarrow> string \<Rightarrow> qtype \<Rightarrow> dnsMsg option" where
  "handleLocalRules fqdn now r domain qt =
     (if \<not> go_Contains domain ''.'' then Some (negative_reply fqdn now r rcode_refused domain 300)
      else if domain = ''localhost'' then
        (let ips = (if qt = TypeA then [''127.0.0.1''] else if qt = TypeAAAA then [''::1''] else [])
         in Some (buildDNSResponse fqdn domain ips qt 3600 (reply_to r rcode_success)))
      else if suffix ''.in-addr.arpa'' domain \<or> suffix ''.ip6.arpa'' domain
        then Some (negative_reply fqdn now r rcode_refused domain 300)
      else (case localBlockedDomains domain of
          Some rcode \<Rightarrow> Some (negative_reply fqdn now r rcode domain 300)
        | None \<Rightarrow> None))"

section \<open>Properties\<close>

lemma go_Contains_char: "go_Contains s [c] \<longleftrightarrow> c \<in> set s"
  by (induction s) auto

text \<open>C26: The built-in rules in effect. A name of a single label is refused, whatever it is, and so are
  reverse lookups; of the other names only two are in the table: \<open>home.arpa\<close> is refused and the
  Teredo server does not exist. So \<open>localhost\<close> is refused instead of answered with the loopback
  address, \<open>wpad\<close> is refused instead of denied, and no entry covers the names below it: a query for
  a host in \<open>.local\<close> or \<open>.lan\<close> goes to the upstream servers.\<close>

theorem handleLocalRules_exact:
  "handleLocalRules fqdn now r domain qt =
     (if CHR ''.'' \<notin> set domain \<or> suffix ''.in-addr.arpa'' domain \<or> suffix ''.ip6.arpa'' domain \<or> domain = ''home.arpa''
      then Some (negative_reply fqdn now r rcode_refused domain 300)
      else if domain = ''teredo.ipv6.microsoft.com'' then Some (negative_reply fqdn now r rcode_nxdomain domain 300)
      else None)"
proof (cases "CHR ''.'' \<in> set domain")
  case True
  then have "domain \<noteq> ''localhost''" "\<forall>d \<in> {''local'', ''corp'', ''home'', ''lan'', ''internal'', ''intranet'', ''private'', ''wpad'', ''isatap''}. domain \<noteq> d"
    by auto
  then show ?thesis using True
    by (simp add: handleLocalRules_def go_Contains_char localBlockedDomains_def)
qed (simp add: handleLocalRules_def go_Contains_char)

lemma handleLocalRules_exact_witness:
  "handleLocalRules id 0 example_request ''localhost'' TypeA
     = Some (negative_reply id 0 example_request rcode_refused ''localhost'' 300)
   \<and> handleLocalRules id 0 example_request ''nas.local'' TypeA = None"
  using handleLocalRules_exact[of id 0 example_request "''localhost''" TypeA]
    handleLocalRules_exact[of id 0 example_request "''nas.local''" TypeA]
  by (simp add: suffix_def)

subsection \<open>Custom answers\<close>

text \<open>The rules of a text in the order of its lines.\<close>

fun parsed_rules :: "nat \<Rightarrow> string list \<Rightarrow> CustomRule list" where
  "parsed_rules n [] = []"
| "parsed_rules n (l # ls) = (case parse_line n l of
      Inr (Some rule) \<Rightarrow> rule # parsed_rules (n + 1) ls
    | _ \<Rightarrow> parsed_rules (n + 1) ls)"

definition rules_at :: "rule_map \<Rightarrow> string \<Rightarrow> CustomRule list" where
  "rules_at m d = (case m d of None \<Rightarrow> [] | Some rs \<Rightarrow> rs)"

lemma parse_lines_fold: "parse_lines n m ls = Inr m' \<Longrightarrow> m' = fold add_rule (parsed_rules n ls) m"
  by (induction ls arbitrary: n m) (auto split: sum.splits option.splits)

lemma parse_lines_ok:
  "(\<exists>m'. parse_lines n m ls = Inr m') \<longleftrightarrow> (\<forall>i < length ls. \<exists>x. parse_line (n + i) (ls ! i) = Inr x)"
proof (induction ls arbitrary: n m)
  case (Cons l ls)
  have "(\<forall>i < length (l # ls). \<exists>x. parse_line (n + i) ((l # ls) ! i) = Inr x)
      \<longleftrightarrow> (\<exists>x. parse_line n l = Inr x) \<and> (\<forall>i < length ls. \<exists>x. parse_line (n + 1 + i) (ls ! i) = Inr x)"
    by (simp add: All_less_Suc2)
  then show ?case using Cons.IH by (auto split: sum.splits option.splits)
qed simp

lemma rules_at_fold: "rules_at (fold add_rule rs m) d = rules_at m d @ filter (\<lambda>r. cr_Domain r = d) rs"
  by (induction rs arbitrary: m) (auto simp: add_rule_def rules_at_def split: option.splits)

lemma cm_Match_rules:
  "cm_Match domain qt m = (let rs = filter (\<lambda>r. cr_Type r = qt \<or> cr_Type r = TypeCNAME) (rules_at (cm_rules m) (ToLower (trim_dots domain)))
     in (rs, rs \<noteq> []))"
  by (simp add: cm_Match_def rules_at_def Let_def split: option.splits)

lemma parse_line_rule:
  assumes "parse_line n l = Inr (Some rule)"
  shows "0 < cr_TTL rule" "cr_Type rule \<in> {TypeA, TypeAAAA, TypeCNAME}"
    "cr_Type rule \<noteq> TypeCNAME \<longrightarrow> ParseIP (cr_Value rule) \<noteq> None"
proof -
  have pos: "0 < (of_nat t :: 32 word)" if "ParseUint 32 s = Some t" "t \<noteq> 0" for s t
  proof -
    have "t < 2 ^ 32" using that(1) by (auto simp: ParseUint_def split: if_splits option.splits)
    then have "unat (of_nat t :: 32 word) = t" by (simp add: unsigned_of_nat take_bit_nat_eq_self)
    then show ?thesis using that(2) by (metis unat_0 word_gt_0)
  qed
  let ?parts = "go_Fields (TrimSpace l)"
  obtain t where t: "rule_type n (ToUpper (?parts ! 1)) (?parts ! 2) = Inr (cr_Type rule)"
    "cr_Value rule = ?parts ! 2" "ParseUint 32 (?parts ! 3) = Some t" "t \<noteq> 0" "cr_TTL rule = of_nat t"
    using assms by (auto simp: parse_line_def Let_def split: if_splits sum.splits option.splits)
  show "0 < cr_TTL rule" using pos[OF t(3,4)] by (simp add: t(5))
  show "cr_Type rule \<in> {TypeA, TypeAAAA, TypeCNAME}" "cr_Type rule \<noteq> TypeCNAME \<longrightarrow> ParseIP (cr_Value rule) \<noteq> None"
    using t(1) by (auto simp: rule_type_def t(2) split: if_splits)
qed

lemma parsed_rules_ok: "rule \<in> set (parsed_rules n ls) \<Longrightarrow> 0 < cr_TTL rule \<and> cr_Type rule \<in> {TypeA, TypeAAAA, TypeCNAME}
    \<and> (cr_Type rule \<noteq> TypeCNAME \<longrightarrow> ParseIP (cr_Value rule) \<noteq> None)"
  by (induction ls arbitrary: n) (auto dest: parse_line_rule split: sum.splits option.splits)

lemma find_takeWhile: "find P xs = None \<Longrightarrow> takeWhile (\<lambda>x. \<not> P x) xs = xs"
  by (induction xs) (auto split: if_splits)

definition alias_answer :: "(string \<Rightarrow> string) \<Rightarrow> dnsMsg \<Rightarrow> CustomRule \<Rightarrow> dnsMsg" where
  "alias_answer fqdn r rule = add_answers [\<lparr>rr_name = question_name r, rr_type = TypeCNAME, rr_ttl = cr_TTL rule,
     rr_data = CNAME_rec (fqdn (cr_Value rule))\<rparr>] (reply_to r rcode_success)"

text \<open>C25: From the text of the custom rules to the answer. If the text is accepted, each of its lines
  parses, and a query is answered by the rules of its name, in the order of
  the lines: with the first alias alone, if there is one, whatever the type asked for; otherwise
  with one record for each rule of that type; and it is passed on when there is no such rule. Every
  rule so used has a positive TTL, and an address that parses unless it is an alias.\<close>

theorem custom_rules_answer:
  assumes "parseContent content = Inr m" "cm_rules mgr = m"
    "rules = filter (\<lambda>r. cr_Domain r = ToLower (trim_dots domain) \<and> (cr_Type r = qt \<or> cr_Type r = TypeCNAME))
       (parsed_rules 1 (fst (scan_lines content)))"
  shows "handleCustomResponse fqdn (Some mgr) r domain qt =
      (if rules = [] then None
       else (case find (\<lambda>r. cr_Type r = TypeCNAME) rules of
           Some rule \<Rightarrow> Some (alias_answer fqdn r rule)
         | None \<Rightarrow> Some (add_answers (concat (map (rule_record (question_name r)) rules)) (reply_to r rcode_success))))
    \<and> (\<forall>rule \<in> set rules. 0 < cr_TTL rule \<and> (cr_Type rule \<noteq> TypeCNAME \<longrightarrow> ParseIP (cr_Value rule) \<noteq> None))
    \<and> (\<forall>i < length (fst (scan_lines content)). \<exists>x. parse_line (1 + i) (fst (scan_lines content) ! i) = Inr x)"
proof (intro conjI)
  obtain ls ok where s: "scan_lines content = (ls, ok)" by fastforce
  have p: "parse_lines 1 Map.empty ls = Inr m"
    using assms(1) by (auto simp: parseContent_def s split: sum.splits if_splits)
  have "rules_at m (ToLower (trim_dots domain)) = filter (\<lambda>r. cr_Domain r = ToLower (trim_dots domain)) (parsed_rules 1 ls)"
    unfolding parse_lines_fold[OF p] by (subst rules_at_fold) (simp add: rules_at_def)
  then have match: "cm_Match domain qt mgr = (rules, rules \<noteq> [])"
    by (simp add: cm_Match_rules assms(2,3) s Let_def conj_commute)
  have typed: "filter (\<lambda>rule. cr_Type rule = qt) (takeWhile (\<lambda>rule. cr_Type rule \<noteq> TypeCNAME) rules) = rules" if "find (\<lambda>r. cr_Type r = TypeCNAME) rules = None"
  proof -
    have tw: "takeWhile (\<lambda>r. cr_Type r \<noteq> TypeCNAME) rules = rules" using find_takeWhile[OF that] .
    then have "\<forall>r \<in> set rules. cr_Type r \<noteq> TypeCNAME" by (simp add: takeWhile_eq_all_conv)
    moreover have "\<forall>r \<in> set rules. cr_Type r = qt \<or> cr_Type r = TypeCNAME" by (simp add: assms(3))
    ultimately show ?thesis unfolding tw by (intro filter_True) blast
  qed
  show "handleCustomResponse fqdn (Some mgr) r domain qt =
      (if rules = [] then None
       else (case find (\<lambda>r. cr_Type r = TypeCNAME) rules of
           Some rule \<Rightarrow> Some (alias_answer fqdn r rule)
         | None \<Rightarrow> Some (add_answers (concat (map (rule_record (question_name r)) rules)) (reply_to r rcode_success))))"
    using typed by (auto simp: handleCustomResponse_def match alias_answer_def Let_def split: option.splits)
  show "\<forall>rule \<in> set rules. 0 < cr_TTL rule \<and> (cr_Type rule \<noteq> TypeCNAME \<longrightarrow> ParseIP (cr_Value rule) \<noteq> None)"
    using assms(3) parsed_rules_ok by auto
  show "\<forall>i < length (fst (scan_lines content)). \<exists>x. parse_line (1 + i) (fst (scan_lines content) ! i) = Inr x"
    using parse_lines_ok[of 1 Map.empty ls] p by (simp add: s)
qed

definition example_rules :: string where
  "example_rules = ''# mine'' @ [CHR 0x0A] @ '' NAS.lan. cname Box.lan 60''"

lemma custom_rules_answer_witness:
  "case parseContent example_rules of Inl _ \<Rightarrow> False | Inr m \<Rightarrow>
     map_option (\<lambda>a. map rr_data (msg_Answer a))
       (handleCustomResponse id (Some ((NewCustomResponseManager '''')\<lparr>cm_rules := m\<rparr>)) example_request ''nas.LAN'' TypeA)
     = Some [CNAME_rec ''Box.lan'']"
proof -
  have "\<not> isl (parseContent example_rules)" by code_simp
  then obtain m where m: "parseContent example_rules = Inr m" by (cases "parseContent example_rules") auto
  have rs: "filter (\<lambda>r. cr_Domain r = ToLower (trim_dots ''nas.LAN'') \<and> (cr_Type r = TypeA \<or> cr_Type r = TypeCNAME))
       (parsed_rules 1 (fst (scan_lines example_rules)))
     = [\<lparr>cr_Domain = ''nas.lan'', cr_Type = 5, cr_Value = ''Box.lan'', cr_TTL = 60\<rparr>]"
    by code_simp
  have "(5 :: qtype) = TypeCNAME" by (simp add: TypeCNAME_def)
  then show ?thesis
    using custom_rules_answer[OF m _ rs[symmetric], of "(NewCustomResponseManager '''')\<lparr>cm_rules := m\<rparr>" id example_request]
    by (simp add: m reply_to_def add_answers_def alias_answer_def)
qed

end
