(* ===== verification/Adblock.thy ===== *)
theory Adblock
  imports Go_Text
begin

text \<open>\<open>adblock/matcher.go\<close>, \<open>simple_filter.go\<close>, \<open>urlfilter.go\<close>, \<open>filter.go\<close>: the rule matchers and
  the two filter engines. The radix tree, the regular expressions and AdGuard's engine are not
  code of the program: they are arguments. A slice expression out of bounds panics, which is
  \<open>None\<close>.\<close>

datatype MatchResult = MatchNeutral | MatchBlocked | MatchAllowed

section \<open>Matchers\<close>

type_synonym ExactMatcher = "string set"
type_synonym HostsMatcher = "string \<rightharpoonup> string"

definition Exact_Match :: "string \<Rightarrow> ExactMatcher \<Rightarrow> bool \<times> string" where
  "Exact_Match domain m = (let d = ToLower domain in if d \<in> m then (True, d) else (False, ''''))"

definition Exact_AddRule :: "string \<Rightarrow> ExactMatcher \<Rightarrow> ExactMatcher" where
  "Exact_AddRule domain m = insert (ToLower domain) m"

definition Exact_Count :: "ExactMatcher \<Rightarrow> nat" where "Exact_Count m = card m"

definition Hosts_Match :: "string \<Rightarrow> HostsMatcher \<Rightarrow> bool \<times> string" where
  "Hosts_Match domain m = (let d = ToLower domain in
     (case m d of Some ip \<Rightarrow> (True, ip @ '' '' @ d) | None \<Rightarrow> (False, '''')))"

definition Hosts_AddRule :: "string \<Rightarrow> HostsMatcher \<Rightarrow> HostsMatcher" where
  "Hosts_AddRule domain m = m(ToLower domain \<mapsto> ''127.0.0.1'')"

definition Hosts_ParseAndAdd :: "string \<Rightarrow> HostsMatcher \<Rightarrow> HostsMatcher" where
  "Hosts_ParseAndAdd line m = (let fields = go_Fields line in
     if 2 \<le> length fields then m(ToLower (fields ! 1) \<mapsto> fields ! 0) else m)"

definition Hosts_Count :: "HostsMatcher \<Rightarrow> nat" where "Hosts_Count m = card (dom m)"

text \<open>The operations of the immutable radix tree that the suffix matcher calls, and what it relies
  on: the longest prefix is found exactly when some inserted key is a prefix.\<close>

record 't radix =
  rx_New :: 't
  rx_Insert :: "string \<Rightarrow> 't \<Rightarrow> 't"
  rx_LongestPrefix :: "string \<Rightarrow> 't \<Rightarrow> string option"
  rx_Len :: "'t \<Rightarrow> nat"

definition radix_finds :: "'t radix \<Rightarrow> ('t \<Rightarrow> string set) \<Rightarrow> bool" where
  "radix_finds R keys \<longleftrightarrow> keys (rx_New R) = {} \<and> (\<forall>k t. keys (rx_Insert R k t) = insert k (keys t))
     \<and> (\<forall>s t. (\<exists>k. rx_LongestPrefix R s t = Some k) \<longleftrightarrow> (\<exists>k \<in> keys t. prefix k s))"

definition reverse_labels :: "string \<Rightarrow> string" where
  "reverse_labels d = go_Join ''.'' (rev (go_Split (CHR ''.'') d))"

definition Suffix_Match :: "'t radix \<Rightarrow> string \<Rightarrow> 't \<Rightarrow> bool \<times> string" where
  "Suffix_Match R domain tree =
     (let originalDomain = ToLower (TrimSuffix domain ''.'')
      in (case rx_LongestPrefix R (reverse_labels originalDomain) tree of
            Some _ \<Rightarrow> (True, ''||'' @ originalDomain @ ''^'')
          | None \<Rightarrow> (False, '''')))"

definition Suffix_AddRule :: "'t radix \<Rightarrow> string \<Rightarrow> 't \<Rightarrow> 't" where
  "Suffix_AddRule R domain tree = rx_Insert R (reverse_labels (ToLower domain)) tree"

section \<open>The simple engine\<close>

record RegexRule =
  rg_Pattern :: "string \<Rightarrow> bool"
  rg_Raw :: string

record 't SimpleFilter =
  sf_exact :: ExactMatcher
  sf_suffix :: 't
  sf_hosts :: HostsMatcher
  sf_regex :: "RegexRule list"

definition NewSimpleFilter :: "'t radix \<Rightarrow> 't SimpleFilter" where
  "NewSimpleFilter R = \<lparr>sf_exact = {}, sf_suffix = rx_New R, sf_hosts = Map.empty, sf_regex = []\<rparr>"

definition Simple_CheckHost :: "'t radix \<Rightarrow> string \<Rightarrow> 't SimpleFilter \<Rightarrow> MatchResult \<times> string" where
  "Simple_CheckHost R host f =
     (let domain = ToLower (TrimSuffix host ''.'') in
      (case Exact_Match domain (sf_exact f) of (True, rule) \<Rightarrow> (MatchBlocked, ''Blacklist: '' @ rule)
       | (False, _) \<Rightarrow>
      (case Hosts_Match domain (sf_hosts f) of (True, rule) \<Rightarrow> (MatchBlocked, ''Hosts: '' @ rule)
       | (False, _) \<Rightarrow>
      (case Suffix_Match R domain (sf_suffix f) of (True, rule) \<Rightarrow> (MatchBlocked, ''AdBlock: '' @ rule)
       | (False, _) \<Rightarrow>
      (case find (\<lambda>r. rg_Pattern r domain) (sf_regex f) of
         Some r \<Rightarrow> (MatchBlocked, ''Regex: '' @ rg_Raw r)
       | None \<Rightarrow> (MatchNeutral, ''''))))))"

definition maxRegexRules :: nat where "maxRegexRules = 100"

definition QuoteMeta :: "string \<Rightarrow> string" where
  "QuoteMeta s = concat (map (\<lambda>c. if c \<in> set (CHR 0x5C # ''.+*?()|[]{}^$'') then [CHR 0x5C, c] else [c]) s)"

definition wildcard_regex :: "string \<Rightarrow> string" where
  "wildcard_regex domainPart =
     ''(?i)(^|'' @ [CHR 0x5C] @ ''.)'' @ go_ReplaceAll [CHR 0x5C, CHR ''*''] ''.*'' (QuoteMeta domainPart) @ ''$''"

definition case_insensitive :: "string \<Rightarrow> string" where
  "case_insensitive pat = (if prefix ''(?i)'' pat then pat else ''(?i)'' @ pat)"

definition add_regex :: "(string \<Rightarrow> (string \<Rightarrow> bool) option) \<Rightarrow> string \<Rightarrow> string \<Rightarrow> 't SimpleFilter \<Rightarrow> 't SimpleFilter" where
  "add_regex compile pat raw f = (case compile pat of None \<Rightarrow> f
     | Some re \<Rightarrow> f\<lparr>sf_regex := sf_regex f @ [\<lparr>rg_Pattern = re, rg_Raw = raw\<rparr>]\<rparr>)"

text \<open>The body of the loop of \<open>LoadRules\<close>, on the filter, the rules seen and the number of regular
  expressions. The pattern of a regular expression is \<open>rule[1 : len(rule)-1]\<close>.\<close>

type_synonym 't loading = "'t SimpleFilter \<times> string set \<times> nat"

definition is_regex_rule :: "string \<Rightarrow> bool" where
  "is_regex_rule rule \<longleftrightarrow> prefix ''/'' rule \<and> suffix ''/'' rule"

definition is_abp_rule :: "string \<Rightarrow> bool" where
  "is_abp_rule rule \<longleftrightarrow> prefix ''||'' rule \<and> suffix ''^'' rule"

definition is_comment :: "string \<Rightarrow> bool" where
  "is_comment rule \<longleftrightarrow> rule = '''' \<or> prefix ''!'' rule \<or> prefix ''#'' rule"

definition abp_domain :: "string \<Rightarrow> string" where
  "abp_domain rule = TrimSuffix (TrimPrefix rule ''||'') ''^''"

definition has_blank :: "string \<Rightarrow> bool" where
  "has_blank rule \<longleftrightarrow> go_Contains rule '' '' \<or> go_Contains rule [CHR 0x09]"

definition load_rule :: "'t radix \<Rightarrow> (string \<Rightarrow> (string \<Rightarrow> bool) option) \<Rightarrow> string \<Rightarrow> 't loading \<Rightarrow> 't loading option" where
  "load_rule R compile raw l = (case l of (f, seenRules, regexCount) \<Rightarrow>
     (let rule = TrimSpace raw in
      if is_comment rule then Some l
      else if rule \<in> seenRules then Some l
      else (let seen = insert rule seenRules in
        if is_regex_rule rule then
          (if maxRegexRules \<le> regexCount then Some (f, seen, regexCount)
           else if length rule < 2 then None
           else (let pattern = case_insensitive (take (length rule - 2) (drop 1 rule))
                 in Some (add_regex compile pattern rule f, seen,
                          if compile pattern = None then regexCount else regexCount + 1)))
        else if is_abp_rule rule then
          (let domainPart = abp_domain rule
           in Some (if go_Contains domainPart ''*'' then add_regex compile (wildcard_regex domainPart) rule f
                    else f\<lparr>sf_suffix := Suffix_AddRule R domainPart (sf_suffix f)\<rparr>, seen, regexCount))
        else if has_blank rule \<and> 2 \<le> length (go_Fields rule)
          then Some (f\<lparr>sf_hosts := Hosts_ParseAndAdd rule (sf_hosts f)\<rparr>, seen, regexCount)
        else Some (f\<lparr>sf_exact := Exact_AddRule rule (sf_exact f)\<rparr>, seen, regexCount))))"

fun load_rules :: "'t radix \<Rightarrow> (string \<Rightarrow> (string \<Rightarrow> bool) option) \<Rightarrow> string list \<Rightarrow> 't loading \<Rightarrow> 't loading option" where
  "load_rules R compile [] l = Some l"
| "load_rules R compile (r # rs) l = (case load_rule R compile r l of None \<Rightarrow> None
     | Some l' \<Rightarrow> load_rules R compile rs l')"

definition Simple_LoadRules :: "'t radix \<Rightarrow> (string \<Rightarrow> (string \<Rightarrow> bool) option) \<Rightarrow> string list \<Rightarrow> 't SimpleFilter option" where
  "Simple_LoadRules R compile rules = map_option fst (load_rules R compile rules (NewSimpleFilter R, {}, 0))"

definition Simple_Count :: "'t radix \<Rightarrow> 't SimpleFilter \<Rightarrow> nat" where
  "Simple_Count R f = Exact_Count (sf_exact f) + rx_Len R (sf_suffix f) + Hosts_Count (sf_hosts f) + length (sf_regex f)"

definition Simple_Close :: "'t SimpleFilter \<Rightarrow> 't SimpleFilter" where
  "Simple_Close f = f\<lparr>sf_regex := []\<rparr>"

section \<open>AdGuard's engine\<close>

text \<open>\<open>urlfilter.DNSEngine\<close>: its answer for a host is the matched rule's text, if the result is
  not nil and has a network rule, and whether it matched.\<close>

record DNSEngine =
  de_Match :: "string \<Rightarrow> string option option \<times> bool"
  de_RulesCount :: int

record URLFilterEngine =
  ue_engine :: "DNSEngine option"
  ue_ruleCount :: int

definition NewURLFilterEngine :: URLFilterEngine where
  "NewURLFilterEngine = \<lparr>ue_engine = None, ue_ruleCount = 0\<rparr>"

text \<open>\<open>build\<close> makes the engine of the joined rules, or fails; \<open>scan_count\<close> counts what the rule
  scanner finds.\<close>

definition URLFilter_LoadRules :: "(string \<Rightarrow> string + DNSEngine) \<Rightarrow> (string \<Rightarrow> int) \<Rightarrow> string list \<Rightarrow>
    URLFilterEngine \<Rightarrow> string option \<times> URLFilterEngine" where
  "URLFilter_LoadRules build scan_count rules e =
     (let rulesStr = go_Join [CHR 0x0A] rules in
      (case build rulesStr of
         Inl err \<Rightarrow> (Some err, e)
       | Inr engine \<Rightarrow> (None, \<lparr>ue_engine = Some engine,
           ue_ruleCount = (if 0 < scan_count rulesStr then scan_count rulesStr else int (length rules))\<rparr>)))"

definition URLFilter_CheckHost :: "string \<Rightarrow> URLFilterEngine \<Rightarrow> MatchResult \<times> string" where
  "URLFilter_CheckHost domain e = (case ue_engine e of
      None \<Rightarrow> (MatchNeutral, '''')
    | Some engine \<Rightarrow> (case de_Match engine domain of
          (Some (Some ruleText), True) \<Rightarrow>
             if prefix ''@@'' ruleText then (MatchAllowed, ruleText) else (MatchBlocked, ruleText)
        | _ \<Rightarrow> (MatchNeutral, '''')))"

definition URLFilter_Count :: "URLFilterEngine \<Rightarrow> int" where
  "URLFilter_Count e = (case ue_engine e of None \<Rightarrow> 0
     | Some engine \<Rightarrow> if 0 < de_RulesCount engine then de_RulesCount engine else ue_ruleCount e)"

definition URLFilter_Close :: "URLFilterEngine \<Rightarrow> URLFilterEngine" where
  "URLFilter_Close e = e\<lparr>ue_engine := None\<rparr>"

section \<open>The matchers as one interface\<close>

text \<open>What a filter engine expects of its matchers: adding a rule makes exactly the hosts it covers
  match, and the rest stays as it was.\<close>

locale matcher =
  fixes matches :: "string \<Rightarrow> 'm \<Rightarrow> bool"
    and add_rule :: "string \<Rightarrow> 'm \<Rightarrow> 'm"
    and empty_matcher :: 'm
    and covers :: "string \<Rightarrow> string \<Rightarrow> bool"
  assumes matches_empty: "\<not> matches d empty_matcher"
    and matches_add: "matches d (add_rule r m) \<longleftrightarrow> covers r d \<or> matches d m"
begin

lemma matches_fold: "matches d (fold add_rule rs m) \<longleftrightarrow> (\<exists>r \<in> set rs. covers r d) \<or> matches d m"
  by (induction rs arbitrary: m) (auto simp: matches_add)

lemma matches_all: "matches d (fold add_rule rs empty_matcher) \<longleftrightarrow> (\<exists>r \<in> set rs. covers r d)"
  by (simp add: matches_fold matches_empty)

lemma add_order_irrelevant:
  "set rs = set ss \<Longrightarrow> matches d (fold add_rule rs m) = matches d (fold add_rule ss m)"
  by (simp add: matches_fold)

end

interpretation exact: matcher "\<lambda>d m. fst (Exact_Match d m)" Exact_AddRule "{}" "\<lambda>r d. ToLower r = ToLower d"
  by unfold_locales (auto simp: Exact_Match_def Exact_AddRule_def Let_def)

definition hosts_covers :: "string \<Rightarrow> string \<Rightarrow> bool" where
  "hosts_covers line d \<longleftrightarrow> 2 \<le> length (go_Fields line) \<and> ToLower (go_Fields line ! 1) = ToLower d"

interpretation hosts: matcher "\<lambda>d m. fst (Hosts_Match d m)" Hosts_ParseAndAdd Map.empty hosts_covers
  by unfold_locales (auto simp: Hosts_Match_def Hosts_ParseAndAdd_def hosts_covers_def Let_def split: option.splits)

definition suffix_covers :: "string \<Rightarrow> string \<Rightarrow> bool" where
  "suffix_covers r d \<longleftrightarrow> prefix (reverse_labels (ToLower r)) (reverse_labels (ToLower (TrimSuffix d ''.'')))"

lemma Suffix_Match_iff:
  assumes "radix_finds R keys"
  shows "fst (Suffix_Match R d t) \<longleftrightarrow> (\<exists>k \<in> keys t. prefix k (reverse_labels (ToLower (TrimSuffix d ''.''))))"
proof -
  have "fst (Suffix_Match R d t) \<longleftrightarrow> (\<exists>k. rx_LongestPrefix R (reverse_labels (ToLower (TrimSuffix d ''.''))) t = Some k)"
    by (auto simp: Suffix_Match_def Let_def split: option.splits)
  then show ?thesis using assms unfolding radix_finds_def by simp
qed

lemma Suffix_laws:
  assumes "radix_finds R keys"
  shows "\<not> fst (Suffix_Match R d (rx_New R))"
    "fst (Suffix_Match R d (Suffix_AddRule R r t)) \<longleftrightarrow> suffix_covers r d \<or> fst (Suffix_Match R d t)"
proof -
  have "keys (rx_New R) = {}" "keys (rx_Insert R k t) = insert k (keys t)" for k
    using assms unfolding radix_finds_def by blast+
  then show "\<not> fst (Suffix_Match R d (rx_New R))"
    "fst (Suffix_Match R d (Suffix_AddRule R r t)) \<longleftrightarrow> suffix_covers r d \<or> fst (Suffix_Match R d t)"
    by (simp_all add: Suffix_Match_iff[OF assms] Suffix_AddRule_def suffix_covers_def)
qed

text \<open>A radix tree as the list of its keys, to show that its contract can hold.\<close>

definition key_list_radix :: "string list radix" where
  "key_list_radix = \<lparr>rx_New = [], rx_Insert = List.insert,
     rx_LongestPrefix = (\<lambda>s t. find (\<lambda>k. prefix k s) (rev (sort_key length t))), rx_Len = length\<rparr>"

lemma key_list_radix_finds: "radix_finds key_list_radix set"
proof -
  have "(\<exists>k. find P xs = Some k) \<longleftrightarrow> (\<exists>k \<in> set xs. P k)" for P and xs :: "string list"
    by (induction xs) auto
  then show ?thesis by (simp add: radix_finds_def key_list_radix_def)
qed

interpretation suffix_list: matcher "\<lambda>d t. fst (Suffix_Match key_list_radix d t)" "Suffix_AddRule key_list_radix"
    "rx_New key_list_radix" suffix_covers
  using Suffix_laws[OF key_list_radix_finds] by unfold_locales auto
section \<open>What a list of rules blocks\<close>

text \<open>The meaning of one trimmed line of a list, for a lower-case host without its final dot.\<close>

definition pattern_matches :: "(string \<Rightarrow> (string \<Rightarrow> bool) option) \<Rightarrow> string \<Rightarrow> string \<Rightarrow> bool" where
  "pattern_matches compile pat d = (case compile pat of None \<Rightarrow> False | Some re \<Rightarrow> re d)"

definition text_blocks :: "(string \<Rightarrow> (string \<Rightarrow> bool) option) \<Rightarrow> string \<Rightarrow> string \<Rightarrow> bool" where
  "text_blocks compile rule d =
     (if is_comment rule then False
      else if is_regex_rule rule
        then pattern_matches compile (case_insensitive (take (length rule - 2) (drop 1 rule))) d
      else if is_abp_rule rule
        then (if go_Contains (abp_domain rule) ''*'' then pattern_matches compile (wildcard_regex (abp_domain rule)) d
              else suffix_covers (abp_domain rule) d)
      else if has_blank rule \<and> 2 \<le> length (go_Fields rule) then hosts_covers rule d
      else ToLower rule = d)"

definition sf_blocks :: "'t radix \<Rightarrow> string \<Rightarrow> 't SimpleFilter \<Rightarrow> bool" where
  "sf_blocks R d f \<longleftrightarrow> fst (Exact_Match d (sf_exact f)) \<or> fst (Hosts_Match d (sf_hosts f))
     \<or> fst (Suffix_Match R d (sf_suffix f)) \<or> (\<exists>r \<in> set (sf_regex f). rg_Pattern r d)"

lemma fst_find:
  "fst (case find P xs of None \<Rightarrow> (n, t) | Some r \<Rightarrow> (b, g r)) = (if \<exists>x \<in> set xs. P x then b else n)"
  by (induction xs) auto

lemma Simple_CheckHost_blocks:
  "fst (Simple_CheckHost R host f) =
     (if sf_blocks R (ToLower (TrimSuffix host ''.'')) f then MatchBlocked else MatchNeutral)"
proof -
  let ?d = "ToLower (TrimSuffix host ''.'')"
  obtain a ra where a: "Exact_Match ?d (sf_exact f) = (a, ra)" by fastforce
  obtain b rb where b: "Hosts_Match ?d (sf_hosts f) = (b, rb)" by fastforce
  obtain c rc where c: "Suffix_Match R ?d (sf_suffix f) = (c, rc)" by fastforce
  show ?thesis
    by (cases a; cases b; cases c) (simp_all add: Simple_CheckHost_def sf_blocks_def Let_def a b c fst_find)
qed

lemma sf_blocks_add:
  "sf_blocks R d (add_regex compile pat raw f) \<longleftrightarrow> pattern_matches compile pat d \<or> sf_blocks R d f"
  "radix_finds R keys \<Longrightarrow>
   sf_blocks R d (f\<lparr>sf_suffix := Suffix_AddRule R r (sf_suffix f)\<rparr>) \<longleftrightarrow> suffix_covers r d \<or> sf_blocks R d f"
  "sf_blocks R d (f\<lparr>sf_hosts := Hosts_ParseAndAdd r (sf_hosts f)\<rparr>) \<longleftrightarrow> hosts_covers r d \<or> sf_blocks R d f"
  "sf_blocks R d (f\<lparr>sf_exact := Exact_AddRule r (sf_exact f)\<rparr>) \<longleftrightarrow> ToLower r = ToLower d \<or> sf_blocks R d f"
  by (auto simp: sf_blocks_def add_regex_def pattern_matches_def Suffix_laws hosts.matches_add exact.matches_add
      split: option.splits)

text \<open>One line: the filter blocks what it did and what the line blocks. Duplicates are skipped,
  which changes nothing because the seen lines are loaded.\<close>

definition loaded :: "'t radix \<Rightarrow> (string \<Rightarrow> (string \<Rightarrow> bool) option) \<Rightarrow> string \<Rightarrow> 't loading \<Rightarrow> bool" where
  "loaded R compile d l \<longleftrightarrow> (\<forall>rule \<in> fst (snd l). text_blocks compile rule d \<longrightarrow> sf_blocks R d (fst l))"

lemma load_rule_step:
  assumes "radix_finds R keys" "ToLower d = d" "is_regex_rule (TrimSpace raw) \<longrightarrow> n < maxRegexRules" "loaded R compile d (f, seen, n)"
    "load_rule R compile raw (f, seen, n) = Some (f', seen', n')"
  shows "sf_blocks R d f' \<longleftrightarrow> text_blocks compile (TrimSpace raw) d \<or> sf_blocks R d f"
    "loaded R compile d (f', seen', n')"
    "n' \<le> (if is_regex_rule (TrimSpace raw) then n + 1 else n)"
proof -
  let ?r = "TrimSpace raw"
  note blocks_add = sf_blocks_add(1)[where R = R] sf_blocks_add(2)[OF assms(1)] sf_blocks_add(3,4)[where R = R]
  have seen': "seen' \<subseteq> insert ?r seen"
    using assms(3,5) by (auto simp: load_rule_def Let_def split: if_splits)
  show step: "sf_blocks R d f' \<longleftrightarrow> text_blocks compile ?r d \<or> sf_blocks R d f"
  proof (cases "is_comment ?r \<or> ?r \<in> seen")
    case True
    then have "f' = f" using assms(5) by (auto simp: load_rule_def Let_def split: if_splits)
    moreover have "text_blocks compile ?r d \<longrightarrow> sf_blocks R d f"
      using True assms(4) by (auto simp: loaded_def text_blocks_def)
    ultimately show ?thesis by blast
  next
    case False
    then show ?thesis using assms(2,3,5)
      by (auto simp: load_rule_def Let_def text_blocks_def blocks_add split: if_splits)
  qed
  show "loaded R compile d (f', seen', n')" using assms(4) seen' step unfolding loaded_def by auto
  show "n' \<le> (if is_regex_rule ?r then n + 1 else n)"
    using assms(5) by (auto simp: load_rule_def Let_def split: if_splits)
qed

lemma load_rule_None:
  assumes "is_regex_rule (TrimSpace raw) \<longrightarrow> n < maxRegexRules" "''/'' \<notin> seen"
  shows "load_rule R compile raw (f, seen, n) = None \<longleftrightarrow> TrimSpace raw = ''/''"
    and "load_rule R compile raw (f, seen, n) = Some (f', seen', n') \<Longrightarrow> ''/'' \<notin> seen'"
proof -
  have short: "is_regex_rule r \<Longrightarrow> length r < 2 \<longleftrightarrow> r = ''/''" for r
    by (cases r; cases "tl r") (auto simp: is_regex_rule_def)
  show n: "load_rule R compile raw (f, seen, n) = None \<longleftrightarrow> TrimSpace raw = ''/''"
  proof (cases "TrimSpace raw = ''/''")
    case True
    moreover have "\<not> is_comment ''/''" "is_regex_rule ''/''" by code_simp+
    ultimately show ?thesis using assms by (simp add: load_rule_def Let_def)
  next
    case False
    then show ?thesis using short[of "TrimSpace raw"] by (simp add: load_rule_def Let_def)
  qed
  show "load_rule R compile raw (f, seen, n) = Some (f', seen', n') \<Longrightarrow> ''/'' \<notin> seen'"
  proof -
    assume some: "load_rule R compile raw (f, seen, n) = Some (f', seen', n')"
    then have "seen' \<subseteq> insert (TrimSpace raw) seen"
      by (auto simp: load_rule_def Let_def split: if_splits)
    then show ?thesis using assms(2) n some by auto
  qed
qed

lemma load_rules_blocks:
  assumes "radix_finds R keys" "ToLower d = d" "loaded R compile d (f, seen, n)" "''/'' \<notin> seen"
    "n + length (filter (\<lambda>r. is_regex_rule (TrimSpace r)) rules) \<le> maxRegexRules"
  shows "case load_rules R compile rules (f, seen, n) of
      None \<Rightarrow> \<exists>r \<in> set rules. TrimSpace r = ''/''
    | Some l \<Rightarrow> (\<forall>r \<in> set rules. TrimSpace r \<noteq> ''/'')
        \<and> (sf_blocks R d (fst l) \<longleftrightarrow> (\<exists>r \<in> set rules. text_blocks compile (TrimSpace r) d) \<or> sf_blocks R d f)"
  using assms(3-)
proof (induction rules arbitrary: f seen n)
  case (Cons r rules)
  have room: "is_regex_rule (TrimSpace r) \<longrightarrow> n < maxRegexRules" using Cons.prems(3) by auto
  note none = load_rule_None[OF room Cons.prems(2), where R = R and compile = compile and f = f]
  show ?case
  proof (cases "load_rule R compile r (f, seen, n)")
    case None
    then show ?thesis using none(1) by simp
  next
    case (Some l)
    obtain f' seen' n' where l: "l = (f', seen', n')" by (cases l)
    note step = load_rule_step[OF assms(1,2) room Cons.prems(1) Some[unfolded l]]
    have "n' + length (filter (\<lambda>r. is_regex_rule (TrimSpace r)) rules) \<le> maxRegexRules"
      using step(3) Cons.prems(3) by (auto split: if_splits)
    from Cons.IH[OF step(2) none(2)[OF Some[unfolded l]] this]
    show ?thesis using none(1) Some step(1) by (auto simp: l split: option.splits)
  qed
qed simp

text \<open>C5: The simple engine against the meaning of its lists. Loading a list of lines panics exactly
  when some line, trimmed, is a single slash: it is taken for a regular expression and its pattern
  is the slice from 1 to 0. Otherwise a host is blocked exactly when some line blocks it, whatever
  the order and the repetitions of the lines, and is neutral when none does: the engine never
  answers that a host is allowed, so exception rules have no effect. It holds for every list of at
  most a hundred regular expressions, beyond which they are ignored.\<close>

theorem SimpleFilter_blocks_iff:
  assumes "radix_finds R keys"
    "length (filter (\<lambda>r. is_regex_rule (TrimSpace r)) rules) \<le> 100"
  shows "case Simple_LoadRules R compile rules of
      None \<Rightarrow> \<exists>r \<in> set rules. TrimSpace r = ''/''
    | Some f \<Rightarrow> (\<forall>r \<in> set rules. TrimSpace r \<noteq> ''/'')
        \<and> fst (Simple_CheckHost R host f) =
            (if \<exists>r \<in> set rules. text_blocks compile (TrimSpace r) (ToLower (TrimSuffix host ''.''))
             then MatchBlocked else MatchNeutral)"
proof -
  let ?d = "ToLower (TrimSuffix host ''.'')" and ?l = "(NewSimpleFilter R, {}, 0)"
  have "\<not> sf_blocks R ?d (NewSimpleFilter R)"
    using Suffix_laws(1)[OF assms(1)] exact.matches_empty hosts.matches_empty
    by (simp add: sf_blocks_def NewSimpleFilter_def)
  moreover have "loaded R compile ?d ?l" by (simp add: loaded_def)
  ultimately show ?thesis
    using load_rules_blocks[OF assms(1), of ?d compile "NewSimpleFilter R" "{}" 0 rules] assms(2)
    by (auto simp: Simple_LoadRules_def Simple_CheckHost_blocks maxRegexRules_def split: option.splits)
qed

text \<open>At concrete lists: a domain rule covers every name whose reversed text it is a prefix of, so
  \<open>||exa.com^\<close> blocks \<open>example.com\<close>, and the empty rule \<open>||^\<close> blocks everything.\<close>

lemma suffix_covers_examples:
  "suffix_covers ''exa.com'' ''www.exa.com''" "suffix_covers ''exa.com'' ''example.com''"
  "\<not> suffix_covers ''exa.com'' ''exa.org''" "suffix_covers '''' d"
  by (code_simp, code_simp, code_simp) (simp add: suffix_covers_def reverse_labels_def)

definition example_list :: "string list" where
  "example_list = [''||exa.com^'', ''! note'', '' 127.0.0.1 ads.org '']"

lemma SimpleFilter_blocks_iff_witness:
  "radix_finds key_list_radix set
   \<and> (case Simple_LoadRules key_list_radix Map.empty example_list of
        None \<Rightarrow> False
      | Some f \<Rightarrow> fst (Simple_CheckHost key_list_radix ''Example.com.'' f) = MatchBlocked)"
proof -
  have l: "length (filter (\<lambda>r. is_regex_rule (TrimSpace r)) example_list) \<le> 100" by code_simp
  have "\<exists>r \<in> set example_list. text_blocks Map.empty (TrimSpace r) (ToLower (TrimSuffix ''Example.com.'' ''.''))"
    by (rule bexI[of _ "''||exa.com^''"]) (code_simp, simp add: example_list_def)
  moreover have "\<not> (\<exists>r \<in> set example_list. TrimSpace r = ''/'')" by code_simp
  ultimately show ?thesis
    using SimpleFilter_blocks_iff[OF key_list_radix_finds l, where compile = Map.empty and host = "''Example.com.''"]
    by (simp add: key_list_radix_finds split: option.splits)
qed

end
