(* ===== verification/Adblock_Sources.thy ===== *)
theory Adblock_Sources
  imports Adblock Config Go_Num
begin

text \<open>\<open>adblock/utils.go\<close>, \<open>rule_loader.go\<close>, \<open>source_manager.go\<close>, \<open>manager.go\<close>, \<open>stats.go\<close>: where the
  lists come from and how they reach the engine. The file system is a map from paths to contents;
  a path without content is a file that cannot be read. The HTTP replies, the failures of file
  operations, JSON, the path join, the URL hash and the calendar are arguments.\<close>

section \<open>Files of rules\<close>

type_synonym files = "string \<rightharpoonup> string"

definition valid_line :: "string \<Rightarrow> bool" where
  "valid_line line \<longleftrightarrow> line \<noteq> '''' \<and> \<not> prefix ''#'' line \<and> \<not> prefix ''!'' line"

definition ReadValidRules :: "files \<Rightarrow> string \<Rightarrow> string list option" where
  "ReadValidRules fs path = (case fs path of
      None \<Rightarrow> None
    | Some content \<Rightarrow> (case scan_lines content of (ls, ok) \<Rightarrow>
        if ok then Some (filter valid_line (map TrimSpace ls)) else None))"

definition CountValidRules :: "files \<Rightarrow> string \<Rightarrow> int option" where
  "CountValidRules fs path = map_option (\<lambda>ls. int (length ls)) (ReadValidRules fs path)"

definition IsLocalFile :: "string \<Rightarrow> bool" where
  "IsLocalFile url \<longleftrightarrow> prefix ''file://'' url \<or> \<not> prefix ''http'' url"

definition GetLocalFilePath :: "string \<Rightarrow> string" where
  "GetLocalFilePath url = TrimPrefix url ''file://''"

section \<open>Engines\<close>

datatype 't FilterEngine = E_urlfilter URLFilterEngine | E_simple "'t SimpleFilter"

record 't engine_env =
  ev_radix :: "'t radix"
  ev_compile :: "string \<Rightarrow> (string \<Rightarrow> bool) option"
  ev_build :: "string \<Rightarrow> string + DNSEngine"
  ev_scan_count :: "string \<Rightarrow> int"

definition CreateEngine :: "'t engine_env \<Rightarrow> AdBlockConfig \<Rightarrow> string + 't FilterEngine" where
  "CreateEngine ev cfg =
     (if ToLower (ad_Engine cfg) = ''urlfilter'' then Inr (E_urlfilter NewURLFilterEngine)
      else if ToLower (ad_Engine cfg) = ''simple'' then Inr (E_simple (NewSimpleFilter (ev_radix ev)))
      else Inl (''unknown adblock engine: '' @ ad_Engine cfg))"

definition engine_CheckHost :: "'t engine_env \<Rightarrow> string \<Rightarrow> 't FilterEngine \<Rightarrow> MatchResult \<times> string" where
  "engine_CheckHost ev host e = (case e of E_urlfilter u \<Rightarrow> URLFilter_CheckHost host u
     | E_simple f \<Rightarrow> Simple_CheckHost (ev_radix ev) host f)"

text \<open>\<open>None\<close> is the panic of the simple engine.\<close>

definition engine_LoadRules :: "'t engine_env \<Rightarrow> string list \<Rightarrow> 't FilterEngine \<Rightarrow> (string option \<times> 't FilterEngine) option" where
  "engine_LoadRules ev rules e = (case e of
      E_urlfilter u \<Rightarrow> (case URLFilter_LoadRules (ev_build ev) (ev_scan_count ev) rules u of
          (err, u') \<Rightarrow> Some (err, E_urlfilter u'))
    | E_simple f \<Rightarrow> (case Simple_LoadRules (ev_radix ev) (ev_compile ev) rules of
          None \<Rightarrow> None | Some f' \<Rightarrow> Some (None, E_simple f')))"

definition engine_Count :: "'t engine_env \<Rightarrow> 't FilterEngine \<Rightarrow> int" where
  "engine_Count ev e = (case e of E_urlfilter u \<Rightarrow> URLFilter_Count u | E_simple f \<Rightarrow> int (Simple_Count (ev_radix ev) f))"

section \<open>Sources\<close>

record SourceInfo =
  si_URL :: string
  si_ETag :: string
  si_LastModified :: string
  si_CacheFile :: string
  si_RuleCount :: int
  si_LastUpdate :: instant
  si_LastError :: string
  si_FailCount :: int
  si_Status :: string
  si_Enabled :: bool

record SourceStatus =
  st_URL :: string
  st_Status :: string
  st_Enabled :: bool
  st_RuleCount :: int
  st_LastUpdate :: instant
  st_LastError :: string

record SourceManager =
  sm_sources :: "(string \<times> SourceInfo) list"
  sm_metaFile :: string

definition on_source :: "string \<Rightarrow> (SourceInfo \<Rightarrow> SourceInfo) \<Rightarrow> SourceManager \<Rightarrow> SourceManager" where
  "on_source url g sm = sm\<lparr>sm_sources := map_value url g (sm_sources sm)\<rparr>"

definition sm_AddSource :: "(string \<Rightarrow> string) \<Rightarrow> string \<Rightarrow> SourceManager \<Rightarrow> SourceManager" where
  "sm_AddSource hash url sm =
     (if map_of (sm_sources sm) url \<noteq> None then on_source url (\<lambda>s. s\<lparr>si_Enabled := True\<rparr>) sm
      else sm\<lparr>sm_sources := AList.update url
        \<lparr>si_URL = url, si_ETag = '''', si_LastModified = '''', si_CacheFile = ''rules_'' @ hash url @ ''.txt'',
         si_RuleCount = 0, si_LastUpdate = 0, si_LastError = '''', si_FailCount = 0,
         si_Status = ''active'', si_Enabled = True\<rparr> (sm_sources sm)\<rparr>)"

definition sm_RemoveSource :: "(string \<Rightarrow> string) \<Rightarrow> string \<Rightarrow> SourceManager \<times> files \<Rightarrow> SourceManager \<times> files" where
  "sm_RemoveSource cache_path url x = (case x of (sm, fs) \<Rightarrow>
     (case map_of (sm_sources sm) url of None \<Rightarrow> (sm, fs)
      | Some s \<Rightarrow> (sm\<lparr>sm_sources := AList.delete url (sm_sources sm)\<rparr>, fs(cache_path (si_CacheFile s) := None))))"

definition GetSource :: "string \<Rightarrow> SourceManager \<Rightarrow> SourceInfo option" where
  "GetSource url sm = map_of (sm_sources sm) url"

definition GetAllSources :: "SourceManager \<Rightarrow> SourceInfo list" where
  "GetAllSources sm = (let ss = map snd (sm_sources sm)
     in filter (\<lambda>s. IsLocalFile (si_URL s)) ss @ filter (\<lambda>s. \<not> IsLocalFile (si_URL s)) ss)"

definition source_failed :: "instant \<Rightarrow> int \<Rightarrow> string \<Rightarrow> SourceInfo \<Rightarrow> SourceInfo" where
  "source_failed now ruleCount err s =
     (let n = si_FailCount s + 1
      in s\<lparr>si_LastUpdate := now, si_RuleCount := ruleCount, si_LastError := err, si_FailCount := n,
           si_Status := (if n = 1 \<and> ruleCount = 0 then ''initializing'' else if 3 \<le> n then ''bad'' else ''failed'')\<rparr>)"

definition source_loaded :: "instant \<Rightarrow> int \<Rightarrow> SourceInfo \<Rightarrow> SourceInfo" where
  "source_loaded now ruleCount s =
     s\<lparr>si_LastUpdate := now, si_RuleCount := ruleCount, si_LastError := '''', si_FailCount := 0, si_Status := ''active''\<rparr>"

definition UpdateSourceStatus :: "instant \<Rightarrow> string \<Rightarrow> int \<Rightarrow> string option \<Rightarrow> SourceManager \<Rightarrow> SourceManager" where
  "UpdateSourceStatus now url ruleCount err sm = on_source url
     (case err of Some e \<Rightarrow> source_failed now ruleCount e | None \<Rightarrow> source_loaded now ruleCount) sm"

definition GetStatuses :: "SourceManager \<Rightarrow> SourceStatus list" where
  "GetStatuses sm = map (\<lambda>(_, s). \<lparr>st_URL = si_URL s, st_Status = si_Status s, st_Enabled = si_Enabled s,
     st_RuleCount = si_RuleCount s, st_LastUpdate = si_LastUpdate s, st_LastError = si_LastError s\<rparr>) (sm_sources sm)"

definition sm_SetEnabled :: "string \<Rightarrow> bool \<Rightarrow> SourceManager \<Rightarrow> SourceManager" where
  "sm_SetEnabled url enabled sm = on_source url (\<lambda>s. s\<lparr>si_Enabled := enabled\<rparr>) sm"

text \<open>\<open>rules_meta.json\<close>. Sources written before the field existed are enabled.\<close>

definition loadMeta :: "(string \<Rightarrow> SourceInfo list option) \<Rightarrow> files \<Rightarrow> SourceManager \<Rightarrow> SourceManager" where
  "loadMeta unmarshal fs sm = (case fs (sm_metaFile sm) of
      None \<Rightarrow> sm
    | Some data \<Rightarrow> (case unmarshal data of
          None \<Rightarrow> sm
        | Some sources \<Rightarrow>
           (let hasEnabled = go_Contains data [CHR 0x22, CHR ''e'', CHR ''n'', CHR ''a'', CHR ''b'', CHR ''l'', CHR ''e'', CHR ''d'', CHR 0x22]
            in sm\<lparr>sm_sources := foldl (\<lambda>m s. let s' = (if hasEnabled then s else s\<lparr>si_Enabled := True\<rparr>)
                 in AList.update (si_URL s') s' m) (sm_sources sm) sources\<rparr>)))"

definition saveMeta :: "(SourceInfo list \<Rightarrow> string) \<Rightarrow> SourceManager \<Rightarrow> files \<Rightarrow> files" where
  "saveMeta marshal sm fs = fs(sm_metaFile sm \<mapsto> marshal (map snd (sm_sources sm)))"

definition source_path :: "(string \<Rightarrow> string) \<Rightarrow> SourceInfo \<Rightarrow> string" where
  "source_path cache_path s = (if IsLocalFile (si_URL s) then GetLocalFilePath (si_URL s)
     else cache_path (si_CacheFile s))"

definition recalculateRuleCounts :: "(string \<Rightarrow> string) \<Rightarrow> files \<Rightarrow> SourceManager \<Rightarrow> SourceManager" where
  "recalculateRuleCounts cache_path fs sm = sm\<lparr>sm_sources := map (\<lambda>(k, s). (k,
     if \<not> si_Enabled s then s
     else (case CountValidRules fs (source_path cache_path s) of Some n \<Rightarrow> s\<lparr>si_RuleCount := n\<rparr> | None \<Rightarrow> s)))
     (sm_sources sm)\<rparr>"

definition ensureCustomRulesFile :: "string \<Rightarrow> string \<Rightarrow> files \<Rightarrow> files" where
  "ensureCustomRulesFile template path fs = (if fs path = None then fs(path \<mapsto> template) else fs)"

definition NewSourceManager :: "(string \<Rightarrow> string) \<Rightarrow> (string \<Rightarrow> string) \<Rightarrow> (string \<Rightarrow> SourceInfo list option) \<Rightarrow> string \<Rightarrow>
    AdBlockConfig \<Rightarrow> files \<Rightarrow> SourceManager \<times> files" where
  "NewSourceManager hash cache_path unmarshal template cfg fs =
     (let sm0 = loadMeta unmarshal fs \<lparr>sm_sources = [], sm_metaFile = cache_path ''rules_meta.json''\<rparr>;
          sm1 = foldl (\<lambda>m url. sm_AddSource hash url m) sm0 (ad_RuleURLs cfg);
          custom = ad_CustomRulesFile cfg;
          (sm2, fs2) = (if custom \<noteq> '''' then (sm_AddSource hash custom sm1, ensureCustomRulesFile template custom fs)
                        else (sm1, fs))
      in (recalculateRuleCounts cache_path fs2 sm2, fs2))"

section \<open>Downloading\<close>

record http_response =
  hr_StatusCode :: int
  hr_Status :: string
  hr_ETag :: string
  hr_LastModified :: string
  hr_Body :: string

datatype file_op = Op_Create | Op_Copy | Op_Close | Op_Rename

text \<open>One attempt: the reply, or the error of making or sending the request, and which file
  operations fail. The result carries the source with its new cache headers and the files.\<close>

record attempt =
  at_reply :: "string + http_response"
  at_fails :: "file_op \<Rightarrow> string option"

type_synonym download = "(string + string \<times> int) \<times> SourceInfo \<times> files"

definition maxFileSizeLimit :: int where "maxFileSizeLimit = 50 * 1024 * 1024"

definition store_body :: "(file_op \<Rightarrow> string option) \<Rightarrow> string \<Rightarrow> http_response \<Rightarrow> SourceInfo \<Rightarrow> files \<Rightarrow> download" where
  "store_body fails cachePath resp s fs =
     (let tempPath = cachePath @ ''.tmp'';
          drop_temp = (\<lambda>err. (Inl err, s, fs(tempPath := None)));
          fs1 = fs(tempPath \<mapsto> hr_Body resp);
          n = length (hr_Body resp)
      in case fails Op_Create of Some err \<Rightarrow> (Inl err, s, fs) | None \<Rightarrow>
        (case fails Op_Copy of Some err \<Rightarrow> drop_temp (''failed to write file: '' @ err) | None \<Rightarrow>
        (case fails Op_Close of Some err \<Rightarrow> drop_temp (''failed to close temp file: '' @ err) | None \<Rightarrow>
         if n = 0 then drop_temp ''downloaded file is empty (0 bytes)''
         else if maxFileSizeLimit < int n
           then drop_temp (''file exceeds 50MB limit (size: '' @ FormatUint n @ '' bytes)'')
         else (case CountValidRules fs1 tempPath of
             None \<Rightarrow> drop_temp ''failed to count rules''
           | Some ruleCount \<Rightarrow>
              if ruleCount = 0
                then drop_temp (''downloaded file contains no valid rules (received '' @ FormatUint n @ '' bytes)'')
              else (case fails Op_Rename of Some err \<Rightarrow> drop_temp (''failed to finalize cache file: '' @ err)
                | None \<Rightarrow> (Inr (cachePath, ruleCount),
                    s\<lparr>si_ETag := hr_ETag resp, si_LastModified := hr_LastModified resp\<rparr>,
                    fs(tempPath := None, cachePath \<mapsto> hr_Body resp)))))))"

definition downloadRemoteFile :: "(string \<Rightarrow> string) \<Rightarrow> attempt \<Rightarrow> SourceInfo \<Rightarrow> files \<Rightarrow> download" where
  "downloadRemoteFile cache_path a s fs = (case at_reply a of
      Inl err \<Rightarrow> (Inl err, s, fs)
    | Inr resp \<Rightarrow>
       if hr_StatusCode resp = 304 then (Inr (cache_path (si_CacheFile s), si_RuleCount s), s, fs)
       else if hr_StatusCode resp \<noteq> 200 then (Inl (''bad status: '' @ hr_Status resp), s, fs)
       else store_body (at_fails a) (cache_path (si_CacheFile s)) resp s fs)"

definition permanent_error :: "string \<Rightarrow> bool" where
  "permanent_error err \<longleftrightarrow> go_Contains err ''bad status: 404'' \<or> go_Contains err ''bad status: 403''
     \<or> go_Contains err ''exceeds 50MB limit''"

definition maxRetries :: nat where "maxRetries = 3"

text \<open>The attempts still possible; \<open>cancelled\<close> tells whether the context ends while it waits after
  an attempt. \<open>None\<close> as the last error is the loop that never ran.\<close>

fun download_loop :: "(string \<Rightarrow> string) \<Rightarrow> (nat \<Rightarrow> attempt) \<Rightarrow> (nat \<Rightarrow> string option) \<Rightarrow> nat \<Rightarrow> nat \<Rightarrow> string \<Rightarrow>
    SourceInfo \<Rightarrow> files \<Rightarrow> download" where
  "download_loop cache_path replies cancelled attempt 0 lastErr s fs =
     (Inl (''failed to download after '' @ FormatUint maxRetries @ '' attempts: '' @ lastErr), s, fs)"
| "download_loop cache_path replies cancelled attempt (Suc left) lastErr s fs =
     (case downloadRemoteFile cache_path (replies attempt) s fs of
        (Inr ok, s', fs') \<Rightarrow> (Inr ok, s', fs')
      | (Inl err, s', fs') \<Rightarrow>
         if permanent_error err then (Inl err, s', fs')
         else if 0 < left \<and> cancelled attempt \<noteq> None then (Inl (the (cancelled attempt)), s', fs')
         else download_loop cache_path replies cancelled (attempt + 1) left err s' fs')"

definition UpdateFromSource :: "(string \<Rightarrow> string) \<Rightarrow> (nat \<Rightarrow> attempt) \<Rightarrow> (nat \<Rightarrow> string option) \<Rightarrow> SourceInfo \<Rightarrow> files \<Rightarrow> download" where
  "UpdateFromSource cache_path replies cancelled s fs =
     (if IsLocalFile (si_URL s)
      then (let path = GetLocalFilePath (si_URL s) in
        ((case CountValidRules fs path of Some n \<Rightarrow> Inr (path, n) | None \<Rightarrow> Inl (''cannot read '' @ path)), s, fs))
      else download_loop cache_path replies cancelled 1 maxRetries '''' s fs)"

text \<open>The rules of the enabled sources, local ones first; a source that cannot be read is left out.\<close>

definition source_rules :: "(string \<Rightarrow> string) \<Rightarrow> files \<Rightarrow> SourceInfo \<Rightarrow> string list" where
  "source_rules cache_path fs s =
     (let cachePath = cache_path (si_CacheFile s);
          path = (if fs cachePath = None \<and> IsLocalFile (si_URL s) then GetLocalFilePath (si_URL s) else cachePath)
      in (case ReadValidRules fs path of None \<Rightarrow> [] | Some rules \<Rightarrow> rules))"

definition LoadAllRules :: "(string \<Rightarrow> string) \<Rightarrow> files \<Rightarrow> SourceInfo list \<Rightarrow> string list" where
  "LoadAllRules cache_path fs sources = concat (map (source_rules cache_path fs) (filter si_Enabled sources))"

section \<open>Statistics\<close>

record AdStats =
  as_blockedTotal :: int
  as_blockedToday :: int
  as_lastReset :: instant

definition ad_RecordBlock :: "(instant \<Rightarrow> int) \<Rightarrow> instant \<Rightarrow> AdStats \<Rightarrow> AdStats" where
  "ad_RecordBlock date now s =
     (let s1 = s\<lparr>as_blockedTotal := as_blockedTotal s + 1\<rparr>;
          s2 = (if date now \<noteq> date (as_lastReset s) then s1\<lparr>as_blockedToday := 0, as_lastReset := now\<rparr> else s1)
      in s2\<lparr>as_blockedToday := as_blockedToday s2 + 1\<rparr>)"

record AdBlockStats =
  abs_Enabled :: bool
  abs_Engine :: string
  abs_TotalRules :: int
  abs_BlockedToday :: int
  abs_BlockedTotal :: int
  abs_LastUpdate :: instant
  abs_SourcesCount :: int
  abs_FailedSources :: "string list"

section \<open>The manager\<close>

record 't AdBlockManager =
  am_cfg :: AdBlockConfig
  am_engine :: "'t FilterEngine"
  am_sourcesMgr :: SourceManager
  am_stats :: AdStats
  am_lastUpdate :: instant

definition am_CheckHost :: "'t engine_env \<Rightarrow> string \<Rightarrow> 't AdBlockManager \<Rightarrow> MatchResult \<times> string" where
  "am_CheckHost ev host m = (if \<not> ad_Enable (am_cfg m) then (MatchNeutral, '''') else engine_CheckHost ev host (am_engine m))"

definition am_RecordBlock :: "(instant \<Rightarrow> int) \<Rightarrow> instant \<Rightarrow> 't AdBlockManager \<Rightarrow> 't AdBlockManager" where
  "am_RecordBlock date now m = m\<lparr>am_stats := ad_RecordBlock date now (am_stats m)\<rparr>"

definition am_SetEnabled :: "bool \<Rightarrow> 't AdBlockManager \<Rightarrow> 't AdBlockManager" where
  "am_SetEnabled enabled m = m\<lparr>am_cfg := (am_cfg m)\<lparr>ad_Enable := enabled\<rparr>\<rparr>"

definition am_GetStats :: "'t engine_env \<Rightarrow> 't AdBlockManager \<Rightarrow> AdBlockStats" where
  "am_GetStats ev m =
     (let sources = GetAllSources (am_sourcesMgr m);
          calculated = sum_list (map si_RuleCount (filter (\<lambda>s. si_Enabled s \<and> si_Status s = ''active'') sources));
          n = engine_Count ev (am_engine m)
      in \<lparr>abs_Enabled = ad_Enable (am_cfg m), abs_Engine = ad_Engine (am_cfg m),
          abs_TotalRules = (if n = 0 then calculated else n),
          abs_BlockedToday = as_blockedToday (am_stats m), abs_BlockedTotal = as_blockedTotal (am_stats m),
          abs_LastUpdate = am_lastUpdate m, abs_SourcesCount = int (length sources),
          abs_FailedSources = map si_URL (filter (\<lambda>s. (si_Status s = ''failed'' \<or> si_Status s = ''bad'') \<and> si_Enabled s) sources)\<rparr>)"

definition TestDomain :: "'t engine_env \<Rightarrow> string \<Rightarrow> 't AdBlockManager \<Rightarrow> string \<times> string \<times> string" where
  "TestDomain ev host m = (case am_CheckHost ev host m of (result, rule) \<Rightarrow>
     (host, (case result of MatchBlocked \<Rightarrow> ''blocked'' | MatchAllowed \<Rightarrow> ''allowed'' | MatchNeutral \<Rightarrow> ''neutral''), rule))"

text \<open>What an update works with: the joined cache path, the replies to each source's attempts, the
  JSON writer, and the clock at the decision and at the end of each download.\<close>

record update_env =
  ue_path :: "string \<Rightarrow> string"
  ue_replies :: "string \<Rightarrow> nat \<Rightarrow> attempt"
  ue_marshal :: "SourceInfo list \<Rightarrow> string"
  ue_start :: instant
  ue_done :: "string \<Rightarrow> instant"
  ue_swap :: instant

record UpdateResult =
  ur_TotalRules :: int
  ur_NewRules :: int
  ur_RemovedRules :: int
  ur_Sources :: int
  ur_FailedSources :: "string list"

record update_state =
  us_sm :: SourceManager
  us_files :: files
  us_failed :: "string list"
  us_new :: int
  us_removed :: int

definition update_source :: "update_env \<Rightarrow> bool \<Rightarrow> AdBlockConfig \<Rightarrow> SourceInfo \<Rightarrow> update_state \<Rightarrow> update_state" where
  "update_source ue force cfg s u =
     (if \<not> si_Enabled s then u
      else if \<not> force \<and> ue_start ue - si_LastUpdate s < ad_UpdateIntervalHours cfg * hour then u
      else (let url = si_URL s; oldRuleCount = si_RuleCount s;
                (res, s', fs') = UpdateFromSource (ue_path ue) (ue_replies ue url) (\<lambda>_. None) s (us_files u);
                sm1 = on_source url (\<lambda>_. s') (us_sm u)
            in (case res of
                 Inl err \<Rightarrow> u\<lparr>us_sm := UpdateSourceStatus (ue_done ue url) url 0 (Some err) sm1, us_files := fs',
                              us_failed := us_failed u @ [url]\<rparr>
               | Inr (_, ruleCount) \<Rightarrow>
                   u\<lparr>us_sm := UpdateSourceStatus (ue_done ue url) url ruleCount None sm1, us_files := fs',
                     us_new := us_new u + (if 0 < oldRuleCount \<and> oldRuleCount < ruleCount then ruleCount - oldRuleCount else 0),
                     us_removed := us_removed u + (if 0 < oldRuleCount \<and> ruleCount < oldRuleCount then oldRuleCount - ruleCount else 0)\<rparr>)))"

definition start_update :: "'t AdBlockManager \<Rightarrow> files \<Rightarrow> update_state" where
  "start_update m fs = \<lparr>us_sm = am_sourcesMgr m, us_files = fs, us_failed = [], us_new = 0, us_removed = 0\<rparr>"

text \<open>A new engine with the rules of the given sources: a panic, an error, or the engine.\<close>

definition build_engine :: "'t engine_env \<Rightarrow> (string \<Rightarrow> string) \<Rightarrow> AdBlockConfig \<Rightarrow> files \<Rightarrow> SourceInfo list \<Rightarrow>
    (string + 't FilterEngine) option" where
  "build_engine ev cache_path cfg fs sources = (case CreateEngine ev cfg of
      Inl err \<Rightarrow> Some (Inl err)
    | Inr e \<Rightarrow> (case engine_LoadRules ev (LoadAllRules cache_path fs sources) e of
        None \<Rightarrow> None
      | Some (Some err, _) \<Rightarrow> Some (Inl err)
      | Some (None, e') \<Rightarrow> Some (Inr e')))"

text \<open>\<open>UpdateRules\<close>: the downloads run at the same time, each on its own source and file, so they are
  taken in the order \<open>order\<close> in which they end. \<open>healthy\<close> is the network checker's verdict.\<close>

definition UpdateRules :: "'t engine_env \<Rightarrow> update_env \<Rightarrow> bool \<Rightarrow> (SourceInfo list \<Rightarrow> SourceInfo list) \<Rightarrow> bool \<Rightarrow>
    't AdBlockManager \<Rightarrow> files \<Rightarrow> ((string + UpdateResult) \<times> 't AdBlockManager \<times> files) option" where
  "UpdateRules ev ue healthy order force m fs =
     (if \<not> healthy then Some (Inl ''network unhealthy, rules update skipped'', m, fs)
      else (let sources = GetAllSources (am_sourcesMgr m);
                u = foldl (\<lambda>u s. update_source ue force (am_cfg m) s u) (start_update m fs) (order sources);
                m1 = m\<lparr>am_sourcesMgr := us_sm u\<rparr>;
                fs1 = saveMeta (ue_marshal ue) (us_sm u) (us_files u);
                updated = GetAllSources (us_sm u)
            in (case build_engine ev (ue_path ue) (am_cfg m) fs1 updated of
                 None \<Rightarrow> None
               | Some (Inl err) \<Rightarrow> Some (Inl err, m1, fs1)
               | Some (Inr e) \<Rightarrow>
                   (let n = engine_Count ev e
                    in Some (Inr \<lparr>ur_TotalRules = (if n = 0 then int (length (LoadAllRules (ue_path ue) fs1 updated)) else n),
                             ur_NewRules = us_new u, ur_RemovedRules = us_removed u,
                             ur_Sources = int (length sources), ur_FailedSources = us_failed u\<rparr>,
                         m1\<lparr>am_engine := e, am_lastUpdate := ue_swap ue\<rparr>, fs1)))))"

definition has_cached_file :: "(string \<Rightarrow> string) \<Rightarrow> files \<Rightarrow> SourceInfo list \<Rightarrow> bool" where
  "has_cached_file cache_path fs sources \<longleftrightarrow>
     (\<exists>s \<in> set sources. si_Enabled s \<and> fs (source_path cache_path s) \<noteq> None)"

definition minCacheRuleCount :: nat where "minCacheRuleCount = 100"

definition LoadRulesFromCache :: "'t engine_env \<Rightarrow> (string \<Rightarrow> string) \<Rightarrow> files \<Rightarrow> 't AdBlockManager \<Rightarrow>
    (string option \<times> 't AdBlockManager) option" where
  "LoadRulesFromCache ev cache_path fs m =
     (let sources = GetAllSources (am_sourcesMgr m); rules = LoadAllRules cache_path fs sources in
      if sources = [] then Some (Some ''no sources configured'', m)
      else if \<not> has_cached_file cache_path fs sources then Some (Some ''no cached files found'', m)
      else if length rules < minCacheRuleCount
        then Some (Some (''cache has insufficient rules: '' @ FormatUint (length rules)), m)
      else (case engine_LoadRules ev rules (am_engine m) of
          None \<Rightarrow> None
        | Some (Some err, e) \<Rightarrow> Some (Some err, m\<lparr>am_engine := e\<rparr>)
        | Some (None, e) \<Rightarrow> Some (None, m\<lparr>am_engine := e,
            am_lastUpdate := foldl (\<lambda>t s. if si_Enabled s \<and> t < si_LastUpdate s then si_LastUpdate s else t) 0 sources\<rparr>)))"

definition am_AddSource :: "(string \<Rightarrow> string) \<Rightarrow> update_env \<Rightarrow> string \<Rightarrow> 't AdBlockManager \<times> files \<Rightarrow> 't AdBlockManager \<times> files" where
  "am_AddSource hash ue url x = (case x of (m, fs) \<Rightarrow>
     (let sm = sm_AddSource hash url (am_sourcesMgr m)
      in (m\<lparr>am_sourcesMgr := sm\<rparr>, saveMeta (ue_marshal ue) sm fs)))"

definition am_RemoveSource :: "update_env \<Rightarrow> string \<Rightarrow> 't AdBlockManager \<times> files \<Rightarrow> 't AdBlockManager \<times> files" where
  "am_RemoveSource ue url x = (case x of (m, fs) \<Rightarrow>
     (case sm_RemoveSource (ue_path ue) url (am_sourcesMgr m, fs) of (sm, fs1) \<Rightarrow>
        (m\<lparr>am_sourcesMgr := sm\<rparr>, saveMeta (ue_marshal ue) sm fs1)))"

definition SetSourceEnabled :: "'t engine_env \<Rightarrow> update_env \<Rightarrow> string \<Rightarrow> bool \<Rightarrow> 't AdBlockManager \<Rightarrow> files \<Rightarrow>
    (string option \<times> 't AdBlockManager \<times> files) option" where
  "SetSourceEnabled ev ue url enabled m fs =
     (let sm = sm_SetEnabled url enabled (am_sourcesMgr m);
          m1 = m\<lparr>am_sourcesMgr := sm\<rparr>;
          fs1 = saveMeta (ue_marshal ue) sm fs
      in (case build_engine ev (ue_path ue) (am_cfg m) fs1 (GetAllSources sm) of
           None \<Rightarrow> None
         | Some (Inl err) \<Rightarrow> Some (Some err, m1, fs1)
         | Some (Inr e) \<Rightarrow> Some (None, m1\<lparr>am_engine := e\<rparr>, fs1)))"

section \<open>Lemmas\<close>

text \<open>A download changes no file but the cache file and its temporary file; when it fails the cache
  file is the old one, when it succeeds it is the old one (not modified) or the whole body.\<close>

lemma store_body_files:
  assumes "store_body fails p resp s fs = (res, s', fs')" "q \<noteq> p @ ''.tmp''"
  shows "fs' q = (case res of Inr _ \<Rightarrow> if q = p then Some (hr_Body resp) else fs q | Inl _ \<Rightarrow> fs q)"
    "(case res of Inl _ \<Rightarrow> s' = s | Inr (path, n) \<Rightarrow> path = p \<and> 0 < n)"
  using assms by (auto simp: store_body_def Let_def CountValidRules_def split: option.splits if_splits)

lemma download_files:
  assumes "downloadRemoteFile cp a s fs = (res, s', fs')" "q \<noteq> cp (si_CacheFile s) @ ''.tmp''"
  shows "fs' q = fs q \<or> (q = cp (si_CacheFile s) \<and> (\<exists>resp. at_reply a = Inr resp \<and> hr_StatusCode resp = 200
           \<and> fs' q = Some (hr_Body resp)) \<and> (\<exists>x. res = Inr x))"
    "si_CacheFile s' = si_CacheFile s" "(\<exists>err. res = Inl err) \<Longrightarrow> s' = s"
  using assms store_body_files[of "at_fails a" "cp (si_CacheFile s)" _ s fs res s' fs' q]
  by (auto simp: downloadRemoteFile_def store_body_def Let_def split: sum.splits if_splits option.splits)

lemma download_loop_files:
  "download_loop cp replies cancelled i n e s fs = (Inl err, s', fs') \<Longrightarrow>
   q \<noteq> cp (si_CacheFile s) @ ''.tmp'' \<Longrightarrow> fs' q = fs q \<and> s' = s"
proof (induction n arbitrary: i e fs)
  case (Suc n)
  obtain res s1 fs1 where d: "downloadRemoteFile cp (replies i) s fs = (res, s1, fs1)" by (metis prod_cases3)
  note files = download_files[OF d Suc.prems(2)]
  show ?case
  proof (cases res)
    case (Inr ok)
    then show ?thesis using Suc.prems(1) by (simp add: d)
  next
    case (Inl err1)
    then have s1: "s1 = s" "fs1 q = fs q" using files by auto
    then show ?thesis using Suc.prems Suc.IH[of "i + 1" err1 fs1] by (auto simp: d Inl split: if_splits)
  qed
qed simp

lemma UpdateFromSource_files:
  "UpdateFromSource cp replies cancelled s fs = (Inl err, s', fs') \<Longrightarrow>
   q \<noteq> cp (si_CacheFile s) @ ''.tmp'' \<Longrightarrow> fs' q = fs q \<and> s' = s"
  by (auto simp: UpdateFromSource_def Let_def dest: download_loop_files split: if_splits)

lemma map_of_on_source:
  "map_of (sm_sources (on_source url g sm)) k = map_option (if k = url then g else id) (map_of (sm_sources sm) k)"
  by (simp add: on_source_def option.map_id)

text \<open>A list whose download fails keeps its cached rules: whatever the attempts answered, no file
  but the temporary one has changed, so the next load of the rules reads the same lines. But the
  source forgets its number of rules, and at its first failure it becomes \<open>initializing\<close>, as if it
  had never been loaded: the statistics do not count it as failed until it fails again. The case of
  an update failure of a loaded source is never met, because a failed download always reports zero
  rules.\<close>

theorem failed_update_keeps_cache:
  assumes "map_of (sm_sources (us_sm u)) url = Some s" "si_URL s = url" "si_Enabled s" "\<not> IsLocalFile url"
    "UpdateFromSource (ue_path ue) (ue_replies ue url) (\<lambda>_. None) s (us_files u) = (Inl err, s', fs')"
    "q \<noteq> ue_path ue (si_CacheFile s) @ ''.tmp''"
  shows "us_files (update_source ue True cfg s u) q = us_files u q
    \<and> us_failed (update_source ue True cfg s u) = us_failed u @ [url]
    \<and> map_of (sm_sources (us_sm (update_source ue True cfg s u))) url = Some (s\<lparr>si_LastUpdate := ue_done ue url,
        si_RuleCount := 0, si_LastError := err, si_FailCount := si_FailCount s + 1,
        si_Status := (if si_FailCount s = 0 then ''initializing'' else if 2 \<le> si_FailCount s then ''bad'' else ''failed'')\<rparr>)"
proof -
  have "fs' q = us_files u q" "s' = s" using UpdateFromSource_files[OF assms(5,6)] by auto
  then show ?thesis using assms(1-5)
    by (simp add: update_source_def UpdateSourceStatus_def map_of_on_source source_failed_def Let_def)
qed

definition example_source :: SourceInfo where
  "example_source = \<lparr>si_URL = ''http://a/list'', si_ETag = '''', si_LastModified = '''', si_CacheFile = ''rules_a.txt'',
     si_RuleCount = 7, si_LastUpdate = 0, si_LastError = '''', si_FailCount = 0, si_Status = ''active'', si_Enabled = True\<rparr>"

definition example_update :: update_env where
  "example_update = \<lparr>ue_path = id, ue_replies = (\<lambda>_ i. \<lparr>at_reply = (if i < 3 then Inl ''timeout'' else
       Inr \<lparr>hr_StatusCode = 200, hr_Status = ''200 OK'', hr_ETag = '''', hr_LastModified = '''', hr_Body = ''# none''\<rparr>),
     at_fails = Map.empty\<rparr>), ue_marshal = (\<lambda>_. ''''), ue_start = 0, ue_done = (\<lambda>_. 5), ue_swap = 6\<rparr>"

definition example_state :: update_state where
  "example_state = \<lparr>us_sm = \<lparr>sm_sources = [(''http://a/list'', example_source)], sm_metaFile = ''m''\<rparr>,
     us_files = [''rules_a.txt'' \<mapsto> ''||ads.com^''], us_failed = [], us_new = 0, us_removed = 0\<rparr>"

lemma failed_update_keeps_cache_witness:
  "\<forall>cfg. us_files (update_source example_update True cfg example_source example_state) ''rules_a.txt'' = Some ''||ads.com^''
    \<and> map_option si_Status (map_of (sm_sources (us_sm (update_source example_update True cfg example_source example_state))) ''http://a/list'')
        = Some ''initializing''"
proof -
  obtain err s' fs' where d: "UpdateFromSource (ue_path example_update) (ue_replies example_update ''http://a/list'')
      (\<lambda>_. None) example_source (us_files example_state) = (Inl err, s', fs')"
  proof -
    have "fst (UpdateFromSource (ue_path example_update) (ue_replies example_update ''http://a/list'')
      (\<lambda>_. None) example_source (us_files example_state)) = Inl ''failed to download after 3 attempts: downloaded file contains no valid rules (received 6 bytes)''"
      by code_simp
    then show thesis using that by (metis prod.collapse)
  qed
  have m: "map_of (sm_sources (us_sm example_state)) ''http://a/list'' = Some example_source" by (simp add: example_state_def)
  have e: "si_URL example_source = ''http://a/list''" "si_Enabled example_source" "si_FailCount example_source = 0"
    by (simp_all add: example_source_def)
  have l: "\<not> IsLocalFile ''http://a/list''"
    and q: "''rules_a.txt'' \<noteq> ue_path example_update (si_CacheFile example_source) @ ''.tmp''"
    by code_simp+
  show ?thesis
  proof
    fix cfg
    show "us_files (update_source example_update True cfg example_source example_state) ''rules_a.txt'' = Some ''||ads.com^''
    \<and> map_option si_Status (map_of (sm_sources (us_sm (update_source example_update True cfg example_source example_state))) ''http://a/list'')
        = Some ''initializing''"
    using failed_update_keeps_cache[OF m e(1,2) l d q, of cfg] by (simp add: e(3)) (simp add: example_state_def)
  qed
qed

end
