(* ===== verification/Prefetch.thy ===== *)
theory Prefetch
  imports Go_Text Pinger Cache_Store
begin

unbundle bit_operations_syntax

text \<open>\<open>prefetch/\<close>: the scores of domains, the stability of their addresses, the ban list and the
  ranking of addresses without measurements. Scores and delays are exact rationals; \<open>pow2\<close> is
  \<open>math.Pow(2, x)\<close> at fractional exponents. Seconds are int64 values and wrap.\<close>

section \<open>State\<close>

record ScoreEntry =
  se_RawScore :: rat
  se_LastUpdateCycle :: int
  se_LastSimHash :: "64 word"
  se_LastAccess :: instant
  se_LastIPList :: "string list"
  se_StableCycles :: int
  se_FirstAccess :: instant

record IPStat =
  is_LastDelay :: int
  is_Updated :: instant

record Prefetcher =
  pf_cfg :: PrefetchConfig
  pf_scoreTable :: "(string \<times> ScoreEntry) list"
  pf_ipStats :: "(string \<times> IPStat) list"
  pf_blacklist :: "string \<rightharpoonup> int"
  pf_failureCounts :: "string \<rightharpoonup> nat"
  pf_TotalRefreshes :: nat
  pf_SkippedStable :: nat
  pf_SkippedLowScore :: nat
  pf_SkippedSimilarHash :: nat

definition MaxScoreTableSize :: int where "MaxScoreTableSize = 60000"
definition MaxIPStatsSize :: int where "MaxIPStatsSize = 200000"
definition DecayBase :: rat where "DecayBase = 93 / 100"
definition DecayCycleSeconds :: int where "DecayCycleSeconds = 300"
definition SimHashThreshold :: nat where "SimHashThreshold = 14"

definition NewPrefetcher :: "PrefetchConfig \<Rightarrow> Prefetcher" where
  "NewPrefetcher cfg = \<lparr>pf_cfg = cfg, pf_scoreTable = [], pf_ipStats = [], pf_blacklist = Map.empty,
     pf_failureCounts = Map.empty, pf_TotalRefreshes = 0, pf_SkippedStable = 0, pf_SkippedLowScore = 0,
     pf_SkippedSimilarHash = 0\<rparr>"

definition pf_Stop :: "Prefetcher \<Rightarrow> Prefetcher" where
  "pf_Stop p = (if \<not> pre_Enabled (pf_cfg p) then p
     else p\<lparr>pf_scoreTable := [], pf_ipStats := [], pf_blacklist := Map.empty, pf_failureCounts := Map.empty\<rparr>)"

section \<open>Hashes of address lists\<close>

text \<open>FNV-1a, 64 bits, of the sorted addresses joined by newlines.\<close>

definition fnv64a :: "string \<Rightarrow> 64 word" where
  "fnv64a s = foldl (\<lambda>h c. (h XOR of_nat (of_char c)) * 1099511628211) 14695981039346656037 s"

definition calculateSimHash :: "string list \<Rightarrow> 64 word" where
  "calculateSimHash ips = (if ips = [] then 0 else fnv64a (go_Join [CHR 0x0A] (sort_strings ips)))"

definition hammingDistance :: "64 word \<Rightarrow> 64 word \<Rightarrow> nat" where
  "hammingDistance a b = length (filter (\<lambda>i. bit (a XOR b) i) [0..<64])"

definition isSameIPList :: "string list \<Rightarrow> string list \<Rightarrow> bool" where
  "isSameIPList old new = (if length old \<noteq> length new then False else sort_strings old = sort_strings new)"

definition on_entry :: "string \<Rightarrow> (ScoreEntry \<Rightarrow> ScoreEntry) \<Rightarrow> Prefetcher \<Rightarrow> Prefetcher" where
  "on_entry domain g p = p\<lparr>pf_scoreTable := map_value domain g (pf_scoreTable p)\<rparr>"

definition UpdateSimHash :: "string \<Rightarrow> string list \<Rightarrow> Prefetcher \<Rightarrow> Prefetcher" where
  "UpdateSimHash domain ips p = on_entry domain (\<lambda>e.
     e\<lparr>se_StableCycles := (if isSameIPList (se_LastIPList e) ips then se_StableCycles e + 1 else 0),
       se_LastSimHash := calculateSimHash ips, se_LastIPList := ips\<rparr>) p"

section \<open>Scores\<close>

definition current_cycle :: "instant \<Rightarrow> int" where
  "current_cycle now = unix now div DecayCycleSeconds"

definition applyLazyDecay :: "int \<Rightarrow> ScoreEntry \<Rightarrow> ScoreEntry" where
  "applyLazyDecay currentCycle e =
     (let delta = currentCycle - se_LastUpdateCycle e
      in if 0 < delta then e\<lparr>se_RawScore := se_RawScore e * DecayBase ^ nat delta, se_LastUpdateCycle := currentCycle\<rparr>
         else e)"

definition evictMsg :: "Prefetcher \<Rightarrow> Prefetcher" where
  "evictMsg p =
     (let evictCount = max 1 (length (pf_scoreTable p) div 10);
          items = go_sort_slice (\<lambda>a b. se_RawScore (snd a) < se_RawScore (snd b)) (pf_scoreTable p);
          victims = map fst (take evictCount items)
      in p\<lparr>pf_scoreTable := filter (\<lambda>(k, _). k \<notin> set victims) (pf_scoreTable p)\<rparr>)"

definition updateScore :: "instant \<Rightarrow> string \<Rightarrow> rat \<Rightarrow> Prefetcher \<Rightarrow> Prefetcher" where
  "updateScore now domain weight p =
     (let currentCycle = current_cycle now;
          p1 = (if map_of (pf_scoreTable p) domain \<noteq> None then p
                else (let p' = (if MaxScoreTableSize \<le> int (length (pf_scoreTable p)) then evictMsg p else p)
                      in p'\<lparr>pf_scoreTable := pf_scoreTable p' @ [(domain,
                           \<lparr>se_RawScore = 0, se_LastUpdateCycle = currentCycle, se_LastSimHash = 0, se_LastAccess = now,
                            se_LastIPList = [], se_StableCycles = 0, se_FirstAccess = now\<rparr>)]\<rparr>))
      in on_entry domain (\<lambda>e. let e' = applyLazyDecay currentCycle e
            in e'\<lparr>se_RawScore := se_RawScore e' + weight, se_LastAccess := now\<rparr>) p1)"

definition pf_RecordAccess :: "instant \<Rightarrow> string \<Rightarrow> 32 word \<Rightarrow> Prefetcher \<Rightarrow> Prefetcher" where
  "pf_RecordAccess now domain ttl p =
     (if \<not> pre_Enabled (pf_cfg p) then p
      else updateScore now domain (min 3 (of_int (uint ttl) / 3600)) p)"

definition IsTopDomain :: "string \<Rightarrow> Prefetcher \<Rightarrow> bool" where
  "IsTopDomain domain p \<longleftrightarrow> pre_Enabled (pf_cfg p) \<and> map_of (pf_scoreTable p) domain \<noteq> None"

section \<open>Ban list\<close>

definition wrap64 :: "int \<Rightarrow> int" where
  "wrap64 x = (x + 2 ^ 63) mod 2 ^ 64 - 2 ^ 63"

text \<open>\<open>600 * int64(math.Pow(2, k-1))\<close>. The power is exact; the conversion of a value outside int64
  gives the smallest one (on amd64).\<close>

definition ban_seconds :: "nat \<Rightarrow> int" where
  "ban_seconds k = wrap64 (600 * (if k - 1 < 63 then 2 ^ (k - 1) else - (2 ^ 63)))"

definition ban_key :: "string \<Rightarrow> string \<Rightarrow> string" where
  "ban_key domain ip = domain @ ''#'' @ ip"

definition report_delay :: "instant \<Rightarrow> Result \<Rightarrow> (string \<times> IPStat) list \<Rightarrow> (string \<times> IPStat) list" where
  "report_delay now res m =
     (if rs_Loss res = 0
      then AList.update (rs_IP res) \<lparr>is_LastDelay = rs_RTT res, is_Updated = now\<rparr>
             (if MaxIPStatsSize \<le> int (length m) then tl m else m)
      else m)"

definition report_ban :: "instant \<Rightarrow> string \<Rightarrow> Result \<Rightarrow> Prefetcher \<Rightarrow> Prefetcher" where
  "report_ban now domain res p =
     (let key = ban_key domain (rs_IP res)
      in if rs_Loss res = 100
         then (let k = (case pf_failureCounts p key of None \<Rightarrow> 0 | Some n \<Rightarrow> n) + 1
               in p\<lparr>pf_failureCounts := (pf_failureCounts p)(key \<mapsto> k),
                    pf_blacklist := (pf_blacklist p)(key \<mapsto> wrap64 (unix now + ban_seconds k))\<rparr>)
         else if pf_failureCounts p key \<noteq> None
         then p\<lparr>pf_failureCounts := (pf_failureCounts p)(key := None), pf_blacklist := (pf_blacklist p)(key := None)\<rparr>
         else p)"

definition ReportPingResultWithDomain :: "instant \<Rightarrow> string \<Rightarrow> Result list \<Rightarrow> Prefetcher \<Rightarrow> Prefetcher" where
  "ReportPingResultWithDomain now domain results p =
     (if \<not> pre_Enabled (pf_cfg p) then p
      else foldl (\<lambda>p r. report_ban now domain r p)
             (p\<lparr>pf_ipStats := foldl (\<lambda>m r. report_delay now r m) (pf_ipStats p) results\<rparr>) results)"

section \<open>Fallback ranking\<close>

definition banned :: "instant \<Rightarrow> string \<Rightarrow> Prefetcher \<Rightarrow> string \<Rightarrow> bool" where
  "banned now domain p ip = (case pf_blacklist p (ban_key domain ip) of None \<Rightarrow> False | Some expire \<Rightarrow> unix now < expire)"

definition emergency_unban :: "instant \<Rightarrow> string \<Rightarrow> string list \<Rightarrow> Prefetcher \<Rightarrow> Prefetcher" where
  "emergency_unban now domain ips p =
     (let bannedCount = length (filter (banned now domain p) ips);
          availableCount = length (filter (\<lambda>ip. \<not> banned now domain p ip) ips)
      in if availableCount \<le> 1 \<and> 6 \<le> bannedCount
         then p\<lparr>pf_blacklist := foldl (\<lambda>m ip. m(ban_key domain ip := None)) (pf_blacklist p) ips,
                pf_failureCounts := foldl (\<lambda>m ip. m(ban_key domain ip := None)) (pf_failureCounts p) ips\<rparr>
         else p)"

record rankedIP =
  rk_ip :: string
  rk_delay :: rat
  rk_banned :: bool

definition rank_ip :: "(rat \<Rightarrow> rat) \<Rightarrow> instant \<Rightarrow> string \<Rightarrow> Prefetcher \<Rightarrow> string \<Rightarrow> rankedIP" where
  "rank_ip pow2 now domain p ip =
     \<lparr>rk_ip = ip,
      rk_delay = (case map_of (pf_ipStats p) ip of None \<Rightarrow> 9999
        | Some stat \<Rightarrow> of_int (is_LastDelay stat) * pow2 (of_int (now - is_Updated stat) / of_int (2400 * second))),
      rk_banned = banned now domain p ip\<rparr>"

definition ranked_before :: "rankedIP \<Rightarrow> rankedIP \<Rightarrow> bool" where
  "ranked_before a b = (if rk_banned a \<noteq> rk_banned b then \<not> rk_banned a else rk_delay a < rk_delay b)"

text \<open>The loop over the tail, \<open>i\<close> from its last index down to 1.\<close>

fun jitter :: "int \<Rightarrow> nat \<Rightarrow> 'a list \<Rightarrow> 'a list" where
  "jitter seed 0 xs = xs"
| "jitter seed (Suc i) xs = jitter seed i (go_swap (Suc i) (nat ((seed + int (Suc i)) mod int (Suc i + 1))) xs)"

definition GetFallbackRank :: "(rat \<Rightarrow> rat) \<Rightarrow> (nat \<Rightarrow> instant) \<Rightarrow> string \<Rightarrow> string list \<Rightarrow> Prefetcher \<Rightarrow>
    string list \<times> Prefetcher" where
  "GetFallbackRank pow2 clock domain ips p =
     (if \<not> pre_Enabled (pf_cfg p) \<or> ips = [] then (ips, p)
      else (let p1 = emergency_unban (clock 0) domain ips p;
                ranked = go_sort_slice ranked_before (map (rank_ip pow2 (clock 1) domain p1) ips);
                shuffled = (if 3 < length ranked
                  then take 3 ranked @ jitter (clock 2) (length ranked - 4) (drop 3 ranked) else ranked)
            in (map rk_ip shuffled, p1)))"

section \<open>Sampling\<close>

text \<open>Whether a domain may be refreshed, from its cached A record and the stability of its
  addresses.\<close>

definition checkEligibility :: "string \<Rightarrow> Prefetcher \<times> Cache \<Rightarrow> bool \<times> Prefetcher \<times> Cache" where
  "checkEligibility domain x = (case x of (p, c) \<Rightarrow>
     (case GetRaw domain 1 c of
        (None, c1) \<Rightarrow> (False, p, c1)
      | (Some raw, c1) \<Rightarrow>
         if raw_UpstreamTTL raw < pre_EligibilityTTL (pf_cfg p) then (False, p, c1)
         else (case map_of (pf_scoreTable p) domain of
             None \<Rightarrow> (False, p, c1)
           | Some entry \<Rightarrow>
              if pre_StableCycleThreshold (pf_cfg p) \<le> se_StableCycles entry
                then (False, p\<lparr>pf_SkippedStable := pf_SkippedStable p + 1\<rparr>, c1)
              else if se_LastSimHash entry = 0 then (True, p, c1)
              else if SimHashThreshold < hammingDistance (se_LastSimHash entry) (calculateSimHash (raw_IPs raw))
                then (False, p\<lparr>pf_SkippedSimilarHash := pf_SkippedSimilarHash p + 1\<rparr>, c1)
              else (True, p, c1))))"

definition sample_count :: "Prefetcher \<Rightarrow> int" where
  "sample_count p = (let tableSize = int (length (pf_scoreTable p))
     in if tableSize < 500 then max 50 (tableSize div 4) else pre_MaxRefreshDomains (pf_cfg p))"

definition sampled_score :: "PrefetchConfig \<Rightarrow> int \<Rightarrow> ScoreEntry \<Rightarrow> rat" where
  "sampled_score cfg currentCycle e =
     (let delta = currentCycle - se_LastUpdateCycle e;
          score = (if 0 < delta then se_RawScore e * DecayBase ^ nat delta else se_RawScore e)
      in if 0 < se_StableCycles e then score * pre_StabilityPenaltyFactor cfg ^ nat (se_StableCycles e) else score)"

definition write_scores :: "int \<Rightarrow> (string \<times> rat) list \<Rightarrow> Prefetcher \<Rightarrow> Prefetcher" where
  "write_scores currentCycle items p = foldl (\<lambda>p (domain, score).
     on_entry domain (\<lambda>e. e\<lparr>se_RawScore := score, se_LastUpdateCycle := currentCycle\<rparr>) p) p items"

text \<open>The refreshes asked for, with the prefetcher and the cache.\<close>

type_synonym sampling = "(string \<times> qtype) list \<times> Prefetcher \<times> Cache"

fun pick_domains :: "int \<Rightarrow> int \<Rightarrow> (string \<times> rat) list \<Rightarrow> sampling \<Rightarrow> sampling" where
  "pick_domains sampleCount n [] x = x"
| "pick_domains sampleCount n ((domain, score) # items) (calls, p, c) =
     (if sampleCount \<le> n then (calls, p, c)
      else if score < pre_MinScoreThreshold (pf_cfg p)
        then (calls, p\<lparr>pf_SkippedLowScore := pf_SkippedLowScore p + 1\<rparr>, c)
      else if map_of (pf_scoreTable p) domain = None then pick_domains sampleCount n items (calls, p, c)
      else (case checkEligibility domain (p, c) of (ok, p1, c1) \<Rightarrow>
         if ok then pick_domains sampleCount (n + 1) items
               (calls @ [(domain, 1), (domain, 28)], p1\<lparr>pf_TotalRefreshes := pf_TotalRefreshes p1 + 1\<rparr>, c1)
         else pick_domains sampleCount n items (calls, p1, c1)))"

definition runSampling :: "instant \<Rightarrow> Prefetcher \<Rightarrow> Cache \<Rightarrow> sampling" where
  "runSampling now p c =
     (if pf_scoreTable p = [] then ([], p, c)
      else (let currentCycle = current_cycle now;
                sampleCount = sample_count p;
                items = map (\<lambda>(domain, e). (domain, sampled_score (pf_cfg p) currentCycle e)) (pf_scoreTable p);
                p1 = write_scores currentCycle items p;
                sorted = go_sort_slice (\<lambda>a b. snd b < snd a) items
            in pick_domains sampleCount 0 sorted ([], p1, c)))"

text \<open>One turn of the loop of \<open>prefetchLoop\<close>: nothing while the network is down.\<close>

definition prefetch_cycle :: "bool \<Rightarrow> instant \<Rightarrow> Prefetcher \<Rightarrow> Cache \<Rightarrow> sampling" where
  "prefetch_cycle healthy now p c = (if \<not> healthy then ([], p, c) else runSampling now p c)"

definition prefetch_wait :: "instant \<Rightarrow> duration" where
  "prefetch_wait now = 300 * second + (now mod 600) * second"

definition save_rate :: "Prefetcher \<Rightarrow> rat" where
  "save_rate p = of_nat (pf_SkippedStable p + pf_SkippedSimilarHash p)
     / of_nat (if pf_TotalRefreshes p = 0 then 1 else pf_TotalRefreshes p) * 100"

section \<open>Lemmas\<close>

lemma mset_jitter: "i < length xs \<Longrightarrow> mset (jitter seed i xs) = mset xs"
proof (induction i arbitrary: xs)
  case (Suc i)
  have "nat ((seed + int (Suc i)) mod int (Suc i + 1)) \<le> Suc i"
    using pos_mod_bound[of "int (Suc i + 1)" "seed + int (Suc i)"] by linarith
  then show ?case using Suc by (simp add: mset_go_swap)
qed simp

lemma ban_seconds_eq:
  "k < 55 \<Longrightarrow> ban_seconds k = 600 * 2 ^ (k - 1)"
  "62 \<le> k \<Longrightarrow> ban_seconds k = 0"
proof -
  assume "k < 55"
  then have "(2 :: int) ^ (k - 1) \<le> 2 ^ 53" by (intro power_increasing) auto
  moreover have "(0 :: int) < 2 ^ (k - 1)" by simp
  ultimately show "ban_seconds k = 600 * 2 ^ (k - 1)" using \<open>k < 55\<close>
    by (simp add: ban_seconds_def wrap64_def)
next
  assume k: "62 \<le> k"
  show "ban_seconds k = 0"
  proof (cases "k - 1 < 63")
    case True
    then have "k - 1 = 61 \<or> k - 1 = 62" using k by arith
    then show ?thesis by (auto simp: ban_seconds_def wrap64_def)
  qed (simp add: ban_seconds_def wrap64_def)
qed

lemma ReportPing_cfg [simp]: "pf_cfg (ReportPingResultWithDomain now domain rs p) = pf_cfg p"
proof -
  have "pf_cfg (foldl (\<lambda>p r. report_ban now domain r p) q rs) = pf_cfg q" for q
    by (induction rs arbitrary: q) (auto simp: report_ban_def Let_def)
  then show ?thesis by (simp add: ReportPingResultWithDomain_def)
qed

lemma report_total_loss:
  assumes "pre_Enabled (pf_cfg p)" "rs_Loss r = 100"
  shows "pf_failureCounts (ReportPingResultWithDomain now domain [r] p) =
      (pf_failureCounts p)(ban_key domain (rs_IP r) \<mapsto> Suc (case pf_failureCounts p (ban_key domain (rs_IP r)) of None \<Rightarrow> 0 | Some n \<Rightarrow> n))"
    "pf_blacklist (ReportPingResultWithDomain now domain [r] p) = (pf_blacklist p)(ban_key domain (rs_IP r) \<mapsto>
      wrap64 (unix now + ban_seconds (Suc (case pf_failureCounts p (ban_key domain (rs_IP r)) of None \<Rightarrow> 0 | Some n \<Rightarrow> n))))"
  using assms by (simp_all add: ReportPingResultWithDomain_def report_ban_def Let_def)

definition report_losses :: "instant list \<Rightarrow> string \<Rightarrow> Result \<Rightarrow> Prefetcher \<Rightarrow> Prefetcher" where
  "report_losses ts domain r p = foldl (\<lambda>p t. ReportPingResultWithDomain t domain [r] p) p ts"

lemma report_losses_snoc [simp]: "report_losses [] domain r p = p"
  "report_losses (ts @ [t]) domain r p = ReportPingResultWithDomain t domain [r] (report_losses ts domain r p)"
  by (simp_all add: report_losses_def)

lemma report_losses_count:
  assumes "pre_Enabled (pf_cfg p)" "rs_Loss r = 100" "pf_failureCounts p (ban_key domain (rs_IP r)) = None"
  shows "pf_cfg (report_losses ts domain r p) = pf_cfg p
    \<and> pf_failureCounts (report_losses ts domain r p) (ban_key domain (rs_IP r))
      = (if ts = [] then None else Some (length ts))"
  using assms by (induction ts rule: rev_induct) (simp_all add: report_total_loss)

lemma wrap64_small: "- (2 ^ 63) \<le> x \<Longrightarrow> x < 2 ^ 63 \<Longrightarrow> wrap64 x = x"
  by (simp add: wrap64_def)

text \<open>C33: Bans double and then vanish. After consecutive total losses of an address for a domain, the
  last at time \<open>t\<close>, the address is banned for 600 seconds doubled at each loss after the first, as
  long as there are at most 54 of them. From the 62nd loss on the 64-bit product is zero: the ban
  ends the second it starts, and the address that never answered counts as available.\<close>

theorem ban_backoff_overflows:
  assumes "pre_Enabled (pf_cfg p)" "rs_Loss r = 100" "pf_failureCounts p (ban_key domain (rs_IP r)) = None"
    "0 \<le> unix t" "unix t < 2 ^ 40" "n = length (ts @ [t])"
  shows "(n \<le> 54 \<longrightarrow> (\<forall>now. banned now domain (report_losses (ts @ [t]) domain r p) (rs_IP r)
            \<longleftrightarrow> unix now < unix t + 600 * 2 ^ (n - 1)))
    \<and> (62 \<le> n \<longrightarrow> (\<forall>now \<ge> t. \<not> banned now domain (report_losses (ts @ [t]) domain r p) (rs_IP r)))"
proof -
  let ?p = "report_losses ts domain r p"
  have c: "pre_Enabled (pf_cfg ?p)"
    "(case pf_failureCounts ?p (ban_key domain (rs_IP r)) of None \<Rightarrow> 0 | Some n \<Rightarrow> n) = length ts"
    using report_losses_count[OF assms(1-3), of ts] assms(1) by auto
  have b: "banned now domain (report_losses (ts @ [t]) domain r p) (rs_IP r)
      \<longleftrightarrow> unix now < wrap64 (unix t + ban_seconds n)" for now
    using report_total_loss(2)[OF c(1) assms(2)] assms(6) by (simp add: banned_def c(2))
  have lt: "unix t + 600 * 2 ^ (n - 1) < 2 ^ 63" if "n \<le> 54"
  proof -
    have "(2 :: int) ^ (n - 1) \<le> 2 ^ 53" using that by (intro power_increasing) auto
    then show ?thesis using assms(5) by simp
  qed
  have "wrap64 (unix t + ban_seconds n) = unix t + 600 * 2 ^ (n - 1)" if "n \<le> 54"
  proof -
    have "0 \<le> (600 :: int) * 2 ^ (n - 1)" by simp
    with assms(4) have "0 \<le> unix t + 600 * 2 ^ (n - 1)" by (rule add_nonneg_nonneg)
    moreover have "- (2 ^ 63) \<le> (0 :: int)" by simp
    ultimately have "- (2 ^ 63) \<le> unix t + 600 * 2 ^ (n - 1)" by (rule order_trans[rotated])
    from wrap64_small[OF this lt[OF that]] show ?thesis using that ban_seconds_eq(1)[of n] by simp
  qed
  moreover have "wrap64 (unix t + ban_seconds n) = unix t" if "62 \<le> n"
    using that assms(4,5) ban_seconds_eq(2)[of n] by (simp add: wrap64_small)
  moreover have "unix t \<le> unix now" if "t \<le> now" for now
    using that by (simp add: unix_def zdiv_mono1 second_def)
  ultimately show ?thesis by (auto simp: b not_less simp del: report_losses_snoc)
qed

definition example_prefetch :: PrefetchConfig where
  "example_prefetch = \<lparr>pre_Enabled = True, pre_MaxRefreshDomains = 10, pre_MinScoreThreshold = 0,
     pre_EligibilityTTL = 300, pre_StableCycleThreshold = 10, pre_StabilityPenaltyFactor = 1 / 2\<rparr>"

lemma ban_backoff_overflows_witness:
  defines "r \<equiv> \<lparr>rs_IP = ''192.0.2.1'', rs_RTT = 9000, rs_Loss = 100, rs_ProbeMethod = '''', rs_FastFail = False\<rparr>"
  shows "banned (700 * second) ''a.com'' (report_losses ([0] @ [600 * second]) ''a.com'' r (NewPrefetcher example_prefetch)) ''192.0.2.1''
    \<and> \<not> banned (5 * second) ''a.com'' (report_losses (replicate 61 0 @ [5 * second]) ''a.com'' r (NewPrefetcher example_prefetch)) ''192.0.2.1''"
proof -
  have p: "pre_Enabled (pf_cfg (NewPrefetcher example_prefetch))"
    "pf_failureCounts (NewPrefetcher example_prefetch) (ban_key ''a.com'' (rs_IP r)) = None"
    by (simp_all add: NewPrefetcher_def example_prefetch_def)
  have u: "unix (700 * second) = 700" "unix (600 * second) = 600" "unix (5 * second) = 5"
    by (simp_all add: unix_def second_def)
  have r: "rs_Loss r = 100" "rs_IP r = ''192.0.2.1''" by (simp_all add: r_def)
  show ?thesis
    using ban_backoff_overflows[OF p(1) r(1) p(2), of "600 * second" 2 "[0]"]
      ban_backoff_overflows[OF p(1) r(1) p(2), of "5 * second" 62 "replicate 61 0"]
    by (simp add: u r(2) del: report_losses_snoc)
qed

subsection \<open>Ranking\<close>

lemma ranked_before_key:
  "ranked_before = (\<lambda>a b. (rk_banned a, rk_delay a) < (rk_banned b, rk_delay b))"
  by (auto simp: fun_eq_iff ranked_before_def less_prod_def)

interpretation ranking: weak_order ranked_before
  unfolding ranked_before_key by (rule weak_order_by_key)

lemma rk_ip_rank [simp]: "rk_ip (rank_ip pow2 now domain p ip) = ip"
  by (simp add: rank_ip_def)

lemma sorted_wrt_head_permuted:
  assumes "sorted_wrt P (xs @ ys)" "mset zs = mset ys" "i < length xs" "i < j" "j < length (xs @ zs)"
  shows "P ((xs @ zs) ! i) ((xs @ zs) ! j)"
proof (cases "j < length xs")
  case True
  then show ?thesis using assms(1,3,4) sorted_wrt_nth_less[of P xs i j] by (simp add: sorted_wrt_append nth_append)
next
  case False
  have "set zs = set ys" using assms(2) by (rule mset_eq_setD)
  with False have "(xs @ zs) ! j \<in> set ys" using assms(5) nth_mem[of "j - length xs" zs] by (simp add: nth_append)
  then show ?thesis using assms(1,3) by (simp add: sorted_wrt_append nth_append)
qed

lemma foldl_forget: "foldl (\<lambda>m ip. m(g ip := None)) m ips k = (if k \<in> g ` set ips then None else m k)"
  by (induction ips arbitrary: m) auto

definition emergency :: "instant \<Rightarrow> string \<Rightarrow> Prefetcher \<Rightarrow> string list \<Rightarrow> bool" where
  "emergency now domain p ips \<longleftrightarrow> length (filter (\<lambda>ip. \<not> banned now domain p ip) ips) \<le> 1
     \<and> 6 \<le> length (filter (banned now domain p) ips)"

lemma banned_unban:
  "ip \<in> set ips \<Longrightarrow> banned t domain (emergency_unban now domain ips p) ip \<longleftrightarrow>
     banned t domain p ip \<and> \<not> emergency now domain p ips"
  by (auto simp: emergency_unban_def emergency_def banned_def foldl_forget Let_def)

text \<open>The ranking without measurements answers with the same addresses, each as often as it was
  given. With prefetching enabled, no address after one of the first three would rank before it:
  those not banned for the domain come first, among them the ones with the smallest aged delay; the
  tail is shuffled. And when at most one address is available and six or more are banned, all the
  bans of these addresses are lifted.\<close>

theorem GetFallbackRank_ranks:
  assumes "GetFallbackRank pow2 clock domain ips p = (out, p')"
  shows "mset out = mset ips
    \<and> (pre_Enabled (pf_cfg p) \<longrightarrow>
        (\<forall>i j. i < 3 \<and> i < j \<and> j < length out \<longrightarrow>
           \<not> ranked_before (rank_ip pow2 (clock 1) domain p' (out ! j)) (rank_ip pow2 (clock 1) domain p' (out ! i)))
      \<and> (\<forall>ip \<in> set ips. \<forall>t. banned t domain p' ip \<longleftrightarrow> banned t domain p ip \<and> \<not> emergency (clock 0) domain p ips))"
proof (cases "pre_Enabled (pf_cfg p) \<and> ips \<noteq> []")
  case True
  define p1 where "p1 = emergency_unban (clock 0) domain ips p"
  define rank where "rank = rank_ip pow2 (clock 1) domain p1"
  define xs where "xs = go_sort_slice ranked_before (map rank ips)"
  define ys where "ys = (if 3 < length xs then jitter (clock 2) (length xs - 4) (drop 3 xs) else drop 3 xs)"
  have ys: "mset ys = mset (drop 3 xs)" by (simp add: ys_def mset_jitter)
  have out: "out = map rk_ip (take 3 xs @ ys)" "p' = p1"
    using assms True by (auto simp: GetFallbackRank_def Let_def p1_def rank_def xs_def ys_def)
  have m: "mset (take 3 xs @ ys) = mset (map rank ips)"
    using mset_go_sort_slice[of ranked_before "map rank ips"]
    by (metis append_take_drop_id mset_append xs_def ys)
  have rk: "rank (rk_ip x) = x" if "x \<in> set (take 3 xs @ ys)" for x
  proof -
    have "x \<in> set (map rank ips)" using that mset_eq_setD[OF m] by blast
    then show ?thesis by (auto simp: rank_def)
  qed
  have len: "length (take 3 xs @ ys) = length ips" using mset_eq_length[OF m] by simp
  have top: "\<not> ranked_before ((take 3 xs @ ys) ! j) ((take 3 xs @ ys) ! i)"
    if i: "i < 3" "i < j" "j < length (take 3 xs @ ys)" for i j
  proof -
    have s: "sorted_wrt (\<lambda>a b. \<not> ranked_before b a) (take 3 xs @ drop 3 xs)"
      using ranking.go_sort_slice_sorted[of "map rank ips"] by (simp add: xs_def)
    have "i < length (take 3 xs)" using i len by (simp add: xs_def)
    then show ?thesis using sorted_wrt_head_permuted[OF s ys _ i(2,3)] by blast
  qed
  have "\<not> ranked_before (rank (out ! j)) (rank (out ! i))" if "i < 3" "i < j" "j < length out" for i j
  proof -
    have l: "j < length (take 3 xs @ ys)" "i < length (take 3 xs @ ys)" using that by (simp_all only: out(1) length_map)
    then have "rank (out ! k) = (take 3 xs @ ys) ! k" if "k = i \<or> k = j" for k
      using that rk[OF nth_mem, of k] by (auto simp only: out(1) nth_map)
    then show ?thesis using top[OF that(1,2) l(1)] by simp
  qed
  moreover have "mset out = mset ips"
  proof -
    have "mset out = image_mset rk_ip (mset (map rank ips))" unfolding out(1) mset_map m ..
    then show ?thesis by (simp add: rank_def multiset.map_comp comp_def)
  qed
  ultimately show ?thesis by (simp add: out(2) rank_def p1_def banned_unban)
qed (use assms in \<open>auto simp: GetFallbackRank_def\<close>)

lemma GetFallbackRank_ranks_witness:
  "\<exists>out p'. GetFallbackRank (\<lambda>_. 1) (\<lambda>_. 0) ''a.com'' [''x'', ''y''] (NewPrefetcher example_prefetch) = (out, p')
     \<and> mset out = {#''x'', ''y''#}"
proof -
  obtain out p' where g: "GetFallbackRank (\<lambda>_. 1) (\<lambda>_. 0) ''a.com'' [''x'', ''y''] (NewPrefetcher example_prefetch) = (out, p')"
    by fastforce
  then show ?thesis using GetFallbackRank_ranks[OF g] by auto
qed

end
