(* ===== verification/Recent.thy ===== *)
theory Recent
  imports Prelude
begin

text \<open>The two lists of recent domains: \<open>cache/recently_blocked.go\<close>, a slice that drops its head, and
  the circular buffer of recent queries of \<open>dnsserver/server.go\<close>. Both refine the same contract: the
  last entries of the history. A day back in the calendar is 24 hours.\<close>

section \<open>The contract\<close>

locale recent_log =
  fixes add :: "'e \<Rightarrow> 's \<Rightarrow> 's" and view :: "'s \<Rightarrow> 'e list" and ok :: "'s \<Rightarrow> bool" and cap :: nat
  assumes ok_add: "ok s \<Longrightarrow> ok (add e s)"
    and view_add: "ok s \<Longrightarrow> view (add e s) = take cap (e # view s)"
    and view_bound: "ok s \<Longrightarrow> length (view s) \<le> cap"
begin

lemma ok_fold: "ok s \<Longrightarrow> ok (fold add es s)"
  by (induction es arbitrary: s) (auto simp: ok_add)

text \<open>The newest entries first, whatever was added before them.\<close>

lemma view_fold: "ok s \<Longrightarrow> view (fold add es s) = take cap (rev es @ view s)"
proof (induction es rule: rev_induct)
  case Nil
  then show ?case by (simp add: view_bound)
next
  case (snoc e es)
  then show ?case by (cases cap) (auto simp: ok_fold view_add take_Cons' min_def)
qed

end

section \<open>Recently blocked domains\<close>

record blockedEntry =
  be_domain :: string
  be_timestamp :: instant

record recentlyBlocked =
  rb_entries :: "blockedEntry list"
  rb_maxSize :: nat

definition NewRecentlyBlockedTracker :: recentlyBlocked where
  "NewRecentlyBlockedTracker = \<lparr>rb_entries = [], rb_maxSize = 20\<rparr>"

definition rb_Add :: "blockedEntry \<Rightarrow> recentlyBlocked \<Rightarrow> recentlyBlocked" where
  "rb_Add e r = (let es = rb_entries r @ [e]
     in r\<lparr>rb_entries := (if rb_maxSize r < length es then tl es else es)\<rparr>)"

definition rb_GetAll :: "recentlyBlocked \<Rightarrow> string list" where
  "rb_GetAll r = map be_domain (rb_entries r)"

definition days_ago :: "instant \<Rightarrow> int \<Rightarrow> instant" where
  "days_ago now days = now - days * 24 * hour"

definition rb_GetAllWithTimeRange :: "instant \<Rightarrow> int \<Rightarrow> recentlyBlocked \<Rightarrow> string list" where
  "rb_GetAllWithTimeRange now days r =
     map be_domain (filter (\<lambda>e. days_ago now days < be_timestamp e) (rb_entries r))"

definition rb_Clear :: "recentlyBlocked \<Rightarrow> recentlyBlocked" where
  "rb_Clear r = r\<lparr>rb_entries := []\<rparr>"

definition rb_Len :: "recentlyBlocked \<Rightarrow> nat" where "rb_Len r = length (rb_entries r)"

section \<open>Recent queries\<close>

record recentQueries =
  rq_entries :: "blockedEntry list"
  rq_index :: nat

definition ring_size :: nat where "ring_size = 20"

definition empty_ring :: recentQueries where
  "empty_ring = \<lparr>rq_entries = replicate ring_size \<lparr>be_domain = '''', be_timestamp = 0\<rparr>, rq_index = 0\<rparr>"

definition RecordRecentQuery :: "blockedEntry \<Rightarrow> recentQueries \<Rightarrow> recentQueries" where
  "RecordRecentQuery e q = q\<lparr>rq_entries := (rq_entries q)[rq_index q := e],
     rq_index := (rq_index q + 1) mod length (rq_entries q)\<rparr>"

definition ring_order :: "recentQueries \<Rightarrow> blockedEntry list" where
  "ring_order q = map (\<lambda>i. rq_entries q ! ((rq_index q + i) mod length (rq_entries q))) [0..<length (rq_entries q)]"

definition GetRecentQueries :: "recentQueries \<Rightarrow> string list" where
  "GetRecentQueries q = rev (map be_domain (filter (\<lambda>e. be_domain e \<noteq> '''') (ring_order q)))"

definition GetRecentQueriesWithTimeRange :: "instant \<Rightarrow> int \<Rightarrow> recentQueries \<Rightarrow> string list" where
  "GetRecentQueriesWithTimeRange now days q = rev (map be_domain
     (filter (\<lambda>e. be_domain e \<noteq> '''' \<and> days_ago now days < be_timestamp e) (ring_order q)))"

section \<open>Both keep the contract\<close>

definition rb_ok :: "nat \<Rightarrow> recentlyBlocked \<Rightarrow> bool" where
  "rb_ok n r \<longleftrightarrow> rb_maxSize r = n \<and> length (rb_entries r) \<le> n"

interpretation blocked_log: recent_log rb_Add "\<lambda>r. rev (rb_entries r)" "rb_ok n" n for n
proof
  fix r e
  assume ok: "rb_ok n r"
  show "rb_ok n (rb_Add e r)" using ok by (auto simp: rb_ok_def rb_Add_def Let_def)
  show "length (rev (rb_entries r)) \<le> n" using ok by (simp add: rb_ok_def)
  show "rev (rb_entries (rb_Add e r)) = take n (e # rev (rb_entries r))"
  proof (cases "length (rb_entries r) = n")
    case True
    then have "rev (tl (rb_entries r @ [e])) = take n (e # rev (rb_entries r))"
      by (cases "rb_entries r") (auto simp: take_Cons')
    then show ?thesis using ok True by (simp add: rb_ok_def rb_Add_def Let_def)
  next
    case False
    moreover have "length (rb_entries r) \<le> n - 1" using ok False by (auto simp: rb_ok_def)
    ultimately show ?thesis using ok by (simp add: rb_ok_def rb_Add_def Let_def take_Cons')
  qed
qed

definition ring_ok :: "recentQueries \<Rightarrow> bool" where
  "ring_ok q \<longleftrightarrow> length (rq_entries q) = ring_size \<and> rq_index q < ring_size"

lemma ring_order_rotate: "ring_ok q \<Longrightarrow> ring_order q = rotate (rq_index q) (rq_entries q)"
  by (rule nth_equalityI) (simp_all add: ring_order_def nth_rotate)

lemma rotate_update:
  assumes "i < length xs"
  shows "rotate (Suc i) (xs[i := e]) = tl (rotate i xs) @ [e]"
proof -
  have "rotate i (xs[i := e]) = e # tl (rotate i xs)"
  proof -
    have "rotate i xs = xs ! i # drop (Suc i) xs @ take i xs" "rotate i (xs[i := e]) = e # drop (Suc i) xs @ take i xs"
      using assms by (simp_all add: rotate_drop_take Cons_nth_drop_Suc[symmetric] drop_update_cancel)
    then show ?thesis by simp
  qed
  then show ?thesis using assms by (simp add: rotate1_hd_tl)
qed

interpretation query_log: recent_log RecordRecentQuery "\<lambda>q. rev (ring_order q)" ring_ok ring_size
proof
  fix q e
  assume ok: "ring_ok q"
  show ok': "ring_ok (RecordRecentQuery e q)" using ok by (simp add: ring_ok_def RecordRecentQuery_def ring_size_def)
  show "length (rev (ring_order q)) \<le> ring_size" using ok by (simp add: ring_ok_def ring_order_def)
  have l: "length (rq_entries q) = ring_size" "rq_index q < ring_size" using ok by (simp_all add: ring_ok_def)
  have "ring_order (RecordRecentQuery e q) = rotate ((rq_index q + 1) mod ring_size) ((rq_entries q)[rq_index q := e])"
    using ring_order_rotate[OF ok'] l by (simp add: RecordRecentQuery_def)
  also have "\<dots> = rotate (Suc (rq_index q)) ((rq_entries q)[rq_index q := e])"
    using l by (metis length_list_update rotate_conv_mod Suc_eq_plus1)
  also have "\<dots> = tl (ring_order q) @ [e]" using l rotate_update[of "rq_index q" "rq_entries q" e] ring_order_rotate[OF ok] by simp
  finally have "rev (ring_order (RecordRecentQuery e q)) = e # rev (tl (ring_order q))" by simp
  moreover have "length (ring_order q) = ring_size" using l by (simp add: ring_order_def)
  ultimately show "rev (ring_order (RecordRecentQuery e q)) = take ring_size (e # rev (ring_order q))"
    by (cases "ring_order q") (auto simp: take_Cons' ring_size_def)
qed

text \<open>Both lists of recent domains are the last twenty entries of their history, in any number of
  additions: the blocked ones oldest first, the queries newest first and without the empty names.\<close>

theorem recent_lists_keep_last:
  "rb_GetAll (fold rb_Add es NewRecentlyBlockedTracker) = rev (take 20 (rev (map be_domain es)))
   \<and> GetRecentQueries (fold RecordRecentQuery es empty_ring) = filter (\<lambda>d. d \<noteq> '''') (take 20 (rev (map be_domain es)))"
proof
  have "rb_ok 20 NewRecentlyBlockedTracker" by (simp add: rb_ok_def NewRecentlyBlockedTracker_def)
  from blocked_log.view_fold[OF this, of es]
  have "rev (rb_entries (fold rb_Add es NewRecentlyBlockedTracker)) = take 20 (rev es)"
    by (simp add: NewRecentlyBlockedTracker_def)
  then have "rb_entries (fold rb_Add es NewRecentlyBlockedTracker) = rev (take 20 (rev es))"
    by (metis rev_rev_ident)
  then show "rb_GetAll (fold rb_Add es NewRecentlyBlockedTracker) = rev (take 20 (rev (map be_domain es)))"
    by (simp add: rb_GetAll_def rev_map take_map)
  have "ring_ok empty_ring" by (simp add: ring_ok_def empty_ring_def ring_size_def)
  from query_log.view_fold[OF this, of es]
  have v: "rev (ring_order (fold RecordRecentQuery es empty_ring)) = take 20 (rev es @ rev (ring_order empty_ring))"
    by (simp add: ring_size_def)
  have e: "filter (\<lambda>e. be_domain e \<noteq> '''') (rev (ring_order empty_ring)) = []"
    by (auto simp: ring_order_def empty_ring_def filter_empty_conv)
  have "GetRecentQueries q = map be_domain (filter (\<lambda>e. be_domain e \<noteq> '''') (rev (ring_order q)))" for q
    by (simp add: GetRecentQueries_def rev_map rev_filter)
  moreover have "filter (\<lambda>e. be_domain e \<noteq> '''') (take n (rev (ring_order empty_ring))) = []" for n
    using e by (metis append_is_Nil_conv append_take_drop_id filter_append)
  ultimately show "GetRecentQueries (fold RecordRecentQuery es empty_ring) = filter (\<lambda>d. d \<noteq> '''') (take 20 (rev (map be_domain es)))"
    by (simp add: v filter_map comp_def rev_map take_map)
qed

end
