(* ===== verification/Sort_Queue.thy ===== *)
theory Sort_Queue
  imports Cache_Entries
begin

text \<open>\<open>cache/sortqueue.go\<close>: a bounded queue served by workers. The state machine has a step for each
  thing a goroutine does between two points where it may wait; \<open>sq_accepted\<close> and \<open>sq_late\<close> record
  the tasks for which \<open>Submit\<close> returned true, and those of them accepted after the drain had seen the
  queue empty; \<open>sq_called\<close> is the log of callbacks. A send on the closed channel panics.\<close>

record SortTask =
  tk_id :: nat
  tk_Domain :: string
  tk_Qtype :: qtype
  tk_IPs :: "string list"
  tk_TTL :: "32 word"

record SortQueue =
  sq_queue :: "SortTask list"
  sq_cap :: nat
  sq_workers :: nat
  sq_running :: "SortTask list"
  sq_sortTimeout :: duration
  sq_hasFunc :: bool
  sq_stopped :: bool
  sq_drained :: bool
  sq_closed :: bool
  sq_panicked :: bool
  sq_tasksProcessed :: int
  sq_tasksFailed :: int
  sq_called :: "(SortTask \<times> (string + SortedCacheEntry)) list"
  sq_accepted :: "SortTask list"
  sq_late :: "SortTask list"

definition NewSortQueue :: "int \<Rightarrow> int \<Rightarrow> duration \<Rightarrow> SortQueue" where
  "NewSortQueue workers queueSize sortTimeout =
     (let w = (if workers \<le> 0 then 1 else workers);
          n = (if queueSize \<le> 0 then min 1000 (max 100 (w * 10)) else queueSize)
      in \<lparr>sq_queue = [], sq_cap = nat n, sq_workers = nat w, sq_running = [],
          sq_sortTimeout = (if sortTimeout \<le> 0 then 10 * second else sortTimeout), sq_hasFunc = False,
          sq_stopped = False, sq_drained = False, sq_closed = False, sq_panicked = False,
          sq_tasksProcessed = 0, sq_tasksFailed = 0, sq_called = [], sq_accepted = [], sq_late = []\<rparr>)"

definition SetSortFunc :: "SortQueue \<Rightarrow> SortQueue" where
  "SetSortFunc q = q\<lparr>sq_hasFunc := True\<rparr>"

section \<open>Operations\<close>

definition enqueue :: "SortTask \<Rightarrow> SortQueue \<Rightarrow> SortQueue" where
  "enqueue t q = q\<lparr>sq_queue := sq_queue q @ [t], sq_accepted := sq_accepted q @ [t],
     sq_late := (if sq_drained q then sq_late q @ [t] else sq_late q)\<rparr>"

text \<open>\<open>Submit\<close>: of the ready cases of the select one is chosen, \<open>send\<close> telling which when both are; a
  closed channel is ready and panics, which is \<open>None\<close>.\<close>

definition Submit :: "bool \<Rightarrow> SortTask \<Rightarrow> SortQueue \<Rightarrow> (bool \<times> SortQueue) option" where
  "Submit send t q =
     (let sendReady = (sq_closed q \<or> length (sq_queue q) < sq_cap q)
      in if sendReady \<and> (send \<or> \<not> sq_stopped q)
         then (if sq_closed q then None else Some (True, enqueue t q))
         else Some (False, q))"

definition sq_outcome :: "bool \<Rightarrow> instant \<Rightarrow> SortTask \<Rightarrow> string + string list \<times> int list \<Rightarrow> string + SortedCacheEntry" where
  "sq_outcome hasFunc now t res = (if \<not> hasFunc then Inl ''sort function not set''
     else (case res of
         Inl err \<Rightarrow> Inl err
       | Inr (sortedIPs, rtts) \<Rightarrow> Inr \<lparr>sorted_IPs = sortedIPs, sorted_RTTs = rtts, sorted_Timestamp = now,
           sorted_TTL = uint (tk_TTL t), sorted_IsValid = True, sorted_QueryVersion = 0\<rparr>))"

text \<open>\<open>processTask\<close> ends with the callback; \<open>res\<close> is what the sorting function returned.\<close>

definition processTask :: "instant \<Rightarrow> string + string list \<times> int list \<Rightarrow> SortTask \<Rightarrow> SortQueue \<Rightarrow> SortQueue" where
  "processTask now res t q =
     q\<lparr>sq_running := remove1 t (sq_running q),
       sq_called := sq_called q @ [(t, sq_outcome (sq_hasFunc q) now t res)],
       sq_tasksProcessed := sq_tasksProcessed q + (if sq_hasFunc q \<and> \<not> isl res then 1 else 0),
       sq_tasksFailed := sq_tasksFailed q + (if sq_hasFunc q \<and> isl res then 1 else 0)\<rparr>"

definition drain_one :: "SortTask \<Rightarrow> SortTask list \<Rightarrow> SortQueue \<Rightarrow> SortQueue" where
  "drain_one t ts q = q\<lparr>sq_queue := ts, sq_called := sq_called q @ [(t, Inl ''sort queue is closed'')]\<rparr>"

section \<open>Steps\<close>

text \<open>A submission; a worker takes a task, ends it, or leaves after the stop; \<open>Stop\<close> closes the stop
  channel (panicking when called again), waits for the workers, drains the queue, closes it.\<close>

inductive sq_step :: "SortQueue \<Rightarrow> SortQueue \<Rightarrow> bool" where
  step_submit: "Submit send t q = Some (b, q') \<Longrightarrow> sq_step q q'"
| step_submit_panic: "Submit send t q = None \<Longrightarrow> sq_step q (q\<lparr>sq_panicked := True\<rparr>)"
| step_take: "length (sq_running q) < sq_workers q \<Longrightarrow> sq_queue q = t # ts \<Longrightarrow>
    sq_step q (q\<lparr>sq_queue := ts, sq_running := sq_running q @ [t]\<rparr>)"
| step_finish: "t \<in> set (sq_running q) \<Longrightarrow> sq_step q (processTask now res t q)"
| step_exit: "sq_stopped q \<Longrightarrow> length (sq_running q) < sq_workers q \<Longrightarrow>
    sq_step q (q\<lparr>sq_workers := sq_workers q - 1\<rparr>)"
| step_stop: "\<not> sq_stopped q \<Longrightarrow> sq_step q (q\<lparr>sq_stopped := True\<rparr>)"
| step_stop_again: "sq_stopped q \<Longrightarrow> sq_step q (q\<lparr>sq_panicked := True\<rparr>)"
| step_drain: "sq_stopped q \<Longrightarrow> sq_workers q = 0 \<Longrightarrow> \<not> sq_drained q \<Longrightarrow> sq_queue q = t # ts \<Longrightarrow>
    sq_step q (drain_one t ts q)"
| step_drained: "sq_stopped q \<Longrightarrow> sq_workers q = 0 \<Longrightarrow> \<not> sq_drained q \<Longrightarrow> sq_queue q = [] \<Longrightarrow>
    sq_step q (q\<lparr>sq_drained := True\<rparr>)"
| step_close: "sq_drained q \<Longrightarrow> \<not> sq_closed q \<Longrightarrow> sq_step q (q\<lparr>sq_closed := True\<rparr>)"

inductive sq_reach :: "SortQueue \<Rightarrow> SortQueue \<Rightarrow> bool" where
  reach_start: "sq_reach q q"
| reach_step: "sq_reach q q' \<Longrightarrow> sq_step q' q'' \<Longrightarrow> sq_reach q q''"

section \<open>Invariant\<close>

definition sq_inv :: "SortQueue \<Rightarrow> bool" where
  "sq_inv q \<longleftrightarrow> mset (sq_accepted q) = mset (map fst (sq_called q)) + mset (sq_running q) + mset (sq_queue q)
     \<and> length (sq_running q) \<le> sq_workers q
     \<and> (sq_closed q \<longrightarrow> sq_drained q)
     \<and> (sq_drained q \<longrightarrow> sq_workers q = 0 \<and> sq_queue q = sq_late q)
     \<and> (\<not> sq_drained q \<longrightarrow> sq_late q = [])"

lemma sq_inv_new: "sq_inv (NewSortQueue w n t)"
  by (simp add: sq_inv_def NewSortQueue_def Let_def)

lemma remove1_counts: "t \<in> set xs \<Longrightarrow> add_mset t (mset (remove1 t xs)) = mset xs"
  by (induction xs) auto

lemma sq_inv_step:
  assumes "sq_step q q'" "sq_inv q"
  shows "sq_inv q'"
  using assms
proof (induction rule: sq_step.induct)
  case (step_submit send t q b q')
  then show ?case by (auto simp: Submit_def enqueue_def sq_inv_def Let_def split: if_splits)
next
  case (step_finish t q now res)
  have "length (remove1 t (sq_running q)) \<le> sq_workers q"
    using step_finish(2) by (auto simp: sq_inv_def length_remove1)
  then show ?case using step_finish remove1_counts[of t "sq_running q"]
    by (auto simp: processTask_def sq_inv_def union_ac)
next
  case (step_drain q t ts)
  then show ?case by (auto simp: drain_one_def sq_inv_def)
qed (auto simp: sq_inv_def)

lemma sq_inv_reach: "sq_reach q q' \<Longrightarrow> sq_inv q \<Longrightarrow> sq_inv q'"
  by (induction rule: sq_reach.induct) (auto intro: sq_inv_step)

text \<open>C15: Every task is called back exactly once, in every interleaving of submissions, workers and the
  stop: at any time the accepted tasks are those called back, those running and those queued, and
  no more tasks run than there are workers. Once the queue is closed nothing runs, and the only
  tasks left without their callback are those accepted in the moment between the end of the drain
  and the close; without such a submission none is left.\<close>

theorem SortQueue_calls_back_once:
  assumes "sq_reach (NewSortQueue w n t) q"
  shows "mset (sq_accepted q) = mset (map fst (sq_called q)) + mset (sq_running q) + mset (sq_queue q)
    \<and> length (sq_running q) \<le> sq_workers q
    \<and> (sq_closed q \<longrightarrow> sq_running q = [] \<and> mset (sq_accepted q) = mset (map fst (sq_called q)) + mset (sq_late q))"
  using sq_inv_reach[OF assms sq_inv_new] by (auto simp: sq_inv_def)

definition example_task :: SortTask where
  "example_task = \<lparr>tk_id = 1, tk_Domain = ''a.com'', tk_Qtype = 1, tk_IPs = [''192.0.2.1''], tk_TTL = 60\<rparr>"

text \<open>A task accepted before the stop and drained, and one accepted too late.\<close>

lemma example_stop: "\<exists>q. sq_reach (NewSortQueue 1 0 0) q \<and> sq_closed q \<and> length (sq_called q) = 1 \<and> length (sq_late q) = 1"
proof -
  let ?q0 = "NewSortQueue 1 0 0"
  let ?q1 = "enqueue example_task ?q0"
  let ?q2 = "?q1\<lparr>sq_stopped := True\<rparr>"
  let ?q3 = "?q2\<lparr>sq_workers := sq_workers ?q2 - 1\<rparr>"
  let ?q4 = "drain_one example_task [] ?q3"
  let ?q5 = "?q4\<lparr>sq_drained := True\<rparr>"
  let ?q6 = "enqueue example_task ?q5"
  let ?q7 = "?q6\<lparr>sq_closed := True\<rparr>"
  note d = NewSortQueue_def Let_def enqueue_def drain_one_def Submit_def
  have s1: "sq_step ?q0 ?q1" by (rule step_submit[where send = True and b = True and t = example_task]) (simp add: d)
  have s2: "sq_step ?q1 ?q2" by (rule step_stop) (simp add: d)
  have s3: "sq_step ?q2 ?q3" by (rule step_exit) (simp_all add: d)
  have s4: "sq_step ?q3 ?q4" by (rule step_drain) (simp_all add: d)
  have s5: "sq_step ?q4 ?q5" by (rule step_drained) (simp_all add: d)
  have s6: "sq_step ?q5 ?q6" by (rule step_submit[where send = True and b = True and t = example_task]) (simp add: d)
  have s7: "sq_step ?q6 ?q7" by (rule step_close) (simp_all add: d)
  note r = reach_step[OF reach_step[OF reach_step[OF reach_step[OF reach_step[OF reach_step[OF reach_step[OF reach_start s1] s2] s3] s4] s5] s6] s7]
  have "sq_closed ?q7 \<and> length (sq_called ?q7) = 1 \<and> length (sq_late ?q7) = 1" by (simp add: d)
  with r show ?thesis by blast
qed

lemma SortQueue_calls_back_once_witness:
  "\<exists>q :: SortQueue. sq_closed q \<and> length (sq_accepted q) = 2 \<and> length (sq_called q) = 1"
proof -
  obtain q where q: "sq_reach (NewSortQueue 1 0 0) q" "sq_closed q" "length (sq_called q) = 1" "length (sq_late q) = 1"
    using example_stop by blast
  then have "mset (sq_accepted q) = mset (map fst (sq_called q)) + mset (sq_late q)"
    using SortQueue_calls_back_once[OF q(1)] by blast
  then have "size (mset (sq_accepted q)) = length (sq_called q) + length (sq_late q)" by simp
  then show ?thesis using q by (intro exI[of _ q]) simp
qed

end
