(* ===== verification/Dns_Server.thy ===== *)
theory Dns_Server
  imports Dns_Custom Adblock_Sources Prefetch Recent Sort_Queue Cache_Cleanup Upstream_Concurrent
begin

text \<open>\<open>dnsserver/server.go\<close>, \<open>handler_cache.go\<close>, \<open>handler_adblock.go\<close>, \<open>refresh_queue.go\<close>: the state of the
  server and the handlers that answer without asking upstream. A handler takes the server to the
  server it leaves; the messages it writes, the goroutines it starts and its calls of the
  statistics are logged in order. One handler reads the clock once. A nil dereference is \<open>None\<close>.\<close>

section \<open>State\<close>

datatype stat_call =
    IncQueries | IncEffectiveQueries | IncCacheHits | IncCacheMisses | IncCacheStaleRefresh | IncPingSuccesses
  | RecordDomainQuery string | RecordBlockedDomain string

record RefreshTask =
  rt_Domain :: string
  rt_Qtype :: qtype

text \<open>Goroutines: a sorting task (\<open>sortIPsAsync\<close>), the submission of one that holds a place of the
  semaphore, the measurement of new addresses, and the renewal of a stale measurement.\<close>

datatype job =
    Job_sort string qtype "string list" "32 word" instant
  | Job_submit SortTask
  | Job_ping "string list" string
  | Job_revalidate string

record 't Server =
  sv_cfg :: Config
  sv_cache :: Cache
  sv_blocked :: recentlyBlocked
  sv_upstream :: Manager
  sv_pinger :: Pinger
  sv_sortQueue :: SortQueue
  sv_semaphore :: nat
  sv_prefetcher :: Prefetcher
  sv_refreshQueue :: "RefreshTask list"
  sv_recent :: recentQueries
  sv_adblock :: "'t AdBlockManager option"
  sv_custom :: "CustomResponseManager option"
  sv_stats :: "stat_call list"
  sv_jobs :: "job list"
  sv_out :: "dnsMsg list"

record Request =
  rq_msg :: dnsMsg
  rq_DO :: bool

text \<open>What is not the server's own: the clock, the functions of the DNS library, the third-party parts of
  the ad blocker, the calendar date, \<open>math.Pow(2, x)\<close>, the network checker (\<open>None\<close> when there is none),
  the \<open>n\<close>-th upstream query of a handler, and whether its context has ended before it.\<close>

record 't server_env =
  se_now :: instant
  se_fqdn :: "string \<Rightarrow> string"
  se_rr_text :: "dnsRR \<Rightarrow> string"
  se_ad :: "'t engine_env"
  se_date :: "instant \<Rightarrow> int"
  se_pow2 :: "rat \<Rightarrow> rat"
  se_healthy :: "bool option"
  se_query :: "nat \<Rightarrow> (string \<times> qtype) list \<Rightarrow> bool \<Rightarrow> Manager \<Rightarrow> query_outcome \<times> Manager"
  se_ctxErr :: "nat \<Rightarrow> go_error option"

section \<open>Effects\<close>

definition count :: "stat_call \<Rightarrow> 't Server \<Rightarrow> 't Server" where
  "count c s = s\<lparr>sv_stats := sv_stats s @ [c]\<rparr>"

definition spawn :: "job \<Rightarrow> 't Server \<Rightarrow> 't Server" where
  "spawn j s = s\<lparr>sv_jobs := sv_jobs s @ [j]\<rparr>"

definition write_msg :: "dnsMsg \<Rightarrow> 't Server \<Rightarrow> 't Server" where
  "write_msg m s = s\<lparr>sv_out := sv_out s @ [m]\<rparr>"

definition on_cache :: "(Cache \<Rightarrow> Cache) \<Rightarrow> 't Server \<Rightarrow> 't Server" where
  "on_cache f s = s\<lparr>sv_cache := f (sv_cache s)\<rparr>"

text \<open>The cache reports to the IP pool of the pinger.\<close>

definition pool_step :: "instant \<Rightarrow> pool_call \<Rightarrow> IPPool \<Rightarrow> IPPool" where
  "pool_step now call p = (case call of
      Cache_Store.UpdateDomainIPs old new domain \<Rightarrow> Ip_Pool.UpdateDomainIPs now old new domain p
    | Cache_Store.RecordAccess ip domain \<Rightarrow> Pool_RecordAccess now ip domain p)"

definition pool_calls :: "instant \<Rightarrow> pool_call list \<Rightarrow> 't Server \<Rightarrow> 't Server" where
  "pool_calls now calls s = s\<lparr>sv_pinger := (sv_pinger s)
     \<lparr>pg_ipPool := map_option (fold (pool_step now) calls) (pg_ipPool (sv_pinger s))\<rparr>\<rparr>"

section \<open>Refresh queue\<close>

definition refreshQueueSize :: nat where "refreshQueueSize = 100"

text \<open>\<open>RefreshQueue.Submit\<close>: the singleflight group merges only submissions under way at the same time;
  each lasts no longer than the send, so one after the other they all enter the queue.\<close>

definition rq_Submit :: "RefreshTask \<Rightarrow> 't Server \<Rightarrow> bool \<times> 't Server" where
  "rq_Submit task s = (if length (sv_refreshQueue s) < refreshQueueSize
     then (True, s\<lparr>sv_refreshQueue := sv_refreshQueue s @ [task]\<rparr>) else (False, s))"

definition RefreshDomain :: "'t server_env \<Rightarrow> string \<Rightarrow> qtype \<Rightarrow> 't Server \<Rightarrow> 't Server" where
  "RefreshDomain env domain qt s = (if se_healthy env = Some False then s
     else snd (rq_Submit \<lparr>rt_Domain = domain, rt_Qtype = qt\<rparr> s))"

section \<open>Order by measurements\<close>

definition rtt_before :: "string \<times> int \<Rightarrow> string \<times> int \<Rightarrow> bool" where
  "rtt_before a b = (if snd a \<noteq> snd b then snd a < snd b else fst a < fst b)"

definition sorted_by_rtt :: "string list \<Rightarrow> (string \<rightharpoonup> int) \<Rightarrow> (string \<times> int) list" where
  "sorted_by_rtt ips rttMap = go_sort_slice rtt_before
     (map (\<lambda>ip. (ip, case rttMap ip of Some r \<Rightarrow> r | None \<Rightarrow> LogicDeadRTT)) ips)"

definition sortIPsByRTT :: "string list \<Rightarrow> (string \<rightharpoonup> int) \<Rightarrow> 't Server \<Rightarrow> (string list \<times> int list) \<times> 't Server" where
  "sortIPsByRTT ips rttMap s =
     (let hit = sorted_by_rtt ips rttMap
      in ((map fst hit, map snd hit),
          fold (\<lambda>(_, rtt) s. if rtt < LogicDeadRTT then count IncPingSuccesses s else s) hit s))"

text \<open>\<open>len(rttMap) > 0\<close> of the map \<open>GetAllIPRTTs\<close> makes for these addresses.\<close>

definition latest_order :: "string list \<Rightarrow> 't Server \<Rightarrow> string list \<times> 't Server" where
  "latest_order ips s = (case pg_ipPool (sv_pinger s) of
      None \<Rightarrow> (ips, s)
    | Some pool \<Rightarrow> (let latest = GetAllIPRTTs ips pool
        in if \<exists>ip \<in> set ips. latest ip \<noteq> None
           then (let ((hit, _), s1) = sortIPsByRTT ips latest s in (hit, s1)) else (ips, s)))"

section \<open>Cache hits\<close>

definition handleErrorCacheHit :: "'t server_env \<Rightarrow> Request \<Rightarrow> string \<Rightarrow> qtype \<Rightarrow> 't Server \<Rightarrow> bool \<times> 't Server" where
  "handleErrorCacheHit env r domain qt s = (case GetError (se_now env) domain qt (sv_cache s) of
      (None, c) \<Rightarrow> (False, s\<lparr>sv_cache := c\<rparr>)
    | (Some entry, c) \<Rightarrow>
       (let elapsed = go_div (se_now env - err_CachedAt entry + second div 2) second;
            remainingTTL = word_of_int (max 1 (err_TTL entry - elapsed));
            msg = negative_reply (se_fqdn env) (se_now env) (rq_msg r) (err_Rcode entry) domain remainingTTL
        in (True, write_msg msg (count IncCacheHits (s\<lparr>sv_cache := c\<rparr>)))))"

definition fast_ttl :: "Config \<Rightarrow> 32 word" where
  "fast_ttl cfg = word_of_int (cache_FastResponseTTL (cfg_Cache cfg))"

definition dead_pool :: "SortedCacheEntry \<Rightarrow> bool" where
  "dead_pool hit \<longleftrightarrow> (\<forall>rtt \<in> set (sorted_RTTs hit). LogicDeadRTT \<le> rtt)"

definition sorted_answer :: "'t server_env \<Rightarrow> Request \<Rightarrow> string \<Rightarrow> qtype \<Rightarrow> RawCacheEntry option \<Rightarrow> string list \<Rightarrow>
    32 word \<Rightarrow> dnsMsg" where
  "sorted_answer env r domain qt raw ips ttl =
     (let cnames = (case raw of None \<Rightarrow> [] | Some e \<Rightarrow> raw_CNAMEs e); msg = reply_to (rq_msg r) rcode_success
      in if cnames \<noteq> [] then buildDNSResponseWithCNAME (se_fqdn env) domain cnames ips qt ttl msg
         else buildDNSResponse (se_fqdn env) domain ips qt ttl msg)"

definition handleSortedCacheHit :: "'t server_env \<Rightarrow> Request \<Rightarrow> string \<Rightarrow> qtype \<Rightarrow> 't Server \<Rightarrow> bool \<times> 't Server" where
  "handleSortedCacheHit env r domain qt s = (let now = se_now env; cfg = sv_cfg s in
     (case GetSorted now domain qt (sv_cache s) of
        (None, calls, c) \<Rightarrow> (False, pool_calls now calls (s\<lparr>sv_cache := c\<rparr>))
      | (Some hit, calls, c) \<Rightarrow>
         (let s1 = pool_calls now calls (s\<lparr>sv_cache := c\<rparr>);
              s2 = s1\<lparr>sv_prefetcher := pf_RecordAccess now domain (word_of_int (sorted_TTL hit)) (sv_prefetcher s1)\<rparr>;
              s3 = count (RecordDomainQuery domain) (count IncCacheHits s2);
              elapsed = now - sorted_Timestamp hit;
              rttStale = (ping_RttCacheTtlSeconds (cfg_Ping cfg) * second \<le> elapsed);
              (raw, c4) = GetRaw domain qt (sv_cache s3);
              s4 = s3\<lparr>sv_cache := c4\<rparr>;
              isDeadPool = dead_pool hit;
              rawExpired = (case raw of None \<Rightarrow> True | Some e \<Rightarrow> RawCacheEntry_IsExpired now e);
              dnsExpired = (isDeadPool \<or> rawExpired);
              userTTL = (if isDeadPool then 1
                         else if rawExpired then fast_ttl cfg
                         else calculateUserTTL (cfg_Cache cfg) (sorted_TTL hit) elapsed rttStale);
              s5 = (if isDeadPool \<or> rttStale
                    then (if dnsExpired then RefreshDomain env domain qt s4
                          else (case raw of None \<Rightarrow> s4
                             | Some e \<Rightarrow> spawn (Job_sort domain qt (raw_IPs e) (raw_UpstreamTTL e) (raw_AcquisitionTime e)) s4))
                    else s4);
              (ips, s6) = latest_order (sorted_IPs hit) s5
          in (True, write_msg (sorted_answer env r domain qt raw ips userTTL) s6))))"

text \<open>The age up to which an expired answer is still served, and whether it is: by configuration or while
  less than half of the cache is used.\<close>

definition raw_state :: "'t server_env \<Rightarrow> RawCacheEntry \<Rightarrow> 't Server \<Rightarrow> CacheEntryState" where
  "raw_state env raw s = GetStateWithConfig (se_now env)
     (cache_KeepExpiredEntries (cfg_Cache (sv_cfg s)) \<or> GetMemoryUsagePercent (sv_cache s) < 1 / 2)
     (word_of_int AncientLimitLowPressure) raw"

definition raw_hit :: "'t server_env \<Rightarrow> string \<Rightarrow> RawCacheEntry \<Rightarrow> 't Server \<Rightarrow> 't Server" where
  "raw_hit env domain raw s = count (RecordDomainQuery domain) (count IncCacheHits
     (s\<lparr>sv_prefetcher := pf_RecordAccess (se_now env) domain (raw_UpstreamTTL raw) (sv_prefetcher s)\<rparr>))"

definition submit_refresh :: "string \<Rightarrow> qtype \<Rightarrow> 't Server \<Rightarrow> 't Server" where
  "submit_refresh domain qt s = snd (rq_Submit \<lparr>rt_Domain = domain, rt_Qtype = qt\<rparr> (count IncCacheStaleRefresh s))"

definition rank_domain :: "string \<Rightarrow> string list \<Rightarrow> string" where
  "rank_domain domain cnames = (if cnames \<noteq> [] then trim_dots (last cnames) else domain)"

definition fallback_order :: "'t server_env \<Rightarrow> string \<Rightarrow> string list \<Rightarrow> string list \<Rightarrow> 't Server \<Rightarrow> string list \<times> 't Server" where
  "fallback_order env domain cnames ips s =
     (let (ranked, p) = GetFallbackRank (se_pow2 env) (\<lambda>_. se_now env) (rank_domain domain cnames) ips (sv_prefetcher s)
      in (ranked, s\<lparr>sv_prefetcher := p\<rparr>))"

definition address_answer :: "'t server_env \<Rightarrow> Request \<Rightarrow> string \<Rightarrow> qtype \<Rightarrow> string list \<Rightarrow> string list \<Rightarrow> 32 word \<Rightarrow> bool \<Rightarrow>
    dnsMsg" where
  "address_answer env r domain qt cnames ips ttl authData =
     (let msg = reply_to (rq_msg r) rcode_success
      in if cnames \<noteq> [] then buildDNSResponseWithCNAMEAndDNSSEC (se_fqdn env) domain cnames ips qt ttl authData msg
         else buildDNSResponseWithDNSSEC (se_fqdn env) domain ips qt ttl authData msg)"

definition handleRawCacheHit :: "'t server_env \<Rightarrow> Request \<Rightarrow> string \<Rightarrow> qtype \<Rightarrow> 't Server \<Rightarrow> bool \<times> 't Server" where
  "handleRawCacheHit env r domain qt s = (let now = se_now env; cfg = sv_cfg s in
     (case GetRaw domain qt (sv_cache s) of
        (None, c) \<Rightarrow> (False, s\<lparr>sv_cache := c\<rparr>)
      | (Some raw, c) \<Rightarrow>
         (let s1 = raw_hit env domain raw (s\<lparr>sv_cache := c\<rparr>);
              state = raw_state env raw s1;
              elapsed = now - raw_AcquisitionTime raw
          in if state = EXPIRED then (False, s1)
             else (let userTTL = (if state = FRESH
                         then calculateUserTTL (cfg_Cache cfg) (uint (raw_EffectiveTTL raw)) elapsed False
                         else fast_ttl cfg);
                       s2 = (if state = STALE then submit_refresh domain qt s1 else s1);
                       (hit, calls, c3) = GetSortedWithStale now domain qt True (sv_cache s2);
                       s3 = pool_calls now calls (s2\<lparr>sv_cache := c3\<rparr>);
                       (ips, s4) = (case hit of
                           Some e \<Rightarrow> latest_order (sorted_IPs e) s3
                         | None \<Rightarrow> fallback_order env domain (raw_CNAMEs raw) (raw_IPs raw) s3);
                       authData = (raw_AuthenticatedData raw \<and> up_Dnssec (cfg_Upstream cfg));
                       s5 = write_msg (address_answer env r domain qt (raw_CNAMEs raw) ips userTTL authData) s4
                   in (True, if state = FRESH
                        then spawn (Job_sort domain qt (raw_IPs raw) (raw_UpstreamTTL raw) (raw_AcquisitionTime raw)) s5
                        else s5)))))"

definition handleRawCacheHitGeneric :: "'t server_env \<Rightarrow> Request \<Rightarrow> string \<Rightarrow> qtype \<Rightarrow> 't Server \<Rightarrow> (bool \<times> 't Server) option" where
  "handleRawCacheHitGeneric env r domain qt s = (let now = se_now env; cfg = sv_cfg s in
     if qt = TypeA \<or> qt = TypeAAAA then Some (False, s)
     else (case GetRaw domain qt (sv_cache s) of
        (None, c) \<Rightarrow> Some (False, s\<lparr>sv_cache := c\<rparr>)
      | (Some raw, c) \<Rightarrow>
         (let s1 = raw_hit env domain raw (s\<lparr>sv_cache := c\<rparr>);
              state = raw_state env raw s1;
              elapsed = now - raw_AcquisitionTime raw
          in if state = EXPIRED then Some (False, s1)
             else (let userTTL = (if state = FRESH
                         then calculateUserTTL (cfg_Cache cfg) (uint (raw_EffectiveTTL raw)) elapsed False
                         else fast_ttl cfg);
                       s2 = (if state = STALE then submit_refresh domain qt s1 else s1);
                       authData = (raw_AuthenticatedData raw \<and> up_Dnssec (cfg_Upstream cfg))
                   in (case buildGenericResponse (se_fqdn env) (raw_CNAMEs raw) (raw_Records raw) qt userTTL authData
                             (reply_to (rq_msg r) rcode_success) of
                         None \<Rightarrow> None
                       | Some msg \<Rightarrow> Some (True, write_msg msg s2))))))"

section \<open>Ad blocking\<close>

text \<open>\<open>sendAdBlockResponse\<close> knows four modes; for any other text it writes nothing.\<close>

definition sendAdBlockResponse :: "'t server_env \<Rightarrow> Request \<Rightarrow> AdBlockConfig \<Rightarrow> 't Server \<Rightarrow> 't Server option" where
  "sendAdBlockResponse env r cfg s =
     (let mode = ad_BlockMode cfg in
      if mode = ''nxdomain'' \<or> mode = ''default''
        then Some (write_msg (buildNXDomainResponse (se_fqdn env) (se_now env) (rq_msg r) (ad_BlockedTTL cfg)) s)
      else if mode = ''zero_ip'' then (case buildZeroIPResponse (rq_msg r) (ad_BlockedResponseIP cfg) (ad_BlockedTTL cfg) of
          None \<Rightarrow> None | Some msg \<Rightarrow> Some (write_msg msg s))
      else if mode = ''refuse''
        then Some (write_msg (buildRefuseResponse (se_fqdn env) (se_now env) (rq_msg r) (ad_BlockedTTL cfg)) s)
      else Some s)"

definition record_block :: "'t server_env \<Rightarrow> 't AdBlockManager \<Rightarrow> string \<Rightarrow> 't Server \<Rightarrow> 't Server" where
  "record_block env m domain s = (count (RecordBlockedDomain domain)
     (s\<lparr>sv_adblock := Some (am_RecordBlock (se_date env) (se_now env) m)\<rparr>))
     \<lparr>sv_blocked := rb_Add \<lparr>be_domain = domain, be_timestamp = se_now env\<rparr> (sv_blocked s)\<rparr>"

definition block_entry :: "'t server_env \<Rightarrow> AdBlockConfig \<Rightarrow> string \<Rightarrow> BlockedCacheEntry" where
  "block_entry env cfg rule = \<lparr>blocked_BlockType = ad_BlockMode cfg, blocked_Rule = rule,
     blocked_ExpiredAt = se_now env + ad_BlockedTTL cfg * second\<rparr>"

definition block_domain :: "'t server_env \<Rightarrow> Request \<Rightarrow> 't AdBlockManager \<Rightarrow> string \<Rightarrow> string \<Rightarrow> 't Server \<Rightarrow> 't Server option" where
  "block_domain env r m domain rule s =
     (let cfg = cfg_AdBlock (sv_cfg s)
      in sendAdBlockResponse env r cfg (on_cache (SetBlocked domain (block_entry env cfg rule)) (record_block env m domain s)))"

definition handleAdBlockCheck :: "'t server_env \<Rightarrow> Request \<Rightarrow> string \<Rightarrow> 't Server \<Rightarrow> (bool \<times> 't Server) option" where
  "handleAdBlockCheck env r domain s = (let cfg = cfg_AdBlock (sv_cfg s) in
     (case sv_adblock s of
        None \<Rightarrow> Some (False, s)
      | Some m \<Rightarrow>
         if \<not> ad_Enable cfg then Some (False, s)
         else if GetBlocked (se_now env) domain (sv_cache s) \<noteq> None
           then map_option (Pair True) (sendAdBlockResponse env r cfg (record_block env m domain s))
         else if GetExplicitAllowed (se_now env) domain (sv_cache s) then Some (False, s)
         else (case am_CheckHost (se_ad env) domain m of
             (MatchBlocked, rule) \<Rightarrow> map_option (Pair True) (block_domain env r m domain rule s)
           | (res, _) \<Rightarrow> Some (False, on_cache (SetAllowed domain
                \<lparr>allowed_ExpiredAt = se_now env + 600 * second, allowed_IsExplicit = (res = MatchAllowed)\<rparr>) s))))"

text \<open>The aliases of an answer; an allowed alias does not end the check.\<close>

definition blocked_alias :: "'t server_env \<Rightarrow> 't AdBlockManager \<Rightarrow> string list \<Rightarrow> string option" where
  "blocked_alias env m cnames =
     (case find (\<lambda>c. fst (am_CheckHost (se_ad env) (trim_dots c) m) = MatchBlocked) cnames of
        None \<Rightarrow> None | Some c \<Rightarrow> Some (snd (am_CheckHost (se_ad env) (trim_dots c) m)))"

definition handleCNAMEChainValidation :: "'t server_env \<Rightarrow> Request \<Rightarrow> string \<Rightarrow> string list \<Rightarrow> 't Server \<Rightarrow>
    (bool \<times> 't Server) option" where
  "handleCNAMEChainValidation env r domain cnames s = (case sv_adblock s of
      None \<Rightarrow> Some (False, s)
    | Some m \<Rightarrow>
       if \<not> ad_Enable (cfg_AdBlock (sv_cfg s)) \<or> cnames = [] then Some (False, s)
       else if GetExplicitAllowed (se_now env) domain (sv_cache s) then Some (False, s)
       else (case blocked_alias env m cnames of
           None \<Rightarrow> Some (False, s)
         | Some rule \<Rightarrow> map_option (Pair True) (block_domain env r m domain rule s)))"

end
