(* ===== verification/Dns_Query.thy ===== *)
theory Dns_Query
  imports Dns_Server
begin

text \<open>\<open>dnsserver/handler_query.go\<close> and \<open>handler_cname.go\<close>: the whole handling of a query. A handler
  that panics is \<open>None\<close>: the program does so when the upstream manager returns neither a result nor an
  error.\<close>

section \<open>Following aliases\<close>

definition maxRedirects :: nat where "maxRedirects = 10"

definition accumulate :: "string list \<Rightarrow> string list \<Rightarrow> string list" where
  "accumulate acc cnames = acc @ keep_first id (set acc) cnames"

definition cname_failed :: "string \<Rightarrow> go_error \<Rightarrow> go_error" where
  "cname_failed queryDomain err = Err_text (''cname resolution failed for '' @ queryDomain @ '': '' @ err_text err)"

text \<open>One redirect per round; \<open>i\<close> numbers the queries of the handler, \<open>None\<close> is the panic.\<close>

fun resolve_loop :: "'t server_env \<Rightarrow> bool \<Rightarrow> qtype \<Rightarrow> string \<Rightarrow> nat \<Rightarrow> nat \<Rightarrow> string \<Rightarrow> string list \<Rightarrow> Manager \<Rightarrow>
    (go_error + QueryResultWithTTL) option \<times> Manager" where
  "resolve_loop env dnssecOK qt domain 0 i currentDomain acc u =
     (Some (Inl (Err_text (''cname resolution failed: exceeded max redirects for '' @ domain))), u)"
| "resolve_loop env dnssecOK qt domain (Suc k) i currentDomain acc u = (case se_ctxErr env i of
      Some err \<Rightarrow> (Some (Inl err), u)
    | None \<Rightarrow>
       (let queryDomain = trim_dots currentDomain in
        (case se_query env i [(se_fqdn env queryDomain, qt)] dnssecOK u of
           ((_, Some err), u1) \<Rightarrow> (Some (Inl (cname_failed queryDomain err)), u1)
         | ((None, None), u1) \<Rightarrow> (None, u1)
         | ((Some result, None), u1) \<Rightarrow>
            (let acc1 = accumulate acc (qr_CNAMEs result)
             in if qr_IPs result = [] \<and> qr_CNAMEs result \<noteq> []
                then resolve_loop env dnssecOK qt domain k (Suc i) (last (qr_CNAMEs result)) acc1 u1
                else (Some (Inr (result\<lparr>qr_CNAMEs := acc1\<rparr>)), u1)))))"

definition resolveCNAME :: "'t server_env \<Rightarrow> bool \<Rightarrow> qtype \<Rightarrow> nat \<Rightarrow> string \<Rightarrow> 't Server \<Rightarrow>
    (go_error + QueryResultWithTTL) option \<times> 't Server" where
  "resolveCNAME env dnssecOK qt i domain s =
     (let (out, u) = resolve_loop env dnssecOK qt domain maxRedirects i domain [] (sv_upstream s)
      in (out, s\<lparr>sv_upstream := u\<rparr>))"

section \<open>Asking upstream\<close>

text \<open>The first query of a handler, with the questions of the request.\<close>

definition first_query :: "'t server_env \<Rightarrow> Request \<Rightarrow> 't Server \<Rightarrow> query_outcome \<times> 't Server" where
  "first_query env r s =
     (let (out, u) = se_query env 0 (msg_Question (rq_msg r)) (up_Dnssec (cfg_Upstream (sv_cfg s)) \<and> rq_DO r) (sv_upstream s)
      in (out, s\<lparr>sv_upstream := u\<rparr>))"

definition error_ttl :: "'t Server \<Rightarrow> int" where
  "error_ttl s = cache_ErrorCacheTTL (cfg_Cache (sv_cfg s))"

text \<open>A negative answer, with or without a note of it in the error cache.\<close>

definition deny :: "'t server_env \<Rightarrow> Request \<Rightarrow> string \<Rightarrow> int \<Rightarrow> int \<Rightarrow> 't Server \<Rightarrow> 't Server" where
  "deny env r domain rcode ttl s =
     write_msg (negative_reply (se_fqdn env) (se_now env) (rq_msg r) rcode domain (word_of_int ttl)) s"

definition deny_cached :: "'t server_env \<Rightarrow> Request \<Rightarrow> string \<Rightarrow> qtype \<Rightarrow> int \<Rightarrow> int \<Rightarrow> 't Server \<Rightarrow> 't Server" where
  "deny_cached env r domain qt rcode ttl s =
     deny env r domain rcode ttl (on_cache (SetError (se_now env) domain qt rcode ttl) s)"

definition upstream_failed :: "'t server_env \<Rightarrow> Request \<Rightarrow> string \<Rightarrow> qtype \<Rightarrow> go_error \<Rightarrow> 't Server \<Rightarrow> 't Server" where
  "upstream_failed env r domain qt err s =
     (if parseRcodeFromError (Some err) = rcode_nxdomain
      then deny_cached env r domain qt rcode_nxdomain (error_ttl s) s
      else deny env r domain rcode_servfail (error_ttl s) s)"

definition says_nxdomain :: "QueryResultWithTTL \<Rightarrow> bool" where
  "says_nxdomain result = (case qr_DnsMsg result of None \<Rightarrow> False | Some m \<Rightarrow> msg_Rcode m = rcode_nxdomain)"

text \<open>What a query resolved to: addresses, aliases and TTL.\<close>

type_synonym resolved = "string list \<times> string list \<times> 32 word"

definition resolve_result :: "'t server_env \<Rightarrow> bool \<Rightarrow> qtype \<Rightarrow> QueryResultWithTTL \<Rightarrow> 't Server \<Rightarrow>
    (go_error + resolved) option \<times> 't Server" where
  "resolve_result env dnssecOK qt result s =
     (if qr_IPs result = [] \<and> qr_CNAMEs result \<noteq> []
      then (case resolveCNAME env dnssecOK qt 1 (last (qr_CNAMEs result)) s of
          (None, s1) \<Rightarrow> (None, s1)
        | (Some (Inl err), s1) \<Rightarrow> (Some (Inl err), s1)
        | (Some (Inr final), s1) \<Rightarrow>
            (Some (Inr (qr_IPs final, deduplicateCNAMEs (qr_CNAMEs result @ qr_CNAMEs final), qr_TTL final)), s1))
      else (Some (Inr (qr_IPs result, qr_CNAMEs result, qr_TTL result)), s))"

section \<open>A miss of the caches\<close>

definition note_ips :: "'t server_env \<Rightarrow> string \<Rightarrow> qtype \<Rightarrow> string list \<Rightarrow> 32 word \<Rightarrow> 't Server \<Rightarrow> 't Server" where
  "note_ips env domain qt ips ttl s =
     (if ips = [] then s
      else spawn (Job_sort domain qt ips ttl (se_now env))
             (s\<lparr>sv_prefetcher := UpdateSimHash domain ips (sv_prefetcher s)\<rparr>))"

definition store_raw :: "'t server_env \<Rightarrow> string \<Rightarrow> qtype \<Rightarrow> dnsRR list \<Rightarrow> string list \<Rightarrow> 32 word \<Rightarrow> bool \<Rightarrow> 't Server \<Rightarrow> 't Server" where
  "store_raw env domain qt records cnames ttl authData s = on_cache
     (SetRawRecordsWithDNSSEC (se_now env) (se_now env) (se_now env) domain qt records cnames ttl authData) s"

text \<open>The full message under the name asked for and under each of its aliases.\<close>

definition store_msgs :: "'t server_env \<Rightarrow> string \<Rightarrow> qtype \<Rightarrow> string list \<Rightarrow> dnsMsg \<Rightarrow> 't Server \<Rightarrow> 't Server" where
  "store_msgs env domain qt cnames m s =
     fold (\<lambda>d. on_cache (SetDNSSECMsg (se_now env) d qt (deduplicateDNSMsg (se_rr_text env) m)))
       (domain # map trim_dots cnames) s"

definition answer_resolved :: "'t server_env \<Rightarrow> Request \<Rightarrow> string \<Rightarrow> qtype \<Rightarrow> QueryResultWithTTL \<Rightarrow> resolved \<Rightarrow> 't Server \<Rightarrow> 't Server" where
  "answer_resolved env r domain qt result res s = (case res of (finalIPs, fullCNAMEs, finalTTL) \<Rightarrow>
     (let dnssec = up_Dnssec (cfg_Upstream (sv_cfg s));
          s1 = store_raw env domain qt (qr_Records result) fullCNAMEs finalTTL (qr_AuthenticatedData result)
                 (count (RecordDomainQuery domain) s);
          s2 = note_ips env domain qt finalIPs finalTTL s1;
          (fallbackIPs, s3) = fallback_order env domain fullCNAMEs finalIPs s2;
          s4 = (case qr_DnsMsg result of
              Some m \<Rightarrow> if dnssec \<and> rq_DO r then store_msgs env domain qt fullCNAMEs m s3 else s3
            | None \<Rightarrow> s3)
      in write_msg (address_answer env r domain qt fullCNAMEs fallbackIPs (fast_ttl (sv_cfg s))
           (qr_AuthenticatedData result \<and> dnssec)) s4))"

text \<open>After the resolution: the aliases are checked, an empty result is cached as an error of code
  success, anything else is cached and answered.\<close>

definition finish_miss :: "'t server_env \<Rightarrow> Request \<Rightarrow> string \<Rightarrow> qtype \<Rightarrow> QueryResultWithTTL \<Rightarrow> resolved \<Rightarrow> 't Server \<Rightarrow> 't Server option" where
  "finish_miss env r domain qt result res s = (case res of (finalIPs, fullCNAMEs, finalTTL) \<Rightarrow>
     (case handleCNAMEChainValidation env r domain fullCNAMEs s of
        None \<Rightarrow> None
      | Some (True, s1) \<Rightarrow> Some s1
      | Some (False, s1) \<Rightarrow>
         Some (if finalIPs = [] \<and> fullCNAMEs = []
               then deny_cached env r domain qt rcode_success (cache_NegativeTTLSeconds (cfg_Cache (sv_cfg s1))) s1
               else answer_resolved env r domain qt result res s1)))"

definition handleCacheMiss :: "'t server_env \<Rightarrow> Request \<Rightarrow> string \<Rightarrow> qtype \<Rightarrow> 't Server \<Rightarrow> 't Server option" where
  "handleCacheMiss env r domain qt s0 = (let s = count IncCacheMisses s0 in
     if qt = TypeAAAA \<and> \<not> dns_EnableIPv6 (cfg_DNS (sv_cfg s)) then Some (write_msg (reply_to (rq_msg r) rcode_success) s)
     else (case first_query env r s of
        ((_, Some err), s1) \<Rightarrow> Some (upstream_failed env r domain qt err s1)
      | ((None, None), s1) \<Rightarrow> None
      | ((Some result, None), s1) \<Rightarrow>
         if says_nxdomain result then Some (deny_cached env r domain qt rcode_nxdomain (error_ttl s1) s1)
         else (case resolve_result env (up_Dnssec (cfg_Upstream (sv_cfg s)) \<and> rq_DO r) qt result s1 of
            (None, s2) \<Rightarrow> None
          | (Some (Inl err), s2) \<Rightarrow> Some (deny env r domain rcode_servfail (error_ttl s2) s2)
          | (Some (Inr res), s2) \<Rightarrow> finish_miss env r domain qt result res s2)))"

section \<open>Other types\<close>

definition handleGenericCacheMiss :: "'t server_env \<Rightarrow> Request \<Rightarrow> string \<Rightarrow> qtype \<Rightarrow> 't Server \<Rightarrow> 't Server option" where
  "handleGenericCacheMiss env r domain qt s = (case first_query env r (count IncCacheMisses s) of
      ((_, Some err), s1) \<Rightarrow> Some (upstream_failed env r domain qt err s1)
    | ((None, None), s1) \<Rightarrow> None
    | ((Some result, None), s1) \<Rightarrow>
       if says_nxdomain result then Some (deny_cached env r domain qt rcode_nxdomain (error_ttl s1) s1)
       else
         (let s2 = store_raw env domain qt (qr_Records result) (qr_CNAMEs result) (qr_TTL result)
                     (qr_AuthenticatedData result) (count (RecordDomainQuery domain) s1);
              ips = extractIPsFromRecords (qr_Records result);
              s3 = (if (qt = TypeA \<or> qt = TypeAAAA) \<and> ips \<noteq> []
                    then s2\<lparr>sv_prefetcher := UpdateSimHash domain ips (sv_prefetcher s2)\<rparr> else s2)
          in map_option (\<lambda>msg. write_msg msg s3)
               (buildGenericResponse (se_fqdn env) (qr_CNAMEs result) (qr_Records result) qt (qr_TTL result)
                  (qr_AuthenticatedData result \<and> up_Dnssec (cfg_Upstream (sv_cfg s))) (reply_to (rq_msg r) rcode_success))))"

definition handleGenericQuery :: "'t server_env \<Rightarrow> Request \<Rightarrow> string \<Rightarrow> qtype \<Rightarrow> 't Server \<Rightarrow> (bool \<times> 't Server) option" where
  "handleGenericQuery env r domain qt s = (case handleErrorCacheHit env r domain qt s of
      (True, s1) \<Rightarrow> Some (True, s1)
    | (False, s1) \<Rightarrow> (case handleRawCacheHitGeneric env r domain qt s1 of
          None \<Rightarrow> None
        | Some (True, s2) \<Rightarrow> Some (True, s2)
        | Some (False, s2) \<Rightarrow> map_option (Pair True) (handleGenericCacheMiss env r domain qt s2)))"

section \<open>A query\<close>

definition aged_message :: "duration \<Rightarrow> dnsMsg \<Rightarrow> dnsMsg" where
  "aged_message elapsed m = m\<lparr>msg_Answer := adjustTTL elapsed (msg_Answer m), msg_Ns := adjustTTL elapsed (msg_Ns m),
     msg_Extra := adjustTTL elapsed (msg_Extra m)\<rparr>"

definition handleMsgCacheHit :: "'t server_env \<Rightarrow> Request \<Rightarrow> string \<Rightarrow> qtype \<Rightarrow> 't Server \<Rightarrow> bool \<times> 't Server" where
  "handleMsgCacheHit env r domain qt s =
     (if rq_DO r \<and> up_Dnssec (cfg_Upstream (sv_cfg s))
      then (case GetDNSSECMsg (se_now env) domain qt (sv_cache s) of
          (None, c) \<Rightarrow> (False, s\<lparr>sv_cache := c\<rparr>)
        | (Some e, c) \<Rightarrow> (True, write_msg (aged_message (se_now env - dnssec_AcquisitionTime e) (dnssec_Message e))
             (count IncCacheHits (s\<lparr>sv_cache := c\<rparr>))))
      else (False, s))"

text \<open>Stage four and five: the caches in their order, then the upstream servers.\<close>

definition handleAddressQuery :: "'t server_env \<Rightarrow> Request \<Rightarrow> string \<Rightarrow> qtype \<Rightarrow> 't Server \<Rightarrow> 't Server option" where
  "handleAddressQuery env r domain qt s =
     (case handleMsgCacheHit env r domain qt s of (True, s1) \<Rightarrow> Some s1 | (False, s1) \<Rightarrow>
       (case handleErrorCacheHit env r domain qt s1 of (True, s2) \<Rightarrow> Some s2 | (False, s2) \<Rightarrow>
         (case handleSortedCacheHit env r domain qt s2 of (True, s3) \<Rightarrow> Some s3 | (False, s3) \<Rightarrow>
           (case handleRawCacheHit env r domain qt s3 of (True, s4) \<Rightarrow> Some s4
            | (False, s4) \<Rightarrow> handleCacheMiss env r domain qt s4))))"

definition handleUnblocked :: "'t server_env \<Rightarrow> Request \<Rightarrow> string \<Rightarrow> qtype \<Rightarrow> 't Server \<Rightarrow> 't Server option" where
  "handleUnblocked env r domain qt s =
     (case handleCustomResponse (se_fqdn env) (sv_custom s) (rq_msg r) domain qt of
        Some msg \<Rightarrow> Some (write_msg msg s)
      | None \<Rightarrow> (case handleLocalRules (se_fqdn env) (se_now env) (rq_msg r) domain qt of
          Some msg \<Rightarrow> Some (write_msg msg s)
        | None \<Rightarrow>
           if qt \<noteq> TypeA \<and> qt \<noteq> TypeAAAA
           then (case handleGenericQuery env r domain qt s of
               None \<Rightarrow> None
             | Some (True, s1) \<Rightarrow> Some s1
             | Some (False, s1) \<Rightarrow> Some (write_msg (reply_to (rq_msg r) rcode_notimp) s1))
           else handleAddressQuery env r domain qt
             (s\<lparr>sv_recent := RecordRecentQuery \<lparr>be_domain = domain, be_timestamp = se_now env\<rparr> (sv_recent s)\<rparr>)))"

definition handleQuery :: "'t server_env \<Rightarrow> Request \<Rightarrow> 't Server \<Rightarrow> 't Server option" where
  "handleQuery env r s0 = (let s = count IncQueries s0 in
     (case msg_Question (rq_msg r) of
        [] \<Rightarrow> Some (write_msg (reply_to (rq_msg r) rcode_success) s)
      | (name, qt) # _ \<Rightarrow>
         (let domain = trim_dots name in
          (case handleAdBlockCheck env r domain s of
             None \<Rightarrow> None
           | Some (True, s1) \<Rightarrow> Some s1
           | Some (False, s1) \<Rightarrow> handleUnblocked env r domain qt (count IncEffectiveQueries s1)))))"

end
