(* ===== verification/Dns_Refresh.thy ===== *)
theory Dns_Refresh
  imports Dns_Query Ip_Monitor
begin

text \<open>\<open>dnsserver/sorting.go\<close>, \<open>refresh.go\<close>, \<open>server_callbacks.go\<close>, and the monitor configuration of
  \<open>server_init.go\<close>: the work done behind the answers. A sorting task carries the number of its sorting
  state as \<open>tk_id\<close>, so its callback is determined by the task. \<open>None\<close> is a panic.\<close>

section \<open>Order of addresses\<close>

text \<open>The outside world of one measurement.\<close>

record ping_world =
  pw_clock :: "nat \<Rightarrow> instant"
  pw_probe :: "string \<Rightarrow> nat \<Rightarrow> probe"
  pw_sched :: "string list \<Rightarrow> string list"

text \<open>The statistics of a name with aliases are kept under the last of them.\<close>

definition sort_domain :: "string \<Rightarrow> string list \<Rightarrow> 't Server \<Rightarrow> string \<times> 't Server" where
  "sort_domain domain ips s = (case ips of
      [] \<Rightarrow> (domain, s)
    | ip # _ \<Rightarrow>
       (let qt = (if Option.bind (ParseIP ip) To4 = None then TypeAAAA else TypeA);
            (raw, c) = GetRaw domain qt (sv_cache s)
        in (rank_domain domain (case raw of None \<Rightarrow> [] | Some e \<Rightarrow> raw_CNAMEs e), s\<lparr>sv_cache := c\<rparr>)))"

definition ping_all :: "ping_world \<Rightarrow> string \<Rightarrow> string list \<Rightarrow> 't Server \<Rightarrow> (string list \<times> int list) \<times> 't Server" where
  "ping_all w domain ips s =
     (let (results, stale, p) = PingAndSort (pw_clock w) (pw_probe w) (pw_sched w) ips (sv_pinger s);
          s1 = fold (\<lambda>ip. spawn (Job_revalidate ip)) stale (s\<lparr>sv_pinger := p\<rparr>)
      in if results = [] then ((ips, []), s1)
         else ((map rs_IP results, map rs_RTT results),
               (fold (\<lambda>_. count IncPingSuccesses) results s1)
                 \<lparr>sv_prefetcher := ReportPingResultWithDomain (pw_clock w 4) domain results (sv_prefetcher s1)\<rparr>))"

text \<open>\<open>performPingSort\<close>: measured addresses of the pool are enough for an order; new ones are measured
  in the background, and at once only when nothing is known. Its error is always nil.\<close>

definition performPingSort :: "ping_world \<Rightarrow> string \<Rightarrow> string list \<Rightarrow> 't Server \<Rightarrow> (string list \<times> int list) \<times> 't Server" where
  "performPingSort w domain ips s =
     (if \<not> ping_Enabled (cfg_Ping (sv_cfg s)) then ((ips, []), s)
      else (let (sortDomain, s1) = sort_domain domain ips s in
        (case pg_ipPool (sv_pinger s1) of
           None \<Rightarrow> ping_all w sortDomain ips s1
         | Some pool \<Rightarrow>
            (let rttMap = GetAllIPRTTs ips pool;
                 known = length (remdups (filter (\<lambda>ip. rttMap ip \<noteq> None) ips));
                 newIPs = filter (\<lambda>ip. rttMap ip = None) ips
             in if known = length ips then sortIPsByRTT ips rttMap s1
                else (let s2 = (if newIPs \<noteq> [] then spawn (Job_ping newIPs sortDomain) s1 else s1)
                      in if 0 < known then sortIPsByRTT ips rttMap s2 else ping_all w sortDomain ips s2)))))"

text \<open>The background measurement of new addresses only fills the caches of the pinger.\<close>

definition ping_new :: "ping_world \<Rightarrow> string list \<Rightarrow> 't Server \<Rightarrow> 't Server" where
  "ping_new w ips s =
     (let (_, stale, p) = PingAndSort (pw_clock w) (pw_probe w) (pw_sched w) ips (sv_pinger s)
      in fold (\<lambda>ip. spawn (Job_revalidate ip)) stale (s\<lparr>sv_pinger := p\<rparr>))"

section \<open>Sorting tasks\<close>

definition calculateRemainingTTL :: "instant \<Rightarrow> CacheConfig \<Rightarrow> 32 word \<Rightarrow> instant \<Rightarrow> int" where
  "calculateRemainingTTL now cfg upstreamTTL acquisitionTime =
     (let elapsed = go_div (now - acquisitionTime) second;
          minTTL = word_of_int (cache_MinTTLSeconds cfg);
          maxTTL = word_of_int (cache_MaxTTLSeconds cfg);
          e1 = (if 0 < minTTL \<and> upstreamTTL < minTTL then minTTL else upstreamTTL);
          effTTL = (if 0 < maxTTL \<and> maxTTL < e1 then maxTTL else e1)
      in max 0 (uint effTTL - elapsed))"

definition finish_sort :: "SortedCacheEntry option \<Rightarrow> string option \<Rightarrow> nat \<Rightarrow> 't Server \<Rightarrow> 't Server option" where
  "finish_sort result err state s = map_option (\<lambda>c. s\<lparr>sv_cache := c\<rparr>) (FinishSort result err state (sv_cache s))"

definition set_sorted :: "instant \<Rightarrow> string \<Rightarrow> qtype \<Rightarrow> SortedCacheEntry \<Rightarrow> 't Server \<Rightarrow> 't Server" where
  "set_sorted now domain qt e s =
     (let (calls, c) = SetSorted domain qt e (sv_cache s) in pool_calls now calls (s\<lparr>sv_cache := c\<rparr>))"

definition handleSortComplete :: "instant \<Rightarrow> string \<Rightarrow> qtype \<Rightarrow> SortedCacheEntry option \<Rightarrow> string option \<Rightarrow> nat \<Rightarrow>
    't Server \<Rightarrow> 't Server option" where
  "handleSortComplete now domain qt result err state s = (case err of
      Some e \<Rightarrow> finish_sort None (Some e) state s
    | None \<Rightarrow> (case result of
        None \<Rightarrow> finish_sort None (Some ''sort result is nil'') state s
      | Some res \<Rightarrow>
         (let (raw, c) = GetRaw domain qt (sv_cache s);
              cfg = cfg_Cache (sv_cfg s);
              res1 = res\<lparr>sorted_TTL := (case raw of
                  Some e \<Rightarrow> calculateRemainingTTL now cfg (raw_UpstreamTTL e) (raw_AcquisitionTime e)
                | None \<Rightarrow> cache_MinTTLSeconds cfg)\<rparr>
          in finish_sort (Some res1) None state (set_sorted now domain qt res1 (s\<lparr>sv_cache := c\<rparr>)))))"

text \<open>The callback of a task, for what the sorting queue hands it.\<close>

definition sort_callback :: "instant \<Rightarrow> SortTask \<Rightarrow> string + SortedCacheEntry \<Rightarrow> 't Server \<Rightarrow> 't Server option" where
  "sort_callback now t out = (case out of
      Inl err \<Rightarrow> handleSortComplete now (tk_Domain t) (tk_Qtype t) None (Some err) (tk_id t)
    | Inr res \<Rightarrow> handleSortComplete now (tk_Domain t) (tk_Qtype t) (Some res) None (tk_id t))"

definition MaxConcurrentSorts :: nat where "MaxConcurrentSorts = 50"

definition single_result :: "instant \<Rightarrow> string list \<Rightarrow> 32 word \<Rightarrow> SortedCacheEntry" where
  "single_result now ips upstreamTTL = \<lparr>sorted_IPs = ips, sorted_RTTs = [0], sorted_Timestamp = now,
     sorted_TTL = uint upstreamTTL, sorted_IsValid = True, sorted_QueryVersion = 0\<rparr>"

definition sortIPsAsync :: "instant \<Rightarrow> string \<Rightarrow> qtype \<Rightarrow> string list \<Rightarrow> 32 word \<Rightarrow> instant \<Rightarrow> 't Server \<Rightarrow> 't Server option" where
  "sortIPsAsync now domain qt ips upstreamTTL acquisitionTime s =
     (let ((state, isNew), c) = GetOrStartSort domain qt (sv_cache s); s1 = s\<lparr>sv_cache := c\<rparr>
      in if \<not> isNew then Some s1
         else if length ips = 1
           then handleSortComplete now domain qt (Some (single_result now ips upstreamTTL)) None state s1
         else if sv_semaphore s1 < MaxConcurrentSorts
           then Some (spawn (Job_submit \<lparr>tk_id = state, tk_Domain = domain, tk_Qtype = qt, tk_IPs = ips,
                  tk_TTL = word_of_int (calculateRemainingTTL now (cfg_Cache (sv_cfg s1)) upstreamTTL acquisitionTime)\<rparr>)
                (s1\<lparr>sv_semaphore := sv_semaphore s1 + 1\<rparr>))
         else finish_sort None (Some ''sort semaphore full'') state s1)"

text \<open>The goroutine that holds the place: it only submits, and gives the place back.\<close>

definition submit_task :: "instant \<Rightarrow> bool \<Rightarrow> SortTask \<Rightarrow> 't Server \<Rightarrow> 't Server option" where
  "submit_task now send t s = map_option (\<lambda>s. s\<lparr>sv_semaphore := sv_semaphore s - 1\<rparr>)
     (case Submit send t (sv_sortQueue s) of
        None \<Rightarrow> None
      | Some (True, q) \<Rightarrow> Some (s\<lparr>sv_sortQueue := q\<rparr>)
      | Some (False, q) \<Rightarrow> sort_callback now t (Inl ''sort queue full'') (s\<lparr>sv_sortQueue := q\<rparr>))"

text \<open>A worker of the queue with the sorting function of the server: from taking the task to its
  callback.\<close>

definition run_task :: "instant \<Rightarrow> ping_world \<Rightarrow> SortTask \<Rightarrow> 't Server \<Rightarrow> 't Server option" where
  "run_task now w t s =
     (let (order, s1) = performPingSort w (tk_Domain t) (tk_IPs t) s;
          hasFunc = sq_hasFunc (sv_sortQueue s);
          s2 = (if hasFunc then s1 else s)\<lparr>sv_sortQueue := processTask now (Inr order) t (sv_sortQueue s)\<rparr>
      in sort_callback now t (sq_outcome hasFunc now t (Inr order)) s2)"

section \<open>Refreshing\<close>

text \<open>\<open>refreshCacheAsync\<close>: the request asks for DNSSEC records exactly when they are enabled.\<close>

definition refreshCacheAsync :: "'t server_env \<Rightarrow> RefreshTask \<Rightarrow> 't Server \<Rightarrow> 't Server option" where
  "refreshCacheAsync env task s = (let domain = rt_Domain task; qt = rt_Qtype task; dnssec = up_Dnssec (cfg_Upstream (sv_cfg s)) in
     if se_healthy env = Some False then Some s
     else (case se_query env 0 [(se_fqdn env domain, qt)] dnssec (sv_upstream s) of
        ((_, Some err), u) \<Rightarrow> Some (s\<lparr>sv_upstream := u\<rparr>)
      | ((None, None), u) \<Rightarrow> None
      | ((Some result, None), u) \<Rightarrow> (case resolve_result env dnssec qt result (s\<lparr>sv_upstream := u\<rparr>) of
            (None, s1) \<Rightarrow> None
          | (Some (Inl err), s1) \<Rightarrow> Some s1
          | (Some (Inr (finalIPs, fullCNAMEs, finalTTL)), s1) \<Rightarrow>
             Some (if finalIPs = [] then s1
                   else note_ips env domain qt finalIPs finalTTL
                     (on_cache (SetRawRecords (se_now env) (se_now env) (se_now env) domain qt (qr_Records result)
                        fullCNAMEs finalTTL) s1)))))"

text \<open>A worker of the refresh queue takes the next task.\<close>

definition refresh_next :: "'t server_env \<Rightarrow> 't Server \<Rightarrow> 't Server option" where
  "refresh_next env s = (case sv_refreshQueue s of
      [] \<Rightarrow> Some s | task # ts \<Rightarrow> refreshCacheAsync env task (s\<lparr>sv_refreshQueue := ts\<rparr>))"

section \<open>Late answers of the upstream manager\<close>

definition ips_changed :: "string list \<Rightarrow> string list \<Rightarrow> bool" where
  "ips_changed oldIPs newIPs \<longleftrightarrow> (\<exists>ip \<in> set newIPs. ip \<notin> set oldIPs) \<or> (\<exists>ip \<in> set oldIPs. ip \<notin> set newIPs)"

definition should_update :: "string list \<Rightarrow> string list \<Rightarrow> bool" where
  "should_update oldIPs newIPs \<longleftrightarrow> oldIPs = [] \<or> ips_changed oldIPs newIPs
     \<or> (length oldIPs < length newIPs
        \<and> (of_nat (length newIPs - length oldIPs) / of_nat (length oldIPs) :: rat) > 1 / 2)"

definition cache_update :: "instant \<Rightarrow> string \<Rightarrow> qtype \<Rightarrow> dnsRR list \<Rightarrow> string list \<Rightarrow> 32 word \<Rightarrow> int \<Rightarrow> 't Server \<Rightarrow> 't Server option" where
  "cache_update now domain qt records cnames ttl queryVersion s =
     (let (old, c) = GetRaw domain qt (sv_cache s);
          oldIPs = (case old of None \<Rightarrow> [] | Some e \<Rightarrow> raw_IPs e);
          currentVersion = (case old of None \<Rightarrow> 0 | Some e \<Rightarrow> raw_QueryVersion e);
          newIPs = extractIPsFromRecords records
      in if queryVersion < currentVersion \<or> \<not> should_update oldIPs newIPs then Some (s\<lparr>sv_cache := c\<rparr>)
         else (let c1 = SetRawRecordsWithVersion now now domain qt records cnames ttl queryVersion c
               in if (qt = TypeA \<or> qt = TypeAAAA) \<and> ips_changed oldIPs newIPs
                  then (case CancelSort domain qt c1 of
                      None \<Rightarrow> None
                    | Some c2 \<Rightarrow> (case GetRaw domain qt c2 of
                        (None, c3) \<Rightarrow> Some (s\<lparr>sv_cache := c3\<rparr>)
                      | (Some e, c3) \<Rightarrow> Some (spawn (Job_sort domain qt (raw_IPs e) ttl now) (s\<lparr>sv_cache := c3\<rparr>))))
                  else Some (s\<lparr>sv_cache := c1\<rparr>)))"

section \<open>Configuration of the monitor\<close>

definition positive_or :: "'a :: linordered_idom \<Rightarrow> 'a \<Rightarrow> 'a" where
  "positive_or d x = (if 0 < x then x else d)"

definition monitor_config :: "IPPoolConfig \<Rightarrow> IPMonitorConfig" where
  "monitor_config cfg = (let d = DefaultIPMonitorConfig in d
     \<lparr>mc_Enabled := (if ipc_Enabled cfg then ipc_Enabled cfg else mc_Enabled d),
      mc_T0RefreshInterval := positive_or (mc_T0RefreshInterval d) (ipc_T0RefreshInterval cfg),
      mc_T1RefreshInterval := positive_or (mc_T1RefreshInterval d) (ipc_T1RefreshInterval cfg),
      mc_T2RefreshInterval := positive_or (mc_T2RefreshInterval d) (ipc_T2RefreshInterval cfg),
      mc_CleanupInterval := positive_or (mc_CleanupInterval d) (ipc_CleanupInterval cfg),
      mc_RefCountWeight := positive_or (mc_RefCountWeight d) (ipc_RefCountWeight cfg),
      mc_AccessHeatWeight := positive_or (mc_AccessHeatWeight d) (ipc_AccessHeatWeight cfg),
      mc_MaxRefreshPerCycle := positive_or (mc_MaxRefreshPerCycle d) (ipc_MaxRefreshPerCycle cfg),
      mc_RefreshConcurrency := positive_or (mc_RefreshConcurrency d) (ipc_RefreshConcurrency cfg)\<rparr>)"

end
