(* ===== verification/Dns_Answers.thy ===== *)
theory Dns_Answers
  imports Dns_Query
begin

text \<open>Every query is answered by exactly one message. The collections hold, for each effect and each
  handler, that it writes nothing (\<open>silent\<close>) and keeps the configuration (\<open>same_cfg\<close>); a stage of the
  handlers either answers or leaves the writer alone (\<open>handled\<close>), and the stages are composed.\<close>

section \<open>Effects\<close>

named_theorems silent
named_theorems same_cfg

lemma effects_silent [silent]:
  "sv_out (count c s) = sv_out s" "sv_out (spawn j s) = sv_out s" "sv_out (on_cache f s) = sv_out s"
  "sv_out (pool_calls now calls s) = sv_out s" "sv_out (snd (rq_Submit t s)) = sv_out s"
  by (simp_all add: count_def spawn_def on_cache_def pool_calls_def rq_Submit_def)

lemma effects_cfg [same_cfg]:
  "sv_cfg (count c s) = sv_cfg s" "sv_cfg (spawn j s) = sv_cfg s" "sv_cfg (on_cache f s) = sv_cfg s"
  "sv_cfg (pool_calls now calls s) = sv_cfg s" "sv_cfg (snd (rq_Submit t s)) = sv_cfg s" "sv_cfg (write_msg m s) = sv_cfg s"
  by (simp_all add: count_def spawn_def on_cache_def pool_calls_def rq_Submit_def write_msg_def)

lemma count_fold: "sv_out (fold (\<lambda>(ip, rtt) s. if P rtt then count c s else s) xs s) = sv_out s
    \<and> sv_cfg (fold (\<lambda>(ip, rtt) s. if P rtt then count c s else s) xs s) = sv_cfg s"
  by (induction xs arbitrary: s) (auto simp: silent same_cfg)

lemma sortIPsByRTT_silent [silent]: "sv_out (snd (sortIPsByRTT ips m s)) = sv_out s"
  and sortIPsByRTT_cfg [same_cfg]: "sv_cfg (snd (sortIPsByRTT ips m s)) = sv_cfg s"
  by (simp_all add: sortIPsByRTT_def Let_def count_fold)

lemma latest_order_effects: "sv_out (snd (latest_order ips s)) = sv_out s \<and> sv_cfg (snd (latest_order ips s)) = sv_cfg s"
proof (cases "pg_ipPool (sv_pinger s)")
  case (Some pool)
  obtain hit x s1 where "sortIPsByRTT ips (GetAllIPRTTs ips pool) s = ((hit, x), s1)" by (metis prod.exhaust)
  then show ?thesis using sortIPsByRTT_silent[of ips "GetAllIPRTTs ips pool" s] sortIPsByRTT_cfg[of ips "GetAllIPRTTs ips pool" s]
    by (simp add: latest_order_def Some Let_def)
qed (simp add: latest_order_def)

lemmas latest_order_silent [silent] = latest_order_effects[THEN conjunct1]
lemmas latest_order_cfg [same_cfg] = latest_order_effects[THEN conjunct2]

lemma steps_silent [silent]:
  "sv_out (RefreshDomain env d q s) = sv_out s" "sv_out (submit_refresh d q s) = sv_out s"
  "sv_out (raw_hit env d raw s) = sv_out s" "sv_out (snd (fallback_order env d cs ips s)) = sv_out s"
  "sv_out (record_block env m d s) = sv_out s" "sv_out (store_raw env d q rs cs ttl a s) = sv_out s"
  "sv_out (note_ips env d q ips ttl s) = sv_out s"
  by (simp_all add: RefreshDomain_def submit_refresh_def raw_hit_def fallback_order_def record_block_def store_raw_def
      note_ips_def silent split: prod.split)

lemma steps_cfg [same_cfg]:
  "sv_cfg (RefreshDomain env d q s) = sv_cfg s" "sv_cfg (submit_refresh d q s) = sv_cfg s"
  "sv_cfg (raw_hit env d raw s) = sv_cfg s" "sv_cfg (snd (fallback_order env d cs ips s)) = sv_cfg s"
  "sv_cfg (record_block env m d s) = sv_cfg s" "sv_cfg (store_raw env d q rs cs ttl a s) = sv_cfg s"
  "sv_cfg (note_ips env d q ips ttl s) = sv_cfg s"
  by (simp_all add: RefreshDomain_def submit_refresh_def raw_hit_def fallback_order_def record_block_def store_raw_def
      note_ips_def same_cfg split: prod.split)

lemma store_msgs_silent [silent]: "sv_out (store_msgs env d q cs m s) = sv_out (s :: 't Server)"
proof -
  have "sv_out (fold (\<lambda>d. on_cache (f d)) ds s) = sv_out s" for f and ds :: "string list" and s :: "'t Server"
    by (induction ds arbitrary: s) (simp_all add: silent)
  then show ?thesis by (simp add: store_msgs_def silent)
qed

lemma query_silent [silent]:
  "sv_out (snd (first_query env r s)) = sv_out s" "sv_out (snd (resolveCNAME env ok q i d s)) = sv_out s"
  by (simp_all add: first_query_def resolveCNAME_def split: prod.split)

lemma query_cfg [same_cfg]:
  "sv_cfg (snd (first_query env r s)) = sv_cfg s" "sv_cfg (snd (resolveCNAME env ok q i d s)) = sv_cfg s"
  by (simp_all add: first_query_def resolveCNAME_def split: prod.split)

lemma resolve_result_silent [silent]: "sv_out (snd (resolve_result env ok q res s)) = sv_out s"
  and resolve_result_cfg [same_cfg]: "sv_cfg (snd (resolve_result env ok q res s)) = sv_cfg s"
  using query_silent(2)[of env ok q 1 "last (qr_CNAMEs res)" s] query_cfg(2)[of env ok q 1 "last (qr_CNAMEs res)" s]
  by (auto simp: resolve_result_def split: prod.split option.split sum.split)

section \<open>Questions\<close>

lemma question_simps [simp]:
  "msg_Question (reply_to r c) = take 1 (msg_Question r)" "msg_Question (negative_reply f t r c d ttl) = take 1 (msg_Question r)"
  "msg_Question (add_answers rs m) = msg_Question m" "msg_Question (mark_authenticated a m) = msg_Question m"
  "msg_Question (buildDNSResponseWithDNSSEC f d ips q ttl a m) = msg_Question m"
  "msg_Question (buildDNSResponse f d ips q ttl m) = msg_Question m"
  "msg_Question (buildDNSResponseWithCNAMEAndDNSSEC f d cs ips q ttl a m) = msg_Question m"
  "msg_Question (buildDNSResponseWithCNAME f d cs ips q ttl m) = msg_Question m"
  by (simp_all add: reply_to_def negative_reply_def add_answers_def mark_authenticated_def buildDNSResponseWithDNSSEC_def
      buildDNSResponse_def buildDNSResponseWithCNAMEAndDNSSEC_def buildDNSResponseWithCNAME_def split: prod.split)

lemma handler_questions [simp]:
  "msg_Question (sorted_answer env r d q raw ips ttl) = take 1 (msg_Question (rq_msg r))"
  "msg_Question (address_answer env r d q cs ips ttl a) = take 1 (msg_Question (rq_msg r))"
  by (simp_all add: sorted_answer_def address_answer_def Let_def split: list.split)

lemma blocked_question [simp]: "msg_Question (blocked_reply f now c m ttl) = take 1 (msg_Question m)"
  by (cases "msg_Question m") (auto simp: blocked_reply_def Let_def)

lemma zero_ip_question: "buildZeroIPResponse r ip ttl = Some m \<Longrightarrow> msg_Question m = take 1 (msg_Question r)"
  by (auto simp: buildZeroIPResponse_def Let_def split: list.splits if_splits)

lemma generic_question: "buildGenericResponse f cs rs q ttl a m = Some m' \<Longrightarrow> msg_Question m' = msg_Question m"
  by (auto simp: buildGenericResponse_def Let_def split: list.splits if_splits)

lemma local_question: "handleLocalRules f now r d q = Some m \<Longrightarrow> msg_Question m = take 1 (msg_Question r)"
  by (auto simp: handleLocalRules_def Let_def split: option.splits if_splits)

lemma custom_question: "handleCustomResponse f mgr r d q = Some m \<Longrightarrow> msg_Question m = take 1 (msg_Question r)"
  by (auto simp: handleCustomResponse_def Let_def split: option.splits if_splits prod.splits bool.splits)

section \<open>One message\<close>

definition answers :: "dnsMsg \<Rightarrow> 't Server \<Rightarrow> 't Server \<Rightarrow> bool" where
  "answers r s s' \<longleftrightarrow> (\<exists>m. sv_out s' = sv_out s @ [m] \<and> msg_Question m = take 1 (msg_Question r))"

lemma answers_write [intro]: "sv_out s' = sv_out s \<Longrightarrow> msg_Question m = take 1 (msg_Question r) \<Longrightarrow> answers r s (write_msg m s')"
  by (auto simp: answers_def write_msg_def)

lemma answers_same: "sv_out s1 = sv_out s \<Longrightarrow> answers r s1 s' \<longleftrightarrow> answers r s s'"
  by (simp add: answers_def)

lemma answers_spawn [simp]: "answers r s (spawn j s') = answers r s s'"
  by (simp add: answers_def silent)

lemma denies:
  "sv_out s1 = sv_out s \<Longrightarrow> answers (rq_msg r) s (deny env r d c ttl s1)"
  "sv_out s1 = sv_out s \<Longrightarrow> answers (rq_msg r) s (deny_cached env r d q c ttl s1)"
  "sv_out s1 = sv_out s \<Longrightarrow> answers (rq_msg r) s (upstream_failed env r d q err s1)"
  by (auto simp: deny_def deny_cached_def upstream_failed_def silent)


lemma error_hit: "case handleErrorCacheHit env r d q s of
    (True, s') \<Rightarrow> answers (rq_msg r) s s' | (False, s') \<Rightarrow> sv_out s' = sv_out s \<and> sv_cfg s' = sv_cfg s"
  by (auto simp: handleErrorCacheHit_def Let_def silent split: prod.split option.split)

lemma sorted_hit: "case handleSortedCacheHit env r d q s of
    (True, s') \<Rightarrow> answers (rq_msg r) s s' | (False, s') \<Rightarrow> sv_out s' = sv_out s \<and> sv_cfg s' = sv_cfg s"
proof -
  have l: "sv_out s' = sv_out s" if "latest_order ips s = (x, s')" for ips s x and s' :: "'a Server"
    using latest_order_silent[of ips s] that by simp
  show ?thesis
    by (auto simp: handleSortedCacheHit_def Let_def silent same_cfg dest!: l split: prod.split option.split)
qed

lemma raw_cache_hit: "case handleRawCacheHit env r d q s of
    (True, s') \<Rightarrow> answers (rq_msg r) s s' | (False, s') \<Rightarrow> sv_out s' = sv_out s \<and> sv_cfg s' = sv_cfg s"
proof -
  have l: "sv_out s' = sv_out s" if "latest_order ips s = (x, s')" for ips s x and s' :: "'a Server"
    using latest_order_silent[of ips s] that by simp
  have f: "sv_out s' = sv_out s" if "fallback_order env d cs ips s = (x, s')" for cs ips s x s'
    using steps_silent(4)[of env d cs ips s] that by simp
  show ?thesis
    by (auto simp: handleRawCacheHit_def Let_def silent same_cfg dest!: l f split: prod.split option.split)
qed


text \<open>A handler that has answered, and a step that either has or leaves the writer alone. Two flags say
  what else may happen: \<open>n\<close>, that a handler panics (upstream queries may hand over a nil result), and \<open>b\<close>, that
  it ends without a message (the block mode is none of the known ones).\<close>

definition nil_free :: "'t server_env \<Rightarrow> bool" where
  "nil_free env \<longleftrightarrow> (\<forall>i qs ok u. fst (se_query env i qs ok u) \<noteq> (None, None))"

definition one_message :: "bool \<Rightarrow> dnsMsg \<Rightarrow> 't Server \<Rightarrow> 't Server \<Rightarrow> bool" where
  "one_message b r s s' \<longleftrightarrow> answers r s s' \<or> b \<and> sv_out s' = sv_out s"

definition served :: "bool \<Rightarrow> bool \<Rightarrow> dnsMsg \<Rightarrow> 't Server \<Rightarrow> 't Server option \<Rightarrow> bool" where
  "served n b r s x = (case x of None \<Rightarrow> n | Some s' \<Rightarrow> one_message b r s s')"

definition handled :: "bool \<Rightarrow> bool \<Rightarrow> dnsMsg \<Rightarrow> 't Server \<Rightarrow> (bool \<times> 't Server) option \<Rightarrow> bool" where
  "handled n b r s x = (case x of None \<Rightarrow> n
    | Some (h, s') \<Rightarrow> if h then one_message b r s s' else sv_out s' = sv_out s \<and> sv_cfg s' = sv_cfg s)"

lemma one_message_answers [intro]: "answers r s s' \<Longrightarrow> one_message b r s s'"
  by (simp add: one_message_def)

lemma one_message_same: "sv_out s1 = sv_out s \<Longrightarrow> one_message b r s1 s' \<longleftrightarrow> one_message b r s s'"
  by (simp add: one_message_def answers_def)

lemma handled_simps [simp]:
  "served n b r s (Some s') = one_message b r s s'" "served n b r s None = n" "handled n b r s None = n"
  "handled n b r s (Some (True, s')) = one_message b r s s'"
  "handled n b r s (Some (False, s')) \<longleftrightarrow> sv_out s' = sv_out s \<and> sv_cfg s' = sv_cfg s"
  "handled n b r s (map_option (Pair True) x) = served n b r s x"
  by (simp_all add: served_def handled_def split: option.split)

lemma handled_cases [consumes 1, case_names panicked answered passed]: "handled n b r s x \<Longrightarrow>
    (x = None \<Longrightarrow> n \<Longrightarrow> thesis) \<Longrightarrow>
    (\<And>s'. x = Some (True, s') \<Longrightarrow> one_message b r s s' \<Longrightarrow> thesis) \<Longrightarrow>
    (\<And>s'. x = Some (False, s') \<Longrightarrow> sv_out s' = sv_out s \<Longrightarrow> sv_cfg s' = sv_cfg s \<Longrightarrow> thesis) \<Longrightarrow> thesis"
  by (auto simp: handled_def split: option.splits if_splits)

lemma generic_builds:
  assumes "msg_Question r \<noteq> []" "sv_out s1 = sv_out s"
  shows "served n b r s (map_option (\<lambda>m. write_msg m s1) (buildGenericResponse f cs rs q ttl a (reply_to r c)))"
proof -
  have "buildGenericResponse f cs rs q ttl a (reply_to r c) \<noteq> None"
    using assms(1) by (cases "msg_Question r") (auto simp: buildGenericResponse_def reply_to_def Let_def)
  then obtain m where m: "buildGenericResponse f cs rs q ttl a (reply_to r c) = Some m" by blast
  then show ?thesis using assms(2) generic_question[OF m] by (simp add: answers_write one_message_answers)
qed

lemma generic_builds':
  assumes "msg_Question r \<noteq> []" "sv_out s1 = sv_out s"
  shows "handled n b r s (case buildGenericResponse f cs rs q ttl a (reply_to r c) of
    None \<Rightarrow> None | Some m \<Rightarrow> Some (True, write_msg m s1))"
  using generic_builds[OF assms, of n b f cs rs q ttl a c]
  by (cases "buildGenericResponse f cs rs q ttl a (reply_to r c)") (simp_all add: served_def)

lemma sends_block:
  assumes "msg_Question (rq_msg r) \<noteq> []" "sv_out s1 = sv_out s"
    "ad_BlockMode cfg \<in> {''nxdomain'', ''default'', ''zero_ip'', ''refuse''} \<or> b"
  shows "served n b (rq_msg r) s (sendAdBlockResponse env r cfg s1)"
proof -
  obtain z where z: "buildZeroIPResponse (rq_msg r) (ad_BlockedResponseIP cfg) (ad_BlockedTTL cfg) = Some z"
    using assms(1) by (cases "msg_Question (rq_msg r)") (auto simp: buildZeroIPResponse_def Let_def split: prod.splits)
  note zero_ip_question[OF z]
  then show ?thesis
    using assms z by (auto simp: sendAdBlockResponse_def Let_def buildNXDomainResponse_def buildRefuseResponse_def one_message_def)
qed

definition block_mode_ok :: "'t Server \<Rightarrow> bool" where
  "block_mode_ok s \<longleftrightarrow> ad_BlockMode (cfg_AdBlock (sv_cfg s)) \<in> {''nxdomain'', ''default'', ''zero_ip'', ''refuse''}"

lemma blocks_domain:
  assumes "msg_Question (rq_msg r) \<noteq> []" "block_mode_ok s \<or> b"
  shows "served n b (rq_msg r) s (block_domain env r m d rule s)"
  unfolding block_domain_def Let_def
  by (rule sends_block[OF assms(1)]) (use assms(2) in \<open>simp_all add: block_mode_ok_def silent same_cfg Let_def\<close>)

lemma record_block_sends:
  assumes "msg_Question (rq_msg r) \<noteq> []" "block_mode_ok s \<or> b"
  shows "served n b (rq_msg r) s (sendAdBlockResponse env r (cfg_AdBlock (sv_cfg s)) (record_block env m d s))"
  by (rule sends_block[OF assms(1)]) (use assms(2) in \<open>simp_all add: block_mode_ok_def silent\<close>)

lemma adblock_check:
  assumes "msg_Question (rq_msg r) \<noteq> []" "block_mode_ok s \<or> b"
  shows "handled n b (rq_msg r) s (handleAdBlockCheck env r d s)"
  using record_block_sends[OF assms, of n env _ d] blocks_domain[OF assms, of n env _ d]
  by (auto simp: handleAdBlockCheck_def Let_def silent same_cfg split: option.split prod.split MatchResult.split)

lemma adblock_msgCache:
  assumes "handleAdBlockCheck env r d s = Some (False, s')"
  shows "c_msgCache (sv_cache s') = c_msgCache (sv_cache s)"
  using assms by (auto simp: handleAdBlockCheck_def Let_def on_cache_def SetAllowed_def
      split: option.splits prod.splits MatchResult.splits if_splits)

lemma chain_check:
  assumes "msg_Question (rq_msg r) \<noteq> []" "block_mode_ok s \<or> b"
  shows "handled n b (rq_msg r) s (handleCNAMEChainValidation env r d cs s)"
  using blocks_domain[OF assms, of n env _ d]
  by (auto simp: handleCNAMEChainValidation_def silent same_cfg split: option.split)

lemma chain_false: "handleCNAMEChainValidation env r d cs s = Some (False, s') \<Longrightarrow> s' = s"
  by (auto simp: handleCNAMEChainValidation_def split: option.splits if_splits)

lemma generic_hit:
  assumes "msg_Question (rq_msg r) \<noteq> []"
  shows "handled n b (rq_msg r) s (handleRawCacheHitGeneric env r d q s)"
proof -
  note b = generic_builds'[OF assms, of _ _ n b]
  obtain raw c where g: "GetRaw d q (sv_cache s) = (raw, c)" by fastforce
  show ?thesis
    by (cases raw) (simp_all add: handleRawCacheHitGeneric_def Let_def g b silent same_cfg)
qed

lemma resolves:
  assumes "nil_free env"
  shows "fst (resolve_loop env ok q d k i cur acc u) \<noteq> None"
proof (induction k arbitrary: i cur acc u)
  case (Suc k)
  obtain out u1 where o: "se_query env i [(se_fqdn env (trim_dots cur), q)] ok u = (out, u1)" by fastforce
  then have "out \<noteq> (None, None)" using assms unfolding nil_free_def by (metis fst_conv)
  then show ?case using Suc.IH o by (cases out) (auto simp: Let_def split: option.splits)
qed simp

lemma resolve_result_some:
  assumes "nil_free env"
  shows "fst (resolve_result env ok q res s) \<noteq> None"
proof (cases "qr_IPs res = [] \<and> qr_CNAMEs res \<noteq> []")
  case True
  obtain out u where o: "resolve_loop env ok q (last (qr_CNAMEs res)) maxRedirects 1 (last (qr_CNAMEs res)) [] (sv_upstream s) = (out, u)"
    by fastforce
  then have "out \<noteq> None" using resolves[OF assms, of ok q "last (qr_CNAMEs res)" maxRedirects 1 "last (qr_CNAMEs res)" "[]" "sv_upstream s"] by simp
  then obtain y where "out = Some y" by blast
  then show ?thesis using True o by (cases y) (simp_all add: resolve_result_def resolveCNAME_def)
qed (auto simp: resolve_result_def)


lemma answer_resolved_answers:
  assumes "sv_out s1 = sv_out s"
  shows "one_message b (rq_msg r) s (answer_resolved env r d q result res s1)"
proof -
  obtain ips cs ttl where res: "res = (ips, cs, ttl)" by (cases res) auto
  let ?s2 = "note_ips env d q ips ttl (store_raw env d q (qr_Records result) cs ttl (qr_AuthenticatedData result)
      (count (RecordDomainQuery d) s1))"
  obtain f s3 where f: "fallback_order env d cs ips ?s2 = (f, s3)" by fastforce
  then have "sv_out s3 = sv_out s" using steps_silent(4)[of env d cs ips ?s2] assms by (simp add: silent)
  then show ?thesis
    by (intro one_message_answers) (auto simp: answer_resolved_def res Let_def f silent split: option.split)
qed

lemma miss_finishes:
  assumes "msg_Question (rq_msg r) \<noteq> []" "block_mode_ok s \<or> b"
  shows "served n b (rq_msg r) s (finish_miss env r d q result res s)"
proof -
  obtain ips cs ttl where res: "res = (ips, cs, ttl)" by (cases res) auto
  show ?thesis using chain_check[OF assms, of n env d cs]
  proof (cases rule: handled_cases)
    case (passed s')
    then have "s' = s" by (metis chain_false)
    then show ?thesis using passed by (simp add: finish_miss_def res denies one_message_answers answer_resolved_answers)
  qed (simp_all add: finish_miss_def res)
qed

lemma served_same: "sv_out s1 = sv_out s \<Longrightarrow> served n b r s1 x = served n b r s x"
  by (simp add: served_def one_message_def answers_def split: option.split)

lemma outcome_cases [case_names nil err nx ok]:
  obtains (nil) "out = (None, None)" | (err) res err where "out = (res, Some err)"
    | (nx) result where "out = (Some result, None)" "says_nxdomain result"
    | (ok) result where "out = (Some result, None)" "\<not> says_nxdomain result"
proof (cases out)
  case (Pair r e)
  show thesis
  proof (cases e)
    case (Some x)
    then show thesis using Pair err by simp
  next
    case None
    then show thesis using Pair nil nx ok by (cases r) auto
  qed
qed

lemma first_query_some:
  assumes "nil_free env \<or> n" "first_query env r s = (out, s1)"
  shows "out = (None, None) \<Longrightarrow> n" "sv_out s1 = sv_out s" "sv_cfg s1 = sv_cfg s"
proof -
  show "out = (None, None) \<Longrightarrow> n"
    using assms by (auto simp: first_query_def nil_free_def split: prod.splits) (metis fst_conv)
qed (use query_silent(1)[of env r s] query_cfg(1)[of env r s] assms(2) in simp_all)

lemma miss_steps:
  assumes "\<not> (q = TypeAAAA \<and> \<not> dns_EnableIPv6 (cfg_DNS (sv_cfg s)))" "first_query env r (count IncCacheMisses s) = (out, s1)"
  shows "handleCacheMiss env r d q s = (case out of
        (_, Some err) \<Rightarrow> Some (upstream_failed env r d q err s1)
      | (None, None) \<Rightarrow> None
      | (Some result, None) \<Rightarrow>
         if says_nxdomain result then Some (deny_cached env r d q rcode_nxdomain (error_ttl s1) s1)
         else (case resolve_result env (up_Dnssec (cfg_Upstream (sv_cfg s)) \<and> rq_DO r) q result s1 of
            (None, s2) \<Rightarrow> None
          | (Some (Inl err), s2) \<Rightarrow> Some (deny env r d rcode_servfail (error_ttl s2) s2)
          | (Some (Inr res), s2) \<Rightarrow> finish_miss env r d q result res s2))"
proof -
  have c: "sv_cfg (count IncCacheMisses s) = sv_cfg s" by (simp add: same_cfg)
  show ?thesis by (simp only: handleCacheMiss_def Let_def c assms if_False prod.case)
qed

lemma miss_answers:
  assumes "nil_free env \<or> n" "msg_Question (rq_msg r) \<noteq> []" "block_mode_ok s \<or> b"
  shows "served n b (rq_msg r) s (handleCacheMiss env r d q s)"
proof (cases "q = TypeAAAA \<and> \<not> dns_EnableIPv6 (cfg_DNS (sv_cfg s))")
  case True
  then show ?thesis by (simp add: handleCacheMiss_def Let_def same_cfg one_message_answers answers_write silent)
next
  case on: False
  let ?ok = "up_Dnssec (cfg_Upstream (sv_cfg s)) \<and> rq_DO r"
  obtain out s1 where o: "first_query env r (count IncCacheMisses s) = (out, s1)" by fastforce
  note fq = first_query_some[OF assms(1) o] and steps = miss_steps[OF on o]
  have s1: "sv_out s1 = sv_out s" "sv_cfg s1 = sv_cfg s" using fq by (simp_all add: silent same_cfg)
  show ?thesis
  proof (cases rule: outcome_cases[of out])
    case nil
    then show ?thesis using fq(1) by (simp add: steps)
  next
    case (err res err)
    then show ?thesis using denies(3)[OF s1(1)] by (simp add: steps one_message_answers split: option.split)
  next
    case (nx result)
    then show ?thesis using denies(2)[OF s1(1)] by (simp add: steps one_message_answers)
  next
    case (ok result)
    obtain x s2 where x: "resolve_result env ?ok q result s1 = (x, s2)" by fastforce
    have s2: "sv_out s2 = sv_out s" "sv_cfg s2 = sv_cfg s"
      using resolve_result_silent[of env ?ok q result s1] resolve_result_cfg[of env ?ok q result s1] s1 by (simp_all add: x)
    have fin: "served n b (rq_msg r) s (finish_miss env r d q result res s2)" for res
      using miss_finishes[OF assms(2), of s2 b n env d q result res] assms(3) s2 by (simp add: block_mode_ok_def served_same[OF s2(1)])
    show ?thesis
    proof (cases x)
      case None
      then have "n" using resolve_result_some[of env ?ok q result s1] x assms(1) by auto
      then show ?thesis using ok x None by (simp add: steps)
    next
      case (Some y)
      have "handleCacheMiss env r d q s = (case y of
          Inl err \<Rightarrow> Some (deny env r d rcode_servfail (error_ttl s2) s2) | Inr res \<Rightarrow> finish_miss env r d q result res s2)"
        using ok x Some by (cases y) (simp_all add: steps)
      then show ?thesis using fin denies(1)[OF s2(1)] by (simp add: one_message_answers split: sum.split)
    qed
  qed
qed

lemma generic_miss_answers:
  assumes "nil_free env \<or> n" "msg_Question (rq_msg r) \<noteq> []"
  shows "served n b (rq_msg r) s (handleGenericCacheMiss env r d q s)"
proof -
  obtain out s1 where o: "first_query env r (count IncCacheMisses s) = (out, s1)" by fastforce
  note fq = first_query_some[OF assms(1) o]
  have s1: "sv_out s1 = sv_out s" "sv_cfg s1 = sv_cfg s" using fq by (simp_all add: silent same_cfg)
  show ?thesis
  proof (cases rule: outcome_cases[of out])
    case nil
    then show ?thesis using o fq(1) by (simp add: handleGenericCacheMiss_def)
  next
    case (err res err)
    then show ?thesis using o denies(3)[OF s1(1)] by (auto simp: handleGenericCacheMiss_def split: option.split)
  next
    case (nx result)
    then show ?thesis using o denies(2)[OF s1(1)] by (simp add: handleGenericCacheMiss_def one_message_answers)
  next
    case (ok result)
    then show ?thesis using o s1 by (simp add: handleGenericCacheMiss_def Let_def generic_builds assms(2) silent)
  qed
qed

lemma handled_pair: "(case x of (True, s') \<Rightarrow> answers r s s' | (False, s') \<Rightarrow> sv_out s' = sv_out s \<and> sv_cfg s' = sv_cfg s)
    = handled n False r s (Some x)"
  by (auto simp: handled_def one_message_def split: prod.split bool.split)

lemma handled_weaken: "handled n False r s x \<Longrightarrow> handled n b r s x"
  by (auto simp: handled_def one_message_def split: option.splits)

lemma address_hits:
  "handled n b (rq_msg r) s (Some (handleErrorCacheHit env r d q s))"
  "handled n b (rq_msg r) s (Some (handleSortedCacheHit env r d q s))"
  "handled n b (rq_msg r) s (Some (handleRawCacheHit env r d q s))"
  using error_hit[unfolded handled_pair[where n = n], THEN handled_weaken]
    sorted_hit[unfolded handled_pair[where n = n], THEN handled_weaken]
    raw_cache_hit[unfolded handled_pair[where n = n], THEN handled_weaken] by blast+

lemma handled_same: "sv_out s1 = sv_out s \<Longrightarrow> sv_cfg s1 = sv_cfg s \<Longrightarrow> handled n b r s1 x = handled n b r s x"
  by (simp add: handled_def one_message_def answers_def split: option.split)

lemma generic_query_answers:
  assumes "nil_free env \<or> n" "msg_Question (rq_msg r) \<noteq> []"
  shows "case handleGenericQuery env r d q s of None \<Rightarrow> n | Some (h, s') \<Rightarrow> h \<and> one_message b (rq_msg r) s s'"
proof -
  obtain h s1 where e: "handleErrorCacheHit env r d q s = (h, s1)" by fastforce
  note e' = address_hits(1)[where n = n and b = b and r = r and s = s and env = env and d = d and q = q, unfolded e]
  show ?thesis
  proof (cases h)
    case True
    then show ?thesis using e e' by (simp add: handleGenericQuery_def)
  next
    case False
    have miss: "served n b (rq_msg r) s (handleGenericCacheMiss env r d q s2)" if "sv_out s2 = sv_out s" for s2
      using generic_miss_answers[OF assms, of b s2 d q] served_same[OF that] by simp
    have s1: "sv_out s1 = sv_out s" "sv_cfg s1 = sv_cfg s" using e' False by simp_all
    have g: "handled n b (rq_msg r) s (handleRawCacheHitGeneric env r d q s1)"
      using generic_hit[OF assms(2), of n b s1 env d q] by (simp only: handled_same[OF s1])
    have u: "handleGenericQuery env r d q s = (case handleRawCacheHitGeneric env r d q s1 of
          None \<Rightarrow> None | Some (True, s2) \<Rightarrow> Some (True, s2)
        | Some (False, s2) \<Rightarrow> map_option (Pair True) (handleGenericCacheMiss env r d q s2))"
      using e False by (simp add: handleGenericQuery_def)
    from g show ?thesis
    proof (cases rule: handled_cases)
      case (passed s2)
      then show ?thesis
        using miss[of s2] by (cases "handleGenericCacheMiss env r d q s2") (simp_all add: u)
    qed (simp_all add: u)
  qed
qed

text \<open>The stage that ends a chain of cache stages.\<close>

lemma stage: "handled n b r s (Some x) \<Longrightarrow> (\<And>s1. sv_out s1 = sv_out s \<Longrightarrow> sv_cfg s1 = sv_cfg s \<Longrightarrow> served n b r s (f s1)) \<Longrightarrow>
    served n b r s (case x of (True, s1) \<Rightarrow> Some s1 | (False, s1) \<Rightarrow> f s1)"
  by (auto simp: handled_def split: prod.splits bool.split if_splits)

lemma address_tail:
  assumes "nil_free env \<or> n" "msg_Question (rq_msg r) \<noteq> []" "block_mode_ok s \<or> b"
    and same: "sv_out s1 = sv_out s" "sv_cfg s1 = sv_cfg s"
  shows "served n b (rq_msg r) s
     (case handleErrorCacheHit env r d q s1 of (True, s2) \<Rightarrow> Some s2 | (False, s2) \<Rightarrow>
       (case handleSortedCacheHit env r d q s2 of (True, s3) \<Rightarrow> Some s3 | (False, s3) \<Rightarrow>
         (case handleRawCacheHit env r d q s3 of (True, s4) \<Rightarrow> Some s4
          | (False, s4) \<Rightarrow> handleCacheMiss env r d q s4)))"
proof -
  have hits: "handled n b (rq_msg r) s (Some (handleErrorCacheHit env r d q s'))"
    "handled n b (rq_msg r) s (Some (handleSortedCacheHit env r d q s'))" "handled n b (rq_msg r) s (Some (handleRawCacheHit env r d q s'))"
    if "sv_out s' = sv_out s" "sv_cfg s' = sv_cfg s" for s'
    using address_hits[where n = n and b = b and r = r and s = s' and env = env and d = d and q = q] handled_same[OF that] by simp_all
  have miss: "served n b (rq_msg r) s (handleCacheMiss env r d q s')" if "sv_out s' = sv_out s" "sv_cfg s' = sv_cfg s" for s'
    using miss_answers[OF assms(1,2), of s' b d q] assms(3) that by (simp add: block_mode_ok_def served_same[OF that(1)])
  show ?thesis
    by (rule stage[OF hits(1)[OF same]], rule stage[OF hits(2)], assumption+,
        rule stage[OF hits(3)], assumption+, rule miss)
qed

text \<open>A message of the DNSSEC cache is written with the question it was stored with.\<close>

definition dnssec_cached :: "'t server_env \<Rightarrow> Request \<Rightarrow> string \<Rightarrow> qtype \<Rightarrow> 't Server \<Rightarrow> DNSSECCacheEntry option" where
  "dnssec_cached env r d q s = (if rq_DO r \<and> up_Dnssec (cfg_Upstream (sv_cfg s))
     then fst (GetDNSSECMsg (se_now env) d q (sv_cache s)) else None)"

lemma dnssec_cached_same:
  assumes "c_msgCache (sv_cache s') = c_msgCache (sv_cache s)" "sv_cfg s' = sv_cfg s"
  shows "dnssec_cached env r d q s' = dnssec_cached env r d q s"
proof -
  obtain v mc where "LRUCache_Get (cacheKey d q) (c_msgCache (sv_cache s)) = (v, mc)" by fastforce
  then show ?thesis using assms by (simp add: dnssec_cached_def GetDNSSECMsg_def Let_def split: option.split)
qed

lemma msg_hit: "case dnssec_cached env r d q s of
      None \<Rightarrow> \<exists>s1. handleMsgCacheHit env r d q s = (False, s1) \<and> sv_out s1 = sv_out s \<and> sv_cfg s1 = sv_cfg s
    | Some e \<Rightarrow> \<exists>s1. handleMsgCacheHit env r d q s = (True, s1)
        \<and> sv_out s1 = sv_out s @ [aged_message (se_now env - dnssec_AcquisitionTime e) (dnssec_Message e)]"
proof -
  obtain e c where "GetDNSSECMsg (se_now env) d q (sv_cache s) = (e, c)" by fastforce
  then show ?thesis
    by (cases e) (simp_all add: dnssec_cached_def handleMsgCacheHit_def write_msg_def count_def)
qed

lemma address_query:
  assumes "nil_free env \<or> n" "msg_Question (rq_msg r) \<noteq> []" "block_mode_ok s \<or> b"
  shows "case dnssec_cached env r d q s of
      None \<Rightarrow> served n b (rq_msg r) s (handleAddressQuery env r d q s)
    | Some e \<Rightarrow> \<exists>s'. handleAddressQuery env r d q s = Some s'
        \<and> sv_out s' = sv_out s @ [aged_message (se_now env - dnssec_AcquisitionTime e) (dnssec_Message e)]"
proof (cases "dnssec_cached env r d q s")
  case None
  then obtain s1 where "handleMsgCacheHit env r d q s = (False, s1)" "sv_out s1 = sv_out s" "sv_cfg s1 = sv_cfg s"
    using msg_hit[of env r d q s] by auto
  then show ?thesis using address_tail[OF assms, of s1 d q] None by (simp add: handleAddressQuery_def)
next
  case (Some e)
  then show ?thesis using msg_hit[of env r d q s] by (auto simp: handleAddressQuery_def)
qed

text \<open>What the handler leaves behind: nothing, when it panics; no message; one message with the question
  of the request; or a message of the DNSSEC cache.\<close>

definition answer_outcome :: "bool \<Rightarrow> bool \<Rightarrow> 't server_env \<Rightarrow> Request \<Rightarrow> string \<Rightarrow> qtype \<Rightarrow> 't Server \<Rightarrow> 't Server option \<Rightarrow> bool" where
  "answer_outcome n b env r d q s x = (case x of None \<Rightarrow> n | Some s' \<Rightarrow> one_message b (rq_msg r) s s'
     \<or> (\<exists>e. dnssec_cached env r d q s = Some e
        \<and> sv_out s' = sv_out s @ [aged_message (se_now env - dnssec_AcquisitionTime e) (dnssec_Message e)]))"

lemma unblocked_outcome:
  assumes "nil_free env \<or> n" "msg_Question (rq_msg r) \<noteq> []" "block_mode_ok s \<or> b"
  shows "answer_outcome n b env r d q s (handleUnblocked env r d q s)"
proof -
  let ?s = "s\<lparr>sv_recent := RecordRecentQuery \<lparr>be_domain = d, be_timestamp = se_now env\<rparr> (sv_recent s)\<rparr>"
  have bm: "block_mode_ok ?s \<or> b" using assms(3) by (simp add: block_mode_ok_def)
  have dc: "dnssec_cached env r d q ?s = dnssec_cached env r d q s" by (rule dnssec_cached_same) simp_all
  have same: "one_message b (rq_msg r) ?s s' = one_message b (rq_msg r) s s'" for s' by (rule one_message_same) simp
  have a: "answer_outcome n b env r d q s (handleAddressQuery env r d q ?s)"
    using address_query[OF assms(1,2) bm, where d = d and q = q] unfolding dc answer_outcome_def
    by (auto simp: served_def same split: option.splits)
  show ?thesis
  proof (cases "handleCustomResponse (se_fqdn env) (sv_custom s) (rq_msg r) d q")
    case (Some m)
    then show ?thesis
      by (simp add: handleUnblocked_def answer_outcome_def one_message_answers answers_write custom_question[OF Some])
  next
    case no_custom: None
    show ?thesis
    proof (cases "handleLocalRules (se_fqdn env) (se_now env) (rq_msg r) d q")
      case (Some m)
      then show ?thesis
        by (simp add: handleUnblocked_def answer_outcome_def no_custom one_message_answers answers_write local_question[OF Some])
    next
      case None
      then show ?thesis using a generic_query_answers[OF assms(1,2), where d = d and q = q and s = s and b = b]
        by (cases "q = TypeA \<or> q = TypeAAAA")
          (auto simp: handleUnblocked_def no_custom answer_outcome_def split: option.splits)
    qed
  qed
qed

lemma unblocked_answers:
  assumes "\<forall>n qs ok u. fst (se_query env n qs ok u) \<noteq> (None, None)" "msg_Question (rq_msg r) \<noteq> []" "block_mode_ok s"
  shows "\<exists>s'. handleUnblocked env r d q s = Some s' \<and>
    (answers (rq_msg r) s s' \<or> (\<exists>e. dnssec_cached env r d q s = Some e
        \<and> sv_out s' = sv_out s @ [aged_message (se_now env - dnssec_AcquisitionTime e) (dnssec_Message e)]))"
  using unblocked_outcome[where env = env and n = False and r = r and s = s and b = False and d = d and q = q] assms
  by (auto simp: nil_free_def answer_outcome_def one_message_def split: option.splits)

text \<open>A blocked domain under an unknown block mode.\<close>

lemma unknown_mode_silent:
  assumes "handleAdBlockCheck env r d s = Some (True, s')" "\<not> block_mode_ok s"
  shows "sv_out s' = sv_out s"
proof -
  have mode: "ad_BlockMode (cfg_AdBlock (sv_cfg s)) \<notin> {''nxdomain'', ''default'', ''zero_ip'', ''refuse''}"
    using assms(2) by (simp add: block_mode_ok_def)
  have "sendAdBlockResponse env r (cfg_AdBlock (sv_cfg s)) s1 = Some s1" for s1 :: "'a Server"
    using mode by (simp add: sendAdBlockResponse_def)
  then show ?thesis
    using assms(1) by (auto simp: handleAdBlockCheck_def block_domain_def Let_def silent
        split: option.splits prod.splits MatchResult.splits if_splits)
qed

section \<open>Properties\<close>

text \<open>C1: Whatever a query asks, the caches hold and the upstream servers do, the handler never writes two
  messages. It writes exactly one, unless it panics, for which an upstream query must hand over a nil result
  as a success, or the block mode is none of the four the code knows; under such a mode a domain that the ad
  filter blocks gets no answer at all. The message carries the question of the request, except for a message
  of the DNSSEC cache, which is written as it was stored, only with aged TTLs.\<close>

theorem handleQuery_answers_once:
  fixes env :: "'t server_env" and s :: "'t Server"
  shows "(case handleQuery env r s of
      None \<Rightarrow> \<exists>i qs ok u. fst (se_query env i qs ok u) = (None, None)
    | Some s' \<Rightarrow> sv_out s' = sv_out s \<and> \<not> block_mode_ok s
       \<or> (\<exists>m. sv_out s' = sv_out s @ [m] \<and> (msg_Question m = take 1 (msg_Question (rq_msg r))
          \<or> (\<exists>name q qs e. msg_Question (rq_msg r) = (name, q) # qs
               \<and> dnssec_cached env r (trim_dots name) q s = Some e
               \<and> m = aged_message (se_now env - dnssec_AcquisitionTime e) (dnssec_Message e)))))
   \<and> (\<forall>name q qs s1. \<not> block_mode_ok s \<longrightarrow> msg_Question (rq_msg r) = (name, q) # qs \<longrightarrow>
        handleAdBlockCheck env r (trim_dots name) (count IncQueries s) = Some (True, s1) \<longrightarrow>
        handleQuery env r s = Some s1 \<and> sv_out s1 = sv_out s)"
proof (cases "msg_Question (rq_msg r)")
  case Nil
  then show ?thesis by (simp add: handleQuery_def Let_def write_msg_def silent)
next
  case (Cons nq qs)
  obtain name q where nq: "nq = (name, q)" by (cases nq) auto
  let ?s = "count IncQueries s" and ?d = "trim_dots name" and ?n = "\<not> nil_free env" and ?b = "\<not> block_mode_ok s"
  have ne: "msg_Question (rq_msg r) \<noteq> []" by (simp add: Cons)
  have q: "handleQuery env r s = (case handleAdBlockCheck env r ?d ?s of None \<Rightarrow> None | Some (True, s1) \<Rightarrow> Some s1
      | Some (False, s1) \<Rightarrow> handleUnblocked env r ?d q (count IncEffectiveQueries s1))"
    by (simp add: handleQuery_def Cons nq Let_def)
  have bm: "block_mode_ok ?s = block_mode_ok s" by (simp add: block_mode_ok_def same_cfg)
  have check: "handled ?n ?b (rq_msg r) ?s (handleAdBlockCheck env r ?d ?s)"
    by (rule adblock_check[OF ne]) (simp add: bm)
  have o: "answer_outcome ?n ?b env r ?d q s (handleQuery env r s)"
    using check
  proof (cases rule: handled_cases)
    case (passed s1)
    let ?s2 = "count IncEffectiveQueries s1"
    have c: "c_msgCache (sv_cache ?s2) = c_msgCache (sv_cache s)"
      using adblock_msgCache[OF passed(1)] by (simp add: count_def)
    have s2: "sv_out ?s2 = sv_out s" "sv_cfg ?s2 = sv_cfg s" using passed by (simp_all add: silent same_cfg)
    have "block_mode_ok ?s2 = block_mode_ok s" using s2 by (simp add: block_mode_ok_def)
    then have "block_mode_ok ?s2 \<or> ?b" by blast
    then have "answer_outcome ?n ?b env r ?d q ?s2 (handleUnblocked env r ?d q ?s2)"
      by (intro unblocked_outcome ne) auto
    then show ?thesis
      unfolding answer_outcome_def dnssec_cached_same[OF c s2(2)] one_message_same[OF s2(1)] s2(1)
      by (simp add: q passed(1))
  qed (simp_all add: q answer_outcome_def one_message_same[of ?s s] silent)
  have "handleQuery env r s = Some s1 \<and> sv_out s1 = sv_out s"
    if "\<not> block_mode_ok s" "handleAdBlockCheck env r ?d ?s = Some (True, s1)" for s1
    using unknown_mode_silent[OF that(2)] that by (simp add: q bm silent)
  then show ?thesis
    using o by (auto simp: answer_outcome_def one_message_def answers_def nil_free_def Cons nq split: option.splits)
qed

section \<open>Messages stored under aliases\<close>

lemma set_msg_cache:
  fixes c :: Cache
  assumes "LRUCache_inv (c_msgCache c)"
  shows "LRUCache_inv (c_msgCache (SetDNSSECMsg now d q m c))"
    "c_msgCache c' = c_msgCache (SetDNSSECMsg now d q m c) \<Longrightarrow>
     \<exists>e. fst (GetDNSSECMsg now d q c') = Some e \<and> msg_Question (dnssec_Message e) = msg_Question m
       \<and> dnssec_AcquisitionTime e = now"
proof -
  have inv: "LRUCache_inv (fst (LRUCache_Set k v (c_msgCache c)))" for k v by (rule LRUCache_Set_refines(2)[OF assms])
  then show "LRUCache_inv (c_msgCache (SetDNSSECMsg now d q m c))" by (simp add: SetDNSSECMsg_def Let_def)
  have get: "fst (LRUCache_Get k (fst (LRUCache_Set k v (c_msgCache c)))) = Some v" for k v
    using LRUCache_lookup[OF inv] map_of_spec_set_same[OF lru.content_ok[OF assms]]
    by (simp add: LRUCache_Get_value LRUCache_Set_refines(1)[OF assms])
  assume c': "c_msgCache c' = c_msgCache (SetDNSSECMsg now d q m c)"
  show "\<exists>e. fst (GetDNSSECMsg now d q c') = Some e \<and> msg_Question (dnssec_Message e) = msg_Question m
       \<and> dnssec_AcquisitionTime e = now"
  proof -
    obtain e where e: "c_msgCache (SetDNSSECMsg now d q m c) = fst (LRUCache_Set (cacheKey d q) e (c_msgCache c))"
      "msg_Question (dnssec_Message e) = msg_Question m" "dnssec_AcquisitionTime e = now"
      by (simp add: SetDNSSECMsg_def Let_def)
    obtain mc where "LRUCache_Get (cacheKey d q) (c_msgCache c') = (Some e, mc)"
      using get[of "cacheKey d q" e] by (metis c' e(1) prod.collapse)
    then show ?thesis
      using e(2,3) by (simp add: GetDNSSECMsg_def Let_def DNSSECCacheEntry_IsExpired_def seconds_def second_def)
  qed
qed

lemma store_msgs_inv:
  fixes s :: "'t Server"
  assumes "LRUCache_inv (c_msgCache (sv_cache s))"
  shows "LRUCache_inv (c_msgCache (sv_cache (fold (\<lambda>d. on_cache (SetDNSSECMsg now d q m)) ds s)))
    \<and> sv_cfg (fold (\<lambda>d. on_cache (SetDNSSECMsg now d q m)) ds s) = sv_cfg s"
  using assms by (induction ds arbitrary: s) (simp_all add: on_cache_def set_msg_cache(1))

text \<open>The full message of an answer with aliases is stored under every alias too. A later query for
  the last alias that asks for DNSSEC records is answered with that message, whose question is the one of
  the name asked for first, not its own.\<close>

theorem alias_answered_with_first_question:
  assumes "LRUCache_inv (c_msgCache (sv_cache s))" "cnames \<noteq> []" "target = trim_dots (last cnames)"
    and "rq_DO r" "up_Dnssec (cfg_Upstream (sv_cfg s))" "se_now env' = se_now env"
  shows "\<exists>s' m'. handleAddressQuery env' r target q (store_msgs env domain q cnames m s) = Some s'
    \<and> sv_out s' = sv_out s @ [m'] \<and> msg_Question m' = msg_Question m"
proof -
  let ?m = "deduplicateDNSMsg (se_rr_text env) m" and ?ds = "domain # map trim_dots (butlast cnames)"
  have ds: "domain # map trim_dots cnames = ?ds @ [target]"
    using assms(2,3) by (metis append_butlast_last_id append_Cons list.simps(8,9) map_append)
  let ?s = "fold (\<lambda>d. on_cache (SetDNSSECMsg (se_now env) d q ?m)) ?ds s"
  have st: "store_msgs env domain q cnames m s = on_cache (SetDNSSECMsg (se_now env) target q ?m) ?s"
    unfolding store_msgs_def ds by simp
  note inv = store_msgs_inv[OF assms(1), of "se_now env" q ?m ?ds]
  obtain e where e: "fst (GetDNSSECMsg (se_now env) target q (SetDNSSECMsg (se_now env) target q ?m (sv_cache ?s))) = Some e"
    "msg_Question (dnssec_Message e) = msg_Question ?m"
    using set_msg_cache(2)[of "sv_cache ?s" "SetDNSSECMsg (se_now env) target q ?m (sv_cache ?s)" "se_now env" target q ?m] inv by blast
  have "dnssec_cached env' r target q (store_msgs env domain q cnames m s) = Some e"
    using assms(4-6) e inv by (simp add: dnssec_cached_def st on_cache_def)
  then show ?thesis
    using msg_hit[of env' r target q "store_msgs env domain q cnames m s"] e(2)
    by (auto simp: handleAddressQuery_def silent aged_message_def deduplicateDNSMsg_def Let_def)
qed

section \<open>No usable server\<close>

lemma random_loop_skips: "\<forall>i \<in> set is. server_skipped (qe_clock qe i) i u \<Longrightarrow> random_loop qe res err is u = ((res, err), u)"
  by (induction "is") auto

text \<open>With the strategy \<open>random\<close> and the circuits of all servers open, a query the caches do not
  answer panics the handler, so that the client gets no answer at all: the manager hands over a nil result
  as a success, and the handler dereferences it.\<close>

theorem random_all_open_panics:
  assumes "um_strategy (sv_upstream s) = ''random''" "um_servers (sv_upstream s) \<noteq> []"
    and "\<forall>i < length (um_servers (sv_upstream s)). server_skipped (qe_clock qe i) i (sv_upstream s)"
    and "\<forall>xs. mset (shuffle xs) = mset xs" "msg_Question (rq_msg r) \<noteq> []"
    and env: "\<forall>ok u. se_query env 0 (msg_Question (rq_msg r)) ok u =
      (let (out, u') = rawQuery par seq race (queryRandom shuffle qe) True online' latency (msg_Question (rq_msg r)) u
       in (Query out, u'))"
    and "q = TypeA"
  shows "handleCacheMiss env r domain q s = None"
proof -
  let ?u = "sv_upstream s"
  have sh: "mset (shuffle xs) = mset xs" for xs using assms(4) by simp
  have "set (shuffle [0..<length (um_servers ?u)]) = {..<length (um_servers ?u)}"
    by (rule shuffled(2)[of shuffle, OF sh])
  then have "queryRandom shuffle qe ?u = ((None, None), ?u)"
    using assms(2,3) by (simp add: queryRandom_def random_loop_skips)
  then have "fst (se_query env 0 (msg_Question (rq_msg r)) ok ?u) = (None, None)" for ok
    using assms(1,2,5) by (simp add: env rawQuery_def SelectOptimalStrategy_def Query_def)
  then have none: "fst (se_query env 0 (msg_Question (rq_msg r)) ok ?u) = (None, None)" for ok .
  obtain u' where "se_query env 0 (msg_Question (rq_msg r)) (up_Dnssec (cfg_Upstream (sv_cfg s)) \<and> rq_DO r) ?u
      = ((None, None), u')"
    using none by (metis prod.collapse)
  then have "first_query env r (count IncCacheMisses s) = ((None, None), (count IncCacheMisses s)\<lparr>sv_upstream := u'\<rparr>)"
    by (simp add: first_query_def count_def)
  then show ?thesis using assms(7) by (simp add: miss_steps TypeA_def TypeAAAA_def)
qed

section \<open>Examples\<close>

text \<open>A server with a plain configuration and one upstream server, whose circuit is open.\<close>

definition example_cfg :: Config where
  "example_cfg = \<lparr>cfg_DNS = \<lparr>dns_ListenPort = 53, dns_EnableTCP = True, dns_EnableIPv6 = False\<rparr>,
     cfg_Upstream = \<lparr>up_Servers = [''9.9.9.9''], up_BootstrapDNS = [], up_Strategy = ''random'', up_TimeoutMs = 5000,
       up_Concurrency = None, up_SequentialTimeout = None, up_RacingDelay = None, up_RacingMaxConcurrent = None,
       up_MaxConnections = None, up_DynamicParamOptimization = \<lparr>dpo_EWMAAlpha = None, dpo_MaxStepMs = None\<rparr>,
       up_Dnssec = True, up_HealthCheck = \<lparr>hc_Enabled = True, hc_FailureThreshold = 3, hc_CircuitBreakerThreshold = 5,
         hc_CircuitBreakerTimeout = 30, hc_SuccessThreshold = 2\<rparr>, up_EnableRecursor = False, up_RecursorPort = 5353\<rparr>,
     cfg_Ping = \<lparr>ping_Enabled = False, ping_Count = 3, ping_TimeoutMs = 800, ping_Concurrency = 16,
       ping_Strategy = ''min'', ping_MaxTestIPs = 0, ping_RttCacheTtlSeconds = 300, ping_EnableHttpFallback = False\<rparr>,
     cfg_Cache = example_config True 1, cfg_Prefetch = example_prefetch,
     cfg_WebUI = \<lparr>web_Enabled = False, web_ListenPort = 8080\<rparr>,
     cfg_AdBlock = \<lparr>ad_Enable = False, ad_Engine = ''urlfilter'', ad_RuleURLs = [], ad_CustomRulesFile = '''',
       ad_CustomResponseFile = '''', ad_CacheDir = '''', ad_UpdateIntervalHours = 168, ad_MaxCacheAgeHours = 168,
       ad_MaxCacheSizeMB = 30, ad_BlockMode = ''nxdomain'', ad_BlockedResponseIP = ''0.0.0.0'', ad_BlockedTTL = 3600,
       ad_LastUpdate = 0, ad_FailedSources = [], ad_MaxConcurrentDownloads = 3, ad_DownloadTimeoutSeconds = 30\<rparr>,
     cfg_System = \<lparr>sys_MaxCPUCores = 0, sys_SortQueueWorkers = 4, sys_RefreshWorkers = 4, sys_LogLevel = ''info''\<rparr>,
     cfg_Stats = \<lparr>st_HotDomainsWindowHours = 24, st_HotDomainsBucketMinutes = 60, st_HotDomainsShardCount = 16,
       st_HotDomainsMaxPerBucket = 5000, st_BlockedDomainsWindowHours = 24, st_BlockedDomainsBucketMinutes = 60,
       st_BlockedDomainsShardCount = 16, st_GeneralStatsBucketMinutes = 60, st_GeneralStatsRetentionDays = 7,
       st_UpstreamStatsBucketMinutes = 10, st_UpstreamStatsRetentionDays = 90\<rparr>,
     cfg_IPMonitor = \<lparr>ipc_Enabled = True, ipc_MaxSize = 0, ipc_T0RefreshInterval = 0, ipc_T1RefreshInterval = 0,
       ipc_T2RefreshInterval = 0, ipc_RefCountWeight = 0, ipc_AccessHeatWeight = 0, ipc_MaxRefreshPerCycle = 0,
       ipc_RefreshConcurrency = 0, ipc_CleanupInterval = 0\<rparr>\<rparr>"

definition example_server :: "string list Server" where
  "example_server = \<lparr>sv_cfg = example_cfg, sv_cache = NewCache (example_config True 1), sv_blocked = NewRecentlyBlockedTracker,
     sv_upstream = (example_manager HealthStatusUnhealthy)\<lparr>um_strategy := ''random''\<rparr>,
     sv_pinger = NewPinger Map.empty 3 800 8 0 60 '''', sv_sortQueue = SetSortFunc (NewSortQueue 4 100 0),
     sv_semaphore = 0, sv_prefetcher = NewPrefetcher example_prefetch, sv_refreshQueue = [], sv_recent = empty_ring,
     sv_adblock = None, sv_custom = None, sv_stats = [], sv_jobs = [], sv_out = []\<rparr>"

definition example_server_env :: "(Manager \<Rightarrow> query_outcome \<times> Manager) \<Rightarrow> string list server_env" where
  "example_server_env query = \<lparr>se_now = 0, se_fqdn = (\<lambda>d. d @ ''.''), se_rr_text = rr_name,
     se_ad = \<lparr>ev_radix = key_list_radix, ev_compile = (\<lambda>_. None), ev_build = (\<lambda>_. Inl ''''), ev_scan_count = (\<lambda>_. 0)\<rparr>,
     se_date = (\<lambda>t. t div (24 * hour)), se_pow2 = (\<lambda>_. 1), se_healthy = None, se_query = (\<lambda>_ _ _. query),
     se_ctxErr = (\<lambda>_. None)\<rparr>"

definition example_query :: Request where
  "example_query = \<lparr>rq_msg = example_request, rq_DO = True\<rparr>"

lemma example_server_facts:
  "block_mode_ok example_server" "LRUCache_inv (c_msgCache (sv_cache example_server))"
  "up_Dnssec (cfg_Upstream (sv_cfg example_server))" "rq_DO example_query"
  by (simp_all add: block_mode_ok_def example_server_def example_cfg_def NewCache_def Let_def LRUCache_inv_New
      example_query_def)

text \<open>The second server has the block mode the web interface writes.\<close>

definition refused_mode_server :: "string list Server" where
  "refused_mode_server = example_server\<lparr>sv_cfg := example_cfg\<lparr>cfg_AdBlock := (cfg_AdBlock example_cfg)
     \<lparr>ad_BlockMode := ''refused''\<rparr>\<rparr>\<rparr>"

theorem handleQuery_answers_once_witness:
  "(\<exists>s' m. handleQuery (example_server_env (\<lambda>u. ((None, Some NetworkOffline), u))) example_query example_server = Some s'
     \<and> sv_out s' = [m])
   \<and> \<not> block_mode_ok refused_mode_server"
proof -
  let ?env = "example_server_env (\<lambda>u. ((None, Some NetworkOffline), u))"
  have "\<not> (\<exists>i qs ok u. fst (se_query ?env i qs ok u) = (None, None))" "sv_out example_server = []"
    by (simp_all add: example_server_env_def example_server_def)
  moreover have "\<not> block_mode_ok refused_mode_server"
    by (simp add: block_mode_ok_def refused_mode_server_def)
  ultimately show ?thesis
    using handleQuery_answers_once[where env = ?env and r = example_query and s = example_server] example_server_facts(1)
    by (auto split: option.splits)
qed

theorem alias_answered_with_first_question_witness:
  "\<exists>s' m. handleAddressQuery (example_server_env (\<lambda>u. ((None, Some NetworkOffline), u))) example_query ''b.com'' 1
       (store_msgs (example_server_env (\<lambda>u. ((None, Some NetworkOffline), u))) ''a.com'' 1 [''b.com.''] example_nxdomain example_server)
     = Some s' \<and> sv_out s' = [m] \<and> msg_Question m = [(''a.'', 1)]"
proof -
  let ?e = "example_server_env (\<lambda>u. ((None, Some NetworkOffline), u))"
  have t: "''b.com'' = trim_dots (last [''b.com.''])" by code_simp
  have q: "msg_Question example_nxdomain = [(''a.'', 1)]" "sv_out example_server = []"
    by (simp_all add: example_nxdomain_def example_server_def)
  show ?thesis
    using alias_answered_with_first_question[OF example_server_facts(2) _ t example_server_facts(4,3) refl,
        of ?e 1 "''a.com''" example_nxdomain] by (simp add: q)
qed

theorem random_all_open_panics_witness:
  "handleCacheMiss (example_server_env (\<lambda>u. let (out, u') = rawQuery (Pair (None, None)) (Pair (None, None)) (Pair (None, None))
       (queryRandom (\<lambda>xs. xs) (example_env (Inr example_nxdomain))) True True 0 [(''a.'', TypeA)] u in (Query out, u')))
     \<lparr>rq_msg = example_nxdomain, rq_DO = True\<rparr> ''a'' TypeA example_server = None"
proof -
  have s: "server_skipped 1 0 (sv_upstream example_server)" by code_simp
  have "um_servers (sv_upstream example_server) = um_servers (example_manager HealthStatusUnhealthy)"
    by (simp add: example_server_def)
  then show ?thesis
    by (intro random_all_open_panics[where qe = "example_env (Inr example_nxdomain)" and shuffle = "\<lambda>xs. xs"
          and par = "Pair (None, None)" and seq = "Pair (None, None)" and race = "Pair (None, None)"
          and online' = True and latency = 0])
       (use s in \<open>simp_all add: example_server_def example_server_env_def example_env_def example_nxdomain_def TypeA_def less_Suc_eq\<close>)
qed

end
