(* ===== verification/Dns_Flows.thy ===== *)
theory Dns_Flows
  imports Dns_Refresh Dns_Answers
begin

text \<open>The work behind the answers, followed over several operations: what the sorting tasks leave in the
  caches and what later queries make of it.\<close>

section \<open>Sorting states\<close>

text \<open>Measuring and reading leave the sorting states and the sorted answers as they are.\<close>

definition same_sorting :: "Cache \<Rightarrow> Cache \<Rightarrow> bool" where
  "same_sorting c c' \<longleftrightarrow> c_sortingState c' = c_sortingState c \<and> c_sortedCache c' = c_sortedCache c"

lemma same_sorting_refl [simp]: "same_sorting c c"
  and same_sorting_trans: "same_sorting c c1 \<Longrightarrow> same_sorting c1 c2 \<Longrightarrow> same_sorting c c2"
  by (simp_all add: same_sorting_def)

lemma GetRaw_same: "same_sorting c (snd (GetRaw d q c))"
  by (auto simp: GetRaw_def same_sorting_def Let_def split: prod.splits option.splits)

lemma sortIPsByRTT_cache [simp]: "sv_cache (snd (sortIPsByRTT ips m s)) = sv_cache s"
proof -
  have "sv_cache (fold (\<lambda>(ip, rtt) s. if P rtt then count c s else s) xs s) = sv_cache s" for P c xs and s :: "'a Server"
    by (induction xs arbitrary: s) (auto simp: count_def)
  then show ?thesis by (simp add: sortIPsByRTT_def Let_def)
qed

lemma spawns_cache [simp]: "sv_cache (fold (\<lambda>x. spawn (f x)) xs s) = sv_cache s"
  by (induction xs arbitrary: s) (simp_all add: spawn_def)

lemma counts_cache [simp]: "sv_cache (fold (\<lambda>x. count c) xs s) = sv_cache s"
  by (induction xs arbitrary: s) (simp_all add: count_def)

lemma ping_all_cache [simp]: "sv_cache (snd (ping_all w d ips s)) = sv_cache s"
  by (simp add: ping_all_def Let_def split: prod.split)

lemma sort_domain_same: "same_sorting (sv_cache s) (sv_cache (snd (sort_domain d ips s)))"
proof (cases ips)
  case (Cons ip rest)
  define q where "q = (if Option.bind (ParseIP ip) To4 = None then TypeAAAA else TypeA)"
  have "sv_cache (snd (sort_domain d ips s)) = snd (GetRaw d q (sv_cache s))"
    by (simp add: sort_domain_def Cons q_def Let_def case_prod_unfold)
  then show ?thesis using GetRaw_same by metis
qed (simp add: sort_domain_def)

lemma performPingSort_same: "same_sorting (sv_cache s) (sv_cache (snd (performPingSort w d ips s)))"
proof -
  obtain sd s1 where "sort_domain d ips s = (sd, s1)" by fastforce
  then show ?thesis using sort_domain_same[of s d ips]
    by (simp add: performPingSort_def Let_def spawn_def split: option.split)
qed

lemma finish_sort_same: "finish_sort res err st s = Some s' \<Longrightarrow> same_sorting (sv_cache s) (sv_cache s')"
  by (auto simp: finish_sort_def FinishSort_def same_sorting_def split: option.splits)

lemma set_sorted_state: "c_sortingState (sv_cache (set_sorted now d q e s)) = c_sortingState (sv_cache s)"
  by (simp add: set_sorted_def SetSorted_def Let_def pool_calls_def split: prod.split)

lemma handleSortComplete_state:
  assumes "handleSortComplete now d q res err st s = Some s'"
  shows "c_sortingState (sv_cache s') = c_sortingState (sv_cache s)"
proof -
  obtain raw c where g: "GetRaw d q (sv_cache s) = (raw, c)" by fastforce
  then have c: "c_sortingState c = c_sortingState (sv_cache s)" using GetRaw_same[of "sv_cache s" d q] by (simp add: same_sorting_def)
  show ?thesis using assms
    by (auto simp: handleSortComplete_def Let_def g c set_sorted_state same_sorting_def
        dest!: finish_sort_same split: option.splits)
qed

lemma run_task_state:
  assumes "run_task now w t s = Some s'"
  shows "c_sortingState (sv_cache s') = c_sortingState (sv_cache s)"
proof -
  obtain order s1 where p: "performPingSort w (tk_Domain t) (tk_IPs t) s = (order, s1)" by fastforce
  then have c: "c_sortingState (sv_cache s1) = c_sortingState (sv_cache s)"
    using performPingSort_same[of s w "tk_Domain t" "tk_IPs t"] by (simp add: same_sorting_def)
  show ?thesis using assms
    by (auto simp: run_task_def p c sort_callback_def Let_def dest!: handleSortComplete_state split: sum.splits if_splits)
qed

lemma sortIPsAsync_state:
  assumes "sortIPsAsync now d q ips ttl acq s = Some s'"
  shows "map_of (c_sortingState (sv_cache s')) (cacheKey d q) \<noteq> None"
proof -
  obtain st new c where g: "GetOrStartSort d q (sv_cache s) = ((st, new), c)" by (metis prod.exhaust)
  then have "map_of (c_sortingState c) (cacheKey d q) \<noteq> None"
    by (auto simp: GetOrStartSort_def Let_def update_conv split: option.splits)
  then show ?thesis using assms
    by (auto simp: sortIPsAsync_def g Let_def spawn_def same_sorting_def
        dest!: handleSortComplete_state finish_sort_same split: if_splits)
qed

text \<open>A finished sort stays registered: after \<open>sortIPsAsync\<close> for a name, whatever tasks the workers have
  run since, a further \<open>sortIPsAsync\<close> for it, with whatever addresses, does nothing at all, until a cleaning
  of the cache or a change of the addresses removes the state.\<close>

theorem finished_sort_blocks_resort:
  assumes "sortIPsAsync now d q ips ttl acq s = Some s1"
    "fold (\<lambda>(now, w, t) x. Option.bind x (run_task now w t)) tasks (Some s1) = Some s2"
  shows "sortIPsAsync now' d q ips' ttl' acq' s2 = Some s2"
proof -
  have none: "fold (\<lambda>(now, w, t) x. Option.bind x (run_task now w t)) tasks (None :: 'a Server option) = None" for tasks
    by (induction tasks) auto
  have "c_sortingState (sv_cache b) = c_sortingState (sv_cache a)"
    if "fold (\<lambda>(now, w, t) x. Option.bind x (run_task now w t)) tasks (Some a) = Some b" for a b :: "'a Server" and tasks
    using that
  proof (induction tasks arbitrary: a)
    case (Cons x tasks)
    obtain now w t where x: "x = (now, w, t)" by (cases x) auto
    obtain a1 where a1: "run_task now w t a = Some a1"
      using Cons.prems none by (cases "run_task now w t a") (auto simp: x none)
    then show ?case using Cons run_task_state[OF a1] by (simp add: x)
  qed simp
  then have "map_of (c_sortingState (sv_cache s2)) (cacheKey d q) \<noteq> None"
    using assms(2) sortIPsAsync_state[OF assms(1)] by metis
  then show ?thesis by (auto simp: sortIPsAsync_def GetOrStartSort_def Let_def)
qed

section \<open>Measurements turned off\<close>

lemma set_sorted_get:
  assumes "ShardedLRUCache_inv (c_sortedCache (sv_cache s))"
  shows "fst (ShardedLRUCache_Get (cacheKey d q) (c_sortedCache (sv_cache (set_sorted now d q e s)))) = Some e"
proof -
  let ?k = "cacheKey d q"
  obtain old sc1 where g: "ShardedLRUCache_Get ?k (c_sortedCache (sv_cache s)) = (old, sc1)" by fastforce
  obtain sc2 ev where st: "ShardedLRUCache_Set ?k e sc1 = (sc2, ev)" by fastforce
  have i: "ShardedLRUCache_inv sc1" using slru_get_ok(1)[OF assms, of ?k] by (simp add: g)
  have "ShardedLRUCache_inv sc2" "ShardedLRUCache_GetNoUpdate ?k sc2 = Some e"
    using slru_set_ok[OF i, of ?k e] by (simp_all add: st)
  then show ?thesis using slru_get_ok(2)[of sc2 ?k] by (simp add: set_sorted_def SetSorted_def g st pool_calls_def)
qed

lemma unmeasured: "\<not> ping_Enabled (cfg_Ping (sv_cfg s)) \<Longrightarrow> performPingSort w d ips s = ((ips, []), s)"
  by (simp add: performPingSort_def)

lemma unmeasured_task:
  assumes "ShardedLRUCache_inv (c_sortedCache (sv_cache s))" "\<not> ping_Enabled (cfg_Ping (sv_cfg s))"
    "sq_hasFunc (sv_sortQueue s)" "run_task now w t s = Some s'"
  shows "\<exists>e. fst (ShardedLRUCache_Get (cacheKey (tk_Domain t) (tk_Qtype t)) (c_sortedCache (sv_cache s'))) = Some e
    \<and> sorted_RTTs e = [] \<and> sorted_Timestamp e = now \<and> sorted_IsValid e
    \<and> (0 \<le> cache_MinTTLSeconds (cfg_Cache (sv_cfg s)) \<longrightarrow> 0 \<le> sorted_TTL e)"
proof -
  let ?d = "tk_Domain t" and ?q = "tk_Qtype t"
  obtain raw c where g: "GetRaw ?d ?q (sv_cache s) = (raw, c)" by fastforce
  have inv: "ShardedLRUCache_inv (c_sortedCache c)" using GetRaw_same[of "sv_cache s" ?d ?q] assms(1) by (simp add: g same_sorting_def)
  let ?s = "s\<lparr>sv_sortQueue := processTask now (Inr (tk_IPs t, [])) t (sv_sortQueue s), sv_cache := c\<rparr>"
  have set: "fst (ShardedLRUCache_Get (cacheKey ?d ?q) (c_sortedCache (sv_cache (set_sorted now ?d ?q e ?s)))) = Some e" for e
    by (rule set_sorted_get) (simp add: inv)
  obtain e where e: "finish_sort (Some e) None (tk_id t) (set_sorted now ?d ?q e ?s) = Some s'" "sorted_RTTs e = []"
    "sorted_Timestamp e = now" "sorted_IsValid e" "0 \<le> cache_MinTTLSeconds (cfg_Cache (sv_cfg s)) \<Longrightarrow> 0 \<le> sorted_TTL e"
    using assms(4) by (auto simp: run_task_def unmeasured[OF assms(2)] sort_callback_def sq_outcome_def assms(3) Let_def
        handleSortComplete_def g calculateRemainingTTL_def split: option.split)
  show ?thesis using set[of e] finish_sort_same[OF e(1)] e(2-5) by (auto simp: same_sorting_def)
qed

lemma buildDNSResponseWithCNAME_ttl:
  "rr \<in> set (msg_Answer (buildDNSResponseWithCNAME f d cs ips q ttl m)) \<Longrightarrow> rr \<in> set (msg_Answer m) \<or> rr_ttl rr = ttl"
proof -
  obtain rrs l where c: "cname_chain f ttl {} (f d) cs = (rrs, l)" by fastforce
  note cname_chain_linked[OF c] and address_records_ok(1)[of l ips q ttl]
  then show "rr \<in> set (msg_Answer (buildDNSResponseWithCNAME f d cs ips q ttl m)) \<Longrightarrow> rr \<in> set (msg_Answer m) \<or> rr_ttl rr = ttl"
    by (auto simp: buildDNSResponseWithCNAME_def buildDNSResponseWithCNAMEAndDNSSEC_def c add_answers_def
        mark_authenticated_def split: if_splits)
qed

lemma sorted_answer_ttl: "rr \<in> set (msg_Answer (sorted_answer env r d q raw ips ttl)) \<Longrightarrow> rr_ttl rr = ttl"
  using buildDNSResponseWithCNAME_ttl[of rr "se_fqdn env" d _ ips q ttl "reply_to (rq_msg r) rcode_success"]
    address_records_ok(1)[of "se_fqdn env d" ips q ttl]
  by (auto simp: sorted_answer_def Let_def buildDNSResponse_def buildDNSResponseWithDNSSEC_def reply_to_def add_answers_def
        mark_authenticated_def split: if_splits)

lemma effects_queue [simp]:
  "sv_refreshQueue (count c s) = sv_refreshQueue s" "sv_refreshQueue (pool_calls now calls s) = sv_refreshQueue s"
  "sv_refreshQueue (write_msg m s) = sv_refreshQueue s" "sv_refreshQueue (spawn j s) = sv_refreshQueue s"
  by (simp_all add: count_def pool_calls_def write_msg_def spawn_def)

lemma latest_order_queue: "sv_refreshQueue (snd (latest_order ips s)) = sv_refreshQueue s"
proof -
  have "sv_refreshQueue (fold (\<lambda>(ip, rtt) s. if P rtt then count c s else s) xs s) = sv_refreshQueue s" for P c xs and s :: "'a Server"
    by (induction xs arbitrary: s) auto
  then show ?thesis by (auto simp: latest_order_def sortIPsByRTT_def Let_def split: option.split)
qed

text \<open>A hit of a sorted answer without a live address.\<close>

lemma dead_hit:
  assumes "GetSorted (se_now env) d q (sv_cache s) = (Some hit, calls, c)" "dead_pool hit" "se_healthy env \<noteq> Some False"
    "length (sv_refreshQueue s) < refreshQueueSize"
  shows "\<exists>s' m. handleSortedCacheHit env r d q s = (True, s') \<and> sv_out s' = sv_out s @ [m]
    \<and> (\<forall>rr \<in> set (msg_Answer m). rr_ttl rr = 1)
    \<and> sv_refreshQueue s' = sv_refreshQueue s @ [\<lparr>rt_Domain = d, rt_Qtype = q\<rparr>]"
proof -
  let ?s1 = "pool_calls (se_now env) calls (s\<lparr>sv_cache := c\<rparr>)"
  let ?s3 = "count (RecordDomainQuery d) (count IncCacheHits (?s1\<lparr>sv_prefetcher :=
      pf_RecordAccess (se_now env) d (word_of_int (sorted_TTL hit)) (sv_prefetcher ?s1)\<rparr>))"
  obtain raw c4 where g: "GetRaw d q (sv_cache ?s3) = (raw, c4)" by fastforce
  let ?s5 = "RefreshDomain env d q (?s3\<lparr>sv_cache := c4\<rparr>)"
  obtain ips s6 where l: "latest_order (sorted_IPs hit) ?s5 = (ips, s6)" by fastforce
  have h: "handleSortedCacheHit env r d q s = (True, write_msg (sorted_answer env r d q raw ips 1) s6)"
    by (simp add: handleSortedCacheHit_def assms(1,2) Let_def g l)
  have "sv_out s6 = sv_out s" using latest_order_silent[of "sorted_IPs hit" ?s5] by (simp add: l silent)
  moreover have "sv_refreshQueue s6 = sv_refreshQueue s @ [\<lparr>rt_Domain = d, rt_Qtype = q\<rparr>]"
  proof -
    have "sv_refreshQueue ?s5 = sv_refreshQueue s @ [\<lparr>rt_Domain = d, rt_Qtype = q\<rparr>]"
      using assms(3,4) by (simp add: RefreshDomain_def rq_Submit_def)
    then show ?thesis using latest_order_queue[of "sorted_IPs hit" ?s5] unfolding l by simp
  qed
  ultimately show ?thesis using h sorted_answer_ttl[of _ env r d q raw ips 1] by (auto simp: write_msg_def)
qed

text \<open>With measurements turned off a sorted answer is stored without measured times, and every query
  that finds it is treated as if all its addresses were dead: it is answered with a TTL of one second
  and a refresh from upstream is queued, although nothing is known against the addresses.\<close>

theorem ping_disabled_means_dead:
  assumes "ShardedLRUCache_inv (c_sortedCache (sv_cache s))" "\<not> ping_Enabled (cfg_Ping (sv_cfg s))"
    "sq_hasFunc (sv_sortQueue s)" "run_task now w t s = Some s'"
    and "fst (GetSorted (se_now env) (tk_Domain t) (tk_Qtype t) (sv_cache s')) \<noteq> None"
    and "se_healthy env \<noteq> Some False" "length (sv_refreshQueue s') < refreshQueueSize"
  shows "\<exists>s'' m. handleSortedCacheHit env r (tk_Domain t) (tk_Qtype t) s' = (True, s'') \<and> sv_out s'' = sv_out s' @ [m]
    \<and> (\<forall>rr \<in> set (msg_Answer m). rr_ttl rr = 1)
    \<and> sv_refreshQueue s'' = sv_refreshQueue s' @ [\<lparr>rt_Domain = tk_Domain t, rt_Qtype = tk_Qtype t\<rparr>]"
proof -
  obtain hit calls c where g: "GetSorted (se_now env) (tk_Domain t) (tk_Qtype t) (sv_cache s') = (Some hit, calls, c)"
    using assms(5) by (metis not_None_eq prod.collapse)
  have "dead_pool hit"
    using unmeasured_task[OF assms(1-4)] g
    by (auto simp: GetSorted_def GetSortedWithStale_def Let_def dead_pool_def split: prod.splits option.splits if_splits)
  then show ?thesis by (rule dead_hit[OF g _ assms(6,7)])
qed

section \<open>Examples\<close>

lemma finish_sort_some: "c_states (sv_cache s) st \<noteq> None \<Longrightarrow> \<exists>s'. finish_sort res err st s = Some s'"
  by (auto simp: finish_sort_def FinishSort_def safe_close_def close_done_def split: option.splits if_splits)

lemma set_sorted_states [simp]: "c_states (sv_cache (set_sorted now d q e s)) = c_states (sv_cache s)"
  by (simp add: set_sorted_def SetSorted_def Let_def pool_calls_def split: prod.split)

lemma GetRaw_states: "c_states (snd (GetRaw d q c)) = c_states c"
  by (auto simp: GetRaw_def Let_def split: prod.splits option.splits)

lemma unmeasured_task_some:
  assumes "\<not> ping_Enabled (cfg_Ping (sv_cfg s))" "sq_hasFunc (sv_sortQueue s)" "c_states (sv_cache s) (tk_id t) \<noteq> None"
  shows "run_task now w t s \<noteq> None"
proof -
  obtain raw c where g: "GetRaw (tk_Domain t) (tk_Qtype t) (sv_cache s) = (raw, c)" by fastforce
  have "c_states c (tk_id t) \<noteq> None" using GetRaw_states[of "tk_Domain t" "tk_Qtype t" "sv_cache s"] assms(3) by (simp add: g)
  then show ?thesis
    by (auto simp: run_task_def unmeasured[OF assms(1)] sort_callback_def sq_outcome_def assms(2) Let_def handleSortComplete_def g
        intro!: finish_sort_some)
qed

definition example_started :: "string list Server" where
  "example_started = on_cache (\<lambda>c. snd (GetOrStartSort ''a.com'' TypeA c)) example_server"

definition example_sort :: SortTask where
  "example_sort = \<lparr>tk_id = 0, tk_Domain = ''a.com'', tk_Qtype = TypeA, tk_IPs = [''192.0.2.1'', ''192.0.2.2''], tk_TTL = 60\<rparr>"

lemma example_started_inv: "ShardedLRUCache_inv (c_sortedCache (sv_cache example_started))"
  using slru_new(1)[of "CalculateMaxEntries (example_config True 1)" 64]
  by (simp add: example_started_def on_cache_def example_server_def GetOrStartSort_def NewCache_def Let_def
      ShardedLRUCache_inv_def ShardedLRUCache_SetOnEvict_def)

lemma example_started_facts:
  "\<not> ping_Enabled (cfg_Ping (sv_cfg example_started))"
  "sq_hasFunc (sv_sortQueue example_started)" "c_states (sv_cache example_started) (tk_id example_sort) \<noteq> None"
  "sv_refreshQueue example_started = []" "sv_out example_started = []" "cache_MinTTLSeconds (cfg_Cache (sv_cfg example_started)) = 0"
  by (simp_all add: example_started_def on_cache_def example_server_def example_cfg_def GetOrStartSort_def NewCache_def Let_def
      SetSortFunc_def example_sort_def example_config_def)

lemma run_task_queue: "run_task now w t s = Some s' \<Longrightarrow> \<not> ping_Enabled (cfg_Ping (sv_cfg s)) \<Longrightarrow>
    sv_refreshQueue s' = sv_refreshQueue s"
  by (auto simp: run_task_def unmeasured sort_callback_def handleSortComplete_def finish_sort_def set_sorted_def Let_def
      split: sum.splits option.splits prod.splits)

definition example_world :: ping_world where
  "example_world = \<lparr>pw_clock = (\<lambda>_. 0), pw_probe = (\<lambda>_ _. (20, ''icmp'', None)), pw_sched = (\<lambda>ips. ips)\<rparr>"

theorem ping_disabled_means_dead_witness:
  "\<exists>s' s'' m. run_task 0 example_world example_sort example_started = Some s'
     \<and> handleSortedCacheHit (example_server_env (\<lambda>u. ((None, None), u))) example_query ''a.com'' TypeA s' = (True, s'')
     \<and> sv_out s'' = sv_out s' @ [m] \<and> (\<forall>rr \<in> set (msg_Answer m). rr_ttl rr = 1)
     \<and> sv_refreshQueue s'' = [\<lparr>rt_Domain = ''a.com'', rt_Qtype = TypeA\<rparr>]"
proof -
  let ?env = "example_server_env (\<lambda>u. ((None, None), u))"
  obtain s' where s': "run_task 0 example_world example_sort example_started = Some s'"
    using unmeasured_task_some[OF example_started_facts(1-3), of 0 example_world] by blast
  have key: "tk_Domain example_sort = ''a.com''" "tk_Qtype example_sort = TypeA" by (simp_all add: example_sort_def)
  have q: "sv_refreshQueue s' = []" using run_task_queue[OF s' example_started_facts(1)] by (simp add: example_started_facts)
  obtain e where e: "fst (ShardedLRUCache_Get (cacheKey ''a.com'' TypeA) (c_sortedCache (sv_cache s'))) = Some e"
    "sorted_Timestamp e = 0" "sorted_IsValid e" "0 \<le> sorted_TTL e"
    using unmeasured_task[OF example_started_inv example_started_facts(1,2) s'] by (auto simp: key example_started_facts)
  have env: "se_now ?env = 0" "se_healthy ?env = None" by (simp_all add: example_server_env_def)
  have "fst (GetSorted (se_now ?env) ''a.com'' TypeA (sv_cache s')) \<noteq> None"
    using e by (auto simp: GetSorted_def GetSortedWithStale_def Let_def SortedCacheEntry_IsExpired_def env second_def split: prod.split)
  then show ?thesis
    using ping_disabled_means_dead[OF example_started_inv example_started_facts(1,2) s', of ?env example_query, unfolded key q] s'
    by (auto simp: env refreshQueueSize_def)
qed

theorem finished_sort_blocks_resort_witness:
  "\<exists>s1. sortIPsAsync 0 ''a.com'' TypeA [''192.0.2.1'', ''192.0.2.2''] 60 0 example_server = Some s1
     \<and> sortIPsAsync second ''a.com'' TypeA [''192.0.2.9''] 60 second s1 = Some s1"
proof -
  have "\<exists>s1. sortIPsAsync 0 ''a.com'' TypeA [''192.0.2.1'', ''192.0.2.2''] 60 0 example_server = Some s1"
    by (simp add: sortIPsAsync_def example_server_def GetOrStartSort_def NewCache_def Let_def MaxConcurrentSorts_def)
  then obtain s1 where s1: "sortIPsAsync 0 ''a.com'' TypeA [''192.0.2.1'', ''192.0.2.2''] 60 0 example_server = Some s1"
    by blast
  show ?thesis
    by (rule exI[of _ s1]) (use s1 finished_sort_blocks_resort[OF s1, of "[]" s1] in simp)
qed

end
