(* ===== verification/Conn_Pool.thy ===== *)
theory Conn_Pool
  imports Upstream_Base Go_Net Go_Text
begin

text \<open>\<open>upstream/transport/connection_pool.go\<close>: the pool of connections to one server. The channel of
  idle connections is a queue; a connection belongs to one holder at a time, so it is passed as a value.
  The operations that run concurrently are cut at their locks and channel operations; the step
  relation interleaves them. Dialling, reading, writing and the clock are parameters.\<close>

section \<open>Addresses\<close>

text \<open>\<open>net.SplitHostPort\<close> and \<open>net.JoinHostPort\<close>.\<close>

definition last_colon :: "string \<Rightarrow> nat option" where
  "last_colon s = (case filter (\<lambda>i. s ! i = CHR '':'') [0..<length s] of [] \<Rightarrow> None | is \<Rightarrow> Some (last is))"

definition split_bracket :: "string \<Rightarrow> nat \<Rightarrow> (string \<times> string) option" where
  "split_bracket s i = (let r = takeWhile (\<lambda>c. c \<noteq> CHR '']'') s; e = length r in
     if e = length s \<or> e + 1 \<noteq> i then None
     else if CHR ''['' \<in> set (drop 1 s) \<or> CHR '']'' \<in> set (drop (e + 1) s) then None
     else Some (tl r, drop (i + 1) s))"

definition SplitHostPort :: "string \<Rightarrow> (string \<times> string) option" where
  "SplitHostPort s = (case last_colon s of
      None \<Rightarrow> None
    | Some i \<Rightarrow> if hd s = CHR ''['' then split_bracket s i
        else if CHR '':'' \<in> set (take i s) \<or> CHR ''['' \<in> set s \<or> CHR '']'' \<in> set s then None
        else Some (take i s, drop (i + 1) s))"

definition JoinHostPort :: "string \<Rightarrow> string \<Rightarrow> string" where
  "JoinHostPort host port = (if CHR '':'' \<in> set host then ''['' @ host @ '']:'' @ port else host @ '':'' @ port)"

text \<open>\<open>maskAddress\<close>: \<open>None\<close> is the panic of \<open>host[:4]\<close> on a shorter text.\<close>

definition maskAddress :: "string \<Rightarrow> string option" where
  "maskAddress addr = (case SplitHostPort addr of
      None \<Rightarrow> Some ''[upstream]''
    | Some (host, port) \<Rightarrow> (case ParseIP host of
          None \<Rightarrow> Some (if 3 < length host then take 2 host @ ''***:'' @ port else ''***:'' @ port)
        | Some p \<Rightarrow>
           (let parts = go_Split (CHR ''.'') host in
            if To4 p \<noteq> None \<and> length parts = 4 then Some (hd parts @ ''.*.*.*:'' @ port)
            else if length host < 4 then None else Some (take 4 host @ ''***:'' @ port))))"

section \<open>Errors\<close>

text \<open>\<open>fmt.Errorf\<close> with \<open>%w\<close>: the result is no \<open>net.Error\<close>, \<open>errors.Is\<close> still looks inside. In this
  theory the flag of a transport error that is a \<open>net.Error\<close> is its \<open>Timeout()\<close>.\<close>

definition wrap_error :: "string \<Rightarrow> go_error \<Rightarrow> go_error" where
  "wrap_error what err = Transport_error (what @ '': '' @ err_text err) (is_deadline err) None"

definition ErrPoolExhausted :: go_error where "ErrPoolExhausted = Err_text ''transport pool exhausted''"
definition ErrRequestThrottled :: go_error where "ErrRequestThrottled = Err_text ''transport request throttled''"

definition isTemporaryError :: "go_error \<Rightarrow> bool" where
  "isTemporaryError err = (case err of
      DeadlineExceeded \<Rightarrow> True | Transport_error _ _ (Some timeout) \<Rightarrow> timeout | _ \<Rightarrow> False)"

definition says_closed :: "go_error \<Rightarrow> bool" where
  "says_closed err \<longleftrightarrow> go_Contains (err_text err) ''broken pipe''
     \<or> go_Contains (err_text err) ''connection reset'' \<or> go_Contains (err_text err) ''EOF''"

section \<open>The pool\<close>

definition MaxDNSMessageSize :: nat where "MaxDNSMessageSize = 65535"
definition MinConnections :: int where "MinConnections = 2"
definition MaxConnectionsLimit :: nat where "MaxConnectionsLimit = 50"

record PooledConnection =
  pc_lastUsed :: instant
  pc_closed :: bool
  pc_createdAt :: instant
  pc_usageCount :: int
  pc_lastError :: "(go_error \<times> instant) option"

record ConnectionPool =
  cp_address :: string
  cp_network :: string
  cp_idleConns :: "PooledConnection list"
  cp_activeCount :: int
  cp_maxConnections :: int
  cp_idleTimeout :: duration
  cp_dialTimeout :: duration
  cp_readTimeout :: duration
  cp_writeTimeout :: duration
  cp_minConnections :: int
  cp_lastAdjustTime :: "instant option"
  cp_fastFailMode :: bool
  cp_totalCreated :: int
  cp_totalDestroyed :: int
  cp_totalErrors :: int
  cp_totalRequests :: int
  cp_totalCongested :: int
  cp_avgLatency :: duration
  cp_waitingCount :: int

definition NewConnectionPool :: "int \<Rightarrow> string \<Rightarrow> string \<Rightarrow> int \<Rightarrow> duration \<Rightarrow> ConnectionPool" where
  "NewConnectionPool numCPU address network maxConnections idleTimeout =
     \<lparr>cp_address = (if SplitHostPort address = None then JoinHostPort address ''53'' else address),
      cp_network = network, cp_idleConns = [], cp_activeCount = 0,
      cp_maxConnections = (if maxConnections \<le> 0 then max (numCPU * 5) 20 else maxConnections),
      cp_idleTimeout = idleTimeout, cp_dialTimeout = 5 * second, cp_readTimeout = 3 * second,
      cp_writeTimeout = 3 * second, cp_minConnections = MinConnections, cp_lastAdjustTime = None,
      cp_fastFailMode = False, cp_totalCreated = 0, cp_totalDestroyed = 0, cp_totalErrors = 0,
      cp_totalRequests = 0, cp_totalCongested = 0, cp_avgLatency = 0, cp_waitingCount = 0\<rparr>"

section \<open>Exchange on a connection\<close>

text \<open>Packing, unpacking and the transaction id of messages belong to the DNS library.\<close>

record 'm wire =
  wi_pack :: "'m \<Rightarrow> go_error + 8 word list"
  wi_unpack :: "8 word list \<Rightarrow> go_error + 'm"
  wi_id :: "'m \<Rightarrow> 16 word"

text \<open>What one exchange meets: the readings of its clock, the outcomes of its writes, of \<open>io.ReadFull\<close>
  of the two parts of a reply, and of the read of a datagram.\<close>

record conn_io =
  io_clock :: "nat \<Rightarrow> instant"
  io_write :: "nat \<Rightarrow> go_error option"
  io_readLength :: "go_error + 8 word \<times> 8 word"
  io_readBody :: "nat \<Rightarrow> go_error + 8 word list"
  io_readDatagram :: "go_error + 8 word list"

datatype conn_op =
    SetDeadline "instant option" | SetWriteDeadline instant | SetReadDeadline instant
  | Write "8 word list" | Read nat

definition length_prefix :: "8 word list \<Rightarrow> 8 word list" where
  "length_prefix buf = [word_of_nat (length buf div 256), word_of_nat (length buf)]"

definition prefix_length :: "8 word \<times> 8 word \<Rightarrow> nat" where
  "prefix_length l = unat (fst l) * 256 + unat (snd l)"

definition validateMessageSize :: "nat \<Rightarrow> go_error option" where
  "validateMessageSize n =
     (if n = 0 then Some (Err_text ''invalid message length: 0 (must be > 0)'')
      else if MaxDNSMessageSize < n
        then Some (Err_text (''message too large: '' @ FormatUint n @ '' > '' @ FormatUint MaxDNSMessageSize))
      else None)"

definition udp_buffer :: nat where "udp_buffer = 4096"

text \<open>Sending, then receiving: the operations on the connection and the error or the bytes of the reply.\<close>

definition send_request :: "conn_io \<Rightarrow> 8 word list \<Rightarrow> ConnectionPool \<Rightarrow> conn_op list \<times> go_error option" where
  "send_request io buf p =
     (let body = [SetWriteDeadline (io_clock io 2 + cp_writeTimeout p), Write buf];
          body_err = map_option (wrap_error ''write failed'') (io_write io 1)
      in if cp_network p = ''tcp''
         then (let pre = [SetWriteDeadline (io_clock io 1 + cp_writeTimeout p), Write (length_prefix buf)]
               in case io_write io 0 of
                    Some e \<Rightarrow> (pre, Some (wrap_error ''write tcp length failed'' e))
                  | None \<Rightarrow> (pre @ body, body_err))
         else (body, body_err))"

definition receive_reply :: "conn_io \<Rightarrow> ConnectionPool \<Rightarrow> conn_op list \<times> (go_error + 8 word list)" where
  "receive_reply io p =
     (if cp_network p = ''tcp''
      then (let pre = [SetReadDeadline (io_clock io 3 + cp_readTimeout p), Read 2] in
         (case io_readLength io of
            Inl e \<Rightarrow> (pre, Inl (wrap_error ''read tcp length failed'' e))
          | Inr l \<Rightarrow> (case validateMessageSize (prefix_length l) of
              Some e \<Rightarrow> (pre, Inl e)
            | None \<Rightarrow> (pre @ [SetReadDeadline (io_clock io 4 + cp_readTimeout p), Read (prefix_length l)],
                case io_readBody io (prefix_length l) of
                  Inl e \<Rightarrow> Inl (wrap_error ''read tcp body failed'' e) | Inr bs \<Rightarrow> Inr bs))))
      else ([SetReadDeadline (io_clock io 3 + cp_readTimeout p), Read udp_buffer],
        case io_readDatagram io of
          Inl e \<Rightarrow> Inl (wrap_error ''read udp failed'' e) | Inr bs \<Rightarrow> Inr (take udp_buffer bs)))"

definition check_reply :: "'m wire \<Rightarrow> 'm \<Rightarrow> 8 word list \<Rightarrow> go_error + 'm" where
  "check_reply w msg bs = (case wi_unpack w bs of
      Inl e \<Rightarrow> Inl (wrap_error ''unpack failed'' e)
    | Inr reply \<Rightarrow> if wi_id w reply \<noteq> wi_id w msg
        then Inl (Err_text (''dns id mismatch: request='' @ FormatUint (unat (wi_id w msg)) @ '', response=''
          @ FormatUint (unat (wi_id w reply))))
        else Inr reply)"

definition exchangeOnConnection :: "'m wire \<Rightarrow> conn_io \<Rightarrow> instant option \<Rightarrow> ConnectionPool \<Rightarrow> 'm \<Rightarrow>
    conn_op list \<times> (go_error + 'm)" where
  "exchangeOnConnection w io ctxDeadline p msg =
     (let start = [SetDeadline (Some (case ctxDeadline of
            Some d \<Rightarrow> d | None \<Rightarrow> io_clock io 0 + (cp_readTimeout p + cp_writeTimeout p)))] in
      (case wi_pack w msg of
         Inl e \<Rightarrow> (start, Inl (wrap_error ''pack failed'' e))
       | Inr buf \<Rightarrow> (case send_request io buf p of
           (ops, Some e) \<Rightarrow> (start @ ops, Inl e)
         | (ops, None) \<Rightarrow> (case receive_reply io p of
             (ops', Inl e) \<Rightarrow> (start @ ops @ ops', Inl e)
           | (ops', Inr bs) \<Rightarrow> (start @ ops @ ops' @ [SetDeadline None], check_reply w msg bs)))))"

section \<open>Connections\<close>

definition new_connection :: "instant \<Rightarrow> PooledConnection" where
  "new_connection now = \<lparr>pc_lastUsed = now, pc_closed = False, pc_createdAt = now, pc_usageCount = 0, pc_lastError = None\<rparr>"

text \<open>\<open>createConnection\<close>, for the outcome of the dial.\<close>

definition createConnection :: "instant \<Rightarrow> go_error option \<Rightarrow> ConnectionPool \<Rightarrow> (go_error + PooledConnection) \<times> ConnectionPool" where
  "createConnection now dial p = (case dial of
      Some e \<Rightarrow> (Inl (wrap_error ''dial failed'' e), p)
    | None \<Rightarrow> (Inr (new_connection now), p\<lparr>cp_totalCreated := cp_totalCreated p + 1\<rparr>))"

text \<open>\<open>isConnectionStale\<close>: \<open>probe\<close> is the outcome of reading one byte with a deadline of a millisecond.\<close>

definition isConnectionStale :: "instant \<Rightarrow> go_error option \<Rightarrow> ConnectionPool \<Rightarrow> PooledConnection \<Rightarrow> bool" where
  "isConnectionStale now probe p c =
     (if cp_network p \<noteq> ''tcp'' then False
      else if 5 * minute < now - pc_lastUsed c then True
      else (case probe of
          None \<Rightarrow> True
        | Some (Transport_error _ _ (Some True)) \<Rightarrow> False
        | Some e \<Rightarrow> says_closed e))"

definition lose_connection :: "bool \<Rightarrow> ConnectionPool \<Rightarrow> ConnectionPool" where
  "lose_connection isError p = p\<lparr>cp_activeCount := cp_activeCount p - 1, cp_totalDestroyed := cp_totalDestroyed p + 1,
     cp_totalErrors := cp_totalErrors p + (if isError then 1 else 0)\<rparr>"

definition updateAvgLatency :: "duration \<Rightarrow> ConnectionPool \<Rightarrow> ConnectionPool" where
  "updateAvgLatency d p = p\<lparr>cp_avgLatency :=
     (if cp_avgLatency p = 0 then d else go_trunc (1 / 5 * of_int d + 4 / 5 * of_int (cp_avgLatency p)))\<rparr>"

definition getAdaptiveWaitTime :: "ConnectionPool \<Rightarrow> duration" where
  "getAdaptiveWaitTime p = (if cp_avgLatency p = 0 then 50 * millisecond
     else min (200 * millisecond) (max (10 * millisecond) (go_div (cp_avgLatency p) 10)))"

definition adjustPoolSize :: "instant \<Rightarrow> ConnectionPool \<Rightarrow> ConnectionPool" where
  "adjustPoolSize now p =
     (if (case cp_lastAdjustTime p of None \<Rightarrow> False | Some t \<Rightarrow> now - t < 10 * second) then p
      else (let utilization = of_int (cp_activeCount p) / of_int (cp_maxConnections p) :: rat;
                m1 = (if 4 / 5 < utilization \<and> cp_maxConnections p < int MaxConnectionsLimit
                      then min (cp_maxConnections p + 5) (int MaxConnectionsLimit) else cp_maxConnections p);
                m2 = (if utilization < 1 / 5 \<and> cp_minConnections p < m1 then max (m1 - 2) (cp_minConnections p) else m1)
            in p\<lparr>cp_maxConnections := m2, cp_lastAdjustTime := Some now\<rparr>))"

definition adjustPoolSizeNow :: "instant \<Rightarrow> ConnectionPool \<Rightarrow> ConnectionPool" where
  "adjustPoolSizeNow now p = (if int MaxConnectionsLimit \<le> cp_maxConnections p then p else adjustPoolSize now p)"

text \<open>\<open>recordCongestion\<close>, and whether it starts \<open>adjustPoolSizeNow\<close> in the background.\<close>

definition recordCongestion :: "ConnectionPool \<Rightarrow> bool \<times> ConnectionPool" where
  "recordCongestion p = (let n = cp_totalCongested p + 1 in (n mod 5 = 0, p\<lparr>cp_totalCongested := n\<rparr>))"

section \<open>A request\<close>

text \<open>Where an \<open>Exchange\<close> stands: before taking an idle connection, having found none, dialling, waiting
  (with its rank), using a connection since some instant, and on the second attempt after a broken
  connection.\<close>

datatype 'm phase =
    Begin
  | Decide
  | Dialing
  | Waiting int
  | Using PooledConnection instant
  | Retrying go_error instant
  | Redialing instant
  | Reusing PooledConnection instant
  | Finished "go_error + 'm"

definition acquire :: "instant \<Rightarrow> go_error option \<Rightarrow> ConnectionPool \<Rightarrow> ConnectionPool \<times> 'm phase" where
  "acquire now probe p0 = (let p = p0\<lparr>cp_totalRequests := cp_totalRequests p0 + 1\<rparr> in
     (case cp_idleConns p of
        [] \<Rightarrow> (p, Decide)
      | c # rest \<Rightarrow>
         (let p1 = p\<lparr>cp_idleConns := rest\<rparr>
          in if pc_closed c then (p1\<lparr>cp_activeCount := cp_activeCount p1 - 1\<rparr>, Begin)
             else if cp_network p = ''tcp'' \<and> isConnectionStale now probe p c then (lose_connection False p1, Begin)
             else (p1, Using c now))))"

definition decide :: "ConnectionPool \<Rightarrow> ConnectionPool \<times> 'm phase" where
  "decide p = (if cp_activeCount p < cp_maxConnections p
     then (p\<lparr>cp_activeCount := cp_activeCount p + 1\<rparr>, Dialing)
     else (p\<lparr>cp_waitingCount := cp_waitingCount p + 1\<rparr>, Waiting (cp_waitingCount p + 1)))"

definition dialed :: "instant \<Rightarrow> go_error option \<Rightarrow> ConnectionPool \<Rightarrow> ConnectionPool \<times> 'm phase" where
  "dialed now dial p = (case createConnection now dial p of
      (Inl e, p1) \<Rightarrow> (p1\<lparr>cp_activeCount := cp_activeCount p1 - 1\<rparr>, Finished (Inl e))
    | (Inr c, p1) \<Rightarrow> (p1, Using c now))"

datatype wait_end = Idle_ready | Timer_fired | Ctx_done go_error

text \<open>The elastic wait; a connection it gets is used without the check for staleness.\<close>

definition waited :: "instant \<Rightarrow> wait_end \<Rightarrow> int \<Rightarrow> ConnectionPool \<Rightarrow> (ConnectionPool \<times> 'm phase) option" where
  "waited now w rank p =
     (if cp_fastFailMode p \<and> 20 < rank then Some (snd (recordCongestion p), Finished (Inl ErrRequestThrottled))
      else (case w of
          Timer_fired \<Rightarrow> Some (snd (recordCongestion p), Finished (Inl ErrPoolExhausted))
        | Ctx_done e \<Rightarrow> Some (p, Finished (Inl e))
        | Idle_ready \<Rightarrow> (case cp_idleConns p of
              [] \<Rightarrow> None
            | c # rest \<Rightarrow>
               (let p1 = p\<lparr>cp_idleConns := rest\<rparr>
                in Some (if pc_closed c then (p1\<lparr>cp_activeCount := cp_activeCount p1 - 1\<rparr>, Begin) else (p1, Using c now))))))"

definition put_back :: "PooledConnection \<Rightarrow> bool \<Rightarrow> ConnectionPool \<Rightarrow> ConnectionPool" where
  "put_back c isError p = (if length (cp_idleConns p) < MaxConnectionsLimit
     then p\<lparr>cp_idleConns := cp_idleConns p @ [c]\<rparr> else lose_connection isError p)"

definition used :: "instant \<Rightarrow> PooledConnection \<Rightarrow> PooledConnection" where
  "used now c = c\<lparr>pc_lastUsed := now, pc_usageCount := pc_usageCount c + 1\<rparr>"

text \<open>What \<open>Exchange\<close> does with the outcome of the exchange, and with that of the second one.\<close>

definition settle :: "instant \<Rightarrow> instant \<Rightarrow> go_error + 'm \<Rightarrow> PooledConnection \<Rightarrow> ConnectionPool \<Rightarrow> ConnectionPool \<times> 'm phase" where
  "settle now start out c p = (case out of
      Inr reply \<Rightarrow> (put_back (used now c) False (updateAvgLatency (now - start) p), Finished out)
    | Inl err \<Rightarrow>
       if isTemporaryError err
       then (if cp_network p = ''udp'' then lose_connection True p
             else put_back (c\<lparr>pc_lastUsed := now, pc_lastError := Some (err, now)\<rparr>) True p, Finished out)
       else if says_closed err \<and> cp_network p = ''tcp'' then (lose_connection True p, Retrying err start)
       else (lose_connection True p, Finished out))"

definition retry :: "go_error \<Rightarrow> instant \<Rightarrow> ConnectionPool \<Rightarrow> ConnectionPool \<times> 'm phase" where
  "retry err start p = (if cp_activeCount p < cp_maxConnections p
     then (p\<lparr>cp_activeCount := cp_activeCount p + 1\<rparr>, Redialing start) else (p, Finished (Inl err)))"

definition redialed :: "instant \<Rightarrow> go_error option \<Rightarrow> instant \<Rightarrow> ConnectionPool \<Rightarrow> ConnectionPool \<times> 'm phase" where
  "redialed now dial start p = (case createConnection now dial p of
      (Inl e, p1) \<Rightarrow> (p1\<lparr>cp_activeCount := cp_activeCount p1 - 1\<rparr>, Finished (Inl e))
    | (Inr c, p1) \<Rightarrow> (p1, Reusing c start))"

definition resettle :: "instant \<Rightarrow> instant \<Rightarrow> go_error + 'm \<Rightarrow> PooledConnection \<Rightarrow> ConnectionPool \<Rightarrow> ConnectionPool \<times> 'm phase" where
  "resettle now start out c p = (case out of
      Inl err \<Rightarrow> (lose_connection True p, Finished out)
    | Inr reply \<Rightarrow> (put_back (used now c) False (updateAvgLatency (now - start) p), Finished out))"

section \<open>Upkeep\<close>

definition cleanup_start :: "ConnectionPool \<Rightarrow> duration" where
  "cleanup_start p = min (5 * minute) (max (30 * second) (go_div (cp_idleTimeout p) 3))"

definition cleanup_next :: "ConnectionPool \<Rightarrow> duration" where
  "cleanup_next p = go_div (cp_idleTimeout p)
     (let idle = int (length (cp_idleConns p))
      in if go_div (cp_maxConnections p) 2 < idle then 4 else if idle < 2 then 2 else 3)"

text \<open>One round of \<open>cleanupExpiried\<close>: taking a connection, then putting it back or dropping it.\<close>

definition keeps :: "instant \<Rightarrow> PooledConnection \<Rightarrow> ConnectionPool \<Rightarrow> bool" where
  "keeps now c p \<longleftrightarrow> \<not> pc_closed c \<and> now - pc_lastUsed c < cp_idleTimeout p"

definition sweep_one :: "instant \<Rightarrow> PooledConnection \<Rightarrow> ConnectionPool \<Rightarrow> ConnectionPool option" where
  "sweep_one now c p = (if keeps now c p
     then (if length (cp_idleConns p) < MaxConnectionsLimit then Some (p\<lparr>cp_idleConns := cp_idleConns p @ [c]\<rparr>) else None)
     else Some (lose_connection False p))"

fun sweep_rounds :: "instant \<Rightarrow> nat \<Rightarrow> ConnectionPool \<Rightarrow> ConnectionPool option" where
  "sweep_rounds now 0 p = Some p"
| "sweep_rounds now (Suc n) p = (case cp_idleConns p of
      [] \<Rightarrow> Some p
    | c # rest \<Rightarrow> Option.bind (sweep_one now c (p\<lparr>cp_idleConns := rest\<rparr>)) (sweep_rounds now n))"

definition cleanupExpiried :: "instant \<Rightarrow> ConnectionPool \<Rightarrow> ConnectionPool option" where
  "cleanupExpiried now p = sweep_rounds now (length (cp_idleConns p)) p"

definition closeAll :: "ConnectionPool \<Rightarrow> ConnectionPool" where
  "closeAll p = p\<lparr>cp_activeCount := cp_activeCount p - int (length (cp_idleConns p)), cp_idleConns := []\<rparr>"

text \<open>One connection of \<open>Warmup\<close>: it enters the channel first and is counted afterwards.\<close>

definition warm_send :: "PooledConnection \<Rightarrow> ConnectionPool \<Rightarrow> bool \<times> ConnectionPool" where
  "warm_send c p = (if length (cp_idleConns p) < MaxConnectionsLimit
     then (True, p\<lparr>cp_idleConns := cp_idleConns p @ [c]\<rparr>) else (False, p))"

definition warm_one :: "instant \<Rightarrow> go_error option \<Rightarrow> ConnectionPool \<Rightarrow> bool \<times> ConnectionPool" where
  "warm_one now dial p = (case createConnection now dial p of
      (Inl e, p1) \<Rightarrow> (False, p1)
    | (Inr c, p1) \<Rightarrow> warm_send c p1)"

definition warm_count :: "ConnectionPool \<Rightarrow> ConnectionPool" where
  "warm_count p = p\<lparr>cp_activeCount := cp_activeCount p + 1\<rparr>"

fun warm_rounds :: "(nat \<Rightarrow> instant) \<Rightarrow> (nat \<Rightarrow> go_error option) \<Rightarrow> nat \<Rightarrow> ConnectionPool \<Rightarrow> ConnectionPool" where
  "warm_rounds clock dial 0 p = p"
| "warm_rounds clock dial (Suc n) p = (case warm_one (clock n) (dial n) p of
      (sent, p1) \<Rightarrow> warm_rounds clock dial n (if sent then warm_count p1 else p1))"

definition warmup_size :: "int \<Rightarrow> ConnectionPool \<Rightarrow> nat" where
  "warmup_size n p = nat (min n (cp_maxConnections p))"

definition Warmup :: "(nat \<Rightarrow> instant) \<Rightarrow> (nat \<Rightarrow> go_error option) \<Rightarrow> int \<Rightarrow> ConnectionPool \<Rightarrow> ConnectionPool" where
  "Warmup clock dial n p = warm_rounds clock dial (warmup_size n p) p"

definition initial_warmup :: "ConnectionPool \<Rightarrow> int" where
  "initial_warmup p = go_div (cp_maxConnections p) 2"

definition idle_shortage :: "ConnectionPool \<Rightarrow> int" where
  "idle_shortage p = cp_minConnections p - int (length (cp_idleConns p))"

definition performHealthCheck :: "(nat \<Rightarrow> instant) \<Rightarrow> (nat \<Rightarrow> go_error option) \<Rightarrow> ConnectionPool \<Rightarrow> ConnectionPool" where
  "performHealthCheck clock dial p = (if 0 < idle_shortage p then Warmup clock dial (idle_shortage p) p else p)"

section \<open>Statistics\<close>

definition GetConnectionStats :: "ConnectionPool \<Rightarrow> rat \<times> int \<times> int" where
  "GetConnectionStats p = (let us = map pc_usageCount (cp_idleConns p)
     in (if us = [] then 0 else of_int (sum_list us) / of_nat (length us), foldl max 0 us,
         let m = foldl min (2 ^ 63 - 1) us in if m = 2 ^ 63 - 1 then 0 else m))"

definition reuse_rate :: "ConnectionPool \<Rightarrow> rat" where
  "reuse_rate p = (if 0 < cp_totalCreated p then of_int (cp_totalRequests p) / of_int (cp_totalCreated p) else 0)"

definition error_rate :: "ConnectionPool \<Rightarrow> rat" where
  "error_rate p = (if 0 < cp_totalRequests p then of_int (cp_totalErrors p) / of_int (cp_totalRequests p) * 100 else 0)"

section \<open>Properties of addresses\<close>

lemma last_colon_append:
  assumes "CHR '':'' \<notin> set port"
  shows "last_colon (h @ CHR '':'' # port) = Some (length h)"
proof -
  let ?s = "h @ CHR '':'' # port" and ?n = "length h"
  have split: "[0..<length ?s] = [0..<?n] @ ?n # [Suc ?n..<length ?s]"
    using upt_add_eq_append[of 0 ?n "Suc (length port)"] upt_conv_Cons[of ?n "length ?s"] by simp
  have "?s ! i \<noteq> CHR '':''" if "i \<in> {Suc ?n..<length ?s}" for i
  proof -
    have "Suc ?n \<le> i" using that by simp
    then obtain k where k: "i = Suc ?n + k" using le_Suc_ex by blast
    then have "?s ! i = port ! k" "k < length port" using that by (simp_all add: nth_append)
    then show ?thesis using assms by (metis nth_mem)
  qed
  then have none: "filter (\<lambda>i. ?s ! i = CHR '':'') [Suc ?n..<length ?s] = []"
    unfolding filter_empty_conv set_upt by blast
  have eq: "filter (\<lambda>i. ?s ! i = CHR '':'') [0..<length ?s] = filter (\<lambda>i. ?s ! i = CHR '':'') [0..<?n] @ [?n]"
    unfolding split filter_append filter.simps none by simp
  have "(case xs @ [a] of [] \<Rightarrow> None | is \<Rightarrow> Some (last is)) = Some a" for xs and a :: nat by (cases xs) auto
  then show ?thesis unfolding last_colon_def eq by blast
qed

lemma SplitHostPort_JoinHostPort:
  assumes "set host \<inter> {CHR ''['', CHR '']''} = {}" "set port \<inter> {CHR '':'', CHR ''['', CHR '']''} = {}"
  shows "SplitHostPort (JoinHostPort host port) = Some (host, port)"
proof (cases "CHR '':'' \<in> set host")
  case True
  let ?s = "CHR ''['' # host @ CHR '']'' # CHR '':'' # port"
  have l: "last_colon ?s = Some (Suc (Suc (length host)))"
    using last_colon_append[of port "CHR ''['' # host @ '']''"] assms(2) by simp
  have "takeWhile (\<lambda>c. c \<noteq> CHR '']'') (h @ CHR '']'' # r) = h" if "CHR '']'' \<notin> set h" for h r
    using that by (induction h) auto
  then have t: "takeWhile (\<lambda>c. c \<noteq> CHR '']'') (host @ CHR '']'' # r) = host" for r
    using assms(1) by blast
  show ?thesis using True assms by (auto simp: JoinHostPort_def SplitHostPort_def l split_bracket_def t Let_def)
next
  case False
  let ?s = "host @ CHR '':'' # port"
  have l: "last_colon ?s = Some (length host)" using last_colon_append[of port host] assms(2) by simp
  have "hd ?s \<noteq> CHR ''[''" using assms(1) by (cases host) auto
  then show ?thesis using False assms by (auto simp: JoinHostPort_def SplitHostPort_def l)
qed

text \<open>Masking the address of a server for the log panics exactly for IPv6 addresses written in fewer
  than four characters, such as \<open>::1\<close>; the pool does so when its first warm-up fails.\<close>

theorem maskAddress_panics_iff:
  assumes "set host \<inter> {CHR ''['', CHR '']''} = {}" "set port \<inter> {CHR '':'', CHR ''['', CHR '']''} = {}"
  shows "maskAddress (JoinHostPort host port) = None \<longleftrightarrow>
    length host < 4 \<and> (\<exists>ip. ParseIP host = Some ip \<and> (To4 ip = None \<or> length (go_Split (CHR ''.'') host) \<noteq> 4))"
  by (auto simp: maskAddress_def SplitHostPort_JoinHostPort[OF assms] Let_def split: option.splits)

theorem maskAddress_panics_iff_witness: "maskAddress (JoinHostPort ''::1'' ''53'') = None"
proof -
  have a: "set ''::1'' \<inter> {CHR ''['', CHR '']''} = {}" by simp
  have b: "set ''53'' \<inter> {CHR '':'', CHR ''['', CHR '']''} = {}" by simp
  have p: "ParseIP ''::1'' = Some (replicate 7 0 @ [1])"
    by (simp add: ParseIP_def parse_v6_def side_groups_def parse_group_def hex_value_def)
  have t: "To4 (replicate 7 0 @ [1]) = None" by (simp add: To4_def numeral_eq_Suc)
  have l: "length ''::1'' < 4" by simp
  show ?thesis unfolding maskAddress_panics_iff[OF a b] using l p t by blast
qed

section \<open>Properties of an exchange\<close>

text \<open>The deadlines in force when something is read or written.\<close>

fun read_deadlines :: "instant option \<Rightarrow> conn_op list \<Rightarrow> instant option list" where
  "read_deadlines d [] = []"
| "read_deadlines d (SetDeadline t # ops) = read_deadlines t ops"
| "read_deadlines d (SetReadDeadline t # ops) = read_deadlines (Some t) ops"
| "read_deadlines d (Read n # ops) = d # read_deadlines d ops"
| "read_deadlines d (op # ops) = read_deadlines d ops"

fun write_deadlines :: "instant option \<Rightarrow> conn_op list \<Rightarrow> instant option list" where
  "write_deadlines d [] = []"
| "write_deadlines d (SetDeadline t # ops) = write_deadlines t ops"
| "write_deadlines d (SetWriteDeadline t # ops) = write_deadlines (Some t) ops"
| "write_deadlines d (Write bs # ops) = d # write_deadlines d ops"
| "write_deadlines d (op # ops) = write_deadlines d ops"

lemma wrapped_not_temporary [simp]: "\<not> isTemporaryError (wrap_error what e)" "\<not> isTemporaryError (Err_text t)"
  by (simp_all add: isTemporaryError_def wrap_error_def)

lemma validate_not_temporary: "validateMessageSize n = Some e \<Longrightarrow> \<not> isTemporaryError e"
  by (auto simp: validateMessageSize_def split: if_splits)

lemma exchange_error_permanent: "snd (exchangeOnConnection w io ctx p msg) = Inl e \<Longrightarrow> \<not> isTemporaryError e"
  by (auto simp: exchangeOnConnection_def send_request_def receive_reply_def check_reply_def Let_def
      dest: validate_not_temporary split: sum.splits option.splits if_splits)

lemma check_reply_id: "check_reply w msg bs = Inr reply \<Longrightarrow> wi_id w reply = wi_id w msg"
  by (auto simp: check_reply_def split: sum.splits if_splits)

text \<open>C31: An exchange ends with a reply of the same transaction id or with an error. Every read and
  every write is limited by the timeouts of the pool alone, counted from its own start: the deadline of
  the context, set first, is always overwritten. No error is temporary for the pool, because each is
  wrapped and so no \<open>net.Error\<close>: whatever goes wrong, the connection is dropped, and the code that would
  put it back, or that treats UDP timeouts apart, is never reached.\<close>

theorem exchange_outcomes:
  assumes "exchangeOnConnection w io ctx p msg = (ops, out)"
  shows "set (read_deadlines None ops) \<subseteq> {Some (io_clock io k + cp_readTimeout p) |k. True}
    \<and> set (write_deadlines None ops) \<subseteq> {Some (io_clock io k + cp_writeTimeout p) |k. True}
    \<and> (case out of
        Inr reply \<Rightarrow> wi_id w reply = wi_id w msg
      | Inl e \<Rightarrow> settle now start out c q =
          (lose_connection True q, if says_closed e \<and> cp_network q = ''tcp'' then Retrying e start else Finished out))"
proof (intro conjI)
  show "set (read_deadlines None ops) \<subseteq> {Some (io_clock io k + cp_readTimeout p) |k. True}"
    using assms by (auto simp: exchangeOnConnection_def send_request_def receive_reply_def Let_def
        split: sum.splits option.splits if_splits)
  show "set (write_deadlines None ops) \<subseteq> {Some (io_clock io k + cp_writeTimeout p) |k. True}"
    using assms by (auto simp: exchangeOnConnection_def send_request_def receive_reply_def Let_def
        split: sum.splits option.splits if_splits)
  show "case out of
        Inr reply \<Rightarrow> wi_id w reply = wi_id w msg
      | Inl e \<Rightarrow> settle now start out c q =
          (lose_connection True q, if says_closed e \<and> cp_network q = ''tcp'' then Retrying e start else Finished out)"
  proof (cases out)
    case (Inl e)
    then have "\<not> isTemporaryError e" using exchange_error_permanent[of w io ctx p msg e] assms by simp
    then show ?thesis by (simp add: Inl settle_def)
  next
    case (Inr reply)
    then show ?thesis using assms check_reply_id[of w msg _ reply]
      by (auto simp: exchangeOnConnection_def Let_def split: sum.splits option.splits prod.splits)
  qed
qed

definition example_wire :: "16 word wire" where
  "example_wire = \<lparr>wi_pack = (\<lambda>m. Inr [0]), wi_unpack = (\<lambda>bs. Inr 7), wi_id = (\<lambda>m. m)\<rparr>"

definition example_timeout :: conn_io where
  "example_timeout = \<lparr>io_clock = (\<lambda>k. 0), io_write = (\<lambda>k. None), io_readLength = Inr (0, 1), io_readBody = (\<lambda>n. Inr [0]),
     io_readDatagram = Inl (Transport_error ''i/o timeout'' True (Some True))\<rparr>"

theorem exchange_outcomes_witness:
  "fst (settle 0 0 (snd (exchangeOnConnection example_wire example_timeout None (NewConnectionPool 4 ''9.9.9.9:53'' ''udp'' 2 0) 7))
      (new_connection 0) (NewConnectionPool 4 ''9.9.9.9:53'' ''udp'' 2 0))
   = lose_connection True (NewConnectionPool 4 ''9.9.9.9:53'' ''udp'' 2 0)"
proof -
  let ?p = "NewConnectionPool 4 ''9.9.9.9:53'' ''udp'' 2 0"
  obtain ops out where e: "exchangeOnConnection example_wire example_timeout None ?p 7 = (ops, out)" by fastforce
  have "cp_network ?p = ''udp''" by (simp add: NewConnectionPool_def)
  then have "isl out"
    using e by (auto simp: exchangeOnConnection_def example_wire_def example_timeout_def send_request_def receive_reply_def)
  then show ?thesis using exchange_outcomes[OF e, of 0 0 "new_connection 0" ?p] e by (cases out) simp_all
qed

text \<open>The prefix written before a message is the length the other side reads, up to 65535 bytes.\<close>

lemma prefix_roundtrip:
  assumes "length buf < 65536"
  shows "\<exists>a b. length_prefix buf = [a, b] \<and> prefix_length (a, b) = length buf"
proof -
  have "length buf div 256 < 256" using assms by (simp add: less_mult_imp_div_less)
  then have "unat (word_of_nat (length buf div 256) :: 8 word) = length buf div 256" by (simp add: unat_of_nat)
  moreover have "unat (word_of_nat (length buf) :: 8 word) = length buf mod 256" by (simp add: unat_of_nat)
  ultimately show ?thesis by (simp add: length_prefix_def prefix_length_def)
qed

end
