(* ===== verification/Conn_Runs.thy ===== *)
theory Conn_Runs
  imports Conn_Pool
begin

text \<open>Runs of a connection pool: requests, the upkeep of the pool and its end in every interleaving.\<close>

section \<open>Steps\<close>

record 'm pool_event =
  ev_now :: instant
  ev_probe :: "go_error option"
  ev_dial :: "go_error option"
  ev_wait :: wait_end
  ev_out :: "go_error + 'm"

definition advance :: "'m pool_event \<Rightarrow> 'm phase \<Rightarrow> ConnectionPool \<Rightarrow> (ConnectionPool \<times> 'm phase) option" where
  "advance ev ph p = (case ph of
      Begin \<Rightarrow> Some (acquire (ev_now ev) (ev_probe ev) p)
    | Decide \<Rightarrow> Some (decide p)
    | Dialing \<Rightarrow> Some (dialed (ev_now ev) (ev_dial ev) p)
    | Waiting rank \<Rightarrow> waited (ev_now ev) (ev_wait ev) rank p
    | Using c start \<Rightarrow> Some (settle (ev_now ev) start (ev_out ev) c p)
    | Retrying err start \<Rightarrow> Some (retry err start p)
    | Redialing start \<Rightarrow> Some (redialed (ev_now ev) (ev_dial ev) start p)
    | Reusing c start \<Rightarrow> Some (resettle (ev_now ev) start (ev_out ev) c p)
    | Finished out \<Rightarrow> None)"

text \<open>A request with the number of its waits, which its deferred calls take back at the end.\<close>

record 'm conn_request =
  cr_phase :: "'m phase"
  cr_waits :: int

definition is_finished :: "'m phase \<Rightarrow> bool" where
  "is_finished ph = (case ph of Finished _ \<Rightarrow> True | _ \<Rightarrow> False)"

definition is_waiting :: "'m phase \<Rightarrow> bool" where
  "is_waiting ph = (case ph of Waiting _ \<Rightarrow> True | _ \<Rightarrow> False)"

definition request_step :: "'m pool_event \<Rightarrow> 'm conn_request \<Rightarrow> ConnectionPool \<Rightarrow> (ConnectionPool \<times> 'm conn_request) option" where
  "request_step ev r p = (case advance ev (cr_phase r) p of
      None \<Rightarrow> None
    | Some (p', ph) \<Rightarrow>
       (let w = cr_waits r + (if is_waiting ph then 1 else 0)
        in Some (if is_finished ph then p'\<lparr>cp_waitingCount := cp_waitingCount p' - w\<rparr> else p',
                 \<lparr>cr_phase = ph, cr_waits = (if is_finished ph then 0 else w)\<rparr>)))"

text \<open>The two goroutines that warm the pool up stand before \<open>Warmup\<close> with the count they ask for, before
  the next of its rounds (how many are left), with a connection just dialled, or before counting one
  they have sent.\<close>

datatype warmer =
    Warmer_called int
  | Warmer_next nat
  | Warmer_holds PooledConnection nat
  | Warmer_counts nat

definition warmer_held :: "warmer \<Rightarrow> PooledConnection set" where
  "warmer_held w = (case w of Warmer_holds c n \<Rightarrow> {c} | _ \<Rightarrow> {})"

definition is_uncounted :: "warmer \<Rightarrow> bool" where
  "is_uncounted w = (case w of Warmer_counts n \<Rightarrow> True | _ \<Rightarrow> False)"

record 'm pool_system =
  ps_pool :: ConnectionPool
  ps_requests :: "'m conn_request list"
  ps_warmers :: "warmer list"
  ps_sweeping :: "PooledConnection option"
  ps_closed :: bool

text \<open>A new pool starts a goroutine that asks, after a delay, for half the connections its limit allows,
  and \<open>healthCheckLoop\<close>, which waits for its tick.\<close>

definition new_system :: "ConnectionPool \<Rightarrow> 'm pool_system" where
  "new_system p = \<lparr>ps_pool = p, ps_requests = [], ps_warmers = [Warmer_called (initial_warmup p), Warmer_next 0],
     ps_sweeping = None, ps_closed = False\<rparr>"

text \<open>The connections sent to the channel and not counted yet.\<close>

definition ps_uncounted :: "'m pool_system \<Rightarrow> nat" where
  "ps_uncounted s = length (filter is_uncounted (ps_warmers s))"

text \<open>One goroutine moves on, with the pool it leaves.\<close>

definition warmer_moves :: "nat \<Rightarrow> ConnectionPool \<Rightarrow> warmer \<Rightarrow> 'm pool_system \<Rightarrow> 'm pool_system" where
  "warmer_moves i p w s = s\<lparr>ps_pool := p, ps_warmers := (ps_warmers s)[i := w]\<rparr>"

text \<open>The outcomes an exchange can have.\<close>

definition exchange_outcome :: "go_error + 'm \<Rightarrow> bool" where
  "exchange_outcome out \<longleftrightarrow> (\<exists>w io ctx p msg. out = snd (exchangeOnConnection w io ctx p msg))"

inductive pool_step :: "'m pool_system \<Rightarrow> 'm pool_system \<Rightarrow> bool" where
  arrive: "pool_step s (s\<lparr>ps_requests := ps_requests s @ [\<lparr>cr_phase = Begin, cr_waits = 0\<rparr>]\<rparr>)"
| request: "i < length (ps_requests s) \<Longrightarrow> exchange_outcome (ev_out ev) \<Longrightarrow>
    request_step ev (ps_requests s ! i) (ps_pool s) = Some (p', r') \<Longrightarrow>
    pool_step s (s\<lparr>ps_pool := p', ps_requests := (ps_requests s)[i := r']\<rparr>)"
| sweep_take: "\<not> ps_closed s \<Longrightarrow> ps_sweeping s = None \<Longrightarrow> cp_idleConns (ps_pool s) = c # rest \<Longrightarrow>
    pool_step s (s\<lparr>ps_pool := (ps_pool s)\<lparr>cp_idleConns := rest\<rparr>, ps_sweeping := Some c\<rparr>)"
| sweep_put: "ps_sweeping s = Some c \<Longrightarrow> sweep_one now c (ps_pool s) = Some p' \<Longrightarrow>
    pool_step s (s\<lparr>ps_pool := p', ps_sweeping := None\<rparr>)"
| adjust: "pool_step s (s\<lparr>ps_pool := adjustPoolSize now (ps_pool s)\<rparr>)"
| warm_begins: "i < length (ps_warmers s) \<Longrightarrow> ps_warmers s ! i = Warmer_called n \<Longrightarrow>
    pool_step s (warmer_moves i (ps_pool s) (Warmer_next (warmup_size n (ps_pool s))) s)"
| warm_dials: "i < length (ps_warmers s) \<Longrightarrow> ps_warmers s ! i = Warmer_next (Suc n) \<Longrightarrow>
    createConnection now dial (ps_pool s) = (r, p') \<Longrightarrow>
    pool_step s (warmer_moves i p' (case r of Inl e \<Rightarrow> Warmer_next n | Inr c \<Rightarrow> Warmer_holds c n) s)"
| warm_sends: "i < length (ps_warmers s) \<Longrightarrow> ps_warmers s ! i = Warmer_holds c n \<Longrightarrow>
    warm_send c (ps_pool s) = (sent, p') \<Longrightarrow>
    pool_step s (warmer_moves i p' (if sent then Warmer_counts n else Warmer_next n) s)"
| warm_counts: "i < length (ps_warmers s) \<Longrightarrow> ps_warmers s ! i = Warmer_counts n \<Longrightarrow>
    pool_step s (warmer_moves i (warm_count (ps_pool s)) (Warmer_next n) s)"
| health_check: "length (ps_warmers s) = 2 \<Longrightarrow> ps_warmers s ! 1 = Warmer_next 0 \<Longrightarrow> 0 < idle_shortage (ps_pool s) \<Longrightarrow>
    pool_step s (warmer_moves 1 (ps_pool s) (Warmer_called (idle_shortage (ps_pool s))) s)"
| close: "\<not> ps_closed s \<Longrightarrow> ps_sweeping s = None \<Longrightarrow>
    pool_step s (s\<lparr>ps_pool := closeAll (ps_pool s), ps_closed := True\<rparr>)"

inductive pool_reach :: "'m pool_system \<Rightarrow> 'm pool_system \<Rightarrow> bool" for s0 where
  reach_start: "pool_reach s0 s0"
| reach_step: "pool_reach s0 s \<Longrightarrow> pool_step s s' \<Longrightarrow> pool_reach s0 s'"

section \<open>Errors of an exchange\<close>

lemma outcome_permanent: "exchange_outcome (Inl e) \<Longrightarrow> \<not> isTemporaryError e"
  by (metis exchange_outcome_def exchange_error_permanent)

section \<open>Counting\<close>

definition holds :: "'m phase \<Rightarrow> int" where
  "holds ph = (case ph of Dialing \<Rightarrow> 1 | Using _ _ \<Rightarrow> 1 | Redialing _ \<Rightarrow> 1 | Reusing _ _ \<Rightarrow> 1 | _ \<Rightarrow> 0)"

definition held :: "'m phase \<Rightarrow> PooledConnection set" where
  "held ph = (case ph of Using c _ \<Rightarrow> {c} | Reusing c _ \<Rightarrow> {c} | _ \<Rightarrow> {})"

text \<open>A connection that is open and has never failed.\<close>

definition sound :: "PooledConnection \<Rightarrow> bool" where
  "sound c \<longleftrightarrow> \<not> pc_closed c \<and> pc_lastError c = None"

lemmas phase_defs = acquire_def decide_def dialed_def waited_def settle_def retry_def redialed_def resettle_def
  createConnection_def lose_connection_def put_back_def used_def updateAvgLatency_def new_connection_def recordCongestion_def

lemma advance_balance:
  assumes "advance ev ph p = Some (p', ph')"
  shows "cp_activeCount p' - int (length (cp_idleConns p')) - holds ph' = cp_activeCount p - int (length (cp_idleConns p)) - holds ph"
  using assms
  by (cases ph) (auto simp: advance_def phase_defs holds_def Let_def split: list.splits if_splits option.splits sum.splits wait_end.splits)

lemma advance_sound:
  assumes "advance ev ph p = Some (p', ph')" "exchange_outcome (ev_out ev)"
    "\<forall>c \<in> set (cp_idleConns p) \<union> held ph. sound c"
  shows "\<forall>c \<in> set (cp_idleConns p') \<union> held ph'. sound c"
  using assms(1,3) outcome_permanent[of "projl (ev_out ev)"] assms(2)
  by (cases ph) (auto simp: advance_def phase_defs held_def sound_def Let_def split: list.splits if_splits option.splits sum.splits wait_end.splits)

lemma advance_limits:
  assumes "advance ev ph p = Some (p', ph')"
  shows "cp_maxConnections p' = cp_maxConnections p \<and> cp_minConnections p' = cp_minConnections p
    \<and> cp_waitingCount p' = cp_waitingCount p + (if is_waiting ph' then 1 else 0)"
  using assms
  by (cases ph) (auto simp: advance_def phase_defs is_waiting_def Let_def split: list.splits if_splits option.splits sum.splits wait_end.splits)

definition pool_conns :: "'m pool_system \<Rightarrow> PooledConnection set" where
  "pool_conns s = set (cp_idleConns (ps_pool s)) \<union> (\<Union>r \<in> set (ps_requests s). held (cr_phase r)) \<union> set_option (ps_sweeping s)
     \<union> (\<Union>w \<in> set (ps_warmers s). warmer_held w)"

definition in_use :: "'m pool_system \<Rightarrow> int" where
  "in_use s = (\<Sum>r\<leftarrow>ps_requests s. holds (cr_phase r)) + (if ps_sweeping s = None then 0 else 1)"

definition counted :: "'m pool_system \<Rightarrow> bool" where
  "counted s \<longleftrightarrow> cp_activeCount (ps_pool s) + int (ps_uncounted s) = int (length (cp_idleConns (ps_pool s))) + in_use s"

definition waits_counted :: "'m pool_system \<Rightarrow> bool" where
  "waits_counted s \<longleftrightarrow> cp_waitingCount (ps_pool s) = (\<Sum>r\<leftarrow>ps_requests s. cr_waits r)"

definition all_sound :: "'m pool_system \<Rightarrow> bool" where
  "all_sound s \<longleftrightarrow> (\<forall>c \<in> pool_conns s. sound c)"

definition within_limits :: "int \<Rightarrow> ConnectionPool \<Rightarrow> bool" where
  "within_limits m0 p \<longleftrightarrow> cp_minConnections p = 2 \<and> min m0 2 \<le> cp_maxConnections p \<and> cp_maxConnections p \<le> max m0 50"

definition pool_inv :: "int \<Rightarrow> 'm pool_system \<Rightarrow> bool" where
  "pool_inv m0 s \<longleftrightarrow> counted s \<and> waits_counted s \<and> all_sound s \<and> within_limits m0 (ps_pool s)"

lemma sum_list_update_int: "i < length xs \<Longrightarrow> sum_list (map f (xs[i := y])) = sum_list (map f xs) + f y - (f (xs ! i) :: int)"
proof (induction xs arbitrary: i)
  case (Cons x xs)
  then show ?case by (cases i) simp_all
qed simp

lemma length_filter_update:
  "i < length xs \<Longrightarrow> int (length (filter P (xs[i := y]))) = int (length (filter P xs)) + of_bool (P y) - of_bool (P (xs ! i))"
proof (induction xs arbitrary: i)
  case (Cons x xs)
  then show ?case by (cases i) simp_all
qed simp

lemma warmer_moves_fields [simp]:
  "ps_pool (warmer_moves i p w s) = p" "ps_requests (warmer_moves i p w s) = ps_requests s"
  "ps_warmers (warmer_moves i p w s) = (ps_warmers s)[i := w]" "ps_sweeping (warmer_moves i p w s) = ps_sweeping s"
  "ps_closed (warmer_moves i p w s) = ps_closed s"
  by (simp_all add: warmer_moves_def)

lemma in_use_moves [simp]: "in_use (warmer_moves i p w s) = in_use s"
  by (simp add: in_use_def)

lemma counted_moves:
  assumes "i < length (ps_warmers s)" "counted s"
    "cp_activeCount p + of_bool (is_uncounted w) - int (length (cp_idleConns p))
     = cp_activeCount (ps_pool s) + of_bool (is_uncounted (ps_warmers s ! i)) - int (length (cp_idleConns (ps_pool s)))"
  shows "counted (warmer_moves i p w s)"
  using assms(2,3) by (simp add: counted_def ps_uncounted_def length_filter_update[OF assms(1)])

lemma finished_not_waiting: "is_finished ph \<Longrightarrow> \<not> is_waiting ph"
  by (cases ph) (simp_all add: is_finished_def is_waiting_def)

lemma request_step_effect:
  assumes "request_step ev r p = Some (p', r')"
  obtains p1 where "advance ev (cr_phase r) p = Some (p1, cr_phase r')"
    "p' = p1\<lparr>cp_waitingCount := cp_waitingCount p + (cr_waits r' - cr_waits r)\<rparr>"
proof -
  obtain p1 ph where a: "advance ev (cr_phase r) p = Some (p1, ph)"
    using assms by (auto simp: request_step_def split: option.splits)
  note l = advance_limits[OF a]
  have "cr_phase r' = ph \<and> p' = p1\<lparr>cp_waitingCount := cp_waitingCount p + (cr_waits r' - cr_waits r)\<rparr>"
  proof (cases "is_finished ph")
    case True
    then show ?thesis using assms l finished_not_waiting[OF True] by (auto simp: request_step_def a Let_def)
  next
    case False
    then have "p' = p1" "r' = \<lparr>cr_phase = ph, cr_waits = cr_waits r + (if is_waiting ph then 1 else 0)\<rparr>"
      using assms by (simp_all add: request_step_def a Let_def)
    then show ?thesis using l by simp
  qed
  then show thesis using that a by blast
qed

lemma adjust_keeps [simp]:
  "cp_activeCount (adjustPoolSize now p) = cp_activeCount p" "cp_idleConns (adjustPoolSize now p) = cp_idleConns p"
  "cp_waitingCount (adjustPoolSize now p) = cp_waitingCount p"
  by (simp_all add: adjustPoolSize_def Let_def)

lemma adjust_limits: "within_limits m0 p \<Longrightarrow> within_limits m0 (adjustPoolSize now p)"
  by (auto simp: within_limits_def adjustPoolSize_def Let_def MaxConnectionsLimit_def)

text \<open>The other steps change the pool by one of these operations.\<close>

lemmas upkeep_defs = sweep_one_def lose_connection_def createConnection_def warm_send_def warm_count_def closeAll_def

lemma counted_step: "pool_step s s' \<Longrightarrow> counted s \<Longrightarrow> counted s'"
proof (induction rule: pool_step.induct)
  case (request i s ev p' r')
  obtain p1 where a: "advance ev (cr_phase (ps_requests s ! i)) (ps_pool s) = Some (p1, cr_phase r')"
    "p' = p1\<lparr>cp_waitingCount := cp_waitingCount (ps_pool s) + (cr_waits r' - cr_waits (ps_requests s ! i))\<rparr>"
    by (rule request_step_effect[OF request(3)])
  then show ?case
    using advance_balance[OF a(1)] request(4) by (simp add: counted_def ps_uncounted_def in_use_def sum_list_update_int request(1))
next
  case (warm_begins i s n)
  then show ?case by (intro counted_moves) (simp_all add: is_uncounted_def)
next
  case (warm_dials i s n now dial r p')
  then show ?case by (intro counted_moves) (auto simp: is_uncounted_def createConnection_def split: option.splits)
next
  case (warm_sends i s c n sent p')
  then show ?case by (intro counted_moves) (auto simp: is_uncounted_def warm_send_def split: if_splits)
next
  case (warm_counts i s n)
  then show ?case by (intro counted_moves) (simp_all add: is_uncounted_def warm_count_def)
next
  case (health_check s)
  then show ?case by (intro counted_moves) (simp_all add: is_uncounted_def)
qed (auto simp: counted_def ps_uncounted_def in_use_def holds_def upkeep_defs split: if_splits option.splits)

lemma waits_step: "pool_step s s' \<Longrightarrow> waits_counted s \<Longrightarrow> waits_counted s'"
proof (induction rule: pool_step.induct)
  case (request i s ev p' r')
  obtain p1 where "p' = p1\<lparr>cp_waitingCount := cp_waitingCount (ps_pool s) + (cr_waits r' - cr_waits (ps_requests s ! i))\<rparr>"
    by (rule request_step_effect[OF request(3)])
  then show ?case using request(4) by (simp add: waits_counted_def sum_list_update_int request(1))
qed (auto simp: waits_counted_def upkeep_defs split: if_splits option.splits)

lemma all_sound_mono: "all_sound s \<Longrightarrow> pool_conns s' \<subseteq> pool_conns s \<union> {c. sound c} \<Longrightarrow> all_sound s'"
  by (auto simp: all_sound_def)

lemma request_sound:
  assumes "i < length (ps_requests s)" "exchange_outcome (ev_out ev)"
    "request_step ev (ps_requests s ! i) (ps_pool s) = Some (p', r')" "all_sound s"
  shows "all_sound (s\<lparr>ps_pool := p', ps_requests := (ps_requests s)[i := r']\<rparr>)"
proof -
  let ?r = "ps_requests s ! i"
  obtain p1 where a: "advance ev (cr_phase ?r) (ps_pool s) = Some (p1, cr_phase r')"
    "p' = p1\<lparr>cp_waitingCount := cp_waitingCount (ps_pool s) + (cr_waits r' - cr_waits ?r)\<rparr>"
    by (rule request_step_effect[OF assms(3)])
  have "held (cr_phase ?r) \<subseteq> pool_conns s" "set (cp_idleConns (ps_pool s)) \<subseteq> pool_conns s"
    using assms(1) by (auto simp: pool_conns_def)
  then have sub: "\<forall>c \<in> set (cp_idleConns (ps_pool s)) \<union> held (cr_phase ?r). sound c"
    using assms(4) by (meson Un_iff all_sound_def subsetD)
  have new: "set (cp_idleConns p1) \<union> held (cr_phase r') \<subseteq> {c. sound c}"
    using advance_sound[OF a(1) assms(2) sub] by (simp add: subset_iff)
  have "pool_conns (s\<lparr>ps_pool := p', ps_requests := (ps_requests s)[i := r']\<rparr>)
      \<subseteq> pool_conns s \<union> (set (cp_idleConns p1) \<union> held (cr_phase r'))"
  proof -
    have "(\<Union>r \<in> set ((ps_requests s)[i := r']). held (cr_phase r)) \<subseteq> (\<Union>r \<in> insert r' (set (ps_requests s)). held (cr_phase r))"
      by (rule UN_mono[OF set_update_subset_insert]) simp
    then show ?thesis by (auto simp: pool_conns_def a(2))
  qed
  then have "pool_conns (s\<lparr>ps_pool := p', ps_requests := (ps_requests s)[i := r']\<rparr>) \<subseteq> pool_conns s \<union> {c. sound c}"
    using new by (meson Un_mono order.refl order.trans)
  then show ?thesis by (rule all_sound_mono[OF assms(4)])
qed

lemma moves_sound:
  assumes "all_sound s" "set (cp_idleConns p) \<union> warmer_held w \<subseteq> pool_conns s \<union> {c. sound c}"
  shows "all_sound (warmer_moves i p w s)"
proof (rule all_sound_mono[OF assms(1)])
  have "(\<Union>w' \<in> set ((ps_warmers s)[i := w]). warmer_held w') \<subseteq> (\<Union>w' \<in> insert w (set (ps_warmers s)). warmer_held w')"
    by (rule UN_mono[OF set_update_subset_insert]) simp
  then have "pool_conns (warmer_moves i p w s) \<subseteq> pool_conns s \<union> (set (cp_idleConns p) \<union> warmer_held w)"
    by (auto simp: pool_conns_def)
  then show "pool_conns (warmer_moves i p w s) \<subseteq> pool_conns s \<union> {c. sound c}" using assms(2) by blast
qed

lemma warmer_conns: "i < length (ps_warmers s) \<Longrightarrow> ps_warmers s ! i = w \<Longrightarrow>
    set (cp_idleConns (ps_pool s)) \<union> warmer_held w \<subseteq> pool_conns s"
  by (auto simp: pool_conns_def)

lemma sound_step: "pool_step s s' \<Longrightarrow> all_sound s \<Longrightarrow> all_sound s'"
proof (induction rule: pool_step.induct)
  case (request i s ev p' r')
  then show ?case by (intro request_sound)
next
  case (warm_begins i s n)
  then show ?case using warmer_conns[of i s] by (intro moves_sound) (auto simp: warmer_held_def)
next
  case (warm_dials i s n now dial r p')
  then show ?case using warmer_conns[of i s]
    by (intro moves_sound) (auto simp: warmer_held_def createConnection_def sound_def new_connection_def split: option.splits)
next
  case (warm_sends i s c n sent p')
  then show ?case using warmer_conns[of i s]
    by (intro moves_sound) (auto simp: warmer_held_def warm_send_def split: if_splits)
next
  case (warm_counts i s n)
  then show ?case using warmer_conns[of i s] by (intro moves_sound) (auto simp: warmer_held_def warm_count_def)
next
  case (health_check s)
  then show ?case using warmer_conns[of 1 s] by (intro moves_sound) (auto simp: warmer_held_def)
next
  case (sweep_take s c rest)
  then show ?case by (intro all_sound_mono[OF sweep_take(4)]) (auto simp: pool_conns_def)
next
  case (sweep_put s c now p')
  then show ?case by (intro all_sound_mono[OF sweep_put(3)]) (auto simp: pool_conns_def upkeep_defs split: if_splits)
next
  case (close s)
  then show ?case by (intro all_sound_mono[OF close(3)]) (auto simp: pool_conns_def upkeep_defs)
qed (simp_all add: all_sound_def pool_conns_def held_def)

lemma limits_step: "pool_step s s' \<Longrightarrow> within_limits m0 (ps_pool s) \<Longrightarrow> within_limits m0 (ps_pool s')"
proof (induction rule: pool_step.induct)
  case (request i s ev p' r')
  obtain p1 where a: "advance ev (cr_phase (ps_requests s ! i)) (ps_pool s) = Some (p1, cr_phase r')"
    "p' = p1\<lparr>cp_waitingCount := cp_waitingCount (ps_pool s) + (cr_waits r' - cr_waits (ps_requests s ! i))\<rparr>"
    by (rule request_step_effect[OF request(3)])
  then show ?case using advance_limits[OF a(1)] request(4) by (simp add: within_limits_def)
next
  case (adjust s now)
  then show ?case by (simp add: adjust_limits)
qed (auto simp: within_limits_def upkeep_defs split: if_splits option.splits)

lemma pool_inv_step: "pool_step s s' \<Longrightarrow> pool_inv m0 s \<Longrightarrow> pool_inv m0 s'"
  by (simp add: pool_inv_def counted_step waits_step sound_step limits_step)

lemma pool_inv_reach: "pool_reach s0 s \<Longrightarrow> pool_inv m0 s0 \<Longrightarrow> pool_inv m0 s"
  by (induction rule: pool_reach.induct) (auto intro: pool_inv_step)

lemma pool_inv_new:
  "0 < n \<Longrightarrow> pool_inv (cp_maxConnections (NewConnectionPool n a nw m t)) (new_system (NewConnectionPool n a nw m t))"
  by (simp add: pool_inv_def counted_def waits_counted_def all_sound_def within_limits_def new_system_def NewConnectionPool_def
      in_use_def pool_conns_def MinConnections_def ps_uncounted_def is_uncounted_def warmer_held_def)

text \<open>C2: In every interleaving of requests, cleaning, warming up, resizing and closing, the count of
  active connections is the number of idle ones plus those in use or being dialled, short of those a
  warm-up has sent to the channel and not counted yet; the waiting count is the number of waits under way; every idle connection
  is open and has never failed an exchange; and the limit stays within 2 and 50, or the value configured.\<close>

theorem ConnectionPool_counts:
  assumes "0 < numCPU" "p0 = NewConnectionPool numCPU address network maxConns idle"
    "pool_reach (new_system p0) s"
  shows "cp_activeCount (ps_pool s) + int (ps_uncounted s) = int (length (cp_idleConns (ps_pool s))) + in_use s
    \<and> cp_waitingCount (ps_pool s) = (\<Sum>r\<leftarrow>ps_requests s. cr_waits r)
    \<and> (\<forall>c \<in> set (cp_idleConns (ps_pool s)). \<not> pc_closed c \<and> pc_lastError c = None)
    \<and> min (cp_maxConnections p0) 2 \<le> cp_maxConnections (ps_pool s)
    \<and> cp_maxConnections (ps_pool s) \<le> max (cp_maxConnections p0) 50"
proof -
  have "pool_inv (cp_maxConnections p0) s"
    by (rule pool_inv_reach[OF assms(3)]) (unfold assms(2), rule pool_inv_new[OF assms(1)])
  then show ?thesis
    by (simp add: pool_inv_def counted_def waits_counted_def all_sound_def within_limits_def pool_conns_def sound_def)
qed

section \<open>The limit\<close>

lemma reach_trans: "pool_reach s0 s \<Longrightarrow> pool_reach s s' \<Longrightarrow> pool_reach s0 s'"
  by (rotate_tac, induction rule: pool_reach.induct) (auto intro: pool_reach.intros)

lemma failure_possible: "exchange_outcome (Inl (wrap_error ''pack failed'' e) :: go_error + 'm)"
proof -
  let ?w = "\<lparr>wi_pack = (\<lambda>_. Inl e), wi_unpack = (\<lambda>_. Inl e), wi_id = (\<lambda>_. 0)\<rparr> :: 'm wire"
  have "snd (exchangeOnConnection ?w io ctx p msg) = Inl (wrap_error ''pack failed'' e)" for io ctx p msg
    by (simp add: exchangeOnConnection_def)
  then show ?thesis unfolding exchange_outcome_def by metis
qed

text \<open>What a request meets that finds its idle connection silent and whose dial succeeds.\<close>

definition plain_event :: "'m pool_event" where
  "plain_event = \<lparr>ev_now = 0, ev_probe = Some (Transport_error ''i/o timeout'' True (Some True)), ev_dial = None,
     ev_wait = Timer_fired, ev_out = Inl (wrap_error ''pack failed'' Canceled)\<rparr>"

definition same_setting :: "'m pool_system \<Rightarrow> 'm pool_system \<Rightarrow> bool" where
  "same_setting s s' \<longleftrightarrow> cp_maxConnections (ps_pool s') = cp_maxConnections (ps_pool s)
     \<and> cp_minConnections (ps_pool s') = cp_minConnections (ps_pool s)"

lemma same_setting_trans: "same_setting s s' \<Longrightarrow> same_setting s' s'' \<Longrightarrow> same_setting s s''"
  by (simp add: same_setting_def)

text \<open>The system with one more request.\<close>

definition with_request :: "'m pool_system \<Rightarrow> ConnectionPool \<Rightarrow> 'm phase \<Rightarrow> 'm pool_system" where
  "with_request s p ph = s\<lparr>ps_pool := p, ps_requests := ps_requests s @ [\<lparr>cr_phase = ph, cr_waits = 0\<rparr>]\<rparr>"

lemma with_request_arrives: "pool_step s (with_request s (ps_pool s) Begin)"
  using arrive[of s] by (simp add: with_request_def)

lemma with_request_moves:
  assumes "advance plain_event ph p = Some (p', ph')" "\<not> is_waiting ph'" "\<not> is_finished ph'"
  shows "pool_step (with_request s p ph) (with_request s p' ph')"
proof -
  let ?n = "length (ps_requests s)" and ?s = "with_request s p ph" and ?r = "\<lparr>cr_phase = ph', cr_waits = 0\<rparr>"
  have "request_step plain_event (ps_requests ?s ! ?n) (ps_pool ?s) = Some (p', ?r)"
    using assms by (simp add: with_request_def request_step_def)
  then have "pool_step ?s (?s\<lparr>ps_pool := p', ps_requests := (ps_requests ?s)[?n := ?r]\<rparr>)"
    by (intro request) (simp_all add: with_request_def plain_event_def failure_possible)
  then show ?thesis by (simp add: with_request_def)
qed

text \<open>A request that arrives while nothing is idle and the pool is below its limit dials a connection.\<close>

lemma new_request:
  fixes s :: "'m pool_system"
  assumes "cp_idleConns (ps_pool s) = []" "cp_activeCount (ps_pool s) < cp_maxConnections (ps_pool s)"
  shows "\<exists>s'. pool_reach s s' \<and> same_setting s s' \<and> ps_warmers s' = ps_warmers s
    \<and> cp_activeCount (ps_pool s') = cp_activeCount (ps_pool s) + 1 \<and> cp_idleConns (ps_pool s') = []"
proof -
  let ?p = "ps_pool s"
  let ?p1 = "?p\<lparr>cp_totalRequests := cp_totalRequests ?p + 1\<rparr>"
  let ?p2 = "?p1\<lparr>cp_activeCount := cp_activeCount ?p + 1\<rparr>"
  let ?p3 = "?p2\<lparr>cp_totalCreated := cp_totalCreated ?p + 1\<rparr>"
  let ?e = "with_request s ?p3 (Using (new_connection 0) 0)"
  have 1: "pool_step (with_request s ?p Begin) (with_request s ?p1 Decide)"
    by (rule with_request_moves) (simp_all add: advance_def acquire_def assms is_waiting_def is_finished_def)
  have 2: "pool_step (with_request s ?p1 Decide) (with_request s ?p2 Dialing)"
    by (rule with_request_moves) (simp_all add: advance_def decide_def assms is_waiting_def is_finished_def)
  have 3: "pool_step (with_request s ?p2 Dialing) ?e"
    by (rule with_request_moves) (simp_all add: advance_def dialed_def createConnection_def plain_event_def is_waiting_def is_finished_def)
  have "pool_reach s ?e"
    by (rule reach_step[OF reach_step[OF reach_step[OF reach_step[OF reach_start with_request_arrives] 1] 2] 3])
  then show ?thesis by (intro exI[of _ ?e]) (simp add: with_request_def same_setting_def assms)
qed

lemma fill_pool:
  assumes "cp_idleConns (ps_pool s0) = []" "cp_activeCount (ps_pool s0) = 0" "int k \<le> cp_maxConnections (ps_pool s0)"
  shows "\<exists>s. pool_reach s0 s \<and> same_setting s0 s \<and> ps_warmers s = ps_warmers s0
    \<and> cp_activeCount (ps_pool s) = int k \<and> cp_idleConns (ps_pool s) = []"
  using assms(3)
proof (induction k)
  case 0
  show ?case by (rule exI[of _ s0]) (simp add: assms reach_start same_setting_def)
next
  case (Suc k)
  then obtain s where s: "pool_reach s0 s" "same_setting s0 s" "ps_warmers s = ps_warmers s0"
    "cp_activeCount (ps_pool s) = int k" "cp_idleConns (ps_pool s) = []" by auto
  have "cp_activeCount (ps_pool s) < cp_maxConnections (ps_pool s)" using s(2,4) Suc.prems by (simp add: same_setting_def)
  then obtain s' where s': "pool_reach s s'" "same_setting s s'" "ps_warmers s' = ps_warmers s"
    "cp_activeCount (ps_pool s') = int k + 1" "cp_idleConns (ps_pool s') = []"
    using new_request[OF s(5)] s(4) by auto
  show ?case using reach_trans[OF s(1) s'(1)] same_setting_trans[OF s(2) s'(2)] s(3) s'(3-5) by (intro exI[of _ s']) simp
qed

text \<open>Requests take the idle connections first, whatever the limit.\<close>

lemma take_idle:
  "cp_idleConns (ps_pool s) = replicate k (new_connection 0) \<Longrightarrow>
   \<exists>s'. pool_reach s s' \<and> same_setting s s' \<and> ps_warmers s' = ps_warmers s
    \<and> cp_activeCount (ps_pool s') = cp_activeCount (ps_pool s) \<and> cp_idleConns (ps_pool s') = []"
proof (induction k arbitrary: s)
  case 0
  then show ?case by (intro exI[of _ s]) (simp add: reach_start same_setting_def)
next
  case (Suc k)
  let ?p = "(ps_pool s)\<lparr>cp_totalRequests := cp_totalRequests (ps_pool s) + 1, cp_idleConns := replicate k (new_connection 0)\<rparr>"
  let ?s = "with_request s ?p (Using (new_connection 0) 0)"
  have "pool_step (with_request s (ps_pool s) Begin) ?s"
    by (rule with_request_moves)
      (simp_all add: advance_def acquire_def Suc.prems new_connection_def isConnectionStale_def plain_event_def
        is_waiting_def is_finished_def minute_def second_def)
  then have r: "pool_reach s ?s" by (rule reach_step[OF reach_step[OF reach_start with_request_arrives]])
  have f: "same_setting s ?s" "ps_warmers ?s = ps_warmers s" "cp_activeCount (ps_pool ?s) = cp_activeCount (ps_pool s)"
    by (simp_all add: with_request_def same_setting_def)
  have "cp_idleConns (ps_pool ?s) = replicate k (new_connection 0)" by (simp add: with_request_def)
  from Suc.IH[OF this] obtain s' where s': "pool_reach ?s s'" "same_setting ?s s'" "ps_warmers s' = ps_warmers ?s"
    "cp_activeCount (ps_pool s') = cp_activeCount (ps_pool ?s)" "cp_idleConns (ps_pool s') = []" by blast
  show ?case using reach_trans[OF r s'(1)] same_setting_trans[OF f(1) s'(2)] s'(3-5) f(2,3) by (intro exI[of _ s']) simp
qed

text \<open>The rounds of a warm-up add connections until the channel is full, whatever the limit.\<close>

lemma warm_rounds_run:
  "i < length (ps_warmers s) \<Longrightarrow> ps_warmers s ! i = Warmer_next n \<Longrightarrow> cp_idleConns (ps_pool s) = replicate j (new_connection 0) \<Longrightarrow>
   \<exists>s'. pool_reach s s' \<and> same_setting s s' \<and> ps_warmers s' = (ps_warmers s)[i := Warmer_next 0]
    \<and> cp_activeCount (ps_pool s') = cp_activeCount (ps_pool s) + int (min n (MaxConnectionsLimit - j))
    \<and> cp_idleConns (ps_pool s') = replicate (j + min n (MaxConnectionsLimit - j)) (new_connection 0)"
proof (induction n arbitrary: s j)
  case 0
  then have "ps_warmers s = (ps_warmers s)[i := Warmer_next 0]" by (metis list_update_id)
  then show ?case using 0 by (intro exI[of _ s]) (simp add: reach_start same_setting_def)
next
  case (Suc n)
  let ?p = "(ps_pool s)\<lparr>cp_totalCreated := cp_totalCreated (ps_pool s) + 1\<rparr>"
  let ?d = "warmer_moves i ?p (Warmer_holds (new_connection 0) n) s"
  have d: "pool_step s ?d"
    using warm_dials[OF Suc.prems(1,2), of 0 None "Inr (new_connection 0)" ?p] by (simp add: createConnection_def)
  have di: "i < length (ps_warmers ?d)" "ps_warmers ?d ! i = Warmer_holds (new_connection 0) n" using Suc.prems(1) by simp_all
  show ?case
  proof (cases "j < MaxConnectionsLimit")
    case False
    let ?e = "warmer_moves i ?p (Warmer_next n) ?d"
    have "pool_step ?d ?e"
      using warm_sends[OF di, of False ?p] False by (simp add: warm_send_def Suc.prems(3))
    then have r: "pool_reach s ?e" by (rule reach_step[OF reach_step[OF reach_start d]])
    have "i < length (ps_warmers ?e)" "ps_warmers ?e ! i = Warmer_next n"
      "cp_idleConns (ps_pool ?e) = replicate j (new_connection 0)" using Suc.prems by simp_all
    from Suc.IH[OF this] obtain s' where s': "pool_reach ?e s'" "same_setting ?e s'" "ps_warmers s' = (ps_warmers ?e)[i := Warmer_next 0]"
      "cp_activeCount (ps_pool s') = cp_activeCount (ps_pool ?e) + int (min n (MaxConnectionsLimit - j))"
      "cp_idleConns (ps_pool s') = replicate (j + min n (MaxConnectionsLimit - j)) (new_connection 0)" by blast
    show ?thesis using reach_trans[OF r s'(1)] s'(2-5) False by (intro exI[of _ s']) (simp add: same_setting_def)
  next
    case True
    let ?q = "?p\<lparr>cp_idleConns := replicate (Suc j) (new_connection 0)\<rparr>"
    let ?e = "warmer_moves i ?q (Warmer_counts n) ?d" and ?f = "warmer_moves i (warm_count ?q) (Warmer_next n)"
    have e: "pool_step ?d ?e"
      using warm_sends[OF di, of True ?q] True by (simp add: warm_send_def Suc.prems(3) replicate_append_same)
    have "pool_step ?e (?f ?e)"
      using warm_counts[of i ?e n] Suc.prems(1) by simp
    then have r: "pool_reach s (?f ?e)" by (rule reach_step[OF reach_step[OF reach_step[OF reach_start d] e]])
    have "i < length (ps_warmers (?f ?e))" "ps_warmers (?f ?e) ! i = Warmer_next n"
      "cp_idleConns (ps_pool (?f ?e)) = replicate (Suc j) (new_connection 0)" using Suc.prems by (simp_all add: warm_count_def)
    from Suc.IH[OF this] obtain s' where s': "pool_reach (?f ?e) s'" "same_setting (?f ?e) s'"
      "ps_warmers s' = (ps_warmers (?f ?e))[i := Warmer_next 0]"
      "cp_activeCount (ps_pool s') = cp_activeCount (ps_pool (?f ?e)) + int (min n (MaxConnectionsLimit - Suc j))"
      "cp_idleConns (ps_pool s') = replicate (Suc j + min n (MaxConnectionsLimit - Suc j)) (new_connection 0)" by blast
    have m: "min (Suc n) (MaxConnectionsLimit - j) = Suc (min n (MaxConnectionsLimit - Suc j))" using True by simp
    show ?thesis unfolding m using reach_trans[OF r s'(1)] s'(2-5)
      by (intro exI[of _ s']) (simp add: same_setting_def warm_count_def)
  qed
qed

text \<open>A whole warm-up, from the call.\<close>

lemma warm_up_run:
  assumes "i < length (ps_warmers s)" "ps_warmers s ! i = Warmer_called n" "cp_idleConns (ps_pool s) = []"
  shows "\<exists>s'. pool_reach s s' \<and> same_setting s s' \<and> ps_warmers s' = (ps_warmers s)[i := Warmer_next 0]
    \<and> cp_activeCount (ps_pool s') = cp_activeCount (ps_pool s) + int (min (warmup_size n (ps_pool s)) MaxConnectionsLimit)
    \<and> cp_idleConns (ps_pool s') = replicate (min (warmup_size n (ps_pool s)) MaxConnectionsLimit) (new_connection 0)"
proof -
  let ?b = "warmer_moves i (ps_pool s) (Warmer_next (warmup_size n (ps_pool s))) s"
  have r: "pool_reach s ?b" by (rule reach_step[OF reach_start warm_begins[OF assms(1,2)]])
  have "i < length (ps_warmers ?b)" "ps_warmers ?b ! i = Warmer_next (warmup_size n (ps_pool s))"
    "cp_idleConns (ps_pool ?b) = replicate 0 (new_connection 0)" using assms by simp_all
  from warm_rounds_run[OF this] obtain s' where s': "pool_reach ?b s'" "same_setting ?b s'"
    "ps_warmers s' = (ps_warmers ?b)[i := Warmer_next 0]"
    "cp_activeCount (ps_pool s') = cp_activeCount (ps_pool ?b) + int (min (warmup_size n (ps_pool s)) MaxConnectionsLimit)"
    "cp_idleConns (ps_pool s') = replicate (min (warmup_size n (ps_pool s)) MaxConnectionsLimit) (new_connection 0)" by auto
  show ?thesis using reach_trans[OF r s'(1)] s'(2-5) by (intro exI[of _ s']) (simp add: same_setting_def)
qed

text \<open>C32: The limit m does not bound the connections. When m requests hold connections as the pool's
  startup warm-up runs, it adds half of m (at most fifty), counted as active; when requests then hold
  these too, the next health check, which finds nothing idle, adds two more.\<close>

theorem pool_exceeds_limit:
  fixes p0 :: ConnectionPool
  assumes "p0 = NewConnectionPool numCPU address network maxConns idle" "m = cp_maxConnections p0"
  shows "\<exists>s s' :: 'm pool_system. pool_reach (new_system p0) s \<and> pool_reach s s'
    \<and> cp_maxConnections (ps_pool s) = m \<and> cp_maxConnections (ps_pool s') = m \<and> ps_uncounted s = 0 \<and> ps_uncounted s' = 0
    \<and> cp_activeCount (ps_pool s) = m + min (m div 2) 50
    \<and> cp_activeCount (ps_pool s') = m + min (m div 2) 50 + min m 2"
proof -
  let ?s0 = "new_system p0 :: 'm pool_system"
  have m: "0 < m" "cp_minConnections p0 = 2" by (auto simp: assms NewConnectionPool_def MinConnections_def)
  have s0: "cp_idleConns (ps_pool ?s0) = []" "cp_activeCount (ps_pool ?s0) = 0" "ps_pool ?s0 = p0"
    "ps_warmers ?s0 = [Warmer_called (m div 2), Warmer_next 0]"
    using m(1) by (simp_all add: new_system_def assms NewConnectionPool_def initial_warmup_def go_div_def)
  obtain s1 where s1: "pool_reach ?s0 s1" "same_setting ?s0 s1" "ps_warmers s1 = ps_warmers ?s0"
    "cp_activeCount (ps_pool s1) = m" "cp_idleConns (ps_pool s1) = []"
    using fill_pool[OF s0(1,2), of "nat m"] m(1) by (auto simp: s0(3) assms(2)[symmetric])
  have l1: "cp_maxConnections (ps_pool s1) = m" using s1(2) by (simp add: same_setting_def s0(3) assms(2))
  have w1: "0 < length (ps_warmers s1)" "ps_warmers s1 ! 0 = Warmer_called (m div 2)" by (simp_all add: s1(3) s0(4))
  have k: "min (warmup_size (m div 2) (ps_pool s1)) MaxConnectionsLimit = nat (min (m div 2) 50)"
    using m(1) by (auto simp: warmup_size_def l1 MaxConnectionsLimit_def min_def nat_le_iff)
  obtain s2 where s2: "pool_reach s1 s2" "same_setting s1 s2" "ps_warmers s2 = (ps_warmers s1)[0 := Warmer_next 0]"
    "cp_activeCount (ps_pool s2) = m + min (m div 2) 50"
    "cp_idleConns (ps_pool s2) = replicate (nat (min (m div 2) 50)) (new_connection 0)"
    using warm_up_run[OF w1 s1(5)] m(1) unfolding k s1(4) by auto
  obtain s3 where s3: "pool_reach s2 s3" "same_setting s2 s3" "ps_warmers s3 = ps_warmers s2"
    "cp_activeCount (ps_pool s3) = m + min (m div 2) 50" "cp_idleConns (ps_pool s3) = []"
    using take_idle[OF s2(5)] s2(4) by auto
  have w3: "ps_warmers s3 = [Warmer_next 0, Warmer_next 0]" by (simp add: s3(3) s2(3) s1(3) s0(4))
  have l3: "same_setting ?s0 s3" using s1(2) s2(2) s3(2) same_setting_trans by metis
  then have n3: "idle_shortage (ps_pool s3) = 2" "cp_maxConnections (ps_pool s3) = m"
    by (simp_all add: idle_shortage_def s3(5) same_setting_def s0(3) m(2) assms(2))
  let ?s4 = "warmer_moves 1 (ps_pool s3) (Warmer_called 2) s3"
  have 4: "pool_reach s3 ?s4"
    using reach_step[OF reach_start health_check[of s3]] by (simp add: w3 n3)
  have w4: "1 < length (ps_warmers ?s4)" "ps_warmers ?s4 ! 1 = Warmer_called 2" "cp_idleConns (ps_pool ?s4) = []"
    by (simp_all add: w3 s3(5))
  have "int (min (warmup_size 2 (ps_pool ?s4)) MaxConnectionsLimit) = min m 2"
    using m(1) by (simp add: warmup_size_def n3 MaxConnectionsLimit_def min_def nat_le_iff)
  then obtain s5 where s5: "pool_reach ?s4 s5" "same_setting ?s4 s5" "ps_warmers s5 = (ps_warmers ?s4)[1 := Warmer_next 0]"
    "cp_activeCount (ps_pool s5) = m + min (m div 2) 50 + min m 2"
    using warm_up_run[OF w4] s3(4) by auto
  have u: "ps_uncounted s2 = 0" "ps_uncounted s5 = 0"
    by (simp_all add: ps_uncounted_def is_uncounted_def s2(3) s1(3) s0(4) s5(3) w3)
  have l: "cp_maxConnections (ps_pool s2) = m" "cp_maxConnections (ps_pool s5) = m"
    using s2(2) s5(2) by (simp_all add: same_setting_def l1 n3)
  show ?thesis
    by (rule exI[of _ s2], rule exI[of _ s5])
      (simp add: reach_trans[OF s1(1) s2(1)] reach_trans[OF s3(1) reach_trans[OF 4 s5(1)]] u l s2(4) s5(4))
qed

theorem ConnectionPool_counts_witness:
  "cp_activeCount (ps_pool (new_system (NewConnectionPool 4 ''9.9.9.9:53'' ''udp'' 10 0) :: unit pool_system)) = 0"
  using ConnectionPool_counts[OF _ refl reach_start[of "new_system (NewConnectionPool 4 ''9.9.9.9:53'' ''udp'' 10 0) :: unit pool_system"]]
  by (simp add: new_system_def in_use_def NewConnectionPool_def ps_uncounted_def is_uncounted_def)

theorem pool_exceeds_limit_witness:
  "\<exists>s s' :: unit pool_system. pool_reach (new_system (NewConnectionPool 4 ''9.9.9.9:53'' ''udp'' 10 0)) s
     \<and> pool_reach s s' \<and> cp_maxConnections (ps_pool s') = 10
     \<and> cp_activeCount (ps_pool s) = 15 \<and> cp_activeCount (ps_pool s') = 17"
proof -
  let ?p = "NewConnectionPool 4 ''9.9.9.9:53'' ''udp'' 10 0"
  have m: "10 = cp_maxConnections ?p" by (simp add: NewConnectionPool_def)
  obtain s s' :: "unit pool_system" where "pool_reach (new_system ?p) s" "pool_reach s s'"
    "cp_maxConnections (ps_pool s') = 10" "cp_activeCount (ps_pool s) = 10 + min (10 div 2) 50"
    "cp_activeCount (ps_pool s') = 10 + min (10 div 2) 50 + min 10 2"
    using pool_exceeds_limit[OF refl m] by metis
  then show ?thesis by (intro exI[of _ s] exI[of _ s']) simp
qed

end
