(* ===== verification/Transports.thy ===== *)
theory Transports
  imports Conn_Runs
begin

text \<open>The other transports of \<open>upstream/transport/\<close>: the pool of TLS connections (\<open>tls_connection_pool.go\<close>),
  where it differs from \<open>ConnectionPool\<close>, and the clients for UDP, TCP, DoT and DoH. The operations of the TLS
  pool that are not given here repeat those of \<open>ConnectionPool\<close> line by line; its state is the same
  record, with the network \<open>tls\<close>.\<close>

section \<open>TLS pool\<close>

definition NewTLSConnectionPool :: "string \<Rightarrow> int \<Rightarrow> duration \<Rightarrow> ConnectionPool" where
  "NewTLSConnectionPool address maxConnections idleTimeout =
     \<lparr>cp_address = (if SplitHostPort address = None then JoinHostPort address ''853'' else address),
      cp_network = ''tls'', cp_idleConns = [], cp_activeCount = 0,
      cp_maxConnections = (if maxConnections \<le> 0 then 10 else maxConnections),
      cp_idleTimeout = idleTimeout, cp_dialTimeout = 5 * second, cp_readTimeout = 3 * second,
      cp_writeTimeout = 3 * second, cp_minConnections = MinConnections, cp_lastAdjustTime = None,
      cp_fastFailMode = False, cp_totalCreated = 0, cp_totalDestroyed = 0, cp_totalErrors = 0,
      cp_totalRequests = 0, cp_totalCongested = 0, cp_avgLatency = 0, cp_waitingCount = 0\<rparr>"

text \<open>The timeout of the dialler is the time left to the deadline of the context.\<close>

definition tls_dial_timeout :: "instant \<Rightarrow> instant option \<Rightarrow> ConnectionPool \<Rightarrow> duration" where
  "tls_dial_timeout now ctx p = (case ctx of Some d \<Rightarrow> d - now | None \<Rightarrow> cp_dialTimeout p)"

definition tls_createConnection :: "instant \<Rightarrow> (duration \<Rightarrow> go_error option) \<Rightarrow> instant option \<Rightarrow> ConnectionPool \<Rightarrow>
    (go_error + PooledConnection) \<times> ConnectionPool" where
  "tls_createConnection now dial ctx p = (case dial (tls_dial_timeout now ctx p) of
      Some e \<Rightarrow> (Inl (wrap_error ''tls dial failed'' e), p)
    | None \<Rightarrow> (Inr (new_connection now), p\<lparr>cp_totalCreated := cp_totalCreated p + 1\<rparr>))"

text \<open>An idle connection is used without any check but the closed flag.\<close>

definition tls_acquire :: "instant \<Rightarrow> ConnectionPool \<Rightarrow> ConnectionPool \<times> 'm phase" where
  "tls_acquire now p0 = (let p = p0\<lparr>cp_totalRequests := cp_totalRequests p0 + 1\<rparr> in
     (case cp_idleConns p of
        [] \<Rightarrow> (p, Decide)
      | c # rest \<Rightarrow>
         (let p1 = p\<lparr>cp_idleConns := rest\<rparr>
          in if pc_closed c then (p1\<lparr>cp_activeCount := cp_activeCount p1 - 1\<rparr>, Begin) else (p1, Using c now))))"

definition tls_settle :: "instant \<Rightarrow> instant \<Rightarrow> go_error + 'm \<Rightarrow> PooledConnection \<Rightarrow> ConnectionPool \<Rightarrow> ConnectionPool \<times> 'm phase" where
  "tls_settle now start out c p = (case out of
      Inr reply \<Rightarrow> (put_back (used now c) False (updateAvgLatency (now - start) p), Finished out)
    | Inl err \<Rightarrow>
       (if isTemporaryError err then put_back (c\<lparr>pc_lastUsed := now, pc_lastError := Some (err, now)\<rparr>) True p
        else lose_connection True p, Finished out))"

text \<open>\<open>exchangeOnConnection\<close> of the TLS pool: the frame is that of TCP, both parts are written under one
  deadline, and the transaction id of the reply is not compared.\<close>

definition tls_send :: "conn_io \<Rightarrow> 8 word list \<Rightarrow> ConnectionPool \<Rightarrow> conn_op list \<times> go_error option" where
  "tls_send io buf p =
     (let pre = [SetWriteDeadline (io_clock io 1 + cp_writeTimeout p), Write (length_prefix buf)]
      in case io_write io 0 of
           Some e \<Rightarrow> (pre, Some (wrap_error ''write length failed'' e))
         | None \<Rightarrow> (pre @ [Write buf], map_option (wrap_error ''write body failed'') (io_write io 1)))"

definition tls_receive :: "conn_io \<Rightarrow> ConnectionPool \<Rightarrow> conn_op list \<times> (go_error + 8 word list)" where
  "tls_receive io p =
     (let pre = [SetReadDeadline (io_clock io 3 + cp_readTimeout p), Read 2] in
      (case io_readLength io of
         Inl e \<Rightarrow> (pre, Inl (wrap_error ''read resp length failed'' e))
       | Inr l \<Rightarrow> (case validateMessageSize (prefix_length l) of
           Some e \<Rightarrow> (pre, Inl e)
         | None \<Rightarrow> (pre @ [SetReadDeadline (io_clock io 4 + cp_readTimeout p), Read (prefix_length l)],
             case io_readBody io (prefix_length l) of
               Inl e \<Rightarrow> Inl (wrap_error ''read resp body failed'' e) | Inr bs \<Rightarrow> Inr bs))))"

definition tls_exchangeOnConnection :: "'m wire \<Rightarrow> conn_io \<Rightarrow> instant option \<Rightarrow> ConnectionPool \<Rightarrow> 'm \<Rightarrow>
    conn_op list \<times> (go_error + 'm)" where
  "tls_exchangeOnConnection w io ctxDeadline p msg =
     (let start = [SetDeadline (Some (case ctxDeadline of
            Some d \<Rightarrow> d | None \<Rightarrow> io_clock io 0 + (cp_readTimeout p + cp_writeTimeout p)))] in
      (case wi_pack w msg of
         Inl e \<Rightarrow> (start, Inl (wrap_error ''pack failed'' e))
       | Inr buf \<Rightarrow> (case tls_send io buf p of
           (ops, Some e) \<Rightarrow> (start @ ops, Inl e)
         | (ops, None) \<Rightarrow> (case tls_receive io p of
             (ops', Inl e) \<Rightarrow> (start @ ops @ ops', Inl e)
           | (ops', Inr bs) \<Rightarrow> (start @ ops @ ops' @ [SetDeadline None],
               case wi_unpack w bs of Inl e \<Rightarrow> Inl (wrap_error ''unpack failed'' e) | Inr reply \<Rightarrow> Inr reply)))))"

section \<open>Clients\<close>

definition derefOrDefaultVal :: "int option \<Rightarrow> int \<Rightarrow> int" where
  "derefOrDefaultVal ptr defaultValue = (case ptr of Some n \<Rightarrow> n | None \<Rightarrow> defaultValue)"

definition NewTCP :: "int \<Rightarrow> string \<Rightarrow> int option \<Rightarrow> ConnectionPool" where
  "NewTCP numCPU address maxConnections = NewConnectionPool numCPU
     (if SplitHostPort address = None then JoinHostPort address ''53'' else address) ''tcp''
     (derefOrDefaultVal maxConnections 0) (5 * minute)"

definition NewUDP :: "int \<Rightarrow> string \<Rightarrow> int option \<Rightarrow> ConnectionPool" where
  "NewUDP numCPU address maxConnections = NewConnectionPool numCPU
     (if SplitHostPort address = None then JoinHostPort address ''53'' else address) ''udp''
     (derefOrDefaultVal maxConnections 0) (5 * minute)"

text \<open>The size announced in the EDNS option of a query over UDP, which has the option afterwards.\<close>

definition udp_payload_size :: "16 word option \<Rightarrow> 16 word" where
  "udp_payload_size opt = (case opt of None \<Rightarrow> 1232 | Some n \<Rightarrow> if 1232 < n then 1232 else n)"

text \<open>\<open>NewDoT\<close>: the pool and the name the certificate is checked against.\<close>

definition NewDoT :: "string \<Rightarrow> string \<times> ConnectionPool" where
  "NewDoT addr =
     (let (host0, port0) = (case SplitHostPort addr of Some hp \<Rightarrow> hp | None \<Rightarrow> ([], []));
          port = (if port0 = [] then ''853'' else port0);
          host = (if host0 = [] then addr else host0)
      in (host, NewTLSConnectionPool (JoinHostPort host port) 10 (5 * minute)))"

record doh_response =
  dr_StatusCode :: int
  dr_ContentType :: string
  dr_body :: "go_error + 8 word list"

text \<open>\<open>DoH.Exchange\<close>: the HTTP client is a parameter; \<open>set_id\<close> writes the id of a message.\<close>

definition DoH_Exchange :: "'m wire \<Rightarrow> (16 word \<Rightarrow> 'm \<Rightarrow> 'm) \<Rightarrow> (8 word list \<Rightarrow> go_error + doh_response) \<Rightarrow> 'm \<Rightarrow> go_error + 'm" where
  "DoH_Exchange w set_id client msg = (case wi_pack w msg of
      Inl e \<Rightarrow> Inl e
    | Inr buf \<Rightarrow> (case client buf of
        Inl e \<Rightarrow> Inl e
      | Inr resp \<Rightarrow>
         if dr_StatusCode resp \<noteq> 200 then Inl (Err_text (''doh request failed with status: '' @ FormatInt (dr_StatusCode resp)))
         else if dr_ContentType resp \<noteq> ''application/dns-message''
           then Inl (Err_text (''invalid content-type: expected application/dns-message, got '' @ dr_ContentType resp))
         else (case dr_body resp of
             Inl e \<Rightarrow> Inl e
           | Inr bs \<Rightarrow> (case wi_unpack w bs of Inl e \<Rightarrow> Inl e | Inr r \<Rightarrow> Inr (set_id (wi_id w msg) r)))))"

section \<open>Properties\<close>

lemma tls_error_permanent: "snd (tls_exchangeOnConnection w io ctx p msg) = Inl e \<Longrightarrow> \<not> isTemporaryError e"
  by (auto simp: tls_exchangeOnConnection_def tls_send_def tls_receive_def Let_def
      dest: validate_not_temporary split: sum.splits option.splits if_splits prod.splits)

text \<open>Over TLS too every failed exchange drops its connection, but a reply is returned whatever its
  transaction id, where the other pool refuses one of another id.\<close>

theorem tls_reply_unchecked:
  assumes "wi_pack w msg = Inr buf" "\<forall>k. io_write io k = None" "io_readLength io = Inr l" "prefix_length l \<noteq> 0"
    "io_readBody io (prefix_length l) = Inr bs" "wi_unpack w bs = Inr reply"
    and "wi_id w reply \<noteq> wi_id w msg" "cp_network p = ''tcp''"
  shows "snd (tls_exchangeOnConnection w io ctx q msg) = Inr reply
    \<and> isl (snd (exchangeOnConnection w io ctx p msg))
    \<and> (\<forall>io e. snd (tls_exchangeOnConnection w io ctx q msg) = Inl e \<longrightarrow>
         tls_settle now start (Inl e) c q = (lose_connection True q, Finished (Inl e)))"
proof -
  have "prefix_length l \<le> MaxDNSMessageSize"
    using unsigned_less[of "fst l", where 'a = nat] unsigned_less[of "snd l", where 'a = nat]
    by (simp add: prefix_length_def MaxDNSMessageSize_def)
  then have v: "validateMessageSize (prefix_length l) = None" using assms(4) by (simp add: validateMessageSize_def)
  have "snd (tls_exchangeOnConnection w io ctx q msg) = Inr reply"
    using assms v by (simp add: tls_exchangeOnConnection_def tls_send_def tls_receive_def Let_def)
  moreover have "isl (snd (exchangeOnConnection w io ctx p msg))"
    using assms v by (simp add: exchangeOnConnection_def send_request_def receive_reply_def check_reply_def Let_def)
  ultimately show ?thesis by (auto simp: tls_settle_def tls_error_permanent)
qed

definition example_reply :: conn_io where
  "example_reply = \<lparr>io_clock = (\<lambda>k. 0), io_write = (\<lambda>k. None), io_readLength = Inr (0, 1), io_readBody = (\<lambda>n. Inr [0]),
     io_readDatagram = Inr [0]\<rparr>"

theorem tls_reply_unchecked_witness:
  "snd (tls_exchangeOnConnection example_wire example_reply None (NewTLSConnectionPool ''9.9.9.9:853'' 10 0) 5) = Inr 7
   \<and> isl (snd (exchangeOnConnection example_wire example_reply None (NewConnectionPool 4 ''9.9.9.9:53'' ''tcp'' 2 0) 5))"
proof -
  let ?p = "NewConnectionPool 4 ''9.9.9.9:53'' ''tcp'' 2 0" and ?q = "NewTLSConnectionPool ''9.9.9.9:853'' 10 0"
  have "wi_pack example_wire 5 = Inr [0]" "\<forall>k. io_write example_reply k = None" "io_readLength example_reply = Inr (0, 1)"
    "prefix_length (0, 1) \<noteq> 0" "io_readBody example_reply (prefix_length (0, 1)) = Inr [0]" "wi_unpack example_wire [0] = Inr 7"
    "wi_id example_wire 7 \<noteq> wi_id example_wire 5" "cp_network ?p = ''tcp''"
    by (simp_all add: example_wire_def example_reply_def prefix_length_def NewConnectionPool_def)
  from tls_reply_unchecked[OF this, of None ?q] show ?thesis by blast
qed

text \<open>The address of a DoT server without brackets splits into the host and the port it is dialled at.\<close>

lemma NewDoT_address:
  assumes "set host \<inter> {CHR ''['', CHR '']''} = {}" "set port \<inter> {CHR '':'', CHR ''['', CHR '']''} = {}" "host \<noteq> []" "port \<noteq> []"
  shows "NewDoT (JoinHostPort host port) = (host, NewTLSConnectionPool (JoinHostPort host port) 10 (5 * minute))"
  using assms by (simp add: NewDoT_def SplitHostPort_JoinHostPort Let_def)

lemma DoH_id: "DoH_Exchange w set_id client msg = Inr r \<Longrightarrow> (\<And>i m. wi_id w (set_id i m) = i) \<Longrightarrow> wi_id w r = wi_id w msg"
  by (auto simp: DoH_Exchange_def split: sum.splits if_splits)

end
