(* ===== verification/Stats_Windows.thy ===== *)
theory Stats_Windows
  imports Go_Heap Go_Num Sharding Config "HOL-Library.Char_ord" "HOL-Library.List_Lexorder" "HOL-Library.Product_Lexorder"
begin

text \<open>\<open>stats/hotdomains.go\<close> and \<open>stats/blocked_domains.go\<close>: queries per domain in a sliding window, a ring of
  buckets that are split into shards, and the selection of the most frequent domains with a heap. The
  second file repeats the first without the check of the network.\<close>

section \<open>Buckets\<close>

record DomainShard =
  ds_domains :: "(string \<times> int) list"
  ds_size :: int

record TimeBucket =
  tb_timestamp :: "instant option"
  tb_shards :: "DomainShard list"

record HotDomainsTracker =
  hd_cfg :: StatsConfig
  hd_buckets :: "TimeBucket list"
  hd_current :: nat

text \<open>\<open>make\<close> panics for a negative number of shards.\<close>

definition newTimeBucket :: "int \<Rightarrow> TimeBucket option" where
  "newTimeBucket shardCount = (if shardCount < 0 then None
     else Some \<lparr>tb_timestamp = None, tb_shards = replicate (nat shardCount) \<lparr>ds_domains = [], ds_size = 0\<rparr>\<rparr>)"

definition hd_numBuckets :: "StatsConfig \<Rightarrow> nat" where
  "hd_numBuckets cfg = nat (max 1 (go_div
     ((if st_HotDomainsWindowHours cfg \<le> 0 then 24 else st_HotDomainsWindowHours cfg) * 60)
     (if st_HotDomainsBucketMinutes cfg \<le> 0 then 60 else st_HotDomainsBucketMinutes cfg)))"

definition NewHotDomainsTracker :: "instant \<Rightarrow> StatsConfig \<Rightarrow> HotDomainsTracker option" where
  "NewHotDomainsTracker now cfg = map_option (\<lambda>b. \<lparr>hd_cfg = cfg,
      hd_buckets = (replicate (hd_numBuckets cfg) b)[0 := b\<lparr>tb_timestamp := Some now\<rparr>], hd_current = 0\<rparr>)
    (newTimeBucket (st_HotDomainsShardCount cfg))"

text \<open>\<open>RecordQuery\<close>: the remainder by zero shards panics. \<open>healthy\<close> is the verdict of the network
  checker, \<open>None\<close> when there is none.\<close>

definition domain_shard :: "nat \<Rightarrow> string \<Rightarrow> nat" where
  "domain_shard n domain = unat (fnv32a domain) mod n"

definition shard_record :: "int \<Rightarrow> string \<Rightarrow> DomainShard \<Rightarrow> DomainShard" where
  "shard_record maxPerBucket domain sh = (case map_of (ds_domains sh) domain of
      Some _ \<Rightarrow> sh\<lparr>ds_domains := map_value domain (\<lambda>c. c + 1) (ds_domains sh)\<rparr>
    | None \<Rightarrow> if ds_size sh < maxPerBucket
        then sh\<lparr>ds_domains := ds_domains sh @ [(domain, 1)], ds_size := ds_size sh + 1\<rparr> else sh)"

definition bucket_record :: "int \<Rightarrow> string \<Rightarrow> TimeBucket \<Rightarrow> TimeBucket option" where
  "bucket_record maxPerBucket domain b = (let n = length (tb_shards b); i = domain_shard n domain in
     if n = 0 then None
     else Some (b\<lparr>tb_shards := (tb_shards b)[i := shard_record maxPerBucket domain (tb_shards b ! i)]\<rparr>))"

definition hd_RecordQuery :: "bool option \<Rightarrow> string \<Rightarrow> HotDomainsTracker \<Rightarrow> HotDomainsTracker option" where
  "hd_RecordQuery healthy domain t = (if healthy = Some False then Some t
     else map_option (\<lambda>b. t\<lparr>hd_buckets := (hd_buckets t)[hd_current t := b]\<rparr>)
       (bucket_record (st_HotDomainsMaxPerBucket (hd_cfg t)) domain (hd_buckets t ! hd_current t)))"

definition clear_shards :: "TimeBucket \<Rightarrow> TimeBucket" where
  "clear_shards b = b\<lparr>tb_shards := map (\<lambda>sh. \<lparr>ds_domains = [], ds_size = 0\<rparr>) (tb_shards b)\<rparr>"

definition hd_rotateBucket :: "instant \<Rightarrow> HotDomainsTracker \<Rightarrow> HotDomainsTracker" where
  "hd_rotateBucket now t = (let i = (hd_current t + 1) mod length (hd_buckets t) in
     t\<lparr>hd_current := i, hd_buckets := (hd_buckets t)[i := (clear_shards (hd_buckets t ! i))\<lparr>tb_timestamp := Some now\<rparr>]\<rparr>)"

definition hd_rotation_tick :: "bool option \<Rightarrow> instant \<Rightarrow> HotDomainsTracker \<Rightarrow> HotDomainsTracker" where
  "hd_rotation_tick healthy now t = (if healthy = Some False then t else hd_rotateBucket now t)"

definition hd_Reset :: "HotDomainsTracker \<Rightarrow> HotDomainsTracker" where
  "hd_Reset t = t\<lparr>hd_buckets := map clear_shards (hd_buckets t)\<rparr>"

section \<open>The most frequent domains\<close>

record DomainCount =
  dc_Domain :: string
  dc_Count :: int

definition count_less :: "DomainCount \<Rightarrow> DomainCount \<Rightarrow> bool" where
  "count_less a b = (if dc_Count a \<noteq> dc_Count b then dc_Count a < dc_Count b else dc_Domain a > dc_Domain b)"

definition is_better :: "DomainCount \<Rightarrow> DomainCount \<Rightarrow> bool" where
  "is_better x t \<longleftrightarrow> dc_Count x > dc_Count t \<or> dc_Count x = dc_Count t \<and> dc_Domain x < dc_Domain t"

text \<open>The buckets in the order they are visited, the current one first.\<close>

definition hd_view :: "HotDomainsTracker \<Rightarrow> TimeBucket list" where
  "hd_view t = (let n = length (hd_buckets t) in map (\<lambda>i. hd_buckets t ! ((hd_current t + n - i) mod n)) [0..<n])"

definition hd_aggregated :: "HotDomainsTracker \<Rightarrow> (string \<times> int) list" where
  "hd_aggregated t = fold (\<lambda>(d, c). upsert d 0 (\<lambda>v. v + c))
     (concat (map (\<lambda>b. concat (map ds_domains (tb_shards b))) (hd_view t))) []"

definition top_step :: "nat \<Rightarrow> string \<times> int \<Rightarrow> DomainCount list \<Rightarrow> DomainCount list" where
  "top_step k p h = (let x = \<lparr>dc_Domain = fst p, dc_Count = snd p\<rparr> in
     if length h < k then heap_Push count_less x h
     else if is_better x (h ! 0) then heap_Push count_less x (snd (heap_Pop count_less h)) else h)"

fun drain :: "nat \<Rightarrow> DomainCount list \<Rightarrow> DomainCount list" where
  "drain 0 h = []"
| "drain (Suc n) h = fst (heap_Pop count_less h) # drain n (snd (heap_Pop count_less h))"

text \<open>\<open>GetTopDomains\<close>; \<open>shuffle\<close> is the order in which Go visits the map of totals.\<close>

definition GetTopDomains :: "((string \<times> int) list \<Rightarrow> (string \<times> int) list) \<Rightarrow> int \<Rightarrow> HotDomainsTracker \<Rightarrow> DomainCount list" where
  "GetTopDomains shuffle k t = (if k \<le> 0 then []
     else (let h = fold (top_step (nat k)) (shuffle (hd_aggregated t)) (heap_Init count_less [])
           in rev (drain (length h) h)))"

section \<open>Blocked domains\<close>

text \<open>The tracker reads the settings of the hot domains, not those of the blocked domains.\<close>

type_synonym BlockedDomainsTracker = HotDomainsTracker

definition NewBlockedDomainsTracker :: "instant \<Rightarrow> StatsConfig \<Rightarrow> BlockedDomainsTracker option" where
  "NewBlockedDomainsTracker = NewHotDomainsTracker"

definition bd_RecordBlock :: "string \<Rightarrow> BlockedDomainsTracker \<Rightarrow> BlockedDomainsTracker option" where
  "bd_RecordBlock domain t = hd_RecordQuery None domain t"

definition bd_rotateBucket :: "instant \<Rightarrow> BlockedDomainsTracker \<Rightarrow> BlockedDomainsTracker" where
  "bd_rotateBucket = hd_rotateBucket"

definition bd_Reset :: "BlockedDomainsTracker \<Rightarrow> BlockedDomainsTracker" where
  "bd_Reset = hd_Reset"

definition GetTopBlockedDomains :: "((string \<times> int) list \<Rightarrow> (string \<times> int) list) \<Rightarrow> int \<Rightarrow> BlockedDomainsTracker \<Rightarrow> DomainCount list" where
  "GetTopBlockedDomains = GetTopDomains"

section \<open>Selection\<close>

definition rank :: "DomainCount \<Rightarrow> int \<times> string" where
  "rank x = (- dc_Count x, dc_Domain x)"

lemma count_less_rank: "count_less a b \<longleftrightarrow> rank b < rank a"
  by (auto simp: count_less_def rank_def)

lemma is_better_less: "is_better x t \<longleftrightarrow> count_less t x"
  by (auto simp: is_better_def count_less_def)

interpretation top: weak_order count_less
  by unfold_locales (auto simp: count_less_rank)

lemma inj_rank: "inj_on rank A"
  by (auto simp: rank_def inj_on_def)

lemma drain_sorted:
  assumes "heap_ok count_less h"
  shows "mset (drain (length h) h) = mset h \<and> sorted (map rank (rev (drain (length h) h)))"
  using assms
proof (induction "length h" arbitrary: h)
  case (Suc n)
  obtain x h' where p: "heap_Pop count_less h = (x, h')" by force
  note ok = top.heap_Pop_ok[OF Suc.prems _ p]
  have h: "h \<noteq> []" using Suc.hyps(2) by auto
  have n: "n = length h'" using heap_Pop_length[OF h, of count_less] p Suc.hyps(2) by simp
  have ih: "mset (drain n h') = mset h'" "sorted (map rank (rev (drain n h')))"
    using Suc.hyps(1)[OF n ok(3)[OF h]] n by auto
  have "rank y \<le> rank x" if "y \<in> set (drain n h')" for y
  proof -
    have "y \<in> set h'" using that mset_eq_setD[OF ih(1)] by simp
    then show ?thesis using ok(4)[OF h] by (simp add: count_less_rank not_less)
  qed
  then have "sorted (map rank (rev (drain (Suc n) h)))"
    using ih(2) p by (auto simp: sorted_append)
  moreover have "mset (drain (Suc n) h) = mset h" using ok(2)[OF h] ih(1) p by simp
  ultimately show ?case using Suc.hyps(2) by simp
qed simp

definition as_count :: "string \<times> int \<Rightarrow> DomainCount" where
  "as_count p = \<lparr>dc_Domain = fst p, dc_Count = snd p\<rparr>"

text \<open>After some elements, the heap holds the best \<open>k\<close> of them.\<close>

definition holds_best :: "nat \<Rightarrow> DomainCount multiset \<Rightarrow> DomainCount list \<Rightarrow> bool" where
  "holds_best k X h \<longleftrightarrow> heap_ok count_less h \<and> length h = min k (size X)
     \<and> (\<exists>R. X = mset h + R \<and> (\<forall>r \<in># R. \<forall>x \<in> set h. rank x \<le> rank r))"

lemma holds_bestI:
  assumes "heap_ok count_less h" "length h = min k (size X)" "X = mset h + R"
    "\<And>r x. r \<in># R \<Longrightarrow> x \<in> set h \<Longrightarrow> rank x \<le> rank r"
  shows "holds_best k X h"
  using assms unfolding holds_best_def by blast

lemma holds_best_step:
  assumes "holds_best k X h" "0 < k"
  shows "holds_best k (add_mset (as_count p) X) (top_step k p h)"
proof -
  let ?x = "as_count p"
  obtain R where h: "heap_ok count_less h" "length h = min k (size X)" "X = mset h + R"
    and R: "\<forall>r \<in># R. \<forall>x \<in> set h. rank x \<le> rank r" using assms(1) unfolding holds_best_def by blast
  show ?thesis
  proof (cases "length h < k")
    case True
    then have "length h = size X" using h(2) by linarith
    then have "R = {#}" using h(3) by simp
    then have "X = mset h" using h(3) by simp
    moreover have "top_step k p h = heap_Push count_less ?x h" using True by (simp add: top_step_def as_count_def)
    moreover have "length (heap_Push count_less ?x h) = Suc (length h)"
      using arg_cong[OF heap_Push_mset[of count_less ?x h], of size] by simp
    ultimately show ?thesis using True top.heap_Push_ok[OF h(1), of ?x] heap_Push_mset[of count_less ?x h]
      by (intro holds_bestI[where R = "{#}"]) simp_all
  next
    case False
    then have ne: "length h = k" "k \<le> size X" using h(2) by linarith+
    then have ne0: "h \<noteq> []" using assms(2) by auto
    obtain t h' where p: "heap_Pop count_less h = (t, h')" by force
    note ok = top.heap_Pop_ok[OF h(1) ne0 p]
    have l: "length h' = k - 1" using heap_Pop_length[OF ne0, of count_less] p ne(1) by simp
    have t: "rank y \<le> rank t" if y: "y \<in> set h" for y
    proof -
      obtain j where "j < length h" "h ! j = y" using y by (auto simp: in_set_conv_nth)
      then show ?thesis using top.heap_root_min[OF h(1), of j] ok(1) by (simp add: count_less_rank not_less)
    qed
    show ?thesis
    proof (cases "is_better ?x t")
      case True
      then have step: "top_step k p h = heap_Push count_less ?x h'"
        using ne(1) p ok(1) by (simp add: top_step_def as_count_def)
      have "rank y \<le> rank r" if "r \<in># add_mset t R" "y \<in> set (top_step k p h)" for r y
      proof -
        have "set (top_step k p h) = insert ?x (set h')" "set h = insert t (set h')"
          unfolding step using arg_cong[OF heap_Push_mset[of count_less ?x h'], of set_mset] arg_cong[OF ok(2), of set_mset] by simp_all
        then have y: "y = ?x \<or> y \<in> set h" using that(2) by auto
        have xt: "rank ?x < rank t" using True by (simp add: is_better_less count_less_rank)
        have "t \<in> set h" using ok(1) ne0 by simp
        then have "r = t \<or> (\<forall>x \<in> set h. rank x \<le> rank r)" "r = t \<or> rank t \<le> rank r" using that(1) R by auto
        then show ?thesis using y t[of y] xt by (elim disjE) auto
      qed
      note best = this
      have heap: "heap_ok count_less (top_step k p h)" unfolding step by (rule top.heap_Push_ok[OF ok(3)])
      have X: "add_mset ?x X = mset (top_step k p h) + add_mset t R"
        unfolding step using h(3) ok(2) by (simp add: heap_Push_mset)
      have "length (top_step k p h) = k"
        using arg_cong[OF heap_Push_mset[of count_less ?x h'], of size] l assms(2) unfolding step by simp
      then have "length (top_step k p h) = min k (size (add_mset ?x X))" using ne(2) by simp
      then show ?thesis by (rule holds_bestI[OF heap _ X best])
    next
      case False
      then have step: "top_step k p h = h" using ne(1) ok(1) by (simp add: top_step_def as_count_def)
      have tx: "rank t \<le> rank ?x" using False by (simp add: is_better_less count_less_rank not_less)
      have "rank y \<le> rank r" if "r \<in># add_mset ?x R" "y \<in> set h" for r y
        using that R t[OF that(2)] tx by auto
      moreover have "length h = min k (size (add_mset ?x X))" "add_mset ?x X = mset h + add_mset ?x R" using h ne by simp_all
      ultimately show ?thesis unfolding step by (intro holds_bestI[OF h(1)])
    qed
  qed
qed

lemma holds_best_fold:
  assumes "holds_best k X h" "0 < k"
  shows "holds_best k (mset (map as_count ps) + X) (fold (top_step k) ps h)"
  using assms
proof (induction ps arbitrary: X h)
  case (Cons p ps)
  show ?case using Cons.IH[OF holds_best_step[OF Cons.prems]] Cons.prems by simp
qed simp

lemma top_k:
  assumes "0 < k" "h = fold (top_step k) ps (heap_Init count_less [])"
  shows "rev (drain (length h) h) = take k (sort_key rank (map as_count ps))"
proof -
  let ?X = "mset (map as_count ps)"
  have "holds_best k {#} (heap_Init count_less [])"
    using heap_Init_mset[of count_less "[]"] top.heap_Init_ok[of "[]"] by (auto simp: holds_best_def)
  then have "holds_best k ?X h" using holds_best_fold[of k "{#}" _ ps] assms by simp
  then obtain R where h: "heap_ok count_less h" "length h = min k (length ps)" "?X = mset h + R"
    and R: "\<forall>r \<in># R. \<forall>x \<in> set h. rank x \<le> rank r" by (auto simp: holds_best_def)
  note d = drain_sorted[OF h(1)]
  let ?T = "rev (drain (length h) h)"
  obtain rs where rs: "mset rs = R" by (metis ex_mset)
  have set: "set (drain (length h) h) = set h" using mset_eq_setD[OF conjunct1[OF d]] .
  have "sorted (map rank (?T @ sort_key rank rs))"
    unfolding map_append sorted_append using d R set rs by auto
  moreover have "mset (map as_count ps) = mset (?T @ sort_key rank rs)"
    using h(3) rs d by simp
  ultimately have "sort_key rank (map as_count ps) = ?T @ sort_key rank rs"
    by (intro sort_key_inj_key_eq[OF _ inj_rank])
  moreover have "length ?T = min k (length ps)" using arg_cong[OF conjunct1[OF d], of size] h(2) by simp
  moreover have "rs = []" if "length ps < k"
    using that arg_cong[OF h(3), of size] h(2) rs by (metis add_left_cancel length_0_conv length_map min.absorb4 nat_arith.rule0 size_mset size_union)
  ultimately show ?thesis by (cases "length ps < k") auto
qed

section \<open>The window\<close>

text \<open>What happens to a tracker, and the queries of each bucket, the current one first.\<close>

datatype hd_event = Hd_query "bool option" string | Hd_tick "bool option" instant | Hd_reset

definition hd_step :: "hd_event \<Rightarrow> HotDomainsTracker \<Rightarrow> HotDomainsTracker option" where
  "hd_step e t = (case e of Hd_query healthy d \<Rightarrow> hd_RecordQuery healthy d t
     | Hd_tick healthy now \<Rightarrow> Some (hd_rotation_tick healthy now t) | Hd_reset \<Rightarrow> Some (hd_Reset t))"

fun hd_run :: "hd_event list \<Rightarrow> HotDomainsTracker \<Rightarrow> HotDomainsTracker option" where
  "hd_run [] t = Some t"
| "hd_run (e # es) t = Option.bind (hd_step e t) (hd_run es)"

definition window_step :: "hd_event \<Rightarrow> string list list \<Rightarrow> string list list" where
  "window_step e w = (case e of
      Hd_query healthy d \<Rightarrow> if healthy = Some False then w else (d # hd w) # tl w
    | Hd_tick healthy now \<Rightarrow> if healthy = Some False then w else [] # butlast w
    | Hd_reset \<Rightarrow> map (\<lambda>_. []) w)"

definition shard_ok :: "int \<Rightarrow> string list \<Rightarrow> DomainShard \<Rightarrow> bool" where
  "shard_ok m ds sh \<longleftrightarrow> distinct (keys_of (ds_domains sh)) \<and> ds_size sh = int (length (ds_domains sh))
     \<and> set (keys_of (ds_domains sh)) \<subseteq> set ds
     \<and> (int (card (set ds)) \<le> m \<longrightarrow> (\<forall>d \<in> set ds. map_of (ds_domains sh) d = Some (int (count_list ds d))))"

definition shard_log :: "nat \<Rightarrow> nat \<Rightarrow> string list \<Rightarrow> string list" where
  "shard_log k j qs = filter (\<lambda>d. domain_shard k d = j) qs"

definition bucket_ok :: "nat \<Rightarrow> int \<Rightarrow> string list \<Rightarrow> TimeBucket \<Rightarrow> bool" where
  "bucket_ok k m qs b \<longleftrightarrow> length (tb_shards b) = k \<and> (\<forall>j < k. shard_ok m (shard_log k j qs) (tb_shards b ! j))"

lemma shard_record_ok:
  assumes "shard_ok m ds sh"
  shows "shard_ok m (d # ds) (shard_record m d sh)"
proof (cases "map_of (ds_domains sh) d")
  case None
  have new: "d \<notin> set (keys_of (ds_domains sh))" using None by (simp add: map_of_eq_None_keys)
  show ?thesis
  proof (cases "int (card (set (d # ds))) \<le> m")
    case False
    then show ?thesis using assms None new by (auto simp: shard_ok_def shard_record_def)
  next
    case True
    have "card (set ds) \<le> card (set (d # ds))" by (rule card_mono) auto
    then have c: "int (card (set ds)) \<le> m" using True by linarith
    then have all: "\<forall>e \<in> set ds. map_of (ds_domains sh) e = Some (int (count_list ds e))"
      using assms by (simp add: shard_ok_def)
    then have out: "d \<notin> set ds" using None by force
    then have n0: "count_list ds d = 0" by (simp add: count_list_0_iff)
    have "set ds \<subseteq> set (keys_of (ds_domains sh))" using all map_of_Some_keys by fast
    then have keys: "set (keys_of (ds_domains sh)) = set ds" using assms unfolding shard_ok_def by blast
    have "length (ds_domains sh) = card (set ds)"
      using assms distinct_card[of "keys_of (ds_domains sh)"] unfolding shard_ok_def keys by simp
    then have "ds_size sh < m" using assms True out by (simp add: shard_ok_def)
    then have r: "shard_record m d sh = sh\<lparr>ds_domains := ds_domains sh @ [(d, 1)], ds_size := ds_size sh + 1\<rparr>"
      using None by (simp add: shard_record_def)
    have "map_of (ds_domains sh @ [(d, 1)]) e = Some (int (count_list (d # ds) e))" if "e \<in> set (d # ds)" for e
      using that all None n0 by (cases "e = d") (auto simp: map_add_def)
    then show ?thesis using assms new keys unfolding r shard_ok_def by simp
  qed
next
  case (Some c)
  have "card (set ds) \<le> card (set (d # ds))" by (rule card_mono) auto
  moreover have "d \<in> set ds" using assms map_of_Some_keys[OF Some] by (auto simp: shard_ok_def)
  ultimately show ?thesis using assms Some by (auto simp: shard_ok_def shard_record_def insert_absorb)
qed

lemma bucket_record_ok:
  assumes "bucket_ok k m qs b" "0 < k"
  shows "\<exists>b'. bucket_record m d b = Some b' \<and> bucket_ok k m (d # qs) b'"
proof -
  have "domain_shard k d < k" using assms(2) by (simp add: domain_shard_def)
  then show ?thesis
    using assms shard_record_ok[of m "shard_log k (domain_shard k d) qs" "tb_shards b ! domain_shard k d" d]
    by (auto simp: bucket_ok_def bucket_record_def Let_def nth_list_update shard_log_def)
qed

lemma shard_ok_empty: "shard_ok m [] \<lparr>ds_domains = [], ds_size = 0\<rparr>"
  by (simp add: shard_ok_def)

lemma bucket_ok_clear: "bucket_ok k m qs b \<Longrightarrow> bucket_ok k m [] (clear_shards b)"
  by (simp add: bucket_ok_def clear_shards_def shard_log_def shard_ok_empty)

lemma bucket_ok_timestamp [simp]: "bucket_ok k m qs (b\<lparr>tb_timestamp := t\<rparr>) = bucket_ok k m qs b"
  by (simp add: bucket_ok_def)

subsection \<open>The ring\<close>

definition ring_index :: "nat \<Rightarrow> nat \<Rightarrow> nat \<Rightarrow> nat" where
  "ring_index c n i = (c + n - i) mod n"

lemma hd_view_ring: "hd_view t = map (\<lambda>i. hd_buckets t ! ring_index (hd_current t) (length (hd_buckets t)) i) [0..<length (hd_buckets t)]"
  by (simp add: hd_view_def ring_index_def Let_def)

lemma ring_index_cases: "c < n \<Longrightarrow> i < n \<Longrightarrow> ring_index c n i = (if i \<le> c then c - i else c + n - i)"
  by (auto simp: ring_index_def mod_if)

lemma ring_index_next:
  assumes "c < n" "Suc i < n"
  shows "ring_index ((c + 1) mod n) n (Suc i) = ring_index c n i \<and> ring_index c n i \<noteq> (c + 1) mod n"
proof (cases "c + 1 = n")
  case True
  then show ?thesis using assms by (simp add: ring_index_cases)
next
  case False
  then have "(c + 1) mod n = c + 1" using assms by simp
  then show ?thesis using assms False by (auto simp: ring_index_cases)
qed

definition hd_ring :: "HotDomainsTracker \<Rightarrow> bool" where
  "hd_ring t \<longleftrightarrow> hd_current t < length (hd_buckets t)"

lemma hd_view_current: "hd_ring t \<Longrightarrow> hd_view t \<noteq> [] \<and> hd (hd_view t) = hd_buckets t ! hd_current t"
  by (cases "length (hd_buckets t)") (auto simp: hd_view_ring hd_ring_def ring_index_cases upt_rec simp del: upt_Suc)

lemma hd_view_set_current:
  assumes "hd_ring t"
  shows "hd_view (t\<lparr>hd_buckets := (hd_buckets t)[hd_current t := b]\<rparr>) = b # tl (hd_view t)"
proof (rule nth_equalityI)
  fix i assume i: "i < length (hd_view (t\<lparr>hd_buckets := (hd_buckets t)[hd_current t := b]\<rparr>))"
  then have i: "i < length (hd_buckets t)" by (simp add: hd_view_ring)
  show "hd_view (t\<lparr>hd_buckets := (hd_buckets t)[hd_current t := b]\<rparr>) ! i = (b # tl (hd_view t)) ! i"
  proof (cases i)
    case 0
    then show ?thesis using assms i by (simp add: hd_view_ring hd_ring_def ring_index_cases)
  next
    case (Suc j)
    have "ring_index (hd_current t) (length (hd_buckets t)) i \<noteq> hd_current t"
      using assms i Suc by (auto simp: hd_ring_def ring_index_cases)
    then show ?thesis using i Suc by (simp add: hd_view_ring nth_tl)
  qed
qed (use assms in \<open>auto simp: hd_view_ring hd_ring_def Suc_leI\<close>)

lemma hd_view_rotate:
  assumes "hd_ring t"
  shows "\<exists>b \<in> set (hd_view t). hd_view (hd_rotateBucket now t) = (clear_shards b)\<lparr>tb_timestamp := Some now\<rparr> # butlast (hd_view t)"
proof -
  let ?n = "length (hd_buckets t)" and ?c = "hd_current t"
  let ?c' = "(?c + 1) mod ?n"
  let ?b = "hd_buckets t ! ?c'" and ?t = "hd_rotateBucket now t"
  have c: "?c < ?n" using assms by (simp add: hd_ring_def)
  have c': "?c' < ?n" using c by (intro mod_less_divisor) linarith
  have t: "hd_current ?t = ?c'" "hd_buckets ?t = (hd_buckets t)[?c' := (clear_shards ?b)\<lparr>tb_timestamp := Some now\<rparr>]"
    by (simp_all add: hd_rotateBucket_def Let_def)
  have "ring_index ?c ?n (?n - 1) = ?c'" using c by (cases "?c + 1 = ?n") (auto simp: ring_index_cases)
  then have "hd_view t ! (?n - 1) = ?b" using c by (simp add: hd_view_ring)
  moreover have "?n - 1 < length (hd_view t)" using c by (simp add: hd_view_ring)
  ultimately have mem: "?b \<in> set (hd_view t)" using nth_mem by metis
  have "hd_view ?t = (clear_shards ?b)\<lparr>tb_timestamp := Some now\<rparr> # butlast (hd_view t)"
  proof (rule nth_equalityI)
    fix i assume "i < length (hd_view ?t)"
    then have i: "i < ?n" by (simp add: hd_view_ring t)
    show "hd_view ?t ! i = ((clear_shards ?b)\<lparr>tb_timestamp := Some now\<rparr> # butlast (hd_view t)) ! i"
    proof (cases i)
      case 0
      have "ring_index ?c' ?n 0 = ?c'" using ring_index_cases[OF c', of 0] c by (cases ?n) auto
      then show ?thesis using 0 c c' i by (simp add: hd_view_ring t)
    next
      case (Suc j)
      have "Suc j < ?n" using i Suc by simp
      then show ?thesis
        using ring_index_next[OF c, of j] Suc i by (simp add: hd_view_ring t nth_butlast)
    qed
  qed (use c in \<open>simp add: hd_view_ring t\<close>)
  then show ?thesis using mem by blast
qed

lemma hd_view_Reset: "hd_ring t \<Longrightarrow> hd_view (hd_Reset t) = map clear_shards (hd_view t)"
  by (cases "length (hd_buckets t)") (auto simp: hd_view_ring hd_Reset_def hd_ring_def ring_index_def intro!: nth_map)

subsection \<open>Runs\<close>

definition window_sim :: "nat \<Rightarrow> string list list \<Rightarrow> HotDomainsTracker \<Rightarrow> bool" where
  "window_sim k w t \<longleftrightarrow> hd_ring t \<and> list_all2 (bucket_ok k (st_HotDomainsMaxPerBucket (hd_cfg t))) w (hd_view t)"

lemma hd_ring_rotate: "hd_ring t \<Longrightarrow> hd_ring (hd_rotateBucket now t)"
  unfolding hd_ring_def hd_rotateBucket_def Let_def by (auto intro!: mod_less_divisor)

lemma hd_query_sim:
  assumes "window_sim k w t" "0 < k"
  shows "\<exists>t'. hd_RecordQuery healthy d t = Some t' \<and> window_sim k (window_step (Hd_query healthy d) w) t' \<and> hd_cfg t' = hd_cfg t"
proof (cases "healthy = Some False")
  case False
  let ?m = "st_HotDomainsMaxPerBucket (hd_cfg t)"
  have r: "hd_ring t" and a: "list_all2 (bucket_ok k ?m) w (hd_view t)" using assms(1) by (simp_all add: window_sim_def)
  obtain q w' where w: "w = q # w'" using a hd_view_current[OF r] by (cases w) auto
  have "bucket_ok k ?m q (hd_buckets t ! hd_current t)" "list_all2 (bucket_ok k ?m) w' (tl (hd_view t))"
    using a hd_view_current[OF r] unfolding w by (cases "hd_view t"; simp)+
  moreover obtain b' where "bucket_record ?m d (hd_buckets t ! hd_current t) = Some b'" "bucket_ok k ?m (d # q) b'"
    using bucket_record_ok[OF calculation(1) assms(2)] by blast
  ultimately show ?thesis
    using False r hd_view_set_current[OF r, of b']
    by (auto simp: hd_RecordQuery_def window_sim_def window_step_def w hd_ring_def)
qed (use assms in \<open>simp add: hd_RecordQuery_def window_step_def\<close>)

lemma hd_tick_sim:
  assumes "window_sim k w t"
  shows "window_sim k (window_step (Hd_tick healthy now) w) (hd_rotation_tick healthy now t)"
proof (cases "healthy = Some False")
  case False
  have r: "hd_ring t" and a: "list_all2 (bucket_ok k (st_HotDomainsMaxPerBucket (hd_cfg t))) w (hd_view t)"
    using assms by (simp_all add: window_sim_def)
  obtain b where b: "b \<in> set (hd_view t)" "hd_view (hd_rotateBucket now t) = (clear_shards b)\<lparr>tb_timestamp := Some now\<rparr> # butlast (hd_view t)"
    using hd_view_rotate[OF r] by blast
  obtain q where "bucket_ok k (st_HotDomainsMaxPerBucket (hd_cfg t)) q b"
    using a b(1) by (metis in_set_conv_nth list_all2_conv_all_nth)
  moreover have "list_all2 (bucket_ok k (st_HotDomainsMaxPerBucket (hd_cfg t))) (butlast w) (butlast (hd_view t))"
    using a by (simp add: butlast_conv_take list_all2_lengthD list_all2_takeI)
  moreover have "hd_cfg (hd_rotateBucket now t) = hd_cfg t" by (simp add: hd_rotateBucket_def Let_def)
  ultimately show ?thesis
    using False hd_ring_rotate[OF r] b(2)
    by (auto simp: window_sim_def window_step_def hd_rotation_tick_def intro: bucket_ok_clear)
qed (use assms in \<open>simp add: hd_rotation_tick_def window_step_def\<close>)

lemma hd_step_sim:
  assumes "window_sim k w t" "0 < k"
  shows "\<exists>t'. hd_step e t = Some t' \<and> window_sim k (window_step e w) t' \<and> hd_cfg t' = hd_cfg t"
proof (cases e)
  case Hd_reset
  then show ?thesis using assms
    by (auto simp: window_sim_def hd_step_def window_step_def hd_view_Reset list_all2_conv_all_nth)
      (use bucket_ok_clear in \<open>auto simp: hd_ring_def hd_Reset_def\<close>)
qed (use hd_query_sim[OF assms] hd_tick_sim[OF assms(1)] in
  \<open>auto simp: hd_step_def hd_rotation_tick_def hd_rotateBucket_def Let_def\<close>)

lemma hd_run_sim:
  assumes "window_sim k w t" "0 < k"
  shows "\<exists>t'. hd_run es t = Some t' \<and> window_sim k (fold window_step es w) t' \<and> hd_cfg t' = hd_cfg t"
  using assms(1)
proof (induction es arbitrary: w t)
  case (Cons e es)
  obtain t1 where "hd_step e t = Some t1" "window_sim k (window_step e w) t1" "hd_cfg t1 = hd_cfg t"
    using hd_step_sim[OF Cons.prems assms(2)] by blast
  then show ?case using Cons.IH by fastforce
qed simp

lemma new_tracker_sim:
  assumes "NewHotDomainsTracker now cfg = Some t"
  shows "window_sim (nat (st_HotDomainsShardCount cfg)) (replicate (hd_numBuckets cfg) []) t \<and> hd_cfg t = cfg"
proof -
  let ?k = "nat (st_HotDomainsShardCount cfg)" and ?m = "st_HotDomainsMaxPerBucket cfg"
  have pos: "0 < hd_numBuckets cfg" by (simp add: hd_numBuckets_def)
  obtain b where b: "newTimeBucket (st_HotDomainsShardCount cfg) = Some b"
    and t: "t = \<lparr>hd_cfg = cfg, hd_buckets = (replicate (hd_numBuckets cfg) b)[0 := b\<lparr>tb_timestamp := Some now\<rparr>], hd_current = 0\<rparr>"
    using assms by (auto simp: NewHotDomainsTracker_def)
  have ok: "bucket_ok ?k ?m [] b"
    using b by (auto simp: newTimeBucket_def bucket_ok_def shard_log_def shard_ok_empty split: if_splits)
  have "\<forall>x \<in> set (hd_buckets t). bucket_ok ?k ?m [] x"
    using ok set_update_subset_insert[of "replicate (hd_numBuckets cfg) b" 0 "b\<lparr>tb_timestamp := Some now\<rparr>"] by (auto simp: t)
  moreover have "hd_ring t" using pos by (simp add: hd_ring_def t)
  moreover have "set (hd_view t) \<subseteq> set (hd_buckets t)" "length (hd_view t) = hd_numBuckets cfg"
    using pos by (auto simp: hd_view_ring t ring_index_def intro!: nth_mem)
  ultimately show ?thesis
    by (auto simp: window_sim_def list_all2_conv_all_nth t subset_iff)
qed

subsection \<open>Totals\<close>

definition entry_sum :: "string \<Rightarrow> (string \<times> int) list \<Rightarrow> int" where
  "entry_sum d xs = (\<Sum>(e, c)\<leftarrow>xs. if e = d then c else 0)"

lemma entry_sum_simps [simp]: "entry_sum d [] = 0" "entry_sum d ((e, c) # xs) = (if e = d then c else 0) + entry_sum d xs"
  "entry_sum d (xs @ ys) = entry_sum d xs + entry_sum d ys"
  by (simp_all add: entry_sum_def)

lemma entry_sum_map_of: "distinct (keys_of xs) \<Longrightarrow> entry_sum d xs = (case map_of xs d of None \<Rightarrow> 0 | Some c \<Rightarrow> c)"
proof (induction xs)
  case (Cons p xs)
  have "entry_sum d xs = 0" if "d \<notin> set (keys_of xs)" using that by (induction xs) auto
  then show ?case using Cons by (cases p) (auto split: option.split)
qed simp

lemma aggregated_map:
  assumes "distinct (keys_of acc)"
  shows "distinct (keys_of (fold (\<lambda>(d, c). upsert d 0 (\<lambda>v. v + c)) xs acc))
    \<and> map_of (fold (\<lambda>(d, c). upsert d 0 (\<lambda>v. v + c)) xs acc) d =
       (if d \<in> set (keys_of xs) then Some ((case map_of acc d of None \<Rightarrow> 0 | Some v \<Rightarrow> v) + entry_sum d xs) else map_of acc d)"
  using assms
proof (induction xs arbitrary: acc)
  case (Cons p xs)
  obtain e c where p: "p = (e, c)" by force
  have "entry_sum d xs = 0" if "d \<notin> set (keys_of xs)" using that by (induction xs) auto
  then show ?case using Cons.IH[of "upsert e 0 (\<lambda>v. v + c) acc"] Cons.prems p by (auto split: option.split)
qed simp

definition bucket_entries :: "TimeBucket \<Rightarrow> (string \<times> int) list" where
  "bucket_entries b = concat (map ds_domains (tb_shards b))"

lemma count_shard_log: "count_list (shard_log k j qs) d = (if domain_shard k d = j then count_list qs d else 0)"
  by (induction qs) (auto simp: shard_log_def)

lemma bucket_entries_exact:
  assumes b: "bucket_ok k m qs b" and fits: "\<forall>j < k. int (card (set (shard_log k j qs))) \<le> m" and "0 < k"
  shows "entry_sum d (bucket_entries b) = int (count_list qs d)" "set (keys_of (bucket_entries b)) = set qs"
proof -
  let ?j = "domain_shard k d" and ?L = "\<lambda>j. shard_log k j qs"
  have sh: "shard_ok m (?L j) (tb_shards b ! j)" if "j < k" for j using b that by (simp add: bucket_ok_def)
  have ex: "map_of (ds_domains (tb_shards b ! j)) e = Some (int (count_list (?L j) e))" if "j < k" "e \<in> set (?L j)" for j e
    using sh[OF that(1)] fits that unfolding shard_ok_def by blast
  have keys: "set (keys_of (ds_domains (tb_shards b ! j))) = set (?L j)" if "j < k" for j
    using sh[OF that] ex[OF that] map_of_Some_keys unfolding shard_ok_def by fast
  have len: "length (tb_shards b) = k" using b by (simp add: bucket_ok_def)
  have per: "entry_sum d (ds_domains (tb_shards b ! j)) = (if j = ?j then int (count_list qs d) else 0)" if "j < k" for j
  proof (cases "d \<in> set (?L j)")
    case True
    then have "j = ?j" by (simp add: shard_log_def)
    moreover have "distinct (keys_of (ds_domains (tb_shards b ! j)))" using sh[OF that] by (simp add: shard_ok_def)
    ultimately show ?thesis using ex[OF that True] by (simp add: entry_sum_map_of count_shard_log)
  next
    case False
    then have "map_of (ds_domains (tb_shards b ! j)) d = None" using keys[OF that] by (simp add: map_of_eq_None_keys)
    moreover have "j = ?j \<Longrightarrow> count_list qs d = 0" using False by (auto simp: shard_log_def count_list_0_iff)
    ultimately show ?thesis using sh[OF that] by (simp add: shard_ok_def entry_sum_map_of)
  qed
  have "entry_sum d (concat xss) = (\<Sum>xs\<leftarrow>xss. entry_sum d xs)" for xss by (induction xss) auto
  then have "entry_sum d (bucket_entries b) = (\<Sum>j<k. entry_sum d (ds_domains (tb_shards b ! j)))"
    by (simp add: bucket_entries_def sum_list_sum_nth len atLeast0LessThan)
  also have "\<dots> = (\<Sum>j<k. if j = ?j then int (count_list qs d) else 0)" using per by (intro sum.cong) simp_all
  also have "\<dots> = int (count_list qs d)" using assms(3) sum.delta[of "{..<k}" ?j "\<lambda>_. int (count_list qs d)"]
    by (simp add: domain_shard_def)
  finally show "entry_sum d (bucket_entries b) = int (count_list qs d)" .
  have "set (keys_of (concat xss)) = (\<Union>xs\<in>set xss. set (keys_of xs))" for xss :: "(string \<times> int) list list"
    by (induction xss) auto
  moreover have "set (tb_shards b) = (\<lambda>j. tb_shards b ! j) ` {..<k}" using len by (auto simp: set_conv_nth)
  ultimately have "set (keys_of (bucket_entries b)) = (\<Union>j<k. set (keys_of (ds_domains (tb_shards b ! j))))"
    unfolding bucket_entries_def by simp
  also have "\<dots> = (\<Union>j<k. set (?L j))" using keys by auto
  also have "\<dots> = set qs" using assms(3) by (auto simp: shard_log_def domain_shard_def)
  finally show "set (keys_of (bucket_entries b)) = set qs" .
qed

lemma view_entries_exact:
  assumes "list_all2 (bucket_ok k m) w bs" "\<forall>qs \<in> set w. \<forall>j < k. int (card (set (shard_log k j qs))) \<le> m" "0 < k"
  shows "entry_sum d (concat (map bucket_entries bs)) = int (count_list (concat w) d)
    \<and> set (keys_of (concat (map bucket_entries bs))) = set (concat w)"
  using assms(1,2)
proof (induction w bs)
  case (Cons q w b bs)
  have "count_list (xs @ ys) d = count_list xs d + count_list ys d" for xs ys by (induction xs) auto
  then show ?case using Cons bucket_entries_exact[OF Cons.hyps(1) _ assms(3)] by simp
qed simp

definition domain_count :: "string list \<Rightarrow> string \<Rightarrow> DomainCount" where
  "domain_count qs d = \<lparr>dc_Domain = d, dc_Count = int (count_list qs d)\<rparr>"

lemma aggregated_exact:
  assumes "window_sim k w t" "\<forall>qs \<in> set w. \<forall>j < k. int (card (set (shard_log k j qs))) \<le> st_HotDomainsMaxPerBucket (hd_cfg t)" "0 < k"
  shows "mset (map as_count (hd_aggregated t)) = mset (map (domain_count (concat w)) (remdups (concat w)))"
proof -
  let ?es = "concat (map bucket_entries (hd_view t))"
  have ag: "hd_aggregated t = fold (\<lambda>(d, c). upsert d 0 (\<lambda>v. v + c)) ?es []"
    by (simp add: hd_aggregated_def bucket_entries_def[abs_def])
  note v = view_entries_exact[OF _ assms(2,3), of "hd_view t"]
  have sim: "list_all2 (bucket_ok k (st_HotDomainsMaxPerBucket (hd_cfg t))) w (hd_view t)" using assms(1) by (simp add: window_sim_def)
  have m: "map_of (hd_aggregated t) d = (if d \<in> set (concat w) then Some (int (count_list (concat w) d)) else None)" for d
    using aggregated_map[of "[]" ?es d] v[OF sim, of d] by (simp add: ag)
  have dk: "distinct (keys_of (hd_aggregated t))" using aggregated_map[of "[]" ?es] by (simp add: ag)
  have eq: "set (hd_aggregated t) = (\<lambda>d. (d, int (count_list (concat w) d))) ` set (concat w)"
    using distinct_keys_map_of[OF dk] m by (auto split: if_splits)
  have inj: "inj as_count" by (auto simp: inj_on_def as_count_def)
  have "mset (hd_aggregated t) = mset_set (set (hd_aggregated t))"
    using dk by (simp add: mset_set_set keys_of_def distinct_map)
  also have "\<dots> = mset (map (\<lambda>d. (d, int (count_list (concat w) d))) (remdups (concat w)))"
    unfolding eq by (simp add: mset_set_set[symmetric] image_mset_mset_set[symmetric] inj_on_def)
  finally show ?thesis
    by (metis (no_types, lifting) mset_map map_eq_conv domain_count_def as_count_def fst_conv snd_conv map_map comp_apply)
qed

text \<open>C17: The list of the most frequent domains is exact: after any sequence of queries, rotations and resets,
  in whatever order Go visits its map, it holds the domains asked for most often in the window, each with its
  number of queries, ties in alphabetical order, as long as no shard of a bucket meets more domains than the
  configured number. Queries and rotations while the network is down do not count.\<close>

theorem GetTopDomains_exact:
  assumes "NewHotDomainsTracker now cfg = Some t" "0 < st_HotDomainsShardCount cfg"
    and "\<forall>xs. mset (shuffle xs) = mset xs"
    and "w = fold window_step es (replicate (hd_numBuckets cfg) [])"
    and "\<forall>qs \<in> set w. \<forall>j < nat (st_HotDomainsShardCount cfg).
      int (card (set (shard_log (nat (st_HotDomainsShardCount cfg)) j qs))) \<le> st_HotDomainsMaxPerBucket cfg"
  shows "\<exists>t'. hd_run es t = Some t'
    \<and> GetTopDomains shuffle k t' = take (nat k) (sort_key rank (map (domain_count (concat w)) (remdups (concat w))))"
proof -
  let ?n = "nat (st_HotDomainsShardCount cfg)"
  have pos: "0 < ?n" using assms(2) by simp
  obtain t' where t': "hd_run es t = Some t'" "window_sim ?n w t'" "hd_cfg t' = cfg"
    using new_tracker_sim[OF assms(1)] hd_run_sim[OF _ pos, of _ t es] assms(4) by metis
  let ?xs = "map as_count (shuffle (hd_aggregated t'))"
  have "mset ?xs = mset (map as_count (hd_aggregated t'))" using assms(3) by (metis mset_map)
  also have "\<dots> = mset (map (domain_count (concat w)) (remdups (concat w)))"
    using aggregated_exact[OF t'(2) _ pos] assms(5) t'(3) by metis
  finally have "sort_key rank ?xs = sort_key rank (map (domain_count (concat w)) (remdups (concat w)))"
    by (intro sort_key_inj_key_eq[OF _ inj_rank]) (simp_all add: mset_sort)
  moreover have "GetTopDomains shuffle k t' = take (nat k) (sort_key rank ?xs)"
    using top_k[OF _ refl, of "nat k" "shuffle (hd_aggregated t')"] by (simp add: GetTopDomains_def Let_def)
  ultimately show ?thesis using t'(1) by metis
qed

definition example_stats_cfg :: StatsConfig where
  "example_stats_cfg = \<lparr>st_HotDomainsWindowHours = 2, st_HotDomainsBucketMinutes = 60, st_HotDomainsShardCount = 1,
     st_HotDomainsMaxPerBucket = 5, st_BlockedDomainsWindowHours = 0, st_BlockedDomainsBucketMinutes = 0,
     st_BlockedDomainsShardCount = 0, st_GeneralStatsBucketMinutes = 0, st_GeneralStatsRetentionDays = 0,
     st_UpstreamStatsBucketMinutes = 0, st_UpstreamStatsRetentionDays = 0\<rparr>"

theorem GetTopDomains_exact_witness:
  "\<exists>t t'. NewHotDomainsTracker 0 example_stats_cfg = Some t
    \<and> hd_run [Hd_query None ''a'', Hd_query None ''c'', Hd_tick None 1, Hd_query None ''b'', Hd_query (Some True) ''b'',
        Hd_query (Some False) ''a'', Hd_query None ''a''] t = Some t'
    \<and> GetTopDomains rev 2 t' = [\<lparr>dc_Domain = ''a'', dc_Count = 2\<rparr>, \<lparr>dc_Domain = ''b'', dc_Count = 2\<rparr>]"
proof -
  let ?es = "[Hd_query None ''a'', Hd_query None ''c'', Hd_tick None 1, Hd_query None ''b'', Hd_query (Some True) ''b'',
      Hd_query (Some False) ''a'', Hd_query None ''a'']"
  obtain t where t: "NewHotDomainsTracker 0 example_stats_cfg = Some t"
    by (simp add: NewHotDomainsTracker_def newTimeBucket_def example_stats_cfg_def)
  have n: "hd_numBuckets example_stats_cfg = 2" by (simp add: hd_numBuckets_def example_stats_cfg_def)
  have w: "[[''a'', ''b'', ''b''], [''c'', ''a'']] = fold window_step ?es (replicate (hd_numBuckets example_stats_cfg) [])"
    by (simp add: n window_step_def numeral_2_eq_2)
  have k: "st_HotDomainsShardCount example_stats_cfg = 1" "st_HotDomainsMaxPerBucket example_stats_cfg = 5"
    by (simp_all add: example_stats_cfg_def)
  have fits: "\<forall>qs \<in> set [[''a'', ''b'', ''b''], [''c'', ''a'']]. \<forall>j < nat (st_HotDomainsShardCount example_stats_cfg).
      int (card (set (shard_log (nat (st_HotDomainsShardCount example_stats_cfg)) j qs))) \<le> st_HotDomainsMaxPerBucket example_stats_cfg"
    by (simp add: k shard_log_def domain_shard_def)
  have "sort_key rank (map (domain_count (concat [[''a'', ''b'', ''b''], [''c'', ''a'']])) (remdups (concat [[''a'', ''b'', ''b''], [''c'', ''a'']])))
      = [\<lparr>dc_Domain = ''a'', dc_Count = 2\<rparr>, \<lparr>dc_Domain = ''b'', dc_Count = 2\<rparr>, \<lparr>dc_Domain = ''c'', dc_Count = 1\<rparr>]"
    by (simp add: domain_count_def rank_def less_eq_prod_def)
  then show ?thesis
    using GetTopDomains_exact[OF t _ _ w fits, of rev 2] t k by (auto simp: numeral_2_eq_2)
qed

end
