(* ===== verification/Stats_Counters.thy ===== *)
theory Stats_Counters
  imports Stats_Windows Dns_Answers
begin

text \<open>\<open>stats/stats.go\<close> and \<open>stats/generalstats.go\<close>: the counters of the server, the same counters in time
  buckets, and what the handlers of queries add to them. The caches of the lists shown by the web
  interface and the readings of the operating system are left out.\<close>

section \<open>Time buckets\<close>

text \<open>The six counters of a bucket.\<close>

record general_counts =
  gc_queries :: int
  gc_effectiveQueries :: int
  gc_cacheHits :: int
  gc_cacheMisses :: int
  gc_cacheStaleRefresh :: int
  gc_upstreamFailures :: int

record GeneralStatsBucket =
  gb_timestamp :: instant
  gb_counts :: general_counts

record GeneralStatsTracker =
  gs_buckets :: "GeneralStatsBucket list"
  gs_current :: nat
  gs_bucketSize :: duration
  gs_bucketCount :: int

definition zero_counts :: general_counts where
  "zero_counts = \<lparr>gc_queries = 0, gc_effectiveQueries = 0, gc_cacheHits = 0, gc_cacheMisses = 0,
     gc_cacheStaleRefresh = 0, gc_upstreamFailures = 0\<rparr>"

definition NewGeneralStatsTracker :: "instant \<Rightarrow> duration \<Rightarrow> int \<Rightarrow> GeneralStatsTracker" where
  "NewGeneralStatsTracker now bucketSize bucketCount =
     (let n = (if bucketCount \<le> 0 then 1 else bucketCount); d = (if bucketSize \<le> 0 then hour else bucketSize)
      in \<lparr>gs_buckets = replicate (nat n) \<lparr>gb_timestamp = now, gb_counts = zero_counts\<rparr>, gs_current = 0,
          gs_bucketSize = d, gs_bucketCount = n\<rparr>)"

definition gs_add :: "(general_counts \<Rightarrow> general_counts) \<Rightarrow> GeneralStatsTracker \<Rightarrow> GeneralStatsTracker" where
  "gs_add f t = t\<lparr>gs_buckets := (gs_buckets t)[gs_current t :=
     (gs_buckets t ! gs_current t)\<lparr>gb_counts := f (gb_counts (gs_buckets t ! gs_current t))\<rparr>]\<rparr>"

definition gs_RecordQuery :: "GeneralStatsTracker \<Rightarrow> GeneralStatsTracker" where
  "gs_RecordQuery = gs_add (\<lambda>c. c\<lparr>gc_queries := gc_queries c + 1\<rparr>)"
definition gs_RecordEffectiveQuery :: "GeneralStatsTracker \<Rightarrow> GeneralStatsTracker" where
  "gs_RecordEffectiveQuery = gs_add (\<lambda>c. c\<lparr>gc_effectiveQueries := gc_effectiveQueries c + 1\<rparr>)"
definition gs_RecordCacheHit :: "GeneralStatsTracker \<Rightarrow> GeneralStatsTracker" where
  "gs_RecordCacheHit = gs_add (\<lambda>c. c\<lparr>gc_cacheHits := gc_cacheHits c + 1\<rparr>)"
definition gs_RecordCacheMiss :: "GeneralStatsTracker \<Rightarrow> GeneralStatsTracker" where
  "gs_RecordCacheMiss = gs_add (\<lambda>c. c\<lparr>gc_cacheMisses := gc_cacheMisses c + 1\<rparr>)"
definition gs_RecordCacheStaleRefresh :: "GeneralStatsTracker \<Rightarrow> GeneralStatsTracker" where
  "gs_RecordCacheStaleRefresh = gs_add (\<lambda>c. c\<lparr>gc_cacheStaleRefresh := gc_cacheStaleRefresh c + 1\<rparr>)"
definition gs_RecordUpstreamFailure :: "GeneralStatsTracker \<Rightarrow> GeneralStatsTracker" where
  "gs_RecordUpstreamFailure = gs_add (\<lambda>c. c\<lparr>gc_upstreamFailures := gc_upstreamFailures c + 1\<rparr>)"

definition add_counts :: "general_counts \<Rightarrow> general_counts \<Rightarrow> general_counts" where
  "add_counts a b = \<lparr>gc_queries = gc_queries a + gc_queries b,
     gc_effectiveQueries = gc_effectiveQueries a + gc_effectiveQueries b, gc_cacheHits = gc_cacheHits a + gc_cacheHits b,
     gc_cacheMisses = gc_cacheMisses a + gc_cacheMisses b,
     gc_cacheStaleRefresh = gc_cacheStaleRefresh a + gc_cacheStaleRefresh b,
     gc_upstreamFailures = gc_upstreamFailures a + gc_upstreamFailures b\<rparr>"

text \<open>\<open>Aggregate\<close> always includes the current bucket, the others by their time.\<close>

definition gs_counted :: "instant \<Rightarrow> GeneralStatsTracker \<Rightarrow> nat \<Rightarrow> bool" where
  "gs_counted startTime t i \<longleftrightarrow> i = gs_current t \<or> startTime \<le> gb_timestamp (gs_buckets t ! i)"

definition gs_Aggregate :: "instant \<Rightarrow> GeneralStatsTracker \<Rightarrow> general_counts" where
  "gs_Aggregate startTime t = fold (\<lambda>i acc. if gs_counted startTime t i
     then add_counts acc (gb_counts (gs_buckets t ! i)) else acc) [0..<length (gs_buckets t)] zero_counts"

text \<open>\<open>Time.Truncate\<close> counts from the first of January of the year one; instants here count from 1970.\<close>

definition zero_time_offset :: int where "zero_time_offset = 62135596800 * second"

definition go_Truncate :: "duration \<Rightarrow> instant \<Rightarrow> instant" where
  "go_Truncate d t = (if d \<le> 0 then t else t - (t + zero_time_offset) mod d)"

definition clear_bucket :: "GeneralStatsBucket \<Rightarrow> GeneralStatsBucket" where
  "clear_bucket b = b\<lparr>gb_counts := zero_counts\<rparr>"

definition gs_advance :: "GeneralStatsTracker \<Rightarrow> GeneralStatsTracker" where
  "gs_advance t = (let i = nat ((int (gs_current t) + 1) mod gs_bucketCount t)
     in t\<lparr>gs_current := i, gs_buckets := (gs_buckets t)[i := clear_bucket (gs_buckets t ! i)]\<rparr>)"

definition gs_stamp :: "instant \<Rightarrow> GeneralStatsTracker \<Rightarrow> GeneralStatsTracker" where
  "gs_stamp ts t = t\<lparr>gs_buckets := (gs_buckets t)[gs_current t := (gs_buckets t ! gs_current t)\<lparr>gb_timestamp := ts\<rparr>]\<rparr>"

definition gs_rotateBucket :: "instant \<Rightarrow> GeneralStatsTracker \<Rightarrow> GeneralStatsTracker" where
  "gs_rotateBucket now t =
     (let n = go_div (now - gb_timestamp (gs_buckets t ! gs_current t)) (gs_bucketSize t)
      in if n < 1 then t
         else if gs_bucketCount t < n
           then gs_stamp now (t\<lparr>gs_buckets := map clear_bucket (gs_buckets t), gs_current := 0\<rparr>)
         else gs_stamp (go_Truncate (gs_bucketSize t) now) ((gs_advance ^^ nat n) t))"

definition gs_Reset :: "GeneralStatsTracker \<Rightarrow> GeneralStatsTracker" where
  "gs_Reset t = t\<lparr>gs_buckets := map clear_bucket (gs_buckets t)\<rparr>"

section \<open>Counters\<close>

record Stats =
  sx_queries :: int
  sx_effectiveQueries :: int
  sx_cacheHits :: int
  sx_cacheMisses :: int
  sx_cacheStaleRefresh :: int
  sx_upstreamFailures :: int
  sx_pingSuccesses :: int
  sx_pingFailures :: int
  sx_totalRTT :: int
  sx_failedNodes :: "(string \<times> int) list"
  sx_failedNodesTime :: "(string \<times> instant) list"
  sx_hotDomains :: HotDomainsTracker
  sx_blockedDomains :: BlockedDomainsTracker
  sx_generalStatsTracker :: GeneralStatsTracker
  sx_lastEvictionCount :: int
  sx_lastCheckTime :: instant

definition failedNodesTTL :: duration where "failedNodesTTL = 24 * hour"

text \<open>\<open>NewStats\<close>; \<open>None\<close> is the panic for a negative number of shards.\<close>

definition gs_bucket_count :: "StatsConfig \<Rightarrow> int" where
  "gs_bucket_count cfg = max 1 (go_div
     ((if st_GeneralStatsRetentionDays cfg \<le> 0 then 7 else st_GeneralStatsRetentionDays cfg) * 24 * 60)
     (if st_GeneralStatsBucketMinutes cfg \<le> 0 then 60 else st_GeneralStatsBucketMinutes cfg))"

definition NewStats :: "instant \<Rightarrow> StatsConfig \<Rightarrow> Stats option" where
  "NewStats now cfg = (case (NewHotDomainsTracker now cfg, NewBlockedDomainsTracker now cfg) of
      (Some hot, Some blocked) \<Rightarrow> Some
        \<lparr>sx_queries = 0, sx_effectiveQueries = 0, sx_cacheHits = 0, sx_cacheMisses = 0, sx_cacheStaleRefresh = 0,
         sx_upstreamFailures = 0, sx_pingSuccesses = 0, sx_pingFailures = 0, sx_totalRTT = 0, sx_failedNodes = [],
         sx_failedNodesTime = [], sx_hotDomains = hot, sx_blockedDomains = blocked,
         sx_generalStatsTracker = NewGeneralStatsTracker now (st_GeneralStatsBucketMinutes cfg * minute) (gs_bucket_count cfg),
         sx_lastEvictionCount = 0, sx_lastCheckTime = now\<rparr>
    | _ \<Rightarrow> None)"

definition st_IncQueries :: "Stats \<Rightarrow> Stats" where
  "st_IncQueries s = s\<lparr>sx_queries := sx_queries s + 1,
     sx_generalStatsTracker := gs_RecordQuery (sx_generalStatsTracker s)\<rparr>"
definition st_IncEffectiveQueries :: "Stats \<Rightarrow> Stats" where
  "st_IncEffectiveQueries s = s\<lparr>sx_effectiveQueries := sx_effectiveQueries s + 1,
     sx_generalStatsTracker := gs_RecordEffectiveQuery (sx_generalStatsTracker s)\<rparr>"
definition st_IncCacheHits :: "Stats \<Rightarrow> Stats" where
  "st_IncCacheHits s = s\<lparr>sx_cacheHits := sx_cacheHits s + 1,
     sx_generalStatsTracker := gs_RecordCacheHit (sx_generalStatsTracker s)\<rparr>"
definition st_IncCacheMisses :: "Stats \<Rightarrow> Stats" where
  "st_IncCacheMisses s = s\<lparr>sx_cacheMisses := sx_cacheMisses s + 1,
     sx_generalStatsTracker := gs_RecordCacheMiss (sx_generalStatsTracker s)\<rparr>"
definition st_IncCacheStaleRefresh :: "Stats \<Rightarrow> Stats" where
  "st_IncCacheStaleRefresh s = s\<lparr>sx_cacheStaleRefresh := sx_cacheStaleRefresh s + 1,
     sx_generalStatsTracker := gs_RecordCacheStaleRefresh (sx_generalStatsTracker s)\<rparr>"

text \<open>Outside behaviour is not counted while the network is down; \<open>healthy\<close> is the verdict of the checker.\<close>

definition st_IncUpstreamFailures :: "bool option \<Rightarrow> Stats \<Rightarrow> Stats" where
  "st_IncUpstreamFailures healthy s = (if healthy = Some False then s
     else s\<lparr>sx_upstreamFailures := sx_upstreamFailures s + 1,
       sx_generalStatsTracker := gs_RecordUpstreamFailure (sx_generalStatsTracker s)\<rparr>)"
definition st_IncPingSuccesses :: "bool option \<Rightarrow> Stats \<Rightarrow> Stats" where
  "st_IncPingSuccesses healthy s = (if healthy = Some False then s else s\<lparr>sx_pingSuccesses := sx_pingSuccesses s + 1\<rparr>)"
definition st_IncPingFailures :: "bool option \<Rightarrow> Stats \<Rightarrow> Stats" where
  "st_IncPingFailures healthy s = (if healthy = Some False then s else s\<lparr>sx_pingFailures := sx_pingFailures s + 1\<rparr>)"
definition st_AddRTT :: "bool option \<Rightarrow> int \<Rightarrow> Stats \<Rightarrow> Stats" where
  "st_AddRTT healthy rtt s = (if healthy = Some False then s else s\<lparr>sx_totalRTT := sx_totalRTT s + rtt\<rparr>)"

definition expired_node :: "instant \<Rightarrow> Stats \<Rightarrow> string \<Rightarrow> bool" where
  "expired_node now s node = (case map_of (sx_failedNodesTime s) node of None \<Rightarrow> False | Some t \<Rightarrow> failedNodesTTL < now - t)"

definition st_RecordFailedNode :: "bool option \<Rightarrow> instant \<Rightarrow> string \<Rightarrow> Stats \<Rightarrow> Stats" where
  "st_RecordFailedNode healthy now node s = (if healthy = Some False then s
     else s\<lparr>sx_failedNodes := upsert node 0 (\<lambda>n. n + 1) (filter (\<lambda>(k, _). \<not> expired_node now s k) (sx_failedNodes s)),
       sx_failedNodesTime := upsert node now (\<lambda>_. now) (filter (\<lambda>(k, _). \<not> expired_node now s k) (sx_failedNodesTime s))\<rparr>)"

definition st_RecordDomainQuery :: "bool option \<Rightarrow> string \<Rightarrow> Stats \<Rightarrow> Stats option" where
  "st_RecordDomainQuery healthy d s = map_option (\<lambda>t. s\<lparr>sx_hotDomains := t\<rparr>) (hd_RecordQuery healthy d (sx_hotDomains s))"
definition st_RecordBlockedDomain :: "string \<Rightarrow> Stats \<Rightarrow> Stats option" where
  "st_RecordBlockedDomain d s = map_option (\<lambda>t. s\<lparr>sx_blockedDomains := t\<rparr>) (bd_RecordBlock d (sx_blockedDomains s))"

text \<open>\<open>GetStats\<close>: the rate, the mean and the nodes it computes. \<open>GetStatsWithTimeRange\<close> has another rate.\<close>

definition st_hitRate :: "Stats \<Rightarrow> rat" where
  "st_hitRate s = (if 0 < sx_effectiveQueries s then of_int (sx_cacheHits s) / of_int (sx_effectiveQueries s) * 100 else 0)"
definition st_avgRTT :: "Stats \<Rightarrow> int" where
  "st_avgRTT s = (if 0 < sx_pingSuccesses s then go_div (sx_totalRTT s) (sx_pingSuccesses s) else 0)"
definition st_failedNodes :: "instant \<Rightarrow> Stats \<Rightarrow> (string \<times> int) list" where
  "st_failedNodes now s = filter (\<lambda>(k, _). case map_of (sx_failedNodesTime s) k of
     None \<Rightarrow> False | Some t \<Rightarrow> now - t \<le> failedNodesTTL) (sx_failedNodes s)"

definition GetStatsWithTimeRange :: "instant \<Rightarrow> int \<Rightarrow> Stats \<Rightarrow> general_counts \<times> rat \<times> int" where
  "GetStatsWithTimeRange now days0 s =
     (let days = (if days0 < 1 \<or> 90 < days0 then 7 else days0);
          c = gs_Aggregate (now - days * 24 * hour) (sx_generalStatsTracker s);
          ops = gc_cacheHits c + gc_cacheMisses c
      in (c, if 0 < ops then of_int (gc_cacheHits c) / of_int ops * 100 else 0, days))"

definition st_RecordCacheEviction :: "instant \<Rightarrow> int \<Rightarrow> Stats \<Rightarrow> Stats" where
  "st_RecordCacheEviction now n s = (if 60 * second \<le> now - sx_lastCheckTime s
     then s\<lparr>sx_lastEvictionCount := n, sx_lastCheckTime := now\<rparr> else s)"

definition st_GetEvictionsPerMinute :: "instant \<Rightarrow> int \<Rightarrow> Stats \<Rightarrow> rat" where
  "st_GetEvictionsPerMinute now n s = (let elapsed = of_int (now - sx_lastCheckTime s) / of_int second :: rat
     in if elapsed < 1 then 0 else of_int (n - sx_lastEvictionCount s) / elapsed * 60)"

definition st_Reset :: "Stats \<Rightarrow> Stats" where
  "st_Reset s = s\<lparr>sx_queries := 0, sx_effectiveQueries := 0, sx_cacheHits := 0, sx_cacheMisses := 0,
     sx_cacheStaleRefresh := 0, sx_upstreamFailures := 0, sx_pingSuccesses := 0, sx_pingFailures := 0, sx_totalRTT := 0,
     sx_failedNodes := [], sx_hotDomains := hd_Reset (sx_hotDomains s), sx_blockedDomains := bd_Reset (sx_blockedDomains s),
     sx_generalStatsTracker := gs_Reset (sx_generalStatsTracker s)\<rparr>"

text \<open>The calls the handlers make.\<close>

definition stat_step :: "bool option \<Rightarrow> stat_call \<Rightarrow> Stats \<Rightarrow> Stats option" where
  "stat_step healthy call s = (case call of
      IncQueries \<Rightarrow> Some (st_IncQueries s) | IncEffectiveQueries \<Rightarrow> Some (st_IncEffectiveQueries s)
    | IncCacheHits \<Rightarrow> Some (st_IncCacheHits s) | IncCacheMisses \<Rightarrow> Some (st_IncCacheMisses s)
    | IncCacheStaleRefresh \<Rightarrow> Some (st_IncCacheStaleRefresh s)
    | IncPingSuccesses \<Rightarrow> Some (st_IncPingSuccesses healthy s)
    | RecordDomainQuery d \<Rightarrow> st_RecordDomainQuery healthy d s
    | RecordBlockedDomain d \<Rightarrow> st_RecordBlockedDomain d s)"

fun stat_calls :: "bool option \<Rightarrow> stat_call list \<Rightarrow> Stats \<Rightarrow> Stats option" where
  "stat_calls healthy [] s = Some s"
| "stat_calls healthy (c # cs) s = Option.bind (stat_step healthy c s) (stat_calls healthy cs)"

section \<open>What a query adds\<close>

definition tally :: "stat_call \<Rightarrow> 't Server \<Rightarrow> nat" where
  "tally c s = count_list (sv_stats s) c"

named_theorems uncounted

lemma tally_count [uncounted]: "tally c (count d s) = tally c s + (if d = c then 1 else 0)"
proof -
  have "count_list (xs @ ys) c = count_list xs c + count_list ys c" for xs ys by (induction xs) auto
  then show ?thesis by (simp add: tally_def count_def)
qed

lemma tally_same: "sv_stats s' = sv_stats s \<Longrightarrow> tally c s' = tally c s"
  by (simp add: tally_def)

lemma effects_tally [uncounted]:
  "tally c (spawn j s) = tally c s" "tally c (on_cache f s) = tally c s" "tally c (pool_calls now calls s) = tally c s"
  "tally c (snd (rq_Submit t s)) = tally c s" "tally c (write_msg m s) = tally c s"
  "tally c (s\<lparr>sv_cache := x\<rparr>) = tally c s" "tally c (s\<lparr>sv_prefetcher := p\<rparr>) = tally c s"
  "tally c (s\<lparr>sv_upstream := u\<rparr>) = tally c s" "tally c (s\<lparr>sv_recent := q\<rparr>) = tally c s"
  by (rule tally_same, simp add: spawn_def on_cache_def pool_calls_def rq_Submit_def write_msg_def)+

text \<open>The counters that a query moves.\<close>

definition query_counter :: "stat_call \<Rightarrow> bool" where
  "query_counter c \<longleftrightarrow> c \<in> {IncQueries, IncEffectiveQueries, IncCacheHits, IncCacheMisses}"

lemma query_counter_simps [simp]: "query_counter c \<Longrightarrow> c \<noteq> IncCacheStaleRefresh" "query_counter c \<Longrightarrow> c \<noteq> IncPingSuccesses"
  "query_counter c \<Longrightarrow> c \<noteq> RecordDomainQuery d" "query_counter c \<Longrightarrow> c \<noteq> RecordBlockedDomain d"
  by (auto simp: query_counter_def)

lemma query_counter_neq [simp]: "query_counter c \<Longrightarrow> IncCacheStaleRefresh \<noteq> c" "query_counter c \<Longrightarrow> IncPingSuccesses \<noteq> c"
  "query_counter c \<Longrightarrow> RecordDomainQuery d \<noteq> c" "query_counter c \<Longrightarrow> RecordBlockedDomain d \<noteq> c"
  by (auto simp: query_counter_def)

lemma count_fold_tally: "query_counter c \<Longrightarrow>
    tally c (fold (\<lambda>(ip, rtt) s. if P rtt then count IncPingSuccesses s else s) xs s) = tally c s"
  by (induction xs arbitrary: s) (auto simp: uncounted)

lemma sortIPsByRTT_tally [uncounted]: "query_counter c \<Longrightarrow> tally c (snd (sortIPsByRTT ips m s)) = tally c s"
  by (simp add: sortIPsByRTT_def Let_def count_fold_tally)

lemma latest_order_tally [uncounted]: "query_counter c \<Longrightarrow> tally c (snd (latest_order ips s)) = tally c s"
proof (cases "pg_ipPool (sv_pinger s)")
  case (Some pool)
  assume c: "query_counter c"
  obtain hit x s1 where "sortIPsByRTT ips (GetAllIPRTTs ips pool) s = ((hit, x), s1)" by (metis prod.exhaust)
  then show ?thesis using sortIPsByRTT_tally[OF c, of ips "GetAllIPRTTs ips pool" s]
    by (simp add: latest_order_def Some Let_def)
qed (simp add: latest_order_def)

lemma steps_tally [uncounted]:
  assumes "query_counter c"
  shows "tally c (RefreshDomain env d q s) = tally c s" "tally c (submit_refresh d q s) = tally c s"
    "tally c (raw_hit env d raw s) = tally c s + (if c = IncCacheHits then 1 else 0)"
    "tally c (snd (fallback_order env d cs ips s)) = tally c s"
    "tally c (record_block env m d s) = tally c s" "tally c (store_raw env d q rs cs ttl a s) = tally c s"
    "tally c (note_ips env d q ips ttl s) = tally c s"
  using assms by (auto simp: RefreshDomain_def submit_refresh_def raw_hit_def fallback_order_def store_raw_def
      note_ips_def uncounted split: prod.split)
    (simp add: record_block_def tally_def count_def)

lemma store_msgs_tally [uncounted]: "tally c (store_msgs env d q cs m s) = tally c (s :: 't Server)"
proof -
  have "tally c (fold (\<lambda>d. on_cache (f d)) ds s) = tally c (s :: 't Server)" for f ds s
    by (induction ds arbitrary: s) (simp_all add: uncounted)
  then show ?thesis unfolding store_msgs_def .
qed

section \<open>Handlers\<close>

text \<open>A stage that answers from a cache counts one hit, one that passes the query on counts none.\<close>

definition hit_if :: "bool \<Rightarrow> stat_call \<Rightarrow> nat" where
  "hit_if b c = (if b \<and> c = IncCacheHits then 1 else 0)"

lemma error_hit_tally:
  assumes "handleErrorCacheHit env r d q s = (b, s')"
  shows "tally c s' = tally c s + hit_if b c"
  using assms by (auto simp: handleErrorCacheHit_def Let_def uncounted hit_if_def split: prod.splits option.splits)

lemma msg_hit_tally:
  assumes "handleMsgCacheHit env r d q s = (b, s')"
  shows "tally c s' = tally c s + hit_if b c"
  using assms by (auto simp: handleMsgCacheHit_def Let_def uncounted hit_if_def split: prod.splits option.splits if_splits)

lemma order_tally:
  assumes "query_counter c"
  shows "latest_order ips s = (x, s') \<Longrightarrow> tally c s' = tally c s" "fallback_order env d cs ips s = (x, s'') \<Longrightarrow> tally c s'' = tally c s"
  using latest_order_tally[OF assms, of ips s] steps_tally(4)[OF assms, of env d cs ips s] by simp_all

lemma sorted_hit_tally:
  assumes "handleSortedCacheHit env r d q s = (b, s')" "query_counter c"
  shows "tally c s' = tally c s + hit_if b c"
proof -
  note t = order_tally(1)[OF assms(2)]
  have "case handleSortedCacheHit env r d q s of (b, s') \<Rightarrow> tally c s' = tally c s + hit_if b c"
    using assms(2) by (auto simp: handleSortedCacheHit_def Let_def uncounted hit_if_def dest!: t split: prod.split option.split)
  then show ?thesis using assms(1) by simp
qed

text \<open>A raw entry, fresh, stale or expired, counts as a hit before its state is looked at.\<close>

definition has_raw :: "string \<Rightarrow> qtype \<Rightarrow> 't Server \<Rightarrow> bool" where
  "has_raw d q s \<longleftrightarrow> fst (GetRaw d q (sv_cache s)) \<noteq> None"

lemma raw_hit_tally:
  assumes "handleRawCacheHit env r d q s = (b, s')" "query_counter c"
  shows "tally c s' = tally c s + hit_if (has_raw d q s) c"
proof -
  note t = order_tally[OF assms(2)]
  have "case handleRawCacheHit env r d q s of (b, s') \<Rightarrow> tally c s' = tally c s + hit_if (has_raw d q s) c"
    using assms(2) by (auto simp: handleRawCacheHit_def Let_def uncounted hit_if_def has_raw_def dest!: t split: prod.split option.split)
  then show ?thesis using assms(1) by simp
qed

lemma generic_hit_tally:
  assumes "handleRawCacheHitGeneric env r d q s = Some (b, s')" "query_counter c" "\<not> (q = TypeA \<or> q = TypeAAAA)"
  shows "tally c s' = tally c s + hit_if (has_raw d q s) c"
  using assms by (auto simp: handleRawCacheHitGeneric_def Let_def uncounted hit_if_def has_raw_def split: prod.splits option.splits if_splits)

definition miss_only :: "stat_call \<Rightarrow> nat" where
  "miss_only c = (if c = IncCacheMisses then 1 else 0)"

lemma deny_tally [uncounted]: "tally c (deny env r d rc ttl s) = tally c s" "tally c (deny_cached env r d q rc ttl s) = tally c s"
  "tally c (upstream_failed env r d q err s) = tally c s"
  by (simp_all add: deny_def deny_cached_def upstream_failed_def uncounted)

lemma first_query_tally: "first_query env r s = (x, s') \<Longrightarrow> tally c s' = tally c s"
  by (auto simp: first_query_def uncounted split: prod.splits)

lemma resolve_result_tally: "resolve_result env ok q res s = (x, s') \<Longrightarrow> tally c s' = tally c s"
  by (auto simp: resolve_result_def resolveCNAME_def uncounted split: prod.splits if_splits option.splits sum.splits)

lemma sendAdBlockResponse_tally: "sendAdBlockResponse env r cfg s = Some s' \<Longrightarrow> tally c s' = tally c s"
  by (auto simp: sendAdBlockResponse_def Let_def uncounted split: if_splits option.splits)

lemma block_domain_tally:
  assumes "block_domain env r m d rule s = Some s'" "query_counter c"
  shows "tally c s' = tally c s"
  using assms by (auto simp: block_domain_def Let_def uncounted dest!: sendAdBlockResponse_tally[where c = c])

lemma adblock_tally:
  assumes "handleAdBlockCheck env r d s = Some (b, s')" "query_counter c"
  shows "tally c s' = tally c s"
  using assms by (auto simp: handleAdBlockCheck_def Let_def uncounted split: option.splits if_splits prod.splits MatchResult.splits
      dest!: sendAdBlockResponse_tally[where c = c] block_domain_tally)

lemma chain_tally:
  assumes "handleCNAMEChainValidation env r d cs s = Some (b, s')" "query_counter c"
  shows "tally c s' = tally c s"
  using assms by (auto simp: handleCNAMEChainValidation_def split: option.splits if_splits dest!: block_domain_tally)

lemma answer_resolved_tally:
  assumes "query_counter c"
  shows "tally c (answer_resolved env r d q result res s) = tally c s"
  using assms by (auto simp: answer_resolved_def Let_def uncounted split: prod.split option.split dest!: order_tally(2)[OF assms])

lemma finish_miss_tally:
  assumes "finish_miss env r d q result res s = Some s'" "query_counter c"
  shows "tally c s' = tally c s"
  using assms by (auto simp: finish_miss_def uncounted answer_resolved_tally split: prod.splits option.splits bool.splits if_splits
      dest!: chain_tally[where c = c])

lemma miss_tally:
  assumes "handleCacheMiss env r d q s = Some s'" "query_counter c"
  shows "tally c s' = tally c s + miss_only c"
proof (cases "q = TypeAAAA \<and> \<not> dns_EnableIPv6 (cfg_DNS (sv_cfg s))")
  case True
  then show ?thesis using assms by (auto simp: handleCacheMiss_def Let_def same_cfg uncounted miss_only_def)
next
  case False
  obtain out s1 where o: "first_query env r (count IncCacheMisses s) = (out, s1)" by fastforce
  have s1: "tally c s1 = tally c s + miss_only c" using first_query_tally[OF o, of c] by (simp add: uncounted miss_only_def)
  show ?thesis using assms s1 by (auto simp: miss_steps[OF False o] uncounted split: prod.splits option.splits if_splits sum.splits
      dest!: resolve_result_tally[where c = c] finish_miss_tally[where c = c])
qed

lemma generic_miss_tally:
  assumes "handleGenericCacheMiss env r d q s = Some s'" "query_counter c"
  shows "tally c s' = tally c s + miss_only c"
proof -
  obtain out s1 where o: "first_query env r (count IncCacheMisses s) = (out, s1)" by fastforce
  have s1: "tally c s1 = tally c s + miss_only c" using first_query_tally[OF o, of c] by (simp add: uncounted miss_only_def)
  show ?thesis using assms s1 by (auto simp: handleGenericCacheMiss_def o Let_def uncounted split: prod.splits option.splits if_splits)
qed

text \<open>What a handler adds: a hit or a miss, or both.\<close>

definition adds :: "bool \<Rightarrow> bool \<Rightarrow> 't Server \<Rightarrow> 't Server \<Rightarrow> bool" where
  "adds h m s s' \<longleftrightarrow> (\<forall>c. query_counter c \<longrightarrow> tally c s' = tally c s + hit_if h c + (if m then miss_only c else 0))"

lemma hit_if_False [simp]: "hit_if False c = 0"
  by (simp add: hit_if_def)

lemma address_adds:
  assumes "handleAddressQuery env r d q s = Some s'"
  shows "\<exists>h m. adds h m s s'"
proof -
  obtain b1 s1 where 1: "handleMsgCacheHit env r d q s = (b1, s1)" by fastforce
  obtain b2 s2 where 2: "handleErrorCacheHit env r d q s1 = (b2, s2)" by fastforce
  obtain b3 s3 where 3: "handleSortedCacheHit env r d q s2 = (b3, s3)" by fastforce
  obtain b4 s4 where 4: "handleRawCacheHit env r d q s3 = (b4, s4)" by fastforce
  note t = msg_hit_tally[OF 1] error_hit_tally[OF 2] sorted_hit_tally[OF 3] raw_hit_tally[OF 4]
  consider "b1" | "\<not> b1" "b2" | "\<not> b1" "\<not> b2" "b3" | "\<not> b1" "\<not> b2" "\<not> b3" "b4" | "\<not> b1" "\<not> b2" "\<not> b3" "\<not> b4" by blast
  then show ?thesis
  proof cases
    case 1
    then have "s' = s1" using assms \<open>handleMsgCacheHit env r d q s = (b1, s1)\<close> by (simp add: handleAddressQuery_def)
    then have "adds True False s s'" using t(1) 1 by (simp add: adds_def)
    then show ?thesis by blast
  next
    case 2
    then have "s' = s2" using assms \<open>handleMsgCacheHit env r d q s = (b1, s1)\<close> \<open>handleErrorCacheHit env r d q s1 = (b2, s2)\<close>
      by (simp add: handleAddressQuery_def)
    then have "adds True False s s'" using t(1,2) 2 by (simp add: adds_def)
    then show ?thesis by blast
  next
    case 3
    then have "s' = s3" using assms \<open>handleMsgCacheHit env r d q s = (b1, s1)\<close> \<open>handleErrorCacheHit env r d q s1 = (b2, s2)\<close>
        \<open>handleSortedCacheHit env r d q s2 = (b3, s3)\<close> by (simp add: handleAddressQuery_def)
    then have "adds True False s s'" using t(1-3) 3 by (simp add: adds_def)
    then show ?thesis by blast
  next
    case 4
    then have "s' = s4" using assms \<open>handleMsgCacheHit env r d q s = (b1, s1)\<close> \<open>handleErrorCacheHit env r d q s1 = (b2, s2)\<close>
        \<open>handleSortedCacheHit env r d q s2 = (b3, s3)\<close> \<open>handleRawCacheHit env r d q s3 = (b4, s4)\<close>
      by (simp add: handleAddressQuery_def)
    then have "adds (has_raw d q s3) False s s'" using t 4 by (simp add: adds_def)
    then show ?thesis by blast
  next
    case 5
    then have "handleCacheMiss env r d q s4 = Some s'" using assms \<open>handleMsgCacheHit env r d q s = (b1, s1)\<close>
        \<open>handleErrorCacheHit env r d q s1 = (b2, s2)\<close> \<open>handleSortedCacheHit env r d q s2 = (b3, s3)\<close>
        \<open>handleRawCacheHit env r d q s3 = (b4, s4)\<close> by (simp add: handleAddressQuery_def)
    note m = miss_tally[OF this]
    have "adds (has_raw d q s3) True s s'" using t 5 m by (simp add: adds_def)
    then show ?thesis by blast
  qed
qed

lemma generic_adds:
  assumes "handleGenericQuery env r d q s = Some (b, s')" "\<not> (q = TypeA \<or> q = TypeAAAA)"
  shows "\<exists>h m. adds h m s s'"
proof -
  obtain b1 s1 where 1: "handleErrorCacheHit env r d q s = (b1, s1)" by fastforce
  show ?thesis
  proof (cases b1)
    case True
    then have "adds True False s s'" using assms 1 error_hit_tally[OF 1] by (simp add: handleGenericQuery_def adds_def)
    then show ?thesis by blast
  next
    case False
    then obtain b2 s2 where 2: "handleRawCacheHitGeneric env r d q s1 = Some (b2, s2)"
      using assms 1 by (auto simp: handleGenericQuery_def split: option.splits)
    have "adds (has_raw d q s1) (\<not> b2) s s'"
      unfolding adds_def using assms 1 2 False error_hit_tally[OF 1] generic_hit_tally[OF 2 _ assms(2)]
      by (auto simp: handleGenericQuery_def split: if_splits dest!: generic_miss_tally[where s = s2])
    then show ?thesis by blast
  qed
qed

lemma adds_same: "sv_stats s1 = sv_stats s \<Longrightarrow> adds h m s1 s' = adds h m s s'"
  by (simp add: adds_def tally_def)

lemma adds_none: "sv_stats s' = sv_stats s \<Longrightarrow> adds False False s s'"
  by (simp add: adds_def tally_def)

lemma unblocked_adds:
  assumes "handleUnblocked env r d q s = Some s'"
  shows "\<exists>h m. adds h m s s'"
proof -
  let ?s = "s\<lparr>sv_recent := RecordRecentQuery \<lparr>be_domain = d, be_timestamp = se_now env\<rparr> (sv_recent s)\<rparr>"
  have w: "adds h m s (write_msg x s1)" if "adds h m s s1" for x s1 h m
    using that by (simp add: adds_def uncounted)
  have same: "sv_stats ?s = sv_stats s" by simp
  have "\<exists>h m. adds h m s s1" if "handleAddressQuery env r d q ?s = Some s1" for s1
    using address_adds[OF that] unfolding adds_same[OF same] .
  moreover have "\<exists>h m. adds h m s s1" if "handleGenericQuery env r d q s = Some (b, s1)" "\<not> (q = TypeA \<or> q = TypeAAAA)" for b s1
    using generic_adds[OF that] by blast
  note parts = calculation this
  show ?thesis
  proof (cases "handleCustomResponse (se_fqdn env) (sv_custom s) (rq_msg r) d q")
    case (Some x)
    then show ?thesis using assms w[OF adds_none[OF refl]] by (auto simp: handleUnblocked_def)
  next
    case no_custom: None
    show ?thesis
    proof (cases "handleLocalRules (se_fqdn env) (se_now env) (rq_msg r) d q")
      case (Some x)
      then show ?thesis using assms no_custom w[OF adds_none[OF refl]] by (auto simp: handleUnblocked_def)
    next
      case None
      show ?thesis
      proof (cases "q = TypeA \<or> q = TypeAAAA")
        case True
        then have "handleAddressQuery env r d q ?s = Some s'" using assms no_custom None by (auto simp: handleUnblocked_def)
        then show ?thesis by (rule parts(1))
      next
        case False
        then obtain b s1 where g: "handleGenericQuery env r d q s = Some (b, s1)"
          using assms no_custom None by (cases "handleGenericQuery env r d q s") (auto simp: handleUnblocked_def)
        obtain h m where "adds h m s s1" using parts(2)[OF g False] by blast
        then show ?thesis using assms no_custom None False g w[of h m s1 "reply_to (rq_msg r) rcode_notimp"]
          by (cases b) (auto simp: handleUnblocked_def)
      qed
    qed
  qed
qed

lemma query_adds:
  assumes "handleQuery env r s = Some s'"
  shows "\<exists>e h m. (h \<or> m \<longrightarrow> e) \<and> (\<forall>c. query_counter c \<longrightarrow> tally c s' = tally c s + (if c = IncQueries then 1 else 0)
     + (if e \<and> c = IncEffectiveQueries then 1 else 0) + hit_if h c + (if m then miss_only c else 0))"
proof (cases "msg_Question (rq_msg r)")
  case Nil
  then show ?thesis using assms by (intro exI[of _ False]) (auto simp: handleQuery_def Let_def uncounted)
next
  case (Cons nq qs)
  obtain name q where nq: "nq = (name, q)" by (cases nq) auto
  let ?d = "trim_dots name"
  obtain b s1 where a: "handleAdBlockCheck env r ?d (count IncQueries s) = Some (b, s1)"
    using assms by (auto simp: handleQuery_def Cons nq Let_def split: option.splits)
  have s1: "tally c s1 = tally c s + (if c = IncQueries then 1 else 0)" if "query_counter c" for c
    using adblock_tally[OF a that] by (simp add: uncounted)
  show ?thesis
  proof (cases b)
    case True
    then show ?thesis using assms a s1 by (intro exI[of _ False]) (auto simp: handleQuery_def Cons nq Let_def)
  next
    case False
    then have "handleUnblocked env r ?d q (count IncEffectiveQueries s1) = Some s'"
      using assms a by (simp add: handleQuery_def Cons nq Let_def)
    then obtain h m where "adds h m (count IncEffectiveQueries s1) s'" using unblocked_adds by blast
    then have "tally c s' = tally c s + (if c = IncQueries then 1 else 0) + (if True \<and> c = IncEffectiveQueries then 1 else 0)
        + hit_if h c + (if m then miss_only c else 0)" if "query_counter c" for c
      using s1[OF that] that unfolding adds_def by (simp add: uncounted)
    then show ?thesis by blast
  qed
qed

section \<open>The rates\<close>

lemma stat_calls_counters:
  assumes "stat_calls healthy cs x = Some x'"
  shows "sx_queries x' = sx_queries x + int (count_list cs IncQueries)
    \<and> sx_effectiveQueries x' = sx_effectiveQueries x + int (count_list cs IncEffectiveQueries)
    \<and> sx_cacheHits x' = sx_cacheHits x + int (count_list cs IncCacheHits)
    \<and> sx_cacheMisses x' = sx_cacheMisses x + int (count_list cs IncCacheMisses)"
  using assms
proof (induction cs arbitrary: x)
  case (Cons c cs)
  obtain y where y: "stat_step healthy c x = Some y" "stat_calls healthy cs y = Some x'"
    using Cons.prems by (cases "stat_step healthy c x") auto
  show ?case using Cons.IH[OF y(2)] y(1)
    by (cases c) (auto simp: stat_step_def st_IncQueries_def st_IncEffectiveQueries_def st_IncCacheHits_def st_IncCacheMisses_def
        st_IncCacheStaleRefresh_def st_IncPingSuccesses_def st_RecordDomainQuery_def st_RecordBlockedDomain_def)
qed simp

definition rates_ok :: "Stats \<Rightarrow> bool" where
  "rates_ok x \<longleftrightarrow> 0 \<le> sx_cacheHits x \<and> sx_cacheHits x \<le> sx_effectiveQueries x \<and> 0 \<le> sx_cacheMisses x
     \<and> sx_cacheMisses x \<le> sx_effectiveQueries x \<and> sx_effectiveQueries x \<le> sx_queries x"

text \<open>Trackers that can take every domain.\<close>

definition stats_ready :: "Stats \<Rightarrow> bool" where
  "stats_ready x \<longleftrightarrow> (\<exists>k w. 0 < k \<and> window_sim k w (sx_hotDomains x)) \<and> (\<exists>k w. 0 < k \<and> window_sim k w (sx_blockedDomains x))"

lemma stat_calls_total:
  assumes "stats_ready x"
  shows "\<exists>x'. stat_calls healthy cs x = Some x' \<and> stats_ready x'"
  using assms
proof (induction cs arbitrary: x)
  case (Cons c cs)
  obtain k w k' w' where t: "0 < k" "window_sim k w (sx_hotDomains x)" "0 < k'" "window_sim k' w' (sx_blockedDomains x)"
    using Cons.prems by (auto simp: stats_ready_def)
  have "\<exists>y. stat_step healthy c x = Some y \<and> stats_ready y"
  proof (cases c)
    case (RecordDomainQuery d)
    obtain t' where "hd_RecordQuery healthy d (sx_hotDomains x) = Some t'" "window_sim k (window_step (Hd_query healthy d) w) t'"
      using hd_query_sim[OF t(2,1)] by blast
    then show ?thesis using t RecordDomainQuery by (auto simp: stat_step_def st_RecordDomainQuery_def stats_ready_def)
  next
    case (RecordBlockedDomain d)
    obtain t' where "hd_RecordQuery None d (sx_blockedDomains x) = Some t'" "window_sim k' (window_step (Hd_query None d) w') t'"
      using hd_query_sim[OF t(4,3)] by blast
    then show ?thesis using t RecordBlockedDomain
      by (auto simp: stat_step_def st_RecordBlockedDomain_def bd_RecordBlock_def stats_ready_def)
  qed (use Cons.prems in \<open>auto simp: stat_step_def stats_ready_def st_IncQueries_def st_IncEffectiveQueries_def st_IncCacheHits_def
      st_IncCacheMisses_def st_IncCacheStaleRefresh_def st_IncPingSuccesses_def\<close>)
  then show ?case using Cons.IH by fastforce
qed simp

lemma NewStats_ready:
  assumes "NewStats now cfg = Some x" "0 < st_HotDomainsShardCount cfg"
  shows "stats_ready x \<and> rates_ok x"
proof -
  obtain h b where "NewHotDomainsTracker now cfg = Some h" "NewBlockedDomainsTracker now cfg = Some b" "sx_hotDomains x = h" "sx_blockedDomains x = b"
    using assms(1) by (auto simp: NewStats_def split: option.splits)
  moreover have "0 < nat (st_HotDomainsShardCount cfg)" using assms(2) by simp
  ultimately have "stats_ready x" using new_tracker_sim[of now cfg] unfolding NewBlockedDomainsTracker_def stats_ready_def by metis
  moreover have "rates_ok x" using assms(1) by (auto simp: NewStats_def rates_ok_def split: option.splits)
  ultimately show ?thesis by blast
qed

text \<open>C18: Each handled query is counted once, at most once as effective and at most once as a hit and as a
  miss, the last two only if it is effective; no count panics. So after any number of queries the hit rate
  shown lies between 0 and 100 per cent. (Hits and misses need not add up to the effective queries.)\<close>

theorem query_counted_once:
  assumes "handleQuery env r (s\<lparr>sv_stats := []\<rparr>) = Some s'" "stats_ready x" "rates_ok x"
  shows "\<exists>x'. stat_calls healthy (sv_stats s') x = Some x' \<and> sx_queries x' = sx_queries x + 1
    \<and> sx_effectiveQueries x' - sx_effectiveQueries x \<in> {0, 1}
    \<and> sx_cacheHits x' - sx_cacheHits x \<in> {0 .. sx_effectiveQueries x' - sx_effectiveQueries x}
    \<and> sx_cacheMisses x' - sx_cacheMisses x \<in> {0 .. sx_effectiveQueries x' - sx_effectiveQueries x}
    \<and> stats_ready x' \<and> rates_ok x' \<and> 0 \<le> st_hitRate x' \<and> st_hitRate x' \<le> 100"
proof -
  obtain e h m where q: "h \<or> m \<longrightarrow> e" "\<forall>c. query_counter c \<longrightarrow> count_list (sv_stats s') c = (if c = IncQueries then 1 else 0)
     + (if e \<and> c = IncEffectiveQueries then 1 else 0) + hit_if h c + (if m then miss_only c else 0)"
    using query_adds[OF assms(1)] by (auto simp: tally_def)
  have n: "count_list (sv_stats s') IncQueries = 1" "count_list (sv_stats s') IncEffectiveQueries = (if e then 1 else 0)"
    "count_list (sv_stats s') IncCacheHits = (if h then 1 else 0)" "count_list (sv_stats s') IncCacheMisses = (if m then 1 else 0)"
    using q(2) by (simp_all add: query_counter_def hit_if_def miss_only_def)
  obtain x' where c: "stat_calls healthy (sv_stats s') x = Some x'" "stats_ready x'" using stat_calls_total[OF assms(2)] by blast
  have x': "sx_queries x' = sx_queries x + 1" "sx_effectiveQueries x' = sx_effectiveQueries x + (if e then 1 else 0)"
    "sx_cacheHits x' = sx_cacheHits x + (if h then 1 else 0)" "sx_cacheMisses x' = sx_cacheMisses x + (if m then 1 else 0)"
    using stat_calls_counters[OF c(1)] n by auto
  then have ok: "rates_ok x'" using assms(3) q(1) by (auto simp: rates_ok_def)
  have "0 \<le> st_hitRate x'" using ok by (simp add: st_hitRate_def rates_ok_def)
  moreover have "st_hitRate x' \<le> 100" using ok by (simp add: st_hitRate_def rates_ok_def divide_simps)
  ultimately show ?thesis using c x' ok q(1) by (intro exI[of _ x']) auto
qed

theorem query_counted_once_witness:
  "\<exists>x x' s'. NewStats 0 example_stats_cfg = Some x
    \<and> handleQuery (example_server_env (\<lambda>u. ((None, Some NetworkOffline), u))) example_query example_server = Some s'
    \<and> stat_calls None (sv_stats s') x = Some x' \<and> sx_queries x' = 1 \<and> st_hitRate x' \<le> 100"
proof -
  let ?e = "example_server_env (\<lambda>u. ((None, Some NetworkOffline), u))"
  obtain x where x: "NewStats 0 example_stats_cfg = Some x"
    by (simp add: NewStats_def NewBlockedDomainsTracker_def NewHotDomainsTracker_def newTimeBucket_def example_stats_cfg_def)
  have "0 < st_HotDomainsShardCount example_stats_cfg" by (simp add: example_stats_cfg_def)
  note r = NewStats_ready[OF x this]
  have z: "sx_queries x = 0" using x by (auto simp: NewStats_def split: option.splits)
  have s: "example_server\<lparr>sv_stats := []\<rparr> = example_server" by (simp add: example_server_def)
  have "\<exists>s' m. handleQuery ?e example_query example_server = Some s' \<and> P m" if "\<And>m. P m" for P :: "dnsMsg \<Rightarrow> bool"
  proof -
    have "msg_Question (rq_msg example_query) \<noteq> []" by (simp add: example_query_def example_request_def)
    note u = unblocked_answers[OF _ this, of ?e]
    obtain name q qs where m: "msg_Question (rq_msg example_query) = (name, q) # qs"
      by (cases "msg_Question (rq_msg example_query)") (auto simp: example_query_def example_request_def)
    have "handleAdBlockCheck ?e example_query (trim_dots name) (count IncQueries example_server) = Some (False, count IncQueries example_server)"
      by (simp add: handleAdBlockCheck_def example_server_def count_def Let_def)
    then show ?thesis
      using u[of "count IncEffectiveQueries (count IncQueries example_server)" "trim_dots name" q] example_server_facts(1) that
      by (auto simp: handleQuery_def m Let_def example_server_env_def block_mode_ok_def same_cfg)
  qed
  then obtain s' where q: "handleQuery ?e example_query example_server = Some s'" by blast
  show ?thesis
    using query_counted_once[of ?e example_query example_server s' x None] q r x z unfolding s by auto
qed

text \<open>A query for a name whose cached answer has expired beyond use is counted as a hit and as a miss:
  the hit is counted before the state of the entry is looked at. The domain enters the statistics twice when
  the answer from upstream has records.\<close>

theorem expired_counted_as_hit_and_miss:
  assumes "handleMsgCacheHit env r d q s = (False, s1)" "handleErrorCacheHit env r d q s1 = (False, s2)"
    "handleSortedCacheHit env r d q s2 = (False, s3)"
    and "fst (GetRaw d q (sv_cache s3)) = Some raw" "handleRawCacheHit env r d q s3 = (False, s4)"
    and "handleAddressQuery env r d q s = Some s'"
  shows "tally IncCacheHits s' = tally IncCacheHits s + 1 \<and> tally IncCacheMisses s' = tally IncCacheMisses s + 1
    \<and> raw_state env raw s4 = EXPIRED \<and> tally (RecordDomainQuery d) s4 = tally (RecordDomainQuery d) s3 + 1"
proof -
  have m: "handleCacheMiss env r d q s4 = Some s'" using assms by (simp add: handleAddressQuery_def)
  have hr: "has_raw d q s3" using assms(4) by (simp add: has_raw_def)
  have c: "query_counter IncCacheHits" "query_counter IncCacheMisses" by (simp_all add: query_counter_def)
  have "tally IncCacheHits s' = tally IncCacheHits s + 1" "tally IncCacheMisses s' = tally IncCacheMisses s + 1"
    using miss_tally[OF m] raw_hit_tally[OF assms(5)] sorted_hit_tally[OF assms(3)] error_hit_tally[OF assms(2)]
      msg_hit_tally[OF assms(1)] hr c by (simp_all add: miss_only_def hit_if_def)
  moreover have "raw_state env raw s4 = EXPIRED \<and> tally (RecordDomainQuery d) s4 = tally (RecordDomainQuery d) s3 + 1"
  proof -
    obtain cc where g: "GetRaw d q (sv_cache s3) = (Some raw, cc)" using assms(4) by (cases "GetRaw d q (sv_cache s3)") auto
    let ?s1 = "raw_hit env d raw (s3\<lparr>sv_cache := cc\<rparr>)"
    have "s4 = ?s1 \<and> raw_state env raw ?s1 = EXPIRED"
      using assms(5) by (auto simp: handleRawCacheHit_def g Let_def split: if_splits prod.splits)
    then show ?thesis by (auto simp: raw_hit_def uncounted)
  qed
  ultimately show ?thesis by blast
qed

definition old_entry :: RawCacheEntry where
  "old_entry = \<lparr>raw_Records = [], raw_IPs = [''1.2.3.4''], raw_CNAMEs = [], raw_UpstreamTTL = 60, raw_EffectiveTTL = 60,
     raw_AcquisitionTime = 0, raw_AuthenticatedData = False, raw_QueryVersion = 0, raw_gracePeriod = 0\<rparr>"

definition old_server :: "string list Server" where
  "old_server = on_cache (\<lambda>c. c\<lparr>c_rawCache := ShardedCache_Set (cacheKey ''a'' TypeA) old_entry (c_rawCache c)\<rparr>) example_server"

theorem expired_counted_as_hit_and_miss_witness:
  "\<exists>s'. handleAddressQuery ((example_server_env (\<lambda>u. ((None, Some NetworkOffline), u)))\<lparr>se_now := 1000000 * second\<rparr>)
      (example_query\<lparr>rq_DO := False\<rparr>) ''a'' TypeA old_server = Some s'
    \<and> tally IncCacheHits s' = 1 \<and> tally IncCacheMisses s' = 1"
proof -
  let ?e = "(example_server_env (\<lambda>u. ((None, Some NetworkOffline), u)))\<lparr>se_now := 1000000 * second\<rparr>"
  let ?r = "example_query\<lparr>rq_DO := False\<rparr>" and ?c = "sv_cache old_server"
  have 1: "handleMsgCacheHit ?e ?r ''a'' TypeA old_server = (False, old_server)" by (simp add: handleMsgCacheHit_def)
  have c: "c_errorCache ?c = NewLRUCache (c_maxEntries ?c)" "c_sortedCache ?c = ShardedLRUCache_SetOnEvict True (NewShardedLRUCache (c_maxEntries ?c) 64)"
    "c_rawCache ?c = ShardedCache_Set (cacheKey ''a'' TypeA) old_entry (NewShardedCache (c_maxEntries ?c) 64)"
    by (simp_all add: old_server_def on_cache_def example_server_def NewCache_def Let_def)
  have get: "fst (ShardedLRUCache_Get k slru) = ShardedLRUCache_GetNoUpdate k slru" for k and slru :: "SortedCacheEntry ShardedLRUCache"
    by (simp add: ShardedLRUCache_Get_def ShardedLRUCache_GetNoUpdate_def split: option.split)
  have inv: "ShardedLRUCache_inv (c_sortedCache ?c)" "ShardedLRUCache_content (c_sortedCache ?c) = []"
    using slru_new[of "c_maxEntries ?c" 64]
    by (simp_all add: c(2) ShardedLRUCache_SetOnEvict_def ShardedLRUCache_inv_def ShardedLRUCache_content_def)
  have e: "GetError (1000000 * second) ''a'' TypeA ?c = (None, ?c\<lparr>c_errorCache := snd (LRUCache_Get (cacheKey ''a'' TypeA) (c_errorCache ?c))\<rparr>)"
    by (simp add: GetError_def c(1) LRUCache_Get_def NewLRUCache_def)
  define s2 where "s2 = old_server\<lparr>sv_cache := ?c\<lparr>c_errorCache := snd (LRUCache_Get (cacheKey ''a'' TypeA) (c_errorCache ?c))\<rparr>\<rparr>"
  have 2: "handleErrorCacheHit ?e ?r ''a'' TypeA old_server = (False, s2)" by (simp add: handleErrorCacheHit_def e s2_def)
  obtain v sc where g: "ShardedLRUCache_Get (cacheKey ''a'' TypeA) (c_sortedCache ?c) = (v, sc)" by fastforce
  have "v = None" using get[of "cacheKey ''a'' TypeA" "c_sortedCache ?c"] slru_lookup[OF inv(1)] inv(2) g by simp
  then have srt: "GetSorted (1000000 * second) ''a'' TypeA (sv_cache s2) = (None, [], (sv_cache s2)\<lparr>c_sortedCache := sc\<rparr>)"
    by (simp add: GetSorted_def GetSortedWithStale_def s2_def g)
  define s3 where "s3 = pool_calls (1000000 * second) [] (s2\<lparr>sv_cache := (sv_cache s2)\<lparr>c_sortedCache := sc\<rparr>\<rparr>)"
  have 3: "handleSortedCacheHit ?e ?r ''a'' TypeA s2 = (False, s3)" by (simp add: handleSortedCacheHit_def srt s3_def)
  have c3: "c_rawCache (sv_cache s3) = c_rawCache ?c" by (simp add: s3_def s2_def pool_calls_def)
  obtain w rc where w: "ShardedCache_Get (cacheKey ''a'' TypeA) (c_rawCache ?c) = (w, rc)" by fastforce
  have "w = Some old_entry"
    using sharded_set_ok[OF sharded_new(1)] sharded_get_ok(2) w unfolding c(3) by (metis fst_conv)
  then have raw: "fst (GetRaw ''a'' TypeA (sv_cache s3)) = Some old_entry" by (simp add: GetRaw_def c3 w)
  obtain cc where gr: "GetRaw ''a'' TypeA (sv_cache s3) = (Some old_entry, cc)" using raw by (cases "GetRaw ''a'' TypeA (sv_cache s3)") auto
  define s4 where "s4 = raw_hit ?e ''a'' old_entry (s3\<lparr>sv_cache := cc\<rparr>)"
  have "raw_state ?e old_entry s4 = EXPIRED"
    by (simp add: raw_state_def GetStateWithConfig_def RawCacheEntry_IsExpired_def RawCacheEntry_GetState_def old_entry_def
        seconds_def second_def AncientLimitLowPressure_def Let_def)
  then have 4: "handleRawCacheHit ?e ?r ''a'' TypeA s3 = (False, s4)" by (simp add: handleRawCacheHit_def gr s4_def Let_def)
  obtain s' where q: "handleAddressQuery ?e ?r ''a'' TypeA old_server = Some s'"
    using 1 2 3 4 by (auto simp: handleAddressQuery_def handleCacheMiss_def first_query_def example_server_env_def Let_def TypeA_def TypeAAAA_def)
  have "tally IncCacheHits old_server = 0" "tally IncCacheMisses old_server = 0"
    by (simp_all add: tally_def old_server_def on_cache_def example_server_def)
  then show ?thesis using expired_counted_as_hit_and_miss[OF 1 2 3 raw 4 q] q by simp
qed

end
