(* ===== verification/Web_Config.thy ===== *)
theory Web_Config
  imports Stats_Counters Conn_Pool
begin

text \<open>\<open>webapi/api_config.go\<close>: the checks a configuration sent to the web interface goes through before it is
  written and applied. An error is a constructor with the values its message shows.\<close>

section \<open>Addresses of servers\<close>

datatype address_error =
    Addr_empty | Bracket_missing | IPv6_empty | IPv6_invalid string | IPv6_expected string | Colon_expected
  | Port_empty | Port_invalid string | Port_range int | Host_empty | Domain_empty | Domain_long | Domain_invalid string
  | IP_empty | IP_invalid string

text \<open>\<open>strconv.Atoi\<close>.\<close>

definition go_Atoi :: "string \<Rightarrow> int option" where
  "go_Atoi s = (let (neg, t) = (if s \<noteq> [] \<and> hd s = CHR ''-'' then (True, tl s)
        else if s \<noteq> [] \<and> hd s = CHR ''+'' then (False, tl s) else (False, s))
     in if t = [] then None
        else (case parse_digits 0 t of None \<Rightarrow> None
          | Some n \<Rightarrow> (let i = (if neg then - int n else int n) in if - (2 ^ 63) \<le> i \<and> i < 2 ^ 63 then Some i else None)))"

definition validatePortString :: "string \<Rightarrow> address_error option" where
  "validatePortString p = (if p = [] then Some Port_empty
     else (case go_Atoi p of None \<Rightarrow> Some (Port_invalid p)
       | Some n \<Rightarrow> if n < 1 \<or> 65535 < n then Some (Port_range n) else None))"

definition validateIPv6Address :: "string \<Rightarrow> address_error option" where
  "validateIPv6Address ip = (if ip = [] then Some IPv6_empty
     else (case ParseIP ip of None \<Rightarrow> Some (IPv6_invalid ip)
       | Some p \<Rightarrow> if To4 p \<noteq> None then Some (IPv6_expected ip) else None))"

definition validateIPAddress :: "string \<Rightarrow> address_error option" where
  "validateIPAddress ip = (if ip = [] then Some IP_empty else if ParseIP ip = None then Some (IP_invalid ip) else None)"

text \<open>The regular expression of a domain: labels of 1 to 63 letters, digits and hyphens, with neither a
  leading nor a trailing hyphen, separated by points.\<close>

definition is_alnum :: "char \<Rightarrow> bool" where
  "is_alnum c = (let n = (of_char c :: nat) in 48 \<le> n \<and> n \<le> 57 \<or> 65 \<le> n \<and> n \<le> 90 \<or> 97 \<le> n \<and> n \<le> 122)"

definition domain_label :: "string \<Rightarrow> bool" where
  "domain_label l \<longleftrightarrow> l \<noteq> [] \<and> length l \<le> 63 \<and> is_alnum (hd l) \<and> is_alnum (last l)
     \<and> list_all (\<lambda>c. is_alnum c \<or> c = CHR ''-'') l"

definition domainRegex :: "string \<Rightarrow> bool" where
  "domainRegex s \<longleftrightarrow> list_all domain_label (go_Split (CHR ''.'') s)"

definition validateDomainName :: "string \<Rightarrow> address_error option" where
  "validateDomainName d = (if d = [] then Some Domain_empty else if 253 < length d then Some Domain_long
     else if \<not> domainRegex d then Some (Domain_invalid d) else None)"

definition validateHostOrIP :: "string \<Rightarrow> address_error option" where
  "validateHostOrIP host = (if host = [] then Some Host_empty else if ParseIP host \<noteq> None then None
     else validateDomainName host)"

definition validate_bracketed :: "string \<Rightarrow> address_error option" where
  "validate_bracketed server = (let r = takeWhile (\<lambda>c. c \<noteq> CHR '']'') server in
     if length r = length server then Some Bracket_missing
     else if tl r = [] then Some IPv6_empty
     else (case validateIPv6Address (tl r) of Some e \<Rightarrow> Some e
       | None \<Rightarrow> (let rest = drop (length r + 1) server in
           if rest = [] then None
           else if hd rest \<noteq> CHR '':'' then Some Colon_expected
           else if tl rest = [] then Some Port_empty else validatePortString (tl rest))))"

definition validateServerAddress :: "string \<Rightarrow> address_error option" where
  "validateServerAddress server = (if server = [] then Some Addr_empty
     else if hd server = CHR ''['' then validate_bracketed server
     else (case last_colon server of None \<Rightarrow> validateHostOrIP server
       | Some i \<Rightarrow> if take i server = [] then Some Host_empty
           else (case validateHostOrIP (take i server) of Some e \<Rightarrow> Some e
             | None \<Rightarrow> validatePortString (drop (i + 1) server))))"

section \<open>The configuration\<close>

datatype config_error =
    Dns_port int | No_upstream | Upstream_timeout | Upstream_strategy string | Upstream_concurrency int
  | Sequential_timeout int | Racing_delay int | Racing_max int | Max_connections | Ewma_alpha | Max_step
  | Min_ttl_negative | Max_ttl_negative | Min_above_max | Fast_ttl | User_ttl | Negative_ttl | Error_ttl
  | Ping_count | Ping_timeout | Ping_concurrency | Ping_max_ips | Ping_rtt_ttl | Ping_strategy | Web_port int
  | Cpu_cores | Sort_workers | Refresh_workers | Hot_window | Blocked_window
  | Bad_server nat address_error | Bad_bootstrap nat address_error
  | Block_mode string | Same_port int | Memory_small | Ping_timeout_long

definition MinSequentialTimeoutMs :: int where "MinSequentialTimeoutMs = 100"
definition MaxSequentialTimeoutMs :: int where "MaxSequentialTimeoutMs = 2000"
definition MinRacingDelayMs :: int where "MinRacingDelayMs = 50"
definition MaxRacingDelayMs :: int where "MaxRacingDelayMs = 500"
definition MinRacingMaxConcurrent :: int where "MinRacingMaxConcurrent = 2"
definition MaxRacingMaxConcurrent :: int where "MaxRacingMaxConcurrent = 10"

text \<open>\<open>strings.Trim(server, "' ")\<close>.\<close>

definition is_quote :: "char \<Rightarrow> bool" where
  "is_quote c \<longleftrightarrow> of_char c = (39 :: nat) \<or> of_char c = (32 :: nat)"

definition trim_quotes :: "string \<Rightarrow> string" where
  "trim_quotes s = rev (dropWhile is_quote (rev (dropWhile is_quote s)))"

definition sanitized :: "Config \<Rightarrow> Config" where
  "sanitized cfg = cfg\<lparr>cfg_Upstream := (cfg_Upstream cfg)\<lparr>up_Servers := map trim_quotes (up_Servers (cfg_Upstream cfg)),
     up_BootstrapDNS := map trim_quotes (up_BootstrapDNS (cfg_Upstream cfg))\<rparr>\<rparr>"

text \<open>The checks in order, as long as the value is there; the first that fails is the error.\<close>

definition given :: "('a \<Rightarrow> bool) \<Rightarrow> 'a option \<Rightarrow> bool" where
  "given p x = (case x of None \<Rightarrow> False | Some v \<Rightarrow> p v)"

definition upstream_checks :: "UpstreamConfig \<Rightarrow> (bool \<times> config_error) list" where
  "upstream_checks u =
    [(up_Servers u = [] \<and> \<not> up_EnableRecursor u, No_upstream),
     (up_TimeoutMs u \<le> 0, Upstream_timeout),
     (up_Strategy u \<notin> {'''', ''random'', ''parallel'', ''sequential'', ''racing'', ''auto''}, Upstream_strategy (up_Strategy u)),
     (given (\<lambda>n. n \<le> 0) (up_Concurrency u), Upstream_concurrency (the (up_Concurrency u))),
     (given (\<lambda>v. v < MinSequentialTimeoutMs \<or> MaxSequentialTimeoutMs < v) (up_SequentialTimeout u), Sequential_timeout (the (up_SequentialTimeout u))),
     (given (\<lambda>v. v < MinRacingDelayMs \<or> MaxRacingDelayMs < v) (up_RacingDelay u), Racing_delay (the (up_RacingDelay u))),
     (given (\<lambda>v. v < MinRacingMaxConcurrent \<or> MaxRacingMaxConcurrent < v) (up_RacingMaxConcurrent u), Racing_max (the (up_RacingMaxConcurrent u))),
     (given (\<lambda>n. n < 0) (up_MaxConnections u), Max_connections),
     (given (\<lambda>a. a \<le> 0 \<or> 1 \<le> a) (dpo_EWMAAlpha (up_DynamicParamOptimization u)), Ewma_alpha),
     (given (\<lambda>n. n \<le> 0) (dpo_MaxStepMs (up_DynamicParamOptimization u)), Max_step)]"

definition cache_checks :: "CacheConfig \<Rightarrow> (bool \<times> config_error) list" where
  "cache_checks c =
    [(cache_MinTTLSeconds c < 0, Min_ttl_negative), (cache_MaxTTLSeconds c < 0, Max_ttl_negative),
     (0 < cache_MinTTLSeconds c \<and> 0 < cache_MaxTTLSeconds c \<and> cache_MaxTTLSeconds c < cache_MinTTLSeconds c, Min_above_max),
     (cache_FastResponseTTL c \<le> 0, Fast_ttl), (cache_UserReturnTTL c \<le> 0, User_ttl),
     (cache_NegativeTTLSeconds c < 0, Negative_ttl), (cache_ErrorCacheTTL c < 0, Error_ttl)]"

definition ping_checks :: "PingConfig \<Rightarrow> (bool \<times> config_error) list" where
  "ping_checks p =
    [(ping_Count p \<le> 0, Ping_count), (ping_TimeoutMs p \<le> 0, Ping_timeout), (ping_Concurrency p \<le> 0, Ping_concurrency),
     (ping_MaxTestIPs p < 0, Ping_max_ips), (ping_RttCacheTtlSeconds p < 0, Ping_rtt_ttl),
     (ping_Strategy p \<notin> {''min'', ''avg'', ''auto''}, Ping_strategy)]"

definition address_checks :: "(nat \<Rightarrow> address_error \<Rightarrow> config_error) \<Rightarrow> string list \<Rightarrow> (bool \<times> config_error) list" where
  "address_checks err servers = map (\<lambda>(i, s). (validateServerAddress s \<noteq> None, err i (the (validateServerAddress s)))) (enumerate 0 servers)"

definition config_checks :: "Config \<Rightarrow> (bool \<times> config_error) list" where
  "config_checks cfg =
     upstream_checks (cfg_Upstream cfg) @ cache_checks (cfg_Cache cfg) @ ping_checks (cfg_Ping cfg)
     @ [(web_ListenPort (cfg_WebUI cfg) \<le> 0 \<or> 65535 < web_ListenPort (cfg_WebUI cfg), Web_port (web_ListenPort (cfg_WebUI cfg))),
        (sys_MaxCPUCores (cfg_System cfg) < 0, Cpu_cores), (sys_SortQueueWorkers (cfg_System cfg) < 0, Sort_workers),
        (sys_RefreshWorkers (cfg_System cfg) < 0, Refresh_workers),
        (st_HotDomainsWindowHours (cfg_Stats cfg) < 0, Hot_window), (st_BlockedDomainsWindowHours (cfg_Stats cfg) < 0, Blocked_window)]
     @ address_checks Bad_server (up_Servers (cfg_Upstream cfg))
     @ address_checks Bad_bootstrap (up_BootstrapDNS (cfg_Upstream cfg))
     @ [(ad_Enable (cfg_AdBlock cfg) \<and> ad_BlockMode (cfg_AdBlock cfg) \<notin> {'''', ''nxdomain'', ''zero_ip'', ''refused'', ''custom_ip''},
           Block_mode (ad_BlockMode (cfg_AdBlock cfg))),
        (dns_ListenPort (cfg_DNS cfg) = web_ListenPort (cfg_WebUI cfg), Same_port (dns_ListenPort (cfg_DNS cfg))),
        (0 < cache_MaxMemoryMB (cfg_Cache cfg) \<and> cache_MaxMemoryMB (cfg_Cache cfg) < 10, Memory_small),
        (30000 < ping_TimeoutMs (cfg_Ping cfg), Ping_timeout_long)]"

definition first_error :: "(bool \<times> config_error) list \<Rightarrow> config_error option" where
  "first_error cs = map_option snd (find fst cs)"

text \<open>\<open>validateConfig\<close> gives the error and the configuration, whose addresses it trims.\<close>

definition validateConfig :: "Config \<Rightarrow> config_error option \<times> Config" where
  "validateConfig cfg = (let p = dns_ListenPort (cfg_DNS cfg) in
     if p \<le> 0 \<or> 65535 < p then (Some (Dns_port p), cfg)
     else (first_error (config_checks (sanitized cfg)), sanitized cfg))"

section \<open>Lemmas\<close>

lemma first_error_None: "first_error cs = None \<longleftrightarrow> (\<forall>c \<in> set cs. \<not> fst c)"
  by (induction cs) (auto simp: first_error_def find_None_iff)

lemma address_checks_ok: "first_error (address_checks err ss) = None \<longleftrightarrow> (\<forall>s \<in> set ss. validateServerAddress s = None)"
proof -
  have "first_error (address_checks err ss) = None \<longleftrightarrow> (\<forall>p \<in> set (enumerate 0 ss). validateServerAddress (snd p) = None)"
    by (auto simp: first_error_None address_checks_def split_beta)
  also have "\<dots> \<longleftrightarrow> (\<forall>s \<in> snd ` set (enumerate 0 ss). validateServerAddress s = None)" by simp
  also have "snd ` set (enumerate 0 ss) = set ss" by (metis map_snd_enumerate set_map)
  finally show ?thesis .
qed

lemma last_colon_Some:
  assumes "last_colon s = Some i"
  shows "i < length s" "s ! i = CHR '':''" "j < length s \<Longrightarrow> s ! j = CHR '':'' \<Longrightarrow> j \<le> i"
proof -
  let ?is = "filter (\<lambda>i. s ! i = CHR '':'') [0..<length s]"
  have i: "?is \<noteq> []" "i = last ?is" using assms by (auto simp: last_colon_def split: list.splits)
  have "i \<in> set ?is" unfolding i(2) by (rule last_in_set[OF i(1)])
  then show "i < length s" "s ! i = CHR '':''" by simp_all
  show "j \<le> i" if "j < length s" "s ! j = CHR '':''"
  proof -
    have "j \<in> set ?is" using that by auto
    moreover have "sorted ?is" by (simp add: sorted_wrt_filter)
    moreover have "?is = butlast ?is @ [i]" using append_butlast_last_id[OF i(1)] i(2) by simp
    ultimately show ?thesis using sorted_append[of "butlast ?is" "[i]"] by (metis Un_iff empty_iff empty_set le_refl list.set_intros(1) set_ConsD set_append)
  qed
qed

lemma last_colon_None: "last_colon s = None \<longleftrightarrow> CHR '':'' \<notin> set s"
proof -
  have "last_colon s = None \<longleftrightarrow> filter (\<lambda>i. s ! i = CHR '':'') [0..<length s] = []"
    by (simp add: last_colon_def split: list.split)
  then show ?thesis by (auto simp: filter_empty_conv in_set_conv_nth)
qed

lemma in_go_Split: "c \<in> set s \<Longrightarrow> c \<noteq> sep \<Longrightarrow> \<exists>p \<in> set (go_Split sep s). c \<in> set p"
  by (induction s) (auto split: list.splits)

text \<open>No address has a slash in it.\<close>

lemma parse_digits_slash: "parse_digits a s = Some n \<Longrightarrow> CHR ''/'' \<notin> set s"
  by (induction s arbitrary: a) (auto simp: digit_value_def split: option.splits)

lemma all_some_map: "all_some (map f xs) = Some ys \<Longrightarrow> x \<in> set xs \<Longrightarrow> \<exists>y. f x = Some y"
proof (induction xs arbitrary: ys)
  case (Cons a xs)
  then show ?case by (cases "f a") auto
qed simp

lemma parse_v4_slash: "parse_v4 s = Some bs \<Longrightarrow> CHR ''/'' \<notin> set s"
proof
  assume v: "parse_v4 s = Some bs" and "CHR ''/'' \<in> set s"
  then obtain p where p: "p \<in> set (go_Split (CHR ''.'') s)" "CHR ''/'' \<in> set p" using in_go_Split[of "CHR ''/''" s "CHR ''.''"] by auto
  have "all_some (map parse_octet (go_Split (CHR ''.'') s)) = Some bs" using v by (simp add: parse_v4_def Let_def split: if_splits)
  from all_some_map[OF this p(1)] obtain y where "parse_octet p = Some y" ..
  then show False using p(2) parse_digits_slash[of 0 p] by (auto simp: parse_octet_def split: if_splits option.splits)
qed

lemma parse_group_slash: "parse_group s = Some n \<Longrightarrow> CHR ''/'' \<notin> set s"
proof
  assume g: "parse_group s = Some n" and c: "CHR ''/'' \<in> set s"
  obtain ys where "all_some (map hex_value s) = Some ys" using g by (auto simp: parse_group_def split: if_splits)
  from all_some_map[OF this c] obtain y where "hex_value (CHR ''/'') = Some y" ..
  then show False by (simp add: hex_value_def)
qed

lemma parse_groups_slash: "parse_groups ss = Some gs \<Longrightarrow> s \<in> set ss \<Longrightarrow> CHR ''/'' \<notin> set s"
proof (induction ss arbitrary: gs rule: parse_groups.induct)
  case (2 s')
  then show ?case by (auto simp: parse_v4_slash parse_group_slash split: if_splits option.splits)
next
  case (3 s' t ss)
  then show ?case by (auto simp: parse_group_slash split: option.splits)
qed simp

lemma split_groups_slash: "parse_groups (go_Split (CHR '':'') s) = Some gs \<Longrightarrow> CHR ''/'' \<notin> set s"
  using in_go_Split[of "CHR ''/''" s "CHR '':''"] parse_groups_slash by fastforce

lemma split_ellipsis_parts: "split_ellipsis s = Some (l, r) \<Longrightarrow> s = l @ CHR '':'' # CHR '':'' # r"
  by (induction s arbitrary: l r rule: split_ellipsis.induct) (auto split: if_splits)

lemma side_groups_slash: "side_groups s = Some gs \<Longrightarrow> CHR ''/'' \<notin> set s"
  by (auto simp: side_groups_def split_groups_slash split: if_splits)

lemma parse_v6_slash: "parse_v6 s = Some p \<Longrightarrow> CHR ''/'' \<notin> set s"
  by (auto simp: parse_v6_def dest!: split_groups_slash split_ellipsis_parts side_groups_slash split: option.splits if_splits)

lemma ParseIP_slash: "ParseIP s = Some p \<Longrightarrow> CHR ''/'' \<notin> set s"
  by (auto simp: ParseIP_def parse_v4_slash parse_v6_slash split: list.splits if_splits)

lemma domainRegex_slash: "domainRegex s \<Longrightarrow> CHR ''/'' \<notin> set s"
proof
  assume d: "domainRegex s" and "CHR ''/'' \<in> set s"
  then obtain p where p: "p \<in> set (go_Split (CHR ''.'') s)" "CHR ''/'' \<in> set p" using in_go_Split[of "CHR ''/''" s "CHR ''.''"] by auto
  then have "domain_label p" using d by (simp add: domainRegex_def list_all_iff)
  then have "is_alnum (CHR ''/'')" using p(2) by (auto simp: domain_label_def list_all_iff)
  then show False by (simp add: is_alnum_def)
qed

lemma validateHostOrIP_slash: "CHR ''/'' \<in> set host \<Longrightarrow> validateHostOrIP host \<noteq> None"
  using ParseIP_slash[of host] domainRegex_slash[of host] by (auto simp: validateHostOrIP_def validateDomainName_def)

lemma validate_parts:
  assumes "last_colon s = Some i" "hd s \<noteq> CHR ''[''" "validateHostOrIP (take i s) \<noteq> None \<or> validatePortString (drop (i + 1) s) \<noteq> None"
  shows "validateServerAddress s \<noteq> None"
  using assms by (auto simp: validateServerAddress_def split: option.split)

text \<open>A server written as a URL is refused.\<close>

lemma url_refused:
  assumes "CHR ''['' \<notin> set scheme"
  shows "validateServerAddress (scheme @ ''://'' @ rest) \<noteq> None"
proof -
  let ?s = "scheme @ ''://'' @ rest"
  have hd: "?s \<noteq> []" "hd ?s \<noteq> CHR ''[''" using assms by (cases scheme; auto)+
  obtain i where i: "last_colon ?s = Some i" using last_colon_None[of ?s] by (cases "last_colon ?s") auto
  note l = last_colon_Some[OF i]
  have "length scheme \<le> i" using l(3)[of "length scheme"] by (simp add: nth_append)
  moreover have "i \<noteq> length scheme + 1" "i \<noteq> length scheme + 2" using l(2) by (auto simp: nth_append)
  ultimately consider "i = length scheme" | "length scheme + 2 < i" by linarith
  then show ?thesis
  proof cases
    case 1
    have "go_Atoi (CHR ''/'' # CHR ''/'' # rest) = None"
      by (simp add: go_Atoi_def digit_value_def)
    then have "validatePortString (drop (i + 1) ?s) \<noteq> None" using 1 by (simp add: validatePortString_def)
    then show ?thesis by (intro validate_parts[OF i hd(2)] disjI2)
  next
    case 2
    have "take i ?s ! (length scheme + 1) = CHR ''/''" using 2 by (simp add: nth_append)
    then have "CHR ''/'' \<in> set (take i ?s)" using 2 l(1) nth_mem[of "length scheme + 1" "take i ?s"] by (simp del: take_append)
    then show ?thesis by (intro validate_parts[OF i hd(2)] disjI1 validateHostOrIP_slash)
  qed
qed

section \<open>Properties\<close>

text \<open>C38: A configuration in which a server is written as a URL, such as the encrypted servers of the
  default configuration, is never accepted from the web interface, although the program itself creates its
  transports from such URLs.\<close>

theorem url_servers_rejected:
  assumes "server \<in> set (up_Servers (cfg_Upstream cfg))" "trim_quotes server = scheme @ ''://'' @ rest" "CHR ''['' \<notin> set scheme"
  shows "fst (validateConfig cfg) \<noteq> None"
proof -
  have "validateServerAddress (trim_quotes server) \<noteq> None" unfolding assms(2) by (rule url_refused[OF assms(3)])
  then have "first_error (address_checks Bad_server (up_Servers (cfg_Upstream (sanitized cfg)))) \<noteq> None"
    using assms(1) by (auto simp: address_checks_ok sanitized_def)
  then have "first_error (config_checks (sanitized cfg)) \<noteq> None"
    by (auto simp: first_error_None config_checks_def)
  then show ?thesis by (simp add: validateConfig_def Let_def)
qed

theorem url_servers_rejected_witness:
  "fst (validateConfig (example_cfg\<lparr>cfg_Upstream := (cfg_Upstream example_cfg)\<lparr>up_Servers := [''https://doh.pub/dns-query'']\<rparr>\<rparr>)) \<noteq> None"
proof (rule url_servers_rejected)
  show "trim_quotes ''https://doh.pub/dns-query'' = ''https'' @ ''://'' @ ''doh.pub/dns-query''"
    by (simp add: trim_quotes_def is_quote_def)
qed simp_all

text \<open>C39: The checks accept settings that end the program when it starts: whatever accepted configuration
  gets a negative number of shards for the statistics is accepted too, survives the filling-in of defaults
  and makes the construction of the statistics panic.\<close>

theorem accepted_config_panics:
  assumes "validateConfig cfg = (None, accepted)" "n < 0"
  defines "shards c \<equiv> c\<lparr>cfg_Stats := (cfg_Stats c)\<lparr>st_HotDomainsShardCount := n\<rparr>\<rparr>"
  shows "validateConfig (shards cfg) = (None, shards accepted)
    \<and> NewStats now (cfg_Stats (setDefaultValues yaml_fields numCPU (shards accepted) raw)) = None"
proof
  have s: "sanitized (shards cfg) = shards (sanitized cfg)" "config_checks (shards c) = config_checks c" for c
    by (simp_all add: sanitized_def shards_def config_checks_def)
  have a: "accepted = sanitized cfg" "first_error (config_checks (sanitized cfg)) = None"
    "0 < dns_ListenPort (cfg_DNS cfg)" "dns_ListenPort (cfg_DNS cfg) \<le> 65535"
    using assms(1) by (auto simp: validateConfig_def Let_def split: if_splits)
  have "dns_ListenPort (cfg_DNS (shards cfg)) = dns_ListenPort (cfg_DNS cfg)" by (simp add: shards_def)
  then show "validateConfig (shards cfg) = (None, shards accepted)"
    unfolding validateConfig_def Let_def s a(1) using a by simp
  let ?st = "cfg_Stats (setDefaultValues yaml_fields numCPU (shards accepted) raw)"
  have "st_HotDomainsShardCount ?st = n"
    using assms(2) by (simp add: setDefaultValues_def setStatsDefaults_def shards_def dflt_def Let_def)
  then show "NewStats now ?st = None"
    using assms(2) by (simp add: NewStats_def NewHotDomainsTracker_def newTimeBucket_def Let_def split: option.split)
qed

theorem accepted_config_panics_witness:
  "\<exists>c. validateConfig c = (None, c) \<and> NewStats 0 (cfg_Stats (setDefaultValues (\<lambda>_. None) 4 c [])) = None"
proof -
  define cfg where "cfg = example_cfg\<lparr>cfg_Upstream := (cfg_Upstream example_cfg)\<lparr>up_Servers := [''dns'']\<rparr>\<rparr>"
  have v: "validateServerAddress ''dns'' = None"
    by (simp add: validateServerAddress_def last_colon_None[THEN iffD2] validateHostOrIP_def ParseIP_def validateDomainName_def
        domainRegex_def domain_label_def is_alnum_def)
  have s: "sanitized cfg = cfg" by (simp add: sanitized_def cfg_def example_cfg_def trim_quotes_def is_quote_def)
  have "first_error (config_checks cfg) = None"
    by (simp add: first_error_None config_checks_def upstream_checks_def cache_checks_def ping_checks_def address_checks_def
        given_def cfg_def example_cfg_def example_config_def v)
  then have "validateConfig cfg = (None, cfg)"
    unfolding validateConfig_def s by (simp add: cfg_def example_cfg_def)
  from accepted_config_panics[OF this, of "-1" 0 "\<lambda>_. None" 4 "[]"]
  have r: "validateConfig (cfg\<lparr>cfg_Stats := (cfg_Stats cfg)\<lparr>st_HotDomainsShardCount := - 1\<rparr>\<rparr>)
      = (None, cfg\<lparr>cfg_Stats := (cfg_Stats cfg)\<lparr>st_HotDomainsShardCount := - 1\<rparr>\<rparr>)"
    "NewStats 0 (cfg_Stats (setDefaultValues (\<lambda>_. None) 4
      (cfg\<lparr>cfg_Stats := (cfg_Stats cfg)\<lparr>st_HotDomainsShardCount := - 1\<rparr>\<rparr>) [])) = None" by simp_all
  show ?thesis by (intro exI conjI) (rule r)+
qed

end
