(* ===== verification/Web_Api.thy ===== *)
theory Web_Api
  imports Web_Config
begin

text \<open>The web interface: tokens against forged requests (\<open>api_csrf.go\<close>), the middleware (\<open>api_security.go\<close>)
  and the handlers that read and write the configuration file or keep a flag (\<open>api_config.go\<close>,
  \<open>api_adblock.go\<close>, \<open>api_handlers.go\<close>, \<open>api_utils.go\<close>). The YAML package and the decoding of JSON bodies are
  parameters. The texts of messages are left out.\<close>

section \<open>Tokens\<close>

record CSRFToken =
  tk_Token :: string
  tk_CreatedAt :: instant
  tk_ExpiresAt :: instant

record CSRFManager =
  csrf_tokens :: "(string \<times> CSRFToken) list"
  csrf_tokenLength :: int
  csrf_tokenExpiry :: duration

definition NewCSRFManager :: "int \<Rightarrow> duration \<Rightarrow> CSRFManager" where
  "NewCSRFManager len expiry = \<lparr>csrf_tokens = [], csrf_tokenLength = len, csrf_tokenExpiry = expiry\<rparr>"

text \<open>\<open>DefaultCSRFConfig\<close>.\<close>

definition default_csrf :: CSRFManager where
  "default_csrf = NewCSRFManager 32 (2 * hour)"

text \<open>\<open>base64.URLEncoding\<close>.\<close>

definition b64_char :: "nat \<Rightarrow> char" where
  "b64_char n = (if n < 26 then char_of (65 + n) else if n < 52 then char_of (71 + n)
     else if n < 62 then char_of (n - 4) else if n = 62 then CHR ''-'' else CHR ''_'')"

fun base64_url :: "8 word list \<Rightarrow> string" where
  "base64_url [] = []"
| "base64_url [a] = (let x = unat a in [b64_char (x div 4), b64_char (x mod 4 * 16), CHR ''='', CHR ''=''])"
| "base64_url [a, b] = (let x = unat a; y = unat b in
     [b64_char (x div 4), b64_char (x mod 4 * 16 + y div 16), b64_char (y mod 16 * 4), CHR ''=''])"
| "base64_url (a # b # c # rest) = (let x = unat a; y = unat b; z = unat c in
     [b64_char (x div 4), b64_char (x mod 4 * 16 + y div 16), b64_char (y mod 16 * 4 + z div 64), b64_char (z mod 64)]
     @ base64_url rest)"

text \<open>\<open>random\<close> is what \<open>rand.Read\<close> fills the buffer with, \<open>nowText\<close> the printed time.\<close>

definition GenerateToken :: "8 word list option \<Rightarrow> 8 word list \<Rightarrow> instant \<Rightarrow> CSRFManager \<Rightarrow> string \<times> CSRFManager" where
  "GenerateToken random nowText now m = (case random of
      None \<Rightarrow> (base64_url nowText, m)
    | Some bytes \<Rightarrow> (let t = base64_url bytes in
        (t, m\<lparr>csrf_tokens := upsert t \<lparr>tk_Token = t, tk_CreatedAt = now, tk_ExpiresAt = now + csrf_tokenExpiry m\<rparr>
               (\<lambda>_. \<lparr>tk_Token = t, tk_CreatedAt = now, tk_ExpiresAt = now + csrf_tokenExpiry m\<rparr>) (csrf_tokens m)\<rparr>)))"

definition ValidateToken :: "instant \<Rightarrow> string \<Rightarrow> CSRFManager \<Rightarrow> bool" where
  "ValidateToken now token m = (if token = [] then False
     else (case map_of (csrf_tokens m) token of None \<Rightarrow> False | Some t \<Rightarrow> \<not> tk_ExpiresAt t < now))"

definition RemoveToken :: "string \<Rightarrow> CSRFManager \<Rightarrow> CSRFManager" where
  "RemoveToken token m = m\<lparr>csrf_tokens := drop_key token (csrf_tokens m)\<rparr>"

definition cleanupExpiredTokens :: "instant \<Rightarrow> CSRFManager \<Rightarrow> CSRFManager" where
  "cleanupExpiredTokens now m = m\<lparr>csrf_tokens := filter (\<lambda>(_, t). \<not> tk_ExpiresAt t < now) (csrf_tokens m)\<rparr>"

section \<open>Requests\<close>

datatype http_method = GET | HEAD | OPTIONS | POST | PUT | DELETE | Other_method string

record http_request =
  hq_Method :: http_method
  hq_Path :: string
  hq_Origin :: string
  hq_Token :: string        \<comment> \<open>the header \<open>X-CSRF-Token\<close>\<close>
  hq_FormToken :: string
  hq_Query :: "string \<Rightarrow> string"
  hq_ContentLength :: int
  hq_Body :: string

datatype web_data = No_data | Token_data string duration | Config_data Config | Settings_data "int list" | Flag_data bool

type_synonym headers = "(string \<times> string) list"

record http_response =
  hs_Status :: int
  hs_Headers :: headers
  hs_Data :: web_data

definition set_header :: "string \<Rightarrow> string \<Rightarrow> headers \<Rightarrow> headers" where
  "set_header k v h = upsert k v (\<lambda>_. v) h"

type_synonym 's handler = "http_request \<Rightarrow> headers \<Rightarrow> 's \<Rightarrow> http_response \<times> 's"

definition writeJSONError :: "int \<Rightarrow> headers \<Rightarrow> http_response" where
  "writeJSONError status h = \<lparr>hs_Status = status, hs_Headers = set_header ''Content-Type'' ''application/json'' h, hs_Data = No_data\<rparr>"

definition writeJSONSuccess :: "web_data \<Rightarrow> headers \<Rightarrow> http_response" where
  "writeJSONSuccess d h = \<lparr>hs_Status = 200, hs_Headers = set_header ''Content-Type'' ''application/json'' h, hs_Data = d\<rparr>"

section \<open>Middleware\<close>

record SecurityConfig =
  se_AllowedOrigins :: "string list"
  se_AllowedMethods :: "string list"
  se_AllowedHeaders :: "string list"
  se_Policies :: headers   \<comment> \<open>the other headers and their values, in the order they are set\<close>

definition DefaultSecurityConfig :: "string \<Rightarrow> SecurityConfig" where
  "DefaultSecurityConfig csp = \<lparr>se_AllowedOrigins = [],
     se_AllowedMethods = [''GET'', ''POST'', ''PUT'', ''DELETE'', ''OPTIONS''],
     se_AllowedHeaders = [''Content-Type'', ''X-CSRF-Token'', ''Authorization''],
     se_Policies = [(''Content-Security-Policy'', csp), (''X-Frame-Options'', ''SAMEORIGIN''),
       (''X-Content-Type-Options'', ''nosniff''), (''X-XSS-Protection'', ''1; mode=block''),
       (''Referrer-Policy'', ''strict-origin-when-cross-origin''),
       (''Permissions-Policy'', ''geolocation=(), microphone=(), camera=()'')]\<rparr>"

definition securityMiddleware :: "SecurityConfig \<Rightarrow> 's handler \<Rightarrow> 's handler" where
  "securityMiddleware cfg next rq h s =
     next rq (fold (\<lambda>(k, v) h. if v \<noteq> [] then set_header k v h else h) (se_Policies cfg) h) s"

fun origin_allowed :: "string \<Rightarrow> string list \<Rightarrow> string" where
  "origin_allowed origin [] = []"
| "origin_allowed origin (a # as) = (if a = ''*'' then ''*''
     else if a = origin then origin
     else if prefix ''*.'' a \<and> (suffix (''://'' @ drop 2 a) origin \<or> suffix (''.'' @ drop 2 a) origin) then origin
     else origin_allowed origin as)"

definition getAllowedOrigin :: "SecurityConfig \<Rightarrow> string \<Rightarrow> string" where
  "getAllowedOrigin cfg origin = (if se_AllowedOrigins cfg = [] then origin else origin_allowed origin (se_AllowedOrigins cfg))"

definition cors_headers :: "SecurityConfig \<Rightarrow> string \<Rightarrow> headers \<Rightarrow> headers" where
  "cors_headers cfg allowed h =
     set_header ''Access-Control-Max-Age'' ''86400'' (set_header ''Access-Control-Allow-Credentials'' ''true''
      (set_header ''Access-Control-Allow-Headers'' (go_Join '', '' (se_AllowedHeaders cfg))
       (set_header ''Access-Control-Allow-Methods'' (go_Join '', '' (se_AllowedMethods cfg))
        (set_header ''Access-Control-Allow-Origin'' allowed h))))"

definition enhancedCORSMiddleware :: "SecurityConfig \<Rightarrow> 's handler \<Rightarrow> 's handler" where
  "enhancedCORSMiddleware cfg next rq h s = (if hq_Origin rq = [] then next rq h s
     else (let allowed = getAllowedOrigin cfg (hq_Origin rq);
               h1 = (if allowed \<noteq> [] then cors_headers cfg allowed h else h)
           in if hq_Method rq = OPTIONS
              then (\<lparr>hs_Status = (if allowed \<noteq> [] then 200 else 403), hs_Headers = h1, hs_Data = No_data\<rparr>, s)
              else next rq h1 s))"

definition csrfMiddleware :: "instant \<Rightarrow> ('s \<Rightarrow> CSRFManager) \<Rightarrow> 's handler \<Rightarrow> 's handler" where
  "csrfMiddleware now tokens next rq h s = (if hq_Method rq \<in> {GET, HEAD, OPTIONS} then next rq h s
     else (let token = (if hq_Token rq = [] then hq_FormToken rq else hq_Token rq)
           in if \<not> ValidateToken now token (tokens s) then (writeJSONError 403 h, s) else next rq h s))"

definition combinedSecurityMiddleware :: "instant \<Rightarrow> SecurityConfig \<Rightarrow> ('s \<Rightarrow> CSRFManager) \<Rightarrow> 's handler \<Rightarrow> 's handler" where
  "combinedSecurityMiddleware now cfg tokens next =
     csrfMiddleware now tokens (enhancedCORSMiddleware cfg (securityMiddleware cfg next))"

section \<open>The configuration file\<close>

text \<open>The YAML and JSON packages, and what the file system answers. \<open>we_partial\<close> is what the decoder leaves
  of a template that does not parse.\<close>

record web_env =
  we_now :: instant
  we_random :: "8 word list option"
  we_nowText :: "8 word list"
  we_yaml :: "string \<Rightarrow> Config option"
  we_yaml_fields :: yaml_parser
  we_marshal :: "Config \<Rightarrow> string option"
  we_merge :: "string \<Rightarrow> Config \<Rightarrow> Config option"
  we_json :: "string \<Rightarrow> (string \<Rightarrow> string) option"
  we_json_int :: "string \<Rightarrow> (string \<Rightarrow> int) option"
  we_default :: string
  we_partial :: Config
  we_readable :: bool
  we_writable :: bool
  we_numCPU :: int
  we_configPath :: string

datatype web_job = Restart_job | Update_rules_job

record web_server =
  ws_csrf :: CSRFManager
  ws_file :: "string option"
  ws_backups :: "(string \<times> string) list"
  ws_running :: Config
  ws_isRestarting :: bool
  ws_isAdblockBusy :: bool
  ws_hasRestartFunc :: bool
  ws_hasAdblock :: bool
  ws_adblockEnabled :: bool
  ws_jobs :: "web_job list"

definition CreateDefaultConfig :: "web_env \<Rightarrow> web_server \<Rightarrow> bool \<times> web_server" where
  "CreateDefaultConfig env s = (if we_writable env then (True, s\<lparr>ws_file := Some (we_default env)\<rparr>) else (False, s))"

definition load_text :: "web_env \<Rightarrow> string \<Rightarrow> Config option" where
  "load_text env text = map_option (\<lambda>c. setDefaultValues (we_yaml_fields env) (we_numCPU env) c text) (we_yaml env text)"

definition LoadConfig :: "web_env \<Rightarrow> web_server \<Rightarrow> Config option \<times> web_server" where
  "LoadConfig env s = (case ws_file s of
      Some text \<Rightarrow> (if we_readable env then load_text env text else None, s)
    | None \<Rightarrow> (case CreateDefaultConfig env s of
          (False, s1) \<Rightarrow> (None, s1)
        | (True, s1) \<Rightarrow> (if we_readable env then load_text env (we_default env) else None, s1)))"

definition writeConfigFile :: "web_env \<Rightarrow> string \<Rightarrow> web_server \<Rightarrow> bool \<times> web_server" where
  "writeConfigFile env text s = (if we_writable env then (True, s\<lparr>ws_file := Some text\<rparr>) else (False, s))"

text \<open>\<open>ApplyConfig\<close> never fails; of what it does, the configuration in use is modelled.\<close>

definition apply_config :: "Config \<Rightarrow> web_server \<Rightarrow> web_server" where
  "apply_config cfg s = s\<lparr>ws_running := cfg\<rparr>"

text \<open>The copy of the file, of which the last five by name are kept.\<close>

definition backupConfigFile :: "web_env \<Rightarrow> string \<Rightarrow> web_server \<Rightarrow> web_server" where
  "backupConfigFile env dst s = (case ws_file s of
      None \<Rightarrow> s
    | Some data \<Rightarrow> if \<not> we_readable env \<or> \<not> we_writable env then s
        else (let bs = upsert dst data (\<lambda>_. data) (ws_backups s);
                  names = sort_strings (keys_of bs);
                  old = take (length names - 5) names
              in s\<lparr>ws_backups := filter (\<lambda>(k, _). k \<notin> set old) bs\<rparr>))"

definition backup_name :: "web_env \<Rightarrow> string" where
  "backup_name env = we_configPath env @ ''.backup_'' @ FormatInt (we_now env div second)"

definition handlePostConfig :: "web_env \<Rightarrow> web_server handler" where
  "handlePostConfig env rq h s = (if 1048576 < hq_ContentLength rq then (writeJSONError 413 h, s)
     else (let (loaded, s1) = LoadConfig env s;
               base = (case loaded of Some c \<Rightarrow> c
                 | None \<Rightarrow> SetDefaults (we_yaml_fields env) (we_numCPU env)
                     (case we_yaml env (we_default env) of Some c \<Rightarrow> c | None \<Rightarrow> we_partial env))
           in case we_merge env (take 1048576 (hq_Body rq)) base of
                None \<Rightarrow> (writeJSONError 400 h, s1)
              | Some merged \<Rightarrow> (case validateConfig merged of
                    (Some e, _) \<Rightarrow> (writeJSONError 400 h, s1)
                  | (None, newCfg) \<Rightarrow> (let s2 = backupConfigFile env (backup_name env) s1
                      in case we_marshal env newCfg of
                           None \<Rightarrow> (writeJSONError 500 h, s2)
                         | Some text \<Rightarrow> (case writeConfigFile env text s2 of
                               (False, s3) \<Rightarrow> (writeJSONError 500 h, s3)
                             | (True, s3) \<Rightarrow> (writeJSONSuccess No_data h, apply_config newCfg s3))))))"

text \<open>The configuration applied on a reset is the template as it is, without the defaults.\<close>

definition handleResetConfig :: "web_env \<Rightarrow> web_server handler" where
  "handleResetConfig env rq h s = (let s1 = backupConfigFile env (backup_name env) s
     in case we_yaml env (we_default env) of
          None \<Rightarrow> (writeJSONError 500 h, s1)
        | Some newCfg \<Rightarrow> (case writeConfigFile env (we_default env) s1 of
              (False, s2) \<Rightarrow> (writeJSONError 500 h, s2)
            | (True, s2) \<Rightarrow> (writeJSONSuccess No_data h, apply_config newCfg s2)))"

definition handleGetConfig :: "web_server handler" where
  "handleGetConfig rq h s = (writeJSONSuccess (Config_data (ws_running s)) h, s)"

definition handleExportConfig :: "web_server handler" where
  "handleExportConfig rq h s = (\<lparr>hs_Status = 200, hs_Headers =
     set_header ''Content-Disposition'' ''attachment; filename=smartdnssort-config.json''
      (set_header ''Content-Type'' ''application/json'' h), hs_Data = Config_data (ws_running s)\<rparr>, s)"

definition handleConfig :: "web_env \<Rightarrow> web_server handler" where
  "handleConfig env rq h s = (case hq_Method rq of
      GET \<Rightarrow> if hq_Path rq = ''/api/config/export'' then handleExportConfig rq h s else handleGetConfig rq h s
    | POST \<Rightarrow> if hq_Path rq = ''/api/config/reset'' then handleResetConfig env rq h s else handlePostConfig env rq h s
    | _ \<Rightarrow> (writeJSONError 405 h, s))"

definition handleCSRFToken :: "web_env \<Rightarrow> web_server handler" where
  "handleCSRFToken env rq h s = (if hq_Method rq \<noteq> GET then (writeJSONError 405 h, s)
     else (let (t, m) = GenerateToken (we_random env) (we_nowText env) (we_now env) (ws_csrf s)
           in (writeJSONSuccess (Token_data t (csrf_tokenExpiry m)) h, s\<lparr>ws_csrf := m\<rparr>)))"

section \<open>Changes of single settings\<close>

text \<open>The file is loaded, changed, written and applied.\<close>

definition change_config :: "web_env \<Rightarrow> (Config \<Rightarrow> Config) \<Rightarrow> headers \<Rightarrow> web_data \<Rightarrow> web_server \<Rightarrow> http_response \<times> web_server" where
  "change_config env f h d s = (case LoadConfig env s of
      (None, s1) \<Rightarrow> (writeJSONError 500 h, s1)
    | (Some cfg, s1) \<Rightarrow> (case we_marshal env (f cfg) of
          None \<Rightarrow> (writeJSONError 500 h, s1)
        | Some text \<Rightarrow> (case writeConfigFile env text s1 of
              (False, s2) \<Rightarrow> (writeJSONError 500 h, s2)
            | (True, s2) \<Rightarrow> (writeJSONSuccess d h, apply_config (f cfg) s2))))"

definition with_block_mode :: "string \<Rightarrow> Config \<Rightarrow> Config" where
  "with_block_mode mode cfg = cfg\<lparr>cfg_AdBlock := (cfg_AdBlock cfg)\<lparr>ad_BlockMode := mode\<rparr>\<rparr>"

definition handleAdBlockBlockMode :: "web_env \<Rightarrow> web_server handler" where
  "handleAdBlockBlockMode env rq h s = (if hq_Method rq \<noteq> POST then (writeJSONError 405 h, s)
     else (case we_json env (hq_Body rq) of
         None \<Rightarrow> (writeJSONError 400 h, s)
       | Some payload \<Rightarrow> (let mode = payload ''block_mode'' in
           if mode \<noteq> ''nxdomain'' \<and> mode \<noteq> ''refused'' \<and> mode \<noteq> ''zero_ip'' then (writeJSONError 400 h, s)
           else change_config env (with_block_mode mode) h No_data s)))"

definition handleGetAdBlockSettings :: "web_server handler" where
  "handleGetAdBlockSettings rq h s = (let a = cfg_AdBlock (ws_running s) in
     (writeJSONSuccess (Settings_data [ad_UpdateIntervalHours a, ad_MaxCacheAgeHours a, ad_MaxCacheSizeMB a, ad_BlockedTTL a]) h, s))"

definition with_settings :: "int \<Rightarrow> int \<Rightarrow> int \<Rightarrow> int \<Rightarrow> Config \<Rightarrow> Config" where
  "with_settings interval age mb ttl cfg = cfg\<lparr>cfg_AdBlock := (cfg_AdBlock cfg)\<lparr>ad_UpdateIntervalHours := interval,
     ad_MaxCacheAgeHours := age, ad_MaxCacheSizeMB := mb, ad_BlockedTTL := ttl\<rparr>\<rparr>"

definition handlePostAdBlockSettings :: "web_env \<Rightarrow> web_server handler" where
  "handlePostAdBlockSettings env rq h s = (case we_json_int env (hq_Body rq) of
      None \<Rightarrow> (writeJSONError 400 h, s)
    | Some p \<Rightarrow> (let interval = p ''update_interval_hours''; age = p ''max_cache_age_hours'';
          mb = p ''max_cache_size_mb''; ttl = p ''blocked_ttl'' in
        if interval < 0 \<or> age < 0 \<or> mb < 0 \<or> ttl < 0 then (writeJSONError 400 h, s)
        else change_config env (with_settings interval age mb ttl) h No_data s))"

definition handleAdBlockSettings :: "web_env \<Rightarrow> web_server handler" where
  "handleAdBlockSettings env rq h s = (case hq_Method rq of
      GET \<Rightarrow> handleGetAdBlockSettings rq h s | POST \<Rightarrow> handlePostAdBlockSettings env rq h s
    | _ \<Rightarrow> (writeJSONError 405 h, s))"

definition handleIPPoolToggle :: "web_env \<Rightarrow> web_server handler" where
  "handleIPPoolToggle env rq h s = (if hq_Method rq \<noteq> POST then (writeJSONError 405 h, s)
     else (let enabled = (hq_Query rq ''enabled'' = ''true'')
           in change_config env (\<lambda>cfg. cfg\<lparr>cfg_IPMonitor := (cfg_IPMonitor cfg)\<lparr>ipc_Enabled := enabled\<rparr>\<rparr>) h (Flag_data enabled) s))"

definition handleAdBlockToggle :: "web_env \<Rightarrow> (string \<Rightarrow> bool option) \<Rightarrow> web_server handler" where
  "handleAdBlockToggle env decode rq h s = (if hq_Method rq \<noteq> POST then (writeJSONError 405 h, s)
     else (case decode (hq_Body rq) of
         None \<Rightarrow> (writeJSONError 400 h, s)
       | Some enabled \<Rightarrow>
          (let switched = (\<lambda>cfg. cfg\<lparr>cfg_AdBlock := (cfg_AdBlock cfg)\<lparr>ad_Enable := enabled\<rparr>\<rparr>);
               s1 = s\<lparr>ws_running := switched (ws_running s), ws_adblockEnabled := (if ws_hasAdblock s then enabled else ws_adblockEnabled s)\<rparr>
           in case LoadConfig env s1 of
                (None, s2) \<Rightarrow> (writeJSONError 500 h, s2)
              | (Some cfg, s2) \<Rightarrow> (case we_marshal env (switched cfg) of
                    None \<Rightarrow> (writeJSONError 500 h, s2)
                  | Some text \<Rightarrow> (case writeConfigFile env text s2 of
                        (False, s3) \<Rightarrow> (writeJSONError 500 h, s3) | (True, s3) \<Rightarrow> (writeJSONSuccess No_data h, s3))))))"

text \<open>The lists of sources in the file; the result tells whether there was no error.\<close>

definition save_config :: "web_env \<Rightarrow> Config \<Rightarrow> web_server \<Rightarrow> bool \<times> web_server" where
  "save_config env cfg s = (case we_marshal env cfg of None \<Rightarrow> (False, s) | Some text \<Rightarrow> writeConfigFile env text s)"

definition addSourceToConfig :: "web_env \<Rightarrow> string \<Rightarrow> web_server \<Rightarrow> bool \<times> web_server" where
  "addSourceToConfig env url s = (case LoadConfig env s of
      (None, s1) \<Rightarrow> (False, s1)
    | (Some cfg, s1) \<Rightarrow> (let urls = ad_RuleURLs (cfg_AdBlock cfg) in
        if url \<in> set urls then (True, s1)
        else save_config env (cfg\<lparr>cfg_AdBlock := (cfg_AdBlock cfg)\<lparr>ad_RuleURLs := urls @ [url]\<rparr>\<rparr>) s1))"

definition removeSourceFromConfig :: "web_env \<Rightarrow> string \<Rightarrow> web_server \<Rightarrow> bool \<times> web_server" where
  "removeSourceFromConfig env url s = (case LoadConfig env s of
      (None, s1) \<Rightarrow> (False, s1)
    | (Some cfg, s1) \<Rightarrow> save_config env
        (cfg\<lparr>cfg_AdBlock := (cfg_AdBlock cfg)\<lparr>ad_RuleURLs := filter (\<lambda>u. u \<noteq> url) (ad_RuleURLs (cfg_AdBlock cfg))\<rparr>\<rparr>) s1)"

definition removeCustomRulesFromConfig :: "web_env \<Rightarrow> web_server \<Rightarrow> bool \<times> web_server" where
  "removeCustomRulesFromConfig env s = (case LoadConfig env s of
      (None, s1) \<Rightarrow> (False, s1)
    | (Some cfg, s1) \<Rightarrow> save_config env (cfg\<lparr>cfg_AdBlock := (cfg_AdBlock cfg)\<lparr>ad_CustomRulesFile := []\<rparr>\<rparr>) s1)"

section \<open>Flags of running operations\<close>

definition handleRestart :: "web_server handler" where
  "handleRestart rq h s = (if hq_Method rq \<noteq> POST then (writeJSONError 405 h, s)
     else if ws_isRestarting s then (writeJSONError 409 h, s)
     else if ws_hasRestartFunc s
       then (writeJSONSuccess No_data h, s\<lparr>ws_isRestarting := True, ws_jobs := ws_jobs s @ [Restart_job]\<rparr>)
     else (writeJSONSuccess No_data h, s\<lparr>ws_isRestarting := False\<rparr>))"

definition handleAdBlockUpdate :: "web_server handler" where
  "handleAdBlockUpdate rq h s = (if hq_Method rq \<noteq> POST then (writeJSONError 405 h, s)
     else if \<not> ws_hasAdblock s then (writeJSONError 503 h, s)
     else if ws_isAdblockBusy s then (writeJSONError 409 h, s)
     else (writeJSONSuccess No_data h, s\<lparr>ws_isAdblockBusy := True, ws_jobs := ws_jobs s @ [Update_rules_job]\<rparr>))"

text \<open>A job that ends resets its flag.\<close>

definition job_done :: "web_job \<Rightarrow> web_server \<Rightarrow> web_server" where
  "job_done j s = (case j of
      Restart_job \<Rightarrow> s\<lparr>ws_isRestarting := False, ws_jobs := remove1 Restart_job (ws_jobs s)\<rparr>
    | Update_rules_job \<Rightarrow> s\<lparr>ws_isAdblockBusy := False, ws_jobs := remove1 Update_rules_job (ws_jobs s)\<rparr>)"

section \<open>Routes\<close>

text \<open>The routes of the handlers above; \<open>other\<close> serves the rest.\<close>

definition mux :: "web_env \<Rightarrow> web_server handler \<Rightarrow> web_server handler" where
  "mux env other rq = (let p = hq_Path rq in
     if p = ''/api/config'' then handleConfig env rq
     else if p = ''/api/config/reset'' then handleResetConfig env rq
     else if p = ''/api/config/export'' then handleExportConfig rq
     else if p = ''/api/restart'' then handleRestart rq
     else if p = ''/api/csrf-token'' then handleCSRFToken env rq
     else if p = ''/api/adblock/update'' then handleAdBlockUpdate rq
     else if p = ''/api/adblock/blockmode'' then handleAdBlockBlockMode env rq
     else if p = ''/api/adblock/settings'' then handleAdBlockSettings env rq
     else if p = ''/api/ip-pool/toggle'' then handleIPPoolToggle env rq
     else other rq)"

definition serve :: "web_env \<Rightarrow> SecurityConfig \<Rightarrow> web_server handler \<Rightarrow> http_request \<Rightarrow> web_server \<Rightarrow> http_response \<times> web_server" where
  "serve env cfg other rq s = combinedSecurityMiddleware (we_now env) cfg ws_csrf (mux env other) rq [] s"

section \<open>Query parameters and estimates\<close>

definition days_param :: "string \<Rightarrow> int" where
  "days_param daysStr = (if daysStr = [] then 7
     else (case go_Atoi daysStr of None \<Rightarrow> 7 | Some d \<Rightarrow> if d = 1 \<or> d = 7 \<or> d = 30 then d else 7))"

definition estimateEntrySize :: "RawCacheEntry \<Rightarrow> int" where
  "estimateEntrySize e = 65
     + sum_list (map (int \<circ> length) (raw_IPs e)) + int (length (raw_IPs e)) * 24
     + sum_list (map (int \<circ> length) (raw_CNAMEs e)) + int (length (raw_CNAMEs e)) * 24
     + int (length (raw_Records e)) * 100 + 100"

fun sampled :: "nat \<Rightarrow> 'a list \<Rightarrow> 'a list" where
  "sampled step [] = []"
| "sampled step (x # xs) = x # sampled step (drop (step - 1) xs)"

definition calculateAvgBytesPerEntry :: "RawCacheEntry list \<Rightarrow> int" where
  "calculateAvgBytesPerEntry es = (if es = [] then 820
     else if length es \<le> 100 then go_div (sum_list (map estimateEntrySize es)) (int (length es))
     else (let step = max 1 (length es div 100); xs = sampled step es
           in if xs = [] then 820 else go_div (sum_list (map estimateEntrySize xs)) (int (length xs))))"

section \<open>Forged requests\<close>

lemma map_of_set_header [simp]: "map_of (set_header k v h) = (map_of h)(k \<mapsto> v)"
  by (rule ext) (simp add: set_header_def)

lemma token_valid:
  assumes "base64_url bytes \<noteq> []" "now' \<le> now + csrf_tokenExpiry m" "(t, m') = GenerateToken (Some bytes) text now m"
  shows "ValidateToken now' t m'"
  using assms by (auto simp: GenerateToken_def ValidateToken_def Let_def)

lemma base64_url_Nil: "base64_url bs = [] \<longleftrightarrow> bs = []"
  by (induction bs rule: base64_url.induct) (simp_all add: Let_def)

text \<open>C37: The tokens do not protect the web interface with its default settings: the page of any other site
  may read the answer that carries a token, whose requests then pass for two hours, and the reset of the
  configuration needs no token at all, being served to a plain GET. What it applies is the template without
  the defaults.\<close>

theorem forged_requests_pass:
  assumes "we_random env = Some bytes" "bytes \<noteq> []" "hq_Origin rq \<noteq> []" "hq_Method rq = GET" "hq_Path rq = ''/api/csrf-token''"
    and "serve env (DefaultSecurityConfig csp) other rq s = (r, s')"
    and "hq_Method reset = GET" "hq_Path reset = ''/api/config/reset''" "we_yaml env (we_default env) = Some template" "we_writable env"
  shows "map_of (hs_Headers r) ''Access-Control-Allow-Origin'' = Some (hq_Origin rq)
    \<and> map_of (hs_Headers r) ''Access-Control-Allow-Credentials'' = Some ''true''
    \<and> (\<exists>t. hs_Data r = Token_data t (csrf_tokenExpiry (ws_csrf s)) \<and>
         (\<forall>env' forged. we_now env' \<le> we_now env + csrf_tokenExpiry (ws_csrf s) \<longrightarrow> hq_Token forged = t \<longrightarrow>
            serve env' cfg other forged s' = enhancedCORSMiddleware cfg (securityMiddleware cfg (mux env' other)) forged [] s'))
    \<and> ws_file (snd (serve env cfg other reset s)) = Some (we_default env)
    \<and> ws_running (snd (serve env cfg other reset s)) = template"
proof -
  obtain t m where g: "GenerateToken (Some bytes) (we_nowText env) (we_now env) (ws_csrf s) = (t, m)" by fastforce
  note served = serve_def combinedSecurityMiddleware_def csrfMiddleware_def enhancedCORSMiddleware_def securityMiddleware_def Let_def
  have r: "map_of (hs_Headers r) ''Access-Control-Allow-Origin'' = Some (hq_Origin rq)"
    "map_of (hs_Headers r) ''Access-Control-Allow-Credentials'' = Some ''true''" "hs_Data r = Token_data t (csrf_tokenExpiry m)"
    "s' = s\<lparr>ws_csrf := m\<rparr>"
    using assms(1-6) g by (auto simp: served mux_def handleCSRFToken_def getAllowedOrigin_def DefaultSecurityConfig_def
        cors_headers_def writeJSONSuccess_def split: if_splits)
  have m: "csrf_tokenExpiry m = csrf_tokenExpiry (ws_csrf s)" using g by (auto simp: GenerateToken_def Let_def)
  have t: "t = base64_url bytes" using g by (auto simp: GenerateToken_def Let_def)
  have ne: "t \<noteq> []" using t assms(2) base64_url_Nil by simp
  have "serve env' cfg other forged s' = enhancedCORSMiddleware cfg (securityMiddleware cfg (mux env' other)) forged [] s'"
    if "we_now env' \<le> we_now env + csrf_tokenExpiry (ws_csrf s)" "hq_Token forged = t" for env' and forged :: http_request
  proof -
    have "ValidateToken (we_now env') t m"
      using token_valid[of bytes "we_now env'" "we_now env" "ws_csrf s" t m "we_nowText env"] that(1) ne t g by simp
    then show ?thesis using that(2) ne r(4) by (simp add: serve_def combinedSecurityMiddleware_def csrfMiddleware_def Let_def)
  qed
  moreover have "ws_file (snd (serve env cfg other reset s)) = Some (we_default env)
      \<and> ws_running (snd (serve env cfg other reset s)) = template"
    using assms(7-10) by (simp add: served mux_def handleResetConfig_def writeConfigFile_def apply_config_def)
  ultimately show ?thesis using r m by auto
qed

definition example_web_env :: web_env where
  "example_web_env = \<lparr>we_now = 0, we_random = Some [1], we_nowText = [], we_yaml = (\<lambda>_. Some example_cfg), we_yaml_fields = (\<lambda>_. None),
     we_marshal = (\<lambda>_. None), we_merge = (\<lambda>_ _. None), we_json = (\<lambda>_. None), we_json_int = (\<lambda>_. None), we_default = ''template'',
     we_partial = example_cfg, we_readable = True, we_writable = True, we_numCPU = 4, we_configPath = ''config.yaml''\<rparr>"

definition example_web :: web_server where
  "example_web = \<lparr>ws_csrf = default_csrf, ws_file = None, ws_backups = [], ws_running = example_cfg, ws_isRestarting = False,
     ws_isAdblockBusy = False, ws_hasRestartFunc = True, ws_hasAdblock = False, ws_adblockEnabled = False, ws_jobs = []\<rparr>"

definition example_get :: "string \<Rightarrow> http_request" where
  "example_get path = \<lparr>hq_Method = GET, hq_Path = path, hq_Origin = ''https://evil.example'', hq_Token = [], hq_FormToken = [],
     hq_Query = (\<lambda>_. []), hq_ContentLength = 0, hq_Body = []\<rparr>"

theorem forged_requests_pass_witness:
  "\<exists>r s' t. serve example_web_env (DefaultSecurityConfig []) (\<lambda>_ h s. (writeJSONError 404 h, s)) (example_get ''/api/csrf-token'') example_web = (r, s')
    \<and> map_of (hs_Headers r) ''Access-Control-Allow-Origin'' = Some ''https://evil.example'' \<and> hs_Data r = Token_data t (2 * hour)"
proof -
  let ?other = "\<lambda>_ h s. (writeJSONError 404 h, s)" and ?rq = "example_get ''/api/csrf-token''"
  obtain r s' where r: "serve example_web_env (DefaultSecurityConfig []) ?other ?rq example_web = (r, s')" by fastforce
  have e: "we_random example_web_env = Some [1]" "([1] :: 8 word list) \<noteq> []" "hq_Origin ?rq \<noteq> []" "hq_Method ?rq = GET"
    "hq_Path ?rq = ''/api/csrf-token''" "hq_Method (example_get ''/api/config/reset'') = GET"
    "hq_Path (example_get ''/api/config/reset'') = ''/api/config/reset''"
    "we_yaml example_web_env (we_default example_web_env) = Some example_cfg" "we_writable example_web_env"
    by (simp_all add: example_web_env_def example_get_def)
  have "csrf_tokenExpiry (ws_csrf example_web) = 2 * hour" "hq_Origin ?rq = ''https://evil.example''"
    by (simp_all add: example_web_def default_csrf_def NewCSRFManager_def example_get_def)
  moreover obtain t where "hs_Data r = Token_data t (csrf_tokenExpiry (ws_csrf example_web))"
    "map_of (hs_Headers r) ''Access-Control-Allow-Origin'' = Some (hq_Origin ?rq)"
    using forged_requests_pass[OF e(1-5) r e(6-9)] by blast
  ultimately show ?thesis using r by metis
qed

section \<open>Lifetime of tokens\<close>

datatype csrf_event = Generated "8 word list option" "8 word list" instant | Removed string | Cleaned instant

fun csrf_step :: "csrf_event \<Rightarrow> CSRFManager \<Rightarrow> CSRFManager" where
  "csrf_step (Generated random text now) m = snd (GenerateToken random text now m)"
| "csrf_step (Removed t) m = RemoveToken t m"
| "csrf_step (Cleaned now) m = cleanupExpiredTokens now m"

text \<open>When a token was last given out, unless it was removed since.\<close>

fun given_out :: "string \<Rightarrow> csrf_event \<Rightarrow> instant option \<Rightarrow> instant option" where
  "given_out t (Generated (Some bytes) _ now) g = (if base64_url bytes = t then Some now else g)"
| "given_out t (Removed u) g = (if u = t then None else g)"
| "given_out t _ g = g"

fun event_time :: "csrf_event \<Rightarrow> instant option" where
  "event_time (Generated _ _ now) = Some now"
| "event_time (Cleaned now) = Some now"
| "event_time (Removed _) = None"

definition token_ok :: "instant \<Rightarrow> string \<Rightarrow> instant option \<Rightarrow> CSRFManager \<Rightarrow> bool" where
  "token_ok now t g m \<longleftrightarrow> distinct (keys_of (csrf_tokens m)) \<and>
     (case map_of (csrf_tokens m) t of
        None \<Rightarrow> (case g of None \<Rightarrow> True | Some issued \<Rightarrow> issued + csrf_tokenExpiry m < now)
      | Some k \<Rightarrow> g = Some (tk_ExpiresAt k - csrf_tokenExpiry m))"

lemma token_ok_step:
  assumes "token_ok now t g m" "\<And>c. event_time e = Some c \<Longrightarrow> c \<le> now"
  shows "token_ok now t (given_out t e g) (csrf_step e m) \<and> csrf_tokenExpiry (csrf_step e m) = csrf_tokenExpiry m"
proof (cases e)
  case (Generated random body c)
  then show ?thesis using assms(1) by (cases random) (auto simp: GenerateToken_def Let_def token_ok_def split: option.splits)
next
  case (Removed u)
  then show ?thesis using assms(1) by (auto simp: RemoveToken_def token_ok_def split: option.splits)
next
  case (Cleaned c)
  then show ?thesis using assms
    by (auto simp: cleanupExpiredTokens_def token_ok_def map_of_filter_distinct distinct_keys_filter split: option.splits)
qed

text \<open>C22: In every run of the token manager a token is valid exactly when it has been given out within its
  lifetime and not removed since; cleaning at any time changes nothing about that.\<close>

theorem csrf_tokens_exact:
  assumes "\<forall>e \<in> set es. \<forall>c. event_time e = Some c \<longrightarrow> c \<le> now" "t \<noteq> []"
  shows "ValidateToken now t (fold csrf_step es (NewCSRFManager len expiry)) \<longleftrightarrow>
    (\<exists>issued. fold (given_out t) es None = Some issued \<and> now \<le> issued + expiry)"
proof -
  have "token_ok now t (fold (given_out t) es g) (fold csrf_step es m) \<and> csrf_tokenExpiry (fold csrf_step es m) = csrf_tokenExpiry m"
    if "token_ok now t g m" for g m
    using assms(1) that
  proof (induction es arbitrary: g m)
    case (Cons e es)
    have "token_ok now t (given_out t e g) (csrf_step e m)" "csrf_tokenExpiry (csrf_step e m) = csrf_tokenExpiry m"
      using token_ok_step[of now t g m e] Cons.prems by simp_all
    then show ?case using Cons.IH[of "given_out t e g" "csrf_step e m"] Cons.prems by simp
  qed simp
  from this[of None "NewCSRFManager len expiry"] show ?thesis
    using assms(2) by (auto simp: token_ok_def NewCSRFManager_def ValidateToken_def split: option.splits)
qed

theorem csrf_tokens_exact_witness:
  "ValidateToken 30 (base64_url [1]) (fold csrf_step [Generated (Some [1]) [] 20, Cleaned 25] (NewCSRFManager 32 10))"
  using csrf_tokens_exact[of "[Generated (Some [1]) [] 20, Cleaned 25]" 30 "base64_url [1]" 32 10] by (simp add: base64_url_Nil)

section \<open>Settings and restarts\<close>

text \<open>Reading what was written gives the configuration back, and the flags are written.\<close>

definition yaml_faithful :: "web_env \<Rightarrow> bool" where
  "yaml_faithful env \<longleftrightarrow> (\<forall>c text. we_marshal env c = Some text \<longrightarrow> we_yaml env text = Some c
     \<and> isFieldExplicitlySet (we_yaml_fields env) text ''ping'' ''enabled''
     \<and> isFieldExplicitlySet (we_yaml_fields env) text ''ip_monitor'' ''enabled'')"

lemma defaults_again:
  assumes "0 < n" "isFieldExplicitlySet y raw' ''ping'' ''enabled''" "isFieldExplicitlySet y raw' ''ip_monitor'' ''enabled''"
  shows "setDefaultValues y n (setDefaultValues y n cfg raw) raw' = setDefaultValues y n cfg raw"
proof -
  have "setUpstreamDefaults n (u\<lparr>up_BootstrapDNS := b, up_HealthCheck := h\<rparr>) =
      (setUpstreamDefaults n u)\<lparr>up_BootstrapDNS := b, up_HealthCheck := h\<rparr>" for u b h
    by (simp add: set_Upstream Let_def split del: if_split)
  moreover have "setPingDefaults y raw' (setPingDefaults y raw g) = setPingDefaults y raw g"
    "setIPMonitorDefaults y raw' (setIPMonitorDefaults y raw i) = setIPMonitorDefaults y raw i" for g i
    using assms(2,3) by (simp_all add: set_Ping set_IPMonitor Let_def)
  ultimately show ?thesis
    using assms(1) by (simp add: set_All Let_def upstream_idem cache_idem others_idem flagged_idem)
qed

lemma adblock_inject: "cfg\<lparr>cfg_AdBlock := a\<rparr> = cfg\<lparr>cfg_AdBlock := b\<rparr> \<longleftrightarrow> a = b"
  by (cases cfg) simp

lemma block_mode_default:
  "mode \<noteq> [] \<Longrightarrow> setAdBlockDefaults (a\<lparr>ad_BlockMode := mode\<rparr>) = (setAdBlockDefaults a)\<lparr>ad_BlockMode := mode\<rparr>"
  by (simp add: setAdBlockDefaults_def dflt_def)

lemma defaults_adblock:
  "setDefaultValues y n (c\<lparr>cfg_AdBlock := a\<rparr>) raw = (setDefaultValues y n c raw)\<lparr>cfg_AdBlock := setAdBlockDefaults a\<rparr>"
  by (simp add: set_All Let_def)

text \<open>What a change leaves: the file holds what is in use, and a restart loads it with the defaults filled in.\<close>

lemma changed_config:
  assumes "change_config env f h d s = (r, s')" "hs_Status r = 200" "yaml_faithful env" "we_readable env"
  shows "\<exists>cfg text. fst (LoadConfig env s) = Some cfg \<and> ws_running s' = f cfg \<and> ws_file s' = Some text \<and> we_marshal env (f cfg) = Some text
    \<and> fst (LoadConfig env s') = Some (setDefaultValues (we_yaml_fields env) (we_numCPU env) (f cfg) text)"
  using assms by (auto simp: change_config_def writeConfigFile_def apply_config_def writeJSONError_def LoadConfig_def[of env s']
      load_text_def yaml_faithful_def split: prod.splits option.splits bool.splits if_splits)

lemma loaded_defaults:
  assumes "fst (LoadConfig env s) = Some cfg"
  shows "\<exists>c raw. cfg = setDefaultValues (we_yaml_fields env) (we_numCPU env) c raw"
  using assms by (auto simp: LoadConfig_def load_text_def split: option.splits prod.splits if_splits bool.splits)

lemma change_adblock_restart:
  assumes "change_config env (\<lambda>c. c\<lparr>cfg_AdBlock := f (cfg_AdBlock c)\<rparr>) h d s = (r, s')" "hs_Status r = 200"
    and "yaml_faithful env" "we_readable env" "0 < we_numCPU env"
  shows "\<exists>cfg. fst (LoadConfig env s) = Some cfg \<and> ws_running s' = cfg\<lparr>cfg_AdBlock := f (cfg_AdBlock cfg)\<rparr>
    \<and> setAdBlockDefaults (cfg_AdBlock cfg) = cfg_AdBlock cfg
    \<and> fst (LoadConfig env s') = Some (cfg\<lparr>cfg_AdBlock := setAdBlockDefaults (f (cfg_AdBlock cfg))\<rparr>)"
proof -
  let ?f = "\<lambda>c. c\<lparr>cfg_AdBlock := f (cfg_AdBlock c)\<rparr>"
  obtain cfg body where c: "fst (LoadConfig env s) = Some cfg" "ws_running s' = ?f cfg" "we_marshal env (?f cfg) = Some body"
    "fst (LoadConfig env s') = Some (setDefaultValues (we_yaml_fields env) (we_numCPU env) (?f cfg) body)"
    using changed_config[OF assms(1-4)] by blast
  obtain c0 raw where l: "cfg = setDefaultValues (we_yaml_fields env) (we_numCPU env) c0 raw" using loaded_defaults[OF c(1)] by blast
  have "setDefaultValues (we_yaml_fields env) (we_numCPU env) cfg body = cfg"
    unfolding l using assms(3,5) c(3) by (intro defaults_again) (auto simp: yaml_faithful_def)
  moreover have "setAdBlockDefaults (cfg_AdBlock cfg) = cfg_AdBlock cfg"
    unfolding l by (simp add: set_All Let_def others_idem)
  ultimately show ?thesis using c by (auto simp: defaults_adblock)
qed

text \<open>C23: A change of the block mode is in use at once and after a restart, and changes nothing else. The other
  settings of the ad blocker survive a restart exactly when none of them is zero: a zero, which the handler
  accepts and applies, is read back as the default.\<close>

theorem saved_settings_survive:
  assumes "yaml_faithful env" "we_readable env" "0 < we_numCPU env"
  shows "(handleAdBlockBlockMode env rq h s = (r, s') \<and> hs_Status r = 200 \<longrightarrow>
      (\<exists>mode cfg. fst (LoadConfig env s) = Some cfg \<and> mode \<in> {''nxdomain'', ''refused'', ''zero_ip''}
        \<and> ws_running s' = with_block_mode mode cfg \<and> fst (LoadConfig env s') = Some (ws_running s')))
    \<and> (handlePostAdBlockSettings env rq h s = (r, s') \<and> hs_Status r = 200 \<longrightarrow>
      (\<exists>p cfg. we_json_int env (hq_Body rq) = Some p \<and> fst (LoadConfig env s) = Some cfg
        \<and> ws_running s' = with_settings (p ''update_interval_hours'') (p ''max_cache_age_hours'') (p ''max_cache_size_mb'') (p ''blocked_ttl'') cfg
        \<and> (fst (LoadConfig env s') = Some (ws_running s') \<longleftrightarrow> p ''update_interval_hours'' \<noteq> 0 \<and> p ''max_cache_age_hours'' \<noteq> 0
              \<and> p ''max_cache_size_mb'' \<noteq> 0 \<and> p ''blocked_ttl'' \<noteq> 0)))"
    (is "(?mode \<longrightarrow> ?A) \<and> (?sets \<longrightarrow> ?B)")
proof (intro conjI impI)
  assume m: ?mode
  then obtain p where p: "we_json env (hq_Body rq) = Some p" "p ''block_mode'' \<in> {''nxdomain'', ''refused'', ''zero_ip''}"
    "change_config env (with_block_mode (p ''block_mode'')) h No_data s = (r, s')"
    by (auto simp: handleAdBlockBlockMode_def writeJSONError_def Let_def split: if_splits option.splits)
  let ?f = "\<lambda>a. a\<lparr>ad_BlockMode := p ''block_mode''\<rparr>"
  have c: "change_config env (\<lambda>c. c\<lparr>cfg_AdBlock := ?f (cfg_AdBlock c)\<rparr>) h No_data s = (r, s')"
    using p(3) by (simp add: with_block_mode_def[abs_def])
  obtain cfg where cfg: "fst (LoadConfig env s) = Some cfg" "ws_running s' = cfg\<lparr>cfg_AdBlock := ?f (cfg_AdBlock cfg)\<rparr>"
    "setAdBlockDefaults (cfg_AdBlock cfg) = cfg_AdBlock cfg"
    "fst (LoadConfig env s') = Some (cfg\<lparr>cfg_AdBlock := setAdBlockDefaults (?f (cfg_AdBlock cfg))\<rparr>)"
    using change_adblock_restart[OF c conjunct2[OF m] assms] by blast
  have "setAdBlockDefaults (?f (cfg_AdBlock cfg)) = ?f (setAdBlockDefaults (cfg_AdBlock cfg))"
    using p(2) by (intro block_mode_default) auto
  then have e: "fst (LoadConfig env s') = Some (ws_running s')" unfolding cfg(2,4) cfg(3) by simp
  have "ws_running s' = with_block_mode (p ''block_mode'') cfg" by (simp only: cfg(2) with_block_mode_def)
  with cfg(1) p(2) e show ?A by blast
next
  assume m: ?sets
  then obtain p where p: "we_json_int env (hq_Body rq) = Some p"
    "change_config env (with_settings (p ''update_interval_hours'') (p ''max_cache_age_hours'') (p ''max_cache_size_mb'') (p ''blocked_ttl'')) h No_data s = (r, s')"
    by (auto simp: handlePostAdBlockSettings_def writeJSONError_def Let_def split: if_splits option.splits)
  let ?f = "\<lambda>a. a\<lparr>ad_UpdateIntervalHours := p ''update_interval_hours'', ad_MaxCacheAgeHours := p ''max_cache_age_hours'',
    ad_MaxCacheSizeMB := p ''max_cache_size_mb'', ad_BlockedTTL := p ''blocked_ttl''\<rparr>"
  have c: "change_config env (\<lambda>c. c\<lparr>cfg_AdBlock := ?f (cfg_AdBlock c)\<rparr>) h No_data s = (r, s')"
    using p(2) by (simp add: with_settings_def[abs_def])
  obtain cfg where cfg: "fst (LoadConfig env s) = Some cfg" "ws_running s' = cfg\<lparr>cfg_AdBlock := ?f (cfg_AdBlock cfg)\<rparr>"
    "setAdBlockDefaults (cfg_AdBlock cfg) = cfg_AdBlock cfg"
    "fst (LoadConfig env s') = Some (cfg\<lparr>cfg_AdBlock := setAdBlockDefaults (?f (cfg_AdBlock cfg))\<rparr>)"
    using change_adblock_restart[OF c conjunct2[OF m] assms] by blast
  have "setAdBlockDefaults (?f a) = ?f a \<longleftrightarrow> p ''update_interval_hours'' \<noteq> 0 \<and> p ''max_cache_age_hours'' \<noteq> 0
      \<and> p ''max_cache_size_mb'' \<noteq> 0 \<and> p ''blocked_ttl'' \<noteq> 0" if "setAdBlockDefaults a = a" for a
    using that by (cases a) (auto simp: setAdBlockDefaults_def dflt_def split: if_splits)
  from this[OF cfg(3)] have "fst (LoadConfig env s') = Some (ws_running s') \<longleftrightarrow> p ''update_interval_hours'' \<noteq> 0
      \<and> p ''max_cache_age_hours'' \<noteq> 0 \<and> p ''max_cache_size_mb'' \<noteq> 0 \<and> p ''blocked_ttl'' \<noteq> 0"
    unfolding cfg(2,4) option.inject by (simp only: adblock_inject)
  moreover have "ws_running s' = with_settings (p ''update_interval_hours'') (p ''max_cache_age_hours'') (p ''max_cache_size_mb'') (p ''blocked_ttl'') cfg"
    by (simp only: cfg(2) with_settings_def)
  ultimately show ?B using cfg(1) p(1) by blast
qed

text \<open>An encoder that writes a configuration as the one text \<open>saved\<close>.\<close>

definition example_saving_env :: "Config \<Rightarrow> web_env" where
  "example_saving_env c = example_web_env\<lparr>we_yaml := (\<lambda>_. Some c), we_yaml_fields := (\<lambda>_. Some (\<lambda>_. Some [''enabled''])),
     we_marshal := (\<lambda>d. if d = c then Some ''saved'' else None), we_json := (\<lambda>_. Some (\<lambda>_. ''refused''))\<rparr>"

theorem saved_settings_survive_witness:
  "\<exists>c s'. fst (LoadConfig (example_saving_env c) s') = Some (ws_running s') \<and> ad_BlockMode (cfg_AdBlock (ws_running s')) = ''refused''"
proof -
  define c0 where "c0 = setDefaultValues (\<lambda>_. None) 4 example_cfg []"
  define c where "c = with_block_mode ''refused'' c0"
  let ?e = "example_saving_env c" and ?y = "\<lambda>_. Some (\<lambda>_. Some [''enabled''])" and ?rq = "(example_get [])\<lparr>hq_Method := POST\<rparr>"
  have f: "isFieldExplicitlySet ?y ''saved'' ''ping'' ''enabled''" "isFieldExplicitlySet ?y ''saved'' ''ip_monitor'' ''enabled''"
    "isFieldExplicitlySet ?y ''template'' ''ping'' ''enabled''" "isFieldExplicitlySet ?y ''template'' ''ip_monitor'' ''enabled''"
    by (simp_all add: isFieldExplicitlySet_def)
  have ok: "yaml_faithful ?e" "we_readable ?e" "0 < we_numCPU ?e"
    using f by (auto simp: yaml_faithful_def example_saving_env_def example_web_env_def)
  have d: "setDefaultValues ?y 4 c ''template'' = c"
  proof -
    have "isFieldExplicitlySet (\<lambda>_. None) [] s f = isFieldExplicitlySet ?y [] s f" for s f by (simp add: isFieldExplicitlySet_def)
    then have c0: "c0 = setDefaultValues ?y 4 example_cfg []"
      by (simp add: c0_def setDefaultValues_def setPingDefaults_def setIPMonitorDefaults_def)
    have "setDefaultValues ?y 4 c0 ''template'' = c0" unfolding c0 by (rule defaults_again) (use f(3,4) in simp_all)
    moreover have "setAdBlockDefaults (cfg_AdBlock c0) = cfg_AdBlock c0" unfolding c0_def by (simp add: set_All Let_def others_idem)
    ultimately show ?thesis by (simp add: c_def with_block_mode_def defaults_adblock block_mode_default)
  qed
  have "with_block_mode ''refused'' c = c" by (simp add: c_def with_block_mode_def)
  then obtain r s' where h: "handleAdBlockBlockMode ?e ?rq [] example_web = (r, s')" "hs_Status r = 200"
    using d by (simp add: handleAdBlockBlockMode_def example_saving_env_def example_web_env_def change_config_def LoadConfig_def
        CreateDefaultConfig_def load_text_def writeConfigFile_def example_web_def writeJSONSuccess_def Let_def)
  from saved_settings_survive[OF ok, of ?rq "[]" example_web r s'] h obtain mode cfg where
    "fst (LoadConfig ?e s') = Some (ws_running s')" "ws_running s' = with_block_mode mode cfg" by blast
  moreover have "ws_running s' = c" using h d \<open>with_block_mode ''refused'' c = c\<close>
    by (auto simp: handleAdBlockBlockMode_def example_saving_env_def example_web_env_def change_config_def LoadConfig_def apply_config_def
        CreateDefaultConfig_def load_text_def writeConfigFile_def example_web_def writeJSONSuccess_def Let_def)
  moreover have "ad_BlockMode (cfg_AdBlock c) = ''refused''" by (simp add: c_def with_block_mode_def)
  ultimately show ?thesis by metis
qed

end
