(* ===== verification/Recursor.thy ===== *)
theory Recursor
  imports Web_Api
begin

text \<open>\<open>recursor/\<close>: the embedded resolver. What is modelled is the decisions: reading the version and the
  distribution, the parameters of its configuration, the life of the process under its manager, and the
  retries around the root zone. What commands, sockets and files answer is a parameter of every operation.\<close>

section \<open>The system\<close>

record SystemManager =
  sm_osType :: string
  sm_distro :: string
  sm_pkgManager :: string
  sm_unboundPath :: string
  sm_unboundVer :: string

record SystemInfo =
  si_OS :: string
  si_Distro :: string
  si_CPUCores :: int
  si_MemoryGB :: rat
  si_UnboundPath :: string
  si_UnboundVer :: string
  si_IsInstalled :: bool

definition NewSystemManager :: "string \<Rightarrow> SystemManager" where
  "NewSystemManager goos = \<lparr>sm_osType = goos, sm_distro = [], sm_pkgManager = [], sm_unboundPath = [], sm_unboundVer = []\<rparr>"

definition normalizeDistro :: "string \<Rightarrow> string" where
  "normalizeDistro d0 = (let d = ToLower d0 in
     if go_Contains d ''ubuntu'' then ''ubuntu''
     else if go_Contains d ''debian'' then ''debian''
     else if go_Contains d ''centos'' then ''centos''
     else if go_Contains d ''rhel'' \<or> go_Contains d ''fedora'' then ''rhel''
     else if go_Contains d ''arch'' then ''arch''
     else if go_Contains d ''alpine'' then ''alpine''
     else d)"

definition trim_double_quotes :: "string \<Rightarrow> string" where
  "trim_double_quotes s = rev (dropWhile (\<lambda>c. c = CHR 0x22) (rev (dropWhile (\<lambda>c. c = CHR 0x22) s)))"

definition parseOSRelease :: "string \<Rightarrow> string" where
  "parseOSRelease content = (case find (prefix ''ID='') (go_Split (CHR 0x0A) content) of
      None \<Rightarrow> ''unknown'' | Some line \<Rightarrow> normalizeDistro (trim_double_quotes (TrimPrefix line ''ID='')))"

definition parseLSBRelease :: "string \<Rightarrow> string" where
  "parseLSBRelease content = (case find (prefix ''DISTRIB_ID='') (go_Split (CHR 0x0A) content) of
      None \<Rightarrow> ''unknown'' | Some line \<Rightarrow> normalizeDistro (ToLower (TrimPrefix line ''DISTRIB_ID='')))"

definition getPkgManager :: "string \<Rightarrow> string" where
  "getPkgManager d = (if d = ''ubuntu'' \<or> d = ''debian'' then ''apt'' else if d = ''centos'' \<or> d = ''rhel'' then ''yum''
     else if d = ''arch'' then ''pacman'' else if d = ''alpine'' then ''apk'' else ''apt'')"

text \<open>The files, if they can be read; the result is the name or nothing.\<close>

definition detectLinuxDistro :: "string option \<Rightarrow> string option \<Rightarrow> string option" where
  "detectLinuxDistro os_release lsb_release = (case os_release of
      Some content \<Rightarrow> Some (parseOSRelease content)
    | None \<Rightarrow> map_option parseLSBRelease lsb_release)"

definition DetectSystem :: "string option \<Rightarrow> string option \<Rightarrow> SystemManager \<Rightarrow> string option \<times> SystemManager" where
  "DetectSystem os_release lsb_release sm = (if sm_osType sm = ''windows'' then (None, sm)
     else if sm_osType sm \<noteq> ''linux'' then (Some (''unsupported OS: '' @ sm_osType sm), sm)
     else (case detectLinuxDistro os_release lsb_release of
         None \<Rightarrow> (Some ''unable to detect Linux distribution'', sm)
       | Some d \<Rightarrow> (None, sm\<lparr>sm_distro := d, sm_pkgManager := getPkgManager d\<rparr>)))"

text \<open>The version is the second word of what the program prints.\<close>

definition version_of_output :: "string \<Rightarrow> string option" where
  "version_of_output out = (let parts = go_Fields out in if 2 \<le> length parts then Some (parts ! 1) else None)"

section \<open>Configuration of the resolver\<close>

record ConfigGenerator =
  cg_version :: string
  cg_sysInfo :: SystemInfo
  cg_port :: int

definition parseVersion :: "string \<Rightarrow> (int \<times> int \<times> int) option" where
  "parseVersion v = (if v = [] then None
     else (let parts = go_Split (CHR ''.'') v; part = (\<lambda>i. if i < length parts then go_Atoi (TrimSpace (parts ! i)) else Some 0)
           in case (part 0, part 1, part 2) of (Some major, Some minor, Some patch) \<Rightarrow> Some (major, minor, patch) | _ \<Rightarrow> None))"

record VersionFeatures =
  vf_ServeExpired :: bool
  vf_ServeExpiredTTL :: bool
  vf_ServeExpiredReplyTTL :: bool
  vf_PrefetchKey :: bool
  vf_QnameMinimisation :: bool
  vf_MinimalResponses :: bool
  vf_UseCapsForID :: bool
  vf_SoReuseport :: bool

definition GetVersionFeatures :: "string \<Rightarrow> ConfigGenerator \<Rightarrow> VersionFeatures" where
  "GetVersionFeatures goos cg = (case parseVersion (cg_version cg) of
      None \<Rightarrow> \<lparr>vf_ServeExpired = False, vf_ServeExpiredTTL = False, vf_ServeExpiredReplyTTL = False, vf_PrefetchKey = False,
        vf_QnameMinimisation = False, vf_MinimalResponses = False, vf_UseCapsForID = False, vf_SoReuseport = False\<rparr>
    | Some (major, minor, patch) \<Rightarrow>
       (let from6 = (1 < major \<or> major = 1 \<and> 6 \<le> minor); from9 = (1 < major \<or> major = 1 \<and> 9 \<le> minor)
        in \<lparr>vf_ServeExpired = from9, vf_ServeExpiredTTL = from9, vf_ServeExpiredReplyTTL = from9, vf_PrefetchKey = from9,
            vf_QnameMinimisation = from6, vf_MinimalResponses = from9, vf_UseCapsForID = from6,
            vf_SoReuseport = (from6 \<and> goos \<noteq> ''windows'')\<rparr>))"

record ConfigParams =
  pa_NumThreads :: int
  pa_MsgCacheSize :: int
  pa_RRsetCacheSize :: int
  pa_OutgoingRange :: int
  pa_SoRcvbuf :: string

definition CalculateParams :: "ConfigGenerator \<Rightarrow> ConfigParams" where
  "CalculateParams cg = (let n = max 1 (min (si_CPUCores (cg_sysInfo cg)) 8); known = (0 < si_MemoryGB (cg_sysInfo cg))
     in \<lparr>pa_NumThreads = n, pa_MsgCacheSize = (if known then 10 + 2 * n else 10 + 1 * n),
         pa_RRsetCacheSize = (if known then 20 + 4 * n else 20 + 2 * n), pa_OutgoingRange = 4096, pa_SoRcvbuf = ''1m''\<rparr>)"

definition ValidateConfig :: "ConfigGenerator \<Rightarrow> string option" where
  "ValidateConfig cg = (if cg_port cg < 1024 \<or> 65535 < cg_port cg then Some (''invalid port: '' @ FormatInt (cg_port cg))
     else if si_CPUCores (cg_sysInfo cg) < 1 then Some (''invalid CPU cores: '' @ FormatInt (si_CPUCores (cg_sysInfo cg)))
     else None)"

section \<open>The manager\<close>

datatype InstallState =
  StateNotInstalled | StateInitializing | StateInstalling | StateInstalled | StateError | StateRetryableError

definition state_number :: "InstallState \<Rightarrow> int" where
  "state_number st = (case st of StateNotInstalled \<Rightarrow> 0 | StateInitializing \<Rightarrow> 1 | StateInstalling \<Rightarrow> 2
     | StateInstalled \<Rightarrow> 3 | StateError \<Rightarrow> 4 | StateRetryableError \<Rightarrow> 5)"

definition MaxRestartAttempts :: int where "MaxRestartAttempts = 5"
definition MaxBackoffDuration :: duration where "MaxBackoffDuration = 30 * second"

text \<open>Where a call of \<open>Start\<close> stands between its sections: before its check, before and after the
  initialisation, which runs without the lock, before the section that launches the process, and ended with
  its error, if any.\<close>

datatype start_phase = Start_called | Start_initializing | Start_initialized "string option" | Start_launching
  | Start_ended "string option"

text \<open>Where a goroutine of \<open>healthCheckLoop\<close> stands: outside its select or waiting in it (and whether the
  timer of a retry is set), probing the port, having received an exit, having counted it, in the pause
  before a restart, or in \<open>Start\<close>. A context that is cancelled ends those that wait in a select; the
  others read the context of the manager anew when they come back to it.\<close>

datatype loop_state = Outside bool | Watching bool | Probing bool | Exit_received | Exit_counted int | Backing_off
  | Restarting start_phase | Loop_ended

definition cancel_loop :: "loop_state \<Rightarrow> loop_state" where
  "cancel_loop l = (case l of Watching b \<Rightarrow> Loop_ended | Backing_off \<Rightarrow> Loop_ended | _ \<Rightarrow> l)"

record RecursorManager =
  rm_port :: int
  rm_enabled :: bool
  rm_installState :: InstallState
  rm_restartAttempts :: int
  rm_lastRestartTime :: "instant option"
  rm_startTime :: "instant option"
  rm_lastHealthCheck :: "instant option"
  rm_unboundPath :: string
  rm_configPath :: string
  rm_sysManager :: SystemManager
  rm_configGen :: "ConfigGenerator option"
  rm_isSystemLevel :: bool
  rm_process :: bool   \<comment> \<open>the process runs\<close>
  rm_exits :: nat   \<comment> \<open>processes that ended and whose monitors have not reported it\<close>
  rm_exitCh :: bool   \<comment> \<open>an exit waits in the channel\<close>
  rm_cancelled :: bool   \<comment> \<open>the contexts are cancelled\<close>
  rm_loops :: "loop_state list"

text \<open>What the system answers during one call. An error is its text.\<close>

record rec_env =
  re_goos :: string
  re_now :: instant
  re_numCPU :: int
  re_os_release :: "string option"
  re_lsb_release :: "string option"
  re_installed :: bool
  re_install :: "string option"
  re_version :: "string + string"
  re_path :: "string + string"
  re_platform :: "string + string"    \<comment> \<open>the platform's preparation: an error or the path of the configuration\<close>
  re_port_taken :: "string option"
  re_spawn :: "string option"
  re_ready :: bool

definition NewRecursor :: "string \<Rightarrow> int \<Rightarrow> RecursorManager" where
  "NewRecursor goos port = \<lparr>rm_port = port, rm_enabled = False, rm_installState = StateNotInstalled, rm_restartAttempts = 0,
     rm_lastRestartTime = None, rm_startTime = None, rm_lastHealthCheck = None, rm_unboundPath = [], rm_configPath = [],
     rm_sysManager = NewSystemManager goos, rm_configGen = None, rm_isSystemLevel = False, rm_process = False, rm_exits = 0, rm_exitCh = False,
     rm_cancelled = False, rm_loops = []\<rparr>"

definition GetSystemInfo :: "rec_env \<Rightarrow> SystemManager \<Rightarrow> SystemInfo" where
  "GetSystemInfo env sm = \<lparr>si_OS = sm_osType sm, si_Distro = sm_distro sm, si_CPUCores = re_numCPU env, si_MemoryGB = 0,
     si_UnboundPath = sm_unboundPath sm, si_UnboundVer = sm_unboundVer sm, si_IsInstalled = re_installed env\<rparr>"

definition Initialize :: "rec_env \<Rightarrow> RecursorManager \<Rightarrow> string option \<times> RecursorManager" where
  "Initialize env m = (let (err, sm) = DetectSystem (re_os_release env) (re_lsb_release env) (rm_sysManager m);
        m1 = m\<lparr>rm_sysManager := sm\<rparr> in
     case err of Some e \<Rightarrow> (Some (''failed to detect system: '' @ e), m1)
     | None \<Rightarrow> (case (if re_installed env then None else re_install env) of
           Some e \<Rightarrow> (Some (''failed to install unbound: '' @ e), m1)
         | None \<Rightarrow> (case re_version env of
               Inl e \<Rightarrow> (Some (''failed to get unbound version: '' @ e), m1)
             | Inr version \<Rightarrow> (case re_path env of
                   Inl e \<Rightarrow> (Some (''failed to get unbound path: '' @ e), m1)
                 | Inr path \<Rightarrow>
                    (let sm1 = sm\<lparr>sm_unboundPath := path, sm_unboundVer := version\<rparr>;
                         cg = \<lparr>cg_version = version, cg_sysInfo = GetSystemInfo env sm1, cg_port = rm_port m\<rparr>;
                         m2 = m1\<lparr>rm_sysManager := sm1, rm_configGen := Some cg\<rparr>
                     in case ValidateConfig cg of
                          Some e \<Rightarrow> (Some (''invalid configuration: '' @ e), m2)
                        | None \<Rightarrow> (None, m2\<lparr>rm_isSystemLevel := (re_goos env = ''linux'')\<rparr>))))))"

definition containsIgnoreCase :: "string \<Rightarrow> string \<Rightarrow> bool" where
  "containsIgnoreCase s sub = go_Contains (ToLower s) (ToLower sub)"

definition classifyError :: "string \<Rightarrow> InstallState" where
  "classifyError err = (if list_ex (containsIgnoreCase err) [''timeout'', ''temporary failure'', ''connection refused'',
       ''network unreachable'', ''resource temporarily unavailable'', ''i/o timeout'']
     then StateRetryableError else StateError)"

text \<open>The sections of \<open>Start\<close>: the check under the lock, \<open>Initialize\<close> without it, the lock again for its
  result, and the lock for the launch, which does not look at \<open>enabled\<close> again. The launch ends the watchers
  that wait, starts the process, and on success a monitor and a watcher of its own.\<close>

definition start_check :: "string \<Rightarrow> RecursorManager \<Rightarrow> start_phase \<times> RecursorManager" where
  "start_check goos m = (if rm_enabled m then (Start_ended (Some ''recursor already running''), m)
     else if rm_installState m = StateInitializing then (Start_ended (Some ''recursor is initializing, please wait''), m)
     else if (rm_installState m = StateNotInstalled \<or> rm_installState m = StateRetryableError) \<and> goos = ''linux''
     then (Start_initializing, m\<lparr>rm_installState := StateInitializing\<rparr>)
     else (Start_launching, m))"

definition initialized :: "string option \<Rightarrow> RecursorManager \<Rightarrow> start_phase \<times> RecursorManager" where
  "initialized err m = (case err of Some e \<Rightarrow> (Start_ended (Some e), m\<lparr>rm_installState := classifyError e\<rparr>)
     | None \<Rightarrow> (Start_launching, m\<lparr>rm_installState := StateInstalled\<rparr>))"

definition launch :: "rec_env \<Rightarrow> RecursorManager \<Rightarrow> string option \<times> RecursorManager" where
  "launch env m0 = (let m = m0\<lparr>rm_loops := map cancel_loop (rm_loops m0), rm_cancelled := False\<rparr> in
     case re_platform env of Inl e \<Rightarrow> (Some e, m\<lparr>rm_unboundPath := sm_unboundPath (rm_sysManager m)\<rparr>)
     | Inr path \<Rightarrow> (let m1 = m\<lparr>rm_unboundPath := sm_unboundPath (rm_sysManager m), rm_configPath := path\<rparr> in
         case re_port_taken env of Some e \<Rightarrow> (Some (''port '' @ FormatInt (rm_port m) @ '' is not available: '' @ e), m1)
         | None \<Rightarrow> (case re_spawn env of Some e \<Rightarrow> (Some (''failed to start unbound process: '' @ e), m1)
             | None \<Rightarrow> (let m2 = m1\<lparr>rm_enabled := True, rm_startTime := Some (re_now env), rm_lastHealthCheck := Some (re_now env), rm_process := True\<rparr>
                 in if \<not> re_ready env then (Some ''unbound startup timeout'', m2\<lparr>rm_enabled := False, rm_process := False\<rparr>)
                    else (None, m2\<lparr>rm_exitCh := False, rm_loops := rm_loops m2 @ [Outside False]\<rparr>)))))"

definition start_section :: "rec_env \<Rightarrow> start_phase \<times> RecursorManager \<Rightarrow> start_phase \<times> RecursorManager" where
  "start_section env = (\<lambda>(ph, m). case ph of
      Start_called \<Rightarrow> start_check (re_goos env) m
    | Start_initializing \<Rightarrow> (case Initialize env m of (err, m1) \<Rightarrow> (Start_initialized err, m1))
    | Start_initialized err \<Rightarrow> initialized err m
    | Start_launching \<Rightarrow> (case launch env m of (err, m1) \<Rightarrow> (Start_ended err, m1))
    | Start_ended err \<Rightarrow> (ph, m))"

text \<open>A call that nothing interrupts takes at most four sections.\<close>

definition Manager_Start :: "rec_env \<Rightarrow> RecursorManager \<Rightarrow> string option \<times> RecursorManager" where
  "Manager_Start env m = (case (start_section env ^^ 4) (Start_called, m) of
      (Start_ended err, m1) \<Rightarrow> (err, m1) | (_, m1) \<Rightarrow> (None, m1))"

text \<open>The sections of \<open>Stop\<close>: the flag and the contexts under the lock, then without it the end of whatever
  process is the current one by then, waiting for its exit for two seconds, and the counters under the lock.\<close>

datatype stop_phase = Stop_marked | Stop_signalled | Stop_waited | Stop_ended

definition stop_mark :: "RecursorManager \<Rightarrow> RecursorManager" where
  "stop_mark m = m\<lparr>rm_enabled := False, rm_cancelled := True, rm_loops := map cancel_loop (rm_loops m)\<rparr>"

definition stop_signal :: "RecursorManager \<Rightarrow> RecursorManager" where
  "stop_signal m = m\<lparr>rm_process := False, rm_exits := rm_exits m + (if rm_process m then 1 else 0)\<rparr>"

definition stop_wait :: "bool \<Rightarrow> RecursorManager \<Rightarrow> RecursorManager" where
  "stop_wait timeout m = (if timeout then m else m\<lparr>rm_exitCh := False\<rparr>)"

definition stop_reset :: "RecursorManager \<Rightarrow> RecursorManager" where
  "stop_reset m = m\<lparr>rm_restartAttempts := 0, rm_startTime := None\<rparr>"

definition ResetState :: "RecursorManager \<Rightarrow> RecursorManager" where
  "ResetState m = m\<lparr>rm_installState := StateNotInstalled, rm_enabled := False, rm_restartAttempts := 0, rm_startTime := None\<rparr>"

definition backoff_duration :: "int \<Rightarrow> duration" where
  "backoff_duration attempts = min (2 ^ nat (attempts - 1) * second) MaxBackoffDuration"

text \<open>The watcher, having received an exit, under the lock.\<close>

definition on_exit :: "instant \<Rightarrow> RecursorManager \<Rightarrow> loop_state \<times> RecursorManager" where
  "on_exit now m = (if \<not> rm_enabled m then (Loop_ended, m)
     else (let n = rm_restartAttempts m + 1
           in (Exit_counted n, m\<lparr>rm_restartAttempts := n, rm_lastRestartTime := Some now\<rparr>)))"

definition performHealthCheck_rec :: "bool \<Rightarrow> instant \<Rightarrow> RecursorManager \<Rightarrow> RecursorManager" where
  "performHealthCheck_rec reachable now m = (if reachable then m\<lparr>rm_lastHealthCheck := Some now\<rparr> else m)"

text \<open>One move of a watcher: what its select chooses, whether the port answers, and the move.\<close>

datatype loop_wake = Wake_exit | Wake_tick | Wake_timer

definition watch :: "loop_wake \<Rightarrow> bool \<Rightarrow> RecursorManager \<Rightarrow> (loop_state \<times> RecursorManager) option" where
  "watch w timer m = (case w of
      Wake_exit \<Rightarrow> if rm_exitCh m then Some (Exit_received, m\<lparr>rm_exitCh := False\<rparr>) else None
    | Wake_tick \<Rightarrow> Some (Probing timer, m)
    | Wake_timer \<Rightarrow> if timer then Some (Restarting Start_called, m) else None)"

definition loop_section :: "loop_wake \<Rightarrow> bool \<Rightarrow> rec_env \<Rightarrow> loop_state \<Rightarrow> RecursorManager \<Rightarrow> (loop_state \<times> RecursorManager) option" where
  "loop_section w reachable env l m = (case l of
      Outside timer \<Rightarrow> Some (if rm_cancelled m then Loop_ended else Watching timer, m)
    | Watching timer \<Rightarrow> watch w timer m
    | Probing timer \<Rightarrow> Some (Outside timer, performHealthCheck_rec reachable (re_now env) m)
    | Exit_received \<Rightarrow> Some (on_exit (re_now env) m)
    | Exit_counted n \<Rightarrow> Some (if MaxRestartAttempts < n then (Loop_ended, m\<lparr>rm_enabled := False\<rparr>)
        else (if rm_cancelled m then Loop_ended else Backing_off, m))
    | Backing_off \<Rightarrow> Some (Restarting Start_called, m)
    | Restarting ph \<Rightarrow> Some (case ph of
          Start_ended None \<Rightarrow> (Loop_ended, m)
        | Start_ended (Some e) \<Rightarrow> (Outside True, m)
        | _ \<Rightarrow> (case start_section env (ph, m) of (ph', m1) \<Rightarrow> (Restarting ph', m1)))
    | Loop_ended \<Rightarrow> None)"

text \<open>The whole: the manager with its watchers, the calls of \<open>Start\<close> from outside and those of \<open>Stop\<close>. A
  process that runs holds its port; its monitor waits for the process it was started for.\<close>

record rec_system =
  ry_manager :: RecursorManager
  ry_starts :: "start_phase list"
  ry_stops :: "stop_phase list"

definition new_rec_system :: "string \<Rightarrow> int \<Rightarrow> rec_system" where
  "new_rec_system goos port = \<lparr>ry_manager = NewRecursor goos port, ry_starts = [], ry_stops = []\<rparr>"

definition port_held :: "RecursorManager \<Rightarrow> rec_env \<Rightarrow> bool" where
  "port_held m env \<longleftrightarrow> (rm_process m \<longrightarrow> re_port_taken env \<noteq> None)"

datatype rec_event = Call_Start | Call_Stop | Call_Reset | Goes_on

inductive rec_step :: "rec_event \<Rightarrow> rec_system \<Rightarrow> rec_system \<Rightarrow> bool" where
  process_ends: "m = ry_manager s \<Longrightarrow> rm_process m \<Longrightarrow>
    rec_step Goes_on s (s\<lparr>ry_manager := m\<lparr>rm_process := False, rm_exits := rm_exits m + 1\<rparr>\<rparr>)"
| exit_reported: "m = ry_manager s \<Longrightarrow> rm_exits m = Suc n \<Longrightarrow> \<not> rm_exitCh m \<Longrightarrow>
    rec_step Goes_on s (s\<lparr>ry_manager := m\<lparr>rm_exits := n, rm_exitCh := True\<rparr>\<rparr>)"
| exit_dropped: "m = ry_manager s \<Longrightarrow> rm_exits m = Suc n \<Longrightarrow> rm_cancelled m \<or> rm_exitCh m \<Longrightarrow>
    rec_step Goes_on s (s\<lparr>ry_manager := m\<lparr>rm_exits := n\<rparr>\<rparr>)"
| call_start: "rec_step Call_Start s (s\<lparr>ry_starts := ry_starts s @ [Start_called]\<rparr>)"
| start_goes_on: "i < length (ry_starts s) \<Longrightarrow> port_held (ry_manager s) env \<Longrightarrow>
    start_section env (ry_starts s ! i, ry_manager s) = (ph, m') \<Longrightarrow>
    rec_step Goes_on s (s\<lparr>ry_manager := m', ry_starts := (ry_starts s)[i := ph]\<rparr>)"
| loop_goes_on: "j < length (rm_loops (ry_manager s)) \<Longrightarrow> port_held (ry_manager s) env \<Longrightarrow>
    loop_section w reachable env (rm_loops (ry_manager s) ! j) (ry_manager s) = Some (l, m') \<Longrightarrow>
    rec_step Goes_on s (s\<lparr>ry_manager := m'\<lparr>rm_loops := (rm_loops m')[j := l]\<rparr>\<rparr>)"
| call_stop: "rm_enabled (ry_manager s) \<Longrightarrow>
    rec_step Call_Stop s (s\<lparr>ry_manager := stop_mark (ry_manager s), ry_stops := ry_stops s @ [Stop_marked]\<rparr>)"
| call_stop_idle: "\<not> rm_enabled (ry_manager s) \<Longrightarrow> rec_step Call_Stop s s"
| stop_signals: "i < length (ry_stops s) \<Longrightarrow> ry_stops s ! i = Stop_marked \<Longrightarrow>
    rec_step Goes_on s (s\<lparr>ry_manager := stop_signal (ry_manager s), ry_stops := (ry_stops s)[i := Stop_signalled]\<rparr>)"
| stop_waits: "i < length (ry_stops s) \<Longrightarrow> ry_stops s ! i = Stop_signalled \<Longrightarrow> timeout \<or> rm_exitCh (ry_manager s) \<Longrightarrow>
    rec_step Goes_on s (s\<lparr>ry_manager := stop_wait timeout (ry_manager s), ry_stops := (ry_stops s)[i := Stop_waited]\<rparr>)"
| stop_ends: "i < length (ry_stops s) \<Longrightarrow> ry_stops s ! i = Stop_waited \<Longrightarrow>
    rec_step Goes_on s (s\<lparr>ry_manager := stop_reset (ry_manager s), ry_stops := (ry_stops s)[i := Stop_ended]\<rparr>)"
| call_reset: "rec_step Call_Reset s (s\<lparr>ry_manager := ResetState (ry_manager s)\<rparr>)"

inductive rec_run :: "rec_event list \<Rightarrow> rec_system \<Rightarrow> rec_system \<Rightarrow> bool" where
  stay: "rec_run [] s s"
| go_on: "rec_step e s s1 \<Longrightarrow> rec_run es s1 s' \<Longrightarrow> rec_run (e # es) s s'"

section \<open>The root zone\<close>

definition isTemporaryDownloadError :: "string \<Rightarrow> bool" where
  "isTemporaryDownloadError err = list_ex (go_Contains (ToLower err)) [''timeout'', ''connection refused'', ''connection reset'',
     ''network unreachable'', ''no such host'', ''temporary failure'', ''i/o timeout'', ''connection timed out'']"

definition validateRootZone :: "string \<Rightarrow> bool" where
  "validateRootZone content \<longleftrightarrow> 100000 \<le> length content \<and> (go_Contains content ''$ORIGIN'' \<or> go_Contains content ''$TTL'')
     \<and> go_Contains content ''SOA'' \<and> go_Contains content ''NS''"

text \<open>What one attempt meets: whether a large enough file exists (nothing if that cannot be told), whether the
  embedded copy can be extracted, whether the file is older than seven days, and the error of a download.\<close>

record zone_attempt =
  za_exists :: "bool option"
  za_extracts :: bool
  za_outdated :: "bool option"
  za_download :: "string option"

datatype zone_result = Zone_new | Zone_kept | Zone_failed

fun ensureRootZone :: "zone_attempt list \<Rightarrow> zone_result" where
  "ensureRootZone [] = Zone_failed"
| "ensureRootZone (a # as) = (case za_exists a of
      None \<Rightarrow> ensureRootZone as
    | Some False \<Rightarrow> if za_extracts a then Zone_new
        else (case za_download a of None \<Rightarrow> Zone_new
          | Some e \<Rightarrow> if isTemporaryDownloadError e then ensureRootZone as else Zone_failed)
    | Some True \<Rightarrow> if za_outdated a \<noteq> Some True then Zone_kept
        else (case za_download a of None \<Rightarrow> Zone_new
          | Some e \<Rightarrow> if isTemporaryDownloadError e then ensureRootZone as else Zone_kept))"

section \<open>What the web interface shows\<close>

text \<open>\<open>webapi/api_recursor.go\<close>: the name and the progress for a state, which it takes by its number.\<close>

definition install_status :: "InstallState \<Rightarrow> string \<times> int" where
  "install_status st = (let n = state_number st in
     if n = 0 then (''not_installed'', 0) else if n = 1 then (''installing'', 50)
     else if n = 2 then (''installed'', 100) else if n = 3 then (''error'', 0) else ('''', 0))"

section \<open>Properties\<close>

lemma Manager_Start_eq: "Manager_Start env m = (if rm_enabled m then (Some ''recursor already running'', m)
     else if rm_installState m = StateInitializing then (Some ''recursor is initializing, please wait'', m)
     else if (rm_installState m = StateNotInstalled \<or> rm_installState m = StateRetryableError) \<and> re_goos env = ''linux''
     then (case Initialize env (m\<lparr>rm_installState := StateInitializing\<rparr>) of
         (Some e, m1) \<Rightarrow> (Some e, m1\<lparr>rm_installState := classifyError e\<rparr>)
       | (None, m1) \<Rightarrow> launch env (m1\<lparr>rm_installState := StateInstalled\<rparr>))
     else launch env m)"
  by (auto simp: Manager_Start_def numeral_eq_Suc start_section_def start_check_def initialized_def split: prod.splits option.splits)

lemma Initialize_keeps: "Initialize env m = (e, m') \<Longrightarrow> rm_restartAttempts m' = rm_restartAttempts m \<and> rm_enabled m' = rm_enabled m
    \<and> rm_loops m' = rm_loops m \<and> rm_process m' = rm_process m"
  by (auto simp: Initialize_def Let_def split: prod.splits option.splits sum.splits)

lemma launch_keeps: "launch env m = (e, m') \<Longrightarrow> rm_restartAttempts m' = rm_restartAttempts m"
  by (auto simp: launch_def Let_def split: sum.splits option.splits if_splits)

lemma section_keeps: "start_section env (ph, m) = (ph', m') \<Longrightarrow> rm_restartAttempts m' = rm_restartAttempts m"
  by (auto simp: start_section_def start_check_def initialized_def split: start_phase.splits prod.splits option.splits if_splits
      dest: Initialize_keeps launch_keeps)

text \<open>The starts that are past their check, and the watchers about to give up.\<close>

definition passed :: "start_phase \<Rightarrow> bool" where
  "passed ph = (case ph of Start_called \<Rightarrow> False | Start_ended e \<Rightarrow> False | _ \<Rightarrow> True)"

definition intervenes :: "loop_state \<Rightarrow> bool" where
  "intervenes l = (case l of Restarting ph \<Rightarrow> passed ph | Exit_counted n \<Rightarrow> MaxRestartAttempts < n | _ \<Rightarrow> False)"

definition nothing_under_way :: "rec_system \<Rightarrow> bool" where
  "nothing_under_way s \<longleftrightarrow> (\<forall>ph \<in> set (ry_starts s). \<not> passed ph) \<and> (\<forall>l \<in> set (rm_loops (ry_manager s)). \<not> intervenes l)"

text \<open>The exits that a watcher has still to count.\<close>

definition exit_reports :: "RecursorManager \<Rightarrow> int" where
  "exit_reports m = int (rm_exits m) + (if rm_exitCh m then 1 else 0) + int (length (filter (\<lambda>l. l = Exit_received) (rm_loops m)))"

lemma refused_section:
  assumes "rm_enabled m" "\<not> passed ph" "start_section env (ph, m) = (ph', m')"
  shows "m' = m \<and> \<not> passed ph' \<and> (ph = Start_called \<longrightarrow> ph' = Start_ended (Some ''recursor already running''))"
  using assms by (cases ph) (auto simp: start_section_def start_check_def passed_def)

lemma attempts_step: "rec_step e s s' \<Longrightarrow> 0 \<le> rm_restartAttempts (ry_manager s) \<Longrightarrow> 0 \<le> rm_restartAttempts (ry_manager s')"
proof (induction rule: rec_step.induct)
  case (start_goes_on i s env ph m')
  then show ?case using section_keeps by fastforce
next
  case (loop_goes_on j s env w reachable l m')
  then show ?case
    by (auto simp: loop_section_def watch_def on_exit_def performHealthCheck_rec_def Let_def section_keeps
        split: loop_state.splits loop_wake.splits if_splits start_phase.splits option.splits prod.splits)
qed (auto simp: stop_mark_def stop_signal_def stop_wait_def stop_reset_def ResetState_def)

lemma attempts_run: "rec_run es s s' \<Longrightarrow> 0 \<le> rm_restartAttempts (ry_manager s) \<Longrightarrow> 0 \<le> rm_restartAttempts (ry_manager s')"
  by (induction rule: rec_run.induct) (auto intro: attempts_step)

definition stays_down :: "int \<Rightarrow> rec_system \<Rightarrow> bool" where
  "stays_down k s \<longleftrightarrow> rm_enabled (ry_manager s) \<and> \<not> rm_process (ry_manager s) \<and> nothing_under_way s
     \<and> 0 \<le> rm_restartAttempts (ry_manager s) \<and> rm_restartAttempts (ry_manager s) + exit_reports (ry_manager s) \<le> k"

lemma length_filter_set:
  "j < length xs \<Longrightarrow> int (length (filter P (xs[j := y]))) = int (length (filter P xs)) + of_bool (P y) - of_bool (P (xs ! j))"
proof (induction xs arbitrary: j)
  case (Cons x xs)
  then show ?case by (cases j) simp_all
qed simp

text \<open>A move of a watcher while the manager takes the process to run and it does not.\<close>

lemma loop_down:
  assumes "loop_section w reachable env l m = Some (l', m')" "\<not> intervenes l" "rm_enabled m"
    "rm_restartAttempts m + exit_reports m \<le> MaxRestartAttempts" "l = Exit_received \<longrightarrow> 1 \<le> exit_reports m"
  shows "rm_enabled m' \<and> rm_process m' = rm_process m \<and> rm_loops m' = rm_loops m \<and> \<not> intervenes l' \<and> rm_exits m' = rm_exits m
    \<and> rm_restartAttempts m \<le> rm_restartAttempts m'
    \<and> rm_restartAttempts m' + (if rm_exitCh m' then 1 else 0) + of_bool (l' = Exit_received)
      = rm_restartAttempts m + (if rm_exitCh m then 1 else 0) + of_bool (l = Exit_received)"
proof (cases l)
  case (Restarting ph)
  then have p: "\<not> passed ph" using assms(2) by (simp add: intervenes_def)
  show ?thesis
  proof (cases "ph = Start_called")
    case True
    then have "l' = Restarting (Start_ended (Some ''recursor already running''))" "m' = m"
      using assms(1,3) Restarting by (simp_all add: loop_section_def start_section_def start_check_def)
    then show ?thesis using Restarting assms(3) by (simp add: intervenes_def passed_def)
  next
    case False
    then obtain e where "ph = Start_ended e" using p by (cases ph) (simp_all add: passed_def)
    then show ?thesis using assms(1,3) Restarting
      by (auto simp: loop_section_def intervenes_def split: option.splits)
  qed
qed (use assms in \<open>auto simp: loop_section_def watch_def on_exit_def performHealthCheck_rec_def intervenes_def passed_def Let_def
    split: loop_wake.splits if_splits\<close>)

lemma down_step:
  assumes "rec_step e s s'" "stays_down k s" "k \<le> MaxRestartAttempts" "e \<noteq> Call_Stop" "e \<noteq> Call_Reset"
  shows "stays_down k s'"
  using assms
proof (induction rule: rec_step.induct)
  case (start_goes_on i s env ph m')
  have p: "\<not> passed (ry_starts s ! i)" and en: "rm_enabled (ry_manager s)"
    using start_goes_on(1,4) by (auto simp: stays_down_def nothing_under_way_def)
  note r = refused_section[OF en p start_goes_on(3)]
  then show ?case using start_goes_on(1,4) by (auto simp: stays_down_def nothing_under_way_def dest!: set_update_subset_insert[THEN subsetD])
next
  case (loop_goes_on j s env w reachable l m')
  let ?m = "ry_manager s" and ?l = "rm_loops (ry_manager s) ! j"
  have d: "rm_enabled ?m" "\<not> rm_process ?m" "\<not> intervenes ?l" "rm_restartAttempts ?m + exit_reports ?m \<le> k"
    "0 \<le> rm_restartAttempts ?m" "nothing_under_way s"
    using loop_goes_on(1,4) by (auto simp: stays_down_def nothing_under_way_def)
  have x: "?l = Exit_received \<longrightarrow> 1 \<le> exit_reports ?m"
  proof
    assume "?l = Exit_received"
    then have "Exit_received \<in> set (filter (\<lambda>l. l = Exit_received) (rm_loops ?m))"
      using nth_mem[OF loop_goes_on(1)] by simp
    then have "1 \<le> length (filter (\<lambda>l. l = Exit_received) (rm_loops ?m))" by (cases "filter (\<lambda>l. l = Exit_received) (rm_loops ?m)") simp_all
    then show "1 \<le> exit_reports ?m" unfolding exit_reports_def by (smt (verit, best) of_nat_0_le_iff of_nat_mono of_nat_1)
  qed
  have k: "rm_restartAttempts ?m + exit_reports ?m \<le> MaxRestartAttempts" using d(4) loop_goes_on(5) by simp
  note r = loop_down[OF loop_goes_on(3) d(3) d(1) k x]
  have b: "rm_restartAttempts m' + exit_reports (m'\<lparr>rm_loops := (rm_loops m')[j := l]\<rparr>) = rm_restartAttempts ?m + exit_reports ?m"
    using r by (simp add: exit_reports_def length_filter_set[OF loop_goes_on(1)])
  show ?case using r b d by (auto simp: stays_down_def nothing_under_way_def dest!: set_update_subset_insert[THEN subsetD])
qed (auto simp: stays_down_def nothing_under_way_def exit_reports_def passed_def stop_signal_def stop_wait_def stop_reset_def)

lemma down_run: "rec_run es s s' \<Longrightarrow> stays_down k s \<Longrightarrow> k \<le> MaxRestartAttempts \<Longrightarrow> Call_Stop \<notin> set es \<Longrightarrow> Call_Reset \<notin> set es \<Longrightarrow>
    stays_down k s'"
  by (induction rule: rec_run.induct) (auto intro: down_step)

text \<open>C34: Once the process of the embedded resolver has ended by itself it stays down: unless a call of
  Start was past its check by then, or a watcher was giving up, the manager goes on saying that it is enabled
  in every run, however the calls and the watchers interleave, in which nobody calls Stop or the reset; every
  Start, the restarts of the watchers included, is refused because the process is taken to be running; and the
  count of restarts grows only by the exits that were still to be counted, so that the limit of five, which
  would clear the flag, is not reached.\<close>

theorem crashed_recursor_stays_down:
  assumes "rec_run es (new_rec_system goos port) s" "rm_enabled (ry_manager s)" "\<not> rm_process (ry_manager s)"
    and "nothing_under_way s" "rm_restartAttempts (ry_manager s) + exit_reports (ry_manager s) \<le> MaxRestartAttempts"
    and "rec_run es' s s'" "Call_Stop \<notin> set es'" "Call_Reset \<notin> set es'"
  shows "rm_enabled (ry_manager s') \<and> \<not> rm_process (ry_manager s') \<and> nothing_under_way s'
    \<and> rm_restartAttempts (ry_manager s') \<le> rm_restartAttempts (ry_manager s) + exit_reports (ry_manager s)
    \<and> start_section env (Start_called, ry_manager s') = (Start_ended (Some ''recursor already running''), ry_manager s')"
proof -
  have "0 \<le> rm_restartAttempts (ry_manager s)"
    using attempts_run[OF assms(1)] by (simp add: new_rec_system_def NewRecursor_def)
  then have "stays_down (rm_restartAttempts (ry_manager s) + exit_reports (ry_manager s)) s"
    using assms(2-4) by (simp add: stays_down_def)
  from down_run[OF assms(6) this assms(5,7,8)]
  have d: "rm_enabled (ry_manager s')" "\<not> rm_process (ry_manager s')" "nothing_under_way s'"
    "rm_restartAttempts (ry_manager s') + exit_reports (ry_manager s') \<le> rm_restartAttempts (ry_manager s) + exit_reports (ry_manager s)"
    by (simp_all add: stays_down_def)
  moreover have "0 \<le> exit_reports (ry_manager s')" by (simp add: exit_reports_def)
  ultimately show ?thesis by (simp add: start_section_def start_check_def)
qed

text \<open>A call of Start that was past its check does launch the process again.\<close>

lemma passed_start_relaunches:
  fixes env :: rec_env
  assumes "i < length (ry_starts s)" "ry_starts s ! i = Start_launching" "\<not> rm_process (ry_manager s)"
    "re_platform env = Inr path" "re_port_taken env = None" "re_spawn env = None" "re_ready env"
  shows "\<exists>s'. rec_step Goes_on s s' \<and> rm_process (ry_manager s')"
proof -
  obtain m' where m': "launch env (ry_manager s) = (None, m')" "rm_process m'" using assms(4-7) by (simp add: launch_def Let_def)
  have "rec_step Goes_on s (s\<lparr>ry_manager := m', ry_starts := (ry_starts s)[i := Start_ended None]\<rparr>)"
    by (rule start_goes_on[OF assms(1), where env = env]) (simp_all add: port_held_def assms(2,3) start_section_def m'(1))
  then show ?thesis using m'(2) by (metis (no_types, lifting) rec_system.select_convs(1) rec_system.surjective rec_system.update_convs(1,2))
qed

definition example_rec_env :: rec_env where
  "example_rec_env = \<lparr>re_goos = ''linux'', re_now = 0, re_numCPU = 4, re_os_release = Some ''ID=debian'', re_lsb_release = None,
     re_installed = True, re_install = None, re_version = Inr ''1.19.0'', re_path = Inr ''/usr/sbin/unbound'',
     re_platform = Inr ''unbound.conf'', re_port_taken = None, re_spawn = None, re_ready = True\<rparr>"

text \<open>A call that nothing interrupts, as steps.\<close>

lemma sections_run:
  assumes "\<forall>i < k. port_held (snd ((start_section env ^^ i) (Start_called, ry_manager s))) env"
  shows "rec_run (Call_Start # replicate k Goes_on) s
    (s\<lparr>ry_manager := snd ((start_section env ^^ k) (Start_called, ry_manager s)),
       ry_starts := ry_starts s @ [fst ((start_section env ^^ k) (Start_called, ry_manager s))]\<rparr>)"
proof -
  let ?at = "\<lambda>i. (start_section env ^^ i) (Start_called, ry_manager s)"
  let ?s = "\<lambda>i. s\<lparr>ry_manager := snd (?at i), ry_starts := ry_starts s @ [fst (?at i)]\<rparr>"
  have step: "rec_step Goes_on (?s i) (?s (Suc i))" if "i < k" for i
    using start_goes_on[of "length (ry_starts s)" "?s i" env "fst (?at (Suc i))" "snd (?at (Suc i))"] that assms by simp
  have "rec_run (replicate n Goes_on) (?s (k - n)) (?s k)" if "n \<le> k" for n
    using that
  proof (induction n)
    case 0
    show ?case by (simp add: rec_run.stay)
  next
    case (Suc n)
    have "Suc (k - Suc n) = k - n" using Suc.prems by simp
    then show ?case using rec_run.go_on[OF step[of "k - Suc n"], of "replicate n Goes_on" "?s k"] Suc by simp
  qed
  from this[of k] have "rec_run (replicate k Goes_on) (?s 0) (?s k)" by simp
  moreover have "rec_step Call_Start s (?s 0)" using call_start[of s] by simp
  ultimately show ?thesis by (rule rec_run.go_on[rotated])
qed

definition example_started :: "nat \<Rightarrow> start_phase \<times> RecursorManager" where
  "example_started k = (start_section example_rec_env ^^ k) (Start_called, NewRecursor ''linux'' 5353)"

lemma example_start:
  "k < 4 \<Longrightarrow> \<not> rm_process (snd (example_started k))"
  "fst (example_started 4) = Start_ended None" "rm_enabled (snd (example_started 4))" "rm_process (snd (example_started 4))"
  "rm_loops (snd (example_started 4)) = [Outside False]" "rm_restartAttempts (snd (example_started 4)) = 0"
  "rm_exits (snd (example_started 4)) = 0" "\<not> rm_exitCh (snd (example_started 4))" "\<not> rm_cancelled (snd (example_started 4))"
proof -
  assume "k < 4"
  then consider "k = 0" | "k = 1" | "k = 2" | "k = 3" by linarith
  then show "\<not> rm_process (snd (example_started k))"
    by cases (simp_all add: example_started_def start_section_def start_check_def initialized_def NewRecursor_def example_rec_env_def
      Initialize_def DetectSystem_def NewSystemManager_def detectLinuxDistro_def ValidateConfig_def GetSystemInfo_def Let_def numeral_eq_Suc)
qed (simp_all add: example_started_def start_section_def start_check_def initialized_def NewRecursor_def example_rec_env_def Initialize_def
    DetectSystem_def NewSystemManager_def detectLinuxDistro_def ValidateConfig_def GetSystemInfo_def launch_def Let_def numeral_eq_Suc)

lemma run_append: "rec_run es s s1 \<Longrightarrow> rec_run es' s1 s' \<Longrightarrow> rec_run (es @ es') s s'"
  by (induction rule: rec_run.induct) (auto intro: rec_run.go_on)

lemma loop_alone:
  assumes "rm_loops m = [l]" "\<not> rm_process m" "loop_section w True example_rec_env l m = Some (l', m')" "rm_loops m' = [l]"
  shows "rec_step Goes_on (s\<lparr>ry_manager := m\<rparr>) (s\<lparr>ry_manager := m'\<lparr>rm_loops := [l']\<rparr>\<rparr>)"
  using loop_goes_on[of 0 "s\<lparr>ry_manager := m\<rparr>" example_rec_env w True l' m'] assms by (simp add: port_held_def)

text \<open>A crash: the exit is reported, received and counted, and after the pause the restart is refused.\<close>

lemma crash_run:
  assumes "rm_loops m = [Outside False]" "\<not> rm_process m" "rm_enabled m" "rm_exits m = 1" "\<not> rm_exitCh m" "\<not> rm_cancelled m"
    "rm_restartAttempts m = 0"
  shows "\<exists>m'. rec_run (replicate 8 Goes_on) (s\<lparr>ry_manager := m\<rparr>) (s\<lparr>ry_manager := m'\<rparr>) \<and> rm_loops m' = [Outside True]"
proof -
  let ?m1 = "m\<lparr>rm_exits := 0, rm_exitCh := True\<rparr>"
  let ?m2 = "?m1\<lparr>rm_loops := [Watching False]\<rparr>"
  let ?m3 = "?m2\<lparr>rm_exitCh := False, rm_loops := [Exit_received]\<rparr>"
  let ?m4 = "?m3\<lparr>rm_restartAttempts := 1, rm_lastRestartTime := Some 0, rm_loops := [Exit_counted 1]\<rparr>"
  let ?m5 = "?m4\<lparr>rm_loops := [Backing_off]\<rparr>"
  let ?m6 = "?m5\<lparr>rm_loops := [Restarting Start_called]\<rparr>"
  let ?m7 = "?m6\<lparr>rm_loops := [Restarting (Start_ended (Some ''recursor already running''))]\<rparr>"
  let ?m8 = "?m7\<lparr>rm_loops := [Outside True]\<rparr>"
  let ?s = "\<lambda>m. s\<lparr>ry_manager := m\<rparr>"
  note d = loop_section_def watch_def on_exit_def MaxRestartAttempts_def start_section_def start_check_def example_rec_env_def Let_def
  have 1: "rec_step Goes_on (?s m) (?s ?m1)" using exit_reported[OF refl, of "?s m" 0] assms(4,5) by simp
  have 2: "rec_step Goes_on (?s ?m1) (?s ?m2)"
    using loop_alone[of ?m1 "Outside False" Wake_tick "Watching False" ?m1 s] assms by (simp add: d)
  have 3: "rec_step Goes_on (?s ?m2) (?s ?m3)"
    using loop_alone[of ?m2 "Watching False" Wake_exit Exit_received "?m2\<lparr>rm_exitCh := False\<rparr>" s] assms by (simp add: d)
  have 4: "rec_step Goes_on (?s ?m3) (?s ?m4)"
    using loop_alone[of ?m3 Exit_received Wake_tick "Exit_counted 1" "?m3\<lparr>rm_restartAttempts := 1, rm_lastRestartTime := Some 0\<rparr>" s]
      assms by (simp add: d)
  have 5: "rec_step Goes_on (?s ?m4) (?s ?m5)"
    using loop_alone[of ?m4 "Exit_counted 1" Wake_tick Backing_off ?m4 s] assms by (simp add: d)
  have 6: "rec_step Goes_on (?s ?m5) (?s ?m6)"
    using loop_alone[of ?m5 Backing_off Wake_tick "Restarting Start_called" ?m5 s] assms by (simp add: d)
  have 7: "rec_step Goes_on (?s ?m6) (?s ?m7)"
    using loop_alone[of ?m6 "Restarting Start_called" Wake_tick "Restarting (Start_ended (Some ''recursor already running''))" ?m6 s]
      assms by (simp add: d)
  have 8: "rec_step Goes_on (?s ?m7) (?s ?m8)"
    using loop_alone[of ?m7 "Restarting (Start_ended (Some ''recursor already running''))" Wake_tick "Outside True" ?m7 s]
      assms by (simp add: d)
  have "rec_run [Goes_on, Goes_on, Goes_on, Goes_on, Goes_on, Goes_on, Goes_on, Goes_on] (?s m) (?s ?m8)"
    by (rule rec_run.go_on[OF 1 rec_run.go_on[OF 2 rec_run.go_on[OF 3 rec_run.go_on[OF 4
        rec_run.go_on[OF 5 rec_run.go_on[OF 6 rec_run.go_on[OF 7 rec_run.go_on[OF 8 rec_run.stay]]]]]]]])
  then show ?thesis by (intro exI[of _ ?m8]) (simp add: numeral_eq_Suc)
qed

theorem crashed_recursor_stays_down_witness:
  "\<exists>es s s'. rec_run es (new_rec_system ''linux'' 5353) s \<and> rec_run (replicate 8 Goes_on) s s'
    \<and> rm_loops (ry_manager s') = [Outside True] \<and> rm_enabled (ry_manager s') \<and> \<not> rm_process (ry_manager s')
    \<and> rm_restartAttempts (ry_manager s') \<le> 1"
proof -
  let ?s0 = "new_rec_system ''linux'' 5353"
  define m where "m = (snd (example_started 4))\<lparr>rm_process := False, rm_exits := 1\<rparr>"
  define s where "s = ?s0\<lparr>ry_manager := snd (example_started 4), ry_starts := [fst (example_started 4)]\<rparr>"
  note x = example_start(2-9)
  have held: "port_held (snd (example_started i)) example_rec_env" if "i < 4" for i
    using example_start(1)[OF that] by (simp add: port_held_def)
  have r: "rec_run (Call_Start # replicate 4 Goes_on) ?s0 s"
    using sections_run[of 4 example_rec_env ?s0] held by (simp add: s_def new_rec_system_def example_started_def)
  have "rec_step Goes_on s (s\<lparr>ry_manager := m\<rparr>)" using process_ends[OF refl, of s] x by (simp add: s_def m_def)
  from run_append[OF r rec_run.go_on[OF this rec_run.stay]]
  obtain es where rc: "rec_run es ?s0 (s\<lparr>ry_manager := m\<rparr>)" by blast
  obtain m' where m': "rec_run (replicate 8 Goes_on) (s\<lparr>ry_manager := m\<rparr>) (s\<lparr>ry_manager := m'\<rparr>)" "rm_loops m' = [Outside True]"
    using crash_run[of m s] x by (auto simp: m_def)
  have e: "exit_reports m = 1" by (simp add: exit_reports_def m_def x)
  have "rm_enabled m' \<and> \<not> rm_process m' \<and> rm_restartAttempts m' \<le> 1"
    using crashed_recursor_stays_down[OF rc _ _ _ _ m'(1)]
    by (simp add: e) (simp add: m_def s_def x nothing_under_way_def passed_def intervenes_def MaxRestartAttempts_def)
  then show ?thesis using rc m' by (intro exI[of _ es] exI[of _ "s\<lparr>ry_manager := m\<rparr>"] exI[of _ "s\<lparr>ry_manager := m'\<rparr>"]) simp
qed

text \<open>C40: A start that was refused because the installation or the settings are not acceptable is refused only
  once: the next start skips the initialisation and runs the process with the same settings.\<close>

theorem refused_settings_start_next_time:
  assumes "rm_installState m = StateNotInstalled" "\<not> rm_enabled m" "re_goos env = ''linux''"
    and "Manager_Start env m = (Some e, m1)" "fst (Initialize env (m\<lparr>rm_installState := StateInitializing\<rparr>)) = Some e" "classifyError e = StateError"
    and "re_platform env' = Inr path" "re_port_taken env' = None" "re_spawn env' = None" "re_ready env'"
  shows "\<exists>m2. Manager_Start env' m1 = (None, m2) \<and> rm_enabled m2 \<and> rm_port m2 = rm_port m \<and> rm_installState m2 = StateError"
proof -
  obtain m0 where i: "Initialize env (m\<lparr>rm_installState := StateInitializing\<rparr>) = (Some e, m0)" using assms(5) by (metis prod.collapse)
  have p: "rm_port m0 = rm_port m" using i by (auto simp: Initialize_def Let_def split: prod.splits option.splits sum.splits)
  have m1: "m1 = m0\<lparr>rm_installState := StateError\<rparr>" using assms(1-4,6) i by (simp add: Manager_Start_eq)
  moreover have "\<not> rm_enabled m0" using Initialize_keeps[OF i] assms(2) by simp
  ultimately show ?thesis using assms(7-10) p by (simp add: Manager_Start_eq launch_def Let_def)
qed

theorem refused_settings_start_next_time_witness:
  "\<exists>m1 m2 e. Manager_Start example_rec_env (NewRecursor ''linux'' 53) = (Some e, m1) \<and> Manager_Start example_rec_env m1 = (None, m2)
    \<and> rm_enabled m2 \<and> rm_port m2 = 53"
proof -
  let ?m = "NewRecursor ''linux'' 53" and ?e = "''invalid configuration: invalid port: '' @ FormatInt 53"
  have c: "classifyError ?e = StateError" by code_simp
  have i: "fst (Initialize example_rec_env (?m\<lparr>rm_installState := StateInitializing\<rparr>)) = Some ?e"
    by (simp add: NewRecursor_def example_rec_env_def Initialize_def DetectSystem_def NewSystemManager_def detectLinuxDistro_def
        ValidateConfig_def GetSystemInfo_def Let_def)
  obtain m0 where "Initialize example_rec_env (?m\<lparr>rm_installState := StateInitializing\<rparr>) = (Some ?e, m0)" using i by (metis prod.collapse)
  then have s: "Manager_Start example_rec_env ?m = (Some ?e, m0\<lparr>rm_installState := classifyError ?e\<rparr>)"
    by (simp add: Manager_Start_eq NewRecursor_def example_rec_env_def)
  have "\<exists>m2. Manager_Start example_rec_env (m0\<lparr>rm_installState := classifyError ?e\<rparr>) = (None, m2) \<and> rm_enabled m2
      \<and> rm_port m2 = rm_port ?m \<and> rm_installState m2 = StateError"
    by (rule refused_settings_start_next_time[OF _ _ _ s i c, of example_rec_env "''unbound.conf''"])
      (simp_all add: NewRecursor_def example_rec_env_def)
  then show ?thesis using s by (auto simp: NewRecursor_def)
qed

text \<open>The states are shown under their numbers from before one was added: only the first is shown right.\<close>

lemma install_status_shifted:
  "install_status StateInstalled = (''error'', 0)" "install_status StateInstalling = (''installed'', 100)"
  "install_status StateInitializing = (''installing'', 50)" "install_status StateError = ('''', 0)"
  by (simp_all add: install_status_def state_number_def)

text \<open>With an outdated file three temporary failures are an error although the file is there, which any other
  failure is not.\<close>

lemma outdated_zone:
  assumes "\<forall>a \<in> set as. za_exists a = Some True \<and> za_outdated a = Some True"
  shows "ensureRootZone as = Zone_failed \<longleftrightarrow> (\<forall>a \<in> set as. \<exists>e. za_download a = Some e \<and> isTemporaryDownloadError e)"
  using assms by (induction as) (auto split: option.split)

lemma CalculateParams_bounds:
  "pa_NumThreads (CalculateParams cg) \<in> {1..8}" "pa_MsgCacheSize (CalculateParams cg) \<in> {11..26}"
  "pa_RRsetCacheSize (CalculateParams cg) \<in> {22..52}"
  by (auto simp: CalculateParams_def Let_def)

end
