(* ===== verification/Network.thy ===== *)
theory Network
  imports Recursor Transports
begin

text \<open>The verdict on the network (\<open>connectivity/checker.go\<close>), the resolver for the names of upstream servers
  (\<open>upstream/bootstrap/resolver.go\<close>) and the making of transports from their URLs (\<open>upstream/factory.go\<close>).
  Sockets and the DNS client are parameters.\<close>

section \<open>Probes\<close>

record NetworkHealthConfig =
  nh_NormalProbeInterval :: duration
  nh_UnhealthyProbeInterval :: duration
  nh_FailureThreshold :: int
  nh_ProbeTimeout :: duration
  nh_ProbeIPs :: "string list"
  nh_ProbePorts :: "int list"

definition DefaultNetworkHealthConfig :: NetworkHealthConfig where
  "DefaultNetworkHealthConfig = \<lparr>nh_NormalProbeInterval = 1 * minute, nh_UnhealthyProbeInterval = 20 * second,
     nh_FailureThreshold = 3, nh_ProbeTimeout = 2 * second,
     nh_ProbeIPs = [''8.8.8.8'', ''8.8.4.4'', ''1.0.0.1'', ''223.5.5.5'', ''223.6.6.6''], nh_ProbePorts = [443, 53]\<rparr>"

text \<open>One read of the ICMP socket: an error, a packet that does not parse, or a packet with its source, whether it is
  an echo reply, and its id and sequence number.\<close>

datatype icmp_read = Read_error | Unparsable | Packet string bool int int

fun icmp_replies :: "nat \<Rightarrow> string \<Rightarrow> int \<Rightarrow> icmp_read list \<Rightarrow> bool" where
  "icmp_replies 0 ip pid rs = False"
| "icmp_replies (Suc n) ip pid [] = False"
| "icmp_replies (Suc n) ip pid (r # rs) = (case r of
      Read_error \<Rightarrow> False
    | Unparsable \<Rightarrow> icmp_replies n ip pid rs
    | Packet from_ip reply pid' seq \<Rightarrow> if from_ip = ip \<and> reply \<and> pid' = pid \<and> seq = 1 then True else icmp_replies n ip pid rs)"

record probe_io =
  pi_listen :: bool                         \<comment> \<open>one of the two ICMP sockets opens\<close>
  pi_send :: "string \<Rightarrow> bool"
  pi_reads :: "string \<Rightarrow> icmp_read list"
  pi_pid :: int
  pi_dial :: "string \<Rightarrow> int \<Rightarrow> duration option"  \<comment> \<open>how long a connection takes, if it succeeds\<close>

definition probeIP :: "probe_io \<Rightarrow> string \<Rightarrow> bool" where
  "probeIP io ip \<longleftrightarrow> pi_listen io \<and> pi_send io ip \<and> icmp_replies 10 ip (pi_pid io mod 65536) (pi_reads io ip)"

definition probeIPWithPort :: "probe_io \<Rightarrow> string \<Rightarrow> int \<Rightarrow> bool" where
  "probeIPWithPort io ip port = (case pi_dial io ip port of None \<Rightarrow> False
     | Some rtt \<Rightarrow> \<not> (port = 53 \<and> rtt < 2 * millisecond))"

definition probeIPWithTCP :: "probe_io \<Rightarrow> NetworkHealthConfig \<Rightarrow> string \<Rightarrow> bool" where
  "probeIPWithTCP io cfg ip = list_ex (probeIPWithPort io ip) (nh_ProbePorts cfg)"

text \<open>All addresses are probed at once; one success is enough.\<close>

definition probe :: "probe_io \<Rightarrow> NetworkHealthConfig \<Rightarrow> bool" where
  "probe io cfg = list_ex (\<lambda>ip. probeIP io ip \<or> probeIPWithTCP io cfg ip) (nh_ProbeIPs cfg)"

record networkHealthChecker =
  nc_networkHealthy :: bool
  nc_consecutiveFailures :: int
  nc_config :: NetworkHealthConfig

definition NewNetworkHealthChecker :: "NetworkHealthConfig \<Rightarrow> networkHealthChecker" where
  "NewNetworkHealthChecker cfg = \<lparr>nc_networkHealthy = True, nc_consecutiveFailures = 0, nc_config = cfg\<rparr>"

definition getCurrentProbeInterval :: "networkHealthChecker \<Rightarrow> duration" where
  "getCurrentProbeInterval c = (if nc_networkHealthy c then nh_NormalProbeInterval (nc_config c) else nh_UnhealthyProbeInterval (nc_config c))"

definition performProbe :: "bool \<Rightarrow> networkHealthChecker \<Rightarrow> networkHealthChecker" where
  "performProbe healthy c = (if healthy then c\<lparr>nc_consecutiveFailures := 0, nc_networkHealthy := True\<rparr>
     else (let n = nc_consecutiveFailures c + 1; c1 = c\<lparr>nc_consecutiveFailures := n\<rparr>
           in if nh_FailureThreshold (nc_config c) \<le> n then c1\<lparr>nc_networkHealthy := False\<rparr> else c1))"

text \<open>The loop: a probe at once, then one at every tick; the ticker is replaced when the interval changes. A probe
  takes \<open>d\<close>; \<open>pl_due\<close> is the time of the next tick, \<open>pl_free\<close> the end of the last probe. A tick that falls
  into a probe waits for its end, further ones are dropped.\<close>

record probe_loop =
  pl_checker :: networkHealthChecker
  pl_interval :: duration
  pl_due :: instant
  pl_free :: instant

definition loop_start :: "instant \<Rightarrow> bool \<Rightarrow> duration \<Rightarrow> networkHealthChecker \<Rightarrow> probe_loop" where
  "loop_start t healthy d c0 = (let c = performProbe healthy c0; i = getCurrentProbeInterval c
     in \<lparr>pl_checker = c, pl_interval = i, pl_due = t + d + i, pl_free = t + d\<rparr>)"

definition loop_tick :: "bool \<Rightarrow> duration \<Rightarrow> probe_loop \<Rightarrow> probe_loop" where
  "loop_tick healthy d l = (let start = max (pl_due l) (pl_free l); c = performProbe healthy (pl_checker l); i = getCurrentProbeInterval c
     in \<lparr>pl_checker = c, pl_interval = i, 
         pl_due = (if i \<noteq> pl_interval l then start + d + i else pl_due l + i * ((start - pl_due l) div i + 1)), pl_free = start + d\<rparr>)"

section \<open>The bootstrap resolver\<close>

record bootstrap_resolver =
  br_servers :: "string list"
  br_cache :: "string \<rightharpoonup> string \<times> instant"
  br_circuitOpen :: bool
  br_lastFailure :: instant

definition NewResolver :: "string list \<Rightarrow> bootstrap_resolver" where
  "NewResolver servers = \<lparr>br_servers = servers, br_cache = Map.empty, br_circuitOpen = False, br_lastFailure = 0\<rparr>"

text \<open>A reply is its code and the addresses of its A records.\<close>

type_synonym dns_client = "string \<Rightarrow> string \<Rightarrow> go_error + (int \<times> string list)"

definition queryOne :: "dns_client \<Rightarrow> string \<Rightarrow> string \<Rightarrow> go_error + string" where
  "queryOne client server host =
     (case client (if SplitHostPort server = None then JoinHostPort server ''53'' else server) host of
        Inl e \<Rightarrow> Inl e
      | Inr (rcode, addrs) \<Rightarrow> if rcode \<noteq> 0 then Inl (Err_text (''dns query failed with rcode: '' @ FormatInt rcode))
          else (case addrs of [] \<Rightarrow> Inl (Err_text ''no A record found'') | a # _ \<Rightarrow> Inr a))"

fun query_servers :: "dns_client \<Rightarrow> string \<Rightarrow> string list \<Rightarrow> go_error option \<Rightarrow> string list \<times> (go_error option + string)" where
  "query_servers client host [] lastErr = ([], Inl lastErr)"
| "query_servers client host (s # ss) lastErr = (case queryOne client s host of
      Inr ip \<Rightarrow> ([s], Inr ip)
    | Inl e \<Rightarrow> (let (asked, r) = query_servers client host ss (Some e) in (s # asked, r)))"

text \<open>\<open>Resolve\<close> gives the servers asked, the result and the resolver; \<open>now\<close> and \<open>after\<close> are the times before and after
  the queries, \<open>healthy\<close> the verdict of the checker if there is one. \<open>resolve_uncached\<close> is what follows the cache.\<close>

definition resolve_uncached :: "dns_client \<Rightarrow> bool option \<Rightarrow> instant \<Rightarrow> instant \<Rightarrow> string \<Rightarrow> bootstrap_resolver \<Rightarrow>
    string list \<times> (go_error + string) \<times> bootstrap_resolver" where
  "resolve_uncached client healthy now after host r =
     (if ParseIP host \<noteq> None then ([], Inr host, r)
      else if br_circuitOpen r \<and> now - br_lastFailure r \<le> 30 * second
        then ([], Inl (Err_text ''bootstrap circuit breaker open, network unavailable''), r)
      else (let r1 = r\<lparr>br_circuitOpen := False\<rparr> in
        if healthy = Some False then ([], Inl (Err_text ''network unhealthy, bootstrap resolution skipped''), r1)
        else (case query_servers client host (br_servers r1) None of
            (asked, Inr ip) \<Rightarrow> (asked, Inr ip, r1\<lparr>br_cache := (br_cache r1)(host \<mapsto> (ip, after + 10 * minute)), br_circuitOpen := False\<rparr>)
          | (asked, Inl lastErr) \<Rightarrow> (asked,
              Inl (case lastErr of Some e \<Rightarrow> e | None \<Rightarrow> Err_text ''no bootstrap servers available''),
              if \<not> br_circuitOpen r1 then r1\<lparr>br_circuitOpen := True, br_lastFailure := after\<rparr> else r1))))"

definition Resolve :: "dns_client \<Rightarrow> bool option \<Rightarrow> instant \<Rightarrow> instant \<Rightarrow> string \<Rightarrow> bootstrap_resolver \<Rightarrow>
    string list \<times> (go_error + string) \<times> bootstrap_resolver" where
  "Resolve client healthy now after host r =
     (case br_cache r host of
        Some (ip, expiresAt) \<Rightarrow> if now < expiresAt then ([], Inr ip, r)
          else resolve_uncached client healthy now after host (r\<lparr>br_cache := (br_cache r)(host := None)\<rparr>)
      | None \<Rightarrow> resolve_uncached client healthy now after host r)"

text \<open>Where the HTTP client of a DoH server dials: the address it asks for is resolved first.\<close>

definition doh_dial :: "dns_client \<Rightarrow> bool option \<Rightarrow> instant \<Rightarrow> instant \<Rightarrow> string \<Rightarrow> bootstrap_resolver \<Rightarrow>
    (go_error + string) \<times> bootstrap_resolver" where
  "doh_dial client healthy now after addr r = (case SplitHostPort addr of
      None \<Rightarrow> (Inl (Err_text ''address''), r)
    | Some (host, port) \<Rightarrow> (case Resolve client healthy now after host r of
          (_, Inl e, r1) \<Rightarrow> (Inl e, r1) | (_, Inr ip, r1) \<Rightarrow> (Inr (JoinHostPort ip port), r1)))"

section \<open>Transports from URLs\<close>

text \<open>\<open>url.Parse\<close>, of which the scheme and the host are used. Authorities with percent signs are left out.\<close>

definition url_cut :: "char \<Rightarrow> string \<Rightarrow> string" where
  "url_cut c s = takeWhile (\<lambda>d. d \<noteq> c) s"

definition is_letter :: "char \<Rightarrow> bool" where
  "is_letter c \<longleftrightarrow> is_alnum c \<and> digit_value c = None"

fun url_scheme :: "bool \<Rightarrow> string \<Rightarrow> (string \<times> string) option" where
  "url_scheme first [] = None"
| "url_scheme first (c # s) = (if is_letter c \<or> \<not> first \<and> (digit_value c \<noteq> None \<or> c \<in> {CHR ''+'', CHR ''-'', CHR ''.''})
      then map_option (\<lambda>(sch, rest). (lower_char c # sch, rest)) (url_scheme False s)
    else if c = CHR '':'' \<and> \<not> first then Some ([], s) else None)"

definition host_char :: "char \<Rightarrow> bool" where
  "host_char c \<longleftrightarrow> is_alnum c \<or> c \<in> set ''-_.~!$&()*+,;=:[]<>'' \<or> c = CHR 0x27 \<or> c = CHR 0x22 \<or> of_char c \<ge> (128 :: nat)"

definition optional_port :: "string \<Rightarrow> bool" where
  "optional_port p = (case p of [] \<Rightarrow> True | c # ds \<Rightarrow> c = CHR '':'' \<and> list_all (\<lambda>d. digit_value d \<noteq> None) ds)"

definition url_host :: "string \<Rightarrow> string option" where
  "url_host h = (if \<not> list_all host_char h then None
     else if CHR ''['' \<in> set h then
       (let ip = url_cut (CHR '']'') (drop 1 h); port = drop (length ip + 2) h
        in if prefix ''['' h \<and> CHR '']'' \<in> set h \<and> CHR '']'' \<notin> set port \<and> CHR '':'' \<in> set ip \<and> ParseIP ip \<noteq> None \<and> optional_port port
           then Some h else None)
     else (case last_colon h of None \<Rightarrow> Some h | Some i \<Rightarrow> if optional_port (drop i h) then Some h else None))"

definition user_char :: "char \<Rightarrow> bool" where
  "user_char c \<longleftrightarrow> is_alnum c \<or> c \<in> set ''-._:~!$&()*+,;=@'' \<or> c = CHR 0x27"

definition url_authority :: "string \<Rightarrow> string option" where
  "url_authority a = (if CHR ''@'' \<notin> set a then url_host a
     else (let h = rev (url_cut (CHR ''@'') (rev a)) in
       if list_all user_char (take (length a - length h - 1) a) then url_host h else None))"

definition url_Parse :: "string \<Rightarrow> (string \<times> string) option" where
  "url_Parse raw0 = (let raw = url_cut (CHR 0x23) raw0 in
     if list_ex (\<lambda>c. of_char c < (32 :: nat) \<or> of_char c = (127 :: nat)) raw \<or> prefix '':'' raw then None
     else (let (scheme, rest0) = (case url_scheme True raw of Some p \<Rightarrow> p | None \<Rightarrow> ([], raw)); rest = url_cut (CHR ''?'') rest0
        in if \<not> prefix ''/'' rest
           then (if scheme = [] \<and> CHR '':'' \<in> set (url_cut (CHR ''/'') rest) then None else Some (scheme, []))
           else if prefix ''//'' rest \<and> (scheme \<noteq> [] \<or> \<not> prefix ''///'' rest)
           then map_option (Pair scheme) (url_authority (url_cut (CHR ''/'') (drop 2 rest)))
           else Some (scheme, [])))"

datatype transport = Transport_pool ConnectionPool | Transport_tls string ConnectionPool | Transport_doh string

definition NewUpstream :: "int \<Rightarrow> int option \<Rightarrow> string \<Rightarrow> string + transport" where
  "NewUpstream numCPU maxConnections serverUrl =
     (if \<not> go_Contains serverUrl ''://'' then Inr (Transport_pool (NewUDP numCPU serverUrl maxConnections))
      else (case url_Parse serverUrl of
          None \<Rightarrow> Inl ''parse''
        | Some (scheme, host) \<Rightarrow>
            if scheme = ''udp'' then Inr (Transport_pool (NewUDP numCPU host maxConnections))
            else if scheme = ''tcp'' then Inr (Transport_pool (NewTCP numCPU host maxConnections))
            else if scheme = ''tls'' \<or> scheme = ''dot''
              then Inr (Transport_tls (fst (NewDoT serverUrl)) (snd (NewDoT serverUrl)))
            else if scheme = ''https'' \<or> scheme = ''doh'' then Inr (Transport_doh serverUrl)
            else Inl (''unsupported protocol: '' @ scheme)))"

section \<open>Lemmas\<close>

definition probes :: "(bool \<times> duration) list \<Rightarrow> probe_loop \<Rightarrow> probe_loop" where
  "probes ps l = fold (\<lambda>(ok, d). loop_tick ok d) ps l"

definition failing :: "bool list \<Rightarrow> int" where
  "failing rs = int (length (takeWhile Not (rev rs)))"

lemma failing_simps [simp]: "failing [] = 0" "failing (rs @ [ok]) = (if ok then 0 else failing rs + 1)" "0 \<le> failing rs"
  by (simp_all add: failing_def)

lemma probes_simps [simp]: "probes [] l = l" "probes (ps @ [(ok, d)]) l = loop_tick ok d (probes ps l)"
  by (simp_all add: probes_def)

definition verdict_ok :: "NetworkHealthConfig \<Rightarrow> bool list \<Rightarrow> networkHealthChecker \<Rightarrow> bool" where
  "verdict_ok cfg rs c \<longleftrightarrow> nc_config c = cfg \<and> nc_consecutiveFailures c = failing rs
     \<and> (nc_networkHealthy c \<longleftrightarrow> failing rs < max 1 (nh_FailureThreshold cfg))"

lemma verdict_New: "verdict_ok cfg [] (NewNetworkHealthChecker cfg)"
  by (simp add: verdict_ok_def NewNetworkHealthChecker_def)

lemma verdict_probe: "verdict_ok cfg rs c \<Longrightarrow> verdict_ok cfg (rs @ [ok]) (performProbe ok c)"
  using failing_simps(3)[of rs] by (auto simp: verdict_ok_def performProbe_def Let_def simp del: failing_simps(3))

lemma checker_simps: "pl_checker (loop_start t ok d c) = performProbe ok c"
  "pl_checker (loop_tick ok d l) = performProbe ok (pl_checker l)"
  by (simp_all add: loop_start_def loop_tick_def Let_def)

lemma verdict_run: "verdict_ok cfg (ok # map fst ps) (pl_checker (probes ps (loop_start t ok d (NewNetworkHealthChecker cfg))))"
proof (induction ps rule: rev_induct)
  case Nil
  show ?case using verdict_probe[OF verdict_New, of cfg ok] by (simp add: checker_simps)
next
  case (snoc p ps)
  show ?case using verdict_probe[OF snoc, of "fst p"] by (cases p) (simp add: checker_simps)
qed

text \<open>Probes shorter than the intervals start on time.\<close>

definition on_time :: "probe_loop \<Rightarrow> bool" where
  "on_time l \<longleftrightarrow> pl_free l \<le> pl_due l \<and> pl_interval l = getCurrentProbeInterval (pl_checker l)"

lemma interval_default: "nc_config c = DefaultNetworkHealthConfig \<Longrightarrow>
    getCurrentProbeInterval c = (if nc_networkHealthy c then 60 * second else 20 * second)"
  by (simp add: getCurrentProbeInterval_def DefaultNetworkHealthConfig_def minute_def)

lemma config_probe [simp]: "nc_config (performProbe ok c) = nc_config c"
  by (simp add: performProbe_def Let_def)

lemma tick_on_time:
  assumes "on_time l" "nc_config (pl_checker l) = DefaultNetworkHealthConfig" "0 \<le> d" "d < 20 * second"
  shows "on_time (loop_tick ok d l)" "pl_free (loop_tick ok d l) = pl_due l + d"
    "pl_due (loop_tick ok d l) = (let c = performProbe ok (pl_checker l) in
       if nc_networkHealthy c = nc_networkHealthy (pl_checker l) then pl_due l + getCurrentProbeInterval c
       else pl_due l + d + getCurrentProbeInterval c)"
  using assms by (auto simp: on_time_def loop_tick_def Let_def interval_default max_def)

lemma start_on_time: "0 \<le> d \<Longrightarrow> nc_config c = DefaultNetworkHealthConfig \<Longrightarrow> on_time (loop_start t ok d c)"
  by (simp add: on_time_def loop_start_def Let_def interval_default second_def)

lemma run_on_time:
  assumes "0 \<le> d" "\<forall>p \<in> set ps. 0 \<le> snd p \<and> snd p < 20 * second"
  shows "on_time (probes ps (loop_start t ok d (NewNetworkHealthChecker DefaultNetworkHealthConfig)))"
  using assms(2)
proof (induction ps rule: rev_induct)
  case Nil
  show ?case using assms(1) by (simp add: start_on_time NewNetworkHealthChecker_def)
next
  case (snoc p ps)
  have "nc_config (pl_checker (probes ps (loop_start t ok d (NewNetworkHealthChecker DefaultNetworkHealthConfig)))) = DefaultNetworkHealthConfig"
    using verdict_run[of DefaultNetworkHealthConfig ok ps t d] by (simp add: verdict_ok_def)
  then show ?case using tick_on_time(1) snoc by (cases p) auto
qed

section \<open>Properties\<close>

text \<open>C24: In every run of the checker the network counts as down exactly while the last probes, as many as the
  threshold, have failed. With the default settings and probes that end in time an outage is noticed by the
  third failing probe, two minutes after the first one began, and forgotten with the first success.\<close>

theorem network_verdict:
  fixes ok :: bool and ps :: "(bool \<times> duration) list" and cfg :: NetworkHealthConfig and t d :: int
  defines "l \<equiv> probes ps (loop_start t ok d (NewNetworkHealthChecker cfg))"
  shows "(nc_networkHealthy (pl_checker l) \<longleftrightarrow> failing (ok # map fst ps) < max 1 (nh_FailureThreshold cfg))
    \<and> (cfg = DefaultNetworkHealthConfig \<and> 0 \<le> d \<and> (\<forall>p \<in> set ps. 0 \<le> snd p \<and> snd p < 20 * second) \<and> failing (ok # map fst ps) = 0
        \<and> (\<forall>e \<in> {d1, d2, d3, d4}. 0 \<le> e \<and> e < 20 * second) \<longrightarrow>
       (let l2 = loop_tick False d2 (loop_tick False d1 l); l3 = loop_tick False d3 l2; l4 = loop_tick True d4 l3
        in nc_networkHealthy (pl_checker l2) \<and> \<not> nc_networkHealthy (pl_checker l3) \<and> pl_free l3 = pl_due l + 2 * minute + d3
          \<and> nc_networkHealthy (pl_checker l4) \<and> pl_free l4 = pl_free l3 + 20 * second + d4))"
proof (intro conjI impI)
  have v: "verdict_ok cfg (ok # map fst ps) (pl_checker l)" unfolding l_def by (rule verdict_run)
  then show "nc_networkHealthy (pl_checker l) \<longleftrightarrow> failing (ok # map fst ps) < max 1 (nh_FailureThreshold cfg)"
    by (simp add: verdict_ok_def)
  assume a: "cfg = DefaultNetworkHealthConfig \<and> 0 \<le> d \<and> (\<forall>p \<in> set ps. 0 \<le> snd p \<and> snd p < 20 * second) \<and> failing (ok # map fst ps) = 0
    \<and> (\<forall>e \<in> {d1, d2, d3, d4}. 0 \<le> e \<and> e < 20 * second)"
  have t: "on_time l" unfolding l_def using run_on_time a by blast
  have c: "nc_config (pl_checker l) = DefaultNetworkHealthConfig" "nc_consecutiveFailures (pl_checker l) = 0"
    "nc_networkHealthy (pl_checker l)" "nh_FailureThreshold DefaultNetworkHealthConfig = 3"
    using v a by (simp_all add: verdict_ok_def DefaultNetworkHealthConfig_def)
  have d: "0 \<le> d1" "d1 < 20 * second" "0 \<le> d2" "d2 < 20 * second" "0 \<le> d3" "d3 < 20 * second" "0 \<le> d4" "d4 < 20 * second"
    using a by simp_all
  define l1 l2 l3 l4 where l: "l1 = loop_tick False d1 l" "l2 = loop_tick False d2 l1" "l3 = loop_tick False d3 l2" "l4 = loop_tick True d4 l3"
  note p = checker_simps performProbe_def Let_def interval_default
  have 1: "on_time l1" "nc_config (pl_checker l1) = DefaultNetworkHealthConfig" "nc_consecutiveFailures (pl_checker l1) = 1"
    "nc_networkHealthy (pl_checker l1)" "pl_due l1 = pl_due l + 60 * second"
    using tick_on_time[OF t c(1) d(1,2), of False] c by (simp_all add: l p)
  have 2: "on_time l2" "nc_config (pl_checker l2) = DefaultNetworkHealthConfig" "nc_consecutiveFailures (pl_checker l2) = 2"
    "nc_networkHealthy (pl_checker l2)" "pl_due l2 = pl_due l1 + 60 * second"
    using tick_on_time[OF 1(1,2) d(3,4), of False] 1 c(4) unfolding l(2) by (simp_all add: p)
  have 3: "on_time l3" "nc_config (pl_checker l3) = DefaultNetworkHealthConfig" "nc_consecutiveFailures (pl_checker l3) = 3"
    "\<not> nc_networkHealthy (pl_checker l3)" "pl_due l3 = pl_due l2 + d3 + 20 * second" "pl_free l3 = pl_due l2 + d3"
    using tick_on_time[OF 2(1,2) d(5,6), of False] 2 c(4) unfolding l(3) by (simp_all add: p)
  have 4: "nc_networkHealthy (pl_checker l4)" "pl_free l4 = pl_due l3 + d4"
    using tick_on_time[OF 3(1,2) d(7,8), of True] unfolding l(4) by (simp_all add: p)
  show "let l2 = loop_tick False d2 (loop_tick False d1 l); l3 = loop_tick False d3 l2; l4 = loop_tick True d4 l3
      in nc_networkHealthy (pl_checker l2) \<and> \<not> nc_networkHealthy (pl_checker l3) \<and> pl_free l3 = pl_due l + 2 * minute + d3
        \<and> nc_networkHealthy (pl_checker l4) \<and> pl_free l4 = pl_free l3 + 20 * second + d4"
    using 1 2 3 4 unfolding Let_def l[symmetric] by (simp add: minute_def)
qed

theorem network_verdict_witness:
  "\<not> nc_networkHealthy (pl_checker (probes [(False, 0), (False, 0), (False, 0)] (loop_start 0 True 0 (NewNetworkHealthChecker DefaultNetworkHealthConfig))))
   \<and> nc_networkHealthy (pl_checker (probes [(False, 0), (False, 0)] (loop_start 0 True 0 (NewNetworkHealthChecker DefaultNetworkHealthConfig))))"
  using network_verdict[of "[]" 0 True 0 DefaultNetworkHealthConfig 0 0 0 0]
  by (simp add: failing_def probes_def second_def Let_def)

lemma query_servers_fail:
  assumes "\<forall>s \<in> set ss. \<exists>e. queryOne client s host = Inl e"
  shows "\<exists>e. query_servers client host ss lastErr = (ss, Inl e)"
  using assms
proof (induction ss arbitrary: lastErr)
  case (Cons a ss)
  obtain e where "queryOne client a host = Inl e" using Cons.prems by auto
  moreover obtain e' where "query_servers client host ss (Some e) = (ss, Inl e')" using Cons by fastforce
  ultimately show ?case by simp
qed simp

text \<open>C36: When no server resolves a name the breaker opens for every other name as well: for thirty seconds after
  the failure those that are not cached are refused without a query, whatever the servers would answer, and after
  that the first name asked for closes it if it can be resolved. Names with a cached address that has not
  expired stay available throughout.\<close>

theorem bootstrap_circuit_shared:
  assumes "br_cache r host = None" "ParseIP host = None" "\<not> br_circuitOpen r" "healthy \<noteq> Some False"
    and "\<forall>s \<in> set (br_servers r). \<exists>e. queryOne client s host = Inl e" "Resolve client healthy now after host r = (asked, res, r1)"
    and "br_cache r other = None" "ParseIP other = None"
  shows "asked = br_servers r \<and> isl res
    \<and> (now' - after \<le> 30 * second \<longrightarrow> Resolve client' healthy' now' after' other r1
          = ([], Inl (Err_text ''bootstrap circuit breaker open, network unavailable''), r1))
    \<and> (30 * second < now' - after \<and> healthy' \<noteq> Some False \<and> br_servers r = s # ss \<and> queryOne client' s other = Inr ip \<longrightarrow>
        Resolve client' healthy' now' after' other r1
          = ([s], Inr ip, r1\<lparr>br_cache := (br_cache r)(other \<mapsto> (ip, after' + 10 * minute)), br_circuitOpen := False\<rparr>))
    \<and> (\<forall>known addr expiry. br_cache r known = Some (addr, expiry) \<and> now' < expiry \<longrightarrow>
        Resolve client' healthy' now' after' known r1 = ([], Inr addr, r1))"
proof -
  obtain e where q: "query_servers client host (br_servers r) None = (br_servers r, Inl e)"
    using query_servers_fail[OF assms(5)] by blast
  have f: "asked = br_servers r" "isl res" "r1 = r\<lparr>br_circuitOpen := True, br_lastFailure := after\<rparr>"
    using assms(1-4,6) q by (auto simp: Resolve_def resolve_uncached_def Let_def)
  then show ?thesis using assms(7-8) by (auto simp: Resolve_def resolve_uncached_def Let_def)
qed

theorem bootstrap_circuit_shared_witness:
  "\<exists>asked res r1. Resolve (\<lambda>_ _. Inl Canceled) None 0 1 ''missing.example'' (NewResolver [''1.1.1.1'']) = (asked, res, r1)
    \<and> fst (snd (Resolve (\<lambda>_ _. Inr (0, [''8.8.8.8''])) None 2 2 ''dns.google'' r1))
        = Inl (Err_text ''bootstrap circuit breaker open, network unavailable'')"
proof -
  let ?r = "NewResolver [''1.1.1.1'']"
  obtain asked res r1 where r: "Resolve (\<lambda>_ _. Inl Canceled) None 0 1 ''missing.example'' ?r = (asked, res, r1)" by (cases rule: prod_cases3)
  have "fst (snd (Resolve (\<lambda>_ _. Inr (0, [''8.8.8.8''])) None 2 2 ''dns.google'' r1))
      = Inl (Err_text ''bootstrap circuit breaker open, network unavailable'')"
    using bootstrap_circuit_shared[where other = "''dns.google''" and now' = 2
        and client' = "\<lambda>_ _. Inr (0, [''8.8.8.8''])" and healthy' = None and after' = 2 and s = "''1.1.1.1''" and ss = "[]" and ip = "''8.8.8.8''",
        OF _ _ _ _ _ r]
    by (simp add: NewResolver_def queryOne_def ParseIP_def parse_v4_def second_def)
  with r show ?thesis by blast
qed

section \<open>What the transports dial\<close>

definition plain_host :: "string \<Rightarrow> bool" where
  "plain_host h \<longleftrightarrow> h \<noteq> [] \<and> list_all (\<lambda>c. is_alnum c \<or> c = CHR ''.'' \<or> c = CHR ''-'') h"

lemma is_alnum_not: "is_alnum c \<Longrightarrow> c \<notin> {CHR '':'', CHR ''/'', CHR ''?'', CHR 0x23, CHR ''@'', CHR ''['', CHR '']''}"
  by (auto simp: is_alnum_def)

lemma plain_host_not: "plain_host h \<Longrightarrow> c \<in> set h \<Longrightarrow> c \<notin> {CHR '':'', CHR ''/'', CHR ''?'', CHR 0x23, CHR ''@'', CHR ''['', CHR '']''}"
  using is_alnum_not[of c] by (auto simp: plain_host_def list_all_iff)

lemma digit_is_alnum: "digit_value c \<noteq> None \<Longrightarrow> is_alnum c"
  by (simp add: digit_value_def is_alnum_def Let_def split: if_splits)

lemma plain_host_chars: "plain_host h \<Longrightarrow> list_all host_char h"
  by (auto simp: plain_host_def list_all_iff host_char_def)

lemma is_alnum_ascii: "is_alnum c \<Longrightarrow> 48 \<le> (of_char c :: nat) \<and> (of_char c :: nat) < 127"
  by (auto simp: is_alnum_def Let_def)

lemma url_cut_none: "c \<notin> set s \<Longrightarrow> url_cut c s = s"
  by (auto simp: url_cut_def takeWhile_eq_all_conv)

lemma authority_plain:
  assumes "plain_host h" "list_all (\<lambda>c. digit_value c \<noteq> None) p" "a = h \<or> a = h @ CHR '':'' # p"
  shows "url_authority a = Some a" "c \<in> set a \<Longrightarrow> c \<notin> {CHR ''/'', CHR ''?'', CHR 0x23, CHR ''@'', CHR ''['', CHR '']''}"
    "list_all host_char a" "c \<in> set a \<Longrightarrow> 32 \<le> (of_char c :: nat) \<and> (of_char c :: nat) < 127"
proof -
  have p: "x \<in> set p \<Longrightarrow> is_alnum x" for x using assms(2) digit_is_alnum by (auto simp: list_all_iff)
  show n: "c \<in> set a \<Longrightarrow> c \<notin> {CHR ''/'', CHR ''?'', CHR 0x23, CHR ''@'', CHR ''['', CHR '']''}" for c
  proof -
    assume "c \<in> set a"
    then have "c \<in> set h \<or> c = CHR '':'' \<or> c \<in> set p" using assms(3) by auto
    then show ?thesis using plain_host_not[OF assms(1), of c] is_alnum_not[OF p, of c] by (elim disjE) simp_all
  qed
  show h: "list_all host_char a"
  proof -
    have "list_all host_char p" using p by (simp add: list_all_iff host_char_def)
    moreover have "host_char (CHR '':'')" by (simp add: host_char_def)
    ultimately show ?thesis using assms(3) plain_host_chars[OF assms(1)] by (elim disjE) simp_all
  qed
  show "c \<in> set a \<Longrightarrow> 32 \<le> (of_char c :: nat) \<and> (of_char c :: nat) < 127" for c
  proof -
    assume "c \<in> set a"
    then have "c \<in> set h \<or> c = CHR '':'' \<or> c \<in> set p" using assms(3) by auto
    then have "is_alnum c \<or> c = CHR ''.'' \<or> c = CHR ''-'' \<or> c = CHR '':''"
      using assms(1) p by (auto simp: plain_host_def list_all_iff)
    then show ?thesis using is_alnum_ascii[of c] by (elim disjE) simp_all
  qed
  have nc: "CHR '':'' \<notin> set h" "CHR '':'' \<notin> set p"
    using plain_host_not[OF assms(1), of "CHR '':''"] is_alnum_not[OF p, of "CHR '':''"] by auto
  have l: "a = h \<Longrightarrow> last_colon a = None" "a = h @ CHR '':'' # p \<Longrightarrow> last_colon a = Some (length h)"
    using last_colon_None[THEN iffD2, OF nc(1)] last_colon_append[OF nc(2), of h] by simp_all
  have "CHR ''['' \<notin> set a" "CHR ''@'' \<notin> set a" using n by blast+
  then have u: "url_authority a = (case last_colon a of None \<Rightarrow> Some a | Some i \<Rightarrow> if optional_port (drop i a) then Some a else None)"
    using h by (simp only: url_authority_def url_host_def simp_thms if_True if_False)
  have o: "optional_port (CHR '':'' # p)" using assms(2) by (simp only: optional_port_def list.case simp_thms)
  from assms(3) show "url_authority a = Some a"
  proof
    assume "a = h"
    then show ?thesis using u l(1) by simp
  next
    assume e: "a = h @ CHR '':'' # p"
    have d: "drop (length h) a = CHR '':'' # p" using e by simp
    show ?thesis unfolding u l(2)[OF e] option.case d using o by (simp only: if_True)
  qed
qed

lemma url_Parse_plain:
  assumes "plain_host h" "list_all (\<lambda>c. digit_value c \<noteq> None) p" "a = h \<or> a = h @ CHR '':'' # p"
    and "sch \<in> {''udp'', ''tcp'', ''tls''}"
  shows "url_Parse (sch @ ''://'' @ a) = Some (sch, a)"
proof -
  note a = authority_plain[OF assms(1-3)]
  have na: "CHR 0x23 \<notin> set a" "CHR ''?'' \<notin> set a" "CHR ''/'' \<notin> set a" using a(2) by blast+
  have cuts: "url_cut (CHR 0x23) (sch @ ''://'' @ a) = sch @ ''://'' @ a" "url_cut (CHR ''?'') (''//'' @ a) = ''//'' @ a"
    "url_cut (CHR ''/'') a = a"
    using na assms(4) by (auto intro!: url_cut_none)
  have s: "url_scheme True (sch @ ''://'' @ a) = Some (sch, ''//'' @ a)"
    using assms(4) by (auto simp: is_letter_def is_alnum_def digit_value_def lower_char_def)
  have "\<not> list_ex (\<lambda>c. of_char c < (32 :: nat) \<or> of_char c = (127 :: nat)) (sch @ ''://'' @ a)"
    using a(4) assms(4) by (fastforce simp: list_ex_iff)
  moreover have "sch \<noteq> []" "\<not> prefix '':'' (sch @ ''://'' @ a)" using assms(4) by auto
  ultimately show ?thesis unfolding url_Parse_def cuts s Let_def using cuts a(1) by simp
qed

text \<open>C35: An upstream written as host and port is dialled there, without a scheme, with \<open>udp://\<close> or with \<open>tcp://\<close>, but not
  with \<open>tls://\<close>, with a port or without: there the whole URL is taken for the host, so that the address dialled and the name the certificate
  is checked against are texts no resolver knows.\<close>

theorem upstream_dialled:
  assumes "plain_host h" "p \<noteq> []" "list_all (\<lambda>c. digit_value c \<noteq> None) p"
  shows "NewUpstream cpus mc (h @ '':'' @ p) = Inr (Transport_pool (NewConnectionPool cpus (h @ '':'' @ p) ''udp'' (derefOrDefaultVal mc 0) (5 * minute)))
    \<and> NewUpstream cpus mc (''udp://'' @ h @ '':'' @ p) = NewUpstream cpus mc (h @ '':'' @ p)
    \<and> NewUpstream cpus mc (''tcp://'' @ h @ '':'' @ p) = Inr (Transport_pool (NewConnectionPool cpus (h @ '':'' @ p) ''tcp'' (derefOrDefaultVal mc 0) (5 * minute)))
    \<and> (\<exists>pool. NewUpstream cpus mc (''tls://'' @ h @ '':'' @ p) = Inr (Transport_tls (''tls://'' @ h @ '':'' @ p) pool)
         \<and> cp_address pool = ''[tls://'' @ h @ '':'' @ p @ '']:853'')
    \<and> (\<exists>pool. NewUpstream cpus mc (''tls://'' @ h) = Inr (Transport_tls ''tls'' pool) \<and> cp_address pool = ''tls://'' @ h)"
proof -
  let ?a = "h @ CHR '':'' # p"
  have n: "\<forall>c \<in> set h. c \<notin> {CHR '':'', CHR ''['', CHR '']''}" "\<forall>c \<in> set p. c \<notin> {CHR '':'', CHR ''['', CHR '']''}"
    using plain_host_not[OF assms(1)] digit_is_alnum is_alnum_not assms(3) by (fastforce simp: list_all_iff)+
  note u = url_Parse_plain[OF assms(1,3)]
  have nc: "CHR '':'' \<notin> set p" "CHR '':'' \<notin> set (''//'' @ h)" "CHR '':'' \<notin> set h" "CHR ''['' \<notin> set h" "CHR '']'' \<notin> set h"
    "CHR ''/'' \<notin> set ?a" "set h \<inter> {CHR ''['', CHR '']''} = {}" "set p \<inter> {CHR '':'', CHR ''['', CHR '']''} = {}"
    using n authority_plain(2)[OF assms(1,3), of ?a "CHR ''/''"] by auto
  have sp: "SplitHostPort ?a = Some (h, p)"
    using SplitHostPort_JoinHostPort[OF nc(7,8)] nc(3) by (simp add: JoinHostPort_def)
  have plain: "\<not> go_Contains ?a ''://''" using go_Contains_subset[of ?a "''://''"] nc(6) by fastforce
  have urls: "go_Contains (sch @ ''://'' @ x) ''://''" for sch x by (rule go_Contains_mid)
  have l: "last_colon (''tls://'' @ ?a) = Some (length (''tls://'' @ h))" "last_colon (''tls://'' @ h) = Some (length ''tls'')"
    using last_colon_append[OF nc(1), of "''tls://'' @ h"] last_colon_append[OF nc(2), of "''tls''"] by simp_all
  have tls: "SplitHostPort (''tls://'' @ ?a) = None" unfolding SplitHostPort_def l by simp
  have tls0: "SplitHostPort (''tls://'' @ h) = Some (''tls'', ''//'' @ h)"
    unfolding SplitHostPort_def l using nc(4,5) by simp
  have f: "NewUpstream cpus mc (sch @ ''://'' @ x) = (case url_Parse (sch @ ''://'' @ x) of None \<Rightarrow> Inl ''parse''
        | Some (scheme, host) \<Rightarrow>
            if scheme = ''udp'' then Inr (Transport_pool (NewUDP cpus host mc))
            else if scheme = ''tcp'' then Inr (Transport_pool (NewTCP cpus host mc))
            else if scheme = ''tls'' \<or> scheme = ''dot''
              then Inr (Transport_tls (fst (NewDoT (sch @ ''://'' @ x))) (snd (NewDoT (sch @ ''://'' @ x))))
            else if scheme = ''https'' \<or> scheme = ''doh'' then Inr (Transport_doh (sch @ ''://'' @ x))
            else Inl (''unsupported protocol: '' @ scheme))" for sch x
    using urls by (simp only: NewUpstream_def simp_thms if_False)
  have p: "NewUpstream cpus mc ?a = Inr (Transport_pool (NewUDP cpus ?a mc))" using plain by (simp only: NewUpstream_def if_True simp_thms)
  have d: "NewUDP cpus ?a mc = NewConnectionPool cpus ?a ''udp'' (derefOrDefaultVal mc 0) (5 * minute)"
    "NewTCP cpus ?a mc = NewConnectionPool cpus ?a ''tcp'' (derefOrDefaultVal mc 0) (5 * minute)"
    by (simp_all add: NewUDP_def NewTCP_def sp)
  let ?u = "''tls://'' @ ?a"
  have j: "JoinHostPort ?u ''853'' = ''['' @ ?u @ '']:853''" "JoinHostPort ''tls'' (''//'' @ h) = ''tls://'' @ h" by (simp_all add: JoinHostPort_def)
  have "set ?u \<inter> {CHR ''['', CHR '']''} = {}" using nc(7,8) by auto
  then have "SplitHostPort (JoinHostPort ?u ''853'') \<noteq> None" using SplitHostPort_JoinHostPort[of ?u "''853''"] by fastforce
  then have t: "fst (NewDoT ?u) = ?u" "cp_address (snd (NewDoT ?u)) = ''['' @ ?u @ '']:853''"
    unfolding NewDoT_def tls option.case Let_def prod.case by (simp_all only: j(1)[symmetric] append_is_Nil_conv list.distinct simp_thms if_True if_False fst_conv snd_conv
        NewTLSConnectionPool_def ConnectionPool.select_convs)
  have t0: "fst (NewDoT (''tls://'' @ h)) = ''tls''" "cp_address (snd (NewDoT (''tls://'' @ h))) = ''tls://'' @ h"
    by (simp_all add: NewDoT_def tls0[simplified] j(2)[simplified] NewTLSConnectionPool_def Let_def)
  show ?thesis using p f[of "''udp''"] f[of "''tcp''"] f[of "''tls''"] u[of ?a "''udp''"] u[of ?a "''tcp''"] u[of ?a "''tls''"] u[of h "''tls''"] d t t0
    by simp
qed

theorem upstream_dialled_witness:
  "\<exists>pool. NewUpstream 4 None ''tls://dns.google:853'' = Inr (Transport_tls ''tls://dns.google:853'' pool)
    \<and> cp_address pool = ''[tls://dns.google:853]:853''"
  using upstream_dialled[of "''dns.google''" "''853''" 4 None] by (simp add: plain_host_def is_alnum_def digit_value_def)

end
