(* ===== verification/Spec2Isabelle.thy ===== *)
theory Spec2Isabelle
  imports Cache_Runs Ip_Monitor Upstream_Concurrent Dns_Flows Transports Stats_Counters Recursor Network
begin

text \<open>Verification development of SmartDNSSort, a caching DNS server that sorts the addresses of an answer by
  measured latency.

  \<^bold>\<open>The program.\<close> A query reaches \<open>dnsserver/handler_query.go\<close>. Custom and built-in rules, the ad
  blocker and the error cache may answer it; otherwise the caches of \<open>cache/\<close> do, or the manager of
  \<open>upstream/\<close> asks servers with one of five strategies through the connection pools of
  \<open>upstream/transport/\<close>. The addresses found are counted in the pool of \<open>ping/\<close>, measured by its pinger, kept
  up to date by its monitor, and sorted in the background through \<open>cache/sortqueue.go\<close>; \<open>prefetch/\<close> ranks
  them while nothing has been measured and refreshes popular names. \<open>stats/\<close> counts, \<open>webapi/\<close> shows and changes
  settings, \<open>recursor/\<close> runs a resolver of its own, \<open>connectivity/\<close> tells whether there is a network.

  \<^bold>\<open>Theories and sources.\<close>
  \<^item> Foundations: \<open>Prelude\<close> (collections of simplification rules, time, association lists, \<open>sort.Slice\<close>, the locale
    \<open>weak_order\<close>), \<open>Go_List\<close> (\<open>container/list\<close>), \<open>Go_Heap\<close> (\<open>container/heap\<close>), \<open>Go_Strings\<close>, \<open>Go_Text\<close>
    (\<open>strings\<close>, \<open>strconv\<close>, \<open>bufio\<close>), \<open>Go_Net\<close> (\<open>net.IP\<close>), \<open>Go_Num\<close> (conversions of numbers).
  \<^item> \<open>config/\<close>: \<open>Config\<close>; reading and writing the file is in \<open>Web_Api\<close>.
  \<^item> \<open>cache/\<close>: \<open>Lru_Spec\<close> (the abstract LRU list and the locale \<open>lru_store\<close>), \<open>Lru_Cache\<close>, \<open>Cache_List\<close>,
    \<open>Sharding\<close>, \<open>Sharded_Cache\<close>, \<open>Sharded_Lru\<close>, \<open>Cache_Entries\<close>, \<open>Cache_Store\<close>, \<open>Cache_Cleanup\<close>, \<open>Cache_Persist\<close>,
    \<open>Cache_Laws\<close>, \<open>Cache_Runs\<close> (every sequence of its operations and of its index goroutine), \<open>Sort_Queue\<close>,
    \<open>Recent\<close>.
  \<^item> \<open>ping/\<close>: \<open>Ip_Pool\<close>, \<open>Failure_Weight\<close>, \<open>Rtt_Cache\<close>, \<open>Pinger\<close>, \<open>Ip_Monitor\<close>. \<open>prefetch/\<close>: \<open>Prefetch\<close>.
  \<^item> \<open>upstream/\<close>: \<open>Health\<close>, \<open>Upstream_Base\<close>, \<open>Upstream_Tuning\<close>, \<open>Upstream_Query\<close> (sequential and random, locale
    \<open>serial_strategy\<close>), \<open>Upstream_Concurrent\<close> (parallel and racing). \<open>upstream/transport/\<close>: \<open>Conn_Pool\<close>, \<open>Conn_Runs\<close>,
    \<open>Transports\<close>. \<open>upstream/bootstrap/\<close>, \<open>upstream/factory.go\<close> and \<open>connectivity/\<close>: \<open>Network\<close>.
  \<^item> \<open>adblock/\<close>: \<open>Adblock\<close> (matchers, locale \<open>matcher\<close>), \<open>Adblock_Sources\<close>.
  \<^item> \<open>dnsserver/\<close>: \<open>Dns_Response\<close>, \<open>Dns_Custom\<close>, \<open>Dns_Server\<close> (state, cache hits, blocking), \<open>Dns_Query\<close> (handling of a
    query), \<open>Dns_Answers\<close> (its properties), \<open>Dns_Refresh\<close> (sorting, refreshing, callbacks), \<open>Dns_Flows\<close>.
  \<^item> \<open>stats/\<close>: \<open>Stats_Windows\<close>, \<open>Stats_Counters\<close>. \<open>webapi/\<close>: \<open>Web_Config\<close>, \<open>Web_Api\<close>. \<open>recursor/\<close>: \<open>Recursor\<close>.

  Definitions have the names of the functions and types they translate; fields carry a prefix of their record
  (\<open>lru_capacity\<close>, \<open>cfg_Upstream\<close>). A receiver or a struct changed through a pointer is an argument and is returned.

  \<^bold>\<open>Conventions.\<close> Time is an integer of nanoseconds and every reading of a clock an argument. \<open>int\<close> and \<open>int64\<close> are
  \<open>int\<close>, with the wrap-around written out where it matters (\<open>wrap64\<close>); TTLs and other sized integers are words.
  Floating-point numbers are exact rationals, and \<open>math.Pow(2, x)\<close> a parameter. Strings are lists of bytes; upper and
  lower case and white space are those of ASCII. A map that is iterated is an association list, in an order left
  open wherever Go leaves it open; one that is only looked up is a partial function. Errors are values: an option, a
  sum, or the pair of Go. A blocked goroutine, a deadlock or a panic is \<open>None\<close>. Goroutines, callbacks and calls of
  the statistics are emitted as lists that the model of their receiver consumes. A section under a lock is one step;
  where interleaving matters (the connection pool, the sort queue, parallel and racing queries, the caches with
  their access channels and counters, the recursor with its calls and watchers) a step relation or a run over
  events cuts an operation at its locks, channel operations and atomic counters. Third-party packages (DNS wire format, YAML, radix tree, AdGuard engine, gob, HTTP,
  sockets, files) are parameters; what is assumed of them is a named premise with an instance in the witness.

  \<^bold>\<open>What the lemmas show.\<close>
  \<^item> Stores: each cache refines the abstract LRU list, the pointer-level list included; its laws are proved once in
    \<open>lru_store\<close> and interpreted for the three implementations. Keys, TTLs, reading back what was set, expiry, cleaning
    (which can block for ever), what survives a restart (nothing, since the file is refused; what did load would never be
    cleaned, in any run), single flight over every run.
  \<^item> Addresses: the pool counts users exactly, weights and scores stay in their bounds, \<open>PingAndSort\<close> permutes and sorts.
  \<^item> Upstream: the circuit breaker counts failures, the strategies return the first conclusive answer or an answer of
    a server in every interleaving, and when they return nothing at all; the connection pools count their connections
    in every interleaving, and the warm-ups at the start and of the health check take them past the limit; what each upstream address dials.
  \<^item> Server: every query gets at most one message with its own question, the shape of an answer, custom and built-in
    rules, the counters per query, the most frequent names.
  \<^item> Blocking: a loaded filter blocks exactly what one of its lines blocks.
  \<^item> Interface and recursor: validation, tokens, settings across restarts, the life of the recursor's process
    while calls of Start and Stop and its watchers interleave.

  \<^bold>\<open>Bounds and fuel.\<close> No operation of the program is modelled with a bound of its own. Walks over pointers are
  partial functions, shown to return on every state reached; loops with a limit in the source
  (five kept backups, three attempts, ten ICMP packets, ten aliases) have that limit.

  \<^bold>\<open>Not modelled.\<close> System services, command line, logging and installation (\<open>sysinstall/\<close>, \<open>cmd/\<close>, \<open>logger/\<close>) and the
  platform files of \<open>recursor/\<close> (commands, permissions, embedded binaries), which only call the system; the text of
  the default configuration and of the one written for the recursor; the sending of ICMP and TCP probes in
  \<open>ping/ping_probe.go\<close>; the handlers of the web interface that only assemble JSON from values modelled here; the wiring
  and replacement of components when the server starts, stops or is reconfigured; readings of the operating system in
  the statistics; the pool of reusable messages; the merging of simultaneous equal requests by
  \<open>singleflight\<close>; type assertions on values of the program's own types, and \<open>SetSorted\<close> with a nil entry.\<close>

end
